(* ===== verification/Prelude.thy ===== *)
theory Prelude
  imports Main "HOL-Library.List_Lexorder" "HOL-Library.Char_ord"
begin

text \<open>
  The shared vocabulary of the development.

  \<^item> Results: every operation that may raise returns a sum, \<open>Inl\<close> the exception and
    \<open>Inr\<close> the value; \<open>bindR\<close> sequences two such operations the way two Python
    statements are sequenced, and the collection \<open>result_simps\<close> inverts it.
  \<^item> Truthiness: \<open>truthy\<close> is Python's truth value of an optional string
    (\<open>None\<close> and the empty string are both false).
  \<^item> Tables: a database table is a list of rows in insertion order;
    \<open>update_where\<close> is SQL's UPDATE with a WHERE clause.
  \<^item> Numbers as text: \<open>show_nat\<close> and \<open>fmt_d\<close> are Python's decimal formatting with
    zero padding.
\<close>

named_theorems result_simps \<open>inversion of results\<close>
named_theorems table_simps \<open>reads of an updated table\<close>

subsection \<open>Results\<close>

definition bindR :: "'e + 'a \<Rightarrow> ('a \<Rightarrow> 'e + 'b) \<Rightarrow> 'e + 'b" where
  "bindR r f = (case r of Inl e \<Rightarrow> Inl e | Inr x \<Rightarrow> f x)"

lemma bindR_Inl [simp]: "bindR (Inl e) f = Inl e"
  by (simp add: bindR_def)

lemma bindR_Inr [simp]: "bindR (Inr x) f = f x"
  by (simp add: bindR_def)

lemma bindR_eq_Inr [result_simps]:
  "bindR r f = Inr y \<longleftrightarrow> (\<exists>x. r = Inr x \<and> f x = Inr y)"
  by (cases r) simp_all

lemma bindR_eq_Inl [result_simps]:
  "bindR r f = Inl e \<longleftrightarrow> r = Inl e \<or> (\<exists>x. r = Inr x \<and> f x = Inl e)"
  by (cases r) simp_all

text \<open>A guard: raise \<open>e\<close> unless the condition holds.\<close>

definition guardR :: "bool \<Rightarrow> 'e \<Rightarrow> 'e + unit" where
  "guardR b e = (if b then Inr () else Inl e)"

lemma guardR_eq_Inr [result_simps]: "guardR b e = Inr u \<longleftrightarrow> b"
  by (simp add: guardR_def)

lemma guardR_eq_Inl [result_simps]: "guardR b e = Inl e' \<longleftrightarrow> \<not> b \<and> e' = e"
  by (auto simp add: guardR_def)

lemma guardR_True [simp]: "guardR True e = Inr ()"
  and guardR_False [simp]: "guardR False e = Inl e"
  by (simp_all add: guardR_def)

definition is_ok :: "'e + 'a \<Rightarrow> bool" where
  "is_ok r = (case r of Inl _ \<Rightarrow> False | Inr _ \<Rightarrow> True)"

lemma is_ok_simps [simp]: "is_ok (Inr x)" "\<not> is_ok (Inl e)"
  by (simp_all add: is_ok_def)

subsection \<open>Python truth values and fallbacks\<close>

definition truthy :: "string option \<Rightarrow> bool" where
  "truthy s = (case s of None \<Rightarrow> False | Some t \<Rightarrow> t \<noteq> [])"

lemma truthy_simps [simp]: "\<not> truthy None" "truthy (Some (c # cs))" "truthy (Some t) = (t \<noteq> [])"
  by (simp_all add: truthy_def)

text \<open>Python's \<open>a or b\<close> on optional strings.\<close>

definition str_or :: "string option \<Rightarrow> string option \<Rightarrow> string option" where
  "str_or a b = (if truthy a then a else b)"

subsection \<open>Tables\<close>

definition update_where :: "('r \<Rightarrow> bool) \<Rightarrow> ('r \<Rightarrow> 'r) \<Rightarrow> 'r list \<Rightarrow> 'r list" where
  "update_where P f rows = map (\<lambda>r. if P r then f r else r) rows"

definition count_where :: "('r \<Rightarrow> bool) \<Rightarrow> 'r list \<Rightarrow> nat" where
  "count_where P rows = length (filter P rows)"

lemma length_update_where [table_simps]: "length (update_where P f rows) = length rows"
  by (simp add: update_where_def)

lemma update_where_Nil [simp]: "update_where P f [] = []"
  and update_where_Cons [simp]:
    "update_where P f (r # rs) = (if P r then f r else r) # update_where P f rs"
  by (simp_all add: update_where_def)

lemma set_update_where [table_simps]:
  "set (update_where P f rows) = f ` {r \<in> set rows. P r} \<union> {r \<in> set rows. \<not> P r}"
  by (auto simp: update_where_def)

lemma map_update_where [table_simps]:
  "(\<And>r. k (f r) = k r) \<Longrightarrow> map k (update_where P f rows) = map k rows"
  by (simp add: update_where_def)

lemma count_where_none [table_simps]:
  "(\<And>r. \<not> P (f r)) \<Longrightarrow> count_where P (update_where P f rows) = 0"
  by (induction rows) (simp_all add: count_where_def)

lemma update_where_cong:
  "(\<And>r. r \<in> set rows \<Longrightarrow> P r \<Longrightarrow> f r = r) \<Longrightarrow> update_where P f rows = rows"
  by (induction rows) (auto simp: update_where_def)

text \<open>\<open>find_row\<close> is a query that ends in \<open>first()\<close> or \<open>one_or_none()\<close>.\<close>

primrec find_row :: "('r \<Rightarrow> bool) \<Rightarrow> 'r list \<Rightarrow> 'r option" where
  "find_row P [] = None"
| "find_row P (r # rs) = (if P r then Some r else find_row P rs)"

lemma find_row_Some: "find_row P rows = Some r \<Longrightarrow> r \<in> set rows \<and> P r"
  by (induction rows) (auto split: if_splits)

lemma find_row_None: "find_row P rows = None \<longleftrightarrow> (\<forall>r\<in>set rows. \<not> P r)"
  by (induction rows) auto

lemma find_row_unique:
  assumes "distinct (map k rows)" and "r \<in> set rows"
  shows "find_row (\<lambda>x. k x = k r) rows = Some r"
  using assms by (induction rows) (auto simp: image_iff)

text \<open>Tables with a key: a query by key and one more condition, and the update of one row.\<close>

lemma conditional_find:
  assumes "distinct (map k xs)"
  shows "find_row (\<lambda>x. k x = i \<and> P x) xs =
    (case find_row (\<lambda>x. k x = i) xs of None \<Rightarrow> None | Some x \<Rightarrow> if P x then Some x else None)"
  using assms
proof (induction xs)
  case (Cons a xs)
  show ?case
  proof (cases "k a = i")
    case True
    have "\<forall>r\<in>set xs. k r \<noteq> i" using Cons.prems True by (auto simp: image_iff)
    then have "find_row (\<lambda>x. k x = i \<and> P x) xs = None" by (simp add: find_row_None)
    with True show ?thesis by simp
  qed (use Cons in simp)
qed simp

lemma find_row_append:
  "find_row P (xs @ ys) = (case find_row P xs of None \<Rightarrow> find_row P ys | Some x \<Rightarrow> Some x)"
  by (induction xs) auto

lemma find_keyed_update:
  assumes "k q = j"
  shows "find_row (\<lambda>x. k x = i) (update_where (\<lambda>x. k x = j) (\<lambda>_. q) xs) =
    (if i = j \<and> (\<exists>x\<in>set xs. k x = j) then Some q else find_row (\<lambda>x. k x = i) xs)"
  using assms by (induction xs) auto

lemma keys_keyed_update:
  "k q = i \<Longrightarrow> map k (update_where (\<lambda>x. k x = i) (\<lambda>_. q) xs) = map k xs"
  by (induction xs) auto

lemma member_keyed_update:
  assumes "find_row (\<lambda>x. k x = i) xs = Some q"
  shows "x \<in> set (update_where (\<lambda>x. k x = i) (\<lambda>_. q') xs) \<longleftrightarrow> x = q' \<or> x \<in> set xs \<and> k x \<noteq> i"
  using find_row_Some [OF assms] by (auto simp: set_update_where)

lemma count_keyed_update:
  assumes "distinct (map k xs)" "find_row (\<lambda>x. k x = i) xs = Some q" "k q' = i"
  shows "count_where P (update_where (\<lambda>x. k x = i) (\<lambda>_. q') xs) + (if P q then 1 else 0) =
    count_where P xs + (if P q' then 1 else 0)"
  using assms
proof (induction xs)
  case (Cons a xs)
  show ?case
  proof (cases "k a = i")
    case True
    with Cons.prems(1) have "update_where (\<lambda>x. k x = i) (\<lambda>_. q') xs = xs"
      by (intro update_where_cong) (auto simp: image_iff)
    with True Cons.prems(2) show ?thesis by (simp add: count_where_def)
  next
    case False
    with Cons show ?thesis by (auto simp: count_where_def)
  qed
qed simp

lemma count_where_append [table_simps]: "count_where P (xs @ ys) = count_where P xs + count_where P ys"
  by (simp add: count_where_def)

lemma count_where_snoc: "count_where P (xs @ [x]) = count_where P xs + (if P x then 1 else 0)"
  by (simp add: count_where_def)

text \<open>
  A store that writes one row by its key, raising when the row fails the table's checks.
  The services that keep their state in one row per key (the fiscal calendar, a credit
  pool, a subscription) share these laws.
\<close>

locale row_store =
  fixes rows :: "'s \<Rightarrow> 'r list"
    and put :: "'r \<Rightarrow> 's \<Rightarrow> 'e + 's"
    and key :: "'r \<Rightarrow> 'k"
    and ok :: "'r \<Rightarrow> bool"
  assumes put_rows: "put r s = Inr s' \<Longrightarrow>
      ok r \<and> rows s' = update_where (\<lambda>x. key x = key r) (\<lambda>_. r) (rows s)"
    and put_total: "ok r \<Longrightarrow> \<exists>s'. put r s = Inr s'"
begin

lemma put_keys: "put r s = Inr s' \<Longrightarrow> map key (rows s') = map key (rows s)"
  using put_rows [of r s s'] by (auto simp: update_where_def)

lemma put_all_ok:
  "put r s = Inr s' \<Longrightarrow> \<forall>x\<in>set (rows s). ok x \<Longrightarrow> \<forall>x\<in>set (rows s'). ok x"
  using put_rows [of r s s'] by (auto simp: set_update_where)

lemma lookup_put_same:
  assumes "put r s = Inr s'" "find_row (\<lambda>x. key x = key r) (rows s) = Some r0"
  shows "find_row (\<lambda>x. key x = key r) (rows s') = Some r"
  using put_rows [OF assms(1)] find_row_Some [OF assms(2)] find_keyed_update [of key r "key r" "key r" "rows s"] by auto

lemma lookup_put_other:
  assumes "put r s = Inr s'" "k \<noteq> key r"
  shows "find_row (\<lambda>x. key x = k) (rows s') = find_row (\<lambda>x. key x = k) (rows s)"
  using put_rows [OF assms(1)] find_keyed_update [of key r "key r" k "rows s"] assms(2) by simp

end

subsection \<open>State machines\<close>

text \<open>
  The contracts of a step relation: what one step keeps, a run keeps; what one step leaves
  behind in order, a run leaves in order; and a step that implements an abstract one.
\<close>

locale step_invariant =
  fixes step :: "'s \<Rightarrow> 's \<Rightarrow> bool"
    and inv :: "'s \<Rightarrow> bool"
  assumes step_keeps: "step s t \<Longrightarrow> inv s \<Longrightarrow> inv t"
begin

lemma run_keeps: "step\<^sup>*\<^sup>* s t \<Longrightarrow> inv s \<Longrightarrow> inv t"
  by (induction rule: rtranclp_induct) (auto intro: step_keeps)

end

locale step_preorder =
  fixes step :: "'s \<Rightarrow> 's \<Rightarrow> bool"
    and rel :: "'s \<Rightarrow> 's \<Rightarrow> bool"
  assumes rel_refl: "rel s s"
    and rel_trans: "rel s t \<Longrightarrow> rel t u \<Longrightarrow> rel s u"
    and step_rel: "step s t \<Longrightarrow> rel s t"
begin

lemma run_rel: "step\<^sup>*\<^sup>* s t \<Longrightarrow> rel s t"
  by (induction rule: rtranclp_induct) (auto intro: rel_refl rel_trans step_rel)

end

locale simulation =
  fixes cstep :: "'c \<Rightarrow> 'c \<Rightarrow> bool"
    and astep :: "'a \<Rightarrow> 'a \<Rightarrow> bool"
    and abs :: "'c \<Rightarrow> 'a"
  assumes step_sim: "cstep s t \<Longrightarrow> astep (abs s) (abs t)"
begin

lemma run_sim: "cstep\<^sup>*\<^sup>* s t \<Longrightarrow> astep\<^sup>*\<^sup>* (abs s) (abs t)"
  by (induction rule: rtranclp_induct) (auto intro: step_sim rtranclp.rtrancl_into_rtrancl)

end

text \<open>The distinct elements in the order of their first occurrence (\<open>dict.fromkeys\<close>).\<close>

fun remdups_first :: "'a list \<Rightarrow> 'a list" where
  "remdups_first [] = []"
| "remdups_first (x # xs) = x # filter (\<lambda>y. y \<noteq> x) (remdups_first xs)"

subsection \<open>Decimal text\<close>

definition dig :: "nat \<Rightarrow> char" where
  "dig n = char_of (48 + n)"

definition is_dig :: "char \<Rightarrow> bool" where
  "is_dig c \<longleftrightarrow> 48 \<le> (of_char c :: nat) \<and> (of_char c :: nat) \<le> 57"

definition dval :: "char \<Rightarrow> nat" where
  "dval c = of_char c - 48"

fun show_nat :: "nat \<Rightarrow> string" where
  "show_nat n = (if n < 10 then [dig n] else show_nat (n div 10) @ [dig (n mod 10)])"

declare show_nat.simps [simp del]

definition pad0 :: "nat \<Rightarrow> string \<Rightarrow> string" where
  "pad0 w s = replicate (w - length s) (CHR ''0'') @ s"

text \<open>Python's format specification \<open>{n:0wd}\<close>: the sign counts toward the width.\<close>

definition fmt_d :: "nat \<Rightarrow> int \<Rightarrow> string" where
  "fmt_d w n = (if n < 0 then ''-'' @ pad0 (w - 1) (show_nat (nat (- n)))
                else pad0 w (show_nat (nat n)))"

lemma of_char_dig: "n < 10 \<Longrightarrow> of_char (dig n) = 48 + n"
  by (simp add: dig_def)

lemma is_dig_dig [simp]: "n < 10 \<Longrightarrow> is_dig (dig n)"
  by (simp add: is_dig_def of_char_dig)

lemma dval_dig [simp]: "n < 10 \<Longrightarrow> dval (dig n) = n"
  by (simp add: dval_def of_char_dig)

lemma dig_dval: "is_dig c \<Longrightarrow> dig (dval c) = c"
  by (simp add: is_dig_def dval_def dig_def)

lemma dval_less: "is_dig c \<Longrightarrow> dval c < 10"
  by (auto simp add: is_dig_def dval_def)

lemma dig_0: "dig 0 = CHR ''0''"
  by code_simp

lemma dig_chars [simp]:
  "dig 0 = CHR ''0''" "dig (Suc 0) = CHR ''1''" "dig 2 = CHR ''2''" "dig 3 = CHR ''3''"
  "dig 4 = CHR ''4''" "dig 5 = CHR ''5''" "dig 6 = CHR ''6''" "dig 7 = CHR ''7''"
  "dig 8 = CHR ''8''" "dig 9 = CHR ''9''"
  by code_simp+

lemma dig_inj: "a < 10 \<Longrightarrow> b < 10 \<Longrightarrow> dig a = dig b \<longleftrightarrow> a = b"
  by (metis dval_dig)

lemma dig_less: "a < 10 \<Longrightarrow> b < 10 \<Longrightarrow> dig a < dig b \<longleftrightarrow> a < b"
  by (simp add: less_char_def of_char_dig)

lemma show_nat_small: "n < 10 \<Longrightarrow> show_nat n = [dig n]"
  by (simp add: show_nat.simps)

lemma show_nat_step: "10 \<le> n \<Longrightarrow> show_nat n = show_nat (n div 10) @ [dig (n mod 10)]"
  by (simp add: show_nat.simps [of n])

lemma pad0_two: "n < 100 \<Longrightarrow> pad0 2 (show_nat n) = [dig (n div 10), dig (n mod 10)]"
  by (cases "n < 10") (simp_all add: pad0_def show_nat_small show_nat_step dig_0)

lemma pad0_four:
  assumes "n < 10000"
  shows "pad0 4 (show_nat n) =
    [dig (n div 1000), dig (n div 100 mod 10), dig (n div 10 mod 10), dig (n mod 10)]"
proof -
  consider "n < 10" | "10 \<le> n" "n < 100" | "100 \<le> n" "n < 1000" | "1000 \<le> n"
    by linarith
  then show ?thesis
  proof cases
    case 1
    then show ?thesis
      by (simp add: pad0_def show_nat_small dig_0 numeral_3_eq_3)
  next
    case 2
    then have "n div 10 < 10" by simp
    with 2 show ?thesis
      by (simp add: pad0_def show_nat_small show_nat_step [of n] dig_0 numeral_2_eq_2)
  next
    case 3
    then have "n div 10 div 10 < 10" "10 \<le> n div 10" by simp_all
    with 3 show ?thesis
      by (simp add: pad0_def show_nat_small show_nat_step [of n] show_nat_step [of "n div 10"]
          dig_0 div_mult2_eq [symmetric])
  next
    case 4
    with assms have "n div 10 div 10 div 10 < 10" "10 \<le> n div 10" "10 \<le> n div 10 div 10"
      by simp_all
    with 4 show ?thesis
      by (simp add: pad0_def show_nat_small show_nat_step [of n] show_nat_step [of "n div 10"]
          show_nat_step [of "n div 100"] div_mult2_eq [symmetric])
  qed
qed

subsection \<open>A loop that walks an ordered range\<close>

text \<open>
  \<open>while current \<le> stop: visit current; current = step current\<close>, where the step may
  raise. The fuel bounds the number of iterations; \<open>None\<close> is fuel exhausted, and each
  user proves how much fuel is enough.
\<close>

fun walk :: "('p \<Rightarrow> 'p \<Rightarrow> bool) \<Rightarrow> ('p \<Rightarrow> 'e + 'p) \<Rightarrow> nat \<Rightarrow> 'p \<Rightarrow> 'p \<Rightarrow> ('e + 'p list) option" where
  "walk le step 0 cur stop = None"
| "walk le step (Suc k) cur stop =
     (if le cur stop
      then (case step cur of
              Inl e \<Rightarrow> Some (Inl e)
            | Inr nxt \<Rightarrow>
                (case walk le step k nxt stop of
                   None \<Rightarrow> None
                 | Some (Inl e) \<Rightarrow> Some (Inl e)
                 | Some (Inr ps) \<Rightarrow> Some (Inr (cur # ps))))
      else Some (Inr []))"

lemma walk_mono:
  "walk le step k cur stop = Some r \<Longrightarrow> walk le step (Suc k) cur stop = Some r"
proof (induction k arbitrary: cur r)
  case 0
  then show ?case by simp
next
  case (Suc k)
  show ?case
  proof (cases "le cur stop")
    case False
    with Suc.prems show ?thesis by simp
  next
    case True
    show ?thesis
    proof (cases "step cur")
      case (Inl e)
      with True Suc.prems show ?thesis by simp
    next
      case (Inr nxt)
      with True Suc.prems obtain r' where r': "walk le step k nxt stop = Some r'"
        by (auto split: option.splits)
      from Suc.IH [OF r'] have "walk le step (Suc k) nxt stop = Some r'" .
      with True Inr r' Suc.prems show ?thesis
        by (simp only: walk.simps(2) [of le step "Suc k"] walk.simps(2) [of le step k]
            if_True sum.case option.case)
    qed
  qed
qed

end
