(* ===== verification/Periods.thy ===== *)
theory Periods
  imports Prelude
begin

text \<open>
  Period names and calendar dates
  (\<open>robosystems/operations/roboledger/fiscal_calendar/periods.py\<close>), with the parts of
  Python's \<open>datetime\<close> and \<open>calendar\<close> the file calls. A period is its YYYY-MM text, as
  in the code, and two periods are compared as text; \<open>pidx\<close>, the month count since
  year 0, is the abstract value, and the locale \<open>month_line\<close> states what the rest of the
  development needs of it: text order is month order and the next and previous period
  are the neighbours on that line.
\<close>

subsection \<open>Dates and times of the standard library\<close>

datatype pdate = Date (yr: int) (mo: int) (dy: int)

instantiation pdate :: linorder
begin

definition less_eq_pdate :: "pdate \<Rightarrow> pdate \<Rightarrow> bool" where
  "less_eq_pdate a b \<longleftrightarrow> yr a < yr b \<or> yr a = yr b \<and>
     (mo a < mo b \<or> mo a = mo b \<and> dy a \<le> dy b)"

definition less_pdate :: "pdate \<Rightarrow> pdate \<Rightarrow> bool" where
  "less_pdate a b \<longleftrightarrow> yr a < yr b \<or> yr a = yr b \<and>
     (mo a < mo b \<or> mo a = mo b \<and> dy a < dy b)"

instance
  by standard (auto simp: less_eq_pdate_def less_pdate_def pdate.expand)

end

datatype ptime = Time (time_date: pdate) (time_us: int)

instantiation ptime :: linorder
begin

definition less_eq_ptime :: "ptime \<Rightarrow> ptime \<Rightarrow> bool" where
  "less_eq_ptime a b \<longleftrightarrow> time_date a < time_date b \<or> time_date a = time_date b \<and> time_us a \<le> time_us b"

definition less_ptime :: "ptime \<Rightarrow> ptime \<Rightarrow> bool" where
  "less_ptime a b \<longleftrightarrow> time_date a < time_date b \<or> time_date a = time_date b \<and> time_us a < time_us b"

instance
  by standard (auto simp: less_eq_ptime_def less_ptime_def ptime.expand)

end

definition is_leap :: "int \<Rightarrow> bool" where
  "is_leap y \<longleftrightarrow> y mod 4 = 0 \<and> (y mod 100 \<noteq> 0 \<or> y mod 400 = 0)"

definition month_days :: "int \<Rightarrow> int \<Rightarrow> int" where
  "month_days y m = (if m = 2 then (if is_leap y then 29 else 28)
     else if m \<in> {4, 6, 9, 11} then 30 else 31)"

text \<open>\<open>date(y, m, d)\<close> raises outside years 1 to 9999 and outside the month's days.\<close>

definition mk_date :: "int \<Rightarrow> int \<Rightarrow> int \<Rightarrow> string + pdate" where
  "mk_date y m d = (if 1 \<le> y \<and> y \<le> 9999 \<and> 1 \<le> m \<and> m \<le> 12 \<and> 1 \<le> d \<and> d \<le> month_days y m
     then Inr (Date y m d) else Inl ''ValueError'')"

text \<open>\<open>date.toordinal\<close>: days since 31 December of year 0.\<close>

definition days_before_year :: "int \<Rightarrow> int" where
  "days_before_year y = (let p = y - 1 in p * 365 + p div 4 - p div 100 + p div 400)"

definition days_before_month :: "int \<Rightarrow> int \<Rightarrow> int" where
  "days_before_month y m = (\<Sum>k\<leftarrow>[1..m - 1]. month_days y k)"

definition to_ordinal :: "pdate \<Rightarrow> int" where
  "to_ordinal d = days_before_year (yr d) + days_before_month (yr d) (mo d) + dy d"

definition days_between :: "pdate \<Rightarrow> pdate \<Rightarrow> int" where
  "days_between a b = to_ordinal b - to_ordinal a"

subsection \<open>Period names\<close>

datatype period_error = PeriodValueError string

definition newline :: char where
  "newline = char_of (10::nat)"

text \<open>
  \<open>PERIOD_PATTERN.match\<close>: four digits, a dash, a month 01 to 12. The pattern ends in
  \<open>$\<close>, which also matches before one trailing newline, so one is dropped first.
\<close>

definition chomp :: "string \<Rightarrow> string" where
  "chomp s = (if s \<noteq> [] \<and> last s = newline then butlast s else s)"

definition month_text :: "char \<Rightarrow> char \<Rightarrow> bool" where
  "month_text c d \<longleftrightarrow> (c = CHR ''0'' \<and> is_dig d \<and> d \<noteq> CHR ''0'')
     \<or> (c = CHR ''1'' \<and> d \<in> {CHR ''0'', CHR ''1'', CHR ''2''})"

definition year_of :: "char \<Rightarrow> char \<Rightarrow> char \<Rightarrow> char \<Rightarrow> int" where
  "year_of a b c d = int (1000 * dval a + 100 * dval b + 10 * dval c + dval d)"

definition month_of :: "char \<Rightarrow> char \<Rightarrow> int" where
  "month_of c d = int (10 * dval c + dval d)"

definition parse_period :: "string \<Rightarrow> period_error + int \<times> int" where
  "parse_period s = (case chomp s of
     [a, b, c, d, h, m, n] \<Rightarrow>
       (if is_dig a \<and> is_dig b \<and> is_dig c \<and> is_dig d \<and> h = CHR ''-'' \<and> month_text m n
        then Inr (year_of a b c d, month_of m n)
        else Inl (PeriodValueError s))
   | _ \<Rightarrow> Inl (PeriodValueError s))"

definition period_name :: "int \<Rightarrow> int \<Rightarrow> period_error + string" where
  "period_name y m =
     (if \<not> (1 \<le> m \<and> m \<le> 12) then Inl (PeriodValueError (fmt_d 0 m))
      else Inr (fmt_d 4 y @ ''-'' @ fmt_d 2 m))"

definition last_day_of_month :: "int \<Rightarrow> int \<Rightarrow> int" where
  "last_day_of_month y m = month_days y m"

definition add_months :: "string \<Rightarrow> int \<Rightarrow> period_error + string" where
  "add_months p k = bindR (parse_period p) (\<lambda>(y, m).
     let total = m - 1 + k
     in period_name (y + total div 12) (total mod 12 + 1))"

definition next_period :: "string \<Rightarrow> period_error + string" where
  "next_period p = add_months p 1"

definition previous_period :: "string \<Rightarrow> period_error + string" where
  "previous_period p = add_months p (- 1)"

text \<open>The dates raise a plain \<open>ValueError\<close>, here carrying the period that caused it.\<close>

definition period_date_range :: "string \<Rightarrow> period_error + pdate \<times> pdate" where
  "period_date_range p = bindR (parse_period p) (\<lambda>(y, m).
     case mk_date y m 1 of Inl _ \<Rightarrow> Inl (PeriodValueError p)
     | Inr start \<Rightarrow>
         (case mk_date y m (last_day_of_month y m) of Inl _ \<Rightarrow> Inl (PeriodValueError p)
          | Inr end_date \<Rightarrow> Inr (start, end_date)))"

definition period_from_date :: "pdate \<Rightarrow> period_error + string" where
  "period_from_date d = period_name (yr d) (mo d)"

definition current_month_period :: "pdate \<Rightarrow> period_error + string" where
  "current_month_period today = period_name (yr today) (mo today)"

definition last_completed_period :: "pdate \<Rightarrow> period_error + string" where
  "last_completed_period today = bindR (current_month_period today) previous_period"

subsection \<open>The abstract value of a period\<close>

definition wf_period :: "string \<Rightarrow> bool" where
  "wf_period p \<longleftrightarrow> length p = 7 \<and> last p \<noteq> newline \<and> is_ok (parse_period p)"

definition pidx :: "string \<Rightarrow> int" where
  "pidx p = (case parse_period p of Inl _ \<Rightarrow> 0 | Inr (y, m) \<Rightarrow> y * 12 + m - 1)"

text \<open>The text of the month \<open>i\<close> months after January of year 0.\<close>

definition ptext :: "int \<Rightarrow> string" where
  "ptext i = (let y = nat (i div 12); m = nat (i mod 12 + 1) in
     [dig (y div 1000), dig (y div 100 mod 10), dig (y div 10 mod 10), dig (y mod 10),
      CHR ''-'', dig (m div 10), dig (m mod 10)])"

lemma dig_neq_newline: "n < 10 \<Longrightarrow> dig n \<noteq> newline"
  using of_char_dig [of n] by (auto simp: newline_def)

lemma month_text_dig:
  assumes "1 \<le> m" and "m \<le> 12"
  shows "month_text (dig (m div 10)) (dig (m mod 10))"
proof -
  from assms have "m \<in> {1..12}" by simp
  then have "m \<in> set [1..<13]" by auto
  then show ?thesis
    by (simp add: upt_rec, elim disjE) (simp_all, code_simp+)
qed

lemma month_text_dval:
  assumes "month_text c d"
  shows "is_dig c \<and> is_dig d \<and> 1 \<le> 10 * dval c + dval d \<and> 10 * dval c + dval d \<le> 12"
proof (cases "c = CHR ''0''")
  case True
  with assms have "is_dig d" and "d \<noteq> CHR ''0''" by (auto simp: month_text_def)
  moreover from this have "dval d \<noteq> 0" using dig_dval [of d] dig_0 by metis
  moreover have "is_dig (CHR ''0'')" "dval (CHR ''0'') = 0" by code_simp+
  ultimately show ?thesis using True dval_less [of d] by simp
next
  case False
  then have c: "c = CHR ''1''" and "d \<in> {CHR ''0'', CHR ''1'', CHR ''2''}"
    using assms by (auto simp: month_text_def)
  moreover have "is_dig (CHR ''1'')" "dval (CHR ''1'') = 1" "is_dig (CHR ''0'')"
    "dval (CHR ''0'') = 0" "is_dig (CHR ''2'')" "dval (CHR ''2'') = 2" by code_simp+
  ultimately show ?thesis by auto
qed

lemma month_split:
  fixes y m :: int
  assumes "1 \<le> m" and "m \<le> 12"
  shows "(y * 12 + m - 1) div 12 = y" and "(y * 12 + m - 1) mod 12 = m - 1"
proof -
  have st: "0 \<le> r \<Longrightarrow> r < 12 \<Longrightarrow> (12 * y + r) div 12 = y \<and> (12 * y + r) mod 12 = r" for r :: int
    by simp
  have e: "y * 12 + m - 1 = 12 * y + (m - 1)" by simp
  show "(y * 12 + m - 1) div 12 = y" "(y * 12 + m - 1) mod 12 = m - 1"
    unfolding e using st [of "m - 1"] assms by simp_all
qed

lemma period_name_ptext:
  assumes "0 \<le> y" and "y < 10000" and "1 \<le> m" and "m \<le> 12"
  shows "period_name y m = Inr (ptext (y * 12 + m - 1))"
proof -
  note sp = month_split [OF assms(3,4), of y]
  have "nat y < 10000" "nat m < 100" using assms by simp_all
  then show ?thesis
    using assms by (simp add: Let_def sp period_name_def ptext_def fmt_d_def pad0_four pad0_two)
qed

lemma digits_four:
  fixes y :: nat
  shows "1000 * (y div 1000) + 100 * (y div 100 mod 10) + 10 * (y div 10 mod 10) + y mod 10 = y"
proof -
  have "y div 100 = y div 10 div 10" "y div 1000 = y div 100 div 10"
    by (simp_all add: div_mult2_eq [symmetric])
  then show ?thesis
    using div_mult_mod_eq [of y 10] div_mult_mod_eq [of "y div 10" 10]
      div_mult_mod_eq [of "y div 100" 10] by linarith
qed

lemma parse_ptext:
  assumes "0 \<le> i" and "i < 120000"
  shows "parse_period (ptext i) = Inr (i div 12, i mod 12 + 1)"
proof -
  define y where "y = nat (i div 12)"
  define m where "m = nat (i mod 12 + 1)"
  have y: "y < 10000" "int y = i div 12" and m: "1 \<le> m" "m \<le> 12" "int m = i mod 12 + 1"
    using assms unfolding y_def m_def by auto
  have p: "ptext i = [dig (y div 1000), dig (y div 100 mod 10), dig (y div 10 mod 10),
      dig (y mod 10), CHR ''-'', dig (m div 10), dig (m mod 10)]"
    by (simp add: ptext_def Let_def y_def m_def)
  have "m mod 10 < 10" "m div 10 < 10" using m by auto
  then have c: "chomp (ptext i) = ptext i" and mo: "month_of (dig (m div 10)) (dig (m mod 10)) = int m"
    using dig_neq_newline [of "m mod 10"] by (simp_all add: chomp_def p month_of_def)
  have "y div 1000 < 10" using y by simp
  moreover have "year_of (dig (y div 1000)) (dig (y div 100 mod 10)) (dig (y div 10 mod 10)) (dig (y mod 10)) = int y"
    using y digits_four [of y] by (simp add: year_of_def)
  ultimately show ?thesis
    using y m mo month_text_dig [of m] unfolding parse_period_def c
    by (simp add: p)
qed

lemma chomp_length: "length p = 7 \<Longrightarrow> last p \<noteq> newline \<Longrightarrow> chomp p = p"
  by (simp add: chomp_def)

lemma wf_period_ptext: "0 \<le> i \<Longrightarrow> i < 120000 \<Longrightarrow> wf_period (ptext i)"
  using parse_ptext [of i] dig_neq_newline [of "nat (i mod 12 + 1) mod 10"]
  by (simp add: wf_period_def ptext_def Let_def)

lemma pidx_ptext: "0 \<le> i \<Longrightarrow> i < 120000 \<Longrightarrow> pidx (ptext i) = i"
  by (simp add: pidx_def parse_ptext)

lemma dval_digit_split:
  "a < 10 \<Longrightarrow> b < 10 \<Longrightarrow> c < 10 \<Longrightarrow> d < 10 \<Longrightarrow> y = 1000 * a + 100 * b + 10 * c + d \<Longrightarrow>
   y div 1000 = a \<and> y div 100 mod 10 = b \<and> y div 10 mod 10 = c \<and> y mod 10 = (d::nat)"
proof -
  assume d: "a < 10" "b < 10" "c < 10" "d < 10" and "y = 1000 * a + 100 * b + 10 * c + d"
  then have y: "y = 10 * (10 * (10 * a + b) + c) + d" by simp
  have st: "d < 10 \<Longrightarrow> (10 * q + d) div 10 = q \<and> (10 * q + d) mod 10 = d" for q d :: nat
    by simp
  have "y div 100 = y div 10 div 10" "y div 1000 = y div 10 div 10 div 10"
    by (simp_all add: div_mult2_eq [symmetric])
  with st [OF d(4)] st [OF d(3)] st [OF d(2)] show ?thesis unfolding y by metis
qed

lemma less_div_mod:
  fixes y y' :: nat
  shows "y < y' \<longleftrightarrow> y div 10 < y' div 10 \<or> y div 10 = y' div 10 \<and> y mod 10 < y' mod 10"
  using div_mult_mod_eq [of y 10] div_mult_mod_eq [of y' 10]
    mod_less_divisor [of 10 y] mod_less_divisor [of 10 y'] by linarith

lemma eq_div_mod:
  fixes y y' :: nat
  shows "y = y' \<longleftrightarrow> y div 10 = y' div 10 \<and> y mod 10 = y' mod 10"
  using div_mult_mod_eq [of y 10] div_mult_mod_eq [of y' 10] by metis

lemma wf_period_canonical:
  assumes "wf_period p"
  shows "p = ptext (pidx p)" and "0 \<le> pidx p" and "pidx p < 120000"
proof -
  from assms have len: "length p = 7" and nl: "last p \<noteq> newline" and ok: "is_ok (parse_period p)"
    by (simp_all add: wf_period_def)
  from len obtain a b c d h m n where p: "p = [a, b, c, d, h, m, n]"
    by (auto simp: numeral_eq_Suc length_Suc_conv)
  have ch: "chomp p = p" by (rule chomp_length [OF len nl])
  have g: "is_dig a" "is_dig b" "is_dig c" "is_dig d" "h = CHR ''-''" "month_text m n"
    using ok unfolding parse_period_def ch by (auto simp: p split: if_splits)
  have v: "parse_period p = Inr (year_of a b c d, month_of m n)"
    unfolding parse_period_def ch using g by (simp add: p)
  note mt = month_text_dval [OF g(6)]
  note dv = dval_less [OF g(1)] dval_less [OF g(2)] dval_less [OF g(3)] dval_less [OF g(4)]
  define y where "y = 1000 * dval a + 100 * dval b + 10 * dval c + dval d"
  define k where "k = 10 * dval m + dval n"
  have k: "1 \<le> k" "k \<le> 12" and y: "y < 10000" using mt dv by (simp_all add: k_def y_def)
  have idx: "pidx p = int y * 12 + int k - 1"
    by (simp add: pidx_def v year_of_def month_of_def y_def k_def)
  then show "0 \<le> pidx p" "pidx p < 120000" using k y by simp_all
  have dm: "nat (pidx p div 12) = y" "nat (pidx p mod 12 + 1) = k"
    unfolding idx using k month_split [of "int k" "int y"] by simp_all
  have "dval n < 10" using mt dval_less by blast
  then have "k div 10 = dval m" "k mod 10 = dval n"
    by (simp_all add: k_def)
  moreover have "y div 1000 = dval a \<and> y div 100 mod 10 = dval b \<and> y div 10 mod 10 = dval c
      \<and> y mod 10 = dval d"
    by (rule dval_digit_split [OF dv y_def])
  ultimately show "p = ptext (pidx p)"
    unfolding ptext_def dm Let_def using g mt by (simp add: p dig_dval)
qed

lemma wf_period_iff: "wf_period p \<longleftrightarrow> (\<exists>i. 0 \<le> i \<and> i < 120000 \<and> p = ptext i)"
  using wf_period_canonical wf_period_ptext by blast

lemma ptext_less:
  assumes "0 \<le> i" "i < 120000" "0 \<le> j" "j < 120000"
  shows "ptext i < ptext j \<longleftrightarrow> i < j"
proof -
  define y y' m m' where d: "y = nat (i div 12)" "y' = nat (j div 12)"
    "m = nat (i mod 12 + 1)" "m' = nat (j mod 12 + 1)"
  have b: "y < 10000" "y' < 10000" "m \<le> 12" "m' \<le> 12" using assms by (auto simp: d)
  have ij: "i < j \<longleftrightarrow> y < y' \<or> y = y' \<and> m < m'"
  proof -
    have "0 \<le> i div 12" "0 \<le> j div 12" "0 \<le> i mod 12" "0 \<le> j mod 12"
      using assms by (simp_all add: pos_imp_zdiv_nonneg_iff)
    then have "i = int y * 12 + int m - 1" "j = int y' * 12 + int m' - 1" "1 \<le> m" "1 \<le> m'"
      unfolding d by (simp_all add: div_mult_mod_eq)
    then show ?thesis using b by linarith
  qed
  have e: "x div 100 = x div 10 div 10" "x div 1000 = x div 10 div 10 div 10" for x :: nat
    by (simp_all add: div_mult2_eq [symmetric])
  have yy: "y < y' \<or> y = y' \<and> Q \<longleftrightarrow>
      (y div 1000 < y' div 1000 \<or> y div 1000 = y' div 1000 \<and>
       (y div 100 mod 10 < y' div 100 mod 10 \<or> y div 100 mod 10 = y' div 100 mod 10 \<and>
        (y div 10 mod 10 < y' div 10 mod 10 \<or> y div 10 mod 10 = y' div 10 mod 10 \<and>
         (y mod 10 < y' mod 10 \<or> y mod 10 = y' mod 10 \<and> Q))))" for Q
    unfolding e
    using less_div_mod [of y y'] eq_div_mod [of y y']
      less_div_mod [of "y div 10" "y' div 10"] eq_div_mod [of "y div 10" "y' div 10"]
      less_div_mod [of "y div 10 div 10" "y' div 10 div 10"]
      eq_div_mod [of "y div 10 div 10" "y' div 10 div 10"]
    by blast
  have "m div 10 < 10" "m' div 10 < 10" "y div 1000 < 10" "y' div 1000 < 10" using b by auto
  then show ?thesis
    unfolding ij yy less_div_mod [of m m'] ptext_def Let_def d [symmetric]
    by (simp add: dig_less dig_inj)
qed

lemma add_months_ptext:
  assumes "0 \<le> i" "i < 120000" "0 \<le> i + k" "i + k < 120000"
  shows "add_months (ptext i) k = Inr (ptext (i + k))"
proof -
  have "(i mod 12 + k + 12 * (i div 12)) div 12 = i div 12 + (i mod 12 + k) div 12"
    by (rule div_mult_self2) simp
  moreover have "i mod 12 + k + 12 * (i div 12) = i + k" by simp
  ultimately have t: "(i div 12) + (i mod 12 + k) div 12 = (i + k) div 12"
    "(i mod 12 + k) mod 12 = (i + k) mod 12"
    by (simp_all add: mod_add_left_eq)
  have "period_name ((i + k) div 12) ((i + k) mod 12 + 1) = Inr (ptext (i + k))"
    using period_name_ptext [of "(i + k) div 12" "(i + k) mod 12 + 1"] assms by simp
  then show ?thesis
    using t assms by (simp add: add_months_def parse_ptext Let_def)
qed

subsection \<open>The month line\<close>

text \<open>
  What the calendar code relies on: the order of well-formed month values is the order of
  the months, and a step moves by one. \<open>step_line\<close> is the forward part, which the loops
  over months need; \<open>month_line\<close> adds the step back.
\<close>

locale step_line =
  fixes wf :: "'p::linorder \<Rightarrow> bool"
    and idx :: "'p \<Rightarrow> int"
    and top :: int
    and nxt :: "'p \<Rightarrow> 'e + 'p"
  assumes idx_range: "wf p \<Longrightarrow> 0 \<le> idx p \<and> idx p < top"
    and idx_less: "wf p \<Longrightarrow> wf q \<Longrightarrow> p < q \<longleftrightarrow> idx p < idx q"
    and nxt_ok: "wf p \<Longrightarrow> idx p + 1 < top \<Longrightarrow> \<exists>q. nxt p = Inr q \<and> wf q \<and> idx q = idx p + 1"
begin

lemma idx_eq: "wf p \<Longrightarrow> wf q \<Longrightarrow> p = q \<longleftrightarrow> idx p = idx q"
  by (metis idx_less less_irrefl linorder_cases)

lemma idx_le: "wf p \<Longrightarrow> wf q \<Longrightarrow> p \<le> q \<longleftrightarrow> idx p \<le> idx q"
  by (metis idx_less linorder_not_less)

lemma nxt_D:
  assumes "wf p" "idx p + 1 < top" "nxt p = Inr q"
  shows "wf q" "idx q = idx p + 1" "p < q"
  using nxt_ok [OF assms(1,2)] assms idx_less by auto

lemma nxt_neighbour:
  assumes "wf p" "idx p + 1 < top" "nxt p = Inr q" "wf r"
  shows "p < r \<longleftrightarrow> q \<le> r"
  using assms nxt_D [OF assms(1,2,3)] by (simp add: idx_less idx_le) linarith

text \<open>The walk \<open>while current \<le> stop\<close> visits exactly the months of the range, in order.\<close>

lemma walk_range:
  assumes "wf a" "wf b" "idx b + 1 < top" "nat (idx b - idx a + 1) < k"
  shows "\<exists>ps. walk (\<le>) nxt k a b = Some (Inr ps) \<and> map idx ps = [idx a..idx b] \<and> (\<forall>p\<in>set ps. wf p)"
  using assms
proof (induction k arbitrary: a)
  case 0
  then show ?case by simp
next
  case (Suc k)
  show ?case
  proof (cases "a \<le> b")
    case False
    then have "idx b < idx a" using Suc.prems idx_le by fastforce
    with False show ?thesis by (auto intro!: exI [of _ "[]"])
  next
    case True
    then have ab: "idx a \<le> idx b" using Suc.prems idx_le by blast
    with Suc.prems(3) have "idx a + 1 < top" by simp
    with nxt_ok Suc.prems(1) obtain q where q: "nxt a = Inr q" "wf q" "idx q = idx a + 1"
      by blast
    with Suc.IH [OF q(2) Suc.prems(2,3)] Suc.prems(4) ab obtain ps where
      ps: "walk (\<le>) nxt k q b = Some (Inr ps)" "map idx ps = [idx q..idx b]" "\<forall>p\<in>set ps. wf p"
      by fastforce
    have "[idx a..idx b] = idx a # [idx a + 1..idx b]" using ab by (simp add: upto_rec1)
    with True q ps Suc.prems(1) show ?thesis
      by (intro exI [of _ "a # ps"]) simp
  qed
qed

lemma walk_set:
  assumes "wf a" "wf b" "map idx ps = [idx a..idx b]" "\<forall>p\<in>set ps. wf p" "wf r"
  shows "r \<in> set ps \<longleftrightarrow> a \<le> r \<and> r \<le> b"
proof -
  have "r \<in> set ps \<longleftrightarrow> idx r \<in> set (map idx ps)"
    using assms(4,5) idx_eq by auto
  also have "\<dots> \<longleftrightarrow> a \<le> r \<and> r \<le> b"
    unfolding assms(3) using assms(1,2,5) by (simp add: idx_le)
  finally show ?thesis .
qed

end

locale month_line = step_line wf idx top nxt
  for wf :: "'p::linorder \<Rightarrow> bool" and idx and top and nxt :: "'p \<Rightarrow> 'e + 'p" +
  fixes prv :: "'p \<Rightarrow> 'e + 'p"
  assumes prv_ok: "wf p \<Longrightarrow> 0 < idx p \<Longrightarrow> \<exists>q. prv p = Inr q \<and> wf q \<and> idx q = idx p - 1"
begin

lemma prv_nxt:
  assumes "wf p" "idx p + 1 < top" "nxt p = Inr q"
  shows "prv q = Inr p"
proof -
  note q = nxt_D [OF assms]
  then have "0 < idx q" using idx_range assms(1) by force
  with prv_ok [OF q(1)] q idx_eq assms(1) show ?thesis by auto
qed

end

lemma next_period_ptext: "0 \<le> i \<Longrightarrow> i + 1 < 120000 \<Longrightarrow> next_period (ptext i) = Inr (ptext (i + 1))"
  by (simp add: next_period_def add_months_ptext)

lemma previous_period_ptext: "0 < i \<Longrightarrow> i < 120000 \<Longrightarrow> previous_period (ptext i) = Inr (ptext (i - 1))"
  using add_months_ptext [of i "- 1"] by (simp add: previous_period_def)

interpretation pl: month_line wf_period pidx 120000 next_period previous_period
proof unfold_locales
  fix p q :: string
  show "wf_period p \<Longrightarrow> 0 \<le> pidx p \<and> pidx p < 120000"
    using wf_period_canonical by blast
  show "wf_period p \<Longrightarrow> wf_period q \<Longrightarrow> p < q \<longleftrightarrow> pidx p < pidx q"
    by (metis wf_period_canonical ptext_less)
  show "wf_period p \<Longrightarrow> pidx p + 1 < 120000 \<Longrightarrow>
      \<exists>q. next_period p = Inr q \<and> wf_period q \<and> pidx q = pidx p + 1"
    using wf_period_canonical [of p] next_period_ptext [of "pidx p"]
      wf_period_ptext [of "pidx p + 1"] pidx_ptext [of "pidx p + 1"] by auto
  show "wf_period p \<Longrightarrow> 0 < pidx p \<Longrightarrow>
      \<exists>q. previous_period p = Inr q \<and> wf_period q \<and> pidx q = pidx p - 1"
    using wf_period_canonical [of p] previous_period_ptext [of "pidx p"]
      wf_period_ptext [of "pidx p - 1"] pidx_ptext [of "pidx p - 1"] by auto
qed

lemma add_months_wf:
  "wf_period p \<Longrightarrow> 0 \<le> pidx p + k \<Longrightarrow> pidx p + k < 120000 \<Longrightarrow>
   add_months p k = Inr (ptext (pidx p + k))"
  using wf_period_canonical [of p] add_months_ptext [of "pidx p" k] by simp

text \<open>
  Formatting a year and month as a period and parsing it back gives the same year
  and month, and formatting what a well-formed period parses to gives that period.
\<close>

theorem period_roundtrip:
  assumes "0 \<le> y" "y \<le> 9999" "1 \<le> m" "m \<le> 12" "wf_period p"
  shows "bindR (period_name y m) parse_period = Inr (y, m) \<and>
    bindR (parse_period p) (\<lambda>(y, m). period_name y m) = Inr p"
proof
  have i: "0 \<le> y * 12 + m - 1" "y * 12 + m - 1 < 120000" using assms by linarith+
  from assms have "period_name y m = Inr (ptext (y * 12 + m - 1))" by (simp add: period_name_ptext)
  with parse_ptext [OF i] month_split [of m y] assms
  show "bindR (period_name y m) parse_period = Inr (y, m)" by simp
next
  note c = wf_period_canonical [OF assms(5)]
  have "0 \<le> pidx p div 12" "pidx p div 12 < 10000" "1 \<le> pidx p mod 12 + 1" "pidx p mod 12 + 1 \<le> 12"
    using c by (simp_all add: pos_imp_zdiv_nonneg_iff)
  from period_name_ptext [OF this] parse_ptext [OF c(2,3)] c(1)
  show "bindR (parse_period p) (\<lambda>(y, m). period_name y m) = Inr p" by simp
qed

theorem period_roundtrip_witness:
  "bindR (period_name 2026 3) parse_period = Inr (2026, 3) \<and>
   bindR (parse_period ''2026-03'') (\<lambda>(y, m). period_name y m) = Inr ''2026-03''"
proof -
  have "wf_period ''2026-03''" by code_simp
  then show ?thesis using period_roundtrip [of 2026 3 "''2026-03''"] by simp
qed

text \<open>
  Python compares periods as text; for well-formed periods that order is the order of
  the months they name.
\<close>

theorem period_text_order:
  assumes "wf_period p" "wf_period q"
  shows "p < q \<longleftrightarrow> pidx p < pidx q"
  using assms by (rule pl.idx_less)

theorem period_text_order_witness: "''2025-12'' < ''2026-01''"
proof -
  have "wf_period ''2025-12''" "wf_period ''2026-01''" "pidx ''2025-12'' < pidx ''2026-01''"
    by code_simp+
  then show ?thesis using period_text_order by blast
qed

text \<open>
  Month arithmetic is an action of the integers while it stays within years 0 to
  9999: adding \<open>a\<close> months and then \<open>b\<close> is adding \<open>a + b\<close>, so adding \<open>a\<close> and then \<open>-a\<close>
  comes back.
\<close>

theorem add_months_action:
  assumes "wf_period p" "0 \<le> pidx p + a" "pidx p + a < 120000"
    "0 \<le> pidx p + a + b" "pidx p + a + b < 120000"
  shows "bindR (add_months p a) (\<lambda>q. add_months q b) = add_months p (a + b)"
  using assms add_months_wf [of p a] add_months_wf [of p "a + b"]
    add_months_ptext [of "pidx p + a" b] by (simp add: add.assoc)

theorem add_months_action_witness:
  "bindR (add_months ''2026-03'' (- 4)) (\<lambda>q. add_months q 4) = add_months ''2026-03'' 0"
proof -
  have w: "wf_period ''2026-03''" and i: "pidx ''2026-03'' = 24314" by code_simp+
  show ?thesis using add_months_action [OF w, of "- 4" 4] by (simp add: i)
qed

end
