(* ===== verification/Ledger.thy ===== *)
theory Ledger
  imports Complex_Main Periods
begin

text \<open>
  The rows of a tenant's schema that closing a period reads and writes
  (\<open>robosystems/models/extensions/roboledger/\<close>), and the session over them. A table is
  the list of its rows. A JSON metadata column is the list of its keys with the text of
  their values, which is what \<open>metadata->>'key'\<close> reads. Generated row identifiers of the
  audit log and the columns no modelled operation touches are left out.

  \<open>flush_calendar\<close> is \<open>session.flush()\<close> after a write to the calendar row: the database
  checks the row's CHECK constraints there and raises when one fails.
\<close>

subsection \<open>Rows\<close>

datatype period_status = PeriodOpen | PeriodClosing | PeriodClosed

datatype entry_status = EntryDraft | EntryPosted | EntryReversed

datatype event_status = Captured | Classified | Committed | EvPending | Fulfilled | Voided | Superseded

datatype actor_type = ActorUser | ActorAgent | ActorSystem

datatype cal_event_type = Initialized | TargetChanged | EvPeriodClosed | PeriodReopened | TargetAdvancedAuto

text \<open>\<open>FiscalCalendar\<close>: the two pointers of a graph.\<close>

record fiscal_calendar =
  fc_graph_id :: string
  year_start_month :: int
  closed_through :: "string option"
  close_target :: "string option"
  initialized_at :: "ptime option"
  last_close_at :: "ptime option"
  fc_created_by :: "string option"
  fc_updated_by :: "string option"

text \<open>\<open>FiscalCalendarEvent\<close>: one row of the append-only audit log.\<close>

record cal_event =
  ce_graph_id :: string
  ce_type :: cal_event_type
  ce_period :: "string option"
  ce_from :: "string option"
  ce_to :: "string option"
  ce_actor_id :: "string option"
  ce_actor_type :: actor_type
  ce_note :: "string option"
  ce_reason :: "string option"

text \<open>The receipt a close stamps on its period (\<open>_build_close_receipt\<close>).\<close>

record close_receipt =
  cr_version :: int
  cr_period :: string
  cr_closed_at :: ptime
  cr_closed_by :: string
  cr_actor_type :: actor_type
  cr_was_reclose :: bool
  cr_entries_posted :: nat
  cr_published_to_qb :: nat
  cr_posted_locally :: nat
  cr_target_auto_advanced :: bool
  cr_rule_summary :: "(string \<times> nat) list option"
  cr_evaluated :: "string list"
  cr_stamped :: bool
  cr_stamp_note :: "string option"
  cr_stamped_sets :: "(string \<times> string) list"
  cr_statement_rules :: "(string \<times> nat) list option"

record fiscal_period =
  fp_graph_id :: string
  fp_name :: string
  fp_start :: pdate
  fp_end :: pdate
  fp_status :: period_status
  fp_closed_at :: "ptime option"
  fp_closed_by :: "string option"
  fp_receipt :: "close_receipt option"

text \<open>
  \<open>Entry\<close>. \<open>en_event\<close> is \<open>triggered_by_event_id\<close>, \<open>en_structure\<close> is \<open>source_structure_id\<close>.
  The rows are in creation order, which \<open>ORDER BY created_at\<close> reads.
\<close>

record entry =
  en_id :: string
  en_type :: string
  en_posting_date :: pdate
  en_status :: entry_status
  en_posted_at :: "ptime option"
  en_event :: "string option"
  en_structure :: "string option"
  en_transaction :: "string option"
  en_reversal_of :: "string option"
  en_memo :: "string option"

text \<open>\<open>Transaction\<close>: the parent row of journal entries; \<open>tx_event\<close> is \<open>triggered_by_event_id\<close>.\<close>

record transaction_row =
  tx_id :: string
  tx_type :: string
  tx_amount :: int
  tx_date :: pdate
  tx_description :: "string option"
  tx_source :: string
  tx_connection :: "string option"
  tx_status :: string
  tx_posted_at :: "ptime option"
  tx_event :: "string option"

text \<open>\<open>LineItem\<close>: integer cents, one side of an entry.\<close>

record line_item =
  li_entry :: string
  li_element :: string
  li_debit :: int
  li_credit :: int

text \<open>
  The payload a sync captured for a posted event whose source changed: entry specs with
  their lines, in the list shape or the flat one. A line that is not an object is \<open>None\<close>.
\<close>

record accepted_line =
  al_element :: "string option"
  al_external :: "string option"
  al_debit :: "int option"
  al_credit :: "int option"

record accepted_spec =
  as_lines :: "accepted_line option list"
  as_posting_date :: "string option"
  as_external :: "string option"
  as_memo :: "string option"

record drift_payload =
  dp_entries :: "accepted_spec list option"
  dp_flat :: accepted_spec
  dp_status :: "string option"
  dp_connection :: "string option"

text \<open>
  \<open>Event\<close>. The string-valued keys of the metadata column are \<open>ev_meta\<close>; the obligation
  count and the void history a schedule's originator carries there, the captured payload of
  a reconciling item and the references of \<open>qb_linked_txns\<close> (the type and the id of each, where
  they are not empty; \<open>None\<close> for a reference that is no object) are fields.
\<close>

record event =
  ev_id :: string
  ev_type :: string
  ev_occurred_at :: ptime
  ev_effective_at :: "ptime option"
  ev_status :: event_status
  ev_source :: string
  ev_external_id :: "string option"
  ev_agent :: "string option"
  ev_drift :: bool
  ev_drift_payload :: "drift_payload option"
  ev_meta :: "(string \<times> string) list"
  ev_linked :: "(string option \<times> string option) option list"
  ev_obligated_by :: "string option"
  ev_discharges :: "string option"
  ev_replaces :: "string option"
  ev_replaced_by :: "string option"
  ev_pending_count :: "int option"
  ev_void_history :: "(nat \<times> string \<times> string option) list"

text \<open>\<open>EntryTemplate\<close> and the keys of a schedule structure's metadata.\<close>

record entry_template =
  tp_debit :: string
  tp_credit :: string
  tp_entry_type :: string
  tp_memo :: string
  tp_auto_reverse :: bool

record structure_row =
  st_id :: string
  st_name :: string
  st_block_type :: string
  st_active :: bool
  st_template :: "entry_template option"
  st_created_event :: "string option"
  st_end_date :: "pdate option"
  st_truncations :: "(pdate \<times> string \<times> string \<times> nat) list"
  st_original :: "int option"
  st_asset :: "string option"

text \<open>
  \<open>Fact\<close>: the value is in dollars; a double is read as the number it stands for. The opening
  balance of a schedule has no start, and no comparison with it is true.
\<close>

record fact =
  fa_structure :: string
  fa_element :: string
  fa_set :: string
  fa_scope :: string
  fa_instant :: bool
  fa_start :: "pdate option"
  fa_end :: pdate
  fa_value :: rat

text \<open>\<open>Element\<close>: an account, with the identity it has in its source system.\<close>

record element_row =
  el_id :: string
  el_code :: "string option"
  el_name :: "string option"
  el_external_source :: "string option"
  el_external_id :: "string option"
  el_connection :: "string option"

record fact_set =
  fs_id :: string
  fs_start :: pdate
  fs_end :: pdate
  fs_type :: string
  fs_report :: "string option"
  fs_scenario :: "string option"

record verification =
  vr_fact_set :: "string option"
  vr_rule :: "string option"
  vr_status :: string

record rule_row =
  ru_id :: string
  ru_structure :: "string option"
  ru_pattern :: string
  ru_origin :: string

text \<open>The session of one tenant schema; an event's dimensions are pairs of the two identifiers.\<close>

record ledger =
  calendars :: "fiscal_calendar list"
  audit :: "cal_event list"
  fperiods :: "fiscal_period list"
  entries :: "entry list"
  line_items :: "line_item list"
  events :: "event list"
  structures :: "structure_row list"
  elements :: "element_row list"
  facts :: "fact list"
  fact_sets :: "fact_set list"
  verifications :: "verification list"
  transactions :: "transaction_row list"
  rule_rows :: "rule_row list"
  event_dimensions :: "(string \<times> string) list"

definition starts_from :: "pdate \<Rightarrow> fact \<Rightarrow> bool" where
  "starts_from d f = (case fa_start f of None \<Rightarrow> False | Some a \<Rightarrow> d \<le> a)"

definition starts_after :: "pdate \<Rightarrow> fact \<Rightarrow> bool" where
  "starts_after d f = (case fa_start f of None \<Rightarrow> False | Some a \<Rightarrow> d < a)"

definition meta_get :: "event \<Rightarrow> string \<Rightarrow> string option" where
  "meta_get e k = map_of (ev_meta e) k"

subsection \<open>Database checks\<close>

definition le_check :: "string option \<Rightarrow> string option \<Rightarrow> bool" where
  "le_check through target = (case (through, target) of
     (Some c, Some t) \<Rightarrow> c \<le> t | _ \<Rightarrow> True)"

text \<open>
  The CHECK constraints of \<open>fiscal_calendar\<close>: the start month is 1 to 12, and the
  target is not before the closed pointer where both are set.
\<close>

definition calendar_check :: "fiscal_calendar \<Rightarrow> bool" where
  "calendar_check c \<longleftrightarrow> 1 \<le> year_start_month c \<and> year_start_month c \<le> 12 \<and>
     le_check (closed_through c) (close_target c)"

text \<open>\<open>CHECK (start_date < end_date)\<close> and the unique constraint of \<open>fiscal_periods\<close>.\<close>

definition period_key :: "fiscal_period \<Rightarrow> string \<times> string" where
  "period_key p = (fp_graph_id p, fp_name p)"

definition periods_check :: "fiscal_period list \<Rightarrow> bool" where
  "periods_check ps \<longleftrightarrow> distinct (map period_key ps) \<and> (\<forall>p\<in>set ps. fp_start p < fp_end p)"

subsection \<open>Well-formed ledgers\<close>

text \<open>One calendar row per graph (\<open>uq_fiscal_calendar_graph\<close>), each passing its checks.\<close>

definition ledger_ok :: "ledger \<Rightarrow> bool" where
  "ledger_ok s \<longleftrightarrow> distinct (map fc_graph_id (calendars s)) \<and>
     (\<forall>c\<in>set (calendars s). calendar_check c) \<and> periods_check (fperiods s)"

lemma ledger_okD:
  assumes "ledger_ok s"
  shows "distinct (map fc_graph_id (calendars s))"
    and "c \<in> set (calendars s) \<Longrightarrow> calendar_check c"
    and "periods_check (fperiods s)"
  using assms by (auto simp: ledger_ok_def)

lemma le_check_simps [simp]:
  "le_check None t" "le_check c None" "le_check (Some a) (Some b) \<longleftrightarrow> a \<le> b"
  by (cases c; simp add: le_check_def)+

end
