(* ===== verification/FiscalCalendar.thy ===== *)
theory FiscalCalendar
  imports Ledger
begin

text \<open>
  The fiscal calendar service
  (\<open>robosystems/operations/roboledger/fiscal_calendar/service.py\<close>): the pointers
  \<open>closed_through\<close> and \<open>close_target\<close>, the sequence rules that move them, the audit log,
  and the creation of period rows. The close gate is in \<open>CloseGate\<close>.

  Each method of \<open>FiscalCalendarService\<close> is a function from the session to an exception
  or the new session with the method's result. The clock, the row-lock outcome and the
  insert race are the fields of \<open>env\<close>.
\<close>

datatype fc_error =
    NotInitialized
  | AlreadyInitialized
  | InvalidCloseTarget
  | AdvanceSequence
  | ReopenWithoutReason
  | RowLocked
  | CheckViolation
  | BadPeriod period_error

record env =
  env_now :: ptime
  env_today :: pdate
  calendar_lock_free :: bool
  period_lock_free :: bool
  insert_race :: bool

definition liftP :: "period_error + 'a \<Rightarrow> fc_error + 'a" where
  "liftP r = (case r of Inl e \<Rightarrow> Inl (BadPeriod e) | Inr x \<Rightarrow> Inr x)"

lemma liftP_Inr [simp]: "liftP (Inr x) = Inr x"
  and liftP_Inl [simp]: "liftP (Inl e) = Inl (BadPeriod e)"
  by (simp_all add: liftP_def)

lemma liftP_eq_Inr [result_simps]: "liftP r = Inr x \<longleftrightarrow> r = Inr x"
  by (cases r) (simp_all add: liftP_def)

subsection \<open>Reads\<close>

definition get :: "ledger \<Rightarrow> string \<Rightarrow> fiscal_calendar option" where
  "get s g = find_row (\<lambda>c. fc_graph_id c = g) (calendars s)"

definition require :: "ledger \<Rightarrow> string \<Rightarrow> fc_error + fiscal_calendar" where
  "require s g = (case get s g of None \<Rightarrow> Inl NotInitialized | Some c \<Rightarrow> Inr c)"

text \<open>The same read under \<open>FOR UPDATE\<close>, with a bounded wait for the row.\<close>

definition require_locked :: "env \<Rightarrow> ledger \<Rightarrow> string \<Rightarrow> fc_error + fiscal_calendar" where
  "require_locked v s g =
     (if \<not> calendar_lock_free v then Inl RowLocked
      else case get s g of None \<Rightarrow> Inl NotInitialized | Some c \<Rightarrow> Inr c)"

subsection \<open>Writes of the calendar row and the audit log\<close>

definition flush_calendar :: "fiscal_calendar \<Rightarrow> ledger \<Rightarrow> fc_error + ledger" where
  "flush_calendar c s =
     (if calendar_check c
      then Inr (s\<lparr>calendars := update_where (\<lambda>r. fc_graph_id r = fc_graph_id c) (\<lambda>_. c) (calendars s)\<rparr>)
      else Inl CheckViolation)"

definition record_event ::
  "fiscal_calendar \<Rightarrow> cal_event_type \<Rightarrow> string option \<Rightarrow> string option \<Rightarrow> string option \<Rightarrow>
   string option \<Rightarrow> actor_type \<Rightarrow> string option \<Rightarrow> string option \<Rightarrow> ledger \<Rightarrow> ledger" where
  "record_event c ty p from_v to_v actor aty note reason s = s\<lparr>audit := audit s @
     [\<lparr>ce_graph_id = fc_graph_id c, ce_type = ty, ce_period = p, ce_from = from_v, ce_to = to_v,
       ce_actor_id = actor, ce_actor_type = aty, ce_note = note, ce_reason = reason\<rparr>]\<rparr>"

subsection \<open>Creation\<close>

definition get_or_create ::
  "env \<Rightarrow> ledger \<Rightarrow> string \<Rightarrow> int \<Rightarrow> string option \<Rightarrow> fc_error + ledger \<times> fiscal_calendar" where
  "get_or_create v s g month created_by =
     (case get s g of
        Some c \<Rightarrow> Inr (s, c)
      | None \<Rightarrow>
          (let c = \<lparr>fc_graph_id = g, year_start_month = month, closed_through = None,
                    close_target = None, initialized_at = None, last_close_at = None,
                    fc_created_by = created_by, fc_updated_by = created_by\<rparr>
           in if insert_race v then Inl AlreadyInitialized
              else if \<not> calendar_check c then Inl CheckViolation
              else Inr (s\<lparr>calendars := calendars s @ [c]\<rparr>, c)))"

definition initialize ::
  "env \<Rightarrow> ledger \<Rightarrow> string \<Rightarrow> string option \<Rightarrow> int \<Rightarrow> string option \<Rightarrow> actor_type \<Rightarrow>
   string option \<Rightarrow> fc_error + ledger \<times> fiscal_calendar" where
  "initialize v s g through month actor aty note =
     (let existing = get s g in
      bindR (guardR (\<not> (case existing of None \<Rightarrow> False | Some c \<Rightarrow> initialized_at c \<noteq> None))
               AlreadyInitialized) (\<lambda>_.
      bindR (case through of
               None \<Rightarrow> Inr ()
             | Some p \<Rightarrow>
                 (case parse_period p of
                    Inl _ \<Rightarrow> Inl InvalidCloseTarget
                  | Inr _ \<Rightarrow>
                      bindR (liftP (last_completed_period (env_today v))) (\<lambda>last_valid.
                      guardR (\<not> last_valid < p) InvalidCloseTarget))) (\<lambda>_.
      bindR (case existing of
               Some c \<Rightarrow> Inr (s, c)
             | None \<Rightarrow> get_or_create v s g month actor) (\<lambda>(s1, c).
      bindR (if truthy through
             then bindR (liftP (next_period (the through))) (\<lambda>t. Inr (Some t))
             else Inr None) (\<lambda>target.
      let c1 = c\<lparr>year_start_month := month, closed_through := through, close_target := target,
                 initialized_at := Some (env_now v), fc_updated_by := actor\<rparr> in
      bindR (flush_calendar c1 s1) (\<lambda>s2.
      Inr (record_event c1 Initialized None None through actor aty note None s2, c1)))))))"

subsection \<open>The close target\<close>

definition set_close_target ::
  "env \<Rightarrow> ledger \<Rightarrow> string \<Rightarrow> string \<Rightarrow> string option \<Rightarrow> actor_type \<Rightarrow> string option \<Rightarrow>
   fc_error + ledger \<times> fiscal_calendar" where
  "set_close_target v s g p actor aty note =
     (case parse_period p of
        Inl _ \<Rightarrow> Inl InvalidCloseTarget
      | Inr _ \<Rightarrow>
          bindR (require_locked v s g) (\<lambda>c.
          bindR (liftP (last_completed_period (env_today v))) (\<lambda>last_valid.
          if last_valid < p then Inl InvalidCloseTarget
          else if truthy (closed_through c) \<and> p < the (closed_through c) then Inl InvalidCloseTarget
          else
            let previous = close_target c;
                c1 = c\<lparr>close_target := Some p, fc_updated_by := actor\<rparr>
            in bindR (flush_calendar c1 s) (\<lambda>s1.
               Inr (record_event c1 TargetChanged None previous (Some p) actor aty note None s1, c1)))))"

subsection \<open>Advancing and retreating the closed pointer\<close>

definition earliest_open_period :: "ledger \<Rightarrow> string \<Rightarrow> string option" where
  "earliest_open_period s g =
     (case sort_key fp_start [p \<leftarrow> fperiods s. fp_graph_id p = g \<and> fp_status p \<noteq> PeriodClosed] of
        [] \<Rightarrow> None
      | p # _ \<Rightarrow> Some (fp_name p))"

definition is_latest_sequential_close ::
  "ledger \<Rightarrow> string \<Rightarrow> fiscal_calendar option \<Rightarrow> string \<Rightarrow> fc_error + bool" where
  "is_latest_sequential_close s g cal p =
     (case cal of
        None \<Rightarrow> Inr False
      | Some c \<Rightarrow>
          (case closed_through c of
             Some t \<Rightarrow> bindR (liftP (next_period t)) (\<lambda>n. Inr (n = p))
           | None \<Rightarrow> Inr (earliest_open_period s g = Some p)))"

definition expected_close :: "ledger \<Rightarrow> string \<Rightarrow> fiscal_calendar \<Rightarrow> string \<Rightarrow> fc_error + string" where
  "expected_close s g c p =
     (if truthy (closed_through c) then liftP (next_period (the (closed_through c)))
      else Inr (the (str_or (earliest_open_period s g) (Some p))))"

definition advance_closed_through ::
  "env \<Rightarrow> ledger \<Rightarrow> string \<Rightarrow> string \<Rightarrow> string option \<Rightarrow> actor_type \<Rightarrow> string option \<Rightarrow>
   fc_error + ledger \<times> fiscal_calendar" where
  "advance_closed_through v s g p actor aty note =
     bindR (require_locked v s g) (\<lambda>c.
     bindR (expected_close s g c p) (\<lambda>expected.
     if p \<noteq> expected then Inl AdvanceSequence
     else
       let previous = closed_through c;
           c1 = c\<lparr>closed_through := Some p, last_close_at := Some (env_now v), fc_updated_by := actor\<rparr>
       in bindR (flush_calendar c1 s) (\<lambda>s1.
          let s2 = record_event c1 EvPeriodClosed (Some p) previous (Some p) actor aty note None s1
          in (case close_target c1 of
                None \<Rightarrow> Inr (s2, c1)
              | Some t \<Rightarrow>
                  if t \<le> p
                  then bindR (liftP (next_period p)) (\<lambda>n.
                       let c2 = c1\<lparr>close_target := Some n\<rparr>
                       in bindR (flush_calendar c2 s2) (\<lambda>s3.
                          Inr (record_event c2 TargetAdvancedAuto None (Some t) (Some n) actor
                                 ActorSystem (Some ''Auto-advanced after close_target reached'') None s3, c2)))
                  else Inr (s2, c1)))))"

definition record_reclose ::
  "env \<Rightarrow> ledger \<Rightarrow> string \<Rightarrow> string \<Rightarrow> string option \<Rightarrow> actor_type \<Rightarrow> string option \<Rightarrow>
   fc_error + ledger \<times> fiscal_calendar" where
  "record_reclose v s g p actor aty note =
     bindR (require_locked v s g) (\<lambda>c.
     let c1 = c\<lparr>last_close_at := Some (env_now v), fc_updated_by := actor\<rparr>
     in bindR (flush_calendar c1 s) (\<lambda>s1.
        Inr (record_event c1 EvPeriodClosed (Some p) (closed_through c1) (closed_through c1) actor aty
               (str_or note (Some ''Re-close of previously reopened period'')) None s1, c1)))"

definition retreat_closed_through ::
  "env \<Rightarrow> ledger \<Rightarrow> string \<Rightarrow> string \<Rightarrow> string \<Rightarrow> string option \<Rightarrow> actor_type \<Rightarrow> string option \<Rightarrow>
   fc_error + ledger \<times> fiscal_calendar" where
  "retreat_closed_through v s g p reason actor aty note =
     (if reason = [] then Inl ReopenWithoutReason
      else
        bindR (require_locked v s g) (\<lambda>c.
        let previous = closed_through c in
        bindR (if closed_through c = Some p
               then bindR (liftP (previous_period p)) (\<lambda>q.
                    let c1 = c\<lparr>closed_through := Some q, fc_updated_by := actor\<rparr>
                    in bindR (flush_calendar c1 s) (\<lambda>s1. Inr (s1, c1)))
               else Inr (s, c)) (\<lambda>(s1, c1).
        Inr (record_event c1 PeriodReopened (Some p) previous (closed_through c1) actor aty note
               (Some reason) s1, c1))))"

subsection \<open>Catching up\<close>

text \<open>
  The periods from the first one to close up to the target. The source's loop has no
  bound of its own; the fuel is two more than the number of months between the ends.
\<close>

definition walk_fuel :: "string \<Rightarrow> string \<Rightarrow> nat" where
  "walk_fuel a b = nat (pidx b - pidx a) + 2"

definition period_walk :: "string \<Rightarrow> string \<Rightarrow> (period_error + string list) option" where
  "period_walk a b = walk (\<le>) next_period (walk_fuel a b) a b"

definition catch_up_sequence ::
  "fiscal_calendar \<Rightarrow> (ledger \<times> string) option \<Rightarrow> (fc_error + string list) option" where
  "catch_up_sequence c ses =
     (case close_target c of
        None \<Rightarrow> Some (Inr [])
      | Some target \<Rightarrow>
          (case closed_through c of
             Some t \<Rightarrow>
               if target \<le> t then Some (Inr [])
               else (case next_period t of
                       Inl e \<Rightarrow> Some (Inl (BadPeriod e))
                     | Inr start \<Rightarrow> map_option liftP (period_walk start target))
           | None \<Rightarrow>
               (case ses of
                  None \<Rightarrow> Some (Inr [target])
                | Some (s, g) \<Rightarrow>
                    map_option liftP
                      (period_walk (the (str_or (earliest_open_period s g) (Some target))) target))))"

definition gap_periods ::
  "fiscal_calendar \<Rightarrow> (ledger \<times> string) option \<Rightarrow> (fc_error + nat) option" where
  "gap_periods c ses = map_option (\<lambda>r. bindR r (\<lambda>ps. Inr (length ps))) (catch_up_sequence c ses)"

subsection \<open>Period rows\<close>

definition new_period :: "env \<Rightarrow> string \<Rightarrow> string option \<Rightarrow> string \<Rightarrow> pdate \<Rightarrow> pdate \<Rightarrow> fiscal_period" where
  "new_period v g through p ps pe =
     (let closed = truthy through \<and> p \<le> the through in
      \<lparr>fp_graph_id = g, fp_name = p, fp_start = ps, fp_end = pe,
       fp_status = (if closed then PeriodClosed else PeriodOpen),
       fp_closed_at = (if closed then Some (env_now v) else None),
       fp_closed_by = (if closed then Some ''initialize'' else None),
       fp_receipt = None\<rparr>)"

text \<open>The body of the seeding loop for each month in turn.\<close>

fun seed_periods ::
  "env \<Rightarrow> string \<Rightarrow> string option \<Rightarrow> string set \<Rightarrow> string list \<Rightarrow> fc_error + fiscal_period list" where
  "seed_periods v g through existing [] = Inr []"
| "seed_periods v g through existing (p # ps) =
     (if p \<in> existing then seed_periods v g through existing ps
      else bindR (liftP (period_date_range p)) (\<lambda>(a, b).
           bindR (seed_periods v g through existing ps) (\<lambda>rows.
           Inr (new_period v g through p a b # rows))))"

definition ensure_fiscal_periods ::
  "env \<Rightarrow> ledger \<Rightarrow> string \<Rightarrow> string \<Rightarrow> string \<Rightarrow> string option \<Rightarrow> (fc_error + ledger \<times> nat) option" where
  "ensure_fiscal_periods v s g start_p end_p through =
     (let existing = fp_name ` {p \<in> set (fperiods s). fp_graph_id p = g} in
      map_option (\<lambda>r.
        bindR (liftP r) (\<lambda>ps.
        bindR (seed_periods v g through existing ps) (\<lambda>rows.
        Inr (s\<lparr>fperiods := fperiods s @ rows\<rparr>, length rows))))
      (period_walk start_p end_p))"

subsection \<open>Laws of the calendar store\<close>

interpretation cs: row_store calendars flush_calendar fc_graph_id calendar_check
  by unfold_locales (auto simp: flush_calendar_def split: if_splits)

lemma flush_calendar_eq_Inr [result_simps]:
  "flush_calendar c s = Inr s' \<longleftrightarrow> calendar_check c \<and>
     s' = s\<lparr>calendars := update_where (\<lambda>r. fc_graph_id r = fc_graph_id c) (\<lambda>_. c) (calendars s)\<rparr>"
  by (auto simp: flush_calendar_def)

lemma get_Some_graph: "get s g = Some c \<Longrightarrow> fc_graph_id c = g \<and> c \<in> set (calendars s)"
  unfolding get_def by (drule find_row_Some) simp

lemma get_flush_same:
  assumes "get s g = Some c0" "fc_graph_id c = g" "flush_calendar c s = Inr s'"
  shows "get s' g = Some c"
  using cs.lookup_put_same [OF assms(3)] assms(1,2) by (simp add: get_def)

lemma get_flush_other:
  "flush_calendar c s = Inr s' \<Longrightarrow> h \<noteq> fc_graph_id c \<Longrightarrow> get s' h = get s h"
  unfolding get_def by (rule cs.lookup_put_other)

lemma get_record_event [simp]:
  "get (record_event c ty p f t a aty n r s) g = get s g"
  by (simp add: get_def record_event_def)

lemma fperiods_record_event [simp]:
  "fperiods (record_event c ty p f t a aty n r s) = fperiods s"
  by (simp add: record_event_def)

lemma calendars_record_event [simp]:
  "calendars (record_event c ty p f t a aty n r s) = calendars s"
  by (simp add: record_event_def)

lemma ledger_ok_record_event [simp]:
  "ledger_ok (record_event c ty p f t a aty n r s) \<longleftrightarrow> ledger_ok s"
  by (simp add: ledger_ok_def)

lemma ledger_ok_flush:
  assumes "ledger_ok s" "flush_calendar c s = Inr s'"
  shows "ledger_ok s'"
proof -
  have "fperiods s' = fperiods s" using assms(2) by (auto simp: result_simps)
  then show ?thesis
    using assms(1) cs.put_keys [OF assms(2)] cs.put_all_ok [OF assms(2)]
    by (simp add: ledger_ok_def)
qed

lemma get_ok: "ledger_ok s \<Longrightarrow> get s g = Some c \<Longrightarrow> calendar_check c"
  using get_Some_graph ledger_okD(2) by blast

lemma require_locked_eq_Inr [result_simps]:
  "require_locked v s g = Inr c \<longleftrightarrow> calendar_lock_free v \<and> get s g = Some c"
  by (auto simp: require_locked_def split: option.splits)

text \<open>
  What every operation of the service may do to a ledger: keep it well formed, touch the
  calendar of its own graph only, extend the audit log and leave the other tables alone.
\<close>

definition calendar_frame :: "string \<Rightarrow> ledger \<Rightarrow> ledger \<Rightarrow> bool" where
  "calendar_frame g s s' \<longleftrightarrow>
     (\<forall>h. h \<noteq> g \<longrightarrow> get s' h = get s h) \<and> (\<exists>evs. audit s' = audit s @ evs) \<and>
     fperiods s' = fperiods s \<and> entries s' = entries s \<and> events s' = events s \<and>
     line_items s' = line_items s \<and> facts s' = facts s \<and> structures s' = structures s \<and>
     fact_sets s' = fact_sets s \<and> verifications s' = verifications s \<and>
     (ledger_ok s \<longrightarrow> ledger_ok s')"

lemma calendar_frame_refl [simp]: "calendar_frame g s s"
  by (simp add: calendar_frame_def)

lemma calendar_frame_trans:
  "calendar_frame g s t \<Longrightarrow> calendar_frame g t u \<Longrightarrow> calendar_frame g s u"
  unfolding calendar_frame_def by (metis append.assoc)

lemma calendar_frame_flush:
  assumes "flush_calendar c s = Inr s'" "fc_graph_id c = g"
  shows "calendar_frame g s s'"
  using assms get_flush_other [OF assms(1)] ledger_ok_flush [of s c s']
  by (auto simp: calendar_frame_def result_simps)

lemma calendar_frame_event:
  "calendar_frame g s t \<Longrightarrow> calendar_frame g s (record_event c ty p f to_v a aty n r t)"
  by (auto simp: calendar_frame_def) (auto simp: record_event_def)

lemma get_append_other:
  "fc_graph_id c \<noteq> h \<Longrightarrow> get (s\<lparr>calendars := calendars s @ [c]\<rparr>) h = get s h"
proof -
  assume h: "fc_graph_id c \<noteq> h"
  have "find_row (\<lambda>x. fc_graph_id x = h) (xs @ [c]) = find_row (\<lambda>x. fc_graph_id x = h) xs" for xs
    using h by (induction xs) auto
  then show ?thesis by (simp add: get_def)
qed

lemma get_append_same:
  "get s g = None \<Longrightarrow> fc_graph_id c = g \<Longrightarrow> get (s\<lparr>calendars := calendars s @ [c]\<rparr>) g = Some c"
proof -
  assume h: "get s g = None" "fc_graph_id c = g"
  have "find_row (\<lambda>x. fc_graph_id x = g) xs = None \<Longrightarrow>
      find_row (\<lambda>x. fc_graph_id x = g) (xs @ [c]) = Some c" for xs
    using h(2) by (induction xs) auto
  with h(1) show ?thesis by (simp add: get_def)
qed

lemma get_or_create_frame:
  assumes "get_or_create v s g m a = Inr (s', c)"
  shows "calendar_frame g s s' \<and> get s' g = Some c"
proof (cases "get s g")
  case (Some c0)
  with assms show ?thesis by (simp add: get_or_create_def)
next
  case None
  with assms have s': "s' = s\<lparr>calendars := calendars s @ [c]\<rparr>" and g: "fc_graph_id c = g"
    and ok: "calendar_check c"
    by (auto simp: get_or_create_def Let_def split: if_splits)
  have "g \<notin> fc_graph_id ` set (calendars s)"
    using None by (auto simp: get_def find_row_None)
  then have "ledger_ok s \<Longrightarrow> ledger_ok s'"
    using s' g ok by (auto simp: ledger_ok_def)
  then show ?thesis
    using None s' g get_append_other [of c _ s] get_append_same by (auto simp: calendar_frame_def)
qed

lemma initialize_frame:
  assumes "initialize v s g through m a aty note = Inr (s', c)"
  shows "calendar_frame g s s' \<and> get s' g = Some c \<and> closed_through c = through"
proof -
  from assms obtain s1 c0 t s2 where
    1: "(case get s g of Some c \<Rightarrow> Inr (s, c) | None \<Rightarrow> get_or_create v s g m a) = Inr (s1, c0)"
    and c: "c = c0\<lparr>year_start_month := m, closed_through := through, close_target := t,
                 initialized_at := Some (env_now v), fc_updated_by := a\<rparr>"
    and 2: "flush_calendar c s1 = Inr s2"
    and s': "s' = record_event c Initialized None None through a aty note None s2"
    by (auto simp: initialize_def Let_def bindR_eq_Inr split: prod.splits)
  from 1 have f: "calendar_frame g s s1" "get s1 g = Some c0"
    using get_or_create_frame [of v s g m a s1 c0] by (auto split: option.splits)
  then have g: "fc_graph_id c = g" using get_Some_graph c by fastforce
  from calendar_frame_trans [OF f(1) calendar_frame_flush [OF 2 g]]
  have "calendar_frame g s s'" unfolding s' by (rule calendar_frame_event)
  then show ?thesis using get_flush_same [OF f(2) g 2] c s' by simp
qed

lemma set_close_target_frame:
  assumes "set_close_target v s g p a aty note = Inr (s', c)"
  shows "calendar_frame g s s' \<and> get s' g = Some c"
proof -
  from assms obtain c0 s1 where
    1: "get s g = Some c0" "c = c0\<lparr>close_target := Some p, fc_updated_by := a\<rparr>"
    "flush_calendar c s = Inr s1"
    "s' = record_event c TargetChanged None (close_target c0) (Some p) a aty note None s1"
    by (auto simp: set_close_target_def Let_def bindR_eq_Inr require_locked_eq_Inr
        split: sum.splits if_splits)
  then have g: "fc_graph_id c = g" using get_Some_graph by fastforce
  from calendar_frame_flush [OF 1(3) g] have "calendar_frame g s s'"
    unfolding 1(4) by (rule calendar_frame_event)
  moreover have "get s' g = Some c" using get_flush_same [OF 1(1) g 1(3)] 1(4) by simp
  ultimately show ?thesis using 1(1,2) by simp
qed

lemma record_reclose_frame:
  assumes "record_reclose v s g p a aty note = Inr (s', c)"
  shows "calendar_frame g s s' \<and> get s' g = Some c \<and>
    (\<exists>c0. get s g = Some c0 \<and> closed_through c = closed_through c0 \<and> close_target c = close_target c0)"
proof -
  from assms obtain c0 s1 n where
    1: "get s g = Some c0" "c = c0\<lparr>last_close_at := Some (env_now v), fc_updated_by := a\<rparr>"
    "flush_calendar c s = Inr s1"
    "s' = record_event c EvPeriodClosed (Some p) (closed_through c) (closed_through c) a aty n None s1"
    by (auto simp: record_reclose_def Let_def bindR_eq_Inr require_locked_eq_Inr)
  then have g: "fc_graph_id c = g" using get_Some_graph by fastforce
  from calendar_frame_flush [OF 1(3) g] have "calendar_frame g s s'"
    unfolding 1(4) by (rule calendar_frame_event)
  moreover have "get s' g = Some c" using get_flush_same [OF 1(1) g 1(3)] 1(4) by simp
  ultimately show ?thesis using 1(1,2) by simp
qed

lemma retreat_frame:
  assumes "retreat_closed_through v s g p reason a aty note = Inr (s', c)"
  shows "calendar_frame g s s' \<and> get s' g = Some c \<and>
    (\<exists>c0. get s g = Some c0 \<and> close_target c = close_target c0 \<and>
       (if closed_through c0 = Some p then \<exists>q. previous_period p = Inr q \<and> closed_through c = Some q
        else closed_through c = closed_through c0))"
proof -
  from assms obtain c0 where c0: "get s g = Some c0"
    by (auto simp: retreat_closed_through_def Let_def bindR_eq_Inr require_locked_eq_Inr split: if_splits)
  show ?thesis
  proof (cases "closed_through c0 = Some p")
    case False
    with assms c0 show ?thesis
      by (auto simp: retreat_closed_through_def Let_def bindR_eq_Inr require_locked_eq_Inr
          intro: calendar_frame_event split: if_splits)
  next
    case True
    with assms c0 obtain q s1 where
      1: "previous_period p = Inr q" "c = c0\<lparr>closed_through := Some q, fc_updated_by := a\<rparr>"
      "flush_calendar c s = Inr s1"
      "s' = record_event c PeriodReopened (Some p) (closed_through c0) (closed_through c) a aty note (Some reason) s1"
      by (auto simp: retreat_closed_through_def Let_def bindR_eq_Inr require_locked_eq_Inr liftP_eq_Inr
          split: if_splits)
    then have g: "fc_graph_id c = g" using c0 get_Some_graph by fastforce
    from calendar_frame_flush [OF 1(3) g] have "calendar_frame g s s'"
      unfolding 1(4) by (rule calendar_frame_event)
    moreover have "get s' g = Some c" using get_flush_same [OF c0 g 1(3)] 1(4) by simp
    ultimately show ?thesis using True c0 1(1,2) by simp
  qed
qed

subsection \<open>Advancing\<close>

definition new_events :: "ledger \<Rightarrow> ledger \<Rightarrow> cal_event list" where
  "new_events s s' = drop (length (audit s)) (audit s')"

lemma audit_flush: "flush_calendar c s = Inr s' \<Longrightarrow> audit s' = audit s"
  by (auto simp: flush_calendar_def split: if_splits)

lemma audit_record_event:
  "audit (record_event c ty p f t a aty n r s) = audit s @
     [\<lparr>ce_graph_id = fc_graph_id c, ce_type = ty, ce_period = p, ce_from = f, ce_to = t,
       ce_actor_id = a, ce_actor_type = aty, ce_note = n, ce_reason = r\<rparr>]"
  by (simp add: record_event_def)

text \<open>The calendar an advance writes before the target is looked at.\<close>

definition advanced :: "env \<Rightarrow> string \<Rightarrow> string option \<Rightarrow> fiscal_calendar \<Rightarrow> fiscal_calendar" where
  "advanced v p actor c =
     c\<lparr>closed_through := Some p, last_close_at := Some (env_now v), fc_updated_by := actor\<rparr>"

lemma advance_blocked:
  assumes "get s g = Some c" "calendar_lock_free v" "expected_close s g c p = Inr p"
    "close_target c = Some t" "t < p"
  shows "advance_closed_through v s g p a aty note = Inl CheckViolation"
proof -
  have "\<not> calendar_check (advanced v p a c)"
    using assms by (auto simp add: calendar_check_def advanced_def)
  then have "flush_calendar (advanced v p a c) s = Inl CheckViolation"
    by (simp add: flush_calendar_def)
  with assms show ?thesis
    by (simp add: advance_closed_through_def require_locked_def advanced_def Let_def)
qed

lemma advance_inversion:
  assumes "advance_closed_through v s g p a aty note = Inr (s', c')" "get s g = Some c"
  shows "\<exists>s1. flush_calendar (advanced v p a c) s = Inr s1 \<and> expected_close s g c p = Inr p \<and>
    (let s2 = record_event (advanced v p a c) EvPeriodClosed (Some p) (closed_through c) (Some p) a aty note None s1
     in if close_target c = Some p
        then \<exists>n s3. next_period p = Inr n \<and> c' = (advanced v p a c)\<lparr>close_target := Some n\<rparr> \<and>
          flush_calendar c' s2 = Inr s3 \<and>
          s' = record_event c' TargetAdvancedAuto None (Some p) (Some n) a ActorSystem
                 (Some ''Auto-advanced after close_target reached'') None s3
        else c' = advanced v p a c \<and> s' = s2)"
proof -
  from assms obtain s1 where 1: "expected_close s g c p = Inr p" "flush_calendar (advanced v p a c) s = Inr s1"
    by (auto simp: advance_closed_through_def Let_def bindR_eq_Inr require_locked_eq_Inr advanced_def
        split: if_splits)
  then have le: "close_target c = Some t \<Longrightarrow> p \<le> t" for t
    by (simp add: flush_calendar_def calendar_check_def advanced_def split: if_splits)
  show ?thesis
  proof (cases "close_target c = Some p")
    case True
    with assms 1 show ?thesis
      by (auto simp: advance_closed_through_def Let_def bindR_eq_Inr require_locked_eq_Inr advanced_def
          liftP_eq_Inr)
  next
    case False
    then have "close_target c = Some t \<Longrightarrow> \<not> t \<le> p" for t using le [of t] by force
    with False assms 1 show ?thesis
      by (auto simp: advance_closed_through_def Let_def bindR_eq_Inr require_locked_eq_Inr advanced_def
          split: option.splits)
  qed
qed

lemma advance_closed_through_facts:
  assumes "advance_closed_through v s g p actor aty note = Inr (s', c')" and "get s g = Some c"
  shows "calendar_frame g s s' \<and> get s' g = Some c' \<and> expected_close s g c p = Inr p \<and>
    closed_through c' = Some p \<and>
    (if close_target c = Some p then \<exists>n. next_period p = Inr n \<and> close_target c' = Some n
     else close_target c' = close_target c) \<and>
    map ce_type (new_events s s') =
      EvPeriodClosed # (if close_target c = Some p then [TargetAdvancedAuto] else [])"
proof -
  let ?c1 = "advanced v p actor c"
  from advance_inversion [OF assms] obtain s1 where
    f1: "flush_calendar ?c1 s = Inr s1" and e: "expected_close s g c p = Inr p" and
    tl: "let s2 = record_event ?c1 EvPeriodClosed (Some p) (closed_through c) (Some p) actor aty note None s1
     in if close_target c = Some p
        then \<exists>n s3. next_period p = Inr n \<and> c' = ?c1\<lparr>close_target := Some n\<rparr> \<and>
          flush_calendar c' s2 = Inr s3 \<and>
          s' = record_event c' TargetAdvancedAuto None (Some p) (Some n) actor ActorSystem
                 (Some ''Auto-advanced after close_target reached'') None s3
        else c' = ?c1 \<and> s' = s2" by blast
  define s2 where "s2 = record_event ?c1 EvPeriodClosed (Some p) (closed_through c) (Some p) actor aty note None s1"
  have g: "fc_graph_id ?c1 = g" using get_Some_graph [OF assms(2)] by (simp add: advanced_def)
  have fr: "calendar_frame g s s2"
    unfolding s2_def by (rule calendar_frame_event [OF calendar_frame_flush [OF f1 g]])
  have g2: "get s2 g = Some ?c1" using get_flush_same [OF assms(2) g f1] by (simp add: s2_def)
  have a2: "audit s2 = audit s @ drop (length (audit s)) (audit s2)"
    "map ce_type (drop (length (audit s)) (audit s2)) = [EvPeriodClosed]"
    by (simp_all add: s2_def audit_record_event audit_flush [OF f1])
  show ?thesis
  proof (cases "close_target c = Some p")
    case False
    with tl have "c' = ?c1" "s' = s2" by (simp_all add: s2_def Let_def)
    with False fr g2 e a2 show ?thesis by (simp add: advanced_def new_events_def)
  next
    case True
    with tl obtain n s3 where n: "next_period p = Inr n" and c': "c' = ?c1\<lparr>close_target := Some n\<rparr>"
      and f2: "flush_calendar c' s2 = Inr s3"
      and s': "s' = record_event c' TargetAdvancedAuto None (Some p) (Some n) actor ActorSystem
                 (Some ''Auto-advanced after close_target reached'') None s3"
      by (auto simp: Let_def s2_def)
    have g': "fc_graph_id c' = g" using g c' by simp
    have "calendar_frame g s s'" unfolding s'
      by (rule calendar_frame_event [OF calendar_frame_trans [OF fr calendar_frame_flush [OF f2 g']]])
    moreover have "get s' g = Some c'" using get_flush_same [OF g2 g' f2] s' by simp
    moreover have "map ce_type (new_events s s') = [EvPeriodClosed, TargetAdvancedAuto]"
      using a2(2) unfolding new_events_def s' audit_record_event audit_flush [OF f2]
      by (subst a2(1)) (simp add: a2(2))
    ultimately show ?thesis using True n c' e by (simp add: advanced_def)
  qed
qed


text \<open>A small ledger for the witnesses: graph kg1, closed through 2026-01, three periods.\<close>

definition demo_env :: env where
  "demo_env = \<lparr>env_now = Time (Date 2026 5 2) 0, env_today = Date 2026 5 2,
     calendar_lock_free = True, period_lock_free = True, insert_race = False\<rparr>"

definition demo_period :: "string \<Rightarrow> pdate \<Rightarrow> pdate \<Rightarrow> period_status \<Rightarrow> fiscal_period" where
  "demo_period p a b st = \<lparr>fp_graph_id = ''kg1'', fp_name = p, fp_start = a, fp_end = b,
     fp_status = st, fp_closed_at = None, fp_closed_by = None, fp_receipt = None\<rparr>"

definition demo_calendar :: fiscal_calendar where
  "demo_calendar = \<lparr>fc_graph_id = ''kg1'', year_start_month = 1, closed_through = Some ''2026-01'',
     close_target = Some ''2026-02'', initialized_at = None, last_close_at = None,
     fc_created_by = None, fc_updated_by = None\<rparr>"

definition demo_ledger :: ledger where
  "demo_ledger = \<lparr>calendars = [demo_calendar], audit = [],
     fperiods = [demo_period ''2026-01'' (Date 2026 1 1) (Date 2026 1 31) PeriodClosed,
                 demo_period ''2026-02'' (Date 2026 2 1) (Date 2026 2 28) PeriodOpen,
                 demo_period ''2026-03'' (Date 2026 3 1) (Date 2026 3 31) PeriodOpen],
     entries = [], line_items = [], events = [], structures = [], elements = [], facts = [], fact_sets = [],
     verifications = [], transactions = [], rule_rows = [], event_dimensions = []\<rparr>"

lemma demo_get: "get demo_ledger ''kg1'' = Some demo_calendar"
  by (simp add: get_def demo_ledger_def demo_calendar_def)

lemma demo_next: "next_period ''2026-01'' = Inr ''2026-02''" "next_period ''2026-02'' = Inr ''2026-03''"
  by code_simp+

lemma demo_order: "''2026-01'' \<le> ''2026-02''" "''2026-02'' \<le> ''2026-03''" "\<not> ''2026-02'' \<le> ''2026-01''"
  by code_simp+


text \<open>
  Setting the close target to the period already closed is accepted, but it leaves the
  calendar in a state from which the next close cannot advance: the advance writes the
  closed pointer before it moves the target, and the database refuses a target that is
  before the closed pointer.
\<close>

theorem target_at_closed_blocks_next_close:
  assumes "ledger_ok s" "calendar_lock_free v" "get s g = Some c" "closed_through c = Some t"
    "wf_period t" "pidx t + 1 < 120000" "last_completed_period (env_today v) = Inr lv" "t \<le> lv"
  shows "\<exists>s1 c1. set_close_target v s g t actor aty note = Inr (s1, c1) \<and> ledger_ok s1 \<and>
    (\<exists>p. next_period t = Inr p \<and>
       (\<forall>w. calendar_lock_free w \<longrightarrow>
          advance_closed_through w s1 g p actor aty note = Inl CheckViolation))"
proof -
  let ?c1 = "c\<lparr>close_target := Some t, fc_updated_by := actor\<rparr>"
  from assms(5,6) obtain p where p: "next_period t = Inr p" and tp: "t < p"
    using pl.nxt_ok pl.nxt_D(3) by blast
  have ok: "calendar_check ?c1"
    using get_ok [OF assms(1,3)] assms(4) by (simp add: calendar_check_def)
  obtain y m where "parse_period t = Inr (y, m)"
    using assms(5) by (cases "parse_period t") (auto simp: wf_period_def)
  then have set_ok: "set_close_target v s g t actor aty note =
      Inr (record_event ?c1 TargetChanged None (close_target c) (Some t) actor aty note None
        (s\<lparr>calendars := update_where (\<lambda>r. fc_graph_id r = fc_graph_id ?c1) (\<lambda>_. ?c1) (calendars s)\<rparr>), ?c1)"
    (is "_ = Inr (?s1, _)")
    using assms ok by (simp add: set_close_target_def require_locked_def flush_calendar_def Let_def
        not_less)
  from set_close_target_frame [OF set_ok] have g1: "get ?s1 g = Some ?c1" and "ledger_ok ?s1"
    using assms(1) by (auto simp: calendar_frame_def)
  moreover have "expected_close ?s1 g ?c1 p = Inr p"
    using assms(4,5) p by (auto simp: expected_close_def wf_period_def)
  then have "calendar_lock_free w \<Longrightarrow> advance_closed_through w ?s1 g p actor aty note = Inl CheckViolation" for w
    by (intro advance_blocked [OF g1 _ _ _ tp]) simp_all
  ultimately show ?thesis using set_ok p by blast
qed

theorem target_at_closed_blocks_next_close_witness:
  "\<exists>s1 c1. set_close_target demo_env demo_ledger ''kg1'' ''2026-01'' None ActorUser None = Inr (s1, c1) \<and>
    ledger_ok s1 \<and> (\<exists>p. next_period ''2026-01'' = Inr p \<and>
       (\<forall>w. calendar_lock_free w \<longrightarrow>
          advance_closed_through w s1 ''kg1'' p None ActorUser None = Inl CheckViolation))"
proof (rule target_at_closed_blocks_next_close [OF _ _ demo_get])
  show "ledger_ok demo_ledger"
    by (simp add: ledger_ok_def demo_ledger_def demo_calendar_def demo_period_def calendar_check_def
        demo_order periods_check_def period_key_def less_pdate_def)
  show "last_completed_period (env_today demo_env) = Inr ''2026-04''" by code_simp
  show "wf_period ''2026-01''" "pidx ''2026-01'' + 1 < 120000" "''2026-01'' \<le> ''2026-04''" by code_simp+
qed (simp_all add: demo_env_def demo_calendar_def)

subsection \<open>The catch-up sequence\<close>

lemma period_walk_wf:
  assumes "wf_period a" "wf_period b" "pidx b + 1 < 120000"
  shows "\<exists>ps. period_walk a b = Some (Inr ps) \<and> map pidx ps = [pidx a..pidx b] \<and>
    (\<forall>p\<in>set ps. wf_period p)"
  unfolding period_walk_def by (rule pl.walk_range) (use assms in \<open>auto simp: walk_fuel_def\<close>)

text \<open>
  With both pointers set, the periods to close are exactly the months after the closed
  pointer up to and including the target, oldest first, and the gap is their number.
\<close>

theorem catch_up_sequence_exact:
  assumes "closed_through c = Some t" "close_target c = Some u"
    "wf_period t" "wf_period u" "pidx u + 1 < 120000"
  shows "\<exists>ps. catch_up_sequence c ses = Some (Inr ps) \<and> sorted_wrt (<) ps \<and>
    set ps = {p. wf_period p \<and> t < p \<and> p \<le> u} \<and>
    gap_periods c ses = Some (Inr (nat (pidx u - pidx t)))"
proof (cases "u \<le> t")
  case True
  then have "pidx u \<le> pidx t" using assms pl.idx_le by blast
  moreover have "{p. wf_period p \<and> t < p \<and> p \<le> u} = {}" using True by auto
  ultimately show ?thesis
    using True assms by (simp add: catch_up_sequence_def gap_periods_def)
next
  case False
  then have tu: "pidx t < pidx u" using assms pl.idx_le by (metis not_le)
  then have t1: "pidx t + 1 < 120000" using assms by simp
  obtain a where a: "next_period t = Inr a" using pl.nxt_ok [OF assms(3) t1] by blast
  note aD = pl.nxt_D [OF assms(3) t1 a]
  from period_walk_wf [OF aD(1) assms(4,5)] obtain ps where
    ps: "period_walk a u = Some (Inr ps)" "map pidx ps = [pidx a..pidx u]" "\<forall>p\<in>set ps. wf_period p"
    by blast
  have cu: "catch_up_sequence c ses = Some (Inr ps)"
    using False assms a ps by (simp add: catch_up_sequence_def)
  have "r \<in> set ps \<longleftrightarrow> wf_period r \<and> t < r \<and> r \<le> u" for r
    using pl.walk_set [OF aD(1) assms(4) ps(2,3), of r] ps(3) pl.nxt_neighbour [OF assms(3) t1 a, of r]
    by blast
  moreover have "sorted_wrt (<) ps"
  proof -
    have "sorted_wrt (<) (map pidx ps)" unfolding ps(2) by (simp add: strict_sorted_iff)
    then show ?thesis unfolding sorted_wrt_map
      by (rule sorted_wrt_mono_rel [rotated]) (use ps(3) pl.idx_less in blast)
  qed
  moreover have "length ps = nat (pidx u - pidx t)"
    using arg_cong [OF ps(2), of length] aD(2) tu by simp
  ultimately show ?thesis using cu by (auto simp: gap_periods_def)
qed

theorem catch_up_sequence_exact_witness:
  "\<exists>ps. catch_up_sequence (demo_calendar\<lparr>close_target := Some ''2026-04''\<rparr>) None = Some (Inr ps) \<and>
    sorted_wrt (<) ps \<and> set ps = {p. wf_period p \<and> ''2026-01'' < p \<and> p \<le> ''2026-04''} \<and>
    gap_periods (demo_calendar\<lparr>close_target := Some ''2026-04''\<rparr>) None = Some (Inr 3)"
proof -
  have w: "wf_period ''2026-01''" "wf_period ''2026-04''" "pidx ''2026-04'' + 1 < 120000"
    and n: "nat (pidx ''2026-04'' - pidx ''2026-01'') = 3" by code_simp+
  show ?thesis
    using catch_up_sequence_exact [of "demo_calendar\<lparr>close_target := Some ''2026-04''\<rparr>",
        OF _ _ w, of None] n by (simp add: demo_calendar_def)
qed

subsection \<open>Seeding period rows\<close>

lemma period_date_range_wf:
  assumes "wf_period p" "12 \<le> pidx p"
  shows "\<exists>y m. period_date_range p = Inr (Date y m 1, Date y m (month_days y m)) \<and>
    y = pidx p div 12 \<and> m = pidx p mod 12 + 1"
proof -
  note c = wf_period_canonical [OF assms(1)]
  have "parse_period p = Inr (pidx p div 12, pidx p mod 12 + 1)"
    using parse_ptext [OF c(2,3)] c(1) by simp
  moreover have "1 \<le> pidx p div 12" "pidx p div 12 \<le> 9999" using assms(2) c(3) by auto
  moreover have "0 \<le> pidx p mod 12" "pidx p mod 12 \<le> 11"
    using pos_mod_bound [of 12 "pidx p"] by simp_all
  ultimately show ?thesis
    by (simp add: period_date_range_def mk_date_def last_day_of_month_def month_days_def)
qed

lemma period_date_range_ordered:
  "wf_period p \<Longrightarrow> 12 \<le> pidx p \<Longrightarrow> \<exists>a b. period_date_range p = Inr (a, b) \<and> a < b"
  using period_date_range_wf [of p] by (auto simp: less_pdate_def month_days_def)

lemma seed_periods_ok:
  assumes "\<forall>p\<in>set ps. wf_period p \<and> 12 \<le> pidx p" "distinct ps"
  shows "\<exists>rows. seed_periods v g through existing ps = Inr rows \<and>
    map fp_name rows = filter (\<lambda>p. p \<notin> existing) ps \<and>
    (\<forall>r\<in>set rows. fp_graph_id r = g \<and> fp_start r < fp_end r \<and>
       (fp_status r = PeriodClosed \<longleftrightarrow> truthy through \<and> fp_name r \<le> the through) \<and>
       (fp_status r = PeriodOpen \<longleftrightarrow> \<not> (truthy through \<and> fp_name r \<le> the through)))"
  using assms
proof (induction ps)
  case Nil
  then show ?case by simp
next
  case (Cons p ps)
  then obtain rows where rows: "seed_periods v g through existing ps = Inr rows"
    "map fp_name rows = filter (\<lambda>p. p \<notin> existing) ps"
    "\<forall>r\<in>set rows. fp_graph_id r = g \<and> fp_start r < fp_end r \<and>
       (fp_status r = PeriodClosed \<longleftrightarrow> truthy through \<and> fp_name r \<le> the through) \<and>
       (fp_status r = PeriodOpen \<longleftrightarrow> \<not> (truthy through \<and> fp_name r \<le> the through))"
    by auto
  obtain a b where "period_date_range p = Inr (a, b)" "a < b"
    using period_date_range_ordered Cons.prems(1) by (metis list.set_intros(1))
  with rows show ?case
    by (cases "p \<in> existing") (auto simp: new_period_def Let_def)
qed

lemma seed_periods_none: "set ps \<subseteq> existing \<Longrightarrow> seed_periods v g through existing ps = Inr []"
  by (induction ps) auto

definition period_names :: "ledger \<Rightarrow> string \<Rightarrow> string set" where
  "period_names s g = fp_name ` {p \<in> set (fperiods s). fp_graph_id p = g}"

text \<open>
  Seeding creates a row for every month of the range that has none, leaves the rows it
  finds alone, marks a new row closed exactly when it lies at or before the closed pointer,
  keeps the ledger well formed, and does nothing when it runs a second time.
\<close>

theorem ensure_fiscal_periods_idempotent:
  assumes "ledger_ok s" "wf_period a" "wf_period b" "12 \<le> pidx a" "pidx b + 1 < 120000"
  shows "\<exists>s' rows. ensure_fiscal_periods v s g a b through = Some (Inr (s', length rows)) \<and>
    fperiods s' = fperiods s @ rows \<and> calendars s' = calendars s \<and> ledger_ok s' \<and>
    period_names s' g = period_names s g \<union> {p. wf_period p \<and> a \<le> p \<and> p \<le> b} \<and>
    (\<forall>r\<in>set rows. fp_status r =
       (if truthy through \<and> fp_name r \<le> the through then PeriodClosed else PeriodOpen)) \<and>
    ensure_fiscal_periods v s' g a b through = Some (Inr (s', 0))"
proof -
  from period_walk_wf [OF assms(2,3,5)] obtain ps where
    ps: "period_walk a b = Some (Inr ps)" "map pidx ps = [pidx a..pidx b]" "\<forall>p\<in>set ps. wf_period p"
    by blast
  have mem: "p \<in> set ps \<longleftrightarrow> wf_period p \<and> a \<le> p \<and> p \<le> b" for p
    using pl.walk_set [OF assms(2,3) ps(2,3), of p] ps(3) by blast
  have "distinct (map pidx ps)" unfolding ps(2) by simp
  then have d: "distinct ps" by (simp add: distinct_map)
  have "pidx a \<le> pidx p" if "p \<in> set ps" for p
    using that mem pl.idx_le assms(2) by blast
  then have "\<forall>p\<in>set ps. wf_period p \<and> 12 \<le> pidx p" using ps(3) assms(4) by force
  from seed_periods_ok [OF this d, of v g through "period_names s g"] obtain rows where
    rows: "seed_periods v g through (period_names s g) ps = Inr rows"
      "map fp_name rows = filter (\<lambda>p. p \<notin> period_names s g) ps"
      "\<forall>r\<in>set rows. fp_graph_id r = g \<and> fp_start r < fp_end r \<and>
       (fp_status r = PeriodClosed \<longleftrightarrow> truthy through \<and> fp_name r \<le> the through) \<and>
       (fp_status r = PeriodOpen \<longleftrightarrow> \<not> (truthy through \<and> fp_name r \<le> the through))"
    by blast
  define s' where "s' = s\<lparr>fperiods := fperiods s @ rows\<rparr>"
  have e: "ensure_fiscal_periods v s g a b through = Some (Inr (s', length rows))"
    using ps(1) rows(1) by (simp add: ensure_fiscal_periods_def s'_def period_names_def Let_def)
  have names: "fp_name ` set rows = {p \<in> set ps. p \<notin> period_names s g}"
    using rows(2) by (metis set_filter set_map)
  have gs: "{p \<in> set (fperiods s'). fp_graph_id p = g} =
      {p \<in> set (fperiods s). fp_graph_id p = g} \<union> set rows"
    using rows(3) by (auto simp: s'_def)
  then have pn: "period_names s' g = period_names s g \<union> set ps"
    using names unfolding period_names_def gs image_Un by blast
  have "distinct (map fp_name rows)" unfolding rows(2) using d by simp
  then have "distinct (map period_key rows)"
    by (auto simp: distinct_map inj_on_def period_key_def)
  moreover have "period_key ` set rows \<inter> period_key ` set (fperiods s) = {}"
  proof -
    have "period_key r \<noteq> period_key x" if "r \<in> set rows" "x \<in> set (fperiods s)" for r x
    proof
      assume "period_key r = period_key x"
      then have "fp_name r = fp_name x" "fp_graph_id x = g"
        using rows(3) that(1) by (auto simp: period_key_def)
      then have "fp_name r \<in> period_names s g"
        using that(2) by (auto simp: period_names_def intro!: image_eqI [of _ _ x])
      then show False using names that(1) by blast
    qed
    then show ?thesis by blast
  qed
  ultimately have ok: "ledger_ok s'"
    using assms(1) rows(3) by (auto simp: ledger_ok_def periods_check_def s'_def)
  have again: "ensure_fiscal_periods v s' g a b through = Some (Inr (s', 0))"
    using ps(1) seed_periods_none [of ps "period_names s' g" v g through] pn
    by (simp add: ensure_fiscal_periods_def period_names_def Let_def)
  have "fp_status r = (if truthy through \<and> fp_name r \<le> the through then PeriodClosed else PeriodOpen)"
    if "r \<in> set rows" for r using rows(3) that by auto
  then show ?thesis
    using e ok again pn mem by (intro exI [of _ s'] exI [of _ rows]) (auto simp: s'_def)
qed

theorem ensure_fiscal_periods_idempotent_witness:
  "\<exists>s' rows. ensure_fiscal_periods demo_env demo_ledger ''kg1'' ''2025-12'' ''2026-03'' (Some ''2026-01'') =
      Some (Inr (s', length rows)) \<and> fperiods s' = fperiods demo_ledger @ rows \<and>
    period_names s' ''kg1'' = period_names demo_ledger ''kg1'' \<union>
      {p. wf_period p \<and> ''2025-12'' \<le> p \<and> p \<le> ''2026-03''}"
proof -
  have w: "wf_period ''2025-12''" "wf_period ''2026-03''" "12 \<le> pidx ''2025-12''"
    "pidx ''2026-03'' + 1 < 120000" by code_simp+
  have "ledger_ok demo_ledger"
    by (simp add: ledger_ok_def demo_ledger_def demo_calendar_def demo_period_def calendar_check_def
        demo_order periods_check_def period_key_def less_pdate_def)
  from ensure_fiscal_periods_idempotent [OF this w, of demo_env "''kg1''" "Some ''2026-01''"]
  show ?thesis by blast
qed

subsection \<open>Reopening the latest period\<close>



end
