(* ===== verification/Guards.thy ===== *)
theory Guards
  imports FiscalCalendar "HOL-Library.Product_Lexorder"
begin

text \<open>
  The guards shared by the ledger commands
  (\<open>robosystems/operations/roboledger/commands/_guards.py\<close>): the closed-period guard with
  its shared fence, the library-immutability guard and the tally of rule results.

  The guard reads the database twice: once to find the periods, and again under the
  fence. A close may commit between the two reads, so the second read is of a second
  ledger, the one the fence protects.
\<close>

datatype guard_error =
    FenceHeld string string
  | ClosedPeriod string pdate

subsection \<open>The closed-period guard\<close>

text \<open>The first period covering a date, of any graph (the query has no order).\<close>

definition covers :: "pdate \<Rightarrow> fiscal_period \<Rightarrow> bool" where
  "covers d p \<longleftrightarrow> fp_start p \<le> d \<and> d \<le> fp_end p"

definition period_covering :: "ledger \<Rightarrow> pdate \<Rightarrow> fiscal_period option" where
  "period_covering s d = find_row (covers d) (fperiods s)"

text \<open>One date per covered period, the first of the call.\<close>

fun covered_periods ::
  "ledger \<Rightarrow> (string \<times> string) set \<Rightarrow> pdate list \<Rightarrow> ((string \<times> string) \<times> pdate) list" where
  "covered_periods s seen [] = []"
| "covered_periods s seen (d # ds) =
     (case period_covering s d of
        None \<Rightarrow> covered_periods s seen ds
      | Some p \<Rightarrow>
          if period_key p \<in> seen then covered_periods s seen ds
          else (period_key p, d) # covered_periods s (insert (period_key p) seen) ds)"

text \<open>Fence each period and read its status again.\<close>

fun fence_each ::
  "(string \<times> string \<Rightarrow> bool) \<Rightarrow> ledger \<Rightarrow> ((string \<times> string) \<times> pdate) list \<Rightarrow> guard_error + unit" where
  "fence_each free s [] = Inr ()"
| "fence_each free s ((k, d) # rest) =
     (if \<not> free k then Inl (FenceHeld (fst k) (snd k))
      else case period_covering s d of
             Some p \<Rightarrow> if fp_status p = PeriodClosed then Inl (ClosedPeriod (fp_name p) d)
                       else fence_each free s rest
           | None \<Rightarrow> fence_each free s rest)"

definition assert_period_not_closed ::
  "(string \<times> string \<Rightarrow> bool) \<Rightarrow> ledger \<Rightarrow> ledger \<Rightarrow> pdate option list \<Rightarrow> guard_error + unit" where
  "assert_period_not_closed free s s' dates =
     (let ds = map the (filter (\<lambda>d. d \<noteq> None) dates) in
      if ds = [] then Inr ()
      else fence_each free s' (sort_key fst (covered_periods s {} ds)))"

subsection \<open>Rule results\<close>

text \<open>\<open>tally[k] = tally.get(k, 0) + 1\<close> on a dict, whose order is insertion order.\<close>

fun bump :: "string \<Rightarrow> (string \<times> nat) list \<Rightarrow> (string \<times> nat) list" where
  "bump k [] = [(k, 1)]"
| "bump k ((j, n) # t) = (if j = k then (j, n + 1) # t else (j, n) # bump k t)"

definition rule_summary :: "string list \<Rightarrow> (string \<times> nat) list option" where
  "rule_summary statuses =
     (if statuses = [] then None
      else Some (foldl (\<lambda>t k. bump k t)
             [(''pass'', 0), (''fail'', 0), (''error'', 0), (''skipped'', 0)] statuses))"

subsection \<open>Library rows\<close>

record owned_row =
  row_kind :: string
  row_qname :: "string option"
  row_id :: "string option"
  row_created_by :: "string option"

definition assert_not_library_origin :: "owned_row option \<Rightarrow> (string \<times> string) + unit" where
  "assert_not_library_origin row = (case row of
     None \<Rightarrow> Inr ()
   | Some r \<Rightarrow>
       if row_created_by r = Some ''library-seeder''
       then Inl (row_kind r, the (str_or (row_qname r) (str_or (row_id r) (Some ''?''))))
       else Inr ())"

subsection \<open>Lemmas\<close>

lemma covered_periods_keys:
  "(k, d) \<in> set (covered_periods s seen ds) \<Longrightarrow>
     d \<in> set ds \<and> (\<exists>p. period_covering s d = Some p \<and> period_key p = k) \<and> k \<notin> seen"
  by (induction ds arbitrary: seen) (auto split: option.splits if_splits)

lemma covered_periods_complete:
  "d \<in> set ds \<Longrightarrow> period_covering s d = Some p \<Longrightarrow> period_key p \<notin> seen \<Longrightarrow>
     \<exists>d'. (period_key p, d') \<in> set (covered_periods s seen ds)"
proof (induction ds arbitrary: seen)
  case (Cons a ds)
  then show ?case
    by (cases "period_covering s a"; cases "d = a") (auto, metis insert_iff)
qed simp

lemma fence_each_ok:
  "fence_each free s kds = Inr u \<longleftrightarrow>
     (\<forall>(k, d)\<in>set kds. free k \<and> (\<forall>p. period_covering s d = Some p \<longrightarrow> fp_status p \<noteq> PeriodClosed))"
  by (induction kds) (auto split: option.splits if_splits)

lemma assert_period_not_closed_ok:
  "assert_period_not_closed free s s' dates = Inr u \<longleftrightarrow>
     (\<forall>(k, d)\<in>set (covered_periods s {} (map the (filter (\<lambda>d. d \<noteq> None) dates))).
        free k \<and> (\<forall>p. period_covering s' d = Some p \<longrightarrow> fp_status p \<noteq> PeriodClosed))"
  by (auto simp: assert_period_not_closed_def Let_def fence_each_ok)

lemma period_covering_Some:
  "period_covering s d = Some p \<Longrightarrow> p \<in> set (fperiods s) \<and> covers d p"
  unfolding period_covering_def by (rule find_row_Some)

text \<open>One date: the guard is exactly the status of the covering period under the fence.\<close>

lemma assert_period_not_closed_single:
  "assert_period_not_closed free s s' [Some d] =
     (case period_covering s d of
        None \<Rightarrow> Inr ()
      | Some p \<Rightarrow>
          if \<not> free (period_key p) then Inl (FenceHeld (fp_graph_id p) (fp_name p))
          else case period_covering s' d of
                 Some q \<Rightarrow> if fp_status q = PeriodClosed then Inl (ClosedPeriod (fp_name q) d) else Inr ()
               | None \<Rightarrow> Inr ())"
  by (simp add: assert_period_not_closed_def period_key_def split: option.splits)

text \<open>The guard refuses a date in a period that is closed in both reads.\<close>

lemma guard_refuses_closed:
  assumes "Some d \<in> set dates" "period_covering s d = Some p" "fp_status p = PeriodClosed"
    and same: "\<And>d' q. period_covering s d' = Some q \<Longrightarrow> period_key q = period_key p \<Longrightarrow>
      \<exists>q'. period_covering s' d' = Some q' \<and> fp_status q' = PeriodClosed"
  shows "\<not> is_ok (assert_period_not_closed free s s' dates)"
proof
  assume "is_ok (assert_period_not_closed free s s' dates)"
  then obtain u where ok: "assert_period_not_closed free s s' dates = Inr u"
    by (auto simp: is_ok_def split: sum.splits)
  have "d \<in> set (map the (filter (\<lambda>d. d \<noteq> None) dates))"
    using assms(1) by (auto intro!: image_eqI [of d the "Some d"])
  from covered_periods_complete [OF this assms(2), of "{}"] obtain d' where
    m: "(period_key p, d') \<in> set (covered_periods s {} (map the (filter (\<lambda>d. d \<noteq> None) dates)))"
    by auto
  from covered_periods_keys [OF m] same obtain q' where
    "period_covering s' d' = Some q'" "fp_status q' = PeriodClosed" by blast
  with ok m show False by (auto simp: assert_period_not_closed_ok)
qed

lemma bump_total: "sum_list (map snd (bump k t)) = Suc (sum_list (map snd t))"
  by (induction t) auto

lemma foldl_bump_total:
  "sum_list (map snd (foldl (\<lambda>t k. bump k t) t ks)) = length ks + sum_list (map snd t)"
  by (induction ks arbitrary: t) (simp_all add: bump_total)

lemma rule_summary_total:
  "rule_summary ks = Some t \<Longrightarrow> sum_list (map snd t) = length ks"
  using foldl_bump_total [of "[(''pass'', 0), (''fail'', 0), (''error'', 0), (''skipped'', 0)]" ks]
  by (auto simp: rule_summary_def split: if_splits)

end
