(* ===== verification/Schedules.thy ===== *)
theory Schedules
  imports Guards
begin

text \<open>
  Schedules and their closing entries
  (\<open>robosystems/operations/roboledger/schedules/service.py\<close>): the reconcile that drafts one
  entry per schedule and period, manual closing entries, truncation, and the register of
  obligations (\<open>schedule_entry_due\<close> events) with its void and supersede operations.

  Each method is a function of the tenant ledger. Identifiers the database generates are
  arguments (\<open>eid\<close>, \<open>rid\<close>, \<open>new_id\<close>). A method runs in one transaction, so its guard reads
  the ledger its other statements read; the race with a close is in \<open>PeriodFence\<close>.
  \<open>free\<close> says which period fences can be taken.
\<close>

datatype sched_error =
    ScheduleNotFound string
  | NoEntryTemplate string
  | GuardFailed guard_error
  | AlreadyPosted string
  | IntegrityViolation
  | EmptyMemo
  | NoLineItems
  | LineNoElement nat
  | LineNegative nat
  | LineZero nat
  | LineBothSides nat
  | Unbalanced int int
  | EmptyReason
  | NotMonthEnd pdate
  | NoFacts string
  | BeforeFirstFact pdate
  | PostedBeyond nat
  | DateOutOfRange

subsection \<open>Dates and text\<close>

definition liftG :: "guard_error + 'a \<Rightarrow> sched_error + 'a" where
  "liftG r = (case r of Inl e \<Rightarrow> Inl (GuardFailed e) | Inr x \<Rightarrow> Inr x)"

lemma liftG_eq_Inr [result_simps]: "liftG r = Inr x \<longleftrightarrow> r = Inr x"
  by (cases r) (simp_all add: liftG_def)

text \<open>The first day of the month after a date's, with the code's test for December.\<close>

definition next_month_start :: "pdate \<Rightarrow> sched_error + pdate" where
  "next_month_start d =
     (case (if mo d = 12 then mk_date (yr d + 1) 1 1 else mk_date (yr d) (mo d + 1) 1) of
        Inl _ \<Rightarrow> Inl DateOutOfRange | Inr x \<Rightarrow> Inr x)"

text \<open>\<open>date.isoformat\<close>, and \<open>date.fromisoformat\<close> on the two calendar forms.\<close>

definition iso_date :: "pdate \<Rightarrow> string" where
  "iso_date d = fmt_d 4 (yr d) @ ''-'' @ fmt_d 2 (mo d) @ ''-'' @ fmt_d 2 (dy d)"

definition date_of_digits ::
  "char \<Rightarrow> char \<Rightarrow> char \<Rightarrow> char \<Rightarrow> char \<Rightarrow> char \<Rightarrow> char \<Rightarrow> char \<Rightarrow> pdate option" where
  "date_of_digits a b c d m n e f =
     (if list_all is_dig [a, b, c, d, m, n, e, f]
      then (case mk_date (year_of a b c d) (month_of m n) (month_of e f) of
              Inl _ \<Rightarrow> None | Inr x \<Rightarrow> Some x)
      else None)"

definition from_iso :: "string \<Rightarrow> pdate option" where
  "from_iso s = (case s of
     [a, b, c, d, h, m, n, k, e, f] \<Rightarrow>
       if h = CHR ''-'' \<and> k = CHR ''-'' then date_of_digits a b c d m n e f else None
   | [a, b, c, d, m, n, e, f] \<Rightarrow> date_of_digits a b c d m n e f
   | _ \<Rightarrow> None)"

text \<open>\<open>str.replace\<close> with a nonempty pattern.\<close>

fun replace_all :: "string \<Rightarrow> string \<Rightarrow> string \<Rightarrow> string" where
  "replace_all pat rep [] = []"
| "replace_all pat rep (c # cs) =
     (if pat \<noteq> [] \<and> take (length pat) (c # cs) = pat
      then rep @ replace_all pat rep (drop (length pat - 1) cs)
      else c # replace_all pat rep cs)"

text \<open>Python's \<open>round\<close> to an integer: half to even.\<close>

definition py_round :: "rat \<Rightarrow> int" where
  "py_round x = (let f = \<lfloor>x\<rfloor>; d = x - of_int f in
     if d < 1 / 2 then f else if 1 / 2 < d then f + 1 else if even f then f else f + 1)"

definition to_cents :: "rat \<Rightarrow> int" where
  "to_cents x = py_round (x * 100)"

subsection \<open>Rows\<close>

definition find_structure :: "ledger \<Rightarrow> string \<Rightarrow> structure_row option" where
  "find_structure s sid = find_row (\<lambda>r. st_id r = sid) (structures s)"

definition find_event :: "ledger \<Rightarrow> string \<Rightarrow> event option" where
  "find_event s i = find_row (\<lambda>e. ev_id e = i) (events s)"

text \<open>The CHECK constraints of \<open>line_items\<close>.\<close>

definition line_check :: "line_item \<Rightarrow> bool" where
  "line_check l \<longleftrightarrow> 0 \<le> li_debit l \<and> 0 \<le> li_credit l \<and> (0 < li_debit l \<or> 0 < li_credit l) \<and>
     \<not> (0 < li_debit l \<and> 0 < li_credit l)"

text \<open>\<open>uq_entries_one_reversal_per_original\<close>.\<close>

definition reversal_free :: "entry \<Rightarrow> ledger \<Rightarrow> bool" where
  "reversal_free e s \<longleftrightarrow> en_reversal_of e = None \<or>
     (\<forall>x\<in>set (entries s). en_reversal_of x \<noteq> en_reversal_of e)"

text \<open>Add an entry and its lines, and flush.\<close>

definition insert_entry :: "entry \<Rightarrow> line_item list \<Rightarrow> ledger \<Rightarrow> sched_error + ledger" where
  "insert_entry e lines s =
     (if reversal_free e s \<and> (\<forall>l\<in>set lines. line_check l)
      then Inr (s\<lparr>entries := entries s @ [e], line_items := line_items s @ lines\<rparr>)
      else Inl IntegrityViolation)"

definition delete_draft_entry :: "string \<Rightarrow> ledger \<Rightarrow> ledger" where
  "delete_draft_entry eid s =
     (let reversals = en_id ` {e \<in> set (entries s). en_reversal_of e = Some eid} in
      s\<lparr>line_items := filter (\<lambda>l. li_entry l \<noteq> eid \<and> li_entry l \<notin> reversals) (line_items s),
        entries := filter (\<lambda>e. en_reversal_of e \<noteq> Some eid \<and> en_id e \<noteq> eid) (entries s)\<rparr>)"

subsection \<open>The closing entry of a schedule and period\<close>

datatype outcome = Created | Unchanged | Regenerated | Removed | Skipped

record closing_result =
  cs_outcome :: outcome
  cs_entry :: "string option"
  cs_posting_date :: "pdate option"
  cs_memo :: "string option"
  cs_debit :: "string option"
  cs_credit :: "string option"
  cs_amount :: "rat option"
  cs_reversal :: "(string \<times> pdate \<times> string) option"

definition no_entry :: "outcome \<Rightarrow> closing_result" where
  "no_entry r = \<lparr>cs_outcome = r, cs_entry = None, cs_posting_date = None, cs_memo = None,
     cs_debit = None, cs_credit = None, cs_amount = None, cs_reversal = None\<rparr>"

text \<open>The most recent entry of the structure posting inside the window, of any type.\<close>

definition in_window :: "string \<Rightarrow> pdate \<Rightarrow> pdate \<Rightarrow> entry \<Rightarrow> bool" where
  "in_window sid ps pe e \<longleftrightarrow> en_structure e = Some sid \<and> ps \<le> en_posting_date e \<and> en_posting_date e \<le> pe"

definition existing_closing :: "ledger \<Rightarrow> string \<Rightarrow> pdate \<Rightarrow> pdate \<Rightarrow> entry option" where
  "existing_closing s sid ps pe = find_row (in_window sid ps pe) (rev (entries s))"

definition schedule_fact :: "ledger \<Rightarrow> string \<Rightarrow> string \<Rightarrow> pdate \<Rightarrow> pdate \<Rightarrow> fact option" where
  "schedule_fact s sid el ps pe = find_row (\<lambda>f. fa_structure f = sid \<and> fa_element f = el \<and>
     starts_from ps f \<and> fa_end f \<le> pe \<and> fa_scope f = ''in_scope'') (facts s)"

text \<open>The first debit line and the first credit line of an entry.\<close>

definition debit_line :: "ledger \<Rightarrow> string \<Rightarrow> line_item option" where
  "debit_line s eid = find_row (\<lambda>l. li_entry l = eid \<and> 0 < li_debit l) (line_items s)"

definition credit_line :: "ledger \<Rightarrow> string \<Rightarrow> line_item option" where
  "credit_line s eid = find_row (\<lambda>l. li_entry l = eid \<and> 0 < li_credit l) (line_items s)"

definition amount_of :: "(line_item \<Rightarrow> int) \<Rightarrow> line_item option \<Rightarrow> int" where
  "amount_of f l = (case l of None \<Rightarrow> 0 | Some x \<Rightarrow> f x)"

definition is_stale :: "ledger \<Rightarrow> string \<Rightarrow> entry_template \<Rightarrow> int \<Rightarrow> string \<Rightarrow> bool" where
  "is_stale s eid t cents memo =
     (case find_row (\<lambda>e. en_id e = eid) (entries s) of
        None \<Rightarrow> True
      | Some cur \<Rightarrow>
          map_option li_element (debit_line s eid) \<noteq> Some (tp_debit t) \<or>
          map_option li_element (credit_line s eid) \<noteq> Some (tp_credit t) \<or>
          amount_of li_debit (debit_line s eid) \<noteq> cents \<or>
          amount_of li_credit (credit_line s eid) \<noteq> cents \<or>
          (if truthy (en_memo cur) then the (en_memo cur) else []) \<noteq> memo)"

definition two_lines :: "string \<Rightarrow> string \<Rightarrow> string \<Rightarrow> int \<Rightarrow> line_item list" where
  "two_lines eid dr cr cents =
     [\<lparr>li_entry = eid, li_element = dr, li_debit = cents, li_credit = 0\<rparr>,
      \<lparr>li_entry = eid, li_element = cr, li_debit = 0, li_credit = cents\<rparr>]"

definition closing_draft ::
  "string \<Rightarrow> string \<Rightarrow> pdate \<Rightarrow> string \<Rightarrow> string \<Rightarrow> string option \<Rightarrow> entry" where
  "closing_draft eid ty pd memo sid rev_of =
     \<lparr>en_id = eid, en_type = ty, en_posting_date = pd, en_status = EntryDraft, en_posted_at = None,
      en_event = None, en_structure = Some sid, en_transaction = None, en_reversal_of = rev_of,
      en_memo = Some memo\<rparr>"

text \<open>Create the draft and, for an auto-reversing template, its reversal.\<close>

definition create_draft ::
  "string \<Rightarrow> string \<Rightarrow> ledger \<Rightarrow> string \<Rightarrow> entry_template \<Rightarrow> pdate \<Rightarrow> pdate \<Rightarrow> string \<Rightarrow> rat \<Rightarrow>
   outcome \<Rightarrow> sched_error + ledger \<times> closing_result" where
  "create_draft eid rid s sid t pd pe memo amount oc =
     (let cents = to_cents amount in
      bindR (insert_entry (closing_draft eid (tp_entry_type t) pd memo sid None)
               (two_lines eid (tp_debit t) (tp_credit t) cents) s) (\<lambda>s1.
      bindR (if tp_auto_reverse t
             then bindR (next_month_start pe) (\<lambda>rd.
                  bindR (insert_entry
                           (closing_draft rid ''reversing'' rd (''Reverse: '' @ memo) sid (Some eid))
                           (two_lines rid (tp_credit t) (tp_debit t) cents) s1) (\<lambda>s2.
                  Inr (s2, Some (rid, rd, ''Reverse: '' @ memo))))
             else Inr (s1, None)) (\<lambda>(s2, rv).
      Inr (s2, \<lparr>cs_outcome = oc, cs_entry = Some eid, cs_posting_date = Some pd, cs_memo = Some memo,
                cs_debit = Some (tp_debit t), cs_credit = Some (tp_credit t),
                cs_amount = Some amount, cs_reversal = rv\<rparr>))))"

definition schedule_template :: "ledger \<Rightarrow> string \<Rightarrow> sched_error + structure_row \<times> entry_template" where
  "schedule_template s sid =
     (case find_structure s sid of
        None \<Rightarrow> Inl (ScheduleNotFound sid)
      | Some st \<Rightarrow>
          if st_block_type st \<noteq> ''schedule'' then Inl (ScheduleNotFound sid)
          else case st_template st of None \<Rightarrow> Inl (NoEntryTemplate sid) | Some t \<Rightarrow> Inr (st, t))"

definition entry_memo :: "string option \<Rightarrow> entry_template \<Rightarrow> structure_row \<Rightarrow> string" where
  "entry_memo memo t st =
     (if truthy memo then the memo else replace_all ''{structure_name}'' (st_name st) (tp_memo t))"

definition create_closing_entry ::
  "(string \<times> string \<Rightarrow> bool) \<Rightarrow> string \<Rightarrow> string \<Rightarrow> ledger \<Rightarrow> string \<Rightarrow> pdate \<Rightarrow> pdate \<Rightarrow> pdate \<Rightarrow>
   string option \<Rightarrow> sched_error + ledger \<times> closing_result" where
  "create_closing_entry free eid rid s sid pd ps pe memo =
     bindR (schedule_template s sid) (\<lambda>(st, t).
     bindR (if tp_auto_reverse t
            then bindR (next_month_start pe) (\<lambda>rd. Inr [Some pd, Some rd])
            else Inr [Some pd]) (\<lambda>dates.
     bindR (liftG (assert_period_not_closed free s s dates)) (\<lambda>_.
     let existing = existing_closing s sid ps pe in
     if (case existing of None \<Rightarrow> False | Some e \<Rightarrow> en_status e = EntryPosted) then Inl (AlreadyPosted sid)
     else case schedule_fact s sid (tp_debit t) ps pe of
       None \<Rightarrow>
         (case existing of
            Some e \<Rightarrow> Inr (delete_draft_entry (en_id e) s, no_entry Removed)
          | None \<Rightarrow> Inr (s, no_entry Skipped))
     | Some f \<Rightarrow>
         (let m = entry_memo memo t st in
          case existing of
            None \<Rightarrow> create_draft eid rid s sid t pd pe m (fa_value f) Created
          | Some e \<Rightarrow>
              if is_stale s (en_id e) t (to_cents (fa_value f)) m
              then create_draft eid rid (delete_draft_entry (en_id e) s) sid t pd pe m (fa_value f) Regenerated
              else Inr (s, \<lparr>cs_outcome = Unchanged, cs_entry = Some (en_id e), cs_posting_date = Some pd,
                            cs_memo = en_memo e, cs_debit = Some (tp_debit t), cs_credit = Some (tp_credit t),
                            cs_amount = Some (fa_value f), cs_reversal = None\<rparr>)))))"

subsection \<open>Manual closing entries\<close>

text \<open>A line of the request: each key may be missing.\<close>

record manual_line =
  ml_element :: "string option"
  ml_debit :: "int option"
  ml_credit :: "int option"

definition or_zero :: "int option \<Rightarrow> int" where
  "or_zero x = (case x of None \<Rightarrow> 0 | Some n \<Rightarrow> n)"

text \<open>The validation loop, with the index of the current line.\<close>

fun normalize_lines :: "nat \<Rightarrow> manual_line list \<Rightarrow> sched_error + (string \<times> int \<times> int) list" where
  "normalize_lines i [] = Inr []"
| "normalize_lines i (l # ls) =
     (let d = or_zero (ml_debit l); c = or_zero (ml_credit l) in
      if \<not> truthy (ml_element l) then Inl (LineNoElement i)
      else if d < 0 \<or> c < 0 then Inl (LineNegative i)
      else if d = 0 \<and> c = 0 then Inl (LineZero i)
      else if 0 < d \<and> 0 < c then Inl (LineBothSides i)
      else bindR (normalize_lines (i + 1) ls) (\<lambda>rest. Inr ((the (ml_element l), d, c) # rest)))"

definition is_space :: "char \<Rightarrow> bool" where
  "is_space c \<longleftrightarrow> (of_char c :: nat) \<in> {9, 10, 11, 12, 13, 28, 29, 30, 31, 32, 133, 160}"

definition blank :: "string \<Rightarrow> bool" where
  "blank s \<longleftrightarrow> list_all is_space s"

definition create_manual_closing_entry ::
  "(string \<times> string \<Rightarrow> bool) \<Rightarrow> string \<Rightarrow> ledger \<Rightarrow> pdate \<Rightarrow> manual_line list \<Rightarrow> string \<Rightarrow> string \<Rightarrow>
   sched_error + ledger \<times> closing_result" where
  "create_manual_closing_entry free eid s pd lines memo ty =
     bindR (guardR (\<not> blank memo) EmptyMemo) (\<lambda>_.
     bindR (guardR (lines \<noteq> []) NoLineItems) (\<lambda>_.
     bindR (normalize_lines 0 lines) (\<lambda>ls.
     let td = (\<Sum>(_, d, _)\<leftarrow>ls. d); tc = (\<Sum>(_, _, c)\<leftarrow>ls. c) in
     bindR (guardR (td = tc) (Unbalanced td tc)) (\<lambda>_.
     bindR (liftG (assert_period_not_closed free s s [Some pd])) (\<lambda>_.
     bindR (insert_entry
              \<lparr>en_id = eid, en_type = ty, en_posting_date = pd, en_status = EntryDraft,
               en_posted_at = None, en_event = None, en_structure = None, en_transaction = None,
               en_reversal_of = None, en_memo = Some memo\<rparr>
              (map (\<lambda>(el, d, c). \<lparr>li_entry = eid, li_element = el, li_debit = d, li_credit = c\<rparr>) ls) s)
       (\<lambda>s1.
     Inr (s1, \<lparr>cs_outcome = Created, cs_entry = Some eid, cs_posting_date = Some pd, cs_memo = Some memo,
               cs_debit = map_option fst (find_row (\<lambda>(_, d, _). 0 < d) ls),
               cs_credit = map_option fst (find_row (\<lambda>(_, _, c). 0 < c) ls),
               cs_amount = Some (of_int td / 100), cs_reversal = None\<rparr>)))))))"

subsection \<open>Truncation\<close>

definition beyond :: "string \<Rightarrow> pdate \<Rightarrow> entry_status \<Rightarrow> entry \<Rightarrow> bool" where
  "beyond sid d st e \<longleftrightarrow> en_structure e = Some sid \<and> en_status e = st \<and> d < en_posting_date e"

definition update_structure :: "string \<Rightarrow> (structure_row \<Rightarrow> structure_row) \<Rightarrow> ledger \<Rightarrow> ledger" where
  "update_structure sid f s = s\<lparr>structures := update_where (\<lambda>r. st_id r = sid) f (structures s)\<rparr>"

definition truncate_schedule ::
  "(string \<times> string \<Rightarrow> bool) \<Rightarrow> ledger \<Rightarrow> string \<Rightarrow> pdate \<Rightarrow> string \<Rightarrow> string \<Rightarrow> sched_error + ledger \<times> nat" where
  "truncate_schedule free s sid new_end reason by_user =
     bindR (guardR (\<not> blank reason) EmptyReason) (\<lambda>_.
     bindR (guardR (dy new_end = month_days (yr new_end) (mo new_end)) (NotMonthEnd new_end)) (\<lambda>_.
     case find_structure s sid of
       None \<Rightarrow> Inl (ScheduleNotFound sid)
     | Some st \<Rightarrow>
         if st_block_type st \<noteq> ''schedule'' then Inl (ScheduleNotFound sid)
         else
           (let starts = List.map_filter fa_start (filter (\<lambda>f. fa_structure f = sid) (facts s)) in
            if starts = [] then Inl (NoFacts sid)
            else if new_end < Min (set starts) then Inl (BeforeFirstFact (Min (set starts)))
            else
              (let posted = count_where (beyond sid new_end EntryPosted) (entries s) in
               if posted \<noteq> 0 then Inl (PostedBeyond posted)
               else
                 (let stale = filter (beyond sid new_end EntryDraft) (entries s) in
                  bindR (liftG (assert_period_not_closed free s s
                                  (map Some (remdups_first (map en_posting_date stale))))) (\<lambda>_.
                  let ids = en_id ` set stale;
                      deleted = count_where (\<lambda>f. fa_structure f = sid \<and> starts_after new_end f) (facts s)
                  in Inr (update_structure sid (\<lambda>r. r\<lparr>st_end_date := Some new_end,
                            st_truncations := st_truncations r @ [(new_end, reason, by_user, deleted)]\<rparr>)
                          (s\<lparr>line_items := filter (\<lambda>l. li_entry l \<notin> ids) (line_items s),
                             entries := filter (\<lambda>e. \<not> beyond sid new_end EntryDraft e) (entries s),
                             facts := filter (\<lambda>f. \<not> (fa_structure f = sid \<and> starts_after new_end f)) (facts s)\<rparr>),
                          deleted)))))))"

subsection \<open>The obligation register\<close>

definition end_of_day :: "pdate \<Rightarrow> ptime" where
  "end_of_day d = Time d 86399000000"

text \<open>First and last day of each month from one date's month to another's.\<close>

definition month_end :: "pdate \<Rightarrow> pdate" where
  "month_end d = Date (yr d) (mo d) (month_days (yr d) (mo d))"

definition generate_monthly_periods :: "pdate \<Rightarrow> pdate \<Rightarrow> (sched_error + (pdate \<times> pdate) list) option" where
  "generate_monthly_periods start stop =
     map_option (\<lambda>r. bindR r (\<lambda>ds. Inr (map (\<lambda>d. (d, month_end d)) ds)))
       (walk (\<le>) next_month_start
          (nat ((yr stop * 12 + mo stop) - (yr start * 12 + mo start)) + 2)
          (Date (yr start) (mo start) 1) stop)"

definition obligation ::
  "string \<Rightarrow> string \<Rightarrow> string \<Rightarrow> string \<Rightarrow> string \<Rightarrow> ptime \<Rightarrow> event_status \<Rightarrow> string option \<Rightarrow>
   (string \<times> string) list \<Rightarrow> event" where
  "obligation eid sid originator ps pe occ st replaces extra =
     \<lparr>ev_id = eid, ev_type = ''schedule_entry_due'', ev_occurred_at = occ, ev_effective_at = None,
      ev_status = st, ev_source = ''schedule'', ev_external_id = None, ev_agent = None, ev_drift = False, ev_drift_payload = None,
      ev_meta = [(''schedule_id'', sid), (''posting_date'', pe), (''period_start'', ps),
                 (''period_end'', pe)] @ extra,
      ev_linked = [], ev_obligated_by = Some originator, ev_discharges = None, ev_replaces = replaces, ev_replaced_by = None,
      ev_pending_count = None, ev_void_history = []\<rparr>"

definition is_historical :: "pdate option \<Rightarrow> pdate \<Rightarrow> bool" where
  "is_historical through pe = (case through of None \<Rightarrow> False | Some c \<Rightarrow> pe \<le> c)"

definition materialize_pending_obligations ::
  "ptime \<Rightarrow> string \<Rightarrow> (pdate \<Rightarrow> string) \<Rightarrow> ledger \<Rightarrow> string \<Rightarrow> string \<Rightarrow> pdate \<Rightarrow> pdate \<Rightarrow>
   (pdate \<times> pdate) list \<Rightarrow> pdate option \<Rightarrow> ledger \<times> nat" where
  "materialize_pending_obligations now cid new_id s sid tid ps pe periods through =
     (let n = length (filter (\<lambda>(a, b). \<not> is_historical through b) periods);
          originator =
            \<lparr>ev_id = cid, ev_type = ''schedule_created'', ev_occurred_at = now, ev_effective_at = None,
             ev_status = Committed, ev_source = ''schedule'', ev_external_id = None, ev_agent = None, ev_drift = False, ev_drift_payload = None,
             ev_meta = [(''schedule_id'', sid), (''taxonomy_id'', tid), (''period_start'', iso_date ps),
                        (''period_end'', iso_date pe)],
             ev_linked = [], ev_obligated_by = None, ev_discharges = None, ev_replaces = None, ev_replaced_by = None,
             ev_pending_count = Some (int n), ev_void_history = []\<rparr>;
          due = map (\<lambda>(a, b). obligation (new_id a) sid cid (iso_date a) (iso_date b) (end_of_day b)
                       (if is_historical through b then Voided else EvPending) None
                       (if is_historical through b then [(''void_reason'', ''historical'')] else [])) periods
      in (s\<lparr>events := events s @ originator # due\<rparr>, n))"

text \<open>The originator of a schedule's register, from the structure or from the obligations.\<close>

definition register_originator :: "ledger \<Rightarrow> structure_row \<Rightarrow> string option" where
  "register_originator s st =
     (if truthy (st_created_event st) then st_created_event st
      else case find_row (\<lambda>e. ev_type e = ''schedule_entry_due'' \<and>
                   meta_get e ''schedule_id'' = Some (st_id st) \<and> ev_obligated_by e \<noteq> None) (events s) of
             None \<Rightarrow> None
           | Some e \<Rightarrow> if truthy (ev_obligated_by e) then ev_obligated_by e else None)"

definition voidable :: "bool \<Rightarrow> event_status \<Rightarrow> bool" where
  "voidable classified st \<longleftrightarrow> st = EvPending \<or> classified \<and> st = Classified"

definition to_void :: "string \<Rightarrow> pdate option \<Rightarrow> bool \<Rightarrow> event \<Rightarrow> bool" where
  "to_void o_id after classified e \<longleftrightarrow> ev_obligated_by e = Some o_id \<and> voidable classified (ev_status e) \<and>
     (case after of None \<Rightarrow> True
      | Some d \<Rightarrow> (case meta_get e ''period_start'' of None \<Rightarrow> False | Some ps \<Rightarrow> iso_date d < ps))"

definition void_pending_obligations ::
  "ledger \<Rightarrow> structure_row \<Rightarrow> string \<Rightarrow> string option \<Rightarrow> pdate option \<Rightarrow> bool \<Rightarrow> ledger \<times> nat" where
  "void_pending_obligations s st reason by_event after classified =
     (case register_originator s st of
        None \<Rightarrow> (s, 0)
      | Some o_id \<Rightarrow>
          (let ids = ev_id ` {e \<in> set (events s). to_void o_id after classified e};
               hit = (\<lambda>e. ev_id e \<in> ids \<and> voidable classified (ev_status e));
               n = count_where hit (events s)
           in if n = 0 then (s, 0)
              else
                (let evs = update_where hit (\<lambda>e. e\<lparr>ev_status := Voided,
                             ev_replaced_by := (if by_event = None then ev_replaced_by e else by_event)\<rparr>) (events s)
                 in (s\<lparr>events := update_where (\<lambda>e. ev_id e = o_id)
                          (\<lambda>e. e\<lparr>ev_pending_count :=
                                   Some (max 0 ((case ev_pending_count e of None \<Rightarrow> 0 | Some k \<Rightarrow> k) - int n)),
                                 ev_void_history := ev_void_history e @ [(n, reason, by_event)]\<rparr>) evs\<rparr>, n))))"

text \<open>
  Supersession, one pending obligation at a time in the order of the row locks. A row
  without its period keys is skipped; a period end that is not a date raises.
\<close>

fun supersede_each ::
  "(string \<Rightarrow> string) \<Rightarrow> string \<Rightarrow> string \<Rightarrow> event list \<Rightarrow> ledger \<Rightarrow> sched_error + ledger \<times> nat" where
  "supersede_each new_id sid o_id [] s = Inr (s, 0)"
| "supersede_each new_id sid o_id (e # es) s =
     (if \<not> truthy (meta_get e ''period_start'') \<or> \<not> truthy (meta_get e ''period_end'')
      then supersede_each new_id sid o_id es s
      else
        let ps = the (meta_get e ''period_start''); pe = the (meta_get e ''period_end'');
            nid = new_id (ev_id e)
        in case from_iso pe of
             None \<Rightarrow> Inl DateOutOfRange
           | Some d \<Rightarrow>
               bindR (supersede_each new_id sid o_id es
                 (s\<lparr>events := update_where (\<lambda>x. ev_id x = ev_id e)
                      (\<lambda>x. x\<lparr>ev_status := Voided, ev_replaced_by := Some nid\<rparr>) (events s)
                    @ [obligation nid sid o_id ps pe (end_of_day d) EvPending (Some (ev_id e)) []]\<rparr>))
               (\<lambda>(s', n). Inr (s', n + 1)))"

definition supersede_pending_obligations ::
  "(string \<Rightarrow> string) \<Rightarrow> ledger \<Rightarrow> structure_row \<Rightarrow> sched_error + ledger \<times> nat" where
  "supersede_pending_obligations new_id s st =
     (if \<not> truthy (st_created_event st) then Inr (s, 0)
      else
        let o_id = the (st_created_event st);
            pend = sort_key ev_id (filter (\<lambda>e. ev_obligated_by e = Some o_id \<and> ev_status e = EvPending) (events s))
        in supersede_each new_id (st_id st) o_id pend s)"

subsection \<open>Close status\<close>

datatype item_status = ItemPending | ItemDrafted | ItemPosted

record close_item =
  it_structure :: string
  it_name :: string
  it_amount :: rat
  it_status :: item_status
  it_entry :: "string option"
  it_reversal :: "string option"
  it_reversal_status :: "entry_status option"

record close_status =
  cst_period_status :: period_status
  cst_items :: "close_item list"
  cst_draft :: nat
  cst_posted :: nat
  cst_receipt :: "close_receipt option"

definition status_rank :: "entry \<Rightarrow> nat" where
  "status_rank e = (case en_status e of EntryPosted \<Rightarrow> 1 | EntryDraft \<Rightarrow> 2 | EntryReversed \<Rightarrow> 3)"

text \<open>\<open>DISTINCT ON\<close> ordered by rank: the first row of the smallest rank.\<close>

definition best_ranked :: "entry list \<Rightarrow> entry option" where
  "best_ranked es = (case sort_key status_rank es of [] \<Rightarrow> None | e # _ \<Rightarrow> Some e)"

definition best_entry :: "ledger \<Rightarrow> string \<Rightarrow> pdate \<Rightarrow> pdate \<Rightarrow> entry option" where
  "best_entry s sid ps pe =
     best_ranked (filter (\<lambda>e. in_window sid ps pe e \<and> en_type e \<noteq> ''reversing'') (entries s))"

definition best_reversal :: "ledger \<Rightarrow> string option \<Rightarrow> entry option" where
  "best_reversal s eid = (case eid of None \<Rightarrow> None
     | Some i \<Rightarrow> best_ranked (filter (\<lambda>e. en_type e = ''reversing'' \<and> en_reversal_of e = Some i) (entries s)))"

text \<open>The rows of one schedule: one per matching fact, or one when it has only an entry.\<close>

definition status_rows :: "ledger \<Rightarrow> pdate \<Rightarrow> pdate \<Rightarrow> structure_row \<Rightarrow> close_item list" where
  "status_rows s ps pe st =
     (let be = best_entry s (st_id st) ps pe;
          rv = best_reversal s (map_option en_id be);
          fs = filter (\<lambda>f. fa_structure f = st_id st \<and> starts_from ps f \<and> fa_end f \<le> pe \<and>
                 map_option tp_debit (st_template st) = Some (fa_element f) \<and> fa_scope f = ''in_scope'') (facts s);
          item = (\<lambda>v. \<lparr>it_structure = st_id st, it_name = st_name st, it_amount = v,
            it_status = (case be of
               Some e \<Rightarrow> (case en_status e of EntryPosted \<Rightarrow> ItemPosted | EntryDraft \<Rightarrow> ItemDrafted
                          | EntryReversed \<Rightarrow> ItemPending)
             | None \<Rightarrow> ItemPending),
            it_entry = map_option en_id be, it_reversal = map_option en_id rv,
            it_reversal_status = map_option en_status rv\<rparr>)
      in if fs = [] then (if be = None then [] else [item 0]) else map (\<lambda>f. item (fa_value f)) fs)"

definition get_period_close_status :: "ledger \<Rightarrow> pdate \<Rightarrow> pdate \<Rightarrow> close_status" where
  "get_period_close_status s ps pe =
     (let items = concat (map (status_rows s ps pe)
            (sort_key st_name (filter (\<lambda>st. st_block_type st = ''schedule'' \<and> st_active st) (structures s))));
          fp = find_row (\<lambda>p. fp_start p \<le> ps \<and> pe \<le> fp_end p) (fperiods s)
      in \<lparr>cst_period_status = (case fp of None \<Rightarrow> PeriodOpen | Some p \<Rightarrow> fp_status p),
          cst_items = items,
          cst_draft = count_where (\<lambda>i. it_status i = ItemDrafted) items,
          cst_posted = count_where (\<lambda>i. it_status i = ItemPosted) items,
          cst_receipt = (case fp of None \<Rightarrow> None | Some p \<Rightarrow> fp_receipt p)\<rparr>)"

end
