(* ===== verification/ScheduleFacts.thy ===== *)
theory ScheduleFacts
  imports Schedules
begin

text \<open>
  What the schedule operations of \<open>Schedules\<close> do: the reconcile of a closing entry is
  idempotent but takes the previous month's automatic reversal for its own draft, manual
  entries balance, truncation keeps the posted books, and voiding and superseding
  obligations account for every pending one.
\<close>

subsection \<open>Dates\<close>

definition wf_date :: "pdate \<Rightarrow> bool" where
  "wf_date d \<longleftrightarrow> 1 \<le> yr d \<and> yr d \<le> 9999 \<and> 1 \<le> mo d \<and> mo d \<le> 12 \<and> 1 \<le> dy d \<and>
     dy d \<le> month_days (yr d) (mo d)"

lemma mk_date_eq_Inr:
  "mk_date y m d = Inr x \<longleftrightarrow> x = Date y m d \<and> wf_date x"
  by (auto simp: mk_date_def wf_date_def)

lemma next_month_start_less:
  assumes "next_month_start d = Inr e"
  shows "d < e" and "dy e = 1" and "wf_date e"
proof -
  have "\<exists>y m. e = Date y m 1 \<and> (y = yr d + 1 \<or> y = yr d \<and> m = mo d + 1) \<and> wf_date e"
    using assms by (cases "mo d = 12") (auto simp: next_month_start_def mk_date_eq_Inr split: sum.splits)
  then show "d < e" "dy e = 1" "wf_date e" by (auto simp: less_pdate_def)
qed

subsection \<open>The reconcile\<close>

lemma insert_entry_eq_Inr [result_simps]:
  "insert_entry e lines s = Inr s' \<longleftrightarrow> reversal_free e s \<and> (\<forall>l\<in>set lines. line_check l) \<and>
     s' = s\<lparr>entries := entries s @ [e], line_items := line_items s @ lines\<rparr>"
  by (auto simp: insert_entry_def)

lemma two_lines_check: "(\<forall>l\<in>set (two_lines eid dr cr c). line_check l) \<longleftrightarrow> 0 < c"
  by (auto simp: two_lines_def line_check_def)

lemma find_row_filter_none: "find_row P (filter (\<lambda>x. \<not> P x) xs) = None"
  by (simp add: find_row_None)

text \<open>What a created draft adds to the ledger.\<close>

lemma create_draft_rows:
  assumes "create_draft eid rid s sid t pd pe m amt oc = Inr (s', r)"
  shows "\<exists>es ls. s' = s\<lparr>entries := entries s @ es, line_items := line_items s @ ls\<rparr> \<and>
    0 < to_cents amt \<and> cs_outcome r = oc \<and> cs_entry r = Some eid \<and>
    (if tp_auto_reverse t
     then \<exists>rd. next_month_start pe = Inr rd \<and>
       es = [closing_draft eid (tp_entry_type t) pd m sid None,
             closing_draft rid ''reversing'' rd (''Reverse: '' @ m) sid (Some eid)] \<and>
       ls = two_lines eid (tp_debit t) (tp_credit t) (to_cents amt) @
            two_lines rid (tp_credit t) (tp_debit t) (to_cents amt)
     else es = [closing_draft eid (tp_entry_type t) pd m sid None] \<and>
       ls = two_lines eid (tp_debit t) (tp_credit t) (to_cents amt))"
proof -
  define c where "c = to_cents amt"
  define e1 where "e1 = closing_draft eid (tp_entry_type t) pd m sid None"
  define rev where "rev rd = closing_draft rid ''reversing'' rd (''Reverse: '' @ m) sid (Some eid)" for rd
  from assms obtain s1 rv where
    1: "insert_entry e1 (two_lines eid (tp_debit t) (tp_credit t) c) s = Inr s1"
    and 2: "(if tp_auto_reverse t
             then bindR (next_month_start pe) (\<lambda>rd.
                  bindR (insert_entry (rev rd) (two_lines rid (tp_credit t) (tp_debit t) c) s1) (\<lambda>s2.
                  Inr (s2, Some (rid, rd, ''Reverse: '' @ m))))
             else Inr (s1, None)) = Inr (s', rv)"
    and r: "cs_outcome r = oc" "cs_entry r = Some eid"
    unfolding create_draft_def Let_def c_def [symmetric] e1_def [symmetric] rev_def [symmetric] bindR_eq_Inr
    by force
  from 1 have s1: "s1 = s\<lparr>entries := entries s @ [e1], line_items := line_items s @
      two_lines eid (tp_debit t) (tp_credit t) c\<rparr>" and c: "0 < c"
    unfolding insert_entry_eq_Inr two_lines_check by auto
  show ?thesis
  proof (cases "tp_auto_reverse t")
    case False
    then show ?thesis using 2 s1 c r unfolding c_def e1_def by force
  next
    case True
    with 2 obtain rd where "next_month_start pe = Inr rd"
      "s' = s1\<lparr>entries := entries s1 @ [rev rd], line_items := line_items s1 @
          two_lines rid (tp_credit t) (tp_debit t) c\<rparr>"
      unfolding if_P [OF True] bindR_eq_Inr insert_entry_eq_Inr by blast
    then show ?thesis using s1 c r True unfolding c_def
      by (intro exI [of _ "[e1, rev rd]"]
          exI [of _ "two_lines eid (tp_debit t) (tp_credit t) c @ two_lines rid (tp_credit t) (tp_debit t) c"])
        (simp add: c_def e1_def rev_def)
  qed
qed

lemma schedule_template_cong:
  "structures s' = structures s \<Longrightarrow> schedule_template s' sid = schedule_template s sid"
  by (simp add: schedule_template_def find_structure_def)

lemma guard_cong:
  assumes "fperiods s' = fperiods s"
  shows "assert_period_not_closed free s' s' ds = assert_period_not_closed free s s ds"
proof -
  have p: "period_covering s' = period_covering s"
    using assms by (simp add: period_covering_def fun_eq_iff)
  have "covered_periods s' seen xs = covered_periods s seen xs" for seen xs
    by (induction xs arbitrary: seen) (simp_all add: p split: option.splits)
  moreover have "fence_each free s' ks = fence_each free s ks" for ks
    by (induction ks) (auto simp: p split: option.splits)
  ultimately show ?thesis by (simp add: assert_period_not_closed_def)
qed

lemma delete_draft_tables [simp]:
  "structures (delete_draft_entry i s) = structures s" "facts (delete_draft_entry i s) = facts s"
  "fperiods (delete_draft_entry i s) = fperiods s" "events (delete_draft_entry i s) = events s"
  by (simp_all add: delete_draft_entry_def Let_def)

lemma entries_delete_draft:
  "entries (delete_draft_entry i s) = filter (\<lambda>e. en_reversal_of e \<noteq> Some i \<and> en_id e \<noteq> i) (entries s)"
  by (simp add: delete_draft_entry_def Let_def)

lemma lines_delete_draft:
  "set (line_items (delete_draft_entry i s)) \<subseteq> set (line_items s)"
  by (auto simp: delete_draft_entry_def Let_def)

definition reconcile ::
  "string \<Rightarrow> string \<Rightarrow> ledger \<Rightarrow> string \<Rightarrow> entry_template \<Rightarrow> pdate \<Rightarrow> pdate \<Rightarrow> string \<Rightarrow> fact option \<Rightarrow>
   entry option \<Rightarrow> sched_error + ledger \<times> closing_result" where
  "reconcile eid rid s sid t pd pe m f existing =
     (if (case existing of None \<Rightarrow> False | Some e \<Rightarrow> en_status e = EntryPosted) then Inl (AlreadyPosted sid)
      else case f of
        None \<Rightarrow> (case existing of Some e \<Rightarrow> Inr (delete_draft_entry (en_id e) s, no_entry Removed)
                | None \<Rightarrow> Inr (s, no_entry Skipped))
      | Some f \<Rightarrow>
          (case existing of
             None \<Rightarrow> create_draft eid rid s sid t pd pe m (fa_value f) Created
           | Some e \<Rightarrow>
               if is_stale s (en_id e) t (to_cents (fa_value f)) m
               then create_draft eid rid (delete_draft_entry (en_id e) s) sid t pd pe m (fa_value f) Regenerated
               else Inr (s, \<lparr>cs_outcome = Unchanged, cs_entry = Some (en_id e), cs_posting_date = Some pd,
                             cs_memo = en_memo e, cs_debit = Some (tp_debit t), cs_credit = Some (tp_credit t),
                             cs_amount = Some (fa_value f), cs_reversal = None\<rparr>)))"

text \<open>Past its guards a call is the reconcile of the draft it finds with the fact it finds.\<close>

lemma create_closing_body:
  assumes "create_closing_entry free eid rid s sid pd ps pe memo = Inr (s1, r1)"
  obtains st t where "schedule_template s sid = Inr (st, t)"
    "reconcile eid rid s sid t pd pe (entry_memo memo t st) (schedule_fact s sid (tp_debit t) ps pe)
       (existing_closing s sid ps pe) = Inr (s1, r1)"
proof -
  from assms obtain st t where st: "schedule_template s sid = Inr (st, t)"
    by (auto simp: create_closing_entry_def bindR_eq_Inr)
  from assms have "reconcile eid rid s sid t pd pe (entry_memo memo t st)
      (schedule_fact s sid (tp_debit t) ps pe) (existing_closing s sid ps pe) = Inr (s1, r1)"
    unfolding create_closing_entry_def st bindR_Inr prod.case bindR_eq_Inr Let_def reconcile_def [symmetric]
    by blast
  with st show thesis by (rule that)
qed

lemma reconcile_cases:
  assumes "reconcile eid rid s sid t pd pe m f existing = Inr (s1, r1)"
  obtains (drafted) v s0 where "f = Some v" "cs_outcome r1 \<in> {Created, Regenerated}"
      "s0 = s \<or> (\<exists>e. existing = Some e \<and> s0 = delete_draft_entry (en_id e) s)"
      "create_draft eid rid s0 sid t pd pe m (fa_value v) (cs_outcome r1) = Inr (s1, r1)"
  | (kept) e where "existing = Some e" "s1 = s" "cs_outcome r1 = Unchanged" "cs_entry r1 = Some (en_id e)"
  | (removed) e where "existing = Some e" "s1 = delete_draft_entry (en_id e) s" "r1 = no_entry Removed"
  | (skipped) "existing = None" "s1 = s" "r1 = no_entry Skipped"
proof (cases f)
  case None
  with assms show thesis
    by (auto simp: reconcile_def split: option.splits if_splits intro: removed skipped)
next
  case (Some v)
  have oc: "create_draft eid rid s0 sid t pd pe m a oc = Inr (s1, r1) \<Longrightarrow> cs_outcome r1 = oc" for s0 a oc
    using create_draft_rows by blast
  show thesis
  proof (cases existing)
    case None
    with assms Some have d: "create_draft eid rid s sid t pd pe m (fa_value v) Created = Inr (s1, r1)"
      by (simp add: reconcile_def)
    with oc [OF d] Some show thesis by (intro drafted [of v s]) auto
  next
    case (Some e)
    show thesis
    proof (cases "is_stale s (en_id e) t (to_cents (fa_value v)) m")
      case True
      with assms \<open>f = Some v\<close> Some have
        d: "create_draft eid rid (delete_draft_entry (en_id e) s) sid t pd pe m (fa_value v) Regenerated = Inr (s1, r1)"
        by (auto simp: reconcile_def split: if_splits)
      with oc [OF d] \<open>f = Some v\<close> Some show thesis
        by (intro drafted [of v "delete_draft_entry (en_id e) s"]) auto
    next
      case False
      with assms \<open>f = Some v\<close> Some show thesis
        by (auto simp: reconcile_def split: if_splits intro!: kept)
    qed
  qed
qed

text \<open>A reconcile that drafted something drafted it over the ledger \<open>s0\<close>, which lacks any stale draft.\<close>

lemma create_closing_inversion:
  assumes "create_closing_entry free eid rid s sid pd ps pe memo = Inr (s1, r1)"
    "cs_outcome r1 \<in> {Created, Regenerated}"
  obtains st t f s0 where "schedule_template s sid = Inr (st, t)"
    "schedule_fact s sid (tp_debit t) ps pe = Some f"
    "s0 = s \<or> (\<exists>e. existing_closing s sid ps pe = Some e \<and> s0 = delete_draft_entry (en_id e) s)"
    "create_draft eid rid s0 sid t pd pe (entry_memo memo t st) (fa_value f) (cs_outcome r1) = Inr (s1, r1)"
proof -
  from create_closing_body [OF assms(1)] obtain st t where
    1: "schedule_template s sid = Inr (st, t)"
    "reconcile eid rid s sid t pd pe (entry_memo memo t st) (schedule_fact s sid (tp_debit t) ps pe)
       (existing_closing s sid ps pe) = Inr (s1, r1)" .
  from 1(2) show thesis
    by (rule reconcile_cases) (use 1(1) assms(2) that in \<open>auto simp: no_entry_def\<close>)
qed

text \<open>A generated identifier no row mentions.\<close>

definition fresh_id :: "string \<Rightarrow> ledger \<Rightarrow> bool" where
  "fresh_id i s \<longleftrightarrow> i \<notin> en_id ` set (entries s) \<and> Some i \<notin> en_reversal_of ` set (entries s) \<and>
     i \<notin> li_entry ` set (line_items s)"

lemma fresh_id_delete_draft: "fresh_id i s \<Longrightarrow> fresh_id i (delete_draft_entry j s)"
  using lines_delete_draft [of j s] by (auto simp: fresh_id_def entries_delete_draft)

lemma fresh_id_lines:
  "fresh_id i s \<Longrightarrow> find_row (\<lambda>l. li_entry l = i \<and> P l) (line_items s) = None"
  by (auto simp: fresh_id_def find_row_None)

lemma fresh_id_entries: "fresh_id i s \<Longrightarrow> find_row (\<lambda>e. en_id e = i) (entries s) = None"
  by (auto simp: fresh_id_def find_row_None)

text \<open>The ledger after a draft was created over \<open>s0\<close>, in terms of what the reconcile reads.\<close>

lemma created_draft_view:
  assumes d: "create_draft eid rid s0 sid t pd pe m amt oc = Inr (s1, r1)"
    and f: "fresh_id eid s0" "fresh_id rid s0" "eid \<noteq> rid"
  shows "find_row (\<lambda>e. en_id e = eid) (entries s1) = Some (closing_draft eid (tp_entry_type t) pd m sid None)"
    and "find_row (\<lambda>l. li_entry l = eid \<and> 0 < li_debit l) (line_items s1) =
      Some \<lparr>li_entry = eid, li_element = tp_debit t, li_debit = to_cents amt, li_credit = 0\<rparr>"
    and "find_row (\<lambda>l. li_entry l = eid \<and> 0 < li_credit l) (line_items s1) =
      Some \<lparr>li_entry = eid, li_element = tp_credit t, li_debit = 0, li_credit = to_cents amt\<rparr>"
    and "tp_auto_reverse t \<Longrightarrow> find_row (\<lambda>l. li_entry l = rid \<and> 0 < li_debit l) (line_items s1) =
      Some \<lparr>li_entry = rid, li_element = tp_credit t, li_debit = to_cents amt, li_credit = 0\<rparr>"
    and "structures s1 = structures s0 \<and> facts s1 = facts s0 \<and> fperiods s1 = fperiods s0 \<and> events s1 = events s0"
  using create_draft_rows [OF d] f
  by (auto simp: find_row_append fresh_id_lines fresh_id_entries two_lines_def closing_draft_def
      split: if_splits)

lemma created_draft_existing:
  assumes d: "create_draft eid rid s0 sid t pd pe m amt oc = Inr (s1, r1)"
    and "ps \<le> pd" "pd \<le> pe"
  shows "existing_closing s1 sid ps pe = Some (closing_draft eid (tp_entry_type t) pd m sid None)"
proof (cases "tp_auto_reverse t")
  case False
  with create_draft_rows [OF d] have "entries s1 = entries s0 @ [closing_draft eid (tp_entry_type t) pd m sid None]"
    by force
  with assms(2,3) show ?thesis by (simp add: existing_closing_def in_window_def closing_draft_def)
next
  case True
  with create_draft_rows [OF d] obtain rd where rd: "next_month_start pe = Inr rd" and
    "entries s1 = entries s0 @ [closing_draft eid (tp_entry_type t) pd m sid None,
       closing_draft rid ''reversing'' rd (''Reverse: '' @ m) sid (Some eid)]"
    by force
  moreover have "\<not> rd \<le> pe" using next_month_start_less(1) [OF rd] by simp
  ultimately show ?thesis using assms(2,3) by (simp add: existing_closing_def in_window_def closing_draft_def)
qed

subsection \<open>A schedule to run the operations on\<close>

definition outcome_of :: "sched_error + ledger \<times> closing_result \<Rightarrow> outcome option" where
  "outcome_of r = (case r of Inl _ \<Rightarrow> None | Inr (_, x) \<Rightarrow> Some (cs_outcome x))"

definition demo_template :: entry_template where
  "demo_template = \<lparr>tp_debit = ''el_interest'', tp_credit = ''el_accrued'', tp_entry_type = ''closing'',
     tp_memo = ''Accrue {structure_name}'', tp_auto_reverse = True\<rparr>"

definition demo_structure :: structure_row where
  "demo_structure = \<lparr>st_id = ''struct_1'', st_name = ''Loan'', st_block_type = ''schedule'', st_active = True,
     st_template = Some demo_template, st_created_event = Some ''evt_0'', st_end_date = None, st_truncations = [],
     st_original = None, st_asset = None\<rparr>"

definition demo_fact :: "int \<Rightarrow> rat \<Rightarrow> fact" where
  "demo_fact m v = \<lparr>fa_structure = ''struct_1'', fa_element = ''el_interest'', fa_set = ''fs_1'',
     fa_scope = ''in_scope'', fa_instant = False, fa_start = Some (Date 2026 m 1), fa_end = month_end (Date 2026 m 1), fa_value = v\<rparr>"

definition demo_schedule :: ledger where
  "demo_schedule = demo_ledger\<lparr>structures := [demo_structure],
     facts := [demo_fact 2 (125 / 2), demo_fact 3 80]\<rparr>"

abbreviation "demo_feb \<equiv> create_closing_entry (\<lambda>_. True) ''je_1'' ''je_2'' demo_schedule ''struct_1''
  (Date 2026 2 28) (Date 2026 2 1) (Date 2026 2 28) None"

lemma demo_feb_created: "outcome_of demo_feb = Some Created"
  by code_simp

lemma demo_fresh: "fresh_id ''je_1'' demo_schedule" "fresh_id ''je_2'' demo_schedule"
  by code_simp+

lemma outcome_of_Some: "outcome_of r = Some oc \<Longrightarrow> \<exists>s x. r = Inr (s, x) \<and> cs_outcome x = oc"
  by (auto simp: outcome_of_def split: sum.splits)

subsection \<open>The reconcile is idempotent\<close>

text \<open>
  Drafting a schedule's closing entry twice is drafting it once: after a call that created
  or regenerated the draft, the same call reports it unchanged and writes nothing.
\<close>

theorem create_closing_entry_idempotent:
  assumes "create_closing_entry free eid rid s sid pd ps pe memo = Inr (s1, r1)"
    "cs_outcome r1 \<in> {Created, Regenerated}" "ps \<le> pd" "pd \<le> pe"
    "fresh_id eid s" "fresh_id rid s" "eid \<noteq> rid"
  shows "\<exists>r2. create_closing_entry free eid' rid' s1 sid pd ps pe memo = Inr (s1, r2) \<and>
    cs_outcome r2 = Unchanged \<and> cs_entry r2 = Some eid"
proof -
  from create_closing_inversion [OF assms(1,2)] obtain st t f s0 where
    st: "schedule_template s sid = Inr (st, t)"
    and f: "schedule_fact s sid (tp_debit t) ps pe = Some f"
    and s0: "s0 = s \<or> (\<exists>e. existing_closing s sid ps pe = Some e \<and> s0 = delete_draft_entry (en_id e) s)"
    and d: "create_draft eid rid s0 sid t pd pe (entry_memo memo t st) (fa_value f) (cs_outcome r1) = Inr (s1, r1)"
    .
  have fr: "fresh_id eid s0" "fresh_id rid s0"
    using s0 assms(5,6) fresh_id_delete_draft by blast+
  have t0: "structures s0 = structures s" "facts s0 = facts s" "fperiods s0 = fperiods s"
    using s0 by auto
  note v = created_draft_view [OF d fr assms(7)]
  have same: "structures s1 = structures s" "facts s1 = facts s" "fperiods s1 = fperiods s"
    using v(5) t0 by auto
  from assms(1) st obtain ds where
    ds: "(if tp_auto_reverse t then bindR (next_month_start pe) (\<lambda>rd. Inr [Some pd, Some rd]) else Inr [Some pd]) = Inr ds"
    and g: "liftG (assert_period_not_closed free s s ds) = Inr ()"
    by (auto simp: create_closing_entry_def bindR_eq_Inr)
  have g1: "liftG (assert_period_not_closed free s1 s1 ds) = Inr ()"
    using g unfolding guard_cong [OF same(3)] .
  have st1: "schedule_template s1 sid = Inr (st, t)"
    using schedule_template_cong [OF same(1)] st by simp
  have f1: "schedule_fact s1 sid (tp_debit t) ps pe = Some f"
    using f same(2) by (simp add: schedule_fact_def)
  note ex = created_draft_existing [OF d assms(3,4)]
  have "\<not> is_stale s1 eid t (to_cents (fa_value f)) (entry_memo memo t st)"
    using v(1-3) by (simp add: is_stale_def debit_line_def credit_line_def amount_of_def closing_draft_def)
  then show ?thesis
    unfolding create_closing_entry_def st1 bindR_Inr prod.case ds g1 Let_def f1 ex
    by (simp add: closing_draft_def)
qed

theorem create_closing_entry_idempotent_witness:
  "\<exists>s1 r1 r2. demo_feb = Inr (s1, r1) \<and>
    create_closing_entry (\<lambda>_. True) ''je_3'' ''je_4'' s1 ''struct_1'' (Date 2026 2 28) (Date 2026 2 1)
      (Date 2026 2 28) None = Inr (s1, r2) \<and> cs_outcome r2 = Unchanged \<and> cs_entry r2 = Some ''je_1''"
proof -
  from outcome_of_Some [OF demo_feb_created] obtain s1 r1 where
    r: "demo_feb = Inr (s1, r1)" "cs_outcome r1 = Created" by blast
  have "Date 2026 2 1 \<le> Date 2026 2 28" "Date 2026 2 28 \<le> Date 2026 2 28" by code_simp+
  from create_closing_entry_idempotent [OF r(1) _ this demo_fresh, of "''je_3''" "''je_4''"] r
  show ?thesis by auto
qed

subsection \<open>The automatic reversal is taken for the next month's draft\<close>

text \<open>
  A schedule that reverses automatically loses every reversal: the reversal is dated the
  first day of the next month, where the next month's reconcile looks for its own draft, so
  that call deletes the reversal of the month before.
\<close>

theorem auto_reversal_deleted_next_month:
  assumes "create_closing_entry free eid rid s sid pd ps pe memo = Inr (s1, r1)"
    "cs_outcome r1 \<in> {Created, Regenerated}"
    "schedule_template s sid = Inr (st, t)" "tp_auto_reverse t" "tp_debit t \<noteq> tp_credit t"
    "next_month_start pe = Inr ps'" "ps' \<le> pe'"
    "fresh_id eid s" "fresh_id rid s" "eid \<noteq> rid" "rid \<notin> {eid', rid'}"
    "create_closing_entry free' eid' rid' s1 sid pd' ps' pe' memo' = Inr (s2, r2)"
  shows "rid \<in> en_id ` set (entries s1) \<and> rid \<notin> en_id ` set (entries s2) \<and>
    cs_outcome r2 \<in> {Regenerated, Removed}"
proof -
  from create_closing_inversion [OF assms(1,2)] obtain st' t' f s0 where
    st': "schedule_template s sid = Inr (st', t')"
    and "schedule_fact s sid (tp_debit t') ps pe = Some f"
    and s0: "s0 = s \<or> (\<exists>e. existing_closing s sid ps pe = Some e \<and> s0 = delete_draft_entry (en_id e) s)"
    and d': "create_draft eid rid s0 sid t' pd pe (entry_memo memo t' st') (fa_value f) (cs_outcome r1) = Inr (s1, r1)"
    .
  from st' assms(3) have "st' = st" "t' = t" by simp_all
  with d' have d: "create_draft eid rid s0 sid t pd pe (entry_memo memo t st) (fa_value f) (cs_outcome r1) = Inr (s1, r1)"
    by simp
  have fr: "fresh_id eid s0" "fresh_id rid s0"
    using s0 assms(8,9) fresh_id_delete_draft by blast+
  define rv where "rv = closing_draft rid ''reversing'' ps' (''Reverse: '' @ entry_memo memo t st) sid (Some eid)"
  have en: "entries s1 = entries s0 @ [closing_draft eid (tp_entry_type t) pd (entry_memo memo t st) sid None, rv]"
    using create_draft_rows [OF d] assms(4,6) unfolding rv_def by force
  have ex: "existing_closing s1 sid ps' pe' = Some rv"
    using assms(7) by (simp add: existing_closing_def en in_window_def rv_def closing_draft_def)
  note v = created_draft_view [OF d fr assms(10)]
  have same: "structures s1 = structures s" using v(5) s0 by auto
  have st1: "schedule_template s1 sid = Inr (st, t)"
    using schedule_template_cong [OF same] assms(3) by simp
  have stale: "is_stale s1 rid t c m" for c m
    using v(4) [OF assms(4)] assms(5) by (simp add: is_stale_def debit_line_def split: option.splits)
  have "\<exists>s3. s3 = delete_draft_entry rid s1 \<and> (r2 = no_entry Removed \<and> s2 = s3 \<or>
      (\<exists>m a. create_draft eid' rid' s3 sid t pd' pe' m a Regenerated = Inr (s2, r2)))"
    using assms(12) stale unfolding create_closing_entry_def st1 bindR_Inr prod.case bindR_eq_Inr Let_def ex
    by (auto simp: rv_def closing_draft_def split: option.splits)
  then have "rid \<notin> en_id ` set (entries s2) \<and> cs_outcome r2 \<in> {Regenerated, Removed}"
  proof (elim exE conjE disjE)
    fix s3 assume "s3 = delete_draft_entry rid s1" "r2 = no_entry Removed" "s2 = s3"
    then show ?thesis by (auto simp: entries_delete_draft no_entry_def)
  next
    fix s3 m a
    assume s3: "s3 = delete_draft_entry rid s1"
      and c: "create_draft eid' rid' s3 sid t pd' pe' m a Regenerated = Inr (s2, r2)"
    from create_draft_rows [OF c] obtain es ls where
      es: "entries s2 = entries s3 @ es" "en_id ` set es \<subseteq> {eid', rid'}" and oc: "cs_outcome r2 = Regenerated"
      by (auto simp: closing_draft_def split: if_splits)
    then have "en_id ` set (entries s2) \<subseteq> en_id ` set (entries s3) \<union> {eid', rid'}" by auto
    moreover have "rid \<notin> en_id ` set (entries s3)" unfolding s3 by (auto simp: entries_delete_draft)
    ultimately show ?thesis using assms(11) oc by blast
  qed
  moreover have "rid \<in> en_id ` set (entries s1)" by (simp add: en rv_def closing_draft_def)
  ultimately show ?thesis by blast
qed

abbreviation "demo_mar s \<equiv> create_closing_entry (\<lambda>_. True) ''je_3'' ''je_4'' s ''struct_1''
  (Date 2026 3 31) (Date 2026 3 1) (Date 2026 3 31) None"

lemma demo_mar_regenerated:
  "outcome_of (case demo_feb of Inl e \<Rightarrow> Inl e | Inr (s, _) \<Rightarrow> demo_mar s) = Some Regenerated"
  by code_simp

lemma demo_template_read: "schedule_template demo_schedule ''struct_1'' = Inr (demo_structure, demo_template)"
  by (simp add: schedule_template_def find_structure_def demo_schedule_def demo_structure_def)

theorem auto_reversal_deleted_next_month_witness:
  "\<exists>s1 r1 s2 r2. demo_feb = Inr (s1, r1) \<and> demo_mar s1 = Inr (s2, r2) \<and>
    ''je_2'' \<in> en_id ` set (entries s1) \<and> ''je_2'' \<notin> en_id ` set (entries s2)"
proof -
  from outcome_of_Some [OF demo_feb_created] obtain s1 r1 where
    r: "demo_feb = Inr (s1, r1)" "cs_outcome r1 = Created" by blast
  from outcome_of_Some [OF demo_mar_regenerated] r(1) obtain s2 r2 where m: "demo_mar s1 = Inr (s2, r2)"
    by auto
  have n: "next_month_start (Date 2026 2 28) = Inr (Date 2026 3 1)" "Date 2026 3 1 \<le> Date 2026 3 31"
    by code_simp+
  have t: "tp_auto_reverse demo_template" "tp_debit demo_template \<noteq> tp_credit demo_template"
    by (simp_all add: demo_template_def)
  from auto_reversal_deleted_next_month [OF r(1) _ demo_template_read t n demo_fresh _ _ m] r m
  show ?thesis by auto
qed

subsection \<open>Manual entries\<close>

definition line_ok :: "manual_line \<Rightarrow> bool" where
  "line_ok l \<longleftrightarrow> truthy (ml_element l) \<and>
     (or_zero (ml_debit l) = 0 \<and> 0 < or_zero (ml_credit l) \<or> 0 < or_zero (ml_debit l) \<and> or_zero (ml_credit l) = 0)"

definition norm_line :: "manual_line \<Rightarrow> string \<times> int \<times> int" where
  "norm_line l = (the (ml_element l), or_zero (ml_debit l), or_zero (ml_credit l))"

lemma normalize_lines_eq_Inr:
  "normalize_lines i ls = Inr ns \<longleftrightarrow> (\<forall>l\<in>set ls. line_ok l) \<and> ns = map norm_line ls"
proof (induction ls arbitrary: i ns)
  case (Cons l ls)
  show ?case
  proof (cases "line_ok l")
    case True
    then have "normalize_lines i (l # ls) =
        bindR (normalize_lines (i + 1) ls) (\<lambda>rest. Inr (norm_line l # rest))"
      by (auto simp: line_ok_def norm_line_def Let_def)
    with True Cons.IH show ?thesis by (auto simp: bindR_eq_Inr)
  next
    case False
    then have "\<not> is_ok (normalize_lines i (l # ls))"
      by (auto simp: line_ok_def Let_def)
    with False show ?thesis by auto
  qed
qed auto

definition entry_debits :: "ledger \<Rightarrow> string \<Rightarrow> int" where
  "entry_debits s eid = (\<Sum>l\<leftarrow>filter (\<lambda>l. li_entry l = eid) (line_items s). li_debit l)"

definition entry_credits :: "ledger \<Rightarrow> string \<Rightarrow> int" where
  "entry_credits s eid = (\<Sum>l\<leftarrow>filter (\<lambda>l. li_entry l = eid) (line_items s). li_credit l)"

definition manual_entry :: "string \<Rightarrow> string \<Rightarrow> pdate \<Rightarrow> string \<Rightarrow> entry" where
  "manual_entry eid ty pd memo = \<lparr>en_id = eid, en_type = ty, en_posting_date = pd, en_status = EntryDraft,
     en_posted_at = None, en_event = None, en_structure = None, en_transaction = None,
     en_reversal_of = None, en_memo = Some memo\<rparr>"

definition manual_rows :: "string \<Rightarrow> manual_line list \<Rightarrow> line_item list" where
  "manual_rows eid lines = map (\<lambda>l. \<lparr>li_entry = eid, li_element = the (ml_element l),
     li_debit = or_zero (ml_debit l), li_credit = or_zero (ml_credit l)\<rparr>) lines"

lemma manual_rows_check: "\<forall>l\<in>set lines. line_ok l \<Longrightarrow> \<forall>l\<in>set (manual_rows eid lines). line_check l"
  by (auto simp: manual_rows_def line_ok_def line_check_def)

lemma sum_norm_lines:
  "(\<Sum>(_, d, _)\<leftarrow>map norm_line ls. d) = (\<Sum>l\<leftarrow>ls. or_zero (ml_debit l))"
  "(\<Sum>(_, _, c)\<leftarrow>map norm_line ls. c) = (\<Sum>l\<leftarrow>ls. or_zero (ml_credit l))"
  by (induction ls) (simp_all add: norm_line_def)

lemma rows_norm_lines:
  "map (\<lambda>(el, d, c). \<lparr>li_entry = eid, li_element = el, li_debit = d, li_credit = c\<rparr>) (map norm_line ls) =
   manual_rows eid ls"
  by (induction ls) (simp_all add: norm_line_def manual_rows_def)

text \<open>
  A manual closing entry is accepted exactly when its memo is not blank, it has lines,
  each line names an element and has one positive side, the debits equal the credits and
  the posting date is not in a closed period; then exactly its draft and its lines are added.
\<close>

theorem manual_entry_accepted_iff:
  "(\<exists>r. create_manual_closing_entry free eid s pd lines memo ty = Inr (s', r)) \<longleftrightarrow>
     \<not> blank memo \<and> lines \<noteq> [] \<and> list_all line_ok lines \<and>
     (\<Sum>l\<leftarrow>lines. or_zero (ml_debit l)) = (\<Sum>l\<leftarrow>lines. or_zero (ml_credit l)) \<and>
     assert_period_not_closed free s s [Some pd] = Inr () \<and>
     s' = s\<lparr>entries := entries s @ [manual_entry eid ty pd memo],
            line_items := line_items s @ manual_rows eid lines\<rparr>"
proof -
  have i: "insert_entry (manual_entry eid ty pd memo) (manual_rows eid lines) s = Inr s'' \<longleftrightarrow>
      s'' = s\<lparr>entries := entries s @ [manual_entry eid ty pd memo],
            line_items := line_items s @ manual_rows eid lines\<rparr>"
    if "\<forall>l\<in>set lines. line_ok l" for s''
    using manual_rows_check [OF that] by (simp add: insert_entry_eq_Inr reversal_free_def manual_entry_def)
  show ?thesis
    unfolding create_manual_closing_entry_def Let_def bindR_eq_Inr guardR_eq_Inr liftG_eq_Inr
      normalize_lines_eq_Inr manual_entry_def [symmetric]
    using i by (auto simp: sum_norm_lines rows_norm_lines list_all_iff simp del: map_map)
qed

subsection \<open>Truncation\<close>

text \<open>
  Truncating a schedule removes exactly its facts that start after the new end and its
  drafts that post after it, with their lines; posted entries, the facts the schedule
  keeps and every other schedule's rows stay, and nothing was drafted in a closed period.
\<close>

theorem truncate_schedule_effect:
  assumes "truncate_schedule free s sid new_end reason by_user = Inr (s', n)"
  shows "dy new_end = month_days (yr new_end) (mo new_end) \<and>
    facts s' = filter (\<lambda>f. \<not> (fa_structure f = sid \<and> starts_after new_end f)) (facts s) \<and>
    n = length (facts s) - length (facts s') \<and>
    (\<forall>f\<in>set (facts s'). fa_structure f = sid \<longrightarrow> \<not> starts_after new_end f) \<and>
    (\<exists>f\<in>set (facts s'). fa_structure f = sid) \<and>
    entries s' = filter (\<lambda>e. \<not> (en_structure e = Some sid \<and> en_status e = EntryDraft \<and>
      new_end < en_posting_date e)) (entries s) \<and>
    (\<forall>e\<in>set (entries s). en_status e = EntryPosted \<longrightarrow> e \<in> set (entries s')) \<and>
    events s' = events s \<and> fperiods s' = fperiods s"
proof -
  let ?gone = "\<lambda>f. fa_structure f = sid \<and> starts_after new_end f"
  let ?starts = "List.map_filter fa_start (filter (\<lambda>f. fa_structure f = sid) (facts s))"
  from assms have g: "dy new_end = month_days (yr new_end) (mo new_end)" "?starts \<noteq> []"
    "\<not> new_end < Min (set ?starts)"
    and s': "facts s' = filter (\<lambda>f. \<not> ?gone f) (facts s)" "n = count_where ?gone (facts s)"
      "entries s' = filter (\<lambda>e. \<not> beyond sid new_end EntryDraft e) (entries s)"
      "events s' = events s" "fperiods s' = fperiods s"
    unfolding truncate_schedule_def
    by (auto simp: Let_def bindR_eq_Inr guardR_eq_Inr update_structure_def
        split: option.splits if_splits)
  have "length (facts s) = length (filter ?gone (facts s)) + length (filter (\<lambda>f. \<not> ?gone f) (facts s))"
    by (rule sum_length_filter_compl [symmetric])
  then have n: "n = length (facts s) - length (facts s')"
    by (simp add: s' count_where_def)
  obtain m where m: "m = Min (set ?starts)" by simp
  have "m \<in> set ?starts" unfolding m using g(2) by (intro Min_in) (simp_all only: finite_set set_empty not_False_eq_True)
  then obtain f where f: "f \<in> set (facts s)" "fa_structure f = sid" "fa_start f = Some m"
    by (auto simp: List.map_filter_def)
  then have "\<not> ?gone f" using g(3) by (simp add: m starts_after_def)
  with f have "\<exists>f\<in>set (facts s'). fa_structure f = sid" unfolding s'(1) by auto
  then show ?thesis using g(1) s' n by (auto simp: beyond_def)
qed

lemma demo_truncate_ok:
  "is_ok (truncate_schedule (\<lambda>_. True) demo_schedule ''struct_1'' (Date 2026 2 28) ''sold'' ''user_1'')"
  by code_simp

theorem truncate_schedule_effect_witness:
  "\<exists>s' n. truncate_schedule (\<lambda>_. True) demo_schedule ''struct_1'' (Date 2026 2 28) ''sold'' ''user_1'' = Inr (s', n) \<and>
    facts s' = [demo_fact 2 (125 / 2)]"
proof -
  from demo_truncate_ok obtain s' n where
    r: "truncate_schedule (\<lambda>_. True) demo_schedule ''struct_1'' (Date 2026 2 28) ''sold'' ''user_1'' = Inr (s', n)"
    by (auto simp: is_ok_def split: sum.splits)
  have "facts s' = [demo_fact 2 (125 / 2)]"
    using truncate_schedule_effect [OF r]
    by (auto simp: demo_schedule_def demo_fact_def starts_after_def less_pdate_def)
  with r show ?thesis by blast
qed

subsection \<open>Months of a schedule\<close>

text \<open>The first days of the months, on the line the period texts are on.\<close>

definition month_first :: "pdate \<Rightarrow> bool" where
  "month_first d \<longleftrightarrow> wf_date d \<and> dy d = 1"

definition month_no :: "pdate \<Rightarrow> int" where
  "month_no d = yr d * 12 + mo d - 1"

lemma month_first_Date: "month_first (Date y m 1) \<longleftrightarrow> 1 \<le> y \<and> y \<le> 9999 \<and> 1 \<le> m \<and> m \<le> 12"
  by (auto simp: month_first_def wf_date_def month_days_def)

lemma month_first_cases:
  assumes "month_first d"
  obtains y m where "d = Date y m 1" "1 \<le> y" "y \<le> 9999" "1 \<le> m" "m \<le> 12"
  using assms by (cases d) (auto simp: month_first_Date month_first_def wf_date_def)

lemma next_month_first:
  assumes "1 \<le> y" "y \<le> 9999" "1 \<le> m" "m \<le> 12" "y * 12 + m < 120000"
  shows "next_month_start (Date y m 1) = Inr (if m = 12 then Date (y + 1) 1 1 else Date y (m + 1) 1)"
  using assms by (auto simp: next_month_start_def mk_date_def month_days_def)

interpretation ml: step_line month_first month_no 120000 next_month_start
proof unfold_locales
  fix p q
  assume p: "month_first p"
  from p show "0 \<le> month_no p \<and> month_no p < 120000"
    by (elim month_first_cases) (simp add: month_no_def)
  show "month_first q \<Longrightarrow> p < q \<longleftrightarrow> month_no p < month_no q"
    using p by (elim month_first_cases) (auto simp: month_no_def less_pdate_def)
  show "month_no p + 1 < 120000 \<Longrightarrow>
      \<exists>q. next_month_start p = Inr q \<and> month_first q \<and> month_no q = month_no p + 1"
    using p by (elim month_first_cases) (auto simp: next_month_first month_no_def month_first_Date)
qed

text \<open>A month that starts by a date starts by the first day of that date's month.\<close>

lemma month_first_le:
  "month_first d \<Longrightarrow> 1 \<le> dy e \<Longrightarrow> d \<le> e \<longleftrightarrow> d \<le> Date (yr e) (mo e) 1"
  by (elim month_first_cases) (auto simp: less_eq_pdate_def)

lemma walk_month_stop:
  assumes "1 \<le> dy e"
  shows "month_first d \<Longrightarrow> walk (\<le>) next_month_start k d e = walk (\<le>) next_month_start k d (Date (yr e) (mo e) 1)"
proof (induction k arbitrary: d)
  case (Suc k)
  have "month_first n" if "next_month_start d = Inr n" for n
    using next_month_start_less [OF that] by (simp add: month_first_def)
  then show ?case
    using Suc month_first_le [OF Suc.prems assms] by (auto split: sum.splits)
qed simp

text \<open>
  The months of a schedule are exactly the months from the start date's to the end
  date's, in order, each from its first to its last day, so consecutive ones adjoin; the
  loop ends.
\<close>

theorem generate_monthly_periods_exact:
  assumes "wf_date a" "wf_date b" "month_no b + 1 < 120000"
  shows "\<exists>ps. generate_monthly_periods a b = Some (Inr ps) \<and>
    map (month_no \<circ> fst) ps = [month_no a..month_no b] \<and>
    (\<forall>(x, y)\<in>set ps. dy x = 1 \<and> wf_date x \<and> y = month_end x \<and> next_month_start y = next_month_start x)"
proof -
  let ?a = "Date (yr a) (mo a) 1" and ?b = "Date (yr b) (mo b) 1"
  have ab: "month_first ?a" "month_first ?b" "month_no ?a = month_no a" "month_no ?b = month_no b"
    using assms(1,2) by (auto simp: month_first_Date wf_date_def month_no_def)
  let ?k = "nat ((yr b * 12 + mo b) - (yr a * 12 + mo a)) + 2"
  have "nat (month_no ?b - month_no ?a + 1) < ?k" by (simp add: month_no_def)
  from ml.walk_range [OF ab(1,2) _ this] assms(3) ab obtain ds where
    ds: "walk (\<le>) next_month_start ?k ?a ?b = Some (Inr ds)" "map month_no ds = [month_no a..month_no b]"
      "\<forall>d\<in>set ds. month_first d" by auto
  have "walk (\<le>) next_month_start ?k ?a b = Some (Inr ds)"
    using walk_month_stop [of b ?a ?k] ab(1) assms(2) ds(1) by (simp add: wf_date_def)
  then have g: "generate_monthly_periods a b = Some (Inr (map (\<lambda>d. (d, month_end d)) ds))"
    by (simp add: generate_monthly_periods_def)
  have "map (month_no \<circ> fst) (map (\<lambda>d. (d, month_end d)) ds) = [month_no a..month_no b]"
    using ds(2) by (simp add: comp_def)
  moreover have "next_month_start (month_end d) = next_month_start d" for d
    by (simp add: next_month_start_def month_end_def)
  ultimately show ?thesis
    using g ds(3) by (intro exI [of _ "map (\<lambda>d. (d, month_end d)) ds"]) (auto simp: month_first_def)
qed

theorem generate_monthly_periods_exact_witness:
  "\<exists>ps. generate_monthly_periods (Date 2025 11 15) (Date 2026 2 3) = Some (Inr ps) \<and> length ps = 4"
proof -
  have "wf_date (Date 2025 11 15)" "wf_date (Date 2026 2 3)" "month_no (Date 2026 2 3) + 1 < 120000"
    by code_simp+
  from generate_monthly_periods_exact [OF this] obtain ps where
    p: "generate_monthly_periods (Date 2025 11 15) (Date 2026 2 3) = Some (Inr ps)"
    "map (month_no \<circ> fst) ps = [month_no (Date 2025 11 15)..month_no (Date 2026 2 3)]" by blast
  have "length (map (month_no \<circ> fst) ps) = 4" unfolding p(2) by code_simp
  with p(1) show ?thesis by auto
qed

subsection \<open>The obligation register\<close>

definition pending_for :: "string \<Rightarrow> event \<Rightarrow> bool" where
  "pending_for o_id e \<longleftrightarrow> ev_obligated_by e = Some o_id \<and> ev_status e = EvPending"

lemma count_where_fresh: "(\<And>x. x \<in> set xs \<Longrightarrow> \<not> P x) \<Longrightarrow> count_where P xs = 0"
  by (simp add: count_where_def filter_empty_conv)

lemma count_where_map: "count_where P (map f xs) = count_where (P \<circ> f) xs"
  by (simp add: count_where_def filter_map)

lemma count_where_cong: "(\<And>x. x \<in> set xs \<Longrightarrow> P x = Q x) \<Longrightarrow> count_where P xs = count_where Q xs"
  by (simp add: count_where_def cong: filter_cong)

text \<open>
  Creating a schedule registers its originator and one obligation per month; the
  returned count, the count on the originator and the number of pending obligations of the
  register agree, an obligation is pending exactly when its month ends after the closed
  date, and it falls due at the end of its month.
\<close>

theorem materialize_register_exact:
  assumes "materialize_pending_obligations now cid new_id s sid tid ps pe periods through = (s', n)"
    "\<forall>e\<in>set (events s). ev_obligated_by e \<noteq> Some cid \<and> ev_id e \<noteq> cid"
  shows "count_where (pending_for cid) (events s') = n \<and>
    map_option ev_pending_count (find_event s' cid) = Some (Some (int n)) \<and>
    (\<exists>due. events s' = events s @ the (find_event s' cid) # due \<and> length due = length periods \<and>
       (\<forall>i<length periods. ev_obligated_by (due ! i) = Some cid \<and>
          ev_occurred_at (due ! i) = end_of_day (snd (periods ! i)) \<and>
          ev_status (due ! i) = (if is_historical through (snd (periods ! i)) then Voided else EvPending)))"
proof -
  define og where "og = \<lparr>ev_id = cid, ev_type = ''schedule_created'', ev_occurred_at = now, ev_effective_at = None,
             ev_status = Committed, ev_source = ''schedule'', ev_external_id = None, ev_agent = None, ev_drift = False, ev_drift_payload = None,
             ev_meta = [(''schedule_id'', sid), (''taxonomy_id'', tid), (''period_start'', iso_date ps),
                        (''period_end'', iso_date pe)],
             ev_linked = [], ev_obligated_by = None, ev_discharges = None, ev_replaces = None, ev_replaced_by = None,
             ev_pending_count = Some (int n), ev_void_history = []\<rparr>"
  define mk where "mk = (\<lambda>(a, b). obligation (new_id a) sid cid (iso_date a) (iso_date b) (end_of_day b)
                       (if is_historical through b then Voided else EvPending) None
                       (if is_historical through b then [(''void_reason'', ''historical'')] else []))"
  from assms(1) have n: "n = length (filter (\<lambda>(a, b). \<not> is_historical through b) periods)"
    and ev: "events s' = events s @ og # map mk periods"
    unfolding materialize_pending_obligations_def og_def mk_def Let_def by auto
  have mk: "ev_obligated_by (mk p) = Some cid" "ev_occurred_at (mk p) = end_of_day (snd p)"
    "ev_status (mk p) = (if is_historical through (snd p) then Voided else EvPending)" for p
    by (simp_all add: mk_def obligation_def split: prod.splits)
  have f: "find_event s' cid = Some og"
  proof -
    have "find_row (\<lambda>e. ev_id e = cid) (events s) = None" using assms(2) by (simp add: find_row_None)
    then show ?thesis by (simp add: find_event_def ev find_row_append og_def)
  qed
  have "count_where (pending_for cid \<circ> mk) periods = n"
    unfolding n count_where_def
    by (rule arg_cong [of _ _ length], rule filter_cong) (auto simp: pending_for_def mk)
  moreover have "count_where (pending_for cid) (events s) = 0" "\<not> pending_for cid og"
    using assms(2) by (auto intro: count_where_fresh simp: pending_for_def og_def)
  ultimately have "count_where (pending_for cid) (events s') = n"
    unfolding ev count_where_append by (simp add: count_where_map [symmetric] count_where_def)
  then show ?thesis using f ev mk by (auto simp: og_def)
qed

abbreviation "demo_register \<equiv> materialize_pending_obligations (Time (Date 2026 1 5) 0) ''evt_0''
  (\<lambda>d. if mo d = 1 then ''evt_1'' else if mo d = 2 then ''evt_2'' else ''evt_3'') demo_schedule ''struct_1'' ''tax_1'' (Date 2026 1 1) (Date 2026 3 31)
  [(Date 2026 1 1, Date 2026 1 31), (Date 2026 2 1, Date 2026 2 28), (Date 2026 3 1, Date 2026 3 31)]
  (Some (Date 2026 1 31))"

theorem materialize_register_exact_witness:
  "\<exists>s'. demo_register = (s', 2) \<and> count_where (pending_for ''evt_0'') (events s') = 2"
proof -
  obtain s' n where r: "demo_register = (s', n)" by fastforce
  have "snd demo_register = 2"
    by (simp add: materialize_pending_obligations_def is_historical_def less_eq_pdate_def)
  with r have n: "n = 2" by simp
  have "\<forall>e\<in>set (events demo_schedule). ev_obligated_by e \<noteq> Some ''evt_0'' \<and> ev_id e \<noteq> ''evt_0''"
    by (simp add: demo_schedule_def demo_ledger_def)
  from materialize_register_exact [OF r this] r n show ?thesis by auto
qed

lemma update_where_other:
  "x \<in> set rows \<Longrightarrow> \<not> P x \<Longrightarrow> x \<in> set (update_where P f rows)"
  by (auto simp: set_update_where)

lemma count_update_where:
  "(\<And>x. x \<in> set rows \<Longrightarrow> Q (if P x then f x else x) = Q' x) \<Longrightarrow>
     count_where Q (update_where P f rows) = count_where Q' rows"
  by (induction rows) (auto simp: count_where_def)

text \<open>
  Voiding a schedule's obligations voids exactly the rows it selects and returns their
  number: none of the selected obligations is left, every event that was not selected and
  is not the originator is unchanged, and the originator's open count drops by that number.
\<close>

theorem void_pending_exact:
  assumes "void_pending_obligations s st reason by_event after classified = (s', n)"
    "register_originator s st = Some o_id" "distinct (map ev_id (events s))"
    "find_event s o_id = Some og" "\<not> to_void o_id after classified og"
  shows "n = count_where (to_void o_id after classified) (events s) \<and>
    count_where (to_void o_id after classified) (events s') = 0 \<and>
    map ev_id (events s') = map ev_id (events s) \<and>
    (\<forall>e\<in>set (events s). \<not> to_void o_id after classified e \<and> ev_id e \<noteq> o_id \<longrightarrow> e \<in> set (events s')) \<and>
    (0 < n \<longrightarrow> find_event s' o_id = Some (og\<lparr>
       ev_pending_count := Some (max 0 (or_zero (ev_pending_count og) - int n)),
       ev_void_history := ev_void_history og @ [(n, reason, by_event)]\<rparr>))"
proof -
  let ?P = "to_void o_id after classified"
  let ?ids = "ev_id ` {e \<in> set (events s). ?P e}"
  let ?hit = "\<lambda>e. ev_id e \<in> ?ids \<and> voidable classified (ev_status e)"
  have inj: "e = e'" if "e \<in> set (events s)" "e' \<in> set (events s)" "ev_id e = ev_id e'" for e e'
    using assms(3) that by (auto simp: distinct_map inj_on_def)
  have hit: "?hit e = ?P e" if "e \<in> set (events s)" for e
    using that inj by (auto simp: to_void_def)
  then have c: "count_where ?hit (events s) = count_where ?P (events s)"
    by (rule count_where_cong)
  define f where "f = (\<lambda>e::event. e\<lparr>ev_status := Voided,
      ev_replaced_by := (if by_event = None then ev_replaced_by e else by_event)\<rparr>)"
  define h where "h = (\<lambda>e::event. e\<lparr>ev_pending_count := Some (max 0 (or_zero (ev_pending_count e) - int n)),
      ev_void_history := ev_void_history e @ [(n, reason, by_event)]\<rparr>)"
  show ?thesis
  proof (cases "count_where ?P (events s) = 0")
    case True
    with assms(1,2) c show ?thesis
      by (auto simp: void_pending_obligations_def Let_def)
  next
    case False
    with assms(1,2) c have n: "n = count_where ?P (events s)"
      and s': "events s' = update_where (\<lambda>e. ev_id e = o_id) h (update_where ?hit f (events s))"
      by (auto simp: void_pending_obligations_def Let_def f_def h_def or_zero_def)
    have ids: "ev_id (f e) = ev_id e" "ev_id (h e) = ev_id e" for e by (simp_all add: f_def h_def)
    have "update_where ?hit f (events s) = update_where ?P f (events s)"
      unfolding update_where_def using hit by (intro map_cong) auto
    note s' = s' [unfolded this]
    have gone: "\<not> ?P (h (f e))" "\<not> ?P (f e)" "?P (h e) = ?P e" for e
      by (cases after; auto simp: to_void_def voidable_def f_def h_def meta_get_def)+
    have "count_where ?P (events s') = count_where ?P (update_where ?P f (events s))"
      unfolding s' by (rule count_update_where) (simp add: gone)
    also have "\<dots> = 0" by (rule count_where_none) (simp add: gone)
    finally have z: "count_where ?P (events s') = 0" .
    have og: "og \<in> set (events s)" "ev_id og = o_id"
      using find_row_Some [OF assms(4) [unfolded find_event_def]] by auto
    have "og \<in> set (update_where ?P f (events s))" using og assms(5) by (simp add: update_where_other)
    then have "h og \<in> set (events s')" unfolding s' using og by (auto simp: set_update_where)
    moreover have m: "map ev_id (events s') = map ev_id (events s)"
      unfolding s' by (simp add: map_update_where ids)
    ultimately have "find_row (\<lambda>x. ev_id x = ev_id (h og)) (events s') = Some (h og)"
      using assms(3) by (intro find_row_unique) simp_all
    then have "find_event s' o_id = Some (h og)" using ids og by (simp add: find_event_def)
    moreover have "e \<in> set (events s')" if "e \<in> set (events s)" "\<not> ?P e" "ev_id e \<noteq> o_id" for e
      unfolding s' using that by (intro update_where_other) simp_all
    ultimately show ?thesis using n z m by (simp add: h_def)
  qed
qed

theorem void_pending_exact_witness:
  "\<exists>s' n. void_pending_obligations (fst demo_register) demo_structure ''disposed'' None None False = (s', n) \<and>
    n = 2 \<and> count_where (to_void ''evt_0'' None False) (events s') = 0"
proof -
  obtain s' n where r: "void_pending_obligations (fst demo_register) demo_structure ''disposed'' None None False = (s', n)"
    by fastforce
  have o: "register_originator (fst demo_register) demo_structure = Some ''evt_0''"
    "distinct (map ev_id (events (fst demo_register)))"
    "count_where (to_void ''evt_0'' None False) (events (fst demo_register)) = 2"
    "map_option (to_void ''evt_0'' None False) (find_event (fst demo_register) ''evt_0'') = Some False"
    by (simp_all add: materialize_pending_obligations_def is_historical_def less_eq_pdate_def demo_schedule_def
        demo_ledger_def demo_structure_def register_originator_def count_where_def to_void_def voidable_def
        obligation_def find_event_def)
  then obtain og where "find_event (fst demo_register) ''evt_0'' = Some og" "\<not> to_void ''evt_0'' None False og"
    by auto
  from void_pending_exact [OF r o(1,2) this] o(3) r show ?thesis by auto
qed

subsection \<open>Superseding obligations\<close>

definition has_period :: "event \<Rightarrow> bool" where
  "has_period e \<longleftrightarrow> truthy (meta_get e ''period_start'') \<and> truthy (meta_get e ''period_end'')"

definition replaced :: "(string \<Rightarrow> string) \<Rightarrow> event \<Rightarrow> event" where
  "replaced new_id x = x\<lparr>ev_status := Voided, ev_replaced_by := Some (new_id (ev_id x))\<rparr>"

definition replacement :: "(string \<Rightarrow> string) \<Rightarrow> string \<Rightarrow> string \<Rightarrow> event \<Rightarrow> event" where
  "replacement new_id sid o_id e = obligation (new_id (ev_id e)) sid o_id (the (meta_get e ''period_start''))
     (the (meta_get e ''period_end'')) (end_of_day (the (from_iso (the (meta_get e ''period_end''))))) EvPending
     (Some (ev_id e)) []"

text \<open>The loop in closed form: replaced rows in place, replacements at the end.\<close>

lemma supersede_each_rows:
  assumes "supersede_each new_id sid o_id es s = Inr (s', n)"
    "distinct (map ev_id es)" "new_id ` ev_id ` set es \<inter> ev_id ` set es = {}"
  shows "n = length (filter has_period es) \<and>
    events s' = update_where (\<lambda>x. ev_id x \<in> ev_id ` set (filter has_period es)) (replaced new_id) (events s)
      @ map (replacement new_id sid o_id) (filter has_period es)"
  using assms
proof (induction es arbitrary: s n)
  case Nil
  then show ?case by (simp add: update_where_def)
next
  case (Cons e es)
  have dj: "distinct (map ev_id es)" "new_id ` ev_id ` set es \<inter> ev_id ` set es = {}"
    "ev_id e \<notin> ev_id ` set es" "new_id (ev_id e) \<notin> ev_id ` set es" "new_id (ev_id e) \<noteq> ev_id e"
    using Cons.prems(2,3) by auto
  show ?case
  proof (cases "has_period e")
    case False
    with Cons.prems(1) have "supersede_each new_id sid o_id es s = Inr (s', n)"
      by (auto simp: has_period_def)
    from Cons.IH [OF this dj(1,2)] False show ?thesis by simp
  next
    case True
    then have t: "truthy (meta_get e ''period_start'')" "truthy (meta_get e ''period_end'')"
      by (simp_all add: has_period_def)
    define s1 where "s1 = s\<lparr>events := update_where (\<lambda>x. ev_id x = ev_id e) (replaced new_id) (events s)
        @ [replacement new_id sid o_id e]\<rparr>"
    have u: "update_where (\<lambda>x. ev_id x = ev_id e)
        (\<lambda>x. x\<lparr>ev_status := Voided, ev_replaced_by := Some (new_id (ev_id e))\<rparr>) (events s) =
        update_where (\<lambda>x. ev_id x = ev_id e) (replaced new_id) (events s)"
      by (auto simp: update_where_def replaced_def)
    from Cons.prems(1) t obtain d where d: "from_iso (the (meta_get e ''period_end'')) = Some d"
      by (auto simp: Let_def split: option.splits)
    with Cons.prems(1) t obtain k where k: "supersede_each new_id sid o_id es s1 = Inr (s', k)" "n = k + 1"
      unfolding s1_def replacement_def by (auto simp: Let_def u bindR_eq_Inr)
    let ?ids = "ev_id ` set (filter has_period es)"
    have nid: "ev_id (replacement new_id sid o_id e) \<notin> ?ids"
      using dj(4) by (auto simp: replacement_def obligation_def)
    have "update_where (\<lambda>x. ev_id x \<in> ?ids) (replaced new_id) (events s1) =
        update_where (\<lambda>x. ev_id x \<in> insert (ev_id e) ?ids) (replaced new_id) (events s) @ [replacement new_id sid o_id e]"
      using nid dj(3) by (auto simp: s1_def update_where_def replaced_def)
    with Cons.IH [OF k(1) dj(1,2)] k(2) True show ?thesis by simp
  qed
qed

text \<open>
  Superseding keeps the register complete: each pending obligation with its period keys
  is voided and linked both ways to a pending replacement for the same period, the count of
  replacements is returned, and the number of pending obligations does not change.
\<close>

theorem supersede_preserves_pending:
  assumes "supersede_pending_obligations new_id s st = Inr (s', n)" "st_created_event st = Some o_id" "o_id \<noteq> []"
    "distinct (map ev_id (events s))"
    "\<forall>e\<in>set (events s). new_id (ev_id e) \<notin> ev_id ` set (events s)"
    "\<forall>e\<in>set (events s). pending_for o_id e \<longrightarrow> has_period e"
  shows "n = count_where (pending_for o_id) (events s) \<and>
    count_where (pending_for o_id) (events s') = n \<and>
    (\<forall>e\<in>set (events s). pending_for o_id e \<longrightarrow> replaced new_id e \<in> set (events s') \<and>
       replacement new_id (st_id st) o_id e \<in> set (events s')) \<and>
    (\<forall>e\<in>set (events s). \<not> pending_for o_id e \<longrightarrow> e \<in> set (events s'))"
proof -
  define es where "es = sort_key ev_id (filter (pending_for o_id) (events s))"
  have es: "set es = {e \<in> set (events s). pending_for o_id e}"
    "length es = count_where (pending_for o_id) (events s)"
    by (auto simp: es_def count_where_def)
  have dist: "distinct (map ev_id es)"
    using assms(4) by (auto simp: es_def distinct_map inj_on_def)
  from assms(1-3) have c: "supersede_each new_id (st_id st) o_id es s = Inr (s', n)"
    by (simp add: supersede_pending_obligations_def es_def pending_for_def [abs_def] Let_def)
  have "new_id ` ev_id ` set es \<inter> ev_id ` set es = {}" using assms(5) es by auto
  from supersede_each_rows [OF c dist this] have n: "n = length (filter has_period es)"
    and ev: "events s' = update_where (\<lambda>x. ev_id x \<in> ev_id ` set (filter has_period es)) (replaced new_id) (events s)
      @ map (replacement new_id (st_id st) o_id) (filter has_period es)" by auto
  have f: "filter has_period es = es" using assms(6) es by (auto simp: filter_id_conv)
  have inj: "e = e'" if "e \<in> set (events s)" "e' \<in> set (events s)" "ev_id e = ev_id e'" for e e'
    using assms(4) that by (auto simp: distinct_map inj_on_def)
  have hit: "x \<in> set (events s) \<Longrightarrow> ev_id x \<in> ev_id ` set es \<longleftrightarrow> pending_for o_id x" for x
    using es inj by auto
  have u: "update_where (\<lambda>x. ev_id x \<in> ev_id ` set es) (replaced new_id) (events s) =
      update_where (pending_for o_id) (replaced new_id) (events s)"
    unfolding update_where_def using hit by (intro map_cong) auto
  have p: "\<not> pending_for o_id (replaced new_id e)" "pending_for o_id (replacement new_id (st_id st) o_id e)" for e
    by (simp_all add: pending_for_def replaced_def replacement_def obligation_def)
  have ev': "events s' = update_where (pending_for o_id) (replaced new_id) (events s) @
      map (replacement new_id (st_id st) o_id) es"
    using ev unfolding f u .
  have "count_where (pending_for o_id) (map (replacement new_id (st_id st) o_id) es) = length es"
    using p(2) by (simp add: count_where_def filter_map comp_def)
  then have "count_where (pending_for o_id) (events s') = n"
    unfolding ev' count_where_append using p(1) n f by (simp add: count_where_none)
  then show ?thesis unfolding ev' using n f es by (auto simp: set_update_where)
qed

definition demo_due :: ledger where
  "demo_due = demo_schedule\<lparr>events := [obligation ''evt_1'' ''struct_1'' ''evt_0'' ''2026-02-01'' ''2026-02-28''
     (end_of_day (Date 2026 2 28)) EvPending None []]\<rparr>"

lemma demo_due_iso: "from_iso ''2026-02-28'' = Some (Date 2026 2 28)" "from_iso ''2026-02-01'' = Some (Date 2026 2 1)"
  by code_simp+

theorem supersede_preserves_pending_witness:
  "\<exists>s' n. supersede_pending_obligations (\<lambda>i. ''new_'' @ i) demo_due demo_structure = Inr (s', n) \<and> n = 1 \<and>
    count_where (pending_for ''evt_0'') (events s') = 1"
proof -
  have o: "st_created_event demo_structure = Some ''evt_0''" by (simp add: demo_structure_def)
  have "is_ok (supersede_pending_obligations (\<lambda>i. ''new_'' @ i) demo_due demo_structure)"
    by (simp add: supersede_pending_obligations_def o demo_due_def obligation_def meta_get_def demo_due_iso Let_def)
  then obtain s' n where r: "supersede_pending_obligations (\<lambda>i. ''new_'' @ i) demo_due demo_structure = Inr (s', n)"
    by (auto simp: is_ok_def split: sum.splits)
  have "distinct (map ev_id (events demo_due))"
    "\<forall>e\<in>set (events demo_due). ''new_'' @ ev_id e \<notin> ev_id ` set (events demo_due)"
    "\<forall>e\<in>set (events demo_due). pending_for ''evt_0'' e \<longrightarrow> has_period e"
    "count_where (pending_for ''evt_0'') (events demo_due) = 1"
    by (simp_all add: demo_due_def obligation_def has_period_def meta_get_def count_where_def pending_for_def)
  with supersede_preserves_pending [OF r o] r show ?thesis by auto
qed

end
