(* ===== verification/Reconciling.thy ===== *)
theory Reconciling
  imports ScheduleFacts
begin

text \<open>
  Reconciling items (\<open>robosystems/operations/roboledger/commands/reconciling_items.py\<close>):
  posted events whose source payload changed afterwards. Modelled are the netting of the
  posted and the accepted lines per account, the difference between them, what blocks a
  restatement, the query of the close gate, and the lines of a catch-up entry. A Python
  dict is an association list in insertion order.
\<close>

datatype item_error =
    ItemNotFound string
  | NotAnItem string

subsection \<open>Netting\<close>

fun add_net :: "'k \<Rightarrow> int \<Rightarrow> ('k \<times> int) list \<Rightarrow> ('k \<times> int) list" where
  "add_net k v [] = [(k, v)]"
| "add_net k v ((j, n) # t) = (if j = k then (j, n + v) # t else (j, n) # add_net k v t)"

text \<open>The key of a net: the element id and the source's id of the account.\<close>

type_synonym net_key = "string option \<times> string option"

definition entry_specs :: "drift_payload \<Rightarrow> accepted_spec list" where
  "entry_specs p = (case dp_entries p of
     Some es \<Rightarrow> es
   | None \<Rightarrow> if as_lines (dp_flat p) \<noteq> [] then [dp_flat p] else [])"

definition accepted_lines :: "drift_payload \<Rightarrow> accepted_line list" where
  "accepted_lines p = concat (map (\<lambda>sp. List.map_filter (\<lambda>l. l) (as_lines sp)) (entry_specs p))"

definition net_of :: "accepted_line \<Rightarrow> int" where
  "net_of l = or_zero (al_debit l) - or_zero (al_credit l)"

definition net_accepted_lines :: "drift_payload \<Rightarrow> (net_key \<times> int) list" where
  "net_accepted_lines p =
     foldl (\<lambda>nets l. add_net (al_element l, al_external l) (net_of l) nets) [] (accepted_lines p)"

definition net_posted_lines :: "ledger \<Rightarrow> string list \<Rightarrow> (net_key \<times> int) list" where
  "net_posted_lines s ids =
     foldl (\<lambda>nets l. add_net (Some (li_element l), None) (li_debit l - li_credit l) nets) []
       (filter (\<lambda>l. li_entry l \<in> set ids) (line_items s))"

subsection \<open>Accounts\<close>

text \<open>The element a source id resolves to; the last matching row wins, as in the dict.\<close>

definition resolve_external :: "ledger \<Rightarrow> string \<Rightarrow> string option \<Rightarrow> string \<Rightarrow> string option" where
  "resolve_external s source conn ext =
     map_option el_id (find_row (\<lambda>e. el_external_source e = Some source \<and> el_external_id e = Some ext \<and>
        (conn = None \<or> el_connection e = conn)) (rev (elements s)))"

definition element_label :: "ledger \<Rightarrow> string \<Rightarrow> string option \<times> string option" where
  "element_label s i = (case find_row (\<lambda>e. el_id e = i) (elements s) of
     None \<Rightarrow> (None, None) | Some e \<Rightarrow> (el_code e, el_name e))"

text \<open>Both sides are folded onto the element where there is one, else onto the source id.\<close>

definition folded_key :: "(string \<Rightarrow> string option) \<Rightarrow> net_key \<Rightarrow> string option" where
  "folded_key by_ext k =
     (let resolved = (if truthy (fst k) then fst k
                      else if truthy (snd k) then by_ext (the (snd k)) else None)
      in if truthy resolved then resolved
         else if truthy (snd k) then Some (''external:'' @ the (snd k)) else None)"

fun fold_in ::
  "string option \<Rightarrow> int \<Rightarrow> string option \<Rightarrow> (string option \<times> int \<times> string option) list \<Rightarrow>
   (string option \<times> int \<times> string option) list" where
  "fold_in k v x [] = [(k, v, x)]"
| "fold_in k v x ((j, n, y) # t) =
     (if j = k then (j, n + v, if truthy y then y else x) # t else (j, n, y) # fold_in k v x t)"

definition fold_nets ::
  "(string \<Rightarrow> string option) \<Rightarrow> (net_key \<times> int) list \<Rightarrow> (string option \<times> int \<times> string option) list" where
  "fold_nets by_ext nets = foldl (\<lambda>acc (k, v). fold_in (folded_key by_ext k) v (snd k) acc) [] nets"

definition folded_get ::
  "(string option \<times> int \<times> string option) list \<Rightarrow> string option \<Rightarrow> int \<times> string option" where
  "folded_get acc k = (case map_of acc k of None \<Rightarrow> (0, None) | Some v \<Rightarrow> v)"

subsection \<open>The difference\<close>

record delta_line =
  dl_element :: "string option"
  dl_external :: "string option"
  dl_code :: "string option"
  dl_name :: "string option"
  dl_prior :: int
  dl_accepted :: int
  dl_delta :: int

definition key_text :: "string option \<Rightarrow> string" where
  "key_text k = (case k of None \<Rightarrow> ''None'' | Some x \<Rightarrow> x)"

definition is_external_key :: "string \<Rightarrow> bool" where
  "is_external_key x \<longleftrightarrow> take 9 x = ''external:''"

definition element_of_key :: "string option \<Rightarrow> string option" where
  "element_of_key k = (if truthy k \<and> \<not> is_external_key (the k) then k else None)"

definition delta_line_of ::
  "ledger \<Rightarrow> (string option \<times> int \<times> string option) list \<Rightarrow>
   (string option \<times> int \<times> string option) list \<Rightarrow> string option \<Rightarrow> delta_line" where
  "delta_line_of s prior accepted k =
     (let (pn, px) = folded_get prior k; (an, ax) = folded_get accepted k;
          el = element_of_key k;
          label = (case el of None \<Rightarrow> element_label s [] | Some i \<Rightarrow> element_label s i)
      in \<lparr>dl_element = el, dl_external = str_or ax px, dl_code = fst label, dl_name = snd label,
          dl_prior = pn, dl_accepted = an, dl_delta = an - pn\<rparr>)"

definition delta_lines ::
  "ledger \<Rightarrow> (string option \<times> int \<times> string option) list \<Rightarrow>
   (string option \<times> int \<times> string option) list \<Rightarrow> delta_line list" where
  "delta_lines s prior accepted =
     map (delta_line_of s prior accepted)
       (filter (\<lambda>k. fst (folded_get prior k) \<noteq> fst (folded_get accepted k))
          (sort_key key_text (remdups (map fst prior @ map fst accepted))))"

definition unmapped_externals :: "(string \<Rightarrow> string option) \<Rightarrow> (net_key \<times> int) list \<Rightarrow> string list" where
  "unmapped_externals by_ext nets =
     sort (remdups (map (\<lambda>(k, _). the (snd k))
       (filter (\<lambda>(k, _). truthy (snd k) \<and> by_ext (the (snd k)) = None) nets)))"

subsection \<open>Closed periods and blockers\<close>

definition closed_period_names :: "ledger \<Rightarrow> pdate list \<Rightarrow> string list" where
  "closed_period_names s ds =
     sort (remdups (List.map_filter (\<lambda>d. case period_covering s d of
        Some p \<Rightarrow> if fp_status p = PeriodClosed then Some (fp_name p) else None
      | None \<Rightarrow> None) (remdups ds)))"

definition event_entries :: "ledger \<Rightarrow> string \<Rightarrow> entry list" where
  "event_entries s i = sort_key en_id (filter (\<lambda>e. en_event e = Some i) (entries s))"

datatype restate_blocker =
    WouldDraftFulfilled
  | PostedInClosed "string list"
  | NotPosted "string list"
  | AlreadyReversed "string list"
  | SharedTransaction "string list"
  | HasDimensions

text \<open>\<open>dims\<close> answers the probe of the dimension link tables, which are not modelled.\<close>

definition restate_blockers ::
  "(string list \<Rightarrow> string set \<Rightarrow> bool) \<Rightarrow> ledger \<Rightarrow> event \<Rightarrow> entry list \<Rightarrow> drift_payload \<Rightarrow> restate_blocker list" where
  "restate_blockers dims s ev es accepted =
     (let ids = map en_id es;
          closed = closed_period_names s (map en_posting_date es);
          unposted = map en_id (filter (\<lambda>e. en_status e \<noteq> EntryPosted) es);
          rev_ids = List.map_filter (\<lambda>e. case en_reversal_of e of
                      Some i \<Rightarrow> if i \<in> set ids then Some i else None | None \<Rightarrow> None) (entries s);
          txns = set (List.map_filter (\<lambda>e. if truthy (en_transaction e) then en_transaction e else None) es);
          foreign = map en_id (filter (\<lambda>e. (case en_transaction e of None \<Rightarrow> False | Some t \<Rightarrow> t \<in> txns) \<and>
                      en_event e \<noteq> Some (ev_id ev)) (entries s))
      in (if ev_status ev = Fulfilled \<and> dp_status accepted = Some ''draft'' then [WouldDraftFulfilled] else []) @
         (if closed \<noteq> [] then [PostedInClosed closed] else []) @
         (if unposted \<noteq> [] then [NotPosted unposted] else []) @
         (if rev_ids \<noteq> [] then [AlreadyReversed rev_ids] else []) @
         (if foreign \<noteq> [] then [SharedTransaction foreign] else []) @
         (if ids \<noteq> [] \<and> dims ids txns then [HasDimensions] else []))"

definition default_catch_up_date :: "ledger \<Rightarrow> string \<Rightarrow> period_error + pdate option" where
  "default_catch_up_date s g = (case earliest_open_period s g of
     None \<Rightarrow> Inr None
   | Some p \<Rightarrow> bindR (period_date_range p) (\<lambda>(_, b). Inr (Some b)))"

subsection \<open>The plan\<close>

definition load_event :: "ledger \<Rightarrow> string \<Rightarrow> item_error + event" where
  "load_event s i = (case find_event s i of None \<Rightarrow> Inl (ItemNotFound i) | Some e \<Rightarrow> Inr e)"

definition require_flagged :: "event \<Rightarrow> item_error + drift_payload" where
  "require_flagged e =
     (if \<not> ev_drift e then Inl (NotAnItem (ev_id e))
      else case ev_drift_payload e of None \<Rightarrow> Inl (NotAnItem (ev_id e)) | Some p \<Rightarrow> Inr p)"

datatype disposition = Restate | CatchUp | Acknowledge

record item_plan =
  ip_event :: string
  ip_default :: disposition
  ip_dates :: "pdate list"
  ip_closed :: "string list"
  ip_delta :: "delta_line list"
  ip_no_effect :: bool
  ip_blockers :: "restate_blocker list"
  ip_unmapped :: "string list"

text \<open>How the plan resolves the source's account ids.\<close>

definition plan_by_ext :: "ledger \<Rightarrow> event \<Rightarrow> drift_payload \<Rightarrow> string \<Rightarrow> string option" where
  "plan_by_ext s ev accepted = resolve_external s (ev_source ev)
     (if truthy (dp_connection accepted) then dp_connection accepted else meta_get ev ''connection_id'')"

definition plan_reconciling_item ::
  "(string list \<Rightarrow> string set \<Rightarrow> bool) \<Rightarrow> ledger \<Rightarrow> string \<Rightarrow> item_error + item_plan" where
  "plan_reconciling_item dims s i =
     bindR (load_event s i) (\<lambda>ev.
     bindR (require_flagged ev) (\<lambda>accepted.
     let es = event_entries s i;
         prior_nets = net_posted_lines s (map en_id es);
         accepted_nets = net_accepted_lines accepted;
         by_ext = plan_by_ext s ev accepted;
         delta = delta_lines s (fold_nets by_ext prior_nets) (fold_nets by_ext accepted_nets);
         ds = sort (remdups (map en_posting_date es));
         closed = closed_period_names s ds
     in Inr \<lparr>ip_event = ev_id ev,
             ip_default = (if closed \<noteq> [] then CatchUp else Restate),
             ip_dates = ds, ip_closed = closed, ip_delta = delta, ip_no_effect = (delta = []),
             ip_blockers = restate_blockers dims s ev es accepted,
             ip_unmapped = unmapped_externals by_ext accepted_nets\<rparr>))"

text \<open>The lines of the entry a catch-up posts (\<open>_catch_up_request\<close>).\<close>

definition catch_up_lines :: "delta_line list \<Rightarrow> manual_line list" where
  "catch_up_lines ds = List.map_filter (\<lambda>d.
     if dl_delta d = 0 \<or> dl_element d = None then None
     else Some (if 0 < dl_delta d
                then \<lparr>ml_element = dl_element d, ml_debit = Some (dl_delta d), ml_credit = Some 0\<rparr>
                else \<lparr>ml_element = dl_element d, ml_debit = Some 0, ml_credit = Some (- dl_delta d)\<rparr>)) ds"

subsection \<open>The query of the close gate\<close>

text \<open>
  Flagged events joined with their entries, up to a date. One pair per event: \<open>DISTINCT\<close>
  over the pair of the id and its external id.
\<close>

definition find_unresolved_reconciling_items :: "ledger \<Rightarrow> pdate \<Rightarrow> (string \<times> string option) list" where
  "find_unresolved_reconciling_items s as_of =
     sort_key fst (remdups (map (\<lambda>e. (ev_id e, ev_external_id e))
       (filter (\<lambda>e. ev_drift e \<and>
          list_ex (\<lambda>x. en_event x = Some (ev_id e) \<and> en_posting_date x \<le> as_of) (entries s)) (events s))))"

subsection \<open>Netting adds up\<close>

definition net_total :: "('k \<Rightarrow> bool) \<Rightarrow> ('k \<times> int) list \<Rightarrow> int" where
  "net_total P nets = (\<Sum>(k, n)\<leftarrow>nets. if P k then n else 0)"

lemma net_total_add: "net_total P (add_net k v nets) = net_total P nets + (if P k then v else 0)"
  by (induction nets) (auto simp: net_total_def)

lemma net_total_foldl:
  "net_total P (foldl (\<lambda>nets l. add_net (key l) (val l) nets) nets ls) =
   net_total P nets + (\<Sum>l\<leftarrow>ls. if P (key l) then val l else 0)"
  by (induction ls arbitrary: nets) (simp_all add: net_total_add)

lemma folded_get_simps [simp]:
  "folded_get [] k = (0, None)" "folded_get ((j, v) # t) k = (if j = k then v else folded_get t k)"
  by (simp_all add: folded_get_def)

lemma fst_folded_get_fold_in:
  "fst (folded_get (fold_in j v x acc) k) = fst (folded_get acc k) + (if j = k then v else 0)"
  by (induction j v x acc rule: fold_in.induct) auto

lemma keys_fold_in: "set (map fst (fold_in j v x acc)) = insert j (set (map fst acc))"
  by (induction j v x acc rule: fold_in.induct) auto

lemma fold_nets_gen:
  "fst (folded_get (foldl (\<lambda>acc (k, v). fold_in (folded_key b k) v (snd k) acc) acc nets) k) =
     fst (folded_get acc k) + net_total (\<lambda>j. folded_key b j = k) nets"
  "set (map fst (foldl (\<lambda>acc (k, v). fold_in (folded_key b k) v (snd k) acc) acc nets)) =
     set (map fst acc) \<union> folded_key b ` fst ` set nets"
proof (induction nets arbitrary: acc)
  case (Cons x nets)
  obtain j v where x: "x = (j, v)" by fastforce
  { case 1 show ?case using Cons.IH(1) by (simp add: x fst_folded_get_fold_in net_total_def) }
  { case 2 show ?case using Cons.IH(2) by (simp add: x keys_fold_in del: set_map) }
qed (simp_all add: net_total_def)

lemma fold_nets_get: "fst (folded_get (fold_nets b nets) k) = net_total (\<lambda>j. folded_key b j = k) nets"
  unfolding fold_nets_def fold_nets_gen by (simp add: folded_get_def)

lemma fold_nets_keys: "set (map fst (fold_nets b nets)) = folded_key b ` fst ` set nets"
  unfolding fold_nets_def fold_nets_gen by simp

lemma net_total_split:
  assumes "finite K" "g ` fst ` set nets \<subseteq> K"
  shows "(\<Sum>k\<in>K. net_total (\<lambda>j. g j = k) nets) = net_total (\<lambda>_. True) nets"
  using assms(2)
proof (induction nets)
  case (Cons x nets)
  obtain j v where x: "x = (j, v)" by fastforce
  have "(\<Sum>k\<in>K. net_total (\<lambda>i. g i = k) (x # nets)) =
      (\<Sum>k\<in>K. (if g j = k then v else 0) + net_total (\<lambda>i. g i = k) nets)"
    by (simp add: net_total_def x)
  also have "\<dots> = v + (\<Sum>k\<in>K. net_total (\<lambda>i. g i = k) nets)"
    using Cons.prems assms(1) by (simp add: sum.distrib x)
  finally show ?case using Cons by (simp add: net_total_def x)
qed (simp add: net_total_def)

text \<open>The nets of a plan, by account.\<close>

definition accepted_total :: "(string \<Rightarrow> string option) \<Rightarrow> drift_payload \<Rightarrow> string option \<Rightarrow> int" where
  "accepted_total b p k =
     (\<Sum>l\<leftarrow>accepted_lines p. if folded_key b (al_element l, al_external l) = k then net_of l else 0)"

definition posted_total :: "(string \<Rightarrow> string option) \<Rightarrow> ledger \<Rightarrow> string list \<Rightarrow> string option \<Rightarrow> int" where
  "posted_total b s ids k = (\<Sum>l\<leftarrow>filter (\<lambda>l. li_entry l \<in> set ids) (line_items s).
     if folded_key b (Some (li_element l), None) = k then li_debit l - li_credit l else 0)"

lemma accepted_get:
  "fst (folded_get (fold_nets b (net_accepted_lines p)) k) = accepted_total b p k"
  unfolding fold_nets_get net_accepted_lines_def net_total_foldl
  by (simp add: accepted_total_def net_total_def)

lemma posted_get:
  "fst (folded_get (fold_nets b (net_posted_lines s ids)) k) = posted_total b s ids k"
  unfolding fold_nets_get net_posted_lines_def net_total_foldl
  by (simp add: posted_total_def net_total_def)

lemma delta_line_simps:
  "dl_delta (delta_line_of s p a k) = fst (folded_get a k) - fst (folded_get p k)"
  "dl_element (delta_line_of s p a k) = element_of_key k"
  by (simp_all add: delta_line_of_def Let_def split: prod.splits)

lemma sum_list_filter_zero:
  "(\<And>x. x \<in> set xs \<Longrightarrow> \<not> P x \<Longrightarrow> f x = (0::int)) \<Longrightarrow> sum_list (map f (filter P xs)) = sum_list (map f xs)"
  by (induction xs) auto

text \<open>A sum over the difference's lines is the sum over the keys of both sides.\<close>

lemma sum_delta_lines:
  assumes "\<And>k. fst (folded_get p k) = fst (folded_get a k) \<Longrightarrow> f (delta_line_of s p a k) = (0::int)"
  shows "sum_list (map f (delta_lines s p a)) =
    (\<Sum>k\<in>set (map fst p @ map fst a). f (delta_line_of s p a k))"
proof -
  let ?ks = "sort_key key_text (remdups (map fst p @ map fst a))"
  have "sum_list (map f (delta_lines s p a)) = sum_list (map (f \<circ> delta_line_of s p a) ?ks)"
    unfolding delta_lines_def map_map by (rule sum_list_filter_zero) (simp add: assms)
  also have "\<dots> = (\<Sum>k\<in>set ?ks. f (delta_line_of s p a k))"
    by (subst sum_list_distinct_conv_sum_set) (simp_all add: comp_def)
  finally show ?thesis by simp
qed

text \<open>A plan's difference, with the nets it was computed from.\<close>

lemma plan_delta:
  assumes "plan_reconciling_item dims s i = Inr pl"
  obtains ev p b where "find_event s i = Some ev" "ev_drift ev" "ev_drift_payload ev = Some p"
    "b = plan_by_ext s ev p"
    "ip_delta pl = delta_lines s (fold_nets b (net_posted_lines s (map en_id (event_entries s i))))
       (fold_nets b (net_accepted_lines p))"
    "ip_unmapped pl = unmapped_externals b (net_accepted_lines p)"
    "ip_blockers pl = restate_blockers dims s ev (event_entries s i) p"
  using assms unfolding plan_reconciling_item_def load_event_def require_flagged_def
  by (auto simp: bindR_eq_Inr Let_def split: option.splits if_splits)

lemma plan_delta_sum:
  assumes "plan_reconciling_item dims s i = Inr pl" "find_event s i = Some ev" "ev_drift_payload ev = Some p"
  shows "(\<Sum>d\<leftarrow>ip_delta pl. dl_delta d) = (\<Sum>l\<leftarrow>accepted_lines p. net_of l) -
       (\<Sum>l\<leftarrow>filter (\<lambda>l. li_entry l \<in> en_id ` set (event_entries s i)) (line_items s). li_debit l - li_credit l)"
proof -
  from plan_delta [OF assms(1)] assms(2,3) obtain b where
    d: "ip_delta pl = delta_lines s (fold_nets b (net_posted_lines s (map en_id (event_entries s i))))
       (fold_nets b (net_accepted_lines p))" by (metis option.inject)
  let ?ids = "map en_id (event_entries s i)"
  let ?P = "fold_nets b (net_posted_lines s ?ids)" and ?A = "fold_nets b (net_accepted_lines p)"
  let ?K = "set (map fst ?P @ map fst ?A)"
  have K: "folded_key b ` fst ` set (net_posted_lines s ?ids) \<subseteq> ?K"
    "folded_key b ` fst ` set (net_accepted_lines p) \<subseteq> ?K"
    unfolding set_append fold_nets_keys by blast+
  have "(\<Sum>d\<leftarrow>ip_delta pl. dl_delta d) = (\<Sum>k\<in>?K. dl_delta (delta_line_of s ?P ?A k))"
    unfolding d by (rule sum_delta_lines) (simp add: delta_line_simps)
  also have "\<dots> = (\<Sum>k\<in>?K. net_total (\<lambda>j. folded_key b j = k) (net_accepted_lines p)) -
      (\<Sum>k\<in>?K. net_total (\<lambda>j. folded_key b j = k) (net_posted_lines s ?ids))"
    by (simp only: delta_line_simps fold_nets_get sum_subtractf)
  also have "\<dots> = net_total (\<lambda>_. True) (net_accepted_lines p) - net_total (\<lambda>_. True) (net_posted_lines s ?ids)"
    using K by (simp only: net_total_split finite_set)
  finally show ?thesis
    unfolding net_accepted_lines_def net_posted_lines_def net_total_foldl by (simp add: net_total_def)
qed

text \<open>
  The plan of a reconciling item is the exact difference: the accepted net of every
  account is its posted net plus the deltas of its lines, an account has a line only when
  the two differ, and all deltas together are the accepted total less the posted total.
\<close>

theorem plan_delta_exact:
  assumes "plan_reconciling_item dims s i = Inr pl"
  shows "\<exists>ev p b. find_event s i = Some ev \<and> ev_drift_payload ev = Some p \<and> b = plan_by_ext s ev p \<and>
    (\<forall>d\<in>set (ip_delta pl). dl_delta d \<noteq> 0 \<and> dl_delta d = dl_accepted d - dl_prior d) \<and>
    (\<forall>el. element_of_key (Some el) = Some el \<longrightarrow>
       accepted_total b p (Some el) = posted_total b s (map en_id (event_entries s i)) (Some el) +
         (\<Sum>d\<leftarrow>ip_delta pl. if dl_element d = Some el then dl_delta d else 0)) \<and>
    (\<Sum>d\<leftarrow>ip_delta pl. dl_delta d) = (\<Sum>l\<leftarrow>accepted_lines p. net_of l) -
       (\<Sum>l\<leftarrow>filter (\<lambda>l. li_entry l \<in> en_id ` set (event_entries s i)) (line_items s). li_debit l - li_credit l)"
proof -
  from plan_delta [OF assms] obtain ev p b where
    ev: "find_event s i = Some ev" "ev_drift_payload ev = Some p" and b: "b = plan_by_ext s ev p"
    and d: "ip_delta pl = delta_lines s (fold_nets b (net_posted_lines s (map en_id (event_entries s i))))
       (fold_nets b (net_accepted_lines p))" by metis
  let ?ids = "map en_id (event_entries s i)"
  let ?P = "fold_nets b (net_posted_lines s ?ids)" and ?A = "fold_nets b (net_accepted_lines p)"
  let ?K = "set (map fst ?P @ map fst ?A)"
  have "dl_delta x \<noteq> 0 \<and> dl_delta x = dl_accepted x - dl_prior x" if "x \<in> set (ip_delta pl)" for x
    using that by (auto simp: d delta_lines_def delta_line_of_def Let_def split: prod.splits)
  moreover have "accepted_total b p (Some el) = posted_total b s ?ids (Some el) +
         (\<Sum>d\<leftarrow>ip_delta pl. if dl_element d = Some el then dl_delta d else 0)"
    if el: "element_of_key (Some el) = Some el" for el
  proof -
    let ?f = "\<lambda>d. if dl_element d = Some el then dl_delta d else 0"
    have "(\<Sum>d\<leftarrow>ip_delta pl. ?f d) = (\<Sum>k\<in>?K. ?f (delta_line_of s ?P ?A k))"
      unfolding d by (rule sum_delta_lines) (simp add: delta_line_simps)
    also have "\<dots> = (\<Sum>k\<in>?K. if k = Some el then accepted_total b p k - posted_total b s ?ids k else 0)"
      using el by (intro sum.cong) (auto simp: delta_line_simps accepted_get posted_get element_of_key_def
          split: if_splits)
    also have "\<dots> = accepted_total b p (Some el) - posted_total b s ?ids (Some el)"
    proof (cases "Some el \<in> ?K")
      case False
      then have "map_of ?P (Some el) = None" "map_of ?A (Some el) = None"
        unfolding map_of_eq_None_iff by auto
      then have "fst (folded_get ?P (Some el)) = 0" "fst (folded_get ?A (Some el)) = 0"
        by (simp_all add: folded_get_def)
      then show ?thesis using False unfolding posted_get accepted_get by (simp del: set_append set_map)
    qed (simp del: set_append set_map)
    finally show ?thesis by simp
  qed
  moreover note plan_delta_sum [OF assms ev]
  ultimately show ?thesis using ev b unfolding set_map
    by (intro exI [of _ ev] exI [of _ p] exI [of _ b]) blast
qed

definition demo_entry :: "string \<Rightarrow> pdate \<Rightarrow> entry_status \<Rightarrow> string option \<Rightarrow> entry" where
  "demo_entry i d st ev = \<lparr>en_id = i, en_type = ''standard'', en_posting_date = d, en_status = st,
     en_posted_at = None, en_event = ev, en_structure = None, en_transaction = None,
     en_reversal_of = None, en_memo = None\<rparr>"

definition demo_payload :: drift_payload where
  "demo_payload = \<lparr>dp_entries = Some [\<lparr>as_lines =
       [Some \<lparr>al_element = None, al_external = Some ''84'', al_debit = Some 700, al_credit = None\<rparr>,
        Some \<lparr>al_element = Some ''el_cash'', al_external = None, al_debit = None, al_credit = Some 700\<rparr>],
       as_posting_date = None, as_external = None, as_memo = None\<rparr>],
     dp_flat = \<lparr>as_lines = [], as_posting_date = None, as_external = None, as_memo = None\<rparr>,
     dp_status = None, dp_connection = None\<rparr>"

text \<open>A posted bill of 500 whose source now says 700.\<close>

definition demo_flagged :: event where
  "demo_flagged = (obligation ''evt_9'' ''x'' ''y'' ''a'' ''b'' (Time (Date 2026 1 20) 0) Fulfilled None [])
     \<lparr>ev_type := ''bill'', ev_source := ''quickbooks'', ev_external_id := Some ''bill-7'', ev_drift := True,
      ev_drift_payload := Some demo_payload\<rparr>"

definition demo_reconcile :: ledger where
  "demo_reconcile = demo_ledger\<lparr>events := [demo_flagged],
     entries := [demo_entry ''je_9'' (Date 2026 1 20) EntryPosted (Some ''evt_9'')],
     line_items := [\<lparr>li_entry = ''je_9'', li_element = ''el_rent'', li_debit = 500, li_credit = 0\<rparr>,
                    \<lparr>li_entry = ''je_9'', li_element = ''el_cash'', li_debit = 0, li_credit = 500\<rparr>],
     elements := [\<lparr>el_id = ''el_rent'', el_code = None, el_name = None, el_external_source = Some ''quickbooks'',
                   el_external_id = Some ''84'', el_connection = None\<rparr>]\<rparr>"

lemma demo_plan_ok: "is_ok (plan_reconciling_item (\<lambda>_ _. False) demo_reconcile ''evt_9'')"
  by (simp add: plan_reconciling_item_def load_event_def find_event_def demo_reconcile_def demo_flagged_def
      require_flagged_def Let_def obligation_def)

lemma demo_event: "find_event demo_reconcile ''evt_9'' = Some demo_flagged"
  "ev_drift_payload demo_flagged = Some demo_payload"
  by (simp_all add: find_event_def demo_reconcile_def demo_flagged_def obligation_def)

lemma demo_accepted: "accepted_lines demo_payload =
    [\<lparr>al_element = None, al_external = Some ''84'', al_debit = Some 700, al_credit = None\<rparr>,
     \<lparr>al_element = Some ''el_cash'', al_external = None, al_debit = None, al_credit = Some 700\<rparr>]"
  by (simp add: accepted_lines_def entry_specs_def demo_payload_def map_filter_simps)

lemma demo_event_entries: "event_entries demo_reconcile ''evt_9'' =
    [demo_entry ''je_9'' (Date 2026 1 20) EntryPosted (Some ''evt_9'')]"
  by (simp add: event_entries_def demo_reconcile_def demo_entry_def)

theorem plan_delta_exact_witness:
  "\<exists>pl. plan_reconciling_item (\<lambda>_ _. False) demo_reconcile ''evt_9'' = Inr pl \<and>
    (\<Sum>d\<leftarrow>ip_delta pl. dl_delta d) = 0"
proof -
  from demo_plan_ok obtain pl where p: "plan_reconciling_item (\<lambda>_ _. False) demo_reconcile ''evt_9'' = Inr pl"
    by (auto simp: is_ok_def split: sum.splits)
  from plan_delta_exact [OF p] demo_event have "(\<Sum>d\<leftarrow>ip_delta pl. dl_delta d) =
      (\<Sum>l\<leftarrow>accepted_lines demo_payload. net_of l) - (\<Sum>l\<leftarrow>filter (\<lambda>l. li_entry l \<in> en_id `
        set (event_entries demo_reconcile ''evt_9'')) (line_items demo_reconcile). li_debit l - li_credit l)"
    by auto
  also have "\<dots> = 0"
    by (simp add: demo_accepted demo_event_entries demo_entry_def net_of_def or_zero_def)
      (simp add: demo_reconcile_def)
  finally show ?thesis using p by blast
qed

subsection \<open>The catch-up entry balances\<close>

lemma keys_add_net: "set (map fst (add_net k v nets)) = insert k (set (map fst nets))"
  by (induction k v nets rule: add_net.induct) auto

lemma keys_foldl_net:
  "set (map fst (foldl (\<lambda>nets l. add_net (key l) (val l) nets) nets ls)) = set (map fst nets) \<union> key ` set ls"
  by (induction ls arbitrary: nets) (simp_all add: keys_add_net del: set_map)

lemma keys_net_posted:
  "fst ` set (net_posted_lines s ids) =
     (\<lambda>l. (Some (li_element l), None)) ` {l \<in> set (line_items s). li_entry l \<in> set ids}"
  using keys_foldl_net [of "\<lambda>l. (Some (li_element l), None)" "\<lambda>l. li_debit l - li_credit l" "[]"
      "filter (\<lambda>l. li_entry l \<in> set ids) (line_items s)", unfolded set_map]
  by (simp add: net_posted_lines_def)

lemma keys_net_accepted:
  "fst ` set (net_accepted_lines p) = (\<lambda>l. (al_element l, al_external l)) ` set (accepted_lines p)"
  using keys_foldl_net [of "\<lambda>l. (al_element l, al_external l)" net_of "[]" "accepted_lines p", unfolded set_map]
  by (simp add: net_accepted_lines_def)

lemma catch_up_sums:
  assumes "\<forall>d\<in>set ds. dl_element d \<noteq> None"
  shows "(\<Sum>m\<leftarrow>catch_up_lines ds. or_zero (ml_debit m)) - (\<Sum>m\<leftarrow>catch_up_lines ds. or_zero (ml_credit m)) =
    (\<Sum>d\<leftarrow>ds. dl_delta d)"
  using assms by (induction ds) (auto simp: catch_up_lines_def map_filter_simps or_zero_def)

lemma delta_keys:
  assumes "d \<in> set (delta_lines s p a)"
  shows "\<exists>k\<in>set (map fst p) \<union> set (map fst a). dl_element d = element_of_key k"
proof -
  from assms obtain k where "k \<in> set (sort_key key_text (remdups (map fst p @ map fst a)))"
    "d = delta_line_of s p a k"
    unfolding delta_lines_def set_map set_filter by blast
  then show ?thesis by (intro bexI [of _ k]) (simp_all add: delta_line_simps del: set_map)
qed

text \<open>
  When every line of both sides is on an account the plan resolves and both sides
  balance, the catch-up entry is a valid journal entry: each line names its account and
  has one positive side, debits equal credits, and it has lines unless nothing changed.
\<close>

theorem catch_up_entry_balances:
  assumes "plan_reconciling_item dims s i = Inr pl" "find_event s i = Some ev" "ev_drift_payload ev = Some p"
    "\<forall>l\<in>set (accepted_lines p). element_of_key (folded_key (plan_by_ext s ev p) (al_element l, al_external l)) \<noteq> None"
    "\<forall>l\<in>set (line_items s). li_entry l \<in> en_id ` set (event_entries s i) \<longrightarrow>
       element_of_key (Some (li_element l)) \<noteq> None"
    "(\<Sum>l\<leftarrow>accepted_lines p. net_of l) = 0"
    "(\<Sum>l\<leftarrow>filter (\<lambda>l. li_entry l \<in> en_id ` set (event_entries s i)) (line_items s). li_debit l - li_credit l) = 0"
  shows "(\<forall>m\<in>set (catch_up_lines (ip_delta pl)). line_ok m) \<and>
    (\<Sum>m\<leftarrow>catch_up_lines (ip_delta pl). or_zero (ml_debit m)) =
      (\<Sum>m\<leftarrow>catch_up_lines (ip_delta pl). or_zero (ml_credit m)) \<and>
    (catch_up_lines (ip_delta pl) = [] \<longleftrightarrow> ip_delta pl = [])"
proof -
  let ?L = "catch_up_lines (ip_delta pl)"
  define b where "b = plan_by_ext s ev p"
  have d: "ip_delta pl = delta_lines s (fold_nets b (net_posted_lines s (map en_id (event_entries s i))))
       (fold_nets b (net_accepted_lines p))"
    using plan_delta [OF assms(1)] assms(2,3) unfolding b_def by (metis option.inject)
  have el: "\<forall>x\<in>set (ip_delta pl). dl_element x \<noteq> None"
  proof
    fix x assume "x \<in> set (ip_delta pl)"
    from delta_keys [OF this [unfolded d]] obtain k where k: "dl_element x = element_of_key k"
      "k \<in> folded_key b ` fst ` set (net_posted_lines s (map en_id (event_entries s i))) \<union>
           folded_key b ` fst ` set (net_accepted_lines p)"
      unfolding fold_nets_keys by blast
    then consider l where "l \<in> set (line_items s)" "li_entry l \<in> en_id ` set (event_entries s i)"
        "k = folded_key b (Some (li_element l), None)"
      | l where "l \<in> set (accepted_lines p)" "k = folded_key b (al_element l, al_external l)"
      unfolding keys_net_posted keys_net_accepted by auto
    then show "dl_element x \<noteq> None"
    proof cases
      case 1
      then have "element_of_key (Some (li_element l)) \<noteq> None" using assms(5) by blast
      then show ?thesis using 1(3) k(1) by (auto simp: folded_key_def element_of_key_def split: if_splits)
    next
      case 2
      then show ?thesis using assms(4) k(1) by (simp add: b_def)
    qed
  qed
  have nz: "dl_delta x \<noteq> 0 \<and> (\<forall>e. dl_element x = Some e \<longrightarrow> e \<noteq> [])" if "x \<in> set (ip_delta pl)" for x
    using that unfolding d
    by (auto simp: delta_lines_def delta_line_simps element_of_key_def truthy_def split: if_splits)
  have "(\<Sum>x\<leftarrow>ip_delta pl. dl_delta x) = 0"
    using plan_delta_sum [OF assms(1-3)] assms(6,7) by simp
  then have "(\<Sum>m\<leftarrow>?L. or_zero (ml_debit m)) = (\<Sum>m\<leftarrow>?L. or_zero (ml_credit m))"
    using catch_up_sums [OF el] by simp
  moreover have "line_ok m" if "m \<in> set ?L" for m
  proof -
    from that obtain x where "x \<in> set (ip_delta pl)" and m: "m = (if 0 < dl_delta x
        then \<lparr>ml_element = dl_element x, ml_debit = Some (dl_delta x), ml_credit = Some 0\<rparr>
        else \<lparr>ml_element = dl_element x, ml_debit = Some 0, ml_credit = Some (- dl_delta x)\<rparr>)"
      "dl_element x \<noteq> None"
      by (auto simp: catch_up_lines_def List.map_filter_def split: if_splits)
    with nz [of x] show ?thesis by (auto simp: line_ok_def or_zero_def)
  qed
  moreover have "?L = [] \<longleftrightarrow> ip_delta pl = []"
    using el nz by (cases "ip_delta pl") (auto simp: catch_up_lines_def map_filter_simps)
  ultimately show ?thesis by blast
qed

theorem catch_up_entry_balances_witness:
  "\<exists>pl. plan_reconciling_item (\<lambda>_ _. False) demo_reconcile ''evt_9'' = Inr pl \<and>
    (\<forall>m\<in>set (catch_up_lines (ip_delta pl)). line_ok m) \<and>
    (\<Sum>m\<leftarrow>catch_up_lines (ip_delta pl). or_zero (ml_debit m)) =
      (\<Sum>m\<leftarrow>catch_up_lines (ip_delta pl). or_zero (ml_credit m))"
proof -
  from demo_plan_ok obtain pl where p: "plan_reconciling_item (\<lambda>_ _. False) demo_reconcile ''evt_9'' = Inr pl"
    by (auto simp: is_ok_def split: sum.splits)
  have b: "plan_by_ext demo_reconcile demo_flagged demo_payload ''84'' = Some ''el_rent''"
    by (simp add: plan_by_ext_def resolve_external_def demo_reconcile_def demo_flagged_def obligation_def
        demo_payload_def meta_get_def)
  have "\<forall>l\<in>set (accepted_lines demo_payload).
      element_of_key (folded_key (plan_by_ext demo_reconcile demo_flagged demo_payload) (al_element l, al_external l)) \<noteq> None"
    by (simp add: demo_accepted folded_key_def element_of_key_def is_external_key_def b)
  moreover have "\<forall>l\<in>set (line_items demo_reconcile). li_entry l \<in> en_id ` set (event_entries demo_reconcile ''evt_9'') \<longrightarrow>
      element_of_key (Some (li_element l)) \<noteq> None"
    by (simp add: demo_reconcile_def element_of_key_def is_external_key_def)
  moreover have "(\<Sum>l\<leftarrow>accepted_lines demo_payload. net_of l) = 0"
    by (simp add: demo_accepted net_of_def or_zero_def)
  moreover have "(\<Sum>l\<leftarrow>filter (\<lambda>l. li_entry l \<in> en_id ` set (event_entries demo_reconcile ''evt_9''))
      (line_items demo_reconcile). li_debit l - li_credit l) = 0"
    by (simp add: demo_event_entries demo_entry_def) (simp add: demo_reconcile_def)
  ultimately show ?thesis using catch_up_entry_balances [OF p demo_event] p by blast
qed

end
