(* ===== verification/Obligations.thy ===== *)
theory Obligations
  imports ScheduleFacts
begin

text \<open>
  Promotion of pending obligations
  (\<open>robosystems/operations/event_block/promotion.py\<close>) with the handler it dispatches
  (\<open>python_handlers/schedule_entry_due.py\<close>). A sweep reads a preview of what it will write,
  fences the periods in autopilot mode, and reads the rows again under their locks: the
  two ledgers of \<open>promote_pending_obligations\<close> are those two reads, so whatever another
  transaction committed in between is their difference.
\<close>

definition obligation_window :: "event \<Rightarrow> (string \<times> pdate \<times> pdate) option" where
  "obligation_window e =
     (if \<not> truthy (meta_get e ''schedule_id'') then None
      else case (from_iso (the (str_or (meta_get e ''period_start'') (Some []))),
                 from_iso (the (str_or (meta_get e ''period_end'') (Some [])))) of
             (Some a, Some b) \<Rightarrow> Some (the (meta_get e ''schedule_id''), a, b)
           | _ \<Rightarrow> None)"

definition has_entry :: "ledger \<Rightarrow> string \<Rightarrow> pdate \<Rightarrow> pdate \<Rightarrow> bool" where
  "has_entry s sid a b = list_ex (in_window sid a b) (entries s)"

definition is_stranded :: "ledger \<Rightarrow> event \<Rightarrow> bool" where
  "is_stranded s e = (case obligation_window e of
     None \<Rightarrow> False | Some (sid, a, b) \<Rightarrow> \<not> has_entry s sid a b)"

definition filter_stranded_obligations :: "ledger \<Rightarrow> event list \<Rightarrow> event list" where
  "filter_stranded_obligations s es = filter (is_stranded s) es"

definition matured :: "event_status \<Rightarrow> ptime \<Rightarrow> event \<Rightarrow> bool" where
  "matured st as_of e \<longleftrightarrow> ev_type e = ''schedule_entry_due'' \<and> ev_status e = st \<and> ev_occurred_at e \<le> as_of"

definition find_stranded_obligations :: "ledger \<Rightarrow> ptime \<Rightarrow> event list" where
  "find_stranded_obligations s as_of =
     filter_stranded_obligations s (sort_key ev_occurred_at (filter (matured Classified as_of) (events s)))"

subsection \<open>The preview and its fences\<close>

definition preview_write_set :: "ledger \<Rightarrow> ptime \<Rightarrow> event list \<times> event list" where
  "preview_write_set s as_of =
     (filter (matured EvPending as_of) (events s),
      filter_stranded_obligations s (filter (matured Classified as_of) (events s)))"

definition posting_date_for_event :: "event \<Rightarrow> pdate" where
  "posting_date_for_event e =
     (case ev_effective_at e of Some t \<Rightarrow> time_date t | None \<Rightarrow> time_date (ev_occurred_at e))"

text \<open>
  Fence the dates in order. A closed period puts its events on the list; a fence that
  cannot be taken raises.
\<close>

fun fence_dates ::
  "(string \<times> string \<Rightarrow> bool) \<Rightarrow> ledger \<Rightarrow> event list \<Rightarrow> pdate list \<Rightarrow> guard_error + (string \<times> string) list" where
  "fence_dates free s es [] = Inr []"
| "fence_dates free s es (d # ds) =
     (case assert_period_not_closed free s s [Some d] of
        Inl (FenceHeld g p) \<Rightarrow> Inl (FenceHeld g p)
      | Inl (ClosedPeriod p _) \<Rightarrow>
          bindR (fence_dates free s es ds) (\<lambda>rest.
          Inr (map (\<lambda>e. (ev_id e, ''closed period: '' @ p)) (filter (\<lambda>e. posting_date_for_event e = d) es) @ rest))
      | Inr _ \<Rightarrow> fence_dates free s es ds)"

definition fence_write_set ::
  "(string \<times> string \<Rightarrow> bool) \<Rightarrow> ledger \<Rightarrow> event list \<Rightarrow> guard_error + (string \<times> string) list" where
  "fence_write_set free s es = fence_dates free s es (sort (remdups (map posting_date_for_event es)))"

subsection \<open>The handler\<close>

record due_metadata =
  dm_schedule :: string
  dm_posting :: pdate
  dm_start :: pdate
  dm_end :: pdate
  dm_memo :: "string option"

definition validate_due :: "event \<Rightarrow> due_metadata option" where
  "validate_due e =
     (case (meta_get e ''schedule_id'', map_option from_iso (meta_get e ''posting_date''),
            map_option from_iso (meta_get e ''period_start''), map_option from_iso (meta_get e ''period_end'')) of
        (Some sid, Some (Some pd), Some (Some a), Some (Some b)) \<Rightarrow>
          Some \<lparr>dm_schedule = sid, dm_posting = pd, dm_start = a, dm_end = b, dm_memo = meta_get e ''memo''\<rparr>
      | _ \<Rightarrow> None)"

text \<open>Draft or refresh the closing entry, and link it to the event.\<close>

definition dispatch_due ::
  "(string \<times> string \<Rightarrow> bool) \<Rightarrow> (string \<Rightarrow> string \<times> string) \<Rightarrow> event \<Rightarrow> due_metadata \<Rightarrow> ledger \<Rightarrow>
   sched_error + ledger \<times> closing_result" where
  "dispatch_due free new_ids e m s =
     bindR (create_closing_entry free (fst (new_ids (ev_id e))) (snd (new_ids (ev_id e))) s
              (dm_schedule m) (dm_posting m) (dm_start m) (dm_end m) (dm_memo m)) (\<lambda>(s1, r).
     Inr (case cs_entry r of
            None \<Rightarrow> s1
          | Some i \<Rightarrow> if i = [] then s1
              else s1\<lparr>entries := update_where (\<lambda>x. en_id x = i) (\<lambda>x. x\<lparr>en_event := Some (ev_id e)\<rparr>) (entries s1)\<rparr>, r))"

subsection \<open>The sweep\<close>

record promotion_result =
  classified_ids :: "string list"
  dispatched_ids :: "string list"
  voided_ids :: "string list"
  stranded_ids :: "string list"
  sweep_errors :: "(string \<times> string) list"

definition no_promotion :: promotion_result where
  "no_promotion = \<lparr>classified_ids = [], dispatched_ids = [], voided_ids = [], stranded_ids = [], sweep_errors = []\<rparr>"

text \<open>
  Dispatch one event after the other. Each runs under a savepoint, so a handler error
  leaves no trace but its line in the result; a fence that cannot be taken stops the sweep.
\<close>

fun dispatch_each ::
  "(string \<times> string \<Rightarrow> bool) \<Rightarrow> (string \<Rightarrow> string \<times> string) \<Rightarrow> event list \<Rightarrow> ledger \<Rightarrow> promotion_result \<Rightarrow>
   guard_error + ledger \<times> promotion_result" where
  "dispatch_each free new_ids [] s r = Inr (s, r)"
| "dispatch_each free new_ids (e # es) s r =
     (case validate_due e of
        None \<Rightarrow> dispatch_each free new_ids es s
                  (r\<lparr>sweep_errors := sweep_errors r @ [(ev_id e, ''metadata validation failed'')]\<rparr>)
      | Some m \<Rightarrow>
          (case dispatch_due free new_ids e m s of
             Inr (s1, _) \<Rightarrow> dispatch_each free new_ids es s1 (r\<lparr>dispatched_ids := dispatched_ids r @ [ev_id e]\<rparr>)
           | Inl (GuardFailed (FenceHeld g p)) \<Rightarrow> Inl (FenceHeld g p)
           | Inl _ \<Rightarrow> dispatch_each free new_ids es s
                         (r\<lparr>sweep_errors := sweep_errors r @ [(ev_id e, ''dispatch raised'')]\<rparr>)))"

definition set_status :: "string list \<Rightarrow> event_status list \<Rightarrow> event_status \<Rightarrow> ledger \<Rightarrow> ledger" where
  "set_status ids from_st to_st s = s\<lparr>events :=
     update_where (\<lambda>e. ev_id e \<in> set ids \<and> ev_status e \<in> set from_st) (\<lambda>e. e\<lparr>ev_status := to_st\<rparr>) (events s)\<rparr>"

definition is_orphan :: "ledger \<Rightarrow> event \<Rightarrow> bool" where
  "is_orphan s e \<longleftrightarrow> truthy (meta_get e ''schedule_id'') \<and>
     find_structure s (the (meta_get e ''schedule_id'')) = None"

text \<open>Everything after the locked read: \<open>cands\<close> are the rows it returned, in lock order.\<close>

definition sweep_locked ::
  "(string \<times> string \<Rightarrow> bool) \<Rightarrow> (string \<Rightarrow> string \<times> string) \<Rightarrow> bool \<Rightarrow> ledger \<Rightarrow> event list \<Rightarrow>
   (string \<times> string) list \<Rightarrow> guard_error + ledger \<times> promotion_result" where
  "sweep_locked free new_ids dispatch s cands errs =
     (let pend = filter (\<lambda>e. ev_status e = EvPending) cands;
          strd = filter_stranded_obligations s (filter (\<lambda>e. ev_status e = Classified) cands);
          orphans = map ev_id (filter (is_orphan s) (pend @ strd));
          s1 = set_status orphans [EvPending, Classified] Voided s;
          pend1 = filter (\<lambda>e. ev_id e \<notin> set orphans) pend;
          strd1 = filter (\<lambda>e. ev_id e \<notin> set orphans) strd;
          r = \<lparr>classified_ids = [], dispatched_ids = [], voided_ids = orphans,
               stranded_ids = map ev_id strd1, sweep_errors = errs\<rparr>
      in if pend1 = [] \<and> strd1 = [] then Inr (s1, r)
         else
           (let s2 = set_status (map ev_id pend1) [EvPending] Classified s1;
                r1 = r\<lparr>classified_ids := map ev_id pend1\<rparr>
            in if \<not> dispatch then Inr (s2, r1)
               else dispatch_each free new_ids
                      (map (\<lambda>e. e\<lparr>ev_status := Classified\<rparr>) pend1 @ strd1) s2 r1))"

definition promote_pending_obligations ::
  "(string \<times> string \<Rightarrow> bool) \<Rightarrow> (string \<Rightarrow> string \<times> string) \<Rightarrow> ledger \<Rightarrow> ledger \<Rightarrow> ptime \<Rightarrow> bool \<Rightarrow>
   guard_error + ledger \<times> promotion_result" where
  "promote_pending_obligations free new_ids s s1 as_of dispatch =
     (let (pend, strd) = preview_write_set s as_of; ws = pend @ strd in
      bindR (if dispatch \<and> ws \<noteq> [] then fence_write_set free s ws else Inr []) (\<lambda>closed.
      let ws1 = filter (\<lambda>e. ev_id e \<notin> fst ` set closed) ws in
      if ws1 = [] then Inr (s1, no_promotion\<lparr>sweep_errors := closed\<rparr>)
      else
        sweep_locked free new_ids dispatch s1
          (sort_key ev_id (filter (\<lambda>e. ev_id e \<in> ev_id ` set ws1 \<and> ev_status e \<in> {EvPending, Classified}) (events s1)))
          closed))"

subsection \<open>Which rows a sweep may touch\<close>

lemma set_status_tables [simp]:
  "entries (set_status ids f t s) = entries s" "structures (set_status ids f t s) = structures s"
  "line_items (set_status ids f t s) = line_items s" "fperiods (set_status ids f t s) = fperiods s"
  "facts (set_status ids f t s) = facts s"
  "map ev_id (events (set_status ids f t s)) = map ev_id (events s)"
  by (simp_all add: set_status_def map_update_where)

lemma set_status_keeps:
  "e \<in> set (events s) \<Longrightarrow> ev_status e \<notin> set f \<or> ev_id e \<notin> set ids \<Longrightarrow> e \<in> set (events (set_status ids f t s))"
  by (auto simp: set_status_def set_update_where)

lemma create_draft_events: "create_draft eid rid s sid t pd pe m a oc = Inr (s', r) \<Longrightarrow> events s' = events s"
  unfolding create_draft_def Let_def bindR_eq_Inr
  by (auto simp: bindR_eq_Inr insert_entry_def split: if_splits)

lemma create_closing_events:
  assumes "create_closing_entry free eid rid s sid pd ps pe memo = Inr (s', r)"
  shows "events s' = events s"
proof -
  from create_closing_body [OF assms] obtain st t where
    "reconcile eid rid s sid t pd pe (entry_memo memo t st) (schedule_fact s sid (tp_debit t) ps pe)
       (existing_closing s sid ps pe) = Inr (s', r)" .
  then show ?thesis by (cases rule: reconcile_cases) (auto dest: create_draft_events)
qed

lemma dispatch_due_events: "dispatch_due free new_ids e m s = Inr (s', r) \<Longrightarrow> events s' = events s"
  unfolding dispatch_due_def bindR_eq_Inr
  by (auto dest!: create_closing_events split: option.splits if_splits)

lemma dispatch_each_events: "dispatch_each free new_ids es s r = Inr (s', r') \<Longrightarrow> events s' = events s"
proof (induction es arbitrary: s r)
  case (Cons e es)
  then show ?case
    by (fastforce dest: dispatch_due_events split: option.splits sum.splits sched_error.splits guard_error.splits)
qed simp

lemma sweep_locked_events:
  assumes "sweep_locked free new_ids dispatch s cands errs = Inr (s', r)"
  obtains ids ids' where "set ids \<union> set ids' \<subseteq> ev_id ` set cands"
    "events s' = events (set_status ids' [EvPending] Classified (set_status ids [EvPending, Classified] Voided s))"
proof -
  define pend where "pend = filter (\<lambda>e. ev_status e = EvPending) cands"
  define strd where "strd = filter_stranded_obligations s (filter (\<lambda>e. ev_status e = Classified) cands)"
  define orphans where "orphans = map ev_id (filter (is_orphan s) (pend @ strd))"
  define pend1 where "pend1 = filter (\<lambda>e. ev_id e \<notin> set orphans) pend"
  have o: "set orphans \<subseteq> ev_id ` set cands" "set (map ev_id pend1) \<subseteq> ev_id ` set cands"
    by (auto simp: orphans_def pend1_def pend_def strd_def filter_stranded_obligations_def)
  have nil: "set_status [] [EvPending] Classified x = x" for x
    by (simp add: set_status_def update_where_def)
  have "events s' = events (set_status orphans [EvPending, Classified] Voided s) \<or>
      events s' = events (set_status (map ev_id pend1) [EvPending] Classified
        (set_status orphans [EvPending, Classified] Voided s))"
    using assms unfolding sweep_locked_def Let_def pend_def [symmetric] strd_def [symmetric]
      orphans_def [symmetric] pend1_def [symmetric]
    by (auto dest: dispatch_each_events split: if_splits)
  then show thesis
    using o that [of orphans "[]"] that [of orphans "map ev_id pend1"] nil by auto
qed

definition write_set :: "ledger \<Rightarrow> ptime \<Rightarrow> event list" where
  "write_set s as_of = fst (preview_write_set s as_of) @ snd (preview_write_set s as_of)"

lemma promote_inversion:
  assumes "promote_pending_obligations free new_ids s s1 as_of dispatch = Inr (s', r)"
  obtains closed where
    "(if dispatch \<and> write_set s as_of \<noteq> [] then fence_write_set free s (write_set s as_of) else Inr []) = Inr closed"
    "(let ws1 = filter (\<lambda>e. ev_id e \<notin> fst ` set closed) (write_set s as_of) in
      if ws1 = [] then Inr (s1, no_promotion\<lparr>sweep_errors := closed\<rparr>)
      else sweep_locked free new_ids dispatch s1
          (sort_key ev_id (filter (\<lambda>e. ev_id e \<in> ev_id ` set ws1 \<and> ev_status e \<in> {EvPending, Classified}) (events s1)))
          closed) = Inr (s', r)"
  using assms unfolding promote_pending_obligations_def write_set_def
  by (cases "preview_write_set s as_of") (simp only: Let_def prod.case fst_conv snd_conv bindR_eq_Inr, blast)

text \<open>
  A sweep changes no event it did not select in its preview, and none that was no
  longer pending or classified when its row was locked: an obligation voided or approved
  between the two reads keeps what the other transaction wrote.
\<close>

theorem promotion_respects_locked_rows:
  assumes "promote_pending_obligations free new_ids s s1 as_of dispatch = Inr (s', r)"
  shows "map ev_id (events s') = map ev_id (events s1) \<and>
    (\<forall>e\<in>set (events s1).
       ev_status e \<notin> {EvPending, Classified} \<or>
       ev_id e \<notin> ev_id ` set (write_set s as_of) \<longrightarrow>
       e \<in> set (events s'))"
proof -
  define ws where "ws = write_set s as_of"
  from promote_inversion [OF assms] obtain closed where
    "(let ws1 = filter (\<lambda>e. ev_id e \<notin> fst ` set closed) ws in
      if ws1 = [] then Inr (s1, no_promotion\<lparr>sweep_errors := closed\<rparr>)
      else sweep_locked free new_ids dispatch s1
          (sort_key ev_id (filter (\<lambda>e. ev_id e \<in> ev_id ` set ws1 \<and> ev_status e \<in> {EvPending, Classified}) (events s1)))
          closed) = Inr (s', r)"
    unfolding ws_def by blast
  then consider "s' = s1" | cands where "sweep_locked free new_ids dispatch s1 cands closed = Inr (s', r)"
      "ev_id ` set cands \<subseteq> ev_id ` set ws"
    by (fastforce simp: Let_def split: if_splits)
  then show ?thesis
  proof cases
    case 1
    then show ?thesis by simp
  next
    case 2
    from sweep_locked_events [OF 2(1)] obtain ids ids' where
      i: "set ids \<union> set ids' \<subseteq> ev_id ` set cands"
      and ev: "events s' = events (set_status ids' [EvPending] Classified (set_status ids [EvPending, Classified] Voided s1))" .
    have "e \<in> set (events s')" if "e \<in> set (events s1)" "ev_status e \<notin> {EvPending, Classified} \<or> ev_id e \<notin> ev_id ` set ws" for e
    proof -
      have "ev_status e \<notin> {EvPending, Classified} \<or> ev_id e \<notin> set ids \<and> ev_id e \<notin> set ids'"
        using that(2) i 2(2) by blast
      then show ?thesis unfolding ev using that(1) by (intro set_status_keeps) auto
    qed
    then show ?thesis unfolding ev ws_def by simp
  qed
qed

abbreviation "demo_sweep s s1 \<equiv>
  promote_pending_obligations (\<lambda>_. True) (\<lambda>i. (''je_'' @ i, ''jr_'' @ i)) s s1 (end_of_day (Date 2026 3 1))"

lemma demo_due_matured: "filter (matured EvPending (end_of_day (Date 2026 3 1))) (events demo_due) = events demo_due"
  "filter (matured Classified (end_of_day (Date 2026 3 1))) (events demo_due) = []"
  by (simp_all add: demo_due_def matured_def obligation_def end_of_day_def less_eq_ptime_def less_pdate_def)

text \<open>The obligation of the demo is voided by another transaction between the reads.\<close>

theorem promotion_respects_locked_rows_witness:
  "\<exists>s' r. demo_sweep demo_due (set_status [''evt_1''] [EvPending] Voided demo_due) False = Inr (s', r) \<and>
    (\<forall>e\<in>set (events (set_status [''evt_1''] [EvPending] Voided demo_due)). e \<in> set (events s')) \<and>
    ''evt_1'' \<in> ev_id ` set (events s')"
proof -
  let ?s1 = "set_status [''evt_1''] [EvPending] Voided demo_due"
  have ev: "events ?s1 = map (\<lambda>e. e\<lparr>ev_status := Voided\<rparr>) (events demo_due)"
    by (simp add: set_status_def demo_due_def obligation_def)
  have "is_ok (demo_sweep demo_due ?s1 False)"
    by (simp add: promote_pending_obligations_def preview_write_set_def demo_due_matured
        filter_stranded_obligations_def Let_def sweep_locked_def ev)
  then obtain s' r where p: "demo_sweep demo_due ?s1 False = Inr (s', r)"
    by (auto simp: is_ok_def split: sum.splits)
  have "ev_status e \<notin> {EvPending, Classified}" if "e \<in> set (events ?s1)" for e
    using that ev by auto
  moreover have "''evt_1'' \<in> ev_id ` set (events ?s1)"
    unfolding ev by (simp add: demo_due_def obligation_def)
  ultimately have "\<forall>e\<in>set (events ?s1). e \<in> set (events s')" "''evt_1'' \<in> ev_id ` set (events s')"
    using promotion_respects_locked_rows [OF p] by blast+
  with p show ?thesis by blast
qed

subsection \<open>A dispatched obligation is settled\<close>

lemma window_validate:
  assumes "obligation_window e = Some (sid, a, b)" "validate_due e = Some m"
  shows "dm_schedule m = sid" "dm_start m = a" "dm_end m = b"
  using assms
  by (auto simp: obligation_window_def validate_due_def str_or_def truthy_def from_iso_def
      split: if_splits option.splits)

lemma in_window_link [simp]: "in_window sid a b (x\<lparr>en_event := v\<rparr>) = in_window sid a b x"
  by (simp add: in_window_def)

lemma has_entry_link:
  "list_ex (in_window sid a b) (update_where P (\<lambda>x. x\<lparr>en_event := v\<rparr>) es) = list_ex (in_window sid a b) es"
  by (induction es) auto

lemma existing_has_entry: "existing_closing s sid a b = Some x \<Longrightarrow> has_entry s sid a b"
  unfolding existing_closing_def has_entry_def list_ex_iff by (drule find_row_Some) auto

text \<open>
  Dispatching an obligation whose posting date is in its period settles it when the
  reconcile left an entry, and leaves it stranded when the schedule has no fact for the
  period: the sweep then reports it dispatched, and the close gate still counts it.
\<close>

theorem dispatch_settles_unless_skipped:
  assumes "obligation_window e = Some (sid, a, b)" "validate_due e = Some m"
    "a \<le> dm_posting m" "dm_posting m \<le> b" "dispatch_due free new_ids e m s = Inr (s', r)"
  shows "(cs_outcome r \<in> {Created, Regenerated, Unchanged} \<longrightarrow> \<not> is_stranded s' e) \<and>
    (cs_outcome r = Skipped \<longrightarrow> is_stranded s' e)"
proof -
  note m = window_validate [OF assms(1,2)]
  from assms(5) obtain s1 where
    c: "create_closing_entry free (fst (new_ids (ev_id e))) (snd (new_ids (ev_id e))) s sid (dm_posting m) a b (dm_memo m)
      = Inr (s1, r)" and
    s': "has_entry s' sid a b = has_entry s1 sid a b"
    by (auto simp: dispatch_due_def bindR_eq_Inr m has_entry_def has_entry_link split: option.splits if_splits)
  from create_closing_body [OF c] obtain st t where
    "reconcile (fst (new_ids (ev_id e))) (snd (new_ids (ev_id e))) s sid t (dm_posting m) b (entry_memo (dm_memo m) t st)
       (schedule_fact s sid (tp_debit t) a b) (existing_closing s sid a b) = Inr (s1, r)" .
  then have "(cs_outcome r \<in> {Created, Regenerated, Unchanged} \<longrightarrow> has_entry s1 sid a b) \<and>
      (cs_outcome r = Skipped \<longrightarrow> \<not> has_entry s1 sid a b)"
  proof (cases rule: reconcile_cases)
    case (drafted v s0)
    from created_draft_existing [OF drafted(4) assms(3,4)] have "has_entry s1 sid a b"
      by (rule existing_has_entry)
    with drafted show ?thesis by auto
  next
    case (kept x)
    with existing_has_entry [OF kept(1)] show ?thesis by simp
  next
    case (removed x)
    then show ?thesis by (simp add: no_entry_def)
  next
    case skipped
    then have "\<not> has_entry s1 sid a b"
      by (auto simp: existing_closing_def has_entry_def list_ex_iff find_row_None)
    with skipped show ?thesis by (simp add: no_entry_def)
  qed
  then show ?thesis using assms(1) s' by (simp add: is_stranded_def)
qed

lemma demo_due_event: "validate_due (hd (events demo_due)) = Some \<lparr>dm_schedule = ''struct_1'',
    dm_posting = Date 2026 2 28, dm_start = Date 2026 2 1, dm_end = Date 2026 2 28, dm_memo = None\<rparr>"
  "obligation_window (hd (events demo_due)) = Some (''struct_1'', Date 2026 2 1, Date 2026 2 28)"
  by (simp_all add: demo_due_def obligation_def validate_due_def obligation_window_def meta_get_def str_or_def
      demo_due_iso)

abbreviation "demo_dispatch s \<equiv> dispatch_due (\<lambda>_. True) (\<lambda>i. (''je_'' @ i, ''jr_'' @ i)) (hd (events demo_due))
  \<lparr>dm_schedule = ''struct_1'', dm_posting = Date 2026 2 28, dm_start = Date 2026 2 1,
   dm_end = Date 2026 2 28, dm_memo = None\<rparr> s"

lemma demo_dispatch_skipped: "outcome_of (demo_dispatch (demo_due\<lparr>facts := []\<rparr>)) = Some Skipped"
  by code_simp

theorem dispatch_settles_unless_skipped_witness:
  "\<exists>s' r. demo_dispatch (demo_due\<lparr>facts := []\<rparr>) = Inr (s', r) \<and> cs_outcome r = Skipped \<and>
    is_stranded s' (hd (events demo_due))"
proof -
  from outcome_of_Some [OF demo_dispatch_skipped] obtain s' r where
    d: "demo_dispatch (demo_due\<lparr>facts := []\<rparr>) = Inr (s', r)" "cs_outcome r = Skipped" by blast
  from dispatch_settles_unless_skipped [OF demo_due_event(2,1) _ _ d(1)] d show ?thesis
    by (auto simp: less_eq_pdate_def)
qed

subsection \<open>The co-pilot sweep\<close>

definition copilot_status :: "ledger \<Rightarrow> ptime \<Rightarrow> event \<Rightarrow> event" where
  "copilot_status s as_of e =
     (if matured EvPending as_of e then e\<lparr>ev_status := (if is_orphan s e then Voided else Classified)\<rparr>
      else if matured Classified as_of e \<and> is_stranded s e \<and> is_orphan s e then e\<lparr>ev_status := Voided\<rparr>
      else e)"

lemma set_status_map:
  "events (set_status ids f t s) =
     map (\<lambda>e. if ev_id e \<in> set ids \<and> ev_status e \<in> set f then e\<lparr>ev_status := t\<rparr> else e) (events s)"
  by (simp add: set_status_def update_where_def)

text \<open>
  A co-pilot sweep writes no entry: it moves every matured pending obligation to
  classified, except those whose schedule is gone, which it voids with the stranded ones of
  gone schedules, and its result names exactly the flipped, voided and stranded ones.
\<close>

theorem copilot_sweep_exact:
  assumes "promote_pending_obligations free new_ids s s as_of False = Inr (s', r)"
    "distinct (map ev_id (events s))"
  shows "events s' = map (copilot_status s as_of) (events s) \<and> entries s' = entries s \<and>
    set (classified_ids r) = {ev_id e |e. e \<in> set (events s) \<and> matured EvPending as_of e \<and> \<not> is_orphan s e} \<and>
    set (stranded_ids r) = {ev_id e |e. e \<in> set (events s) \<and> matured Classified as_of e \<and>
      is_stranded s e \<and> \<not> is_orphan s e}"
proof -
  define P where "P = filter (matured EvPending as_of) (events s)"
  define S where "S = filter (\<lambda>e. matured Classified as_of e \<and> is_stranded s e) (events s)"
  have ws: "write_set s as_of = P @ S"
    by (simp add: write_set_def preview_write_set_def P_def S_def filter_stranded_obligations_def conj_commute)
  have inj: "e = e'" if "e \<in> set (events s)" "e' \<in> set (events s)" "ev_id e = ev_id e'" for e e'
    using assms(2) that by (auto simp: distinct_map inj_on_def)
  have
    run: "(if P @ S = [] then Inr (s, no_promotion\<lparr>sweep_errors := []\<rparr>)
      else sweep_locked free new_ids False s
          (sort_key ev_id (filter (\<lambda>e. ev_id e \<in> ev_id ` set (P @ S) \<and> ev_status e \<in> {EvPending, Classified}) (events s)))
          []) = Inr (s', r)"
    by (rule promote_inversion [OF assms(1), unfolded ws Let_def]) auto
  show ?thesis
  proof (cases "P @ S = []")
    case True
    then have "\<not> matured EvPending as_of e" "\<not> (matured Classified as_of e \<and> is_stranded s e)"
      if "e \<in> set (events s)" for e
      using that by (auto simp: P_def S_def filter_empty_conv)
    then have "map (copilot_status s as_of) (events s) = events s"
      by (intro map_idI) (auto simp: copilot_status_def)
    with True run \<open>\<And>e. e \<in> set (events s) \<Longrightarrow> \<not> matured EvPending as_of e\<close>
      \<open>\<And>e. e \<in> set (events s) \<Longrightarrow> \<not> (matured Classified as_of e \<and> is_stranded s e)\<close>
    show ?thesis by (auto simp: no_promotion_def)
  next
    case False
    define C where "C = sort_key ev_id (filter (\<lambda>e. ev_id e \<in> ev_id ` set (P @ S) \<and>
        ev_status e \<in> {EvPending, Classified}) (events s))"
    have "e \<in> set C \<longleftrightarrow> e \<in> set P \<or> e \<in> set S" for e
      using inj by (auto simp: C_def P_def S_def matured_def)
    then have C: "{e \<in> set C. ev_status e = EvPending} = set P"
      "{e \<in> set C. ev_status e = Classified \<and> is_stranded s e} = set S"
      by (auto simp: P_def S_def matured_def)
    define pend where "pend = filter (\<lambda>e. ev_status e = EvPending) C"
    define strd where "strd = filter_stranded_obligations s (filter (\<lambda>e. ev_status e = Classified) C)"
    have ps: "set pend = set P" "set strd = set S"
      unfolding pend_def strd_def using C by (auto simp: filter_stranded_obligations_def)
    define orphans where "orphans = map ev_id (filter (is_orphan s) (pend @ strd))"
    define pend1 where "pend1 = filter (\<lambda>e. ev_id e \<notin> set orphans) pend"
    define strd1 where "strd1 = filter (\<lambda>e. ev_id e \<notin> set orphans) strd"
    have o: "ev_id e \<in> set orphans \<longleftrightarrow> e \<in> set P \<union> set S \<and> is_orphan s e" if "e \<in> set (events s)" for e
      using that ps inj by (auto simp: orphans_def P_def S_def)
    have s1: "set pend1 = {e \<in> set P. \<not> is_orphan s e}" "set strd1 = {e \<in> set S. \<not> is_orphan s e}"
      using ps o by (auto simp: pend1_def strd1_def P_def S_def)
    have p1: "ev_id e \<in> set (map ev_id pend1) \<longleftrightarrow> e \<in> set P \<and> \<not> is_orphan s e" if e: "e \<in> set (events s)" for e
    proof
      assume "ev_id e \<in> set (map ev_id pend1)"
      then obtain x where x: "x \<in> set pend1" "ev_id e = ev_id x" by auto
      then have "x \<in> set P" "\<not> is_orphan s x" using s1(1) by auto
      moreover from this have "e = x" using inj [OF e _ x(2)] by (auto simp: P_def)
      ultimately show "e \<in> set P \<and> \<not> is_orphan s e" by simp
    next
      assume "e \<in> set P \<and> \<not> is_orphan s e"
      then show "ev_id e \<in> set (map ev_id pend1)" using s1(1) by auto
    qed
    have nil: "set_status [] [EvPending] Classified x = x" for x
      by (simp add: set_status_def update_where_def)
    have "s' = set_status (map ev_id pend1) [EvPending] Classified (set_status orphans [EvPending, Classified] Voided s) \<and>
        classified_ids r = map ev_id pend1 \<and> stranded_ids r = map ev_id strd1"
      using run False nil unfolding C_def [symmetric] sweep_locked_def Let_def pend_def [symmetric]
        strd_def [symmetric] orphans_def [symmetric] pend1_def [symmetric] strd1_def [symmetric]
      by (auto split: if_splits)
    then have s': "s' = set_status (map ev_id pend1) [EvPending] Classified (set_status orphans [EvPending, Classified] Voided s)"
      and r: "classified_ids r = map ev_id pend1" "stranded_ids r = map ev_id strd1" by blast+
    have "events s' = map (copilot_status s as_of) (events s)"
      unfolding s' set_status_map map_map
    proof (rule map_cong [OF refl])
      fix e assume e: "e \<in> set (events s)"
      have m: "matured EvPending as_of e \<Longrightarrow> ev_status e = EvPending"
        "matured Classified as_of e \<Longrightarrow> ev_status e = Classified" by (simp_all add: matured_def)
      note [simp] = o [OF e] p1 [OF e, unfolded set_map] and [simp] = P_def S_def
      show "((\<lambda>e. if ev_id e \<in> set (map ev_id pend1) \<and> ev_status e \<in> set [EvPending] then e\<lparr>ev_status := Classified\<rparr> else e) \<circ>
          (\<lambda>e. if ev_id e \<in> set orphans \<and> ev_status e \<in> set [EvPending, Classified] then e\<lparr>ev_status := Voided\<rparr> else e)) e =
          copilot_status s as_of e"
        using e m by (cases "matured EvPending as_of e"; cases "is_orphan s e") (simp_all add: copilot_status_def)
    qed
    then show ?thesis using s' r s1 by (auto simp: P_def S_def)
  qed
qed

theorem copilot_sweep_exact_witness:
  "\<exists>s' r. demo_sweep demo_due demo_due False = Inr (s', r) \<and> map ev_status (events s') = [Classified] \<and>
    set (classified_ids r) = {''evt_1''}"
proof -
  have w: "write_set demo_due (end_of_day (Date 2026 3 1)) = events demo_due"
    by (simp add: write_set_def preview_write_set_def demo_due_matured filter_stranded_obligations_def)
  have "is_ok (demo_sweep demo_due demo_due False)"
    by (simp add: promote_pending_obligations_def preview_write_set_def demo_due_matured
        filter_stranded_obligations_def Let_def sweep_locked_def)
  then obtain s' r where p: "demo_sweep demo_due demo_due False = Inr (s', r)"
    by (auto simp: is_ok_def split: sum.splits)
  have m: "matured EvPending (end_of_day (Date 2026 3 1)) (hd (events demo_due))"
    by (simp add: demo_due_def matured_def obligation_def end_of_day_def less_eq_ptime_def less_pdate_def)
  have o: "\<not> is_orphan demo_due (hd (events demo_due))"
    by (simp add: is_orphan_def demo_due_def demo_schedule_def obligation_def meta_get_def
        find_structure_def demo_structure_def)
  have e: "events demo_due = [hd (events demo_due)]" "ev_id (hd (events demo_due)) = ''evt_1''"
    by (simp_all add: demo_due_def obligation_def)
  have "distinct (map ev_id (events demo_due))" by (simp add: demo_due_def)
  from copilot_sweep_exact [OF p this] have
    "events s' = map (copilot_status demo_due (end_of_day (Date 2026 3 1))) [hd (events demo_due)]"
    using e(1) by simp
  then have "map ev_status (events s') = [Classified]" using m o by (simp add: copilot_status_def)
  moreover have "set (classified_ids r) = {''evt_1''}"
  proof -
    have "{e \<in> set (events demo_due). matured EvPending (end_of_day (Date 2026 3 1)) e \<and> \<not> is_orphan demo_due e} =
        {hd (events demo_due)}"
      using m o by (subst e(1)) (auto simp del: hd_in_set)
    moreover have "set (classified_ids r) = ev_id ` {e \<in> set (events demo_due).
        matured EvPending (end_of_day (Date 2026 3 1)) e \<and> \<not> is_orphan demo_due e}"
      using copilot_sweep_exact [OF p \<open>distinct (map ev_id (events demo_due))\<close>]
      by (simp only: setcompr_eq_image conj_assoc)
    ultimately show ?thesis using e(2) by (simp only: image_insert image_empty)
  qed
  ultimately show ?thesis using p by (intro exI conjI)
qed

end
