(* ===== verification/CloseGate.thy ===== *)
theory CloseGate
  imports Obligations Reconciling
begin

text \<open>
  The close gate (\<open>FiscalCalendarService.closeable_gate\<close> in
  \<open>operations/roboledger/fiscal_calendar/service.py\<close>): whether a period can be closed now,
  with every blocker and the detail of each. The gate only reads the ledger.
\<close>

datatype blocker =
    NoCalendar
  | SequenceViolation
  | AlreadyClosed
  | PeriodIncomplete
  | SyncStale
  | PendingObligations
  | StrandedObligations
  | ReconcilingItems

record obligation_detail =
  od_event :: string
  od_schedule :: "string option"
  od_name :: "string option"
  od_period :: string

record gate_result =
  is_closeable :: bool
  blockers :: "blocker list"
  pending_count :: nat
  pending_sample :: "obligation_detail list"
  earliest_pending :: "string option"
  sync_stale_days :: "int option"
  stranded_count :: nat
  stranded_sample :: "obligation_detail list"
  reconciling_count :: nat
  reconciling_sample :: "string list"

text \<open>The platform's sync state and what the caller chose to bypass.\<close>

record gate_options =
  has_sync_connection :: bool
  last_sync_at :: "pdate option"
  allow_stale_sync :: bool
  allow_stranded :: bool
  allow_reconciling :: bool

definition obligation_sample :: "ledger \<Rightarrow> event list \<Rightarrow> obligation_detail list" where
  "obligation_sample s es = map (\<lambda>e.
     let sid = meta_get e ''schedule_id'';
         pe = the (str_or (meta_get e ''period_end'') (Some []))
     in \<lparr>od_event = ev_id e,
         od_schedule = (if truthy sid then sid else None),
         od_name = (if truthy sid then map_option st_name (find_structure s (the sid)) else None),
         od_period = take 7 pe\<rparr>) es"

definition fiscal_period_row :: "ledger \<Rightarrow> string \<Rightarrow> string \<Rightarrow> fiscal_period option" where
  "fiscal_period_row s g p = find_row (\<lambda>r. fp_graph_id r = g \<and> fp_name r = p) (fperiods s)"

definition is_reclose :: "ledger \<Rightarrow> string \<Rightarrow> string \<Rightarrow> bool" where
  "is_reclose s g p = (case fiscal_period_row s g p of None \<Rightarrow> False | Some r \<Rightarrow> fp_status r = PeriodClosing)"

text \<open>Gate 1: the period is the next one, or the earliest open one on a first close.\<close>

definition sequence_gate :: "ledger \<Rightarrow> string \<Rightarrow> fiscal_calendar \<Rightarrow> string \<Rightarrow> fc_error + blocker list" where
  "sequence_gate s g c p =
     (if is_reclose s g p then Inr []
      else bindR (if truthy (closed_through c)
                  then bindR (liftP (next_period (the (closed_through c)))) (\<lambda>n. Inr (Some n))
                  else Inr (earliest_open_period s g))
           (\<lambda>expected. Inr (if expected \<noteq> None \<and> Some p \<noteq> expected then [SequenceViolation] else [])))"

definition closed_gate :: "ledger \<Rightarrow> string \<Rightarrow> fiscal_calendar \<Rightarrow> string \<Rightarrow> blocker list" where
  "closed_gate s g c p =
     (if \<not> is_reclose s g p \<and> (case closed_through c of None \<Rightarrow> False | Some t \<Rightarrow> p \<le> t)
      then [AlreadyClosed] else [])"

text \<open>Gate 3, with the number of days the last sync is short of the period's end.\<close>

definition sync_gate :: "gate_options \<Rightarrow> pdate \<Rightarrow> blocker list \<times> int option" where
  "sync_gate opts period_end =
     (if \<not> allow_stale_sync opts \<and> has_sync_connection opts
      then (case last_sync_at opts of
              None \<Rightarrow> ([SyncStale], None)
            | Some d \<Rightarrow> if d < period_end then ([SyncStale], Some (days_between d period_end)) else ([], None))
      else ([], None))"

definition closeable_gate ::
  "ledger \<Rightarrow> string \<Rightarrow> string \<Rightarrow> pdate \<Rightarrow> gate_options \<Rightarrow> fc_error + gate_result" where
  "closeable_gate s g p today opts =
     (case get s g of
        None \<Rightarrow> Inr \<lparr>is_closeable = False, blockers = [NoCalendar], pending_count = 0, pending_sample = [],
                    earliest_pending = None, sync_stale_days = None, stranded_count = 0, stranded_sample = [],
                    reconciling_count = 0, reconciling_sample = []\<rparr>
      | Some c \<Rightarrow>
          bindR (sequence_gate s g c p) (\<lambda>b1.
          bindR (liftP (period_date_range p)) (\<lambda>(_, period_end).
          let b2 = closed_gate s g c p;
              b3 = (if today \<le> period_end then [PeriodIncomplete] else []);
              (b4, days) = sync_gate opts period_end;
              end_dt = end_of_day period_end;
              pending = filter (matured EvPending end_dt) (events s);
              p_sample = obligation_sample s (take 5 (sort_key ev_occurred_at pending));
              stranded = find_stranded_obligations s end_dt;
              items = find_unresolved_reconciling_items s period_end;
              bs = b1 @ b2 @ b3 @ b4 @
                (if pending \<noteq> [] then [PendingObligations] else []) @
                (if stranded \<noteq> [] \<and> \<not> allow_stranded opts then [StrandedObligations] else []) @
                (if items \<noteq> [] \<and> \<not> allow_reconciling opts then [ReconcilingItems] else [])
          in Inr \<lparr>is_closeable = (bs = []), blockers = bs, pending_count = length pending,
                  pending_sample = p_sample,
                  earliest_pending = (case p_sample of [] \<Rightarrow> None | d # _ \<Rightarrow> Some (od_period d)),
                  sync_stale_days = days, stranded_count = length stranded,
                  stranded_sample = obligation_sample s (take 5 stranded),
                  reconciling_count = length items,
                  reconciling_sample = map (\<lambda>(i, ext). the (str_or ext (Some i))) (take 5 items)\<rparr>)))"

subsection \<open>What an open gate means\<close>

lemma find_stranded_set:
  "set (find_stranded_obligations s t) = {e \<in> set (events s). matured Classified t e \<and> is_stranded s e}"
  by (auto simp: find_stranded_obligations_def filter_stranded_obligations_def)

lemma sort_key_Nil [simp]: "sort_key f xs = [] \<longleftrightarrow> xs = []"
  by (metis set_empty set_sort)

lemma find_unresolved_set:
  "find_unresolved_reconciling_items s d = [] \<longleftrightarrow>
     (\<forall>e\<in>set (events s). ev_drift e \<longrightarrow>
        (\<forall>x\<in>set (entries s). en_event x = Some (ev_id e) \<longrightarrow> d < en_posting_date x))"
  by (simp add: find_unresolved_reconciling_items_def filter_empty_conv list_ex_iff) (meson not_le)

definition sequence_ok :: "ledger \<Rightarrow> string \<Rightarrow> fiscal_calendar \<Rightarrow> string \<Rightarrow> bool" where
  "sequence_ok s g c p \<longleftrightarrow> is_reclose s g p \<or>
     (if truthy (closed_through c) then next_period (the (closed_through c)) = Inr p
      else earliest_open_period s g = None \<or> earliest_open_period s g = Some p)"

lemma sequence_gate_Nil: "sequence_gate s g c p = Inr [] \<longleftrightarrow> sequence_ok s g c p"
  by (cases "is_reclose s g p"; cases "truthy (closed_through c)")
    (auto simp: sequence_gate_def sequence_ok_def bindR_eq_Inr liftP_eq_Inr split: if_splits)

lemma sync_gate_Nil:
  "fst (sync_gate opts d) = [] \<longleftrightarrow> allow_stale_sync opts \<or> \<not> has_sync_connection opts \<or>
     (\<exists>t. last_sync_at opts = Some t \<and> d \<le> t)"
  by (auto simp: sync_gate_def split: option.splits)

lemma gate_parts:
  assumes "closeable_gate s g p today opts = Inr r" "get s g = Some c" "period_date_range p = Inr (a, b)"
  obtains b1 where "sequence_gate s g c p = Inr b1"
    "blockers r = b1 @ closed_gate s g c p @ (if today \<le> b then [PeriodIncomplete] else []) @ fst (sync_gate opts b) @
      (if filter (matured EvPending (end_of_day b)) (events s) \<noteq> [] then [PendingObligations] else []) @
      (if find_stranded_obligations s (end_of_day b) \<noteq> [] \<and> \<not> allow_stranded opts then [StrandedObligations] else []) @
      (if find_unresolved_reconciling_items s b \<noteq> [] \<and> \<not> allow_reconciling opts then [ReconcilingItems] else [])"
    "is_closeable r = (blockers r = [])"
    "pending_count r = length (filter (matured EvPending (end_of_day b)) (events s))"
    "stranded_count r = length (find_stranded_obligations s (end_of_day b))"
    "reconciling_count r = length (find_unresolved_reconciling_items s b)"
proof -
  obtain b4 days where sg: "sync_gate opts b = (b4, days)" by fastforce
  from assms obtain b1 where b1: "sequence_gate s g c p = Inr b1"
    by (auto simp: closeable_gate_def bindR_eq_Inr)
  from assms(1) show thesis
    unfolding closeable_gate_def assms(2,3) option.case b1 liftP_Inr bindR_Inr prod.case sg Let_def
    by (intro that [OF b1]) (auto simp: sg)
qed

text \<open>
  C3. The gate of an initialised calendar opens exactly when the period is next in sequence
  or reopened, is not already closed, has ended before today, its sync is current or waived,
  no obligation due by its end is pending, none is classified without an entry unless
  waived, and no changed posted event has an entry by its end unless waived; the counts are
  reported even when a gate is waived.
\<close>

theorem closeable_gate_iff:
  assumes "closeable_gate s g p today opts = Inr r" "get s g = Some c" "period_date_range p = Inr (a, b)"
  shows "is_closeable r = (sequence_ok s g c p \<and>
      (is_reclose s g p \<or> (\<forall>t. closed_through c = Some t \<longrightarrow> t < p)) \<and> b < today \<and>
      (allow_stale_sync opts \<or> \<not> has_sync_connection opts \<or> (\<exists>t. last_sync_at opts = Some t \<and> b \<le> t)) \<and>
      (\<forall>e\<in>set (events s). \<not> matured EvPending (end_of_day b) e) \<and>
      (allow_stranded opts \<or> (\<forall>e\<in>set (events s). matured Classified (end_of_day b) e \<longrightarrow> \<not> is_stranded s e)) \<and>
      (allow_reconciling opts \<or> (\<forall>e\<in>set (events s). ev_drift e \<longrightarrow>
         (\<forall>x\<in>set (entries s). en_event x = Some (ev_id e) \<longrightarrow> b < en_posting_date x)))) \<and>
    is_closeable r = (blockers r = []) \<and>
    pending_count r = length (filter (matured EvPending (end_of_day b)) (events s)) \<and>
    stranded_count r = length (find_stranded_obligations s (end_of_day b)) \<and>
    reconciling_count r = length (find_unresolved_reconciling_items s b)"
proof -
  from gate_parts [OF assms] obtain b1 where b1: "sequence_gate s g c p = Inr b1"
    and r: "blockers r = b1 @ closed_gate s g c p @ (if today \<le> b then [PeriodIncomplete] else []) @ fst (sync_gate opts b) @
      (if filter (matured EvPending (end_of_day b)) (events s) \<noteq> [] then [PendingObligations] else []) @
      (if find_stranded_obligations s (end_of_day b) \<noteq> [] \<and> \<not> allow_stranded opts then [StrandedObligations] else []) @
      (if find_unresolved_reconciling_items s b \<noteq> [] \<and> \<not> allow_reconciling opts then [ReconcilingItems] else [])"
    "is_closeable r = (blockers r = [])"
    "pending_count r = length (filter (matured EvPending (end_of_day b)) (events s))"
    "stranded_count r = length (find_stranded_obligations s (end_of_day b))"
    "reconciling_count r = length (find_unresolved_reconciling_items s b)" .
  have 1: "b1 = [] \<longleftrightarrow> sequence_ok s g c p"
    using b1 sequence_gate_Nil [of s g c p] by simp
  have 2: "closed_gate s g c p = [] \<longleftrightarrow> is_reclose s g p \<or> (\<forall>t. closed_through c = Some t \<longrightarrow> t < p)"
    by (auto simp: closed_gate_def split: option.splits)
  have 5: "find_stranded_obligations s (end_of_day b) = [] \<longleftrightarrow>
      (\<forall>e\<in>set (events s). matured Classified (end_of_day b) e \<longrightarrow> \<not> is_stranded s e)"
    unfolding set_empty [symmetric] find_stranded_set by blast
  have "blockers r = [] \<longleftrightarrow> b1 = [] \<and> closed_gate s g c p = [] \<and> b < today \<and> fst (sync_gate opts b) = [] \<and>
      filter (matured EvPending (end_of_day b)) (events s) = [] \<and>
      (allow_stranded opts \<or> find_stranded_obligations s (end_of_day b) = []) \<and>
      (allow_reconciling opts \<or> find_unresolved_reconciling_items s b = [])"
    unfolding r(1) by auto
  then show ?thesis
    unfolding r(2-) 1 2 sync_gate_Nil 5 filter_empty_conv find_unresolved_set by blast
qed

definition demo_opts :: gate_options where
  "demo_opts = \<lparr>has_sync_connection = False, last_sync_at = None, allow_stale_sync = False,
     allow_stranded = False, allow_reconciling = False\<rparr>"

lemma demo_range: "period_date_range ''2026-02'' = Inr (Date 2026 2 1, Date 2026 2 28)"
  by code_simp

lemma demo_not_reclose: "\<not> is_reclose demo_ledger ''kg1'' ''2026-02''"
  by (simp add: is_reclose_def fiscal_period_row_def demo_ledger_def demo_period_def)

lemma demo_gate: "\<exists>r. closeable_gate demo_ledger ''kg1'' ''2026-02'' (Date 2026 5 2) demo_opts = Inr r \<and> is_closeable r"
proof -
  have "sequence_gate demo_ledger ''kg1'' demo_calendar ''2026-02'' = Inr []"
    by (simp add: sequence_gate_def demo_not_reclose demo_calendar_def demo_next)
  moreover have "closed_gate demo_ledger ''kg1'' demo_calendar ''2026-02'' = []"
    by (simp add: closed_gate_def demo_calendar_def demo_order)
  moreover have "find_stranded_obligations demo_ledger t = []" "find_unresolved_reconciling_items demo_ledger d = []" for t d
    by (simp_all add: find_stranded_obligations_def filter_stranded_obligations_def
        find_unresolved_reconciling_items_def demo_ledger_def)
  ultimately show ?thesis
    by (simp add: closeable_gate_def demo_get demo_range sync_gate_def demo_opts_def Let_def less_eq_pdate_def)
      (simp add: demo_ledger_def)
qed

theorem closeable_gate_iff_witness:
  "\<exists>r. closeable_gate demo_ledger ''kg1'' ''2026-02'' (Date 2026 5 2) demo_opts = Inr r \<and>
    blockers r = [] \<and> sequence_ok demo_ledger ''kg1'' demo_calendar ''2026-02''"
proof -
  from demo_gate obtain r where
    r: "closeable_gate demo_ledger ''kg1'' ''2026-02'' (Date 2026 5 2) demo_opts = Inr r" "is_closeable r" by blast
  from closeable_gate_iff [OF r(1) demo_get demo_range] r show ?thesis by auto
qed

subsection \<open>The gate and the advance\<close>

lemma sequence_ok_expected:
  "sequence_ok s g c p \<Longrightarrow> \<not> is_reclose s g p \<Longrightarrow> expected_close s g c p = Inr p"
  by (auto simp: sequence_ok_def expected_close_def str_or_def truthy_def split: if_splits)

lemma gate_sequence_ok:
  assumes "closeable_gate s g p today opts = Inr r" "is_closeable r" "get s g = Some c"
  shows "sequence_ok s g c p"
proof -
  from assms(1,3) obtain x where "period_date_range p = Inr x"
    by (auto simp: closeable_gate_def bindR_eq_Inr liftP_eq_Inr)
  then obtain a b where "period_date_range p = Inr (a, b)" by (cases x) simp
  from gate_parts [OF assms(1,3) this] obtain b1 where b1: "sequence_gate s g c p = Inr b1"
    "is_closeable r = (blockers r = [])" "\<exists>rest. blockers r = b1 @ rest" by metis
  then show ?thesis using assms(2) sequence_gate_Nil by auto
qed

text \<open>
  An open gate and the advance of the closed pointer agree on the sequence, but the gate
  does not read the close target: after an open gate of a period that is not a reopened one,
  advancing succeeds exactly when the target is unset or not before the period, and
  otherwise the database refuses the row.
\<close>

theorem open_gate_then_advance:
  assumes "closeable_gate s g p today opts = Inr r" "is_closeable r" "get s g = Some c"
    "\<not> is_reclose s g p" "wf_period p" "pidx p + 1 < 120000" "ledger_ok s" "calendar_lock_free v"
  shows "is_ok (advance_closed_through v s g p actor aty note) =
      (\<forall>t. close_target c = Some t \<longrightarrow> p \<le> t) \<and>
    ((\<exists>t. close_target c = Some t \<and> t < p) \<longrightarrow>
       advance_closed_through v s g p actor aty note = Inl CheckViolation)"
proof -
  note e = sequence_ok_expected [OF gate_sequence_ok [OF assms(1-3)] assms(4)]
  have blocked: "advance_closed_through v s g p actor aty note = Inl CheckViolation"
    if "close_target c = Some t" "t < p" for t
    using advance_blocked [OF assms(3,8) e that] .
  have "is_ok (advance_closed_through v s g p actor aty note)"
    if t: "\<forall>t. close_target c = Some t \<longrightarrow> p \<le> t"
  proof -
    from pl.nxt_ok [OF assms(5,6)] obtain n where n: "next_period p = Inr n" by blast
    from pl.nxt_D [OF assms(5,6) n] have "p \<le> n" by simp
    moreover have "calendar_check (advanced v p actor c)"
      using get_ok [OF assms(7,3)] t
      by (auto simp: calendar_check_def advanced_def le_check_def split: option.splits)
    ultimately show ?thesis
      using assms(3,8) e n t
      by (auto simp: advance_closed_through_def require_locked_def flush_calendar_def advanced_def
          calendar_check_def Let_def split: option.splits)
  qed
  then show ?thesis using blocked by (metis is_ok_simps(2) not_le)
qed

theorem open_gate_then_advance_witness:
  "is_ok (advance_closed_through demo_env demo_ledger ''kg1'' ''2026-02'' None ActorUser None)"
proof -
  from demo_gate obtain r where
    r: "closeable_gate demo_ledger ''kg1'' ''2026-02'' (Date 2026 5 2) demo_opts = Inr r" "is_closeable r" by blast
  have w: "wf_period ''2026-02''" "pidx ''2026-02'' + 1 < 120000" by code_simp+
  have ok: "ledger_ok demo_ledger"
    by (simp add: ledger_ok_def demo_ledger_def demo_calendar_def demo_period_def calendar_check_def
        demo_order periods_check_def period_key_def less_pdate_def)
  have "calendar_lock_free demo_env" by (simp add: demo_env_def)
  from open_gate_then_advance [OF r demo_get demo_not_reclose w ok this, of None ActorUser None]
  show ?thesis by (simp add: demo_calendar_def)
qed

end
