(* ===== verification/Writeback.thy ===== *)
theory Writeback
  imports Schedules
begin

text \<open>
  Publication of drafts to QuickBooks: the predicate
  (\<open>operations/roboledger/fiscal_calendar/qb_writeback.py\<close>), the publication of one event
  (\<open>execute_event_block\<close> in \<open>operations/event_block/commands.py\<close>) and the batch a close
  runs (\<open>PeriodCloseService._publish_drafts_to_qb\<close>).

  QuickBooks is the parameter \<open>qb\<close>: its reply to the journal entry of an event. The
  platform's connections are a list of rows. \<open>unlocked\<close> says which event rows can be
  locked. A JSON boolean in an event's metadata is its text, as \<open>->>\<close> renders it.
\<close>

record connection =
  cn_id :: string
  cn_graph :: string
  cn_provider :: string
  cn_source_name :: "string option"
  cn_policy :: string
  cn_deleted :: bool
  cn_created :: ptime
  cn_realm :: "string option"
  cn_has_credentials :: bool

subsection \<open>The predicate\<close>

definition retracted :: "event_status \<Rightarrow> bool" where
  "retracted st \<longleftrightarrow> st = Voided \<or> st = Superseded"

definition writeback_source :: "event \<Rightarrow> bool" where
  "writeback_source e \<longleftrightarrow> meta_get e ''publish_to_source'' = Some ''true'' \<or>
     meta_get e ''publish_to_source'' = None \<and> (ev_source e = ''schedule'' \<or> ev_source e = ''manual'')"

definition resolve_writeback_connection :: "connection list \<Rightarrow> string \<Rightarrow> connection option" where
  "resolve_writeback_connection conns g =
     (case sort_key cn_created (filter (\<lambda>c. cn_graph c = g \<and> cn_provider c = ''quickbooks'' \<and>
             (cn_policy c = ''qb_authoritative'' \<or> cn_policy c = ''hybrid'') \<and> \<not> cn_deleted c) conns) of
        [] \<Rightarrow> None | c # cs \<Rightarrow> Some (last (c # cs)))"

definition posts_in :: "pdate \<Rightarrow> pdate \<Rightarrow> entry \<Rightarrow> bool" where
  "posts_in a b e \<longleftrightarrow> a \<le> en_posting_date e \<and> en_posting_date e \<le> b"

definition writeback_eligible :: "entry \<Rightarrow> event \<Rightarrow> bool" where
  "writeback_eligible en ev \<longleftrightarrow> en_event en = Some (ev_id ev) \<and> en_status en = EntryDraft \<and>
     writeback_source ev \<and> \<not> retracted (ev_status ev) \<and> meta_get ev ''qb_external_id'' = None"

definition select_writeback_eligible_entries :: "ledger \<Rightarrow> pdate \<Rightarrow> pdate \<Rightarrow> (entry \<times> event) list" where
  "select_writeback_eligible_entries s a b =
     concat (map (\<lambda>en. map (Pair en) (filter (writeback_eligible en) (events s)))
       (filter (posts_in a b) (entries s)))"

definition writeback_eligible_entry_ids :: "ledger \<Rightarrow> pdate \<Rightarrow> pdate \<Rightarrow> string set" where
  "writeback_eligible_entry_ids s a b = (en_id \<circ> fst) ` set (select_writeback_eligible_entries s a b)"

subsection \<open>One event\<close>

datatype qb_reply = QbAccepted "string list" | QbRejected string | QbAuthFailed | QbRaised

datatype publish_error =
    EventMissing string
  | EventLocked string
  | PublishGuard guard_error
  | NotPublishable string event_status
  | WrongGraph string
  | NoCredentials string
  | NoRealm string
  | AuthFailed
  | PublishRaised

record publish_reply =
  pr_event :: string
  pr_status :: event_status
  pr_qb_id :: "string option"
  pr_error :: "string option"

definition meta_set :: "string \<Rightarrow> string \<Rightarrow> event \<Rightarrow> event" where
  "meta_set k v e = e\<lparr>ev_meta := (k, v) # filter (\<lambda>(j, _). j \<noteq> k) (ev_meta e)\<rparr>"

definition meta_pop :: "string \<Rightarrow> event \<Rightarrow> event" where
  "meta_pop k e = e\<lparr>ev_meta := filter (\<lambda>(j, _). j \<noteq> k) (ev_meta e)\<rparr>"

definition put_event :: "event \<Rightarrow> ledger \<Rightarrow> ledger" where
  "put_event e s = s\<lparr>events := update_where (\<lambda>x. ev_id x = ev_id e) (\<lambda>_. e) (events s)\<rparr>"

fun join_with :: "string \<Rightarrow> string list \<Rightarrow> string" where
  "join_with sep [] = []"
| "join_with sep [x] = x"
| "join_with sep (x # y # zs) = x @ sep @ join_with sep (y # zs)"

definition before_comma :: "string \<Rightarrow> string" where
  "before_comma s = takeWhile (\<lambda>c. c \<noteq> CHR '','') s"

definition unchanged_reply :: "event \<Rightarrow> string option \<Rightarrow> publish_reply" where
  "unchanged_reply e q = \<lparr>pr_event = ev_id e, pr_status = ev_status e, pr_qb_id = q, pr_error = None\<rparr>"

text \<open>
  The effect of QuickBooks accepting: the marker, the status, and every entry and
  transaction of the event posted.
\<close>

definition accept_publication :: "ptime \<Rightarrow> string \<Rightarrow> event \<Rightarrow> string list \<Rightarrow> ledger \<Rightarrow> ledger" where
  "accept_publication now conn e ids s =
     (let e1 = (meta_pop ''last_outbound_error''
                  (meta_set ''routed_via'' conn (meta_set ''qb_external_id'' (join_with '','' ids) e)))
                \<lparr>ev_status := Fulfilled\<rparr>;
          s1 = put_event e1 s
      in s1\<lparr>entries := update_where (\<lambda>x. en_event x = Some (ev_id e))
                (\<lambda>x. x\<lparr>en_status := EntryPosted, en_posted_at := Some now\<rparr>) (entries s1),
            transactions := update_where (\<lambda>x. tx_event x = Some (ev_id e))
                (\<lambda>x. x\<lparr>tx_status := ''posted'', tx_posted_at := Some now\<rparr>) (transactions s1)\<rparr>)"

definition reject_publication :: "event \<Rightarrow> string \<Rightarrow> ledger \<Rightarrow> ledger" where
  "reject_publication e err s =
     put_event ((meta_set ''last_outbound_error'' err e)\<lparr>ev_status := EvPending\<rparr>) s"

text \<open>What is done once the connection is known (\<open>conn\<close> is the id the caller or the event gives).\<close>

definition publish_via ::
  "ptime \<Rightarrow> connection list \<Rightarrow> (event \<Rightarrow> qb_reply) \<Rightarrow> string \<Rightarrow> event \<Rightarrow> string \<Rightarrow> ledger \<Rightarrow>
   publish_error + ledger \<times> publish_reply" where
  "publish_via now conns qb g e conn s =
     (case find_row (\<lambda>c. cn_id c = conn \<and> \<not> cn_deleted c) conns of
        None \<Rightarrow> Inr (s, unchanged_reply e None)
      | Some c \<Rightarrow>
          if cn_graph c \<noteq> g then Inl (WrongGraph conn)
          else if cn_policy c = ''native'' then Inr (s, unchanged_reply e None)
          else if cn_provider c \<noteq> ''quickbooks'' then Inr (s, unchanged_reply e None)
          else if \<not> cn_has_credentials c then Inl (NoCredentials conn)
          else if \<not> truthy (cn_realm c) then Inl (NoRealm conn)
          else case qb e of
                 QbAuthFailed \<Rightarrow> Inl AuthFailed
               | QbRaised \<Rightarrow> Inl PublishRaised
               | QbRejected err \<Rightarrow> Inr (reject_publication e err s,
                   \<lparr>pr_event = ev_id e, pr_status = EvPending, pr_qb_id = None, pr_error = Some err\<rparr>)
               | QbAccepted ids \<Rightarrow>
                   (case ids of
                      [] \<Rightarrow> Inl PublishRaised
                    | i # _ \<Rightarrow> Inr (accept_publication now conn e ids s,
                        \<lparr>pr_event = ev_id e, pr_status = Fulfilled, pr_qb_id = Some i, pr_error = None\<rparr>)))"

definition event_posting_date :: "event \<Rightarrow> pdate" where
  "event_posting_date e = (case ev_effective_at e of Some t \<Rightarrow> time_date t | None \<Rightarrow> time_date (ev_occurred_at e))"

definition execute_event_block ::
  "ptime \<Rightarrow> connection list \<Rightarrow> (event \<Rightarrow> qb_reply) \<Rightarrow> (string \<Rightarrow> bool) \<Rightarrow> (string \<times> string \<Rightarrow> bool) \<Rightarrow> string \<Rightarrow>
   bool \<Rightarrow> string option \<Rightarrow> string \<Rightarrow> ledger \<Rightarrow> publish_error + ledger \<times> publish_reply" where
  "execute_event_block now conns qb unlocked free g acquire conn i s =
     (case find_event s i of
        None \<Rightarrow> Inl (EventMissing i)
      | Some e \<Rightarrow>
          (case (if acquire then assert_period_not_closed free s s [Some (event_posting_date e)] else Inr ()) of
             Inl err \<Rightarrow> Inl (PublishGuard err)
           | Inr _ \<Rightarrow>
               if \<not> unlocked i then Inl (EventLocked i)
               else if truthy (meta_get e ''qb_external_id'')
                 then Inr (s, unchanged_reply e (Some (before_comma (the (meta_get e ''qb_external_id'')))))
               else if retracted (ev_status e) then Inl (NotPublishable i (ev_status e))
               else if ev_status e = Fulfilled then Inr (s, unchanged_reply e None)
               else if meta_get e ''publish_to_source'' = Some ''false'' then Inr (s, unchanged_reply e None)
               else
                 (let c = str_or conn (meta_get e ''connection_id'')
                  in if \<not> truthy c then Inr (s, unchanged_reply e None)
                     else publish_via now conns qb g e (the c) s)))"

subsection \<open>The batch of a close\<close>

text \<open>
  Each publication runs under a savepoint, so one that raises leaves the ledger as it was.
  A rejection and an exception both join the failures.
\<close>

fun publish_each ::
  "ptime \<Rightarrow> connection list \<Rightarrow> (event \<Rightarrow> qb_reply) \<Rightarrow> (string \<Rightarrow> bool) \<Rightarrow> string \<Rightarrow> string \<Rightarrow>
   (entry \<times> event) list \<Rightarrow> ledger \<Rightarrow> ledger \<times> (string \<times> string) list" where
  "publish_each now conns qb unlocked g conn [] s = (s, [])"
| "publish_each now conns qb unlocked g conn ((en, ev) # rest) s =
     (case execute_event_block now conns qb unlocked (\<lambda>_. True) g False (Some conn) (ev_id ev) s of
        Inl _ \<Rightarrow>
          (let (s', fails) = publish_each now conns qb unlocked g conn rest s
           in (s', (ev_id ev, en_id en) # fails))
      | Inr (s1, r) \<Rightarrow>
          (let (s', fails) = publish_each now conns qb unlocked g conn rest s1
           in (s', if pr_status r = EvPending then (ev_id ev, en_id en) # fails else fails)))"

text \<open>The ledger is the one committed at the durability boundary; the sum is what is raised or returned.\<close>

definition publish_drafts_to_qb ::
  "ptime \<Rightarrow> connection list \<Rightarrow> (event \<Rightarrow> qb_reply) \<Rightarrow> (string \<Rightarrow> bool) \<Rightarrow> ledger \<Rightarrow> string \<Rightarrow> pdate \<Rightarrow> pdate \<Rightarrow>
   ledger \<times> ((string \<times> string) list + nat)" where
  "publish_drafts_to_qb now conns qb unlocked s g a b =
     (case resolve_writeback_connection conns g of
        None \<Rightarrow> (s, Inr 0)
      | Some c \<Rightarrow>
          (let drafts = select_writeback_eligible_entries s a b in
           if drafts = [] then (s, Inr 0)
           else (let (s', fails) = publish_each now conns qb unlocked g (cn_id c) drafts s
                 in (s', if fails \<noteq> [] then Inl fails else Inr (length drafts)))))"

end
