(* ===== verification/PeriodClose.thy ===== *)
theory PeriodClose
  imports CloseGate Writeback
begin

text \<open>
  Closing and reopening a period: \<open>PeriodCloseService.close\<close>
  (\<open>operations/roboledger/fiscal_calendar/close_service.py\<close>), the commands that run it and
  the reopen under the exclusive fence (\<open>operations/roboledger/commands/fiscal_calendar.py\<close>),
  and what a reopen undoes (\<open>commands/schedules.py\<close>, \<open>reports/statement_sets.py\<close>).

  The statement stamper, which the service takes as an argument, and the rule engine are
  the parameters \<open>stamper\<close> and \<open>run_rules\<close>. \<open>close\<close> returns the ledger the database holds
  once the caller has committed or rolled back, with the result or the exception: a failed
  close rolls back to the commit that ends the publication step.
\<close>

datatype close_error =
    GateFailed gate_result
  | NoPeriodRow string
  | PeriodIsClosed string
  | PeriodRowLocked string
  | LedgerUnbalanced int int
  | WritebackFailed "(string \<times> string) list"
  | StampFailed
  | CalendarFailed fc_error

record stamp_result =
  sr_stamped :: bool
  sr_note :: "string option"
  sr_sets :: "(string \<times> string) list"
  sr_rules :: "(string \<times> nat) list option"

record close_result =
  clr_period :: string
  clr_entries_posted :: nat
  clr_auto_advanced :: bool
  clr_calendar :: fiscal_calendar
  clr_was_reclose :: bool
  clr_published :: nat
  clr_local :: nat
  clr_rules :: "(string \<times> nat) list option"
  clr_evaluated :: "string list"
  clr_stamp :: stamp_result

record close_request =
  rq_graph :: string
  rq_period :: string
  rq_actor :: string
  rq_actor_type :: actor_type
  rq_options :: gate_options
  rq_note :: "string option"

text \<open>The world outside the tenant's session.\<close>

record world =
  w_env :: env
  w_conns :: "connection list"
  w_qb :: "event \<Rightarrow> qb_reply"
  w_unlocked :: "string \<Rightarrow> bool"
  w_stamper :: "ledger \<Rightarrow> pdate \<Rightarrow> pdate \<Rightarrow> (ledger \<times> stamp_result) option"
  w_run_rules :: "string \<Rightarrow> pdate \<Rightarrow> pdate \<Rightarrow> ledger \<Rightarrow> (ledger \<times> string list) option"

subsection \<open>The parts of a close\<close>

definition period_debits :: "(entry \<Rightarrow> bool) \<Rightarrow> ledger \<Rightarrow> int" where
  "period_debits P s = (\<Sum>l\<leftarrow>line_items s. \<Sum>e\<leftarrow>entries s. if en_id e = li_entry l \<and> P e then li_debit l else 0)"

definition period_credits :: "(entry \<Rightarrow> bool) \<Rightarrow> ledger \<Rightarrow> int" where
  "period_credits P s = (\<Sum>l\<leftarrow>line_items s. \<Sum>e\<leftarrow>entries s. if en_id e = li_entry l \<and> P e then li_credit l else 0)"

text \<open>The pre-flight totals are over drafts and posted entries together.\<close>

definition preflight_bs_check :: "ledger \<Rightarrow> pdate \<Rightarrow> pdate \<Rightarrow> close_error + unit" where
  "preflight_bs_check s a b =
     (let P = (\<lambda>e. posts_in a b e \<and> (en_status e = EntryDraft \<or> en_status e = EntryPosted));
          d = period_debits P s; c = period_credits P s
      in if d = c then Inr () else Inl (LedgerUnbalanced d c))"

definition retracted_event :: "ledger \<Rightarrow> entry \<Rightarrow> bool" where
  "retracted_event s e = (case en_event e of None \<Rightarrow> False
     | Some i \<Rightarrow> list_ex (\<lambda>x. ev_id x = i \<and> retracted (ev_status x)) (events s))"

definition to_post :: "ledger \<Rightarrow> pdate \<Rightarrow> pdate \<Rightarrow> entry \<Rightarrow> bool" where
  "to_post s a b e \<longleftrightarrow> posts_in a b e \<and> en_status e = EntryDraft \<and> \<not> retracted_event s e"

definition post_drafts :: "ptime \<Rightarrow> ledger \<Rightarrow> pdate \<Rightarrow> pdate \<Rightarrow> ledger \<times> nat" where
  "post_drafts now s a b =
     (s\<lparr>entries := update_where (to_post s a b)
          (\<lambda>e. e\<lparr>en_status := EntryPosted, en_posted_at := Some now\<rparr>) (entries s)\<rparr>,
      count_where (to_post s a b) (entries s))"

text \<open>The suffixes that record an overridden gate.\<close>

definition audit_note :: "string option \<Rightarrow> bool \<Rightarrow> nat \<Rightarrow> nat \<Rightarrow> string option" where
  "audit_note note stale stranded reconciling =
     (let suffixes =
        (if stale then [''[sync gate overridden - allow_stale_sync=true]''] else []) @
        (if 0 < stranded then [''[stranded-obligation gate overridden - '' @ show_nat stranded @
             '' undrafted obligation(s) omitted]''] else []) @
        (if 0 < reconciling then [''[reconciling-item gate overridden - '' @ show_nat reconciling @
             '' unresolved item(s) left undecided]''] else [])
      in if suffixes = [] then note
         else (let suffix = join_with '' '' suffixes in
               if truthy note then Some (the note @ '' '' @ suffix) else Some suffix))"

definition update_period :: "string \<Rightarrow> string \<Rightarrow> (fiscal_period \<Rightarrow> fiscal_period) \<Rightarrow> ledger \<Rightarrow> ledger" where
  "update_period g p f s =
     s\<lparr>fperiods := update_where (\<lambda>r. fp_graph_id r = g \<and> fp_name r = p) f (fperiods s)\<rparr>"

text \<open>Run the rules of each schedule with facts in the period; an engine that raises is skipped.\<close>

definition schedules_with_facts :: "ledger \<Rightarrow> pdate \<Rightarrow> pdate \<Rightarrow> string list" where
  "schedules_with_facts s a b =
     remdups (map st_id (filter (\<lambda>st. st_block_type st = ''schedule'' \<and>
       list_ex (\<lambda>f. fa_structure f = st_id st \<and> fa_scope f = ''in_scope'' \<and> a \<le> fa_end f \<and> fa_end f \<le> b) (facts s))
       (structures s)))"

fun evaluate_each ::
  "(string \<Rightarrow> pdate \<Rightarrow> pdate \<Rightarrow> ledger \<Rightarrow> (ledger \<times> string list) option) \<Rightarrow> pdate \<Rightarrow> pdate \<Rightarrow> string list \<Rightarrow>
   ledger \<Rightarrow> (string \<times> nat) list \<Rightarrow> ledger \<times> (string \<times> nat) list" where
  "evaluate_each run a b [] s tally = (s, tally)"
| "evaluate_each run a b (i # is) s tally =
     (case run i a b s of
        None \<Rightarrow> evaluate_each run a b is s tally
      | Some (s', statuses) \<Rightarrow> evaluate_each run a b is s' (foldl (\<lambda>t k. bump k t) tally statuses))"

definition evaluate_schedule_rules ::
  "(string \<Rightarrow> pdate \<Rightarrow> pdate \<Rightarrow> ledger \<Rightarrow> (ledger \<times> string list) option) \<Rightarrow> ledger \<Rightarrow> pdate \<Rightarrow> pdate \<Rightarrow>
   ledger \<times> (string \<times> nat) list option \<times> string list" where
  "evaluate_schedule_rules run s a b =
     (let ids = schedules_with_facts s a b in
      if ids = [] then (s, None, [])
      else (let (s', tally) = evaluate_each run a b ids s
                  [(''pass'', 0), (''fail'', 0), (''error'', 0), (''skipped'', 0)]
            in (s', Some tally, ids)))"

definition build_close_receipt :: "close_result \<Rightarrow> string \<Rightarrow> actor_type \<Rightarrow> ptime \<Rightarrow> close_receipt" where
  "build_close_receipt r actor aty now =
     \<lparr>cr_version = 1, cr_period = clr_period r, cr_closed_at = now, cr_closed_by = actor,
      cr_actor_type = aty, cr_was_reclose = clr_was_reclose r, cr_entries_posted = clr_entries_posted r,
      cr_published_to_qb = clr_published r, cr_posted_locally = clr_local r,
      cr_target_auto_advanced = clr_auto_advanced r, cr_rule_summary = clr_rules r,
      cr_evaluated = clr_evaluated r, cr_stamped = sr_stamped (clr_stamp r),
      cr_stamp_note = sr_note (clr_stamp r), cr_stamped_sets = sr_sets (clr_stamp r),
      cr_statement_rules = sr_rules (clr_stamp r)\<rparr>"

subsection \<open>The close\<close>

definition liftF :: "fc_error + 'a \<Rightarrow> close_error + 'a" where
  "liftF r = (case r of Inl e \<Rightarrow> Inl (CalendarFailed e) | Inr x \<Rightarrow> Inr x)"

lemma liftF_eq_Inr [result_simps]: "liftF r = Inr x \<longleftrightarrow> r = Inr x"
  by (cases r) (simp_all add: liftF_def)

text \<open>Record a re-close of an older reopened period, or advance the pointer.\<close>

definition route_calendar ::
  "env \<Rightarrow> ledger \<Rightarrow> close_request \<Rightarrow> bool \<Rightarrow> string option \<Rightarrow> fc_error + ledger \<times> fiscal_calendar" where
  "route_calendar v s rq reclose note =
     bindR (if reclose
            then bindR (is_latest_sequential_close s (rq_graph rq) (get s (rq_graph rq)) (rq_period rq))
                   (\<lambda>latest. Inr (\<not> latest))
            else Inr False) (\<lambda>record.
     if record
     then record_reclose v s (rq_graph rq) (rq_period rq) (Some (rq_actor rq)) (rq_actor_type rq) note
     else advance_closed_through v s (rq_graph rq) (rq_period rq) (Some (rq_actor rq)) (rq_actor_type rq) note)"

text \<open>Stamp the statements, run the schedules' rules, and write the receipt on the period.\<close>

definition finish_close ::
  "world \<Rightarrow> close_request \<Rightarrow> pdate \<Rightarrow> pdate \<Rightarrow> bool \<Rightarrow> nat \<Rightarrow> nat \<Rightarrow> bool \<Rightarrow> fiscal_calendar \<Rightarrow> ledger \<Rightarrow>
   close_error + ledger \<times> close_result" where
  "finish_close w rq a b reclose published local_posts auto cal s =
     (case w_stamper w s a b of
        None \<Rightarrow> Inl StampFailed
      | Some (s1, stamp) \<Rightarrow>
          (let (s2, rules, ids) = evaluate_schedule_rules (w_run_rules w) s1 a b;
               r = \<lparr>clr_period = rq_period rq, clr_entries_posted = local_posts + published,
                    clr_auto_advanced = auto, clr_calendar = cal, clr_was_reclose = reclose,
                    clr_published = published, clr_local = local_posts, clr_rules = rules,
                    clr_evaluated = ids, clr_stamp = stamp\<rparr>
           in Inr (update_period (rq_graph rq) (rq_period rq) (\<lambda>x. x\<lparr>fp_receipt :=
                     Some (build_close_receipt r (rq_actor rq) (rq_actor_type rq) (env_now (w_env w)))\<rparr>) s2, r)))"

text \<open>Everything after the publication commit, under the row lock of the period.\<close>

definition close_database ::
  "world \<Rightarrow> close_request \<Rightarrow> gate_result \<Rightarrow> pdate \<Rightarrow> pdate \<Rightarrow> nat \<Rightarrow> ledger \<Rightarrow> close_error + ledger \<times> close_result" where
  "close_database w rq gate a b published s =
     (let v = w_env w; g = rq_graph rq; p = rq_period rq; opts = rq_options rq; now = env_now v in
      bindR (guardR (period_lock_free v) (PeriodRowLocked p)) (\<lambda>_.
      case fiscal_period_row s g p of
        None \<Rightarrow> Inl (NoPeriodRow p)
      | Some fp \<Rightarrow>
          bindR (guardR (fp_status fp \<noteq> PeriodClosed) (PeriodIsClosed p)) (\<lambda>_.
          let reclose = (fp_status fp = PeriodClosing);
              (s1, local_posts) = post_drafts now s a b;
              target_before = (case get s1 g of None \<Rightarrow> None | Some c \<Rightarrow> close_target c);
              note = audit_note (rq_note rq) (allow_stale_sync opts \<and> has_sync_connection opts)
                       (if allow_stranded opts then stranded_count gate else 0)
                       (if allow_reconciling opts then reconciling_count gate else 0)
          in bindR (liftF (route_calendar v s1 rq reclose note)) (\<lambda>(s2, cal).
             let auto = (target_before \<noteq> close_target cal \<and> close_target cal \<noteq> None);
                 s3 = update_period g p (\<lambda>r. r\<lparr>fp_status := PeriodClosed, fp_closed_at := Some now,
                        fp_closed_by := Some (rq_actor rq)\<rparr>) s2
             in finish_close w rq a b reclose published local_posts auto cal s3))))"

definition close :: "world \<Rightarrow> close_request \<Rightarrow> ledger \<Rightarrow> ledger \<times> (close_error + close_result)" where
  "close w rq s =
     (let g = rq_graph rq; p = rq_period rq in
      case closeable_gate s g p (env_today (w_env w)) (rq_options rq) of
        Inl e \<Rightarrow> (s, Inl (CalendarFailed e))
      | Inr gate \<Rightarrow>
          if \<not> is_closeable gate then (s, Inl (GateFailed gate))
          else case period_date_range p of
            Inl e \<Rightarrow> (s, Inl (CalendarFailed (BadPeriod e)))
          | Inr (a, b) \<Rightarrow>
              (case preflight_bs_check s a b of
                 Inl e \<Rightarrow> (s, Inl e)
               | Inr _ \<Rightarrow>
                   (case publish_drafts_to_qb (env_now (w_env w)) (w_conns w) (w_qb w) (w_unlocked w) s g a b of
                      (s1, Inl fails) \<Rightarrow> (s1, Inl (WritebackFailed fails))
                    | (s1, Inr n) \<Rightarrow>
                        (case close_database w rq gate a b n s1 of
                           Inl e \<Rightarrow> (s1, Inl e)
                         | Inr (s2, r) \<Rightarrow> (s2, Inr r)))))"

text \<open>The error code a refused close is reported with (\<open>close_outcomes.close_error_payload\<close>).\<close>

definition close_error_code :: "close_error \<Rightarrow> string" where
  "close_error_code e = (case e of
     GateFailed gate \<Rightarrow> if NoCalendar \<in> set (blockers gate) then ''calendar_not_initialized'' else ''not_closeable''
   | NoPeriodRow _ \<Rightarrow> ''period_not_found''
   | PeriodIsClosed _ \<Rightarrow> ''already_closed''
   | PeriodRowLocked _ \<Rightarrow> ''row_locked''
   | LedgerUnbalanced _ _ \<Rightarrow> ''unbalanced''
   | WritebackFailed _ \<Rightarrow> ''write_back_failed''
   | StampFailed \<Rightarrow> ''statement_stamp_failed''
   | CalendarFailed e \<Rightarrow> if e = RowLocked then ''row_locked'' else ''calendar_error'')"

subsection \<open>Reopening\<close>

datatype reopen_error =
    ReopenNotFound string
  | ReopenNotClosed string period_status
  | ReopenRowLocked string
  | ReopenCalendar fc_error

definition canonical_set :: "pdate \<Rightarrow> pdate \<Rightarrow> fact_set \<Rightarrow> bool" where
  "canonical_set a b f \<longleftrightarrow> fs_start f = a \<and> fs_end f = b \<and> fs_type f = ''report'' \<and>
     fs_report f = None \<and> fs_scenario f = None"

definition canonical_set_ids_in_window :: "ledger \<Rightarrow> pdate \<Rightarrow> pdate \<Rightarrow> string list" where
  "canonical_set_ids_in_window s a b = map fs_id (filter (canonical_set a b) (fact_sets s))"

definition has_canonical_statement_sets :: "ledger \<Rightarrow> pdate \<Rightarrow> pdate \<Rightarrow> bool" where
  "has_canonical_statement_sets s a b = (canonical_set_ids_in_window s a b \<noteq> [])"

text \<open>The facts of a deleted set go with it (\<open>ON DELETE CASCADE\<close>).\<close>

definition retract_canonical_statement_sets :: "ledger \<Rightarrow> pdate \<Rightarrow> pdate \<Rightarrow> ledger \<times> string list" where
  "retract_canonical_statement_sets s a b =
     (let ids = canonical_set_ids_in_window s a b in
      if ids = [] then (s, [])
      else (s\<lparr>verifications := filter (\<lambda>v. case vr_fact_set v of None \<Rightarrow> True | Some i \<Rightarrow> i \<notin> set ids) (verifications s),
              fact_sets := filter (\<lambda>f. fs_id f \<notin> set ids) (fact_sets s),
              facts := filter (\<lambda>f. fa_set f \<notin> set ids) (facts s)\<rparr>, ids))"

text \<open>The end of the closed range, from the schema's only calendar row.\<close>

definition calendar_closed_through_date :: "ledger \<Rightarrow> fc_error + pdate option" where
  "calendar_closed_through_date s = (case calendars s of
     [] \<Rightarrow> Inr None
   | c # _ \<Rightarrow> if \<not> truthy (closed_through c) then Inr None
       else bindR (liftP (period_date_range (the (closed_through c)))) (\<lambda>(_, b). Inr (Some b)))"

definition reinstate_after :: "ledger \<Rightarrow> pdate option \<Rightarrow> ledger \<times> nat" where
  "reinstate_after s through =
     (let hit = (\<lambda>f. fa_scope f = ''historical'' \<and>
            list_ex (\<lambda>st. st_id st = fa_structure f \<and> st_block_type st = ''schedule'') (structures s) \<and>
            (case through of None \<Rightarrow> True | Some d \<Rightarrow> d < fa_end f))
     in (s\<lparr>facts := update_where hit (\<lambda>f. f\<lparr>fa_scope := ''in_scope''\<rparr>) (facts s)\<rparr>,
         count_where hit (facts s)))"

definition reinstate_reopened_schedule_scopes :: "ledger \<Rightarrow> fc_error + ledger \<times> nat" where
  "reinstate_reopened_schedule_scopes s =
     bindR (calendar_closed_through_date s) (\<lambda>through. Inr (reinstate_after s through))"

definition reopen_under_fence ::
  "env \<Rightarrow> ledger \<Rightarrow> string \<Rightarrow> string \<Rightarrow> string \<Rightarrow> string option \<Rightarrow> actor_type \<Rightarrow> string option \<Rightarrow>
   reopen_error + ledger \<times> fiscal_calendar \<times> string list" where
  "reopen_under_fence v s g p reason actor aty note =
     bindR (guardR (period_lock_free v) (ReopenRowLocked p)) (\<lambda>_.
     case fiscal_period_row s g p of
       None \<Rightarrow> Inl (ReopenNotFound p)
     | Some fp \<Rightarrow>
         bindR (guardR (fp_status fp = PeriodClosed) (ReopenNotClosed p (fp_status fp))) (\<lambda>_.
         let s1 = update_period g p (\<lambda>r. r\<lparr>fp_status := PeriodClosing, fp_closed_at := None, fp_closed_by := None\<rparr>) s
         in case bindR (retreat_closed_through v s1 g p reason actor aty note) (\<lambda>(s2, c).
                 bindR (reinstate_reopened_schedule_scopes s2) (\<lambda>(s3, _).
                 bindR (liftP (period_date_range p)) (\<lambda>(a, b).
                 let (s4, ids) = retract_canonical_statement_sets s3 a b in Inr (s4, c, ids)))) of
              Inl e \<Rightarrow> Inl (ReopenCalendar e)
            | Inr x \<Rightarrow> Inr x))"

end
