(* ===== verification/CloseFacts.thy ===== *)
theory CloseFacts
  imports PeriodClose
begin

text \<open>
  What a close and a reopen do: publications are durable and at most once, a failed close
  leaves everything but them as it was, a successful one posts exactly the drafts of its
  period and balances, and a reopen retracts the statements but not the receipt.
\<close>

subsection \<open>Publication touches events and entries only\<close>

definition same_books :: "ledger \<Rightarrow> ledger \<Rightarrow> bool" where
  "same_books s s' \<longleftrightarrow> calendars s' = calendars s \<and> audit s' = audit s \<and> fperiods s' = fperiods s \<and>
     line_items s' = line_items s \<and> facts s' = facts s \<and> fact_sets s' = fact_sets s \<and>
     structures s' = structures s \<and> verifications s' = verifications s \<and>
     map ev_id (events s') = map ev_id (events s) \<and> map en_id (entries s') = map en_id (entries s)"

lemma same_books_refl [simp]: "same_books s s"
  by (simp add: same_books_def)

lemma same_books_trans: "same_books s t \<Longrightarrow> same_books t u \<Longrightarrow> same_books s u"
  by (simp add: same_books_def)

lemma same_books_put_event: "same_books s (put_event e s)"
  by (simp add: same_books_def put_event_def update_where_def)

lemma put_event_meta_id [simp]:
  "ev_id (meta_set k v e) = ev_id e" "ev_id (meta_pop k e) = ev_id e"
  by (simp_all add: meta_set_def meta_pop_def)

lemma find_event_put_other: "ev_id e \<noteq> i \<Longrightarrow> find_event (put_event e s) i = find_event s i"
proof -
  assume i: "ev_id e \<noteq> i"
  have "find_row (\<lambda>x. ev_id x = i) (update_where (\<lambda>x. ev_id x = ev_id e) (\<lambda>_. e) xs) =
      find_row (\<lambda>x. ev_id x = i) xs" for xs
    using i by (induction xs) auto
  then show ?thesis by (simp add: find_event_def put_event_def)
qed

lemma find_event_put_same:
  "find_event s (ev_id e) = Some e0 \<Longrightarrow> find_event (put_event e s) (ev_id e) = Some e"
proof -
  assume f: "find_event s (ev_id e) = Some e0"
  have "find_row (\<lambda>x. ev_id x = ev_id e) xs = Some e0 \<Longrightarrow>
      find_row (\<lambda>x. ev_id x = ev_id e) (update_where (\<lambda>x. ev_id x = ev_id e) (\<lambda>_. e) xs) = Some e" for xs
    by (induction xs) auto
  then show ?thesis using f by (simp add: find_event_def put_event_def)
qed

text \<open>The three outcomes of one publication.\<close>

lemma execute_cases:
  assumes "execute_event_block now conns qb unlocked free g acquire conn i s = Inr (s', r)"
  obtains (same) "s' = s"
  | (accepted) e c ids where "find_event s i = Some e" "ids \<noteq> []" "qb e = QbAccepted ids"
      "s' = accept_publication now c e ids s" "pr_status r = Fulfilled"
  | (rejected) e err where "find_event s i = Some e" "qb e = QbRejected err"
      "s' = reject_publication e err s" "pr_status r = EvPending"
proof -
  from assms obtain e where e: "find_event s i = Some e"
    by (auto simp: execute_event_block_def split: option.splits)
  with assms have "s' = s \<or> (\<exists>c. publish_via now conns qb g e c s = Inr (s', r))"
    by (auto simp: execute_event_block_def Let_def split: sum.splits if_splits)
  then show thesis
  proof
    assume "\<exists>c. publish_via now conns qb g e c s = Inr (s', r)"
    then obtain c where c: "publish_via now conns qb g e c s = Inr (s', r)" by blast
    then show thesis
      unfolding publish_via_def
      by (auto split: option.splits if_splits qb_reply.splits list.splits intro: same accepted [OF e] rejected [OF e])
  qed (rule same)
qed

lemma execute_reply:
  assumes "execute_event_block now conns qb unlocked free g acquire conn i s = Inr (s', r)"
  obtains (unchanged) e where "s' = s" "find_event s i = Some e" "pr_status r = ev_status e"
  | (accepted) "pr_status r = Fulfilled"
  | (rejected) e err where "find_event s i = Some e" "s' = reject_publication e err s"
proof -
  from assms obtain e where e: "find_event s i = Some e"
    by (auto simp: execute_event_block_def split: option.splits)
  with assms have "s' = s \<and> pr_status r = ev_status e \<or> (\<exists>c. publish_via now conns qb g e c s = Inr (s', r))"
    by (auto simp: execute_event_block_def Let_def unchanged_reply_def split: sum.splits if_splits)
  then show thesis
  proof
    assume "\<exists>c. publish_via now conns qb g e c s = Inr (s', r)"
    then obtain c where c: "publish_via now conns qb g e c s = Inr (s', r)" by blast
    then show thesis
      unfolding publish_via_def
      by (auto simp: unchanged_reply_def split: option.splits if_splits qb_reply.splits list.splits
          intro: unchanged [OF _ e] accepted rejected [OF e])
  qed (use e unchanged in blast)
qed

lemma find_event_id: "find_event s i = Some e \<Longrightarrow> ev_id e = i"
  unfolding find_event_def by (drule find_row_Some) simp

lemma accept_events: "events (accept_publication now c e ids s) =
    events (put_event ((meta_pop ''last_outbound_error''
                  (meta_set ''routed_via'' c (meta_set ''qb_external_id'' (join_with '','' ids) e)))
                \<lparr>ev_status := Fulfilled\<rparr>) s)"
  by (simp add: accept_publication_def Let_def)

lemma execute_same_books:
  assumes "execute_event_block now conns qb unlocked free g acquire conn i s = Inr (s', r)"
  shows "same_books s s'" "j \<noteq> i \<Longrightarrow> find_event s' j = find_event s j"
proof -
  have "same_books s s' \<and> (j \<noteq> i \<longrightarrow> find_event s' j = find_event s j)"
    using assms
  proof (cases rule: execute_cases)
    case same
    then show ?thesis by simp
  next
    case (accepted e c ids)
    have "find_event s' j = find_event s j" if "j \<noteq> i"
      using find_event_put_other [of _ j s] that find_event_id [OF accepted(1)]
      by (simp add: find_event_def accepted(4) accept_events)
    moreover have "same_books s s'"
      unfolding accepted(4) accept_publication_def Let_def
      by (simp add: same_books_def put_event_def update_where_def)
    ultimately show ?thesis by blast
  next
    case (rejected e err)
    then show ?thesis
      using same_books_put_event find_event_put_other [of _ j s] find_event_id [OF rejected(1)]
      by (simp add: reject_publication_def)
  qed
  then show "same_books s s'" "j \<noteq> i \<Longrightarrow> find_event s' j = find_event s j" by blast+
qed

lemma publish_each_frame:
  assumes "publish_each now conns qb unlocked g conn rows s = (s', fails)"
  shows "same_books s s'" "j \<notin> (ev_id \<circ> snd) ` set rows \<Longrightarrow> find_event s' j = find_event s j"
proof -
  have "same_books s s' \<and> (j \<notin> (ev_id \<circ> snd) ` set rows \<longrightarrow> find_event s' j = find_event s j)"
    using assms
  proof (induction rows arbitrary: s s' fails)
    case (Cons row rows)
    obtain en ev where row: "row = (en, ev)" by fastforce
    show ?case
    proof (cases "execute_event_block now conns qb unlocked (\<lambda>_. True) g False (Some conn) (ev_id ev) s")
      case (Inl err)
      with Cons.prems row obtain f where "publish_each now conns qb unlocked g conn rows s = (s', f)"
        by (auto split: prod.splits)
      from Cons.IH [OF this] row show ?thesis by auto
    next
      case (Inr x)
      obtain s1 r where x: "x = (s1, r)" by fastforce
      with Inr Cons.prems row obtain f where f: "publish_each now conns qb unlocked g conn rows s1 = (s', f)"
        by (auto split: prod.splits)
      from execute_same_books [OF Inr [unfolded x]] Cons.IH [OF f] row show ?thesis
        using same_books_trans by auto
    qed
  qed simp
  then show "same_books s s'" "j \<notin> (ev_id \<circ> snd) ` set rows \<Longrightarrow> find_event s' j = find_event s j" by blast+
qed

lemma publish_drafts_frame:
  "publish_drafts_to_qb now conns qb unlocked s g a b = (s', r) \<Longrightarrow> same_books s s'"
  by (auto simp: publish_drafts_to_qb_def Let_def dest: publish_each_frame(1)
      split: option.splits if_splits prod.splits)

lemma liftF_eq_Inl: "liftF r = Inl e \<longleftrightarrow> (\<exists>x. r = Inl x \<and> e = CalendarFailed x)"
  by (cases r) (auto simp: liftF_def)

lemma finish_close_error: "finish_close w rq a b rc n k auto cal s = Inl e \<longleftrightarrow> w_stamper w s a b = None \<and> e = StampFailed"
  by (auto simp: finish_close_def Let_def split: option.splits prod.splits)

lemma close_database_error:
  assumes "close_database w rq gate a b n s = Inl e"
  shows "e \<noteq> GateFailed g \<and> e \<noteq> LedgerUnbalanced d c"
  using assms unfolding close_database_def Let_def
  by (auto simp: bindR_eq_Inl guardR_eq_Inl liftF_eq_Inl finish_close_error split: option.splits prod.splits)


subsection \<open>A successful close\<close>

text \<open>The stamper and the rule engine write statements and results only.\<close>

definition keeps_books :: "ledger \<Rightarrow> ledger \<Rightarrow> bool" where
  "keeps_books s s' \<longleftrightarrow> calendars s' = calendars s \<and> audit s' = audit s \<and> fperiods s' = fperiods s \<and>
     entries s' = entries s \<and> line_items s' = line_items s \<and> events s' = events s"

definition quiet_world :: "world \<Rightarrow> bool" where
  "quiet_world w \<longleftrightarrow>
     (\<forall>s a b s' x. w_stamper w s a b = Some (s', x) \<longrightarrow> keeps_books s s') \<and>
     (\<forall>i s a b s' x. w_run_rules w i a b s = Some (s', x) \<longrightarrow> keeps_books s s')"

lemma keeps_books_refl [simp]: "keeps_books s s" by (simp add: keeps_books_def)

lemma keeps_books_trans: "keeps_books s t \<Longrightarrow> keeps_books t u \<Longrightarrow> keeps_books s u"
  by (simp add: keeps_books_def)

lemma evaluate_each_keeps:
  assumes "\<And>i s s' x. run i a b s = Some (s', x) \<Longrightarrow> keeps_books s s'"
  shows "keeps_books s (fst (evaluate_each run a b is s tally))"
proof (induction "is" arbitrary: s tally)
  case (Cons i "is")
  show ?case
  proof (cases "run i a b s")
    case (Some x)
    obtain t sts where x: "x = (t, sts)" by fastforce
    from keeps_books_trans [OF assms [OF Some [unfolded x]] Cons.IH] Some x show ?thesis by simp
  qed (simp add: Cons.IH)
qed simp

lemma evaluate_rules_keeps:
  assumes "quiet_world w"
  shows "keeps_books s (fst (evaluate_schedule_rules (w_run_rules w) s a b))"
  using evaluate_each_keeps [of "w_run_rules w" a b] assms
  by (auto simp: evaluate_schedule_rules_def Let_def quiet_world_def split: prod.splits)
    (metis fst_conv)

lemma finish_close_effect:
  assumes "finish_close w rq a b rc n k auto cal s = Inr (s', r)" "quiet_world w"
  shows "\<exists>t. keeps_books s t \<and>
    s' = update_period (rq_graph rq) (rq_period rq) (\<lambda>x. x\<lparr>fp_receipt :=
           Some (build_close_receipt r (rq_actor rq) (rq_actor_type rq) (env_now (w_env w)))\<rparr>) t \<and>
    clr_period r = rq_period rq \<and> clr_entries_posted r = k + n \<and> clr_calendar r = cal \<and> clr_was_reclose r = rc \<and>
    clr_published r = n \<and> clr_local r = k"
proof -
  from assms(1) obtain s1 stamp where st: "w_stamper w s a b = Some (s1, stamp)"
    by (auto simp: finish_close_def split: option.splits)
  obtain t rules ids where e: "evaluate_schedule_rules (w_run_rules w) s1 a b = (t, rules, ids)"
    by (cases "evaluate_schedule_rules (w_run_rules w) s1 a b") auto
  have "keeps_books s s1" using assms(2) st unfolding quiet_world_def by blast
  moreover have "keeps_books s1 t" using evaluate_rules_keeps [OF assms(2), of s1 a b] e by simp
  ultimately have "keeps_books s t" by (rule keeps_books_trans)
  then show ?thesis using assms(1) by (intro exI [of _ t]) (auto simp: finish_close_def st e Let_def)
qed

lemma route_calendar_frame:
  assumes "route_calendar v s rq rc nt = Inr (s', cal)"
  shows "calendar_frame (rq_graph rq) s s' \<and> get s' (rq_graph rq) = Some cal \<and>
    (\<not> rc \<longrightarrow> closed_through cal = Some (rq_period rq))"
proof -
  from assms consider "advance_closed_through v s (rq_graph rq) (rq_period rq) (Some (rq_actor rq)) (rq_actor_type rq) nt = Inr (s', cal)"
    | "rc" "record_reclose v s (rq_graph rq) (rq_period rq) (Some (rq_actor rq)) (rq_actor_type rq) nt = Inr (s', cal)"
    by (auto simp: route_calendar_def bindR_eq_Inr split: if_splits)
  then show ?thesis
  proof cases
    case 1
    from 1 obtain c where "get s (rq_graph rq) = Some c"
      by (auto simp: advance_closed_through_def bindR_eq_Inr require_locked_eq_Inr)
    from advance_closed_through_facts [OF 1 this] show ?thesis by blast
  next
    case 2
    from record_reclose_frame [OF 2(2)] 2(1) show ?thesis by blast
  qed
qed

lemma close_database_inversion:
  assumes "close_database w rq gate a b n s = Inr (s', r)"
  obtains fp s2 cal nt auto where
    "fiscal_period_row s (rq_graph rq) (rq_period rq) = Some fp" "fp_status fp \<noteq> PeriodClosed"
    "route_calendar (w_env w) (fst (post_drafts (env_now (w_env w)) s a b)) rq (fp_status fp = PeriodClosing) nt = Inr (s2, cal)"
    "finish_close w rq a b (fp_status fp = PeriodClosing) n (snd (post_drafts (env_now (w_env w)) s a b)) auto cal
       (update_period (rq_graph rq) (rq_period rq) (\<lambda>r. r\<lparr>fp_status := PeriodClosed,
          fp_closed_at := Some (env_now (w_env w)), fp_closed_by := Some (rq_actor rq)\<rparr>) s2) = Inr (s', r)"
  using assms unfolding close_database_def Let_def
  by (auto simp: bindR_eq_Inr guardR_eq_Inr liftF_eq_Inr split: option.splits prod.splits)

lemma find_row_update_where:
  "(\<And>x. P (f x) = P x) \<Longrightarrow> find_row P (update_where P f rows) = map_option f (find_row P rows)"
  by (induction rows) auto

lemma fiscal_period_row_update:
  "(\<And>x. fp_graph_id (f x) = fp_graph_id x \<and> fp_name (f x) = fp_name x) \<Longrightarrow>
   fiscal_period_row (update_period g p f s) g p = map_option f (fiscal_period_row s g p)"
  unfolding fiscal_period_row_def update_period_def by (simp add: find_row_update_where)

lemma update_period_tables [simp]:
  "entries (update_period g p f s) = entries s" "line_items (update_period g p f s) = line_items s"
  "events (update_period g p f s) = events s" "get (update_period g p f s) h = get s h"
  "calendars (update_period g p f s) = calendars s" "audit (update_period g p f s) = audit s"
  "facts (update_period g p f s) = facts s" "structures (update_period g p f s) = structures s"
  "fact_sets (update_period g p f s) = fact_sets s" "verifications (update_period g p f s) = verifications s"
  by (simp_all add: update_period_def get_def)

definition posted_now :: "ptime \<Rightarrow> entry \<Rightarrow> entry" where
  "posted_now now e = e\<lparr>en_status := EntryPosted, en_posted_at := Some now\<rparr>"

lemma close_database_effect:
  assumes "close_database w rq gate a b n s = Inr (s', r)" "quiet_world w"
  shows "entries s' = update_where (to_post s a b) (posted_now (env_now (w_env w))) (entries s) \<and>
    line_items s' = line_items s \<and> events s' = events s \<and>
    clr_local r = count_where (to_post s a b) (entries s) \<and> clr_published r = n \<and>
    clr_entries_posted r = clr_local r + n \<and>
    (\<exists>fp. fiscal_period_row s' (rq_graph rq) (rq_period rq) = Some fp \<and> fp_status fp = PeriodClosed \<and>
       fp_closed_by fp = Some (rq_actor rq) \<and>
       fp_receipt fp = Some (build_close_receipt r (rq_actor rq) (rq_actor_type rq) (env_now (w_env w)))) \<and>
    get s' (rq_graph rq) = Some (clr_calendar r) \<and>
    (\<not> clr_was_reclose r \<longrightarrow> closed_through (clr_calendar r) = Some (rq_period rq))"
proof -
  let ?now = "env_now (w_env w)" and ?g = "rq_graph rq" and ?p = "rq_period rq"
  from close_database_inversion [OF assms(1)] obtain fp s2 cal nt auto where
    fp: "fiscal_period_row s ?g ?p = Some fp" "fp_status fp \<noteq> PeriodClosed"
    and rt: "route_calendar (w_env w) (fst (post_drafts ?now s a b)) rq (fp_status fp = PeriodClosing) nt = Inr (s2, cal)"
    and fin: "finish_close w rq a b (fp_status fp = PeriodClosing) n (snd (post_drafts ?now s a b)) auto cal
       (update_period ?g ?p (\<lambda>r. r\<lparr>fp_status := PeriodClosed,
          fp_closed_at := Some ?now, fp_closed_by := Some (rq_actor rq)\<rparr>) s2) = Inr (s', r)" .
  let ?s1 = "fst (post_drafts ?now s a b)"
  let ?f = "\<lambda>r. r\<lparr>fp_status := PeriodClosed, fp_closed_at := Some ?now, fp_closed_by := Some (rq_actor rq)\<rparr>"
  have s1: "entries ?s1 = update_where (to_post s a b) (posted_now ?now) (entries s)"
    "line_items ?s1 = line_items s" "events ?s1 = events s" "fperiods ?s1 = fperiods s"
    "snd (post_drafts ?now s a b) = count_where (to_post s a b) (entries s)"
    by (simp_all add: post_drafts_def posted_now_def [abs_def])
  from route_calendar_frame [OF rt] have s2: "entries s2 = entries ?s1" "line_items s2 = line_items ?s1"
    "events s2 = events ?s1" "fperiods s2 = fperiods ?s1" "get s2 ?g = Some cal"
    "fp_status fp \<noteq> PeriodClosing \<longrightarrow> closed_through cal = Some ?p"
    by (auto simp: calendar_frame_def)
  from finish_close_effect [OF fin assms(2)] obtain t where
    t: "keeps_books (update_period ?g ?p ?f s2) t"
    "s' = update_period ?g ?p (\<lambda>x. x\<lparr>fp_receipt :=
           Some (build_close_receipt r (rq_actor rq) (rq_actor_type rq) ?now)\<rparr>) t"
    and r: "clr_entries_posted r = snd (post_drafts ?now s a b) + n" "clr_calendar r = cal"
      "clr_was_reclose r = (fp_status fp = PeriodClosing)" "clr_published r = n"
      "clr_local r = snd (post_drafts ?now s a b)" by blast
  have "fiscal_period_row t ?g ?p = fiscal_period_row (update_period ?g ?p ?f s2) ?g ?p"
    using t(1) by (simp add: keeps_books_def fiscal_period_row_def)
  also have "\<dots> = Some (?f fp)"
    using fp(1) s2(4) s1(4) by (simp add: fiscal_period_row_update) (simp add: fiscal_period_row_def)
  finally have row: "fiscal_period_row s' ?g ?p = Some ((?f fp)\<lparr>fp_receipt :=
      Some (build_close_receipt r (rq_actor rq) (rq_actor_type rq) ?now)\<rparr>)"
    unfolding t(2) by (simp add: fiscal_period_row_update)
  have "get t ?g = get s2 ?g" using t(1) by (simp add: keeps_books_def get_def)
  then have "get s' ?g = Some cal" using s2(5) by (simp add: t(2))
  moreover have "entries s' = entries s2" "line_items s' = line_items s2" "events s' = events s2"
    using t by (simp_all add: keeps_books_def)
  ultimately show ?thesis using row r s1 s2 by simp
qed

subsection \<open>Publications are durable and happen at most once\<close>

definition publishable :: "event \<Rightarrow> bool" where
  "publishable e \<longleftrightarrow> \<not> retracted (ev_status e) \<and> meta_get e ''publish_to_source'' \<noteq> Some ''false'' \<and>
     (meta_get e ''qb_external_id'' \<noteq> None \<longrightarrow> ev_status e = Fulfilled)"

definition all_posted :: "ledger \<Rightarrow> string \<Rightarrow> bool" where
  "all_posted s i \<longleftrightarrow> list_all (\<lambda>x. en_event x = Some i \<longrightarrow> en_status x = EntryPosted) (entries s)"

definition settled :: "event \<Rightarrow> ledger \<Rightarrow> bool" where
  "settled e s' \<longleftrightarrow> (\<exists>e'. find_event s' (ev_id e) = Some e' \<and> ev_status e' = Fulfilled \<and>
     (meta_get e' ''qb_external_id'' \<noteq> None \<and> all_posted s' (ev_id e) \<or> e' = e))"

lemma meta_get_set [simp]:
  "meta_get (meta_set k v e) j = (if j = k then Some v else meta_get e j)"
proof -
  have "map_of (filter (\<lambda>(j, _). j \<noteq> k) xs) j = (if j = k then None else map_of xs j)" for xs :: "(string \<times> string) list"
    by (induction xs) auto
  then show ?thesis by (simp add: meta_get_def meta_set_def)
qed

lemma meta_get_pop [simp]: "meta_get (meta_pop k e) j = (if j = k then None else meta_get e j)"
proof -
  have "map_of (filter (\<lambda>(j, _). j \<noteq> k) xs) j = (if j = k then None else map_of xs j)" for xs :: "(string \<times> string) list"
    by (induction xs) auto
  then show ?thesis by (simp add: meta_get_def meta_pop_def)
qed

lemma meta_get_status [simp]: "meta_get (e\<lparr>ev_status := st\<rparr>) k = meta_get e k"
  by (simp add: meta_get_def)

lemma find_event_accept:
  assumes "find_event s i = Some e"
  shows "\<exists>e'. find_event (accept_publication now c e ids s) i = Some e' \<and> ev_status e' = Fulfilled \<and>
    meta_get e' ''qb_external_id'' \<noteq> None \<and> publishable e' = (meta_get e ''publish_to_source'' \<noteq> Some ''false'')"
    "all_posted (accept_publication now c e ids s) i"
proof -
  let ?e = "(meta_pop ''last_outbound_error'' (meta_set ''routed_via'' c
      (meta_set ''qb_external_id'' (join_with '','' ids) e)))\<lparr>ev_status := Fulfilled\<rparr>"
  have i: "ev_id e = i" using assms by (rule find_event_id)
  have f: "find_event (accept_publication now c e ids s) i = Some ?e"
    using find_event_put_same [of s ?e e] assms i by (simp add: find_event_def accept_events)
  show "\<exists>e'. find_event (accept_publication now c e ids s) i = Some e' \<and> ev_status e' = Fulfilled \<and>
    meta_get e' ''qb_external_id'' \<noteq> None \<and> publishable e' = (meta_get e ''publish_to_source'' \<noteq> Some ''false'')"
    by (rule exI [of _ ?e]) (simp add: f publishable_def retracted_def)
  show "all_posted (accept_publication now c e ids s) i"
    using i by (auto simp: all_posted_def accept_publication_def Let_def update_where_def list_all_iff)
qed

lemma find_event_reject:
  assumes "find_event s i = Some e" "publishable e" "ev_status e \<noteq> Fulfilled"
  shows "\<exists>e'. find_event (reject_publication e err s) i = Some e' \<and> publishable e'"
proof -
  let ?e = "(meta_set ''last_outbound_error'' err e)\<lparr>ev_status := EvPending\<rparr>"
  have "find_event (reject_publication e err s) i = Some ?e"
    using find_event_put_same [of s ?e e] assms(1) find_event_id [OF assms(1)] by (simp add: reject_publication_def)
  moreover have "publishable ?e" using assms(2,3) by (auto simp: publishable_def retracted_def)
  ultimately show ?thesis by blast
qed

lemma execute_all_posted:
  assumes "execute_event_block now conns qb unlocked free g acquire conn i s = Inr (s', r)" "all_posted s j"
  shows "all_posted s' j"
  using assms(1)
proof (cases rule: execute_cases)
  case (accepted e c ids)
  then show ?thesis using assms(2)
    by (auto simp: all_posted_def list_all_iff accept_publication_def Let_def update_where_def put_event_def)
next
  case (rejected e err)
  then show ?thesis using assms(2) by (simp add: all_posted_def reject_publication_def put_event_def)
qed (use assms(2) in simp)

text \<open>A fulfilled event is left as it is, whatever the world is.\<close>

lemma execute_fulfilled:
  assumes "execute_event_block now conns qb unlocked free g acquire conn i s = Inr (s', r)"
    "find_event s i = Some e" "ev_status e = Fulfilled"
  shows "s' = s"
  using assms by (auto simp: execute_event_block_def Let_def split: if_splits sum.splits option.splits)

text \<open>A usable connection: the one a write-back resolves to.\<close>

definition writeback_connection :: "connection list \<Rightarrow> string \<Rightarrow> string \<Rightarrow> bool" where
  "writeback_connection conns g i \<longleftrightarrow> truthy (Some i) \<and> (\<exists>c. find_row (\<lambda>c. cn_id c = i \<and> \<not> cn_deleted c) conns = Some c \<and>
     cn_graph c = g \<and> cn_provider c = ''quickbooks'' \<and> cn_policy c \<noteq> ''native'')"

lemma execute_settles:
  assumes x: "execute_event_block now conns qb unlocked free g False (Some c) i s = Inr (s', r)"
    and e: "find_event s i = Some e" "publishable e"
    and c: "writeback_connection conns g c"
    and r: "pr_status r \<noteq> EvPending"
  shows "settled e s'"
proof (cases "ev_status e = Fulfilled")
  case True
  from execute_fulfilled [OF x e(1) True] show ?thesis
    using e(1) True find_event_id [OF e(1)] by (auto simp: settled_def)
next
  case False
  then have q: "meta_get e ''qb_external_id'' = None" using e(2) by (auto simp: publishable_def)
  from c obtain k where k: "find_row (\<lambda>d. cn_id d = c \<and> \<not> cn_deleted d) conns = Some k"
      "cn_graph k = g" "cn_provider k = ''quickbooks''" "cn_policy k \<noteq> ''native''" "truthy (Some c)"
    by (auto simp: writeback_connection_def)
  have "publish_via now conns qb g e c s = Inr (s', r)"
    using x e q False k(5) unfolding execute_event_block_def Let_def
    by (auto simp: publishable_def truthy_def str_or_def split: if_splits)
  then obtain ids where s': "s' = accept_publication now c e ids s"
    using k r by (auto simp: publish_via_def split: if_splits qb_reply.splits list.splits)
  from find_event_accept(1) [OF e(1), of now c ids] obtain e' where
    "find_event s' i = Some e'" "ev_status e' = Fulfilled" "meta_get e' ''qb_external_id'' \<noteq> None"
    unfolding s' by blast
  moreover have "all_posted s' i" unfolding s' by (rule find_event_accept(2) [OF e(1)])
  ultimately show ?thesis
    using find_event_id [OF e(1)] unfolding settled_def by blast
qed

lemma execute_publishable:
  assumes "execute_event_block now conns qb unlocked free g acquire conn i s = Inr (s', r)"
    "find_event s j = Some e" "publishable e"
  shows "\<exists>e'. find_event s' j = Some e' \<and> publishable e' \<and>
    (ev_status e = Fulfilled \<longrightarrow> e' = e) \<and> (e' = e \<or> meta_get e' ''qb_external_id'' \<noteq> None \<and> all_posted s' j \<or> ev_status e' = EvPending)"
proof (cases "j = i \<and> ev_status e \<noteq> Fulfilled")
  case False
  then have "find_event s' j = Some e"
    using execute_same_books(2) [OF assms(1), of j] execute_fulfilled [OF assms(1)] assms(2) by auto
  with assms(3) show ?thesis by blast
next
  case True
  then have j: "j = i" "ev_status e \<noteq> Fulfilled" by blast+
  from assms(1) show ?thesis
  proof (cases rule: execute_cases)
    case same
    with assms(2,3) show ?thesis by blast
  next
    case (accepted e0 c ids)
    with assms(2) j have e0: "e0 = e" by simp
    from find_event_accept [OF accepted(1), of now c ids] assms(3) j show ?thesis
      unfolding accepted(4) e0 publishable_def by blast
  next
    case (rejected e0 err)
    with assms(2) j have e0: "e0 = e" by simp
    have "find_event s' i = Some ((meta_set ''last_outbound_error'' err e)\<lparr>ev_status := EvPending\<rparr>)"
      using find_event_put_same [of s "(meta_set ''last_outbound_error'' err e)\<lparr>ev_status := EvPending\<rparr>" e]
        rejected(1,3) e0 find_event_id [OF rejected(1)]
      by (simp add: reject_publication_def)
    moreover have "publishable ((meta_set ''last_outbound_error'' err e)\<lparr>ev_status := EvPending\<rparr>)"
      using assms(3) j(2) by (auto simp: publishable_def retracted_def)
    ultimately show ?thesis using j by simp
  qed
qed

lemma settled_step:
  assumes "execute_event_block now conns qb unlocked free g acquire conn i s1 = Inr (s2, r)" "settled e s1"
  shows "settled e s2"
proof -
  from assms(2) obtain e' where e': "find_event s1 (ev_id e) = Some e'" "ev_status e' = Fulfilled"
    "meta_get e' ''qb_external_id'' \<noteq> None \<and> all_posted s1 (ev_id e) \<or> e' = e"
    unfolding settled_def by blast
  have "find_event s2 (ev_id e) = Some e'"
    using execute_same_books(2) [OF assms(1), of "ev_id e"] execute_fulfilled [OF assms(1)] e'(1,2)
    by (cases "ev_id e = i") auto
  with e' execute_all_posted [OF assms(1)] show ?thesis unfolding settled_def by blast
qed

lemma publish_each_keeps_settled:
  "publish_each now conns qb unlocked g c rows s1 = (s2, fails) \<Longrightarrow> settled e s1 \<Longrightarrow> settled e s2"
proof (induction rows arbitrary: s1 s2 fails)
  case (Cons row rows)
  obtain en ev where row: "row = (en, ev)" by fastforce
  show ?case
  proof (cases "execute_event_block now conns qb unlocked (\<lambda>_. True) g False (Some c) (ev_id ev) s1")
    case (Inl err)
    with Cons.prems(1) row obtain f where "publish_each now conns qb unlocked g c rows s1 = (s2, f)"
      by (auto split: prod.splits)
    from Cons.IH [OF this Cons.prems(2)] show ?thesis .
  next
    case (Inr x)
    obtain t r where x: "x = (t, r)" by fastforce
    with Inr Cons.prems(1) row obtain f where f: "publish_each now conns qb unlocked g c rows t = (s2, f)"
      by (auto split: prod.splits)
    from Cons.IH [OF f settled_step [OF Inr [unfolded x] Cons.prems(2)]] show ?thesis .
  qed
qed simp

text \<open>What the loop knows of an event it has yet to publish, or has met before.\<close>

definition tracked :: "ledger \<Rightarrow> event \<Rightarrow> bool" where
  "tracked s ev \<longleftrightarrow> (\<exists>e. find_event s (ev_id ev) = Some e \<and> publishable e \<and>
     (e = ev \<or> meta_get e ''qb_external_id'' \<noteq> None \<and> all_posted s (ev_id ev) \<or> ev_status e = EvPending))"

lemma tracked_step:
  assumes "execute_event_block now conns qb unlocked free g acquire conn i s = Inr (s', r)" "tracked s ev"
  shows "tracked s' ev"
proof -
  from assms(2) obtain e where e: "find_event s (ev_id ev) = Some e" "publishable e"
    "e = ev \<or> meta_get e ''qb_external_id'' \<noteq> None \<and> all_posted s (ev_id ev) \<or> ev_status e = EvPending"
    unfolding tracked_def by blast
  from execute_publishable [OF assms(1) e(1,2)] e(3) execute_all_posted [OF assms(1)]
  show ?thesis unfolding tracked_def by blast
qed

lemma tracked_settles:
  assumes x: "execute_event_block now conns qb unlocked free g False (Some c) (ev_id ev) s = Inr (s', r)"
    and "tracked s ev" "writeback_connection conns g c" "pr_status r \<noteq> EvPending"
  shows "settled ev s'"
proof -
  from assms(2) obtain e where e: "find_event s (ev_id ev) = Some e" "publishable e"
    "e = ev \<or> meta_get e ''qb_external_id'' \<noteq> None \<and> all_posted s (ev_id ev) \<or> ev_status e = EvPending"
    unfolding tracked_def by blast
  from execute_settles [OF x e(1,2) assms(3,4)] obtain e' where
    e': "find_event s' (ev_id e) = Some e'" "ev_status e' = Fulfilled"
    "meta_get e' ''qb_external_id'' \<noteq> None \<and> all_posted s' (ev_id e) \<or> e' = e"
    unfolding settled_def by blast
  then show ?thesis
    using e(3) execute_all_posted [OF x] find_event_id [OF e(1)] unfolding settled_def by auto
qed

lemma publish_each_settles:
  assumes "publish_each now conns qb unlocked g c rows s = (s', fails)" "writeback_connection conns g c"
    "\<forall>(en, ev)\<in>set rows. tracked s ev" "(en, ev) \<in> set rows" "(ev_id ev, en_id en) \<notin> set fails"
  shows "settled ev s'"
  using assms
proof (induction rows arbitrary: s s' fails)
  case (Cons row rows)
  obtain en0 ev0 where row: "row = (en0, ev0)" by fastforce
  show ?case
  proof (cases "execute_event_block now conns qb unlocked (\<lambda>_. True) g False (Some c) (ev_id ev0) s")
    case (Inl err)
    with Cons.prems(1) row obtain f where f: "publish_each now conns qb unlocked g c rows s = (s', f)"
        "fails = (ev_id ev0, en_id en0) # f"
      by (auto split: prod.splits)
    with Cons.prems row Cons.IH [OF f(1) Cons.prems(2)] show ?thesis by auto
  next
    case (Inr x)
    obtain t r where x: "x = (t, r)" by fastforce
    note step = Inr [unfolded x]
    with Inr Cons.prems(1) row obtain f where f: "publish_each now conns qb unlocked g c rows t = (s', f)"
        "fails = (if pr_status r = EvPending then (ev_id ev0, en_id en0) # f else f)"
      by (auto split: prod.splits)
    have tr: "\<forall>(en, ev)\<in>set rows. tracked t ev"
      using Cons.prems(3) tracked_step [OF step] by auto
    show ?thesis
    proof (cases "(en, ev) \<in> set rows")
      case True
      from Cons.IH [OF f(1) Cons.prems(2) tr True] f(2) Cons.prems(5) show ?thesis
        by (auto simp: settled_def split: if_splits)
    next
      case False
      with Cons.prems(4) row have eq: "en = en0" "ev = ev0" by simp_all
      with f(2) Cons.prems(5) have "pr_status r \<noteq> EvPending" by auto
      from tracked_settles [OF step _ Cons.prems(2) this] Cons.prems(3) row eq
      have "settled ev t" by (simp add: settled_def)
      from publish_each_keeps_settled [OF f(1) this] show ?thesis by (simp add: settled_def)
    qed
  qed
qed simp

lemma distinct_find_event:
  "distinct (map ev_id (events s)) \<Longrightarrow> e \<in> set (events s) \<Longrightarrow> find_event s (ev_id e) = Some e"
proof -
  have "distinct (map ev_id xs) \<Longrightarrow> e \<in> set xs \<Longrightarrow> find_row (\<lambda>x. ev_id x = ev_id e) xs = Some e" for xs
    by (induction xs) force+
  then show "distinct (map ev_id (events s)) \<Longrightarrow> e \<in> set (events s) \<Longrightarrow> find_event s (ev_id e) = Some e"
    by (simp add: find_event_def)
qed

lemma resolved_connection:
  assumes "resolve_writeback_connection conns g = Some c" "distinct (map cn_id conns)" "cn_id c \<noteq> []"
  shows "writeback_connection conns g (cn_id c)"
proof -
  let ?P = "\<lambda>c. cn_graph c = g \<and> cn_provider c = ''quickbooks'' \<and>
             (cn_policy c = ''qb_authoritative'' \<or> cn_policy c = ''hybrid'') \<and> \<not> cn_deleted c"
  from assms(1) obtain x xs where x: "sort_key cn_created (filter ?P conns) = x # xs" "c = last (x # xs)"
    by (auto simp: resolve_writeback_connection_def split: list.splits)
  then have "c \<in> set (sort_key cn_created (filter ?P conns))" by simp
  then have c: "c \<in> set conns" "?P c" by simp_all
  have "distinct (map cn_id xs) \<Longrightarrow> c \<in> set xs \<Longrightarrow> find_row (\<lambda>d. cn_id d = cn_id c \<and> \<not> cn_deleted d) xs = Some c" for xs
    using c(2) by (induction xs) force+
  with assms(2,3) c show ?thesis by (auto simp: writeback_connection_def truthy_def)
qed


end
