(* ===== verification/CloseResults.thy ===== *)
theory CloseResults
  imports CloseFacts
begin

text \<open>
  The results of closing and reopening a period (\<open>PeriodCloseService.close\<close>,
  \<open>_reopen_under_fence\<close>): the books after a successful close, how they balance, what its
  counts mean, what a rejected publication does to the next attempt, and what a reopen keeps.
\<close>

subsection \<open>A successful close without a write-back connection\<close>

lemma close_inversion:
  assumes "close w rq s = (s', Inr r)"
  obtains gate a b s1 n where "closeable_gate s (rq_graph rq) (rq_period rq) (env_today (w_env w)) (rq_options rq) = Inr gate"
    "is_closeable gate" "period_date_range (rq_period rq) = Inr (a, b)" "preflight_bs_check s a b = Inr ()"
    "publish_drafts_to_qb (env_now (w_env w)) (w_conns w) (w_qb w) (w_unlocked w) s (rq_graph rq) a b = (s1, Inr n)"
    "close_database w rq gate a b n s1 = Inr (s', r)"
  using assms unfolding close_def Let_def by (auto split: sum.splits if_splits prod.splits)

lemma close_local_inversion:
  assumes "close w rq s = (s', Inr r)" "resolve_writeback_connection (w_conns w) (rq_graph rq) = None"
    "period_date_range (rq_period rq) = Inr (a, b)"
  obtains gate where "preflight_bs_check s a b = Inr ()" "close_database w rq gate a b 0 s = Inr (s', r)"
  using assms by (elim close_inversion) (auto simp: publish_drafts_to_qb_def)


subsection \<open>The balance of the closed period\<close>

lemma period_totals_update:
  assumes "\<And>e. en_id (f e) = en_id e"
  shows "period_debits P (s\<lparr>entries := update_where Q f (entries s)\<rparr>) = period_debits (\<lambda>e. P (if Q e then f e else e)) s"
    "period_credits P (s\<lparr>entries := update_where Q f (entries s)\<rparr>) = period_credits (\<lambda>e. P (if Q e then f e else e)) s"
proof -
  have "(\<Sum>e\<leftarrow>update_where Q f es. if en_id e = i \<and> P e then v else (0::int)) =
      (\<Sum>e\<leftarrow>es. if en_id e = i \<and> P (if Q e then f e else e) then v else 0)" for es i v
    by (induction es) (auto simp: update_where_def assms)
  then show "period_debits P (s\<lparr>entries := update_where Q f (entries s)\<rparr>) = period_debits (\<lambda>e. P (if Q e then f e else e)) s"
    "period_credits P (s\<lparr>entries := update_where Q f (entries s)\<rparr>) = period_credits (\<lambda>e. P (if Q e then f e else e)) s"
    by (simp_all add: period_debits_def period_credits_def)
qed

lemma period_totals_split:
  assumes "\<And>e. P e \<longleftrightarrow> A e \<or> B e" "\<And>e. \<not> (A e \<and> B e)"
  shows "period_debits P s = period_debits A s + period_debits B s"
    "period_credits P s = period_credits A s + period_credits B s"
proof -
  have "(if en_id e = i \<and> P e then v else (0::int)) =
      (if en_id e = i \<and> A e then v else 0) + (if en_id e = i \<and> B e then v else 0)" for e i v
    using assms by auto
  then show "period_debits P s = period_debits A s + period_debits B s"
    "period_credits P s = period_credits A s + period_credits B s"
    by (simp_all add: period_debits_def period_credits_def sum_list_addf)
qed

lemma period_totals_cong:
  "entries s = entries t \<Longrightarrow> line_items s = line_items t \<Longrightarrow> period_debits P s = period_debits P t"
  "entries s = entries t \<Longrightarrow> line_items s = line_items t \<Longrightarrow> period_credits P s = period_credits P t"
  by (simp_all add: period_debits_def period_credits_def)

lemma preflight_balanced:
  assumes "preflight_bs_check s a b = Inr ()"
  shows "period_debits (\<lambda>e. posts_in a b e \<and> (en_status e = EntryDraft \<or> en_status e = EntryPosted)) s =
    period_credits (\<lambda>e. posts_in a b e \<and> (en_status e = EntryDraft \<or> en_status e = EntryPosted)) s"
proof (rule ccontr)
  assume "\<not> ?thesis"
  then show False using assms by (simp add: preflight_bs_check_def Let_def)
qed

definition in_books :: "pdate \<Rightarrow> pdate \<Rightarrow> entry \<Rightarrow> bool" where
  "in_books a b e \<longleftrightarrow> posts_in a b e \<and> en_status e = EntryPosted"

definition left_behind :: "ledger \<Rightarrow> pdate \<Rightarrow> pdate \<Rightarrow> entry \<Rightarrow> bool" where
  "left_behind s a b e \<longleftrightarrow> posts_in a b e \<and> en_status e = EntryDraft \<and> retracted_event s e"


subsection \<open>What the counts of a close mean\<close>

lemma publish_each_fulfilled:
  assumes "publish_each now conns qb unlocked g c rows s = (s', fails)"
    "\<forall>(en, ev)\<in>set rows. \<exists>e. find_event s (ev_id ev) = Some e \<and> ev_status e = Fulfilled"
  shows "s' = s"
  using assms
proof (induction rows arbitrary: s' fails)
  case (Cons row rows)
  obtain en ev e where row: "row = (en, ev)" "find_event s (ev_id ev) = Some e" "ev_status e = Fulfilled"
    using Cons.prems(2) by fastforce
  have IH: "publish_each now conns qb unlocked g c rows s = (t, f) \<Longrightarrow> t = s" for t f
    using Cons.IH Cons.prems(2) by simp
  show ?case
  proof (cases "execute_event_block now conns qb unlocked (\<lambda>_. True) g False (Some c) (ev_id ev) s")
    case (Inl err)
    with Cons.prems(1) row(1) IH show ?thesis by (auto split: prod.splits)
  next
    case (Inr x)
    obtain t r where x: "x = (t, r)" by fastforce
    from execute_fulfilled [OF Inr [unfolded x] row(2,3)] Inr x Cons.prems(1) row(1) IH show ?thesis
      by (auto split: prod.splits)
  qed
qed simp

text \<open>
  A draft of an event that is already fulfilled and has no QuickBooks id (the draft of
  an asset disposal) is selected for publication but never published: whatever QuickBooks
  would reply, a close in which every selected draft is of that kind counts all of them as
  published, then posts them itself and counts them again.
\<close>

theorem fulfilled_drafts_counted_twice:
  assumes "close w rq s = (s', Inr r)" "quiet_world w" "period_date_range (rq_period rq) = Inr (a, b)"
    "resolve_writeback_connection (w_conns w) (rq_graph rq) \<noteq> None"
    "distinct (map ev_id (events s))"
    "\<forall>(en, ev)\<in>set (select_writeback_eligible_entries s a b). ev_status ev = Fulfilled"
  shows "events s' = events s \<and>
    clr_published r = length (select_writeback_eligible_entries s a b) \<and>
    clr_entries_posted r = count_where (to_post s a b) (entries s) + length (select_writeback_eligible_entries s a b) \<and>
    (\<forall>(en, ev)\<in>set (select_writeback_eligible_entries s a b). en \<in> set (entries s) \<and> to_post s a b en)"
proof -
  let ?rows = "select_writeback_eligible_entries s a b"
  obtain gate s1 n where
    p: "publish_drafts_to_qb (env_now (w_env w)) (w_conns w) (w_qb w) (w_unlocked w) s (rq_graph rq) a b = (s1, Inr n)"
    and db: "close_database w rq gate a b n s1 = Inr (s', r)"
    using assms(1,3) by (elim close_inversion) auto
  have row: "en \<in> set (entries s)" "ev \<in> set (events s)" "posts_in a b en" "writeback_eligible en ev"
    if "(en, ev) \<in> set ?rows" for en ev
    using that by (auto simp: select_writeback_eligible_entries_def)
  have ev: "\<forall>(en, ev)\<in>set ?rows. \<exists>e. find_event s (ev_id ev) = Some e \<and> ev_status e = Fulfilled"
    using distinct_find_event [OF assms(5)] row(2) assms(6) by fastforce
  have "s1 = s \<and> n = length ?rows"
    using p assms(4) publish_each_fulfilled [OF _ ev]
    by (auto simp: publish_drafts_to_qb_def Let_def split: option.splits if_splits prod.splits)
  moreover have "to_post s a b en" if r: "(en, ev) \<in> set ?rows" for en ev
  proof -
    from row [OF r] have "\<not> retracted (ev_status x)" if "x \<in> set (events s)" "ev_id x = ev_id ev" for x
      using that assms(5) eq_key_imp_eq_value [of "map (\<lambda>e. (ev_id e, e)) (events s)"]
      by (metis distinct_find_event option.inject writeback_eligible_def)
    with row [OF r] show ?thesis
      by (auto simp: to_post_def retracted_event_def writeback_eligible_def list_ex_iff)
  qed
  ultimately show ?thesis using close_database_effect [OF db assms(2)] row(1) by auto
qed

subsection \<open>The attempt after a rejection\<close>

text \<open>
  A publication QuickBooks rejects leaves its event pending, and a pending obligation
  due by the end of the period blocks the close gate whatever the caller waives: a close
  that failed on such a rejection cannot be run again until the obligation is promoted.
\<close>

theorem rejected_publication_blocks_the_retry:
  assumes "execute_event_block now conns qb unlocked free g acquire conn i s = Inr (s', r)"
    "pr_status r = EvPending" "find_event s' i = Some e" "ev_type e = ''schedule_entry_due''"
    "ev_occurred_at e \<le> end_of_day b" "period_date_range p = Inr (a, b)"
    "get s' g = Some c" "closeable_gate s' g p today opts = Inr gate"
  shows "PendingObligations \<in> set (blockers gate) \<and> \<not> is_closeable gate \<and> 0 < pending_count gate"
proof -
  from gate_parts [OF assms(8,7,6)] obtain b1 where
    g: "blockers gate = b1 @ closed_gate s' g c p @ (if today \<le> b then [PeriodIncomplete] else []) @ fst (sync_gate opts b) @
      (if filter (matured EvPending (end_of_day b)) (events s') \<noteq> [] then [PendingObligations] else []) @
      (if find_stranded_obligations s' (end_of_day b) \<noteq> [] \<and> \<not> allow_stranded opts then [StrandedObligations] else []) @
      (if find_unresolved_reconciling_items s' b \<noteq> [] \<and> \<not> allow_reconciling opts then [ReconcilingItems] else [])"
    "is_closeable gate = (blockers gate = [])"
    "pending_count gate = length (filter (matured EvPending (end_of_day b)) (events s'))" .
  have "ev_status e = EvPending"
    using assms(1)
  proof (cases rule: execute_reply)
    case unchanged
    with assms(2,3) show ?thesis by auto
  next
    case (rejected e0 err)
    with find_event_put_same [of s "(meta_set ''last_outbound_error'' err e0)\<lparr>ev_status := EvPending\<rparr>" e0]
      find_event_id [OF rejected(1)] assms(3)
    show ?thesis by (auto simp: reject_publication_def)
  next
    case accepted
    with assms(2) show ?thesis by simp
  qed
  moreover have "e \<in> set (events s')" using assms(3) unfolding find_event_def by (auto dest: find_row_Some)
  ultimately have "e \<in> set (filter (matured EvPending (end_of_day b)) (events s'))"
    using assms(4,5) by (simp add: matured_def)
  then have "filter (matured EvPending (end_of_day b)) (events s') \<noteq> []" by (metis empty_iff empty_set)
  with g show ?thesis by simp
qed

subsection \<open>Reopening\<close>

lemma reopen_inversion:
  assumes "reopen_under_fence v s g p reason actor aty nt = Inr (s', c, ids)" "period_date_range p = Inr (a, b)"
  obtains fp s2 through where
    "fiscal_period_row s g p = Some fp" "fp_status fp = PeriodClosed"
    "retreat_closed_through v (update_period g p (\<lambda>r. r\<lparr>fp_status := PeriodClosing, fp_closed_at := None,
       fp_closed_by := None\<rparr>) s) g p reason actor aty nt = Inr (s2, c)"
    "calendar_closed_through_date s2 = Inr through"
    "(s', ids) = retract_canonical_statement_sets (fst (reinstate_after s2 through)) a b"
  using assms unfolding reopen_under_fence_def Let_def reinstate_reopened_schedule_scopes_def
  by (auto simp: bindR_eq_Inr guardR_eq_Inr liftP_eq_Inr case_prod_beta prod_eq_iff split: option.splits sum.splits)

lemma reinstate_after_tables [simp]:
  "fact_sets (fst (reinstate_after s t)) = fact_sets s" "fperiods (fst (reinstate_after s t)) = fperiods s"
  "entries (fst (reinstate_after s t)) = entries s" "events (fst (reinstate_after s t)) = events s"
  "line_items (fst (reinstate_after s t)) = line_items s" "calendars (fst (reinstate_after s t)) = calendars s"
  by (simp_all add: reinstate_after_def Let_def)

lemma retract_effect:
  assumes "(s', ids) = retract_canonical_statement_sets s a b"
  shows "ids = canonical_set_ids_in_window s a b \<and> fact_sets s' = filter (\<lambda>f. fs_id f \<notin> set ids) (fact_sets s) \<and>
    facts s' = filter (\<lambda>f. fa_set f \<notin> set ids) (facts s) \<and> \<not> has_canonical_statement_sets s' a b \<and>
    entries s' = entries s \<and> line_items s' = line_items s \<and> events s' = events s \<and> fperiods s' = fperiods s \<and>
    calendars s' = calendars s"
proof -
  have "canonical_set_ids_in_window s a b = [] \<Longrightarrow> ?thesis"
    using assms by (simp add: retract_canonical_statement_sets_def Let_def has_canonical_statement_sets_def)
  moreover have "?thesis" if ne: "canonical_set_ids_in_window s a b \<noteq> []"
  proof -
    have ids: "ids = canonical_set_ids_in_window s a b" and fs: "fact_sets s' = filter (\<lambda>f. fs_id f \<notin> set ids) (fact_sets s)"
      and rest: "facts s' = filter (\<lambda>f. fa_set f \<notin> set ids) (facts s)" "entries s' = entries s" "line_items s' = line_items s"
        "events s' = events s" "fperiods s' = fperiods s" "calendars s' = calendars s"
      using assms ne by (simp_all add: retract_canonical_statement_sets_def Let_def)
    have "\<not> has_canonical_statement_sets s' a b"
      by (auto simp: has_canonical_statement_sets_def canonical_set_ids_in_window_def fs ids filter_empty_conv)
    with ids fs rest show ?thesis by blast
  qed
  ultimately show ?thesis by blast
qed

text \<open>
  Reopening a closed period sets it to closing, so that the gate's sequence and
  already-closed checks no longer apply to it, and removes exactly its canonical statement
  sets with their facts; every entry, line and event stays as the close left it, and so does
  the receipt of the close, although no closing time stands beside it any more.
\<close>

theorem reopen_effect:
  assumes "reopen_under_fence v s g p reason actor aty nt = Inr (s', c, ids)" "period_date_range p = Inr (a, b)"
  shows "\<exists>fp. fiscal_period_row s g p = Some fp \<and> fp_status fp = PeriodClosed \<and>
    fiscal_period_row s' g p = Some (fp\<lparr>fp_status := PeriodClosing, fp_closed_at := None, fp_closed_by := None\<rparr>) \<and>
    is_reclose s' g p \<and> sequence_gate s' g c p = Inr [] \<and> closed_gate s' g c p = [] \<and>
    entries s' = entries s \<and> line_items s' = line_items s \<and> events s' = events s \<and>
    get s' g = Some c \<and> \<not> has_canonical_statement_sets s' a b \<and>
    ids = canonical_set_ids_in_window s a b \<and> fact_sets s' = filter (\<lambda>f. fs_id f \<notin> set ids) (fact_sets s)"
proof -
  let ?f = "\<lambda>r. r\<lparr>fp_status := PeriodClosing, fp_closed_at := None, fp_closed_by := None\<rparr>"
  from reopen_inversion [OF assms] obtain fp s2 through where
    fp: "fiscal_period_row s g p = Some fp" "fp_status fp = PeriodClosed"
    and rt: "retreat_closed_through v (update_period g p ?f s) g p reason actor aty nt = Inr (s2, c)"
    and rs: "(s', ids) = retract_canonical_statement_sets (fst (reinstate_after s2 through)) a b" .
  from retreat_frame [OF rt] have s2: "fperiods s2 = fperiods (update_period g p ?f s)"
    "entries s2 = entries s" "events s2 = events s" "line_items s2 = line_items s" "get s2 g = Some c"
    "fact_sets s2 = fact_sets s"
    by (auto simp: calendar_frame_def)
  from retract_effect [OF rs] s2 have s': "fperiods s' = fperiods s2" "entries s' = entries s" "events s' = events s"
    "line_items s' = line_items s" "calendars s' = calendars s2" "\<not> has_canonical_statement_sets s' a b"
    "ids = canonical_set_ids_in_window s a b" "fact_sets s' = filter (\<lambda>f. fs_id f \<notin> set ids) (fact_sets s)"
    by (simp_all add: canonical_set_ids_in_window_def)
  have "fiscal_period_row s' g p = fiscal_period_row (update_period g p ?f s) g p"
    using s'(1) s2(1) by (simp add: fiscal_period_row_def)
  also have "\<dots> = Some (?f fp)" using fp(1) by (simp add: fiscal_period_row_update)
  finally have row: "fiscal_period_row s' g p = Some (?f fp)" .
  then have "is_reclose s' g p" by (simp add: is_reclose_def)
  moreover have "get s' g = Some c" using s2(5) s'(5) by (simp add: get_def)
  ultimately show ?thesis
    using fp row s' by (auto simp: sequence_gate_def closed_gate_def)
qed

subsection \<open>Witnesses\<close>

text \<open>A February with the draft of a disposal, whose event is fulfilled, and one of a voided event.\<close>

definition demo_disposal :: event where
  "demo_disposal = demo_flagged\<lparr>ev_id := ''ev1'', ev_type := ''asset_disposed'',
     ev_occurred_at := Time (Date 2026 2 10) 0, ev_status := Fulfilled, ev_source := ''manual'',
     ev_drift := False, ev_drift_payload := None, ev_meta := []\<rparr>"

definition demo_lines :: "string \<Rightarrow> int \<Rightarrow> line_item list" where
  "demo_lines i v = [\<lparr>li_entry = i, li_element = ''cash'', li_debit = v, li_credit = 0\<rparr>,
     \<lparr>li_entry = i, li_element = ''asset'', li_debit = 0, li_credit = v\<rparr>]"

definition demo_books :: ledger where
  "demo_books = demo_ledger\<lparr>
     events := [demo_disposal, demo_disposal\<lparr>ev_id := ''ev2'', ev_status := Voided\<rparr>],
     entries := [demo_entry ''e1'' (Date 2026 2 10) EntryDraft (Some ''ev1''),
       demo_entry ''e2'' (Date 2026 2 12) EntryDraft (Some ''ev2'')],
     line_items := demo_lines ''e1'' 500 @ demo_lines ''e2'' 70\<rparr>"

definition demo_connection :: connection where
  "demo_connection = \<lparr>cn_id = ''conn1'', cn_graph = ''kg1'', cn_provider = ''quickbooks'', cn_source_name = None,
     cn_policy = ''hybrid'', cn_deleted = False, cn_created = Time (Date 2026 1 1) 0, cn_realm = Some ''realm'', cn_has_credentials = True\<rparr>"

definition demo_world :: "connection list \<Rightarrow> world" where
  "demo_world conns = \<lparr>w_env = demo_env, w_conns = conns, w_qb = (\<lambda>_. QbRejected ''6240''), w_unlocked = (\<lambda>_. True),
     w_stamper = (\<lambda>s a b. Some (s, \<lparr>sr_stamped = False, sr_note = None, sr_sets = [], sr_rules = None\<rparr>)),
     w_run_rules = (\<lambda>i a b s. None)\<rparr>"

definition demo_request :: close_request where
  "demo_request = \<lparr>rq_graph = ''kg1'', rq_period = ''2026-02'', rq_actor = ''u1'', rq_actor_type = ActorUser,
     rq_options = demo_opts, rq_note = None\<rparr>"

lemma demo_world_quiet: "quiet_world (demo_world conns)"
  by (simp add: quiet_world_def demo_world_def)

lemma demo_close_ok:
  "is_ok (snd (close (demo_world []) demo_request demo_books))"
  by code_simp

lemma demo_close_qb_ok:
  "is_ok (snd (close (demo_world [demo_connection]) demo_request demo_books))"
  by code_simp

lemma demo_close_result:
  assumes "is_ok (snd (close w rq s))"
  obtains s' r where "close w rq s = (s', Inr r)"
  using assms by (cases "close w rq s") (auto simp: is_ok_def split: sum.splits)

lemma demo_request_range: "period_date_range (rq_period demo_request) = Inr (Date 2026 2 1, Date 2026 2 28)"
  by (simp add: demo_request_def demo_range)

lemma demo_no_writeback: "resolve_writeback_connection (w_conns (demo_world [])) g = None"
  by (simp add: demo_world_def resolve_writeback_connection_def)

lemma demo_to_post: "count_where (to_post demo_books (Date 2026 2 1) (Date 2026 2 28)) (entries demo_books) = 1"
  by code_simp



theorem fulfilled_drafts_counted_twice_witness:
  "\<exists>s' r. close (demo_world [demo_connection]) demo_request demo_books = (s', Inr r) \<and>
     clr_published r = 1 \<and> clr_entries_posted r = 2 \<and> events s' = events demo_books"
proof -
  obtain s' r where r: "close (demo_world [demo_connection]) demo_request demo_books = (s', Inr r)"
    using demo_close_qb_ok by (rule demo_close_result)
  have c: "resolve_writeback_connection (w_conns (demo_world [demo_connection])) (rq_graph demo_request) \<noteq> None"
    by (simp add: demo_world_def resolve_writeback_connection_def demo_connection_def demo_request_def)
  have d: "distinct (map ev_id (events demo_books))" by code_simp
  have "select_writeback_eligible_entries demo_books (Date 2026 2 1) (Date 2026 2 28) =
      [(demo_entry ''e1'' (Date 2026 2 10) EntryDraft (Some ''ev1''), demo_disposal)]" by code_simp
  with fulfilled_drafts_counted_twice [OF r demo_world_quiet demo_request_range c d] demo_to_post r
  show ?thesis by (simp add: demo_disposal_def)
qed

text \<open>The same draft under an obligation QuickBooks has yet to see.\<close>

definition demo_obligation :: event where
  "demo_obligation = demo_disposal\<lparr>ev_type := ''schedule_entry_due'', ev_status := Classified, ev_source := ''schedule''\<rparr>"

definition demo_due_books :: ledger where
  "demo_due_books = demo_books\<lparr>events := [demo_obligation]\<rparr>"

definition demo_publish :: "qb_reply \<Rightarrow> ledger \<times> ((string \<times> string) list + nat)" where
  "demo_publish reply = publish_drafts_to_qb (Time (Date 2026 5 2) 0) [demo_connection] (\<lambda>_. reply) (\<lambda>_. True)
     demo_due_books ''kg1'' (Date 2026 2 1) (Date 2026 2 28)"


definition demo_execute :: "publish_error + ledger \<times> publish_reply" where
  "demo_execute = execute_event_block (Time (Date 2026 5 2) 0) [demo_connection] (\<lambda>_. QbRejected ''6240'') (\<lambda>_. True)
     (\<lambda>_. True) ''kg1'' False (Some ''conn1'') ''ev1'' demo_due_books"

theorem rejected_publication_blocks_the_retry_witness:
  "\<exists>s' r gate. demo_execute = Inr (s', r) \<and>
     closeable_gate s' ''kg1'' ''2026-02'' (Date 2026 5 2) demo_opts = Inr gate \<and> \<not> is_closeable gate"
proof -
  have "is_ok demo_execute" by code_simp
  then obtain s' r where x: "demo_execute = Inr (s', r)" by (auto simp: is_ok_def split: sum.splits)
  have "case demo_execute of Inr (s', r) \<Rightarrow> pr_status r = EvPending \<and> is_ok (closeable_gate s' ''kg1'' ''2026-02'' (Date 2026 5 2) demo_opts) \<and>
      (case find_event s' ''ev1'' of None \<Rightarrow> False | Some e \<Rightarrow> ev_type e = ''schedule_entry_due'' \<and>
        ev_occurred_at e \<le> end_of_day (Date 2026 2 28)) \<and> get s' ''kg1'' = Some demo_calendar | _ \<Rightarrow> False"
    by code_simp
  then obtain gate e where g: "closeable_gate s' ''kg1'' ''2026-02'' (Date 2026 5 2) demo_opts = Inr gate" "pr_status r = EvPending"
    "find_event s' ''ev1'' = Some e" "ev_type e = ''schedule_entry_due''" "ev_occurred_at e \<le> end_of_day (Date 2026 2 28)"
    "get s' ''kg1'' = Some demo_calendar"
    by (auto simp: x is_ok_def split: sum.splits option.splits)
  from rejected_publication_blocks_the_retry [OF x [unfolded demo_execute_def] g(2-5) demo_range g(6,1)] x g(1)
  show ?thesis by blast
qed


theorem reopen_effect_witness:
  "\<exists>s' c ids. reopen_under_fence demo_env demo_ledger ''kg1'' ''2026-01'' ''late bill'' None ActorUser None = Inr (s', c, ids) \<and>
     is_reclose s' ''kg1'' ''2026-01'' \<and> closed_gate s' ''kg1'' c ''2026-01'' = []"
proof -
  have "is_ok (reopen_under_fence demo_env demo_ledger ''kg1'' ''2026-01'' ''late bill'' None ActorUser None)" by code_simp
  then obtain s' c ids where
    r: "reopen_under_fence demo_env demo_ledger ''kg1'' ''2026-01'' ''late bill'' None ActorUser None = Inr (s', c, ids)"
    by (auto simp: is_ok_def split: sum.splits)
  have "period_date_range ''2026-01'' = Inr (Date 2026 1 1, Date 2026 1 31)" by code_simp
  from reopen_effect [OF r this] r show ?thesis by blast
qed

end
