(* ===== verification/Journals.thy ===== *)
theory Journals
  imports Writeback
begin

text \<open>
  Journal entries written by hand or by an adapter
  (\<open>operations/roboledger/commands/journal_entries.py\<close>) and the trial balance
  (\<open>operations/roboledger/reads/trial_balance.py\<close>).

  An operation reads the database at two moments: \<open>s0\<close> is the ledger at the unlocked peek,
  \<open>s\<close> the one under the period fence and the row locks. \<open>locks\<close> says which entry and event
  rows can be locked in time. Identifiers of new rows are arguments. Line order is list
  order; a line's description and metadata and an entry's provenance are left out.
\<close>

datatype je_error =
    EntryNotFound string
  | EntryNotDraft string entry_status
  | EntryNotPosted string entry_status
  | EntryAlreadyReversed string string
  | OwnedByEvent string string event_status
  | UnbalancedEntry int int
  | NoLines
  | MissingElement nat
  | NegativeAmount nat
  | ZeroAmount nat
  | BothAmounts nat
  | NothingToReverse string
  | EntryMoved string
  | EntryRowLocked string
  | EventRowLocked string
  | JeGuard guard_error
  | JeIntegrity

record je_line =
  jl_element :: string
  jl_debit :: int
  jl_credit :: int

record je_locks =
  fence_free :: "string \<times> string \<Rightarrow> bool"
  entry_free :: "string \<Rightarrow> bool"
  event_free :: "string \<Rightarrow> bool"

definition guardJ :: "je_locks \<Rightarrow> ledger \<Rightarrow> ledger \<Rightarrow> pdate option list \<Rightarrow> je_error + unit" where
  "guardJ k s0 s dates = (case assert_period_not_closed (fence_free k) s0 s dates of
     Inl e \<Rightarrow> Inl (JeGuard e) | Inr u \<Rightarrow> Inr u)"

definition find_entry :: "ledger \<Rightarrow> string \<Rightarrow> entry option" where
  "find_entry s i = find_row (\<lambda>e. en_id e = i) (entries s)"

definition lines_of :: "ledger \<Rightarrow> string \<Rightarrow> line_item list" where
  "lines_of s i = filter (\<lambda>l. li_entry l = i) (line_items s)"

subsection \<open>Validation\<close>

text \<open>The loop of \<open>validate_and_normalize_lines\<close>, with the index and the running totals.\<close>

fun validate_loop ::
  "nat \<Rightarrow> int \<Rightarrow> int \<Rightarrow> je_line list \<Rightarrow> je_error + (string \<times> int \<times> int) list \<times> int \<times> int" where
  "validate_loop i dr cr [] = Inr ([], dr, cr)"
| "validate_loop i dr cr (l # ls) =
     (if jl_element l = [] then Inl (MissingElement i)
      else if jl_debit l < 0 \<or> jl_credit l < 0 then Inl (NegativeAmount i)
      else if jl_debit l = 0 \<and> jl_credit l = 0 then Inl (ZeroAmount i)
      else if 0 < jl_debit l \<and> 0 < jl_credit l then Inl (BothAmounts i)
      else bindR (validate_loop (i + 1) (dr + jl_debit l) (cr + jl_credit l) ls)
             (\<lambda>(rest, d, c). Inr ((jl_element l, jl_debit l, jl_credit l) # rest, d, c)))"

definition validate_and_normalize_lines ::
  "je_line list \<Rightarrow> je_error + (string \<times> int \<times> int) list \<times> int \<times> int" where
  "validate_and_normalize_lines ls =
     (if ls = [] then Inl NoLines
      else bindR (validate_loop 0 0 0 ls) (\<lambda>(ns, d, c).
           if d \<noteq> c then Inl (UnbalancedEntry d c) else Inr (ns, d, c)))"

definition rows_of :: "string \<Rightarrow> (string \<times> int \<times> int) list \<Rightarrow> line_item list" where
  "rows_of i ns = map (\<lambda>(el, d, c). \<lparr>li_entry = i, li_element = el, li_debit = d, li_credit = c\<rparr>) ns"

subsection \<open>Create\<close>

record create_request =
  cj_date :: pdate
  cj_memo :: string
  cj_lines :: "je_line list"
  cj_type :: string
  cj_posted :: bool
  cj_transaction :: "string option"
  cj_source :: "string option"
  cj_connection :: "string option"
  cj_tx_type :: string

definition provenance_for_source :: "string option \<Rightarrow> string" where
  "provenance_for_source src =
     (if \<not> truthy src then ''manual_entry''
      else case map_of [(''manual'', ''manual_entry''), (''native'', ''manual_entry''),
               (''system'', ''system_computed''), (''schedule'', ''schedule_derived'')] (the src) of
             None \<Rightarrow> ''source_sync'' | Some p \<Rightarrow> p)"

definition insert_rows :: "entry \<Rightarrow> line_item list \<Rightarrow> ledger \<Rightarrow> je_error + ledger" where
  "insert_rows e ls s = (case insert_entry e ls s of Inl _ \<Rightarrow> Inl JeIntegrity | Inr s' \<Rightarrow> Inr s')"

definition posted_stamp :: "ptime \<Rightarrow> create_request \<Rightarrow> ptime option" where
  "posted_stamp now rq = (if cj_posted rq then Some now else None)"

text \<open>The parent transaction, unless the caller has one, and the entry under it.\<close>

definition add_transaction :: "ptime \<Rightarrow> string \<Rightarrow> create_request \<Rightarrow> int \<Rightarrow> ledger \<Rightarrow> ledger" where
  "add_transaction now tid rq amount s =
     (if truthy (cj_transaction rq) then s
      else s\<lparr>transactions := transactions s @
        [\<lparr>tx_id = tid, tx_type = cj_tx_type rq, tx_amount = amount, tx_date = cj_date rq,
          tx_description = Some (cj_memo rq),
          tx_source = the (str_or (cj_source rq) (Some ''native'')), tx_connection = cj_connection rq,
          tx_status = (if cj_posted rq then ''posted'' else ''pending''),
          tx_posted_at = posted_stamp now rq, tx_event = None\<rparr>]\<rparr>)"

definition created_entry :: "ptime \<Rightarrow> string \<Rightarrow> string \<Rightarrow> create_request \<Rightarrow> entry" where
  "created_entry now tid eid rq =
     \<lparr>en_id = eid, en_type = cj_type rq, en_posting_date = cj_date rq,
      en_status = (if cj_posted rq then EntryPosted else EntryDraft), en_posted_at = posted_stamp now rq,
      en_event = None, en_structure = None,
      en_transaction = (if truthy (cj_transaction rq) then cj_transaction rq else Some tid),
      en_reversal_of = None, en_memo = Some (cj_memo rq)\<rparr>"

definition create_journal_entry ::
  "je_locks \<Rightarrow> ptime \<Rightarrow> string \<Rightarrow> string \<Rightarrow> ledger \<Rightarrow> ledger \<Rightarrow> create_request \<Rightarrow> je_error + ledger \<times> entry" where
  "create_journal_entry k now tid eid s0 s rq =
     bindR (guardJ k s0 s [Some (cj_date rq)]) (\<lambda>_.
     bindR (validate_and_normalize_lines (cj_lines rq)) (\<lambda>(ns, dr, _).
     bindR (insert_rows (created_entry now tid eid rq) (rows_of eid ns) (add_transaction now tid rq dr s)) (\<lambda>s1.
     Inr (s1, created_entry now tid eid rq))))"

subsection \<open>Update and delete\<close>

text \<open>A field of the request is unset, null or a value.\<close>

record update_request =
  uj_date :: "pdate option option"
  uj_memo :: "string option option"
  uj_type :: "string option option"
  uj_lines :: "je_line list option"

definition set_field :: "('a \<Rightarrow> entry \<Rightarrow> entry) \<Rightarrow> 'a option \<Rightarrow> entry \<Rightarrow> entry" where
  "set_field f v e = (case v of None \<Rightarrow> e | Some x \<Rightarrow> f x e)"

text \<open>The owning event's row, then the entry's, then its state.\<close>

definition lock_draft ::
  "je_locks \<Rightarrow> ledger \<Rightarrow> ledger \<Rightarrow> string \<Rightarrow> pdate option \<Rightarrow> je_error + entry \<times> event option" where
  "lock_draft k s0 s i new_date =
     (case find_entry s0 i of
        None \<Rightarrow> Inl (EntryNotFound i)
      | Some peek \<Rightarrow>
          bindR (guardJ k s0 s [Some (en_posting_date peek), new_date]) (\<lambda>_.
          bindR (case en_event peek of
                   None \<Rightarrow> Inr None
                 | Some ev \<Rightarrow> if event_free k ev then Inr (find_event s ev) else Inl (EventRowLocked ev)) (\<lambda>owner.
          if \<not> entry_free k i then Inl (EntryRowLocked i)
          else case find_entry s i of
                 None \<Rightarrow> Inl (EntryNotFound i)
               | Some e \<Rightarrow>
                   if en_posting_date e \<noteq> en_posting_date peek then Inl (EntryMoved i)
                   else if en_status e \<noteq> EntryDraft then Inl (EntryNotDraft i (en_status e))
                   else Inr (e, owner))))"

definition put_entry :: "entry \<Rightarrow> ledger \<Rightarrow> ledger" where
  "put_entry e s = s\<lparr>entries := update_where (\<lambda>x. en_id x = en_id e) (\<lambda>_. e) (entries s)\<rparr>"

definition replace_lines :: "string \<Rightarrow> line_item list \<Rightarrow> ledger \<Rightarrow> ledger" where
  "replace_lines i ls s = s\<lparr>line_items := filter (\<lambda>l. li_entry l \<noteq> i) (line_items s) @ ls\<rparr>"

definition update_journal_entry ::
  "je_locks \<Rightarrow> ledger \<Rightarrow> ledger \<Rightarrow> string \<Rightarrow> update_request \<Rightarrow> je_error + ledger" where
  "update_journal_entry k s0 s i rq =
     bindR (lock_draft k s0 s i (case uj_date rq of Some d \<Rightarrow> d | None \<Rightarrow> None)) (\<lambda>(e, _).
     bindR (case uj_lines rq of
              None \<Rightarrow> Inr s
            | Some ls \<Rightarrow> bindR (validate_and_normalize_lines ls) (\<lambda>(ns, _, _). Inr (replace_lines i (rows_of i ns) s))) (\<lambda>s1.
     if uj_date rq = Some None \<or> uj_type rq = Some None then Inl JeIntegrity
     else let e1 = set_field (\<lambda>d e. e\<lparr>en_posting_date := the d\<rparr>) (uj_date rq) e;
              e2 = set_field (\<lambda>m e. e\<lparr>en_memo := m\<rparr>) (uj_memo rq) e1;
              e3 = set_field (\<lambda>t e. e\<lparr>en_type := the t\<rparr>) (uj_type rq) e2
          in Inr (put_entry e3 s1)))"

text \<open>An entry that a reversal points at cannot be deleted: \<open>reversal_of\<close> is a foreign key without a cascade.\<close>

definition delete_journal_entry :: "je_locks \<Rightarrow> ledger \<Rightarrow> ledger \<Rightarrow> string \<Rightarrow> je_error + ledger" where
  "delete_journal_entry k s0 s i =
     bindR (lock_draft k s0 s i None) (\<lambda>(e, owner).
     bindR (case owner of
              None \<Rightarrow> Inr ()
            | Some ev \<Rightarrow>
                if \<not> retracted (ev_status ev) \<and> count_where (\<lambda>x. en_event x = Some (ev_id ev)) (entries s) \<le> 1
                then Inl (OwnedByEvent i (ev_id ev) (ev_status ev)) else Inr ()) (\<lambda>_.
     if list_ex (\<lambda>x. en_reversal_of x = Some i) (entries s) then Inl JeIntegrity
     else Inr (s\<lparr>entries := filter (\<lambda>x. en_id x \<noteq> i) (entries s),
                 line_items := filter (\<lambda>l. li_entry l \<noteq> i) (line_items s)\<rparr>)))"

subsection \<open>Reverse\<close>

definition flip_line :: "string \<Rightarrow> line_item \<Rightarrow> line_item" where
  "flip_line i l = \<lparr>li_entry = i, li_element = li_element l, li_debit = li_credit l, li_credit = li_debit l\<rparr>"

definition reversing_entry :: "string \<Rightarrow> ptime \<Rightarrow> pdate \<Rightarrow> string option \<Rightarrow> entry \<Rightarrow> entry" where
  "reversing_entry rid now d memo e =
     \<lparr>en_id = rid, en_type = ''reversing'', en_posting_date = d, en_status = EntryPosted,
      en_posted_at = Some now, en_event = None, en_structure = None, en_transaction = en_transaction e,
      en_reversal_of = Some (en_id e),
      en_memo = str_or memo (Some (''Reversal of journal entry '' @ en_id e))\<rparr>"

definition reverse_journal_entry ::
  "je_locks \<Rightarrow> ptime \<Rightarrow> pdate \<Rightarrow> string \<Rightarrow> ledger \<Rightarrow> ledger \<Rightarrow> string \<Rightarrow> pdate option \<Rightarrow> string option \<Rightarrow>
   je_error + ledger \<times> entry" where
  "reverse_journal_entry k now today rid s0 s i date_opt memo =
     (case find_entry s0 i of
        None \<Rightarrow> Inl (EntryNotFound i)
      | Some peek \<Rightarrow>
          (let d = (case date_opt of None \<Rightarrow> today | Some d \<Rightarrow> d) in
           bindR (guardJ k s0 s [Some (en_posting_date peek), Some d]) (\<lambda>_.
           if \<not> entry_free k i then Inl (EntryRowLocked i)
           else case find_entry s i of
                  None \<Rightarrow> Inl (EntryNotFound i)
                | Some e \<Rightarrow>
                    if en_status e \<noteq> EntryPosted then Inl (EntryNotPosted i (en_status e))
                    else case find_row (\<lambda>x. en_reversal_of x = Some i) (entries s) of
                           Some r \<Rightarrow> Inl (EntryAlreadyReversed i (en_id r))
                         | None \<Rightarrow>
                             if lines_of s i = [] then Inl (NothingToReverse i)
                             else (let r = reversing_entry rid now d memo e in
                               bindR (insert_rows r (map (flip_line rid) (lines_of s i)) s) (\<lambda>s1.
                               Inr (put_entry (e\<lparr>en_status := EntryReversed\<rparr>) s1, r))))))"

subsection \<open>The trial balance\<close>

record tb_row =
  tb_account :: string
  tb_code :: "string option"
  tb_name :: "string option"
  tb_debits :: rat
  tb_credits :: rat
  tb_net :: rat

definition cents_to_dollars :: "int \<Rightarrow> rat" where
  "cents_to_dollars c = of_int c / 100"

text \<open>The line items of posted entries in the window; no bound is no limit.\<close>

definition tb_entry :: "pdate option \<Rightarrow> pdate option \<Rightarrow> entry \<Rightarrow> bool" where
  "tb_entry a b e \<longleftrightarrow> en_status e = EntryPosted \<and>
     (case a of None \<Rightarrow> True | Some d \<Rightarrow> d \<le> en_posting_date e) \<and>
     (case b of None \<Rightarrow> True | Some d \<Rightarrow> en_posting_date e \<le> d)"

definition tb_lines :: "ledger \<Rightarrow> pdate option \<Rightarrow> pdate option \<Rightarrow> string \<Rightarrow> line_item list" where
  "tb_lines s a b el = filter (\<lambda>l. li_element l = el)
     (concat (map (\<lambda>e. lines_of s (en_id e)) (filter (tb_entry a b) (entries s))))"

text \<open>One row per account with a line in the window, by code with the codeless last.\<close>

definition get_trial_balance :: "ledger \<Rightarrow> pdate option \<Rightarrow> pdate option \<Rightarrow> tb_row list \<times> rat \<times> rat" where
  "get_trial_balance s a b =
     (let rows = map (\<lambda>el.
            let d = cents_to_dollars (\<Sum>l\<leftarrow>tb_lines s a b (el_id el). li_debit l);
                c = cents_to_dollars (\<Sum>l\<leftarrow>tb_lines s a b (el_id el). li_credit l)
            in \<lparr>tb_account = el_id el, tb_code = el_code el, tb_name = el_name el,
                tb_debits = d, tb_credits = c, tb_net = d - c\<rparr>)
            (sort_key (\<lambda>el. (el_code el = None, case el_code el of None \<Rightarrow> [] | Some c \<Rightarrow> c))
               (filter (\<lambda>el. tb_lines s a b (el_id el) \<noteq> []) (elements s)))
      in (rows, (\<Sum>r\<leftarrow>rows. tb_debits r), (\<Sum>r\<leftarrow>rows. tb_credits r)))"

end
