(* ===== verification/JournalFacts.thy ===== *)
theory JournalFacts
  imports Journals
begin

text \<open>
  The journal operations refine an abstract store of documents: an entry is a document with
  a status, a date and its lines, and each operation adds, revises, drops or reverses
  documents in open periods only. What the abstract store guarantees (documents that left
  the draft state stay, lines balance) is transferred to the tables; and what a reversal
  does to the trial balance is computed.
\<close>

subsection \<open>The abstract store\<close>

type_synonym doc_line = "string \<times> int \<times> int"
type_synonym doc = "entry_status \<times> pdate \<times> doc_line list"

definition flip_doc_line :: "doc_line \<Rightarrow> doc_line" where
  "flip_doc_line = (\<lambda>(el, d, c). (el, c, d))"

definition balanced_lines :: "doc_line list \<Rightarrow> bool" where
  "balanced_lines ls \<longleftrightarrow> ls \<noteq> [] \<and> (\<Sum>(el, d, c)\<leftarrow>ls. d) = (\<Sum>(el, d, c)\<leftarrow>ls. c) \<and>
     list_all (\<lambda>(el, d, c). el \<noteq> [] \<and> (0 < d \<and> c = 0 \<or> d = 0 \<and> 0 < c)) ls"

inductive doc_step :: "(pdate \<Rightarrow> bool) \<Rightarrow> (string \<rightharpoonup> doc) \<Rightarrow> (string \<rightharpoonup> doc) \<Rightarrow> bool" for open_date where
  add: "m i = None \<Longrightarrow> open_date d \<Longrightarrow> balanced_lines ls \<Longrightarrow> st \<noteq> EntryReversed \<Longrightarrow>
    doc_step open_date m (m(i \<mapsto> (st, d, ls)))"
| revise: "m i = Some (EntryDraft, d, ls) \<Longrightarrow> open_date d \<Longrightarrow> open_date d' \<Longrightarrow> ls' = ls \<or> balanced_lines ls' \<Longrightarrow>
    doc_step open_date m (m(i \<mapsto> (EntryDraft, d', ls')))"
| drop: "m i = Some (EntryDraft, d, ls) \<Longrightarrow> open_date d \<Longrightarrow> doc_step open_date m (m(i := None))"
| reverse: "m i = Some (EntryPosted, d, ls) \<Longrightarrow> m r = None \<Longrightarrow> open_date d \<Longrightarrow> open_date d' \<Longrightarrow> ls \<noteq> [] \<Longrightarrow>
    doc_step open_date m (m(i \<mapsto> (EntryReversed, d, ls), r \<mapsto> (EntryPosted, d', map flip_doc_line ls)))"

text \<open>What the store promises.\<close>

definition docs_balanced :: "(string \<rightharpoonup> doc) \<Rightarrow> bool" where
  "docs_balanced m \<longleftrightarrow> (\<forall>i st d ls. m i = Some (st, d, ls) \<longrightarrow> balanced_lines ls)"

definition kept :: "doc \<Rightarrow> doc \<Rightarrow> bool" where
  "kept x y \<longleftrightarrow> y = x \<or> fst x = EntryPosted \<and> y = (EntryReversed, snd x)"

lemma flip_balanced: "balanced_lines ls \<Longrightarrow> balanced_lines (map flip_doc_line ls)"
proof -
  have "(\<Sum>(el, d, c)\<leftarrow>map flip_doc_line ls. d) = (\<Sum>(el, d, c)\<leftarrow>ls. c)"
    "(\<Sum>(el, d, c)\<leftarrow>map flip_doc_line ls. c) = (\<Sum>(el, d, c)\<leftarrow>ls. d)" for ls
    by (induction ls) (auto simp: flip_doc_line_def)
  then show "balanced_lines ls \<Longrightarrow> balanced_lines (map flip_doc_line ls)"
    by (auto simp: balanced_lines_def list_all_iff flip_doc_line_def)
qed

lemma doc_step_balanced: "doc_step P m m' \<Longrightarrow> docs_balanced m \<Longrightarrow> docs_balanced m'"
  by (induction rule: doc_step.induct) (auto simp: docs_balanced_def flip_balanced split: if_splits)

lemma doc_step_kept:
  "doc_step P m m' \<Longrightarrow> m i = Some (st, d, ls) \<Longrightarrow> st \<noteq> EntryDraft \<Longrightarrow> \<exists>y. m' i = Some y \<and> kept (st, d, ls) y"
  by (induction rule: doc_step.induct) (auto simp: kept_def)

text \<open>A document dated outside the open dates is neither made, changed nor dropped.\<close>

lemma doc_step_closed:
  "doc_step P m m' \<Longrightarrow> \<forall>st d ls. (m i = Some (st, d, ls) \<or> m' i = Some (st, d, ls)) \<longrightarrow> \<not> P d \<Longrightarrow> m' i = m i"
  by (induction rule: doc_step.induct) (auto split: if_splits)

subsection \<open>The tables as a store\<close>

definition doc_lines :: "ledger \<Rightarrow> string \<Rightarrow> doc_line list" where
  "doc_lines s i = map (\<lambda>l. (li_element l, li_debit l, li_credit l)) (lines_of s i)"

definition abs_books :: "ledger \<Rightarrow> string \<rightharpoonup> doc" where
  "abs_books s i = map_option (\<lambda>e. (en_status e, en_posting_date e, doc_lines s i)) (find_entry s i)"

definition date_open :: "ledger \<Rightarrow> pdate \<Rightarrow> bool" where
  "date_open s d \<longleftrightarrow> (case period_covering s d of None \<Rightarrow> True | Some p \<Rightarrow> fp_status p \<noteq> PeriodClosed)"

text \<open>Between the peek and the locks periods may close or reopen, but their rows cover the same dates.\<close>

definition peeked :: "ledger \<Rightarrow> ledger \<Rightarrow> bool" where
  "peeked s0 s \<longleftrightarrow> distinct (map period_key (fperiods s)) \<and>
     (\<forall>d. map_option period_key (period_covering s0 d) = map_option period_key (period_covering s d))"

definition fresh_entry :: "ledger \<Rightarrow> string \<Rightarrow> bool" where
  "fresh_entry s i \<longleftrightarrow> find_entry s i = None \<and> lines_of s i = []"

text \<open>
  Update and delete refuse an entry whose date moved since the peek. Reverse does not look
  again, so its steps are those of an entry that did not move.
\<close>

definition unmoved :: "ledger \<Rightarrow> ledger \<Rightarrow> string \<Rightarrow> bool" where
  "unmoved s0 s i \<longleftrightarrow> map_option en_posting_date (find_entry s0 i) = map_option en_posting_date (find_entry s i)"

inductive je_step :: "ledger \<Rightarrow> ledger \<Rightarrow> bool" where
  created: "create_journal_entry k now tid eid s0 s rq = Inr (s', e) \<Longrightarrow> peeked s0 s \<Longrightarrow> fresh_entry s eid \<Longrightarrow> je_step s s'"
| updated: "update_journal_entry k s0 s i rq = Inr s' \<Longrightarrow> peeked s0 s \<Longrightarrow> je_step s s'"
| deleted: "delete_journal_entry k s0 s i = Inr s' \<Longrightarrow> peeked s0 s \<Longrightarrow> je_step s s'"
| reversed: "reverse_journal_entry k now today rid s0 s i d memo = Inr (s', e) \<Longrightarrow> peeked s0 s \<Longrightarrow> fresh_entry s rid \<Longrightarrow>
    unmoved s0 s i \<Longrightarrow> je_step s s'"

lemma guardJ_eq_Inr: "guardJ k s0 s ds = Inr u \<longleftrightarrow> assert_period_not_closed (fence_free k) s0 s ds = Inr u"
  by (auto simp: guardJ_def split: sum.splits)

lemma same_key_same_row:
  "distinct (map period_key (fperiods s)) \<Longrightarrow> period_covering s d = Some p \<Longrightarrow> period_covering s d' = Some q \<Longrightarrow>
     period_key p = period_key q \<Longrightarrow> p = q"
  by (drule period_covering_Some)+ (auto simp: distinct_map dest: inj_onD)

lemma guardJ_open:
  assumes "guardJ k s0 s ds = Inr u" "peeked s0 s" "Some d \<in> set ds"
  shows "date_open s d"
proof (cases "period_covering s d")
  case (Some p)
  from assms(2) Some obtain p0 where p0: "period_covering s0 d = Some p0" "period_key p0 = period_key p"
    unfolding peeked_def by (metis option.map_disc_iff option.map_sel option.sel option.exhaust_sel option.distinct(1))
  have "d \<in> set (map the (filter (\<lambda>d. d \<noteq> None) ds))"
    using assms(3) by (auto intro!: image_eqI [of d the "Some d"])
  from covered_periods_complete [OF this p0(1), of "{}"] obtain d' where
    m: "(period_key p0, d') \<in> set (covered_periods s0 {} (map the (filter (\<lambda>d. d \<noteq> None) ds)))" by auto
  from covered_periods_keys [OF m] obtain q0 where q0: "period_covering s0 d' = Some q0" "period_key q0 = period_key p0"
    by blast
  then obtain q where q: "period_covering s d' = Some q" "period_key q = period_key q0"
    using assms(2) unfolding peeked_def by (metis option.map_disc_iff option.map_sel option.sel option.exhaust_sel option.distinct(1))
  have "q = p" using same_key_same_row [of s d' q d p] q q0 p0 Some assms(2) by (simp add: peeked_def)
  moreover have "fp_status q \<noteq> PeriodClosed"
    using assms(1) m q(1) by (auto simp: guardJ_eq_Inr assert_period_not_closed_ok)
  ultimately show ?thesis using Some by (simp add: date_open_def)
qed (simp add: date_open_def)

subsection \<open>Lookups after each table update\<close>

lemma find_entry_append:
  "find_entry (s\<lparr>entries := entries s @ [e]\<rparr>) i =
     (case find_entry s i of None \<Rightarrow> if en_id e = i then Some e else None | Some x \<Rightarrow> Some x)"
proof -
  have "find_row P (xs @ [e]) = (case find_row P xs of None \<Rightarrow> if P e then Some e else None | Some x \<Rightarrow> Some x)"
    for P and xs :: "entry list" by (induction xs) auto
  then show ?thesis by (simp add: find_entry_def)
qed

lemma find_entry_put:
  "find_entry (put_entry e s) i =
     (case find_entry s i of None \<Rightarrow> None | Some x \<Rightarrow> if en_id e = i then Some e else Some x)"
proof -
  have "find_row (\<lambda>x. en_id x = i) (update_where (\<lambda>x. en_id x = en_id e) (\<lambda>_. e) xs) =
      (case find_row (\<lambda>x. en_id x = i) xs of None \<Rightarrow> None | Some x \<Rightarrow> if en_id e = i then Some e else Some x)" for xs
    by (induction xs) auto
  then show ?thesis by (simp add: find_entry_def put_entry_def)
qed

lemma find_entry_remove:
  "find_entry (s\<lparr>entries := filter (\<lambda>x. en_id x \<noteq> i) (entries s)\<rparr>) j =
     (if j = i then None else find_entry s j)"
proof -
  have "find_row (\<lambda>x. en_id x = j) (filter (\<lambda>x. en_id x \<noteq> i) xs) =
      (if j = i then None else find_row (\<lambda>x. en_id x = j) xs)" for xs
    by (induction xs) auto
  from this [of "entries s"] show ?thesis by (simp add: find_entry_def)
qed

lemma find_entry_id: "find_entry s i = Some e \<Longrightarrow> en_id e = i"
  unfolding find_entry_def by (drule find_row_Some) simp

lemma find_entry_lines [simp]: "find_entry (s\<lparr>line_items := ls\<rparr>) i = find_entry s i"
  "find_entry (s\<lparr>transactions := ts\<rparr>) i = find_entry s i"
  "lines_of (s\<lparr>entries := es\<rparr>) i = lines_of s i" "lines_of (s\<lparr>transactions := ts\<rparr>) i = lines_of s i"
  "lines_of (put_entry e s) i = lines_of s i"
  by (simp_all add: find_entry_def lines_of_def put_entry_def)

lemma filter_rows_of: "filter (\<lambda>l. li_entry l = j) (rows_of i ns) = (if j = i then rows_of i ns else [])"
  by (auto simp: rows_of_def filter_empty_conv filter_id_conv)

lemma doc_lines_rows_of: "map (\<lambda>l. (li_element l, li_debit l, li_credit l)) (rows_of i ns) = ns"
  by (induction ns) (auto simp: rows_of_def)

lemma filter_flip: "filter (\<lambda>l. li_entry l = j) (map (flip_line i) ls) = (if j = i then map (flip_line i) ls else [])"
  by (auto simp: flip_line_def filter_empty_conv filter_id_conv)

lemma validate_loop_facts:
  "validate_loop n dr cr ls = Inr (ns, d, c) \<Longrightarrow>
     length ns = length ls \<and> d = dr + (\<Sum>(el, x, y)\<leftarrow>ns. x) \<and> c = cr + (\<Sum>(el, x, y)\<leftarrow>ns. y) \<and>
     list_all (\<lambda>(el, x, y). el \<noteq> [] \<and> (0 < x \<and> y = 0 \<or> x = 0 \<and> 0 < y)) ns"
proof (induction ls arbitrary: n dr cr ns)
  case (Cons l ls)
  from Cons.prems obtain rest where
    "validate_loop (n + 1) (dr + jl_debit l) (cr + jl_credit l) ls = Inr (rest, d, c)"
    "ns = (jl_element l, jl_debit l, jl_credit l) # rest" "jl_element l \<noteq> []"
    "0 < jl_debit l \<and> jl_credit l = 0 \<or> jl_debit l = 0 \<and> 0 < jl_credit l"
    by (auto simp: bindR_eq_Inr split: if_splits)
  with Cons.IH show ?case by fastforce
qed simp

lemma validate_balanced:
  assumes "validate_and_normalize_lines ls = Inr (ns, d, c)"
  shows "balanced_lines ns" "d = (\<Sum>(el, x, y)\<leftarrow>ns. x)"
proof -
  from assms have "ls \<noteq> []" "validate_loop 0 0 0 ls = Inr (ns, d, c)" "d = c"
    by (auto simp: validate_and_normalize_lines_def bindR_eq_Inr split: if_splits)
  with validate_loop_facts [OF this(2)] show "balanced_lines ns" "d = (\<Sum>(el, x, y)\<leftarrow>ns. x)"
    by (auto simp: balanced_lines_def)
qed

subsection \<open>Each operation is a step of the store\<close>

lemma insert_rows_eq_Inr:
  "insert_rows e ls s = Inr s' \<longleftrightarrow> reversal_free e s \<and> (\<forall>l\<in>set ls. line_check l) \<and>
     s' = s\<lparr>entries := entries s @ [e], line_items := line_items s @ ls\<rparr>"
  by (auto simp: insert_rows_def insert_entry_def)

lemma lines_of_append: "lines_of (s\<lparr>entries := es, line_items := line_items s @ ls\<rparr>) j =
    lines_of s j @ filter (\<lambda>l. li_entry l = j) ls"
  by (simp add: lines_of_def)

lemma abs_insert:
  assumes "fresh_entry s (en_id e)" "\<forall>l\<in>set ls. li_entry l = en_id e"
  shows "abs_books (s\<lparr>entries := entries s @ [e], line_items := line_items s @ ls\<rparr>) =
    (abs_books s)(en_id e \<mapsto> (en_status e, en_posting_date e, map (\<lambda>l. (li_element l, li_debit l, li_credit l)) ls))"
proof (rule ext)
  fix j
  have "filter (\<lambda>l. li_entry l = j) ls = (if j = en_id e then ls else [])"
    using assms(2) by (auto simp: filter_empty_conv filter_id_conv)
  then show "abs_books (s\<lparr>entries := entries s @ [e], line_items := line_items s @ ls\<rparr>) j =
      ((abs_books s)(en_id e \<mapsto> (en_status e, en_posting_date e, map (\<lambda>l. (li_element l, li_debit l, li_credit l)) ls))) j"
    using assms(1)
    by (auto simp: abs_books_def find_entry_append doc_lines_def lines_of_append fresh_entry_def split: option.splits)
qed

lemma created_entry_simps [simp]:
  "en_id (created_entry now tid eid rq) = eid" "en_posting_date (created_entry now tid eid rq) = cj_date rq"
  "en_status (created_entry now tid eid rq) = (if cj_posted rq then EntryPosted else EntryDraft)"
  by (simp_all add: created_entry_def)

lemma rows_of_entry: "\<forall>l\<in>set (rows_of i ns). li_entry l = i"
  by (auto simp: rows_of_def)

lemma abs_create:
  assumes "create_journal_entry k now tid eid s0 s rq = Inr (s', e)" "fresh_entry s eid"
  obtains ns where "balanced_lines ns" "guardJ k s0 s [Some (cj_date rq)] = Inr ()"
    "abs_books s' = (abs_books s)(eid \<mapsto> (if cj_posted rq then EntryPosted else EntryDraft, cj_date rq, ns))"
proof -
  let ?e = "created_entry now tid eid rq"
  from assms(1) obtain ns d c where
    g: "guardJ k s0 s [Some (cj_date rq)] = Inr ()" and v: "validate_and_normalize_lines (cj_lines rq) = Inr (ns, d, c)"
    and r: "insert_rows ?e (rows_of eid ns) (add_transaction now tid rq d s) = Inr s'"
    unfolding create_journal_entry_def by (auto simp: bindR_eq_Inr split: prod.splits)
  define s1 where "s1 = add_transaction now tid rq d s"
  have s1: "abs_books s1 = abs_books s" "fresh_entry s1 (en_id ?e)"
    using assms(2) by (auto simp: s1_def add_transaction_def abs_books_def doc_lines_def fresh_entry_def)
  have s': "s' = s1\<lparr>entries := entries s1 @ [?e], line_items := line_items s1 @ rows_of eid ns\<rparr>"
    using r by (simp add: insert_rows_eq_Inr s1_def)
  have "abs_books s' = (abs_books s)(eid \<mapsto> (if cj_posted rq then EntryPosted else EntryDraft, cj_date rq, ns))"
    using abs_insert [OF s1(2), of "rows_of eid ns"] s1(1)
    by (simp add: s' rows_of_entry doc_lines_rows_of)
  then show thesis using that [OF validate_balanced(1) [OF v] g] by blast
qed

lemma lock_draft_cases:
  assumes "lock_draft k s0 s i nd = Inr (e, owner)"
  obtains p where "find_entry s0 i = Some p" "guardJ k s0 s [Some (en_posting_date p), nd] = Inr ()"
    "find_entry s i = Some e" "en_posting_date e = en_posting_date p" "en_status e = EntryDraft"
proof -
  from assms obtain p where p: "find_entry s0 i = Some p"
    by (auto simp: lock_draft_def split: option.splits)
  from assms obtain u where u: "guardJ k s0 s [Some (en_posting_date p), nd] = Inr u"
    unfolding lock_draft_def p option.case bindR_eq_Inr by blast
  obtain owner' where
    "(case find_entry s i of None \<Rightarrow> Inl (EntryNotFound i)
      | Some e \<Rightarrow>
          if en_posting_date e \<noteq> en_posting_date p then Inl (EntryMoved i)
          else if en_status e \<noteq> EntryDraft then Inl (EntryNotDraft i (en_status e))
          else Inr (e, owner')) = Inr (e, owner)"
    using assms unfolding lock_draft_def p option.case bindR_eq_Inr by (auto split: if_splits)
  then have "find_entry s i = Some e" "en_posting_date e = en_posting_date p" "en_status e = EntryDraft"
    by (auto split: option.splits if_splits)
  with that [OF p] u show thesis by simp
qed

lemma set_fields_simps [simp]:
  "en_id (set_field (\<lambda>d e. e\<lparr>en_posting_date := the d\<rparr>) v e) = en_id e"
  "en_status (set_field (\<lambda>d e. e\<lparr>en_posting_date := the d\<rparr>) v e) = en_status e"
  "en_id (set_field (\<lambda>m e. e\<lparr>en_memo := m\<rparr>) w e) = en_id e"
  "en_status (set_field (\<lambda>m e. e\<lparr>en_memo := m\<rparr>) w e) = en_status e"
  "en_posting_date (set_field (\<lambda>m e. e\<lparr>en_memo := m\<rparr>) w e) = en_posting_date e"
  "en_id (set_field (\<lambda>t e. e\<lparr>en_type := the t\<rparr>) u e) = en_id e"
  "en_status (set_field (\<lambda>t e. e\<lparr>en_type := the t\<rparr>) u e) = en_status e"
  "en_posting_date (set_field (\<lambda>t e. e\<lparr>en_type := the t\<rparr>) u e) = en_posting_date e"
  by (simp_all add: set_field_def split: option.splits)

lemma abs_put_entry:
  assumes "find_entry s (en_id e) = Some e0"
  shows "abs_books (put_entry e s) = (abs_books s)(en_id e \<mapsto> (en_status e, en_posting_date e, doc_lines s (en_id e)))"
  using assms by (auto simp: abs_books_def find_entry_put doc_lines_def split: option.splits)

lemma abs_replace_lines:
  assumes "find_entry s i = Some e"
  shows "abs_books (replace_lines i (rows_of i ns) s) = (abs_books s)(i \<mapsto> (en_status e, en_posting_date e, ns))"
proof (rule ext)
  fix j
  have "lines_of (replace_lines i (rows_of i ns) s) j = (if j = i then rows_of i ns else lines_of s j)"
    by (auto simp: lines_of_def replace_lines_def filter_rows_of filter_empty_conv intro: filter_cong)
  then show "abs_books (replace_lines i (rows_of i ns) s) j =
      ((abs_books s)(i \<mapsto> (en_status e, en_posting_date e, ns))) j"
    using assms by (auto simp: abs_books_def doc_lines_def doc_lines_rows_of replace_lines_def)
qed

lemma abs_update:
  assumes "update_journal_entry k s0 s i rq = Inr s'" "peeked s0 s"
  obtains d d' ls ls' where "abs_books s i = Some (EntryDraft, d, ls)" "date_open s d" "date_open s d'"
    "ls' = ls \<or> balanced_lines ls'" "abs_books s' = (abs_books s)(i \<mapsto> (EntryDraft, d', ls'))"
proof -
  let ?nd = "case uj_date rq of Some d \<Rightarrow> d | None \<Rightarrow> None"
  from assms(1) obtain e owner s1 where l: "lock_draft k s0 s i ?nd = Inr (e, owner)"
    and s1: "(case uj_lines rq of None \<Rightarrow> Inr s | Some ls \<Rightarrow>
       bindR (validate_and_normalize_lines ls) (\<lambda>(ns, _, _). Inr (replace_lines i (rows_of i ns) s))) = Inr s1"
    and nn: "uj_date rq \<noteq> Some None"
    and s': "s' = put_entry (set_field (\<lambda>t e. e\<lparr>en_type := the t\<rparr>) (uj_type rq)
       (set_field (\<lambda>m e. e\<lparr>en_memo := m\<rparr>) (uj_memo rq) (set_field (\<lambda>d e. e\<lparr>en_posting_date := the d\<rparr>) (uj_date rq) e))) s1"
    unfolding update_journal_entry_def Let_def by (auto simp: bindR_eq_Inr split: if_splits)
  let ?e = "set_field (\<lambda>t e. e\<lparr>en_type := the t\<rparr>) (uj_type rq)
       (set_field (\<lambda>m e. e\<lparr>en_memo := m\<rparr>) (uj_memo rq) (set_field (\<lambda>d e. e\<lparr>en_posting_date := the d\<rparr>) (uj_date rq) e))"
  from lock_draft_cases [OF l] obtain p where "find_entry s0 i = Some p"
    and p: "guardJ k s0 s [Some (en_posting_date p), ?nd] = Inr ()" "find_entry s i = Some e" "en_posting_date e = en_posting_date p" "en_status e = EntryDraft" .
  have i: "en_id e = i" using p(2) by (rule find_entry_id)
  have d: "date_open s (en_posting_date e)" using guardJ_open [OF p(1) assms(2)] p(3) by simp
  have d': "date_open s (en_posting_date ?e)"
    using guardJ_open [OF p(1) assms(2)] d nn by (auto simp: set_field_def split: option.splits)
  from s1 obtain ls' where ls': "ls' = doc_lines s i \<or> balanced_lines ls'"
    "abs_books s1 = (abs_books s)(i \<mapsto> (EntryDraft, en_posting_date e, ls'))" "find_entry s1 i = Some e" "doc_lines s1 i = ls'"
  proof (cases "uj_lines rq")
    case None
    with s1 have "s1 = s" by simp
    moreover have "abs_books s = (abs_books s)(i \<mapsto> (EntryDraft, en_posting_date e, doc_lines s i))"
      using p(2,4) by (auto simp: abs_books_def)
    ultimately show thesis using that p(2) by simp
  next
    case (Some ls)
    with s1 obtain ns d c where v: "validate_and_normalize_lines ls = Inr (ns, d, c)"
      and s1: "s1 = replace_lines i (rows_of i ns) s" by (auto simp: bindR_eq_Inr split: prod.splits)
    have "find_entry s1 i = Some e" using p(2) by (simp add: s1 replace_lines_def)
    moreover have "doc_lines s1 i = ns"
      by (simp add: s1 doc_lines_def lines_of_def replace_lines_def filter_rows_of doc_lines_rows_of)
    ultimately show thesis
      using that [of ns] validate_balanced(1) [OF v] abs_replace_lines [OF p(2)] p(4) s1 by simp
  qed
  have "abs_books s' = (abs_books s)(i \<mapsto> (EntryDraft, en_posting_date ?e, ls'))"
    using abs_put_entry [of s1 ?e e] ls' i p(4) by (simp add: s')
  moreover have "abs_books s i = Some (EntryDraft, en_posting_date e, doc_lines s i)"
    using p(2,4) by (simp add: abs_books_def)
  ultimately show thesis using that d d' ls'(1) by blast
qed

lemma abs_delete:
  assumes "delete_journal_entry k s0 s i = Inr s'" "peeked s0 s"
  obtains d ls where "abs_books s i = Some (EntryDraft, d, ls)" "date_open s d" "abs_books s' = (abs_books s)(i := None)"
proof -
  from assms(1) obtain e owner where l: "lock_draft k s0 s i None = Inr (e, owner)"
    and s': "s' = s\<lparr>entries := filter (\<lambda>x. en_id x \<noteq> i) (entries s), line_items := filter (\<lambda>l. li_entry l \<noteq> i) (line_items s)\<rparr>"
    unfolding delete_journal_entry_def by (auto simp: bindR_eq_Inr split: if_splits)
  from lock_draft_cases [OF l] obtain p where "find_entry s0 i = Some p"
    and p: "guardJ k s0 s [Some (en_posting_date p), None] = Inr ()" "find_entry s i = Some e"
    "en_posting_date e = en_posting_date p" "en_status e = EntryDraft" .
  have "abs_books s' j = ((abs_books s)(i := None)) j" for j
  proof -
    have "filter (\<lambda>l. li_entry l = j) (filter (\<lambda>l. li_entry l \<noteq> i) (line_items s)) =
        (if j = i then [] else lines_of s j)"
      by (auto simp: lines_of_def filter_empty_conv intro: filter_cong)
    then show ?thesis by (simp add: s' abs_books_def find_entry_remove doc_lines_def lines_of_def)
  qed
  moreover have "date_open s (en_posting_date e)" using guardJ_open [OF p(1) assms(2)] p(3) by simp
  moreover have "abs_books s i = Some (EntryDraft, en_posting_date e, doc_lines s i)"
    using p(2,4) by (simp add: abs_books_def)
  ultimately show thesis using that by blast
qed

lemma reversing_entry_simps [simp]:
  "en_id (reversing_entry rid now d memo e) = rid" "en_status (reversing_entry rid now d memo e) = EntryPosted"
  by (simp_all add: reversing_entry_def)

lemma reverse_inversion:
  assumes "reverse_journal_entry k now today rid s0 s i dopt memo = Inr (s', r)"
  obtains p e where "find_entry s0 i = Some p"
    "guardJ k s0 s [Some (en_posting_date p), Some (en_posting_date r)] = Inr ()"
    "find_entry s i = Some e" "en_status e = EntryPosted" "lines_of s i \<noteq> []"
    "\<forall>x\<in>set (entries s). en_reversal_of x \<noteq> Some i" "r = reversing_entry rid now (en_posting_date r) memo e"
    "s' = put_entry (e\<lparr>en_status := EntryReversed\<rparr>)
       (s\<lparr>entries := entries s @ [r], line_items := line_items s @ map (flip_line rid) (lines_of s i)\<rparr>)"
proof -
  let ?d = "case dopt of None \<Rightarrow> today | Some d \<Rightarrow> d"
  from assms obtain p where p: "find_entry s0 i = Some p"
    by (auto simp: reverse_journal_entry_def split: option.splits)
  from assms have g: "guardJ k s0 s [Some (en_posting_date p), Some ?d] = Inr ()"
    unfolding reverse_journal_entry_def p option.case Let_def bindR_eq_Inr by auto
  from assms obtain e where e: "find_entry s i = Some e"
    unfolding reverse_journal_entry_def p option.case Let_def bindR_eq_Inr by (auto split: option.splits if_splits)
  from assms have st: "en_status e = EntryPosted" "find_row (\<lambda>x. en_reversal_of x = Some i) (entries s) = None"
    "lines_of s i \<noteq> []"
    unfolding reverse_journal_entry_def p e option.case Let_def bindR_eq_Inr by (auto split: option.splits if_splits)
  from assms st have r: "r = reversing_entry rid now ?d memo e" and
    s': "s' = put_entry (e\<lparr>en_status := EntryReversed\<rparr>)
       (s\<lparr>entries := entries s @ [r], line_items := line_items s @ map (flip_line rid) (lines_of s i)\<rparr>)"
    unfolding reverse_journal_entry_def p e option.case Let_def bindR_eq_Inr
    by (auto simp: insert_rows_eq_Inr bindR_eq_Inr split: if_splits)
  have d: "en_posting_date r = ?d" by (simp add: r reversing_entry_def)
  from that [OF p _ e st(1,3) _ _ s'] g r d st(2) show thesis by (auto simp: find_row_None)
qed

lemma doc_lines_flip:
  "map (\<lambda>l. (li_element l, li_debit l, li_credit l)) (map (flip_line i) ls) =
     map flip_doc_line (map (\<lambda>l. (li_element l, li_debit l, li_credit l)) ls)"
  by (simp add: flip_line_def flip_doc_line_def)

lemma abs_reverse:
  assumes "reverse_journal_entry k now today rid s0 s i dopt memo = Inr (s', r)" "peeked s0 s" "fresh_entry s rid"
    "unmoved s0 s i"
  obtains d ls where "abs_books s i = Some (EntryPosted, d, ls)" "date_open s d" "date_open s (en_posting_date r)" "ls \<noteq> []"
    "abs_books s' = (abs_books s)(i \<mapsto> (EntryReversed, d, ls), rid \<mapsto> (EntryPosted, en_posting_date r, map flip_doc_line ls))"
proof -
  from reverse_inversion [OF assms(1)] obtain p e where p: "find_entry s0 i = Some p"
    and g: "guardJ k s0 s [Some (en_posting_date p), Some (en_posting_date r)] = Inr ()"
    and e: "find_entry s i = Some e" "en_status e = EntryPosted" "lines_of s i \<noteq> []"
    and un: "\<forall>x\<in>set (entries s). en_reversal_of x \<noteq> Some i"
    and r: "r = reversing_entry rid now (en_posting_date r) memo e"
    and s': "s' = put_entry (e\<lparr>en_status := EntryReversed\<rparr>)
       (s\<lparr>entries := entries s @ [r], line_items := line_items s @ map (flip_line rid) (lines_of s i)\<rparr>)" .
  let ?ls = "map (flip_line rid) (lines_of s i)"
  let ?s1 = "s\<lparr>entries := entries s @ [r], line_items := line_items s @ ?ls\<rparr>"
  have id: "en_id r = rid" "en_status r = EntryPosted" "en_id e = i"
    using find_entry_id [OF e(1)] by (subst r, simp, subst r, simp, simp)
  have ne: "i \<noteq> rid" using assms(3) e(1) by (auto simp: fresh_entry_def)
  have "abs_books ?s1 = (abs_books s)(rid \<mapsto> (EntryPosted, en_posting_date r, map flip_doc_line (doc_lines s i)))"
    using abs_insert [of s r ?ls] assms(3) id unfolding doc_lines_flip by (simp add: flip_line_def doc_lines_def)
  moreover have "doc_lines ?s1 i = doc_lines s i"
    using ne by (simp add: doc_lines_def lines_of_append filter_flip)
  moreover have "find_entry ?s1 i = Some e" using e(1) by (simp add: find_entry_append)
  ultimately have abs': "abs_books s' =
      (abs_books s)(i \<mapsto> (EntryReversed, en_posting_date e, doc_lines s i), rid \<mapsto> (EntryPosted, en_posting_date r, map flip_doc_line (doc_lines s i)))"
    using abs_put_entry [of ?s1 "e\<lparr>en_status := EntryReversed\<rparr>" e] id ne
    by (simp add: s' fun_upd_twist)
  have opens: "date_open s (en_posting_date e)" "date_open s (en_posting_date r)"
    using guardJ_open [OF g assms(2)] assms(4) p e(1) by (simp_all add: unmoved_def)
  show thesis using that [OF _ opens _ abs'] e
    by (simp add: abs_books_def doc_lines_def)
qed

lemma journal_steps_documents:
  assumes "je_step s s'"
  shows "doc_step (date_open s) (abs_books s) (abs_books s')"
  using assms
proof cases
  case (created k now tid eid s0 rq e)
  from abs_create [OF created(1,3)] obtain ns where "balanced_lines ns"
    "guardJ k s0 s [Some (cj_date rq)] = Inr ()"
    "abs_books s' = (abs_books s)(eid \<mapsto> (if cj_posted rq then EntryPosted else EntryDraft, cj_date rq, ns))" .
  then show ?thesis
    using doc_step.add [of "abs_books s" eid "date_open s"] guardJ_open [OF _ created(2)] created(3)
    by (auto simp: fresh_entry_def abs_books_def)
next
  case (updated k s0 i rq)
  from abs_update [OF updated] obtain d d' ls ls' where "abs_books s i = Some (EntryDraft, d, ls)"
    "date_open s d" "date_open s d'" "ls' = ls \<or> balanced_lines ls'" "abs_books s' = (abs_books s)(i \<mapsto> (EntryDraft, d', ls'))" .
  with doc_step.revise [of "abs_books s" i d ls "date_open s" d' ls'] show ?thesis by simp
next
  case (deleted k s0 i)
  from abs_delete [OF deleted] obtain d ls where "abs_books s i = Some (EntryDraft, d, ls)" "date_open s d"
    "abs_books s' = (abs_books s)(i := None)" .
  with doc_step.drop [of "abs_books s" i d ls "date_open s"] show ?thesis by simp
next
  case (reversed k now today rid s0 i d memo e)
  from abs_reverse [OF reversed] obtain x ls where r: "abs_books s i = Some (EntryPosted, x, ls)"
    "date_open s x" "date_open s (en_posting_date e)" "ls \<noteq> []"
    "abs_books s' = (abs_books s)(i \<mapsto> (EntryReversed, x, ls), rid \<mapsto> (EntryPosted, en_posting_date e, map flip_doc_line ls))" .
  have "abs_books s rid = None" using reversed(3) by (simp add: abs_books_def fresh_entry_def)
  from doc_step.reverse [of "abs_books s" i x ls rid "date_open s", OF r(1) this r(2-4)] r(5) show ?thesis by simp
qed


definition doc_event :: "(string \<rightharpoonup> doc) \<Rightarrow> (string \<rightharpoonup> doc) \<Rightarrow> bool" where
  "doc_event a b \<longleftrightarrow> (\<exists>open_date. doc_step open_date a b)"

definition record_kept :: "(string \<rightharpoonup> doc) \<Rightarrow> (string \<rightharpoonup> doc) \<Rightarrow> bool" where
  "record_kept a b \<longleftrightarrow> (\<forall>i st d ls. a i = Some (st, d, ls) \<and> st \<noteq> EntryDraft \<longrightarrow>
     b i = Some (st, d, ls) \<or> st = EntryPosted \<and> b i = Some (EntryReversed, d, ls))"

interpretation journal_docs: simulation je_step doc_event abs_books
  by unfold_locales (auto simp: doc_event_def intro: journal_steps_documents)

interpretation docs_books: step_invariant doc_event docs_balanced
  by unfold_locales (auto simp: doc_event_def intro: doc_step_balanced)

interpretation docs_record: step_preorder doc_event record_kept
proof
  show "record_kept s u" if "record_kept s t" "record_kept t u" for s t u
    using that unfolding record_kept_def by (metis entry_status.distinct(1,3,5))
  show "record_kept a b" if "doc_event a b" for a b
    using that unfolding record_kept_def doc_event_def by (fastforce dest: doc_step_kept simp: kept_def)
qed (simp add: record_kept_def)

text \<open>
  C20. Through any sequence of journal operations, documents that balance at the start
  balance, and a document that was posted or reversed keeps its date and lines: the only
  change it can see is posted to reversed, once.
\<close>

theorem journals_keep_the_record:
  assumes "je_step\<^sup>*\<^sup>* s t" "docs_balanced (abs_books s)"
  shows "docs_balanced (abs_books t) \<and>
    (\<forall>i st d ls. abs_books s i = Some (st, d, ls) \<and> st \<noteq> EntryDraft \<longrightarrow>
       abs_books t i = Some (st, d, ls) \<or> st = EntryPosted \<and> abs_books t i = Some (EntryReversed, d, ls))"
  using docs_books.run_keeps [OF journal_docs.run_sim [OF assms(1)] assms(2)]
    docs_record.run_rel [OF journal_docs.run_sim [OF assms(1)]]
  by (auto simp: record_kept_def)

subsection \<open>A reversal and the trial balance\<close>

definition line_net :: "string \<Rightarrow> line_item list \<Rightarrow> int" where
  "line_net el ls = (\<Sum>l\<leftarrow>filter (\<lambda>l. li_element l = el) ls. li_debit l - li_credit l)"

lemma line_net_append [simp]: "line_net el (xs @ ys) = line_net el xs + line_net el ys" "line_net el [] = 0"
  by (simp_all add: line_net_def)

lemma line_net_concat: "line_net el (concat xss) = (\<Sum>xs\<leftarrow>xss. line_net el xs)"
  by (induction xss) simp_all

lemma line_net_flip: "line_net el (map (flip_line i) ls) = - line_net el ls"
  by (induction ls) (auto simp: line_net_def flip_line_def)

lemma tb_lines_net:
  "(\<Sum>l\<leftarrow>tb_lines s a b el. li_debit l) - (\<Sum>l\<leftarrow>tb_lines s a b el. li_credit l) =
     (\<Sum>e\<leftarrow>filter (tb_entry a b) (entries s). line_net el (lines_of s (en_id e)))"
proof -
  have "(\<Sum>l\<leftarrow>ls. li_debit l) - (\<Sum>l\<leftarrow>ls. li_credit l) = (\<Sum>l\<leftarrow>ls. li_debit l - li_credit l)" for ls :: "line_item list"
    by (induction ls) simp_all
  then have "(\<Sum>l\<leftarrow>tb_lines s a b el. li_debit l) - (\<Sum>l\<leftarrow>tb_lines s a b el. li_credit l) =
      line_net el (concat (map (\<lambda>e. lines_of s (en_id e)) (filter (tb_entry a b) (entries s))))"
    by (simp add: tb_lines_def line_net_def)
  then show ?thesis by (simp add: line_net_concat comp_def)
qed

lemma sum_without:
  fixes f :: "entry \<Rightarrow> int"
  assumes "distinct (map en_id es)" "e \<in> set es" "P e"
  shows "(\<Sum>x\<leftarrow>filter P es. f x) = f e + (\<Sum>x\<leftarrow>filter (\<lambda>x. P x \<and> en_id x \<noteq> en_id e) es. f x)"
  using assms
proof (induction es)
  case (Cons x es)
  show ?case
  proof (cases "x = e")
    case True
    with Cons.prems(1) have "filter (\<lambda>x. P x \<and> en_id x \<noteq> en_id e) es = filter P es"
      by (intro filter_cong refl) (simp, metis image_eqI)
    with True Cons.prems(3) show ?thesis by simp
  next
    case False
    with Cons.prems have "e \<in> set es" "en_id x \<noteq> en_id e" by force+
    with Cons False show ?thesis by simp
  qed
qed simp

definition posted_net :: "ledger \<Rightarrow> string \<Rightarrow> int" where
  "posted_net s el = (\<Sum>e\<leftarrow>filter (\<lambda>e. en_status e = EntryPosted) (entries s). line_net el (lines_of s (en_id e)))"

lemma reversal_posted_net:
  assumes "reverse_journal_entry k now today rid s0 s i d memo = Inr (s', r)" "fresh_entry s rid"
    "distinct (map en_id (entries s))"
  shows "posted_net s' el = posted_net s el - 2 * line_net el (lines_of s i)"
proof -
  from reverse_inversion [OF assms(1)] obtain p e where "find_entry s0 i = Some p"
    and "guardJ k s0 s [Some (en_posting_date p), Some (en_posting_date r)] = Inr ()"
    and e: "find_entry s i = Some e" "en_status e = EntryPosted" "lines_of s i \<noteq> []"
    and "\<forall>x\<in>set (entries s). en_reversal_of x \<noteq> Some i"
    and r: "r = reversing_entry rid now (en_posting_date r) memo e"
    and s': "s' = put_entry (e\<lparr>en_status := EntryReversed\<rparr>)
       (s\<lparr>entries := entries s @ [r], line_items := line_items s @ map (flip_line rid) (lines_of s i)\<rparr>)" .
  have i: "en_id e = i" "e \<in> set (entries s)"
    using e(1) unfolding find_entry_def by (auto dest: find_row_Some)
  have rr: "en_id r = rid" "en_status r = EntryPosted"
    by (simp add: arg_cong [OF r, of en_id], simp add: arg_cong [OF r, of en_status])
  have fr: "\<forall>x\<in>set (entries s). en_id x \<noteq> rid" "lines_of s rid = []"
    using assms(2) by (auto simp: fresh_entry_def find_entry_def find_row_None)
  let ?P = "\<lambda>x. en_status x = EntryPosted"
  have ne: "i \<noteq> rid" using fr(1) i by auto
  have "filter ?P (entries s') = filter (\<lambda>x. ?P x \<and> en_id x \<noteq> i) (entries s) @ [r]"
  proof -
    have "filter ?P (update_where (\<lambda>x. en_id x = i) (\<lambda>_. e\<lparr>en_status := EntryReversed\<rparr>) xs) =
        filter (\<lambda>x. ?P x \<and> en_id x \<noteq> i) xs" for xs
      by (induction xs) (auto simp: update_where_def)
    from this [of "entries s @ [r]"] show ?thesis using rr i ne by (simp add: s' put_entry_def)
  qed
  moreover have ls: "lines_of s' j = lines_of s j @ (if j = rid then map (flip_line rid) (lines_of s i) else [])" for j
    by (simp add: s' lines_of_append filter_flip)
  moreover have "(\<Sum>x\<leftarrow>filter (\<lambda>x. ?P x \<and> en_id x \<noteq> i) (entries s). line_net el (lines_of s' (en_id x))) =
      (\<Sum>x\<leftarrow>filter (\<lambda>x. ?P x \<and> en_id x \<noteq> i) (entries s). line_net el (lines_of s (en_id x)))"
    using fr(1) by (intro arg_cong [of _ _ sum_list] map_cong) (auto simp: ls)
  ultimately have "posted_net s' el = (\<Sum>x\<leftarrow>filter (\<lambda>x. ?P x \<and> en_id x \<noteq> i) (entries s). line_net el (lines_of s (en_id x)))
      - line_net el (lines_of s i)"
    using rr fr(2) by (simp add: posted_net_def line_net_flip)
  then show ?thesis
    using sum_without [of "entries s" e ?P "\<lambda>x. line_net el (lines_of s (en_id x))"] assms(3) i e(2)
    by (simp add: posted_net_def)
qed

lemma tb_row_net:
  "row \<in> set (fst (get_trial_balance s None None)) \<Longrightarrow> tb_net row = cents_to_dollars (posted_net s (tb_account row))"
proof -
  assume "row \<in> set (fst (get_trial_balance s None None))"
  then obtain el where "tb_account row = el" "tb_net row = cents_to_dollars (\<Sum>l\<leftarrow>tb_lines s None None el. li_debit l) -
      cents_to_dollars (\<Sum>l\<leftarrow>tb_lines s None None el. li_credit l)"
    by (auto simp: get_trial_balance_def Let_def)
  moreover have "tb_entry None None = (\<lambda>e. en_status e = EntryPosted)" by (auto simp: tb_entry_def)
  ultimately show ?thesis
    using tb_lines_net [of s None None el]
    by (simp add: posted_net_def cents_to_dollars_def flip: of_int_diff diff_divide_distrib)
qed

text \<open>
  C21. Reversing a posted entry does not take its effect out of the trial balance but turns
  it around: the original leaves the posted entries and its mirror image joins them, so
  every account moves by twice the entry's net amount on it, and the effect of the pair is
  the entry with its sides swapped.
\<close>

theorem reversal_swings_trial_balance:
  assumes "reverse_journal_entry k now today rid s0 s i d memo = Inr (s', r)" "fresh_entry s rid"
    "distinct (map en_id (entries s))"
    "row \<in> set (fst (get_trial_balance s None None))" "row' \<in> set (fst (get_trial_balance s' None None))"
    "tb_account row' = tb_account row"
  shows "tb_net row' = tb_net row - 2 * cents_to_dollars (line_net (tb_account row) (lines_of s i))"
  using tb_row_net [OF assms(4)] tb_row_net [OF assms(5)] assms(6) reversal_posted_net [OF assms(1-3), of "tb_account row"]
  by (simp add: cents_to_dollars_def diff_divide_distrib)

subsection \<open>Witnesses\<close>

definition demo_account :: "string \<Rightarrow> string \<Rightarrow> element_row" where
  "demo_account i code = \<lparr>el_id = i, el_code = Some code, el_name = Some i, el_external_source = None,
     el_external_id = None, el_connection = None\<rparr>"

definition demo_rent :: ledger where
  "demo_rent = demo_ledger\<lparr>elements := [demo_account ''el_rent'' ''6100'', demo_account ''el_cash'' ''1000''],
     entries := [\<lparr>en_id = ''je_9'', en_type = ''standard'', en_posting_date = Date 2026 2 20, en_status = EntryPosted,
       en_posted_at = None, en_event = None, en_structure = None, en_transaction = None,
       en_reversal_of = None, en_memo = None\<rparr>],
     line_items := rows_of ''je_9'' [(''el_rent'', 500, 0), (''el_cash'', 0, 500)]\<rparr>"

definition demo_locks :: je_locks where
  "demo_locks = \<lparr>fence_free = (\<lambda>_. True), entry_free = (\<lambda>_. True), event_free = (\<lambda>_. True)\<rparr>"

definition demo_reversal :: "je_error + ledger \<times> entry" where
  "demo_reversal = reverse_journal_entry demo_locks (Time (Date 2026 3 5) 0) (Date 2026 3 5) ''je_10'' demo_rent demo_rent
     ''je_9'' None None"

lemma demo_reversal_ok:
  obtains s' r where "demo_reversal = Inr (s', r)"
proof -
  have "is_ok demo_reversal" by code_simp
  then show thesis using that by (auto simp: is_ok_def split: sum.splits)
qed

lemma demo_rent_wf: "peeked demo_rent demo_rent" "fresh_entry demo_rent ''je_10''" "unmoved demo_rent demo_rent ''je_9''"
  "distinct (map en_id (entries demo_rent))"
  by (simp_all add: peeked_def unmoved_def fresh_entry_def find_entry_def lines_of_def demo_rent_def
      rows_of_def demo_ledger_def demo_period_def period_key_def)

lemma demo_reversal_step: "demo_reversal = Inr (s', r) \<Longrightarrow> je_step demo_rent s'"
  unfolding demo_reversal_def by (rule je_step.reversed [OF _ demo_rent_wf(1-3)])

lemma demo_rent_docs: "abs_books demo_rent ''je_9'' =
    Some (EntryPosted, Date 2026 2 20, [(''el_rent'', 500, 0), (''el_cash'', 0, 500)])"
  "docs_balanced (abs_books demo_rent)"
  by (auto simp: abs_books_def docs_balanced_def balanced_lines_def find_entry_def doc_lines_def lines_of_def demo_rent_def
      rows_of_def split: if_splits)


theorem journals_keep_the_record_witness:
  "\<exists>s' r. demo_reversal = Inr (s', r) \<and> docs_balanced (abs_books s') \<and>
    (\<exists>st. abs_books s' ''je_9'' = Some (st, Date 2026 2 20, [(''el_rent'', 500, 0), (''el_cash'', 0, 500)]))"
proof -
  obtain s' r where r: "demo_reversal = Inr (s', r)" by (rule demo_reversal_ok)
  from journals_keep_the_record [OF r_into_rtranclp [where r = je_step, OF demo_reversal_step [OF r]] demo_rent_docs(2)]
  show ?thesis using demo_rent_docs(1) r by blast
qed

text \<open>The reversed rent of five dollars leaves a credit of five dollars on the rent account.\<close>

theorem reversal_swings_trial_balance_witness:
  "\<exists>s' r row row'. demo_reversal = Inr (s', r) \<and> row \<in> set (fst (get_trial_balance demo_rent None None)) \<and>
     row' \<in> set (fst (get_trial_balance s' None None)) \<and> tb_account row = ''el_rent'' \<and> tb_account row' = ''el_rent'' \<and>
     tb_net row = 5 \<and> tb_net row' = - 5"
proof -
  obtain s' r where r: "demo_reversal = Inr (s', r)" by (rule demo_reversal_ok)
  have "list_ex (\<lambda>row. tb_account row = ''el_rent'' \<and> tb_net row = 5) (fst (get_trial_balance demo_rent None None))"
    by code_simp
  then obtain row where row: "row \<in> set (fst (get_trial_balance demo_rent None None))" "tb_account row = ''el_rent''" "tb_net row = 5"
    by (auto simp: list_ex_iff)
  have "case demo_reversal of Inr (s', r) \<Rightarrow> list_ex (\<lambda>row. tb_account row = ''el_rent'') (fst (get_trial_balance s' None None)) | _ \<Rightarrow> False"
    by code_simp
  then obtain row' where row': "row' \<in> set (fst (get_trial_balance s' None None))" "tb_account row' = ''el_rent''"
    by (auto simp: r list_ex_iff)
  have "line_net ''el_rent'' (lines_of demo_rent ''je_9'') = 500" by code_simp
  with reversal_swings_trial_balance [OF r [unfolded demo_reversal_def] demo_rent_wf(2,4) row(1) row'(1)] row row' r
  show ?thesis by (auto simp: cents_to_dollars_def)
qed

end
