(* ===== verification/EventCommands.thy ===== *)
theory EventCommands
  imports CloseResults JournalFacts
begin

text \<open>
  Status transitions and corrections of events (\<open>update_event_block\<close> in
  \<open>operations/event_block/commands.py\<close>) and what every ledger operation keeps together: an
  event that was voided or superseded has nothing in the books.

  The platform's connections are a list of rows, as in the write-back. The registry of
  handlers is the parameter \<open>fire\<close>: it returns the ledger unchanged for an event type that
  has none. \<open>s0\<close> is the ledger at the unlocked peek. Description and action of an event are
  left out.
\<close>

subsection \<open>Transitions\<close>

definition valid_transitions :: "event_status \<Rightarrow> event_status list" where
  "valid_transitions st = (case st of
     Captured \<Rightarrow> [Committed, Voided, Superseded]
   | Classified \<Rightarrow> [Committed, EvPending, Fulfilled, Voided, Superseded]
   | Committed \<Rightarrow> [EvPending, Fulfilled, Voided, Superseded]
   | EvPending \<Rightarrow> [Fulfilled, Voided, Superseded]
   | Fulfilled \<Rightarrow> [Voided, Superseded]
   | Voided \<Rightarrow> []
   | Superseded \<Rightarrow> [])"

datatype event_error =
    NoSuchEvent string
  | EventRowHeld string
  | EventGuard guard_error
  | InvalidTransition event_status event_status
  | NeedsSuccessor
  | SupersedesItself
  | NoSuccessor string
  | AlreadyPublished string
  | EntriesLanded string nat
  | TransactionsLanded string nat
  | ConnectionNotOnGraph string
  | HandlerFailed

definition guardE :: "(string \<times> string \<Rightarrow> bool) \<Rightarrow> ledger \<Rightarrow> ledger \<Rightarrow> pdate list \<Rightarrow> event_error + unit" where
  "guardE free s0 s ds = (case assert_period_not_closed free s0 s (map Some ds) of
     Inl e \<Rightarrow> Inl (EventGuard e) | Inr u \<Rightarrow> Inr u)"

definition retraction_fence_dates :: "ledger \<Rightarrow> string \<Rightarrow> pdate list" where
  "retraction_fence_dates s i = sort (remdups
     (map en_posting_date (filter (\<lambda>x. en_event x = Some i) (entries s)) @
      map tx_date (filter (\<lambda>x. tx_event x = Some i) (transactions s))))"

definition landed :: "string \<Rightarrow> entry \<Rightarrow> bool" where
  "landed i x \<longleftrightarrow> en_event x = Some i \<and> (en_status x = EntryPosted \<or> en_status x = EntryReversed)"

definition assert_retractable :: "ledger \<Rightarrow> event \<Rightarrow> event_error + unit" where
  "assert_retractable s e =
     (if truthy (meta_get e ''qb_external_id'') then Inl (AlreadyPublished (ev_id e))
      else let n = count_where (landed (ev_id e)) (entries s);
               m = count_where (\<lambda>x. tx_event x = Some (ev_id e) \<and> tx_status x = ''posted'') (transactions s)
           in if n \<noteq> 0 then Inl (EntriesLanded (ev_id e) n)
              else if m \<noteq> 0 then Inl (TransactionsLanded (ev_id e) m)
              else Inr ())"

record event_update =
  ue_event :: string
  ue_transition :: "event_status option"
  ue_superseded_by :: "string option"
  ue_effective_at :: "ptime option"
  ue_patch :: "(string \<times> string) list"
  ue_obligated_by :: "string option"
  ue_discharges :: "string option"

definition patch_meta :: "(string \<times> string) list \<Rightarrow> event \<Rightarrow> event" where
  "patch_meta kvs e = foldl (\<lambda>e (k, v). meta_set k v e) e kvs"

definition require_connection_on_graph :: "connection list \<Rightarrow> string \<Rightarrow> string \<Rightarrow> event_error + unit" where
  "require_connection_on_graph conns g i =
     (case find_row (\<lambda>c. cn_id c = i \<and> \<not> cn_deleted c) conns of
        None \<Rightarrow> Inl (ConnectionNotOnGraph i)
      | Some c \<Rightarrow> if cn_graph c \<noteq> g then Inl (ConnectionNotOnGraph i) else Inr ())"

definition validate_routed_connection :: "connection list \<Rightarrow> string \<Rightarrow> (string \<times> string) list \<Rightarrow> event_error + unit" where
  "validate_routed_connection conns g kvs =
     (let c = map_of kvs ''connection_id'' in
      if truthy c then require_connection_on_graph conns g (the c) else Inr ())"

text \<open>The fences taken before the row locks, from the peeked row.\<close>

definition transition_fences ::
  "(string \<times> string \<Rightarrow> bool) \<Rightarrow> ledger \<Rightarrow> ledger \<Rightarrow> event \<Rightarrow> event_update \<Rightarrow> event_error + unit" where
  "transition_fences free s0 s peek u =
     bindR (if ue_transition u = Some Committed
            then guardE free s0 s (sort (remdups (posting_date_for_event peek #
                   (case ue_effective_at u of None \<Rightarrow> [] | Some t \<Rightarrow> [time_date t]))))
            else Inr ()) (\<lambda>_.
     if (case ue_transition u of None \<Rightarrow> False | Some t \<Rightarrow> retracted t)
     then (let ds = retraction_fence_dates s0 (ev_id peek) in
           if ds = [] then Inr () else guardE free s0 s ds)
     else Inr ())"

text \<open>The transition decided under the locks: both sides of a correction, and the new status.\<close>

definition link_successor :: "ledger \<Rightarrow> event \<Rightarrow> string option \<Rightarrow> event_error + ledger \<times> event" where
  "link_successor s e by =
     (case by of
        None \<Rightarrow> Inl NeedsSuccessor
      | Some j \<Rightarrow>
          if j = ev_id e then Inl SupersedesItself
          else case find_event s j of
                 None \<Rightarrow> Inl (NoSuccessor j)
               | Some x \<Rightarrow> Inr (put_event (x\<lparr>ev_replaces := Some (ev_id e)\<rparr>) s, e\<lparr>ev_replaced_by := Some j\<rparr>))"

definition apply_transition :: "ledger \<Rightarrow> event \<Rightarrow> event_status \<Rightarrow> string option \<Rightarrow> event_error + ledger \<times> event" where
  "apply_transition s e t by =
     (if t \<notin> set (valid_transitions (ev_status e)) then Inl (InvalidTransition (ev_status e) t)
      else bindR (if retracted t then assert_retractable s e else Inr ()) (\<lambda>_.
           bindR (if t = Superseded then link_successor s e by else Inr (s, e)) (\<lambda>(s1, e1).
           Inr (s1, e1\<lparr>ev_status := t\<rparr>))))"

text \<open>The corrected fields, and the handler of an event that is committed now.\<close>

definition corrected_event :: "event_update \<Rightarrow> event \<Rightarrow> event" where
  "corrected_event u e =
     (let e1 = (case ue_effective_at u of None \<Rightarrow> e | Some t \<Rightarrow> e\<lparr>ev_effective_at := Some t\<rparr>);
          e2 = patch_meta (ue_patch u) e1;
          e3 = (case ue_obligated_by u of None \<Rightarrow> e2 | Some j \<Rightarrow> e2\<lparr>ev_obligated_by := Some j\<rparr>)
      in case ue_discharges u of None \<Rightarrow> e3 | Some j \<Rightarrow> e3\<lparr>ev_discharges := Some j\<rparr>)"

definition fire_on_commit ::
  "(event \<Rightarrow> ledger \<Rightarrow> ledger option) \<Rightarrow> bool \<Rightarrow> event \<Rightarrow> ledger \<Rightarrow> event_error + ledger" where
  "fire_on_commit fire fires e s =
     (let s1 = put_event e s in
      if fires then (case fire e s1 of None \<Rightarrow> Inl HandlerFailed | Some s2 \<Rightarrow> Inr s2) else Inr s1)"

text \<open>Every row the update writes, locked in one statement.\<close>

definition wanted_rows :: "event_update \<Rightarrow> string list" where
  "wanted_rows u = ue_event u #
     (if ue_transition u = Some Superseded \<and> truthy (ue_superseded_by u) then [the (ue_superseded_by u)] else [])"

definition update_event_block ::
  "(string \<times> string \<Rightarrow> bool) \<Rightarrow> (string \<Rightarrow> bool) \<Rightarrow> connection list \<Rightarrow> string \<Rightarrow>
   (event \<Rightarrow> ledger \<Rightarrow> ledger option) \<Rightarrow> ledger \<Rightarrow> ledger \<Rightarrow> event_update \<Rightarrow> event_error + ledger" where
  "update_event_block free unlocked conns g fire s0 s u =
     (case find_event s0 (ue_event u) of
        None \<Rightarrow> Inl (NoSuchEvent (ue_event u))
      | Some peek \<Rightarrow>
          bindR (transition_fences free s0 s peek u) (\<lambda>_.
          if \<not> list_all unlocked (wanted_rows u) then Inl (EventRowHeld (ue_event u))
          else case find_event s (ue_event u) of
            None \<Rightarrow> Inl (NoSuchEvent (ue_event u))
          | Some e \<Rightarrow>
              bindR (case ue_transition u of None \<Rightarrow> Inr (s, e)
                     | Some t \<Rightarrow> apply_transition s e t (ue_superseded_by u)) (\<lambda>(s1, e1).
              bindR (if ue_patch u = [] then Inr () else validate_routed_connection conns g (ue_patch u)) (\<lambda>_.
              fire_on_commit fire (ue_transition u = Some Committed \<and> (ev_status e = Captured \<or> ev_status e = Classified))
                (corrected_event u e1) s1))))"

subsection \<open>Nothing in the books of a retracted event\<close>

definition books_live :: "ledger \<Rightarrow> bool" where
  "books_live s \<longleftrightarrow> distinct (map ev_id (events s)) \<and>
     (\<forall>e\<in>set (events s). retracted (ev_status e) \<longrightarrow>
        (\<forall>x\<in>set (entries s). en_event x = Some (ev_id e) \<longrightarrow> en_status x = EntryDraft))"

text \<open>
  What is asked of a handler: the rows it adds belong to its own event or to none, it lands
  no other event's draft, and it retracts no event.
\<close>

definition handler_keeps :: "(event \<Rightarrow> ledger \<Rightarrow> ledger option) \<Rightarrow> bool" where
  "handler_keeps fire \<longleftrightarrow> (\<forall>e s s'. fire e s = Some s' \<longrightarrow>
     map ev_id (events s') = map ev_id (events s) \<and>
     (\<forall>v'\<in>set (events s'). retracted (ev_status v') \<longrightarrow> (\<exists>v\<in>set (events s). ev_id v = ev_id v' \<and> retracted (ev_status v))) \<and>
     (\<forall>x'\<in>set (entries s'). en_event x' = None \<or> en_event x' = Some (ev_id e) \<or>
        (\<exists>x\<in>set (entries s). en_event x = en_event x' \<and> (en_status x = EntryDraft \<longrightarrow> en_status x' = EntryDraft))))"

inductive ledger_step :: "ledger \<Rightarrow> ledger \<Rightarrow> bool" where
  patched: "update_event_block free unlocked conns g fire s0 s u = Inr s' \<Longrightarrow> handler_keeps fire \<Longrightarrow> ledger_step s s'"
| published: "execute_event_block now conns qb unlocked free g acquire conn i s = Inr (s', r) \<Longrightarrow> ledger_step s s'"
| closed: "close w rq s = (s', res) \<Longrightarrow> quiet_world w \<Longrightarrow> ledger_step s s'"
| journaled: "je_step s s' \<Longrightarrow> ledger_step s s'"

definition dead :: "ledger \<Rightarrow> string \<Rightarrow> bool" where
  "dead s i \<longleftrightarrow> (\<exists>e\<in>set (events s). ev_id e = i \<and> retracted (ev_status e))"

definition live_rows :: "(string \<Rightarrow> bool) \<Rightarrow> entry list \<Rightarrow> bool" where
  "live_rows D xs \<longleftrightarrow> (\<forall>x\<in>set xs. \<forall>i. en_event x = Some i \<longrightarrow> D i \<longrightarrow> en_status x = EntryDraft)"

lemma books_live_iff: "books_live s \<longleftrightarrow> distinct (map ev_id (events s)) \<and> live_rows (dead s) (entries s)"
  by (auto simp: books_live_def live_rows_def dead_def)

lemma live_rows_mono: "live_rows D xs \<Longrightarrow> (\<And>i. D' i \<Longrightarrow> D i) \<Longrightarrow> live_rows D' xs"
  by (auto simp: live_rows_def)

lemma dead_put_event:
  assumes "find_event s (ev_id e) = Some e0"
  shows "dead (put_event e s) i \<longleftrightarrow> (if i = ev_id e then retracted (ev_status e) else dead s i)"
proof -
  have "(\<exists>x\<in>set (update_where (\<lambda>x. ev_id x = ev_id e) (\<lambda>_. e) xs). ev_id x = i \<and> retracted (ev_status x)) \<longleftrightarrow>
      (if i = ev_id e then (\<exists>x\<in>set xs. ev_id x = ev_id e) \<and> retracted (ev_status e)
       else (\<exists>x\<in>set xs. ev_id x = i \<and> retracted (ev_status x)))" for xs
    by (induction xs) auto
  moreover have "\<exists>x\<in>set (events s). ev_id x = ev_id e"
    using assms unfolding find_event_def by (auto dest: find_row_Some)
  ultimately show ?thesis by (simp add: dead_def put_event_def)
qed

lemma put_event_tables [simp]:
  "entries (put_event e s) = entries s" "map ev_id (events (put_event e s)) = map ev_id (events s)"
  "transactions (put_event e s) = transactions s"
proof -
  have "map ev_id (update_where (\<lambda>x. ev_id x = ev_id e) (\<lambda>_. e) xs) = map ev_id xs" for xs
    by (induction xs) auto
  then show "map ev_id (events (put_event e s)) = map ev_id (events s)" by (simp add: put_event_def)
qed (simp_all add: put_event_def)

lemma books_live_put:
  assumes "books_live s" "find_event s (ev_id e) = Some e0"
    "retracted (ev_status e) \<Longrightarrow> \<forall>x\<in>set (entries s). en_event x = Some (ev_id e) \<longrightarrow> en_status x = EntryDraft"
  shows "books_live (put_event e s)"
  using assms by (auto simp: books_live_iff live_rows_def dead_put_event)

lemma live_event: "books_live s \<Longrightarrow> find_event s i = Some e \<Longrightarrow> dead s i \<longleftrightarrow> retracted (ev_status e)"
proof -
  assume "books_live s" and f: "find_event s i = Some e"
  then have d: "distinct (map ev_id (events s))" by (simp add: books_live_def)
  have e: "e \<in> set (events s)" "ev_id e = i" using f unfolding find_event_def by (auto dest: find_row_Some)
  have "x = e" if "x \<in> set (events s)" "ev_id x = i" for x
    using distinct_find_event [OF d that(1)] that(2) f by simp
  with e show ?thesis unfolding dead_def by blast
qed

subsection \<open>Each kind of step\<close>

lemma execute_books_live:
  assumes "execute_event_block now conns qb unlocked free g acquire conn i s = Inr (s', r)" "books_live s"
  shows "books_live s'"
  using assms(1)
proof (cases rule: execute_cases)
  case (accepted e c ids)
  let ?e = "(meta_pop ''last_outbound_error'' (meta_set ''routed_via'' c
      (meta_set ''qb_external_id'' (join_with '','' ids) e)))\<lparr>ev_status := Fulfilled\<rparr>"
  have i: "ev_id e = i" using accepted(1) by (rule find_event_id)
  have "books_live (put_event ?e s)"
    using books_live_put [OF assms(2), of ?e] accepted(1) i by (simp add: retracted_def)
  moreover have "\<not> dead (put_event ?e s) i"
    using dead_put_event [of s ?e e] accepted(1) i by (simp add: retracted_def)
  moreover have "events s' = events (put_event ?e s)" "entries s' = update_where (\<lambda>x. en_event x = Some i)
      (\<lambda>x. x\<lparr>en_status := EntryPosted, en_posted_at := Some now\<rparr>) (entries (put_event ?e s))"
    using i by (simp_all add: accepted(4) accept_publication_def Let_def)
  ultimately show ?thesis
    by (auto simp: books_live_iff live_rows_def dead_def update_where_def split: if_splits)
next
  case (rejected e err)
  then show ?thesis
    using books_live_put [OF assms(2), of "(meta_set ''last_outbound_error'' err e)\<lparr>ev_status := EvPending\<rparr>" e]
      find_event_id [OF rejected(1)]
    by (simp add: reject_publication_def retracted_def)
qed (use assms(2) in simp)

lemma publish_each_books_live:
  "publish_each now conns qb unlocked g conn rows s = (s', fails) \<Longrightarrow> books_live s \<Longrightarrow> books_live s'"
proof (induction rows arbitrary: s s' fails)
  case (Cons row rows)
  obtain en ev where row: "row = (en, ev)" by fastforce
  show ?case
  proof (cases "execute_event_block now conns qb unlocked (\<lambda>_. True) g False (Some conn) (ev_id ev) s")
    case (Inl err)
    with Cons.prems row obtain f where "publish_each now conns qb unlocked g conn rows s = (s', f)"
      by (auto split: prod.splits)
    from Cons.IH [OF this Cons.prems(2)] show ?thesis .
  next
    case (Inr x)
    obtain t r where x: "x = (t, r)" by fastforce
    with Inr Cons.prems row obtain f where "publish_each now conns qb unlocked g conn rows t = (s', f)"
      by (auto split: prod.splits)
    from Cons.IH [OF this execute_books_live [OF Inr [unfolded x] Cons.prems(2)]] show ?thesis .
  qed
qed simp

lemma publish_books_live:
  "publish_drafts_to_qb now conns qb unlocked s g a b = (s', r) \<Longrightarrow> books_live s \<Longrightarrow> books_live s'"
  by (auto simp: publish_drafts_to_qb_def Let_def dest: publish_each_books_live
      split: option.splits if_splits prod.splits)

lemma post_drafts_books_live:
  assumes "entries s' = update_where (to_post s a b) (posted_now now) (entries s)" "events s' = events s" "books_live s"
  shows "books_live s'"
proof -
  have "retracted_event s x" if "en_event x = Some i" "dead s i" for x i
    using that by (auto simp: retracted_event_def dead_def list_ex_iff)
  moreover have "dead s' = dead s" using assms(2) by (simp add: dead_def fun_eq_iff)
  ultimately show ?thesis
    using assms unfolding books_live_iff live_rows_def assms(1) update_where_def
    by (auto simp: to_post_def posted_now_def split: if_splits)
qed

lemma close_books_live:
  assumes "close w rq s = (s', res)" "quiet_world w" "books_live s"
  shows "books_live s'"
proof (cases res)
  case (Inr r)
  from close_inversion [OF assms(1) [unfolded Inr]] obtain gate a b s1 n where
    "closeable_gate s (rq_graph rq) (rq_period rq) (env_today (w_env w)) (rq_options rq) = Inr gate"
    "is_closeable gate" "period_date_range (rq_period rq) = Inr (a, b)" "preflight_bs_check s a b = Inr ()"
    and p: "publish_drafts_to_qb (env_now (w_env w)) (w_conns w) (w_qb w) (w_unlocked w) s (rq_graph rq) a b = (s1, Inr n)"
    and d: "close_database w rq gate a b n s1 = Inr (s', r)" .
  from close_database_effect [OF d assms(2)] post_drafts_books_live publish_books_live [OF p assms(3)]
  show ?thesis by blast
next
  case (Inl e)
  have "s' = s \<or> (\<exists>a b r. publish_drafts_to_qb (env_now (w_env w)) (w_conns w) (w_qb w) (w_unlocked w) s (rq_graph rq) a b = (s', r))"
    using assms(1) unfolding Inl close_def Let_def by (auto split: sum.splits if_splits prod.splits)
  then show ?thesis using publish_books_live assms(3) by blast
qed

lemma journal_events: "je_step s s' \<Longrightarrow> events s' = events s"
proof (induction rule: je_step.induct)
  case (created k now tid eid s0 s rq s' e)
  then show ?case
    by (auto simp: create_journal_entry_def bindR_eq_Inr insert_rows_eq_Inr add_transaction_def split: prod.splits)
next
  case (updated k s0 s i rq s')
  then show ?case
    by (auto simp: update_journal_entry_def bindR_eq_Inr Let_def put_entry_def replace_lines_def
        split: prod.splits if_splits option.splits)
next
  case (deleted k s0 s i s')
  then show ?case
    by (auto simp: delete_journal_entry_def bindR_eq_Inr split: prod.splits if_splits)
next
  case (reversed k now today rid s0 s i d memo s' e)
  from reversed(1) show ?case by (rule reverse_inversion) (simp add: put_entry_def)
qed

text \<open>A row after a journal operation belongs to no event, or was there with the same event and as far landed.\<close>

lemma journal_rows:
  assumes "je_step s s'" "x' \<in> set (entries s')"
  shows "en_event x' = None \<or> (\<exists>x\<in>set (entries s). en_event x = en_event x' \<and> (en_status x = EntryDraft \<longrightarrow> en_status x' = EntryDraft))"
  using assms
proof (induction rule: je_step.induct)
  case (created k now tid eid s0 s rq s' e)
  then show ?case
    by (auto simp: create_journal_entry_def bindR_eq_Inr insert_rows_eq_Inr add_transaction_def created_entry_def
        split: prod.splits if_splits)
next
  case (updated k s0 s i rq s')
  then obtain e owner s1 e' where l: "lock_draft k s0 s i (case uj_date rq of Some d \<Rightarrow> d | None \<Rightarrow> None) = Inr (e, owner)"
    and s': "s' = put_entry e' s1" "entries s1 = entries s" "en_event e' = en_event e" "en_status e' = en_status e"
    unfolding update_journal_entry_def Let_def
    by (auto simp: bindR_eq_Inr set_field_def replace_lines_def split: if_splits option.splits)
  from lock_draft_cases [OF l] have "e \<in> set (entries s)" by (metis find_entry_def find_row_Some)
  with updated(3) s' show ?case by (auto simp: put_entry_def update_where_def split: if_splits)
next
  case (deleted k s0 s i s')
  then show ?case
    by (auto simp: delete_journal_entry_def bindR_eq_Inr split: prod.splits if_splits)
next
  case (reversed k now today rid s0 s i d memo s' r)
  from reverse_inversion [OF reversed(1)] obtain p e where "find_entry s0 i = Some p"
    "guardJ k s0 s [Some (en_posting_date p), Some (en_posting_date r)] = Inr ()"
    and e: "find_entry s i = Some e" "en_status e = EntryPosted" "lines_of s i \<noteq> []"
    "\<forall>x\<in>set (entries s). en_reversal_of x \<noteq> Some i" and r: "r = reversing_entry rid now (en_posting_date r) memo e"
    and s': "s' = put_entry (e\<lparr>en_status := EntryReversed\<rparr>)
       (s\<lparr>entries := entries s @ [r], line_items := line_items s @ map (flip_line rid) (lines_of s i)\<rparr>)" .
  have "e \<in> set (entries s)" using e(1) unfolding find_entry_def by (auto dest: find_row_Some)
  moreover have "en_event r = None" using arg_cong [OF r, of en_event] by (simp add: reversing_entry_def)
  ultimately show ?case using reversed(5) e(2) by (auto simp: s' put_entry_def update_where_def split: if_splits)
qed

lemma journal_books_live:
  assumes "je_step s s'" "books_live s"
  shows "books_live s'"
  using assms(2) journal_rows [OF assms(1)] journal_events [OF assms(1)]
  by (fastforce simp: books_live_iff live_rows_def dead_def)

lemma apply_transition_facts:
  assumes "apply_transition s e t by = Inr (s1, e1)"
  shows "ev_id e1 = ev_id e \<and> ev_status e1 = t \<and> t \<in> set (valid_transitions (ev_status e)) \<and>
    (retracted t \<longrightarrow> \<not> truthy (meta_get e ''qb_external_id'') \<and> (\<forall>x\<in>set (entries s). \<not> landed (ev_id e) x)) \<and>
    (s1 = s \<or> (\<exists>x j. find_event s j = Some x \<and> j \<noteq> ev_id e \<and> s1 = put_event (x\<lparr>ev_replaces := Some (ev_id e)\<rparr>) s))"
proof -
  from assms have t: "t \<in> set (valid_transitions (ev_status e))"
    and r: "(if retracted t then assert_retractable s e else Inr ()) = Inr ()"
    and l: "\<exists>e2. (if t = Superseded then link_successor s e by else Inr (s, e)) = Inr (s1, e2) \<and> e1 = e2\<lparr>ev_status := t\<rparr>"
    by (auto simp: apply_transition_def bindR_eq_Inr split: if_splits)
  have "retracted t \<Longrightarrow> \<not> truthy (meta_get e ''qb_external_id'') \<and> (\<forall>x\<in>set (entries s). \<not> landed (ev_id e) x)"
    using r by (auto simp: assert_retractable_def Let_def count_where_def filter_empty_conv split: if_splits)
  with t l show ?thesis
    by (auto simp: link_successor_def split: if_splits option.splits)
qed

lemma patch_meta_fields [simp]:
  "ev_id (patch_meta kvs e) = ev_id e" "ev_status (patch_meta kvs e) = ev_status e"
proof -
  have "ev_id (patch_meta kvs e) = ev_id e \<and> ev_status (patch_meta kvs e) = ev_status e"
    by (induction kvs arbitrary: e) (auto simp: patch_meta_def meta_set_def split: prod.splits)
  then show "ev_id (patch_meta kvs e) = ev_id e" "ev_status (patch_meta kvs e) = ev_status e" by simp_all
qed

lemma corrected_event_fields:
  "ev_id (corrected_event u e) = ev_id e" "ev_status (corrected_event u e) = ev_status e"
  by (simp_all add: corrected_event_def Let_def split: option.splits)

lemma update_inversion:
  assumes "update_event_block free unlocked conns g fire s0 s u = Inr s'"
  obtains e s1 e1 e3 where "find_event s (ue_event u) = Some e"
    "(case ue_transition u of None \<Rightarrow> Inr (s, e) | Some t \<Rightarrow> apply_transition s e t (ue_superseded_by u)) = Inr (s1, e1)"
    "ev_id e3 = ev_id e1" "ev_status e3 = ev_status e1"
    "s' = put_event e3 s1 \<or> ue_transition u = Some Committed \<and> fire e3 (put_event e3 s1) = Some s'"
proof -
  from assms obtain peek where peek: "find_event s0 (ue_event u) = Some peek"
    by (auto simp: update_event_block_def split: option.splits)
  from assms obtain e where e: "find_event s (ue_event u) = Some e"
    unfolding update_event_block_def peek option.case bindR_eq_Inr by (auto split: option.splits if_splits)
  from assms obtain s1 e1 where
    t: "(case ue_transition u of None \<Rightarrow> Inr (s, e) | Some t \<Rightarrow> apply_transition s e t (ue_superseded_by u)) = Inr (s1, e1)"
    and rest: "fire_on_commit fire (ue_transition u = Some Committed \<and> (ev_status e = Captured \<or> ev_status e = Classified))
      (corrected_event u e1) s1 = Inr s'"
    unfolding update_event_block_def peek e option.case bindR_eq_Inr
    by (auto simp: bindR_eq_Inr split: if_splits)
  from that [OF e t corrected_event_fields] rest show thesis
    by (auto simp: fire_on_commit_def Let_def split: if_splits option.splits)
qed

lemma not_landed: "\<not> landed i x \<Longrightarrow> en_event x = Some i \<Longrightarrow> en_status x = EntryDraft"
  by (cases "en_status x") (auto simp: landed_def)

lemma update_books_live:
  assumes "update_event_block free unlocked conns g fire s0 s u = Inr s'" "handler_keeps fire" "books_live s"
  shows "books_live s'"
proof -
  from update_inversion [OF assms(1)] obtain e s1 e1 e3 where e: "find_event s (ue_event u) = Some e"
    and t: "(case ue_transition u of None \<Rightarrow> Inr (s, e) | Some t \<Rightarrow> apply_transition s e t (ue_superseded_by u)) = Inr (s1, e1)"
    and e3: "ev_id e3 = ev_id e1" "ev_status e3 = ev_status e1"
    and s': "s' = put_event e3 s1 \<or> ue_transition u = Some Committed \<and> fire e3 (put_event e3 s1) = Some s'" .
  have tr: "ev_id e1 = ev_id e \<and> (retracted (ev_status e1) \<longrightarrow> retracted (ev_status e) \<or> (\<forall>x\<in>set (entries s). \<not> landed (ev_id e) x)) \<and>
     (ue_transition u = Some Committed \<longrightarrow> ev_status e1 = Committed) \<and>
     (s1 = s \<or> (\<exists>x j. find_event s j = Some x \<and> j \<noteq> ev_id e \<and> s1 = put_event (x\<lparr>ev_replaces := Some (ev_id e)\<rparr>) s))"
    using t apply_transition_facts [of s e _ "ue_superseded_by u" s1 e1] by (cases "ue_transition u") auto
  have i: "ev_id e = ue_event u" using e by (rule find_event_id)
  have s1: "books_live s1 \<and> find_event s1 (ev_id e) = Some e \<and> entries s1 = entries s"
  proof (cases "s1 = s")
    case True
    with e i assms(3) show ?thesis by simp
  next
    case False
    with tr obtain x j where x: "find_event s j = Some x" "j \<noteq> ev_id e" "s1 = put_event (x\<lparr>ev_replaces := Some (ev_id e)\<rparr>) s"
      by blast
    have j: "ev_id x = j" using x(1) by (rule find_event_id)
    have "books_live s1"
      unfolding x(3) using x(1) j live_event [OF assms(3) x(1)] assms(3)
      by (intro books_live_put [of s _ x]) (auto simp: books_live_iff live_rows_def)
    with x j e i show ?thesis
      using find_event_put_other [of "x\<lparr>ev_replaces := Some (ev_id e)\<rparr>" "ev_id e" s] by simp
  qed
  have draft: "retracted (ev_status e3) \<Longrightarrow> \<forall>x\<in>set (entries s1). en_event x = Some (ev_id e3) \<longrightarrow> en_status x = EntryDraft"
  proof -
    assume r: "retracted (ev_status e3)"
    show "\<forall>x\<in>set (entries s1). en_event x = Some (ev_id e3) \<longrightarrow> en_status x = EntryDraft"
    proof (cases "retracted (ev_status e)")
      case True
      with s1 live_event [of s1 "ev_id e" e] e3 tr show ?thesis by (simp add: books_live_iff live_rows_def)
    next
      case False
      with r e3 tr have "\<forall>x\<in>set (entries s). \<not> landed (ev_id e) x" by simp
      then have "\<forall>x\<in>set (entries s). en_event x = Some (ev_id e) \<longrightarrow> en_status x = EntryDraft"
        using not_landed by blast
      with s1 e3 tr show ?thesis by simp
    qed
  qed
  from s1 e3 tr have f: "find_event s1 (ev_id e3) = Some e" by simp
  from books_live_put [OF _ f draft] s1 have b2: "books_live (put_event e3 s1)" by blast
  show ?thesis
  proof (cases "s' = put_event e3 s1")
    case False
    with s' tr have fi: "fire e3 (put_event e3 s1) = Some s'" and c: "ev_status e3 = Committed" using e3 by auto
    from assms(2) fi have h: "map ev_id (events s') = map ev_id (events (put_event e3 s1))"
      "\<And>i. dead s' i \<Longrightarrow> dead (put_event e3 s1) i"
      "\<And>x'. x' \<in> set (entries s') \<Longrightarrow> en_event x' = None \<or> en_event x' = Some (ev_id e3) \<or>
        (\<exists>x\<in>set (entries (put_event e3 s1)). en_event x = en_event x' \<and> (en_status x = EntryDraft \<longrightarrow> en_status x' = EntryDraft))"
      unfolding handler_keeps_def dead_def by blast+
    have "\<not> dead (put_event e3 s1) (ev_id e3)" using dead_put_event [OF f] c by (simp add: retracted_def)
    with h b2 show ?thesis by (fastforce simp: books_live_iff live_rows_def)
  qed (use b2 in simp)
qed

lemma ledger_step_books_live:
  assumes "ledger_step s t" "books_live s"
  shows "books_live t"
  using assms(1)
proof cases
  case (patched free unlocked conns g fire s0 v)
  from update_books_live [OF patched assms(2)] show ?thesis .
next
  case (published now conns qb unlocked free g acquire conn i r)
  from execute_books_live [OF published assms(2)] show ?thesis .
next
  case (closed w rq res)
  from close_books_live [OF closed assms(2)] show ?thesis .
next
  case journaled
  from journal_books_live [OF journaled assms(2)] show ?thesis .
qed

interpretation books: step_invariant ledger_step books_live
  by unfold_locales (rule ledger_step_books_live)

text \<open>
  Whatever sequence of status updates, publications, closes and journal operations runs,
  an event that is voided or superseded has no posted or reversed entry: a retraction is
  refused once anything landed, and nothing of a retracted event is posted afterwards.
\<close>

theorem retracted_events_stay_out_of_the_books:
  assumes "ledger_step\<^sup>*\<^sup>* s t" "books_live s"
  shows "books_live t"
  using assms by (rule books.run_keeps)

text \<open>Voiding the obligation of a draft, then closing the month without it.\<close>

definition demo_void :: "event_error + ledger" where
  "demo_void = update_event_block (\<lambda>_. True) (\<lambda>_. True) [] ''kg1'' (\<lambda>_ s. Some s) demo_due_books demo_due_books
     \<lparr>ue_event = ''ev1'', ue_transition = Some Voided, ue_superseded_by = None, ue_effective_at = None, ue_patch = [],
      ue_obligated_by = None, ue_discharges = None\<rparr>"

theorem retracted_events_stay_out_of_the_books_witness:
  "\<exists>s s'. demo_void = Inr s \<and> fst (close (demo_world []) demo_request s) = s' \<and>
     dead s' ''ev1'' \<and> (\<forall>x\<in>set (entries s'). en_event x = Some ''ev1'' \<longrightarrow> en_status x = EntryDraft)"
proof -
  have d: "case demo_void of Inr s \<Rightarrow> dead (fst (close (demo_world []) demo_request s)) ''ev1'' | _ \<Rightarrow> False" by code_simp
  then obtain s where s: "demo_void = Inr s" by (auto split: sum.splits)
  obtain s' res where c: "close (demo_world []) demo_request s = (s', res)" by fastforce
  have h: "handler_keeps (\<lambda>_ s. Some s)" by (auto simp: handler_keeps_def)
  have live: "books_live demo_due_books"
    by (simp add: books_live_def demo_due_books_def demo_books_def demo_entry_def demo_obligation_def demo_disposal_def retracted_def)
  have "ledger_step\<^sup>*\<^sup>* demo_due_books s'"
    using ledger_step.patched [OF s [unfolded demo_void_def] h] ledger_step.closed [OF c demo_world_quiet] by auto
  from retracted_events_stay_out_of_the_books [OF this live] have "live_rows (dead s') (entries s')"
    by (simp add: books_live_iff)
  moreover have "dead s' ''ev1''" using d by (simp add: s c)
  ultimately show ?thesis using s c by (intro exI [of _ s] exI [of _ s']) (auto simp: live_rows_def)
qed

end
