(* ===== verification/Texts.thy ===== *)
theory Texts
  imports Prelude
begin

text \<open>
  Text operations the request-facing code uses. Texts are ASCII: \<open>isalnum\<close> and \<open>isdigit\<close> of
  Python also accept letters and digits of other alphabets, which are not modelled.
\<close>

definition code_point :: "char \<Rightarrow> int" where
  "code_point c = of_char c"

definition in_range :: "char \<Rightarrow> char \<Rightarrow> char \<Rightarrow> bool" where
  "in_range a b c \<longleftrightarrow> code_point a \<le> code_point c \<and> code_point c \<le> code_point b"

definition digit :: "char \<Rightarrow> bool" where
  "digit c \<longleftrightarrow> in_range CHR ''0'' CHR ''9'' c"

definition alpha :: "char \<Rightarrow> bool" where
  "alpha c \<longleftrightarrow> in_range CHR ''A'' CHR ''Z'' c \<or> in_range CHR ''a'' CHR ''z'' c"

definition alnum :: "char \<Rightarrow> bool" where
  "alnum c \<longleftrightarrow> digit c \<or> alpha c"

definition hex_char :: "char \<Rightarrow> bool" where
  "hex_char c \<longleftrightarrow> digit c \<or> in_range CHR ''a'' CHR ''f'' c"

definition hex_any :: "char \<Rightarrow> bool" where
  "hex_any c \<longleftrightarrow> hex_char c \<or> in_range CHR ''A'' CHR ''F'' c"

definition lower_char :: "char \<Rightarrow> char" where
  "lower_char c = (if in_range CHR ''A'' CHR ''Z'' c then char_of (code_point c + 32) else c)"

definition lower :: "string \<Rightarrow> string" where
  "lower s = map lower_char s"

text \<open>The value of a hexadecimal digit.\<close>

definition hex_val :: "char \<Rightarrow> int" where
  "hex_val c = (if digit c then code_point c - 48 else code_point (lower_char c) - 87)"

definition int_of_digits :: "string \<Rightarrow> int" where
  "int_of_digits s = foldl (\<lambda>n c. 10 * n + (code_point c - 48)) 0 s"

definition int_of_hex :: "string \<Rightarrow> int" where
  "int_of_hex s = foldl (\<lambda>n c. 16 * n + hex_val c) 0 s"

text \<open>Python's \<open>split(c)\<close>: one piece more than separators.\<close>

fun split_chr :: "char \<Rightarrow> string \<Rightarrow> string list" where
  "split_chr c [] = [[]]"
| "split_chr c (x # xs) =
     (if x = c then [] # split_chr c xs
      else case split_chr c xs of [] \<Rightarrow> [[x]] | p # ps \<Rightarrow> (x # p) # ps)"

text \<open>The pieces \<open>partition(c)\<close> returns around the separator: the rest is empty without one.\<close>

definition before_chr :: "char \<Rightarrow> string \<Rightarrow> string" where
  "before_chr c s = takeWhile (\<lambda>x. x \<noteq> c) s"

definition after_chr :: "char \<Rightarrow> string \<Rightarrow> string" where
  "after_chr c s = tl (dropWhile (\<lambda>x. x \<noteq> c) s)"

text \<open>\<open>rpartition(c)[2]\<close>: the whole text without the separator.\<close>

definition after_last :: "char \<Rightarrow> string \<Rightarrow> string" where
  "after_last c s = rev (takeWhile (\<lambda>x. x \<noteq> c) (rev s))"

definition rstrip_chr :: "char \<Rightarrow> string \<Rightarrow> string" where
  "rstrip_chr c s = rev (dropWhile (\<lambda>x. x = c) (rev s))"

definition space_char :: "char \<Rightarrow> bool" where
  "space_char c \<longleftrightarrow> in_range (CHR 0x09) (CHR 0x0D) c \<or> in_range (CHR 0x1C) (CHR 0x20) c"

definition strip :: "string \<Rightarrow> string" where
  "strip s = rev (dropWhile space_char (rev (dropWhile space_char s)))"

lemma takeWhile_all [simp]: "\<forall>x\<in>set xs. P x \<Longrightarrow> takeWhile P xs = xs"
  by (simp add: takeWhile_eq_all_conv)

lemma after_last_none: "c \<notin> set s \<Longrightarrow> after_last c s = s"
proof -
  assume "c \<notin> set s"
  then have "takeWhile (\<lambda>x. x \<noteq> c) (rev s) = rev s" by (intro takeWhile_all) auto
  then show ?thesis by (simp add: after_last_def)
qed

lemma before_chr_none: "c \<notin> set s \<Longrightarrow> before_chr c s = s"
  unfolding before_chr_def by (rule takeWhile_all) auto

lemma split_chr_not_Nil [simp]: "split_chr c s \<noteq> []"
  by (cases s) (auto split: list.splits)

end
