(* ===== verification/Json.thy ===== *)
theory Json
  imports Complex_Main Texts
begin

text \<open>
  JSON values as the Python code holds them: a number without a fraction or exponent is an
  \<open>int\<close>, any other a \<open>float\<close>, read as the number it stands for. An object is the list of
  its members, each name once. \<open>json_eq\<close> is Python's \<open>==\<close>, for which \<open>True\<close> is \<open>1\<close> and the
  order of an object's members does not matter; \<open>truthy_json\<close> is the truth value.
\<close>

datatype json =
    JNull
  | JBool bool
  | JInt int
  | JNum rat
  | JStr string
  | JArr "json list"
  | JObj "(string \<times> json) list"

definition number_of :: "json \<Rightarrow> rat option" where
  "number_of j = (case j of
     JBool b \<Rightarrow> Some (if b then 1 else 0) | JInt n \<Rightarrow> Some (of_int n) | JNum r \<Rightarrow> Some r | _ \<Rightarrow> None)"

fun json_eq :: "json \<Rightarrow> json \<Rightarrow> bool"
  and items_eq :: "json list \<Rightarrow> json list \<Rightarrow> bool"
  and members_eq :: "(string \<times> json) list \<Rightarrow> (string \<times> json) list \<Rightarrow> bool" where
  "json_eq JNull b = (b = JNull)"
| "json_eq (JBool x) b = (number_of b = Some (if x then 1 else 0))"
| "json_eq (JInt n) b = (number_of b = Some (of_int n))"
| "json_eq (JNum r) b = (number_of b = Some r)"
| "json_eq (JStr s) b = (b = JStr s)"
| "json_eq (JArr xs) b = (case b of JArr ys \<Rightarrow> items_eq xs ys | _ \<Rightarrow> False)"
| "json_eq (JObj kvs) b = (case b of JObj ms \<Rightarrow> length kvs = length ms \<and> members_eq kvs ms | _ \<Rightarrow> False)"
| "items_eq [] ys = (ys = [])"
| "items_eq (x # xs) ys = (case ys of [] \<Rightarrow> False | y # ys' \<Rightarrow> json_eq x y \<and> items_eq xs ys')"
| "members_eq [] ms = True"
| "members_eq ((k, v) # kvs) ms =
     ((case map_of ms k of None \<Rightarrow> False | Some w \<Rightarrow> json_eq v w) \<and> members_eq kvs ms)"

definition truthy_json :: "json \<Rightarrow> bool" where
  "truthy_json j = (case j of
     JNull \<Rightarrow> False | JBool b \<Rightarrow> b | JInt n \<Rightarrow> n \<noteq> 0 | JNum r \<Rightarrow> r \<noteq> 0 | JStr s \<Rightarrow> s \<noteq> []
   | JArr xs \<Rightarrow> xs \<noteq> [] | JObj kvs \<Rightarrow> kvs \<noteq> [])"

text \<open>Python's decimal text of an integer.\<close>

definition show_int :: "int \<Rightarrow> string" where
  "show_int n = (if n < 0 then ''-'' @ show_nat (nat (- n)) else show_nat (nat n))"

text \<open>
  \<open>str\<close> of a value: the text of a float, a list or a dict is the argument \<open>other\<close>. The
  second function is PostgreSQL's \<open>->>\<close>, which has no text for null.
\<close>

definition py_str :: "(json \<Rightarrow> string) \<Rightarrow> json \<Rightarrow> string" where
  "py_str other j = (case j of
     JNull \<Rightarrow> ''None'' | JBool b \<Rightarrow> (if b then ''True'' else ''False'') | JInt n \<Rightarrow> show_int n
   | JStr s \<Rightarrow> s | _ \<Rightarrow> other j)"

definition json_text :: "(json \<Rightarrow> string) \<Rightarrow> json \<Rightarrow> string option" where
  "json_text other j = (case j of
     JNull \<Rightarrow> None | JBool b \<Rightarrow> Some (if b then ''true'' else ''false'') | JInt n \<Rightarrow> Some (show_int n)
   | JStr s \<Rightarrow> Some s | _ \<Rightarrow> Some (other j))"

text \<open>
  \<open>int\<close> of a text: blanks around it, a sign, and digits that single underscores may group.
  \<open>int\<close> of a float drops the fraction.
\<close>

definition grouped_digits :: "string \<Rightarrow> int option" where
  "grouped_digits s = (let ps = split_chr CHR ''_'' s in
     if list_all (\<lambda>p. p \<noteq> [] \<and> list_all digit p) ps then Some (int_of_digits (concat ps)) else None)"

definition int_of_text :: "string \<Rightarrow> int option" where
  "int_of_text s = (case strip s of
     [] \<Rightarrow> None
   | c # cs \<Rightarrow> if c = CHR ''-'' then map_option uminus (grouped_digits cs)
              else if c = CHR ''+'' then grouped_digits cs else grouped_digits (c # cs))"

definition py_int :: "json \<Rightarrow> int option" where
  "py_int j = (case j of
     JBool b \<Rightarrow> Some (if b then 1 else 0) | JInt n \<Rightarrow> Some n
   | JNum r \<Rightarrow> Some (if r < 0 then - \<lfloor>- r\<rfloor> else \<lfloor>r\<rfloor>)
   | JStr s \<Rightarrow> int_of_text s | _ \<Rightarrow> None)"

end
