(* ===== verification/Templates.thy ===== *)
theory Templates
  imports Json
begin

text \<open>
  The template language of the handlers (\<open>operations/event_block/template.py\<close>): tokens
  \<open>{{ path }}\<close> and a trailing \<open>/ N\<close>. The two regular expressions are written out as
  functions of the text; patterns match the ASCII blanks and digits.
\<close>

datatype template_error =
    FieldMissing string
  | NotTraversable string
  | DivisionByZero
  | DividesText

subsection \<open>Tokens\<close>

definition lstrip :: "string \<Rightarrow> string" where
  "lstrip s = dropWhile space_char s"

definition rstrip :: "string \<Rightarrow> string" where
  "rstrip s = rev (dropWhile space_char (rev s))"

text \<open>
  \<open>_TOKEN_RE\<close> at the start of a text: the captured path and the text after the token. The
  blanks before the path are taken greedily, but a path of blanks keeps the last one.
\<close>

definition token_at :: "string \<Rightarrow> (string \<times> string) option" where
  "token_at s = (case s of
     a # b # rest \<Rightarrow>
       if a = CHR ''{'' \<and> b = CHR ''{''
       then (let body = takeWhile (\<lambda>c. c \<noteq> CHR ''}'') rest;
                 after = dropWhile (\<lambda>c. c \<noteq> CHR ''}'') rest
             in if body \<noteq> [] \<and> take 2 after = ''}}''
                then Some (if lstrip body = [] then [last body] else rstrip (lstrip body), drop 2 after)
                else None)
       else None
   | _ \<Rightarrow> None)"

lemma token_at_shorter: "token_at s = Some (g, rest) \<Longrightarrow> length rest < length s"
proof -
  assume t: "token_at s = Some (g, rest)"
  then obtain a b r where s: "s = a # b # r" by (auto simp: token_at_def split: list.splits)
  with t have "rest = drop 2 (dropWhile (\<lambda>c. c \<noteq> CHR ''}'') r)"
    by (auto simp: token_at_def Let_def split: if_splits)
  with s show ?thesis using length_dropWhile_le [of "\<lambda>c. c \<noteq> CHR ''}''" r] by simp
qed

text \<open>\<open>_TOKEN_RE.findall\<close> and \<open>_TOKEN_RE.sub\<close>; the replacement may raise.\<close>

function tokens :: "string \<Rightarrow> string list" where
  "tokens [] = []"
| "tokens (c # cs) = (case token_at (c # cs) of None \<Rightarrow> tokens cs | Some (g, rest) \<Rightarrow> g # tokens rest)"
  by pat_completeness auto
termination
  by (relation "measure length") (auto dest: token_at_shorter)

function substitute :: "(string \<Rightarrow> 'e + string) \<Rightarrow> string \<Rightarrow> 'e + string" where
  "substitute f [] = Inr []"
| "substitute f (c # cs) =
     (case token_at (c # cs) of
        None \<Rightarrow> bindR (substitute f cs) (\<lambda>t. Inr (c # t))
      | Some (g, rest) \<Rightarrow> bindR (f g) (\<lambda>v. bindR (substitute f rest) (\<lambda>t. Inr (v @ t))))"
  by pat_completeness auto
termination
  by (relation "measure (length \<circ> snd)") (auto dest: token_at_shorter)

subsection \<open>Division\<close>

text \<open>
  \<open>_DIV_RE\<close>: the text before the last slash, without the blanks at its end and on one line,
  and the divisor after it. The end of the pattern also matches before a final newline.
\<close>

definition div_split :: "string \<Rightarrow> (string \<times> int) option" where
  "div_split e =
     (let t = (if e \<noteq> [] \<and> last e = CHR 0x0A then butlast e else e);
          q = lstrip (after_last CHR ''/'' t);
          p = rstrip (take (length t - length (after_last CHR ''/'' t) - 1) t)
      in if CHR ''/'' \<in> set t \<and> q \<noteq> [] \<and> list_all digit q \<and> CHR 0x0A \<notin> set p
         then Some (strip p, int_of_digits q) else None)"

lemma strip_length: "length (strip s) \<le> length s"
  using length_dropWhile_le [of space_char "rev (dropWhile space_char s)"]
    length_dropWhile_le [of space_char s] by (simp add: strip_def)

lemma rstrip_length: "length (rstrip s) \<le> length s"
  using length_dropWhile_le [of space_char "rev s"] by (simp add: rstrip_def)

lemma div_split_shorter: "div_split e = Some (p, n) \<Longrightarrow> length p < length e"
proof -
  assume d: "div_split e = Some (p, n)"
  define t where "t = (if e \<noteq> [] \<and> last e = CHR 0x0A then butlast e else e)"
  from d have c: "CHR ''/'' \<in> set t" "p = strip (rstrip (take (length t - length (after_last CHR ''/'' t) - 1) t))"
    unfolding div_split_def t_def [symmetric] Let_def by (auto split: if_splits)
  have t: "t \<noteq> []" "length t \<le> length e" using c(1) by (auto simp: t_def)
  note c(2)
  then have "length p \<le> length (take (length t - length (after_last CHR ''/'' t) - 1) t)"
    using strip_length rstrip_length order_trans by blast
  also have "\<dots> < length t" using t by (simp add: length_greater_0_conv [symmetric] del: length_greater_0_conv)
  finally show ?thesis using t by simp
qed

subsection \<open>Interpolation\<close>

fun walk_path :: "string list \<Rightarrow> json \<Rightarrow> template_error + json" where
  "walk_path [] n = Inr n"
| "walk_path (p # ps) n = (case n of
     JObj kvs \<Rightarrow> (case map_of kvs p of None \<Rightarrow> Inl (FieldMissing p) | Some v \<Rightarrow> walk_path ps v)
   | _ \<Rightarrow> Inl (NotTraversable p))"

definition resolve_path :: "json \<Rightarrow> string \<Rightarrow> template_error + json" where
  "resolve_path ctx path = walk_path (split_chr CHR ''.'' (strip path)) ctx"

text \<open>One token that is the whole text gives the typed value, everything else gives text.\<close>

definition expand_tokens :: "(json \<Rightarrow> string) \<Rightarrow> json \<Rightarrow> string \<Rightarrow> template_error + json" where
  "expand_tokens other ctx e = (case tokens e of
     [] \<Rightarrow> Inr (JStr e)
   | g # gs \<Rightarrow>
       if gs = [] \<and> token_at e = Some (g, []) then resolve_path ctx g
       else bindR (substitute (\<lambda>p. bindR (resolve_path ctx p) (\<lambda>v. Inr (py_str other v))) e) (\<lambda>t. Inr (JStr t)))"

text \<open>Only an \<open>int\<close> divides, and \<open>bool\<close> is a subtype of it; the quotient is rounded down.\<close>

definition divided :: "json \<Rightarrow> int \<Rightarrow> template_error + json" where
  "divided v n = (case v of
     JInt k \<Rightarrow> Inr (JInt (k div n)) | JBool b \<Rightarrow> Inr (JInt ((if b then 1 else 0) div n)) | _ \<Rightarrow> Inl DividesText)"

function interpolate :: "(json \<Rightarrow> string) \<Rightarrow> json \<Rightarrow> string \<Rightarrow> template_error + json" where
  "interpolate other ctx e = (case div_split e of
     None \<Rightarrow> expand_tokens other ctx e
   | Some (inner, n) \<Rightarrow>
       if n = 0 then Inl DivisionByZero
       else bindR (interpolate other ctx inner) (\<lambda>v. divided v n))"
  by pat_completeness auto
termination
  by (relation "measure (\<lambda>(_, _, e). length e)") (auto dest: div_split_shorter)

declare interpolate.simps [simp del]

end
