(* ===== verification/Handlers.thy ===== *)
theory Handlers
  imports Obligations Templates
begin

text \<open>
  Event handlers: rows that turn an event into drafts
  (\<open>operations/roboledger/commands/event_handler.py\<close>, and \<open>registry.py\<close> and \<open>engine.py\<close> under
  \<open>operations/event_block/\<close>). A stored template is what the API's model wrote, with every key
  optional, as the engine reads it; a currency, provenance and the time stamps are left out. A
  flush checks that the two lines of an entry name elements that exist.
  An operation raises an \<open>engine_error\<close>; \<open>EngineKeyError\<close> is a missing key it does not handle.

  Arguments: \<open>other\<close> is \<open>str\<close> of a float, list or dict; \<open>tids\<close> and \<open>eids\<close> give the identifiers of
  the rows of the n-th template entry; \<open>free\<close> says which period fences can be taken.
\<close>

subsection \<open>Rows\<close>

record leg =
  lg_element :: string
  lg_amount :: "string option"

record entry_spec =
  es_debit :: "leg option"
  es_credit :: "leg option"

type_synonym template = "entry_spec option list option"

record event_handler =
  hd_id :: string
  hd_name :: string
  hd_type :: string
  hd_category :: "string option"
  hd_source :: "string option"
  hd_agent_type :: "string option"
  hd_resource_type :: "string option"
  hd_expression :: "(string \<times> json) list option"
  hd_template :: template
  hd_priority :: int
  hd_active :: bool
  hd_origin :: string
  hd_suggested_by :: "string option"
  hd_approved_by :: "string option"
  hd_metadata :: "(string \<times> json) list"

datatype handler_error =
    NoTemplateEntries
  | SpecWithoutTemplate nat
  | LegMissing nat
  | LegElementMissing nat
  | LegAmountMissing nat
  | NoSuchHandler string
  | HandlerRowHeld string

subsection \<open>Registration\<close>

fun validate_entries :: "nat \<Rightarrow> entry_spec option list \<Rightarrow> handler_error + unit" where
  "validate_entries i [] = Inr ()"
| "validate_entries i (None # xs) = Inl (SpecWithoutTemplate i)"
| "validate_entries i (Some es # xs) =
     (case (es_debit es, es_credit es) of
        (Some d, Some c) \<Rightarrow>
          if lg_element d = [] then Inl (LegElementMissing i)
          else if \<not> truthy (lg_amount d) then Inl (LegAmountMissing i)
          else if lg_element c = [] then Inl (LegElementMissing i)
          else if \<not> truthy (lg_amount c) then Inl (LegAmountMissing i)
          else validate_entries (i + 1) xs
      | (None, _) \<Rightarrow> Inl (LegMissing i)
      | (Some d, None) \<Rightarrow>
          if lg_element d = [] then Inl (LegElementMissing i)
          else if \<not> truthy (lg_amount d) then Inl (LegAmountMissing i)
          else Inl (LegMissing i))"

definition validate_template :: "template \<Rightarrow> handler_error + unit" where
  "validate_template t = (case t of
     None \<Rightarrow> Inl NoTemplateEntries
   | Some xs \<Rightarrow> if xs = [] then Inl NoTemplateEntries else validate_entries 0 xs)"

text \<open>A new row is built by the caller from the request; it is never a suggestion.\<close>

definition create_event_handler :: "event_handler list \<Rightarrow> event_handler \<Rightarrow> handler_error + event_handler list" where
  "create_event_handler hs h = bindR (validate_template (hd_template h)) (\<lambda>_.
     Inr (hs @ [h\<lparr>hd_suggested_by := None, hd_approved_by := None\<rparr>]))"

text \<open>A field of the request that is not given leaves the row's value.\<close>

record handler_update =
  hu_name :: "string option"
  hu_category :: "string option"
  hu_source :: "string option"
  hu_agent_type :: "string option"
  hu_resource_type :: "string option"
  hu_expression :: "(string \<times> json) list option"
  hu_priority :: "int option"
  hu_active :: "bool option"
  hu_template :: "template option"
  hu_approve :: "bool option"
  hu_patch :: "(string \<times> json) list"

definition given :: "'a option \<Rightarrow> 'a \<Rightarrow> 'a" where
  "given v old = (case v of None \<Rightarrow> old | Some x \<Rightarrow> x)"

definition given_or :: "'a option \<Rightarrow> 'a option \<Rightarrow> 'a option" where
  "given_or v old = (case v of None \<Rightarrow> old | Some x \<Rightarrow> Some x)"

text \<open>\<open>dict.update\<close>: a known key keeps its place, a new one comes last.\<close>

fun set_member :: "string \<times> json \<Rightarrow> (string \<times> json) list \<Rightarrow> (string \<times> json) list" where
  "set_member m [] = [m]"
| "set_member m (x # xs) = (if fst x = fst m then m # xs else x # set_member m xs)"

definition update_event_handler ::
  "(string \<Rightarrow> bool) \<Rightarrow> string \<Rightarrow> event_handler list \<Rightarrow> string \<Rightarrow> handler_update \<Rightarrow> handler_error + event_handler list" where
  "update_event_handler unlocked by hs i u =
     (if \<not> unlocked i then Inl (HandlerRowHeld i)
      else case find_row (\<lambda>h. hd_id h = i) hs of
        None \<Rightarrow> Inl (NoSuchHandler i)
      | Some h \<Rightarrow>
          bindR (case hu_template u of None \<Rightarrow> Inr () | Some t \<Rightarrow> validate_template t) (\<lambda>_.
          Inr (update_where (\<lambda>x. hd_id x = i) (\<lambda>_. h\<lparr>
            hd_name := given (hu_name u) (hd_name h),
            hd_category := given_or (hu_category u) (hd_category h),
            hd_source := given_or (hu_source u) (hd_source h),
            hd_agent_type := given_or (hu_agent_type u) (hd_agent_type h),
            hd_resource_type := given_or (hu_resource_type u) (hd_resource_type h),
            hd_expression := given_or (hu_expression u) (hd_expression h),
            hd_priority := given (hu_priority u) (hd_priority h),
            hd_active := given (hu_active u) (hd_active h),
            hd_template := given (hu_template u) (hd_template h),
            hd_approved_by := (case hu_approve u of None \<Rightarrow> hd_approved_by h
                                 | Some b \<Rightarrow> if b then Some by else None),
            hd_metadata := foldl (\<lambda>ms m. set_member m ms) (hd_metadata h) (hu_patch u)\<rparr>) hs)))"

subsection \<open>Resolution\<close>

text \<open>The facts of an event that handlers match on.\<close>

record event_facts =
  ef_type :: string
  ef_category :: "string option"
  ef_source :: "string option"
  ef_agent_type :: "string option"
  ef_resource_type :: "string option"
  ef_metadata :: "(string \<times> json) list"

fun dig :: "string list \<Rightarrow> json \<Rightarrow> json option" where
  "dig [] n = Some n"
| "dig (p # ps) n = (case n of
     JObj kvs \<Rightarrow> (case map_of kvs p of None \<Rightarrow> None | Some v \<Rightarrow> dig ps v) | _ \<Rightarrow> None)"

definition remove_prefix :: "string \<Rightarrow> string \<Rightarrow> string" where
  "remove_prefix p s = (if take (length p) s = p then drop (length p) s else s)"

definition path_matches :: "(string \<times> json) list \<Rightarrow> string \<times> json \<Rightarrow> bool" where
  "path_matches meta m =
     (if fst m = ''metadata'' then json_eq (JObj meta) (snd m)
      else case dig (split_chr CHR ''.'' (remove_prefix ''metadata.'' (fst m))) (JObj meta) of
             None \<Rightarrow> False | Some v \<Rightarrow> json_eq v (snd m))"

definition matches_metadata_expression :: "(string \<times> json) list option \<Rightarrow> (string \<times> json) list \<Rightarrow> bool" where
  "matches_metadata_expression ex meta =
     (case ex of None \<Rightarrow> True | Some ms \<Rightarrow> list_all (path_matches meta) ms)"

definition wild :: "string option \<Rightarrow> string option \<Rightarrow> bool" where
  "wild pat v \<longleftrightarrow> pat = None \<or> pat = v"

definition handler_matches :: "event_facts \<Rightarrow> event_handler \<Rightarrow> bool" where
  "handler_matches f h \<longleftrightarrow>
     \<not> (hd_suggested_by h = Some ''ai'' \<and> hd_approved_by h = None) \<and>
     wild (hd_category h) (ef_category f) \<and> wild (hd_source h) (ef_source f) \<and>
     wild (hd_agent_type h) (ef_agent_type f) \<and> wild (hd_resource_type h) (ef_resource_type f) \<and>
     matches_metadata_expression (hd_expression h) (ef_metadata f)"

datatype resolution_error =
    HandlerNotFound string
  | HandlerAmbiguous string "string list"

definition resolve_handler :: "event_handler list \<Rightarrow> event_facts \<Rightarrow> resolution_error + event_handler" where
  "resolve_handler hs f =
     (let candidates = sort_key (\<lambda>h. - hd_priority h) (filter (\<lambda>h. hd_type h = ef_type f \<and> hd_active h) hs);
          matched = filter (handler_matches f) candidates
      in case matched of
           [] \<Rightarrow> Inl (HandlerNotFound (ef_type f))
         | m # ms \<Rightarrow>
             (let top = filter (\<lambda>h. hd_priority h = hd_priority m) matched
              in if 1 < length top then Inl (HandlerAmbiguous (ef_type f) (map hd_name top)) else Inr (hd top)))"

subsection \<open>The engine\<close>

datatype engine_error =
    NoTransactionsKey
  | EntryTemplateMissing nat
  | SideMissing nat
  | ElementMissing nat
  | AmountMissing string
  | AmountNotNumeric string
  | AmountNegative string int
  | TemplateUnbalanced nat int int
  | BadTemplate template_error
  | EngineGuard guard_error
  | EngineKeyError
  | EngineIntegrity

definition lift_template :: "template_error + 'a \<Rightarrow> engine_error + 'a" where
  "lift_template r = (case r of Inl e \<Rightarrow> Inl (BadTemplate e) | Inr x \<Rightarrow> Inr x)"

definition resolve_amount :: "(json \<Rightarrow> string) \<Rightarrow> json \<Rightarrow> string option \<Rightarrow> engine_error + int" where
  "resolve_amount other ctx amount =
     (case amount of
        None \<Rightarrow> Inl EngineKeyError
      | Some e \<Rightarrow> bindR (lift_template (interpolate other ctx e)) (\<lambda>v.
          if v = JNull then Inl (AmountMissing e)
          else case py_int v of
                 None \<Rightarrow> Inl (AmountNotNumeric e)
               | Some n \<Rightarrow> if n < 0 then Inl (AmountNegative e n) else Inr n))"

text \<open>An element identifier is a literal, or a template when it contains two braces.\<close>

fun has_braces :: "string \<Rightarrow> bool" where
  "has_braces (a # b # s) \<longleftrightarrow> a = CHR ''{'' \<and> b = CHR ''{'' \<or> has_braces (b # s)"
| "has_braces _ \<longleftrightarrow> False"

definition resolve_element :: "(json \<Rightarrow> string) \<Rightarrow> json \<Rightarrow> string \<Rightarrow> engine_error + string" where
  "resolve_element other ctx el =
     (if has_braces el
      then bindR (lift_template (interpolate other ctx el)) (\<lambda>v. Inr (py_str other v))
      else Inr el)"

text \<open>What one template entry comes to: two accounts and an amount.\<close>

definition resolve_spec ::
  "(json \<Rightarrow> string) \<Rightarrow> json \<Rightarrow> nat \<Rightarrow> entry_spec option \<Rightarrow> engine_error + string \<times> string \<times> int" where
  "resolve_spec other ctx i spec =
     (case spec of
        None \<Rightarrow> Inl (EntryTemplateMissing i)
      | Some es \<Rightarrow>
          (case (es_debit es, es_credit es) of
             (Some d, Some c) \<Rightarrow>
               if lg_element d = [] \<or> lg_element c = [] then Inl (ElementMissing i)
               else
                 bindR (resolve_element other ctx (lg_element d)) (\<lambda>de.
                 bindR (resolve_element other ctx (lg_element c)) (\<lambda>ce.
                 bindR (resolve_amount other ctx (lg_amount d)) (\<lambda>dc.
                 bindR (resolve_amount other ctx (lg_amount c)) (\<lambda>cc.
                 if dc \<noteq> cc then Inl (TemplateUnbalanced i dc cc) else Inr (de, ce, dc)))))
           | _ \<Rightarrow> Inl (SideMissing i)))"

definition str_first :: "string option \<Rightarrow> string \<Rightarrow> string" where
  "str_first a b = (if truthy a then the a else b)"

text \<open>The transaction, the entry and its two lines, flushed one after the other.\<close>

definition known_element :: "ledger \<Rightarrow> string \<Rightarrow> bool" where
  "known_element s el = list_ex (\<lambda>r. el_id r = el) (elements s)"

definition post_spec ::
  "event \<Rightarrow> string \<Rightarrow> pdate \<Rightarrow> string \<Rightarrow> string \<Rightarrow> string \<times> string \<times> int \<Rightarrow> ledger \<Rightarrow> engine_error + ledger" where
  "post_spec ev memo d tid eid p s =
     (case p of (de, ce, cents) \<Rightarrow>
        if \<not> known_element s de \<or> \<not> known_element s ce then Inl EngineIntegrity
        else (case insert_entry
           \<lparr>en_id = eid, en_type = ''standard'', en_posting_date = d, en_status = EntryDraft,
            en_posted_at = None, en_event = Some (ev_id ev), en_structure = None,
            en_transaction = Some tid, en_reversal_of = None, en_memo = Some memo\<rparr>
           (two_lines eid de ce cents)
           (s\<lparr>transactions := transactions s @
              [\<lparr>tx_id = tid, tx_type = ev_type ev, tx_amount = cents, tx_date = d,
                tx_description = Some memo, tx_source = ev_source ev, tx_connection = None,
                tx_status = ''pending'', tx_posted_at = None, tx_event = Some (ev_id ev)\<rparr>]\<rparr>) of
           Inl _ \<Rightarrow> Inl EngineIntegrity | Inr s' \<Rightarrow> Inr s'))"

fun apply_specs ::
  "(json \<Rightarrow> string) \<Rightarrow> json \<Rightarrow> (nat \<Rightarrow> string) \<Rightarrow> (nat \<Rightarrow> string) \<Rightarrow> event \<Rightarrow> string \<Rightarrow> pdate \<Rightarrow> nat \<Rightarrow>
   entry_spec option list \<Rightarrow> ledger \<Rightarrow> engine_error + ledger" where
  "apply_specs other ctx tids eids ev memo d i [] s = Inr s"
| "apply_specs other ctx tids eids ev memo d i (x # xs) s =
     bindR (resolve_spec other ctx i x) (\<lambda>p.
     bindR (post_spec ev memo d (tids i) (eids i) p s) (\<lambda>s1.
     apply_specs other ctx tids eids ev memo d (i + 1) xs s1))"

definition build_handler_context :: "event_handler \<Rightarrow> json" where
  "build_handler_context h = JObj
     [(''id'', JStr (hd_id h)), (''name'', JStr (hd_name h)), (''event_type'', JStr (hd_type h)),
      (''origin'', JStr (hd_origin h)), (''priority'', JInt (hd_priority h)),
      (''metadata'', JObj (hd_metadata h))]"

text \<open>\<open>description\<close> is the event's, \<open>event_ctx\<close> the event half of the context.\<close>

definition apply_handler ::
  "(json \<Rightarrow> string) \<Rightarrow> (nat \<Rightarrow> string) \<Rightarrow> (nat \<Rightarrow> string) \<Rightarrow> (string \<times> string \<Rightarrow> bool) \<Rightarrow> json \<Rightarrow>
   string option \<Rightarrow> event \<Rightarrow> event_handler \<Rightarrow> ledger \<Rightarrow> engine_error + ledger" where
  "apply_handler other tids eids free event_ctx description ev h s =
     (case hd_template h of
        None \<Rightarrow> Inl NoTransactionsKey
      | Some specs \<Rightarrow>
          (let ctx = JObj [(''event'', event_ctx), (''handler'', build_handler_context h)];
               d = posting_date_for_event ev
           in case assert_period_not_closed free s s [Some d] of
                Inl e \<Rightarrow> Inl (EngineGuard e)
              | Inr _ \<Rightarrow>
                  apply_specs other ctx tids eids ev (str_first description (hd_name h)) d 0 specs s))"

subsection \<open>Previews\<close>

text \<open>
  A planned transaction: the two element identifiers as the template writes them and the
  amount. The preview reads a missing key as the empty text.
\<close>

definition preview_amount :: "(json \<Rightarrow> string) \<Rightarrow> json \<Rightarrow> leg option \<Rightarrow> engine_error + json" where
  "preview_amount other ctx l =
     lift_template (interpolate other ctx
       (case l of None \<Rightarrow> [] | Some x \<Rightarrow> (case lg_amount x of None \<Rightarrow> [] | Some e \<Rightarrow> e)))"

definition preview_element :: "leg option \<Rightarrow> string" where
  "preview_element l = (case l of None \<Rightarrow> [] | Some x \<Rightarrow> lg_element x)"

definition preview_spec ::
  "(json \<Rightarrow> string) \<Rightarrow> json \<Rightarrow> nat \<Rightarrow> entry_spec option \<Rightarrow> engine_error list \<times> (nat \<times> string \<times> string \<times> int) list" where
  "preview_spec other ctx i spec =
     (let d = Option.bind spec es_debit; c = Option.bind spec es_credit in
      case bindR (preview_amount other ctx d) (\<lambda>dv. bindR (preview_amount other ctx c) (\<lambda>cv. Inr (dv, cv))) of
        Inl e \<Rightarrow> ([e], [])
      | Inr (dv, cv) \<Rightarrow>
          (case (py_int dv, py_int cv) of
             (Some dc, Some cc) \<Rightarrow>
               (if dc \<noteq> cc then [TemplateUnbalanced i dc cc] else [],
                [(i, preview_element d, preview_element c, dc)])
           | _ \<Rightarrow> ([AmountNotNumeric []], [])))"

definition preview_specs ::
  "(json \<Rightarrow> string) \<Rightarrow> json \<Rightarrow> entry_spec option list \<Rightarrow> engine_error list \<times> (nat \<times> string \<times> string \<times> int) list" where
  "preview_specs other ctx xs =
     (let rs = map (\<lambda>(i, x). preview_spec other ctx i x) (enumerate 0 xs)
      in (concat (map fst rs), concat (map snd rs)))"

text \<open>The errors and the plan for the chosen handler; it succeeds without errors.\<close>

definition preview_handler ::
  "(json \<Rightarrow> string) \<Rightarrow> (string \<times> string \<Rightarrow> bool) \<Rightarrow> json \<Rightarrow> pdate \<Rightarrow> event_handler \<Rightarrow> ledger \<Rightarrow>
   engine_error list \<times> (nat \<times> string \<times> string \<times> int) list" where
  "preview_handler other free event_ctx d h s =
     (let ctx = JObj [(''event'', event_ctx), (''handler'', build_handler_context h)];
          guard = (case assert_period_not_closed free s s [Some d] of Inl e \<Rightarrow> [EngineGuard e] | Inr _ \<Rightarrow> []);
          r = preview_specs other ctx (case hd_template h of None \<Rightarrow> [] | Some xs \<Rightarrow> xs)
      in (guard @ fst r, snd r))"

end
