(* ===== verification/PythonHandlers.thy ===== *)
theory PythonHandlers
  imports EventCommands Handlers
begin

text \<open>
  The handlers written in Python (\<open>operations/event_block/python_handlers/\<close>): what each of the
  seven does to the tenant's ledger when an event of its type fires, and the registry that
  maps event types to them. A handler works on the event row the caller has inserted and
  returns the ledger with the row it left.

  \<open>cw_parse\<close> and \<open>cw_stored\<close> are pydantic reading the typed metadata from a request and from a
  stored row; the validators the classes declare themselves are \<open>accepted_metadata\<close>. The rows
  of one transaction are read from one ledger: the interleavings with other writers are those
  of the operations the handlers call. A line's description and metadata, an entry's
  provenance and the foreign keys to elements are left out, as in those operations.
\<close>

subsection \<open>Typed metadata\<close>

record nested_line =
  nl_element :: "string option"
  nl_external :: "string option"
  nl_debit :: int
  nl_credit :: int

record nested_entry =
  ne_date :: pdate
  ne_memo :: string
  ne_lines :: "nested_line list"
  ne_type :: string

record journal_metadata =
  jm_date :: "pdate option"
  jm_memo :: "string option"
  jm_lines :: "je_line list option"
  jm_type :: string
  jm_transaction :: "string option"
  jm_posted :: bool
  jm_entries :: "nested_entry list option"
  jm_connection :: "string option"

record disposal_metadata =
  sd_schedule :: string
  sd_proceeds :: int
  sd_proceeds_element :: "string option"
  sd_gain_loss_element :: "string option"
  sd_memo :: "string option"

record reversal_metadata =
  rv_entry :: string
  rv_date :: "pdate option"
  rv_memo :: "string option"

datatype handler_metadata =
    DisposalData disposal_metadata
  | ScheduleCreatedData
  | DueData due_metadata
  | JournalData journal_metadata
  | ReversalData reversal_metadata

datatype handler_kind =
    AssetDisposed | ScheduleCreated | ScheduleEntryDue | JournalRecorded | JournalReversed
  | PaymentReceived | BillPaid

definition one_element_ref :: "nested_line \<Rightarrow> bool" where
  "one_element_ref l \<longleftrightarrow> (nl_element l = None) \<noteq> (nl_external l = None)"

definition one_shape :: "journal_metadata \<Rightarrow> bool" where
  "one_shape m \<longleftrightarrow> (jm_lines m \<noteq> None) \<noteq> (jm_entries m \<noteq> None) \<and>
     (case jm_lines m of None \<Rightarrow> True | Some ls \<Rightarrow> jm_date m \<noteq> None \<and> jm_memo m \<noteq> None \<and> 2 \<le> length ls) \<and>
     (case jm_entries m of None \<Rightarrow> True | Some es \<Rightarrow>
        list_all (\<lambda>e. 2 \<le> length (ne_lines e) \<and> list_all one_element_ref (ne_lines e)) es)"

definition accepted_metadata :: "handler_kind \<Rightarrow> handler_metadata \<Rightarrow> bool" where
  "accepted_metadata k m = (case (k, m) of
     (AssetDisposed, DisposalData d) \<Rightarrow> 0 \<le> sd_proceeds d
   | (ScheduleCreated, ScheduleCreatedData) \<Rightarrow> True
   | (ScheduleEntryDue, DueData _) \<Rightarrow> True
   | (JournalRecorded, JournalData j) \<Rightarrow> one_shape j
   | (PaymentReceived, JournalData j) \<Rightarrow> one_shape j
   | (BillPaid, JournalData j) \<Rightarrow> one_shape j
   | (JournalReversed, ReversalData _) \<Rightarrow> True
   | _ \<Rightarrow> False)"

subsection \<open>The registry\<close>

definition python_registry :: "(string \<times> handler_kind) list" where
  "python_registry =
     [(''asset_disposed'', AssetDisposed), (''schedule_created'', ScheduleCreated),
      (''schedule_entry_due'', ScheduleEntryDue), (''journal_entry_recorded'', JournalRecorded),
      (''journal_entry_reversed'', JournalReversed), (''payment_received'', PaymentReceived),
      (''bill_paid'', BillPaid), (''invoice_issued'', JournalRecorded), (''bill_received'', JournalRecorded),
      (''sales_receipt_recorded'', JournalRecorded), (''cash_expense_recorded'', JournalRecorded),
      (''check_written'', JournalRecorded), (''credit_card_charge'', JournalRecorded),
      (''credit_card_refund'', JournalRecorded), (''deposit_received'', JournalRecorded),
      (''inventory_adjusted'', JournalRecorded)]"

definition get_python_handler :: "string \<Rightarrow> handler_kind option" where
  "get_python_handler ty = map_of python_registry ty"

definition target_status :: "handler_kind \<Rightarrow> event_status" where
  "target_status k = (case k of
     AssetDisposed \<Rightarrow> Fulfilled | ScheduleCreated \<Rightarrow> Committed | JournalReversed \<Rightarrow> Fulfilled | _ \<Rightarrow> Classified)"

record capture_env =
  cw_locks :: je_locks
  cw_now :: ptime
  cw_today :: pdate
  cw_graph :: string
  cw_conns :: "connection list"
  cw_handlers :: "event_handler list"
  cw_agents :: "(string \<times> string) list"
  cw_parse :: "handler_kind \<Rightarrow> (string \<times> json) list \<Rightarrow> handler_metadata option"
  cw_stored :: "handler_kind \<Rightarrow> event \<Rightarrow> handler_metadata option"
  cw_str :: "json \<Rightarrow> string"
  cw_json :: "json \<Rightarrow> string"
  cw_show_time :: "ptime \<Rightarrow> string"
  cw_event_id :: string
  cw_tx_id :: "nat \<Rightarrow> string"
  cw_entry_id :: "nat \<Rightarrow> string"

datatype dispatch_error =
    DisposalNoSchedule string
  | NoAssetElement
  | NoCreditElement
  | ProceedsElementMissing
  | GainLossElementMissing
  | NothingToDispose
  | DispatchSchedule sched_error
  | DispatchJournal je_error
  | ElementsUnresolved "(nat \<times> string) list"
  | DispatchCrash

subsection \<open>Asset disposal\<close>

record disposal_plan =
  pl_asset :: string
  pl_credit :: string
  pl_original :: int
  pl_accumulated :: int
  pl_nbv :: int
  pl_proceeds :: int
  pl_gain_loss :: int
  pl_lines :: "manual_line list"

definition debit_of :: "string \<Rightarrow> int \<Rightarrow> manual_line" where
  "debit_of el n = \<lparr>ml_element = Some el, ml_debit = Some n, ml_credit = Some 0\<rparr>"

definition credit_of :: "string \<Rightarrow> int \<Rightarrow> manual_line" where
  "credit_of el n = \<lparr>ml_element = Some el, ml_debit = Some 0, ml_credit = Some n\<rparr>"

text \<open>The newest in-scope balance of the credited element up to a date, in cents.\<close>

definition carried_cents :: "ledger \<Rightarrow> string \<Rightarrow> string \<Rightarrow> pdate \<Rightarrow> int" where
  "carried_cents s sid el d =
     (case sort_key fa_end (filter (\<lambda>f. fa_structure f = sid \<and> fa_element f = el \<and> fa_instant f \<and>
             fa_end f \<le> d \<and> fa_scope f = ''in_scope'') (facts s)) of
        [] \<Rightarrow> 0 | f # fs \<Rightarrow> to_cents (fa_value (last (f # fs))))"

definition gain_loss_lines :: "string option \<Rightarrow> int \<Rightarrow> manual_line list" where
  "gain_loss_lines el g =
     (if 0 < g \<and> truthy el then [credit_of (the el) g]
      else if g < 0 \<and> truthy el then [debit_of (the el) (- g)] else [])"

definition compute_disposal_plan ::
  "ledger \<Rightarrow> string \<Rightarrow> pdate \<Rightarrow> int \<Rightarrow> string option \<Rightarrow> string option \<Rightarrow> dispatch_error + disposal_plan" where
  "compute_disposal_plan s sid d proceeds pel gel =
     (case find_row (\<lambda>r. st_id r = sid \<and> st_block_type r = ''schedule'') (structures s) of
        None \<Rightarrow> Inl (DisposalNoSchedule sid)
      | Some st \<Rightarrow>
          if \<not> truthy (st_asset st) then Inl NoAssetElement
          else if \<not> truthy (map_option tp_credit (st_template st)) then Inl NoCreditElement
          else
            (let original = or_zero (st_original st); asset = the (st_asset st);
                 credit = tp_credit (the (st_template st)); carried = carried_cents s sid credit d;
                 self_carried = (asset = credit);
                 nbv = (if self_carried then carried else original - carried);
                 accumulated = (if self_carried then max (original - nbv) 0 else carried);
                 gain_loss = proceeds - nbv
             in if 0 < proceeds \<and> \<not> truthy pel then Inl ProceedsElementMissing
                else if nbv \<noteq> 0 \<and> gain_loss \<noteq> 0 \<and> \<not> truthy gel then Inl GainLossElementMissing
                else if self_carried \<and> nbv = 0 \<and> proceeds = 0 then Inl NothingToDispose
                else Inr \<lparr>pl_asset = asset, pl_credit = credit, pl_original = original, pl_accumulated = accumulated, pl_nbv = nbv,
                          pl_proceeds = proceeds, pl_gain_loss = gain_loss,
                          pl_lines =
                            (if self_carried then (if 0 < nbv then [credit_of asset nbv] else [])
                             else [debit_of credit accumulated, credit_of asset original]) @
                            (if 0 < proceeds \<and> truthy pel then [debit_of (the pel) proceeds] else []) @
                            gain_loss_lines gel gain_loss\<rparr>))"

text \<open>The rule that the periodic amounts sum to the cost goes, with its results.\<close>

definition sum_equals_rule :: "string \<Rightarrow> rule_row \<Rightarrow> bool" where
  "sum_equals_rule sid r \<longleftrightarrow> ru_structure r = Some sid \<and> ru_pattern r = ''SumEquals'' \<and> ru_origin r = ''native''"

definition delete_sum_equals_rule :: "string \<Rightarrow> ledger \<Rightarrow> ledger" where
  "delete_sum_equals_rule sid s =
     (let ids = map ru_id (filter (sum_equals_rule sid) (rule_rows s)) in
      s\<lparr>verifications := filter (\<lambda>v. case vr_rule v of None \<Rightarrow> True | Some i \<Rightarrow> i \<notin> set ids) (verifications s),
        rule_rows := filter (\<lambda>r. \<not> sum_equals_rule sid r) (rule_rows s)\<rparr>)"

definition void_for_disposal :: "string \<Rightarrow> string \<Rightarrow> ledger \<Rightarrow> ledger" where
  "void_for_disposal sid ev s =
     (case find_structure s sid of
        None \<Rightarrow> s | Some st \<Rightarrow> fst (void_pending_obligations s st ''asset_disposed'' (Some ev) None False))"

definition link_entry :: "string \<Rightarrow> string \<Rightarrow> ledger \<Rightarrow> ledger" where
  "link_entry ev i s = s\<lparr>entries := update_where (\<lambda>x. en_id x = i) (\<lambda>x. x\<lparr>en_event := Some ev\<rparr>) (entries s)\<rparr>"

definition disposal_entry_memo :: "disposal_metadata \<Rightarrow> string" where
  "disposal_entry_memo m = str_first (sd_memo m) (''Asset disposal for schedule '' @ sd_schedule m)"

definition dispatch_disposal :: "capture_env \<Rightarrow> event \<Rightarrow> disposal_metadata \<Rightarrow> ledger \<Rightarrow> dispatch_error + ledger" where
  "dispatch_disposal w e m s =
     (let d = time_date (ev_occurred_at e) in
      bindR (compute_disposal_plan s (sd_schedule m) d (sd_proceeds m) (sd_proceeds_element m) (sd_gain_loss_element m)) (\<lambda>p.
      let s1 = delete_sum_equals_rule (sd_schedule m) (void_for_disposal (sd_schedule m) (ev_id e) s) in
      case create_manual_closing_entry (fence_free (cw_locks w)) (cw_entry_id w 0) s1 d (pl_lines p)
             (disposal_entry_memo m) ''closing'' of
        Inl err \<Rightarrow> Inl (DispatchSchedule err)
      | Inr (s2, _) \<Rightarrow> Inr (link_entry (ev_id e) (cw_entry_id w 0) s2)))"

text \<open>The preview: the same plan and the period, but not the checks on the entry's lines.\<close>

definition preview_disposal :: "capture_env \<Rightarrow> ptime \<Rightarrow> disposal_metadata \<Rightarrow> ledger \<Rightarrow> dispatch_error + disposal_plan" where
  "preview_disposal w occurred m s =
     bindR (compute_disposal_plan s (sd_schedule m) (time_date occurred) (sd_proceeds m) (sd_proceeds_element m)
              (sd_gain_loss_element m)) (\<lambda>p.
     case assert_period_not_closed (fence_free (cw_locks w)) s s [Some (time_date occurred)] of
       Inl g \<Rightarrow> Inl (DispatchSchedule (GuardFailed g)) | Inr _ \<Rightarrow> Inr p)"

subsection \<open>Journal entries\<close>

text \<open>
  The elements of a source, and of a connection where one is named. A mapping built from the
  rows keeps the last row of an identifier.
\<close>

definition resolve_external_ids :: "ledger \<Rightarrow> string \<Rightarrow> string option \<Rightarrow> string \<Rightarrow> string option" where
  "resolve_external_ids s src conn x =
     map_option el_id (find_row (\<lambda>r. el_external_source r = Some src \<and> el_external_id r = Some x \<and>
       (conn = None \<or> el_connection r = conn)) (rev (elements s)))"

definition missing_refs :: "ledger \<Rightarrow> string \<Rightarrow> string option \<Rightarrow> nested_entry list \<Rightarrow> (nat \<times> string) list" where
  "missing_refs s src conn es =
     concat (map (\<lambda>(i, e). map (\<lambda>l. (i, the (nl_external l)))
       (filter (\<lambda>l. \<not> truthy (nl_element l) \<and> truthy (nl_external l) \<and>
          resolve_external_ids s src conn (the (nl_external l)) = None) (ne_lines e))) (enumerate 0 es))"

text \<open>A line with neither identifier reads a missing key of the mapping.\<close>

definition resolved_line :: "ledger \<Rightarrow> string \<Rightarrow> string option \<Rightarrow> nested_line \<Rightarrow> je_line option" where
  "resolved_line s src conn l =
     (case (if truthy (nl_element l) then nl_element l
            else if truthy (nl_external l) then resolve_external_ids s src conn (the (nl_external l)) else None) of
        None \<Rightarrow> None
      | Some el \<Rightarrow> Some \<lparr>jl_element = el, jl_debit = nl_debit l, jl_credit = nl_credit l\<rparr>)"

definition resolve_nested_line_items ::
  "ledger \<Rightarrow> string \<Rightarrow> string option \<Rightarrow> nested_entry list \<Rightarrow> dispatch_error + je_line list list" where
  "resolve_nested_line_items s src conn es =
     (let missing = missing_refs s src conn es;
          rows = map (\<lambda>e. map (resolved_line s src conn) (ne_lines e)) es
      in if missing \<noteq> [] then Inl (ElementsUnresolved missing)
         else if list_all (list_all (\<lambda>l. l \<noteq> None)) rows then Inr (map (map the) rows) else Inl DispatchCrash)"

definition link_transaction :: "string \<Rightarrow> string option \<Rightarrow> ledger \<Rightarrow> ledger" where
  "link_transaction ev t s =
     (if truthy t
      then s\<lparr>transactions := update_where (\<lambda>x. tx_id x = the t) (\<lambda>x. x\<lparr>tx_event := Some ev\<rparr>) (transactions s)\<rparr>
      else s)"

definition link_entry_and_txn :: "string \<Rightarrow> entry \<Rightarrow> ledger \<Rightarrow> ledger" where
  "link_entry_and_txn ev x s = link_transaction ev (en_transaction x) (link_entry ev (en_id x) s)"

definition journal_request ::
  "event \<Rightarrow> journal_metadata \<Rightarrow> pdate \<Rightarrow> string \<Rightarrow> string \<Rightarrow> je_line list \<Rightarrow> string option \<Rightarrow> create_request" where
  "journal_request e m d memo ty ls t =
     \<lparr>cj_date = d, cj_memo = memo, cj_lines = ls, cj_type = ty, cj_posted = jm_posted m, cj_transaction = t,
      cj_source = Some (ev_source e), cj_connection = jm_connection m, cj_tx_type = ev_type e\<rparr>"

text \<open>One entry, and its links to the event.\<close>

definition record_entry ::
  "capture_env \<Rightarrow> nat \<Rightarrow> event \<Rightarrow> create_request \<Rightarrow> ledger \<Rightarrow> dispatch_error + ledger \<times> entry" where
  "record_entry w i e rq s =
     (case create_journal_entry (cw_locks w) (cw_now w) (cw_tx_id w i) (cw_entry_id w i) s s rq of
        Inl err \<Rightarrow> Inl (DispatchJournal err)
      | Inr (s1, x) \<Rightarrow> Inr (link_entry_and_txn (ev_id e) x s1, x))"

definition dispatch_flat :: "capture_env \<Rightarrow> event \<Rightarrow> journal_metadata \<Rightarrow> ledger \<Rightarrow> dispatch_error + ledger" where
  "dispatch_flat w e m s =
     bindR (record_entry w 0 e (journal_request e m (the (jm_date m)) (the (jm_memo m)) (jm_type m)
              (the (jm_lines m)) (jm_transaction m)) s) (\<lambda>(s1, _). Inr s1)"

text \<open>The entries of one event share a transaction: the one given, or the first entry's.\<close>

fun record_entries ::
  "capture_env \<Rightarrow> event \<Rightarrow> journal_metadata \<Rightarrow> nat \<Rightarrow> string option \<Rightarrow> (nested_entry \<times> je_line list) list \<Rightarrow>
   ledger \<Rightarrow> dispatch_error + ledger" where
  "record_entries w e m i t [] s = Inr s"
| "record_entries w e m i t ((x, ls) # xs) s =
     bindR (record_entry w i e (journal_request e m (ne_date x) (ne_memo x) (ne_type x) ls t) s) (\<lambda>(s1, row).
     record_entries w e m (i + 1) (if t = None then en_transaction row else t) xs s1)"

definition dispatch_nested :: "capture_env \<Rightarrow> event \<Rightarrow> journal_metadata \<Rightarrow> ledger \<Rightarrow> dispatch_error + ledger" where
  "dispatch_nested w e m s =
     (let es = the (jm_entries m) in
      bindR (resolve_nested_line_items s (ev_source e) (jm_connection m) es) (\<lambda>rows.
      record_entries w e m 0 (jm_transaction m) (zip es rows) s))"

text \<open>Posted entries finish the event.\<close>

definition dispatch_journal ::
  "capture_env \<Rightarrow> event \<Rightarrow> journal_metadata \<Rightarrow> ledger \<Rightarrow> dispatch_error + ledger \<times> event" where
  "dispatch_journal w e m s =
     bindR (if jm_entries m \<noteq> None then dispatch_nested w e m s else dispatch_flat w e m s) (\<lambda>s1.
     Inr (s1, if jm_posted m then e\<lparr>ev_status := Fulfilled\<rparr> else e))"

definition dispatch_reversal :: "capture_env \<Rightarrow> event \<Rightarrow> reversal_metadata \<Rightarrow> ledger \<Rightarrow> dispatch_error + ledger" where
  "dispatch_reversal w e m s =
     (case reverse_journal_entry (cw_locks w) (cw_now w) (cw_today w) (cw_entry_id w 0) s s
             (rv_entry m) (rv_date m) (rv_memo m) of
        Inl err \<Rightarrow> Inl (DispatchJournal err)
      | Inr (s1, r) \<Rightarrow> Inr (link_entry (ev_id e) (rv_entry m) (link_entry (ev_id e) (en_id r) s1)))"

subsection \<open>Discharges\<close>

definition external_ref :: "string option \<times> string option \<Rightarrow> string list" where
  "external_ref r = (case r of (Some ty, Some i) \<Rightarrow> [ty @ ''_'' @ i] | _ \<Rightarrow> [])"

text \<open>The oldest event that a query finds.\<close>

definition oldest :: "(event \<Rightarrow> bool) \<Rightarrow> ledger \<Rightarrow> event option" where
  "oldest P s = (case sort_key ev_occurred_at (filter P (events s)) of [] \<Rightarrow> None | x # _ \<Rightarrow> Some x)"

definition dischargeable :: "string list \<Rightarrow> event \<Rightarrow> event \<Rightarrow> bool" where
  "dischargeable types e x \<longleftrightarrow> ev_source x = ev_source e \<and> ev_type x \<in> set types \<and> \<not> retracted (ev_status x)"

definition resolve_by_linked_txns :: "string list \<Rightarrow> event \<Rightarrow> ledger \<Rightarrow> event option" where
  "resolve_by_linked_txns types e s =
     (let ids = concat (map (external_ref \<circ> the) (ev_linked e)) in
      if ids = [] then None
      else oldest (\<lambda>x. dischargeable types e x \<and> ev_external_id x \<in> Some ` set ids) s)"

definition resolve_by_reference_number :: "string list \<Rightarrow> event \<Rightarrow> ledger \<Rightarrow> event option" where
  "resolve_by_reference_number types e s =
     (let ref = strip (str_first (meta_get e ''qb_reference_number'') []) in
      if ref = [] then None
      else oldest (\<lambda>x. dischargeable types e x \<and> meta_get x ''qb_doc_number'' = Some ref \<and>
             ev_agent x = ev_agent e) s)"

definition link_discharge :: "string list \<Rightarrow> event \<Rightarrow> ledger \<Rightarrow> dispatch_error + event" where
  "link_discharge types e s =
     (if ev_discharges e \<noteq> None then Inr e
      else if list_ex (\<lambda>r. r = None) (ev_linked e) then Inl DispatchCrash
      else case (case resolve_by_linked_txns types e s of
                   None \<Rightarrow> resolve_by_reference_number types e s | Some x \<Rightarrow> Some x) of
             None \<Rightarrow> Inr e
           | Some x \<Rightarrow> Inr (e\<lparr>ev_discharges := Some (ev_id x)\<rparr>))"

definition ar_originating_types :: "string list" where
  "ar_originating_types = [''invoice_issued'', ''sales_receipt_recorded'']"

definition ap_originating_types :: "string list" where
  "ap_originating_types = [''bill_received'']"

definition dispatch_payment ::
  "capture_env \<Rightarrow> string list \<Rightarrow> event \<Rightarrow> journal_metadata \<Rightarrow> ledger \<Rightarrow> dispatch_error + ledger \<times> event" where
  "dispatch_payment w types e m s =
     bindR (dispatch_journal w e m s) (\<lambda>(s1, e1).
     bindR (link_discharge types e1 (put_event e1 s1)) (\<lambda>e2. Inr (s1, e2)))"

subsection \<open>Dispatch\<close>

text \<open>The handler of a kind, and the event row as it leaves it.\<close>

definition dispatch_handler ::
  "capture_env \<Rightarrow> event \<Rightarrow> handler_kind \<Rightarrow> handler_metadata \<Rightarrow> ledger \<Rightarrow> dispatch_error + ledger" where
  "dispatch_handler w e k m s =
     (case m of
        DisposalData d \<Rightarrow> dispatch_disposal w e d s
      | ScheduleCreatedData \<Rightarrow> Inr s
      | DueData d \<Rightarrow>
          (case dispatch_due (fence_free (cw_locks w)) (\<lambda>_. (cw_entry_id w 0, cw_entry_id w 1)) e d s of
             Inl err \<Rightarrow> Inl (DispatchSchedule err) | Inr (s1, _) \<Rightarrow> Inr s1)
      | ReversalData r \<Rightarrow> dispatch_reversal w e r s
      | JournalData j \<Rightarrow>
          bindR (if k = PaymentReceived then dispatch_payment w ar_originating_types e j s
                 else if k = BillPaid then dispatch_payment w ap_originating_types e j s
                 else dispatch_journal w e j s) (\<lambda>(s1, e1). Inr (put_event e1 s1)))"

end
