(* ===== verification/Capture.thy ===== *)
theory Capture
  imports PythonHandlers
begin

text \<open>
  Capturing an event (\<open>create_event_block\<close> and \<open>fire_handler_on_commit\<close> in
  \<open>operations/event_block/commands.py\<close>): validation of its source and connection, the check for
  a duplicate, the row, and the handler that fires with it.

  An exception rolls the session back: the result of a failed capture is the error alone.
  \<open>s0\<close> is the ledger the check for a duplicate reads, \<open>s\<close> the one the insert is flushed to,
  so whatever another request committed in between is their difference. Action, class link
  and URL of an event and the envelope of the response are left out.
\<close>

record capture_request =
  cb_type :: string
  cb_category :: string
  cb_class :: string
  cb_agent :: "string option"
  cb_resource_type :: "string option"
  cb_resource_element :: "string option"
  cb_occurred :: ptime
  cb_effective :: "ptime option"
  cb_source :: string
  cb_external :: "string option"
  cb_amount :: "int option"
  cb_currency :: string
  cb_description :: "string option"
  cb_metadata :: "(string \<times> json) list"
  cb_dimensions :: "string list"
  cb_obligated_by :: "string option"
  cb_discharges :: "string option"
  cb_apply :: bool

datatype capture_error =
    UnknownSource string
  | CaptureConnection event_error
  | DuplicateEvent string string
  | MetadataRejected string
  | NoHandlerFor resolution_error
  | EngineFailed engine_error
  | DispatchFailed dispatch_error
  | CaptureIntegrity

subsection \<open>Validation\<close>

definition static_event_sources :: "string list" where
  "static_event_sources = [''manual'', ''system'', ''schedule'']"

definition validate_event_source :: "connection list \<Rightarrow> string \<Rightarrow> string \<Rightarrow> capture_error + unit" where
  "validate_event_source conns g src =
     (if src \<in> set static_event_sources \<or>
         list_ex (\<lambda>c. cn_graph c = g \<and> \<not> cn_deleted c \<and>
           (cn_provider c = src \<or> cn_provider c = ''external'' \<and> cn_source_name c = Some src)) conns
      then Inr () else Inl (UnknownSource src))"

definition member_or_null :: "(string \<times> json) list \<Rightarrow> string \<Rightarrow> json" where
  "member_or_null kvs k = (case map_of kvs k of None \<Rightarrow> JNull | Some v \<Rightarrow> v)"

definition validate_capture_connection :: "capture_env \<Rightarrow> (string \<times> json) list \<Rightarrow> capture_error + unit" where
  "validate_capture_connection w kvs =
     (let c = member_or_null kvs ''connection_id'' in
      if truthy_json c
      then (case require_connection_on_graph (cw_conns w) (cw_graph w) (py_str (cw_str w) c) of
              Inl e \<Rightarrow> Inl (CaptureConnection e) | Inr u \<Rightarrow> Inr u)
      else Inr ())"

definition same_delivery :: "string \<Rightarrow> string option \<Rightarrow> event \<Rightarrow> bool" where
  "same_delivery src ext x \<longleftrightarrow> ev_source x = src \<and> ev_external_id x = ext"

definition assert_not_duplicate :: "ledger \<Rightarrow> capture_request \<Rightarrow> capture_error + unit" where
  "assert_not_duplicate s rq =
     (if truthy (cb_external rq) \<and> list_ex (same_delivery (cb_source rq) (cb_external rq)) (events s)
      then Inl (DuplicateEvent (cb_source rq) (the (cb_external rq))) else Inr ())"

subsection \<open>The row\<close>

text \<open>The texts that \<open>->>\<close> reads, and the references of a payment.\<close>

definition metadata_texts :: "(json \<Rightarrow> string) \<Rightarrow> (string \<times> json) list \<Rightarrow> (string \<times> string) list" where
  "metadata_texts other kvs =
     concat (map (\<lambda>(k, v). case json_text other v of None \<Rightarrow> [] | Some t \<Rightarrow> [(k, t)]) kvs)"

definition member_text :: "(json \<Rightarrow> string) \<Rightarrow> (string \<times> json) list \<Rightarrow> string \<Rightarrow> string option" where
  "member_text other kvs k =
     (let v = member_or_null kvs k in if truthy_json v then Some (py_str other v) else None)"

definition linked_refs :: "(json \<Rightarrow> string) \<Rightarrow> json \<Rightarrow> (string option \<times> string option) option list" where
  "linked_refs other j = (case j of
     JArr xs \<Rightarrow> map (\<lambda>x. case x of
        JObj kvs \<Rightarrow> Some (member_text other kvs ''txn_type'', member_text other kvs ''txn_id'') | _ \<Rightarrow> None) xs
   | _ \<Rightarrow> [])"

definition build_event_row :: "capture_env \<Rightarrow> capture_request \<Rightarrow> event_status \<Rightarrow> event" where
  "build_event_row w rq st =
     \<lparr>ev_id = cw_event_id w, ev_type = cb_type rq, ev_occurred_at = cb_occurred rq,
      ev_effective_at = cb_effective rq, ev_status = st, ev_source = cb_source rq,
      ev_external_id = cb_external rq, ev_agent = cb_agent rq, ev_drift = False, ev_drift_payload = None,
      ev_meta = metadata_texts (cw_json w) (cb_metadata rq),
      ev_linked = linked_refs (cw_str w) (member_or_null (cb_metadata rq) ''qb_linked_txns''),
      ev_obligated_by = cb_obligated_by rq, ev_discharges = cb_discharges rq, ev_replaces = None,
      ev_replaced_by = None, ev_pending_count = None, ev_void_history = []\<rparr>"

text \<open>The CHECK constraint on class and category, and the partial unique index.\<close>

definition category_check :: "string \<Rightarrow> string \<Rightarrow> bool" where
  "category_check cls cat \<longleftrightarrow>
     cls = ''economic'' \<and> cat \<in> set [''sales'', ''purchase'', ''financing'', ''payroll'', ''treasury'',
       ''adjustment'', ''recognition'', ''other''] \<or>
     cls = ''support'' \<and> cat \<in> set [''control'', ''approval'', ''reconciliation'', ''inquiry''] \<or>
     cls = ''operational'' \<and> cat \<in> set [''pipeline'', ''engagement'', ''schedule'', ''other'']"

definition flush_new_event :: "capture_env \<Rightarrow> capture_request \<Rightarrow> event_status \<Rightarrow> ledger \<Rightarrow> capture_error + ledger" where
  "flush_new_event w rq st s =
     (if \<not> category_check (cb_class rq) (cb_category rq) then Inl CaptureIntegrity
      else if cb_external rq \<noteq> None \<and> list_ex (same_delivery (cb_source rq) (cb_external rq)) (events s)
      then Inl (if truthy (cb_external rq) then DuplicateEvent (cb_source rq) (the (cb_external rq)) else CaptureIntegrity)
      else Inr (s\<lparr>events := events s @ [build_event_row w rq st],
                  event_dimensions := event_dimensions s @ map (Pair (cw_event_id w)) (cb_dimensions rq)\<rparr>))"

subsection \<open>The context of a template\<close>

definition text_or_null :: "string option \<Rightarrow> json" where
  "text_or_null s = (case s of None \<Rightarrow> JNull | Some t \<Rightarrow> JStr t)"

definition build_event_context :: "(ptime \<Rightarrow> string) \<Rightarrow> string \<Rightarrow> capture_request \<Rightarrow> json" where
  "build_event_context show_time i rq = JObj
     [(''id'', JStr i), (''event_type'', JStr (cb_type rq)), (''event_category'', JStr (cb_category rq)),
      (''agent_id'', text_or_null (cb_agent rq)), (''resource_type'', text_or_null (cb_resource_type rq)),
      (''resource_element_id'', text_or_null (cb_resource_element rq)),
      (''occurred_at'', JStr (show_time (cb_occurred rq))),
      (''effective_at'', text_or_null (map_option show_time (cb_effective rq))),
      (''source'', JStr (cb_source rq)), (''external_id'', text_or_null (cb_external rq)),
      (''amount'', case cb_amount rq of None \<Rightarrow> JNull | Some n \<Rightarrow> JInt n),
      (''currency'', JStr (cb_currency rq)), (''description'', text_or_null (cb_description rq)),
      (''metadata'', JObj (cb_metadata rq))]"

definition facts_of_request :: "capture_env \<Rightarrow> capture_request \<Rightarrow> event_facts" where
  "facts_of_request w rq =
     \<lparr>ef_type = cb_type rq, ef_category = Some (cb_category rq), ef_source = Some (cb_source rq),
      ef_agent_type = (case cb_agent rq of None \<Rightarrow> None | Some a \<Rightarrow> map_of (cw_agents w) a),
      ef_resource_type = cb_resource_type rq, ef_metadata = cb_metadata rq\<rparr>"

subsection \<open>Capture\<close>

definition typed_metadata :: "capture_env \<Rightarrow> handler_kind \<Rightarrow> handler_metadata option \<Rightarrow> handler_metadata option" where
  "typed_metadata w k m = (case m of None \<Rightarrow> None | Some x \<Rightarrow> if accepted_metadata k x then Some x else None)"

definition capture_with_python :: "capture_env \<Rightarrow> ledger \<Rightarrow> capture_request \<Rightarrow> handler_kind \<Rightarrow> capture_error + ledger" where
  "capture_with_python w s rq k =
     (case typed_metadata w k (cw_parse w k (cb_metadata rq)) of
        None \<Rightarrow> Inl (MetadataRejected (cb_type rq))
      | Some m \<Rightarrow>
          bindR (flush_new_event w rq (target_status k) s) (\<lambda>s1.
          case dispatch_handler w (build_event_row w rq (target_status k)) k m s1 of
            Inl e \<Rightarrow> Inl (DispatchFailed e) | Inr s2 \<Rightarrow> Inr s2))"

definition capture_with_template :: "capture_env \<Rightarrow> ledger \<Rightarrow> capture_request \<Rightarrow> capture_error + ledger" where
  "capture_with_template w s rq =
     (case resolve_handler (cw_handlers w) (facts_of_request w rq) of
        Inl e \<Rightarrow> Inl (NoHandlerFor e)
      | Inr h \<Rightarrow>
          bindR (flush_new_event w rq Classified s) (\<lambda>s1.
          case apply_handler (cw_str w) (cw_tx_id w) (cw_entry_id w) (fence_free (cw_locks w))
                 (build_event_context (cw_show_time w) (cw_event_id w) rq) (cb_description rq)
                 (build_event_row w rq Classified) h s1 of
            Inl e \<Rightarrow> Inl (EngineFailed e) | Inr s2 \<Rightarrow> Inr s2))"

definition create_event_block :: "capture_env \<Rightarrow> ledger \<Rightarrow> ledger \<Rightarrow> capture_request \<Rightarrow> capture_error + ledger" where
  "create_event_block w s0 s rq =
     bindR (validate_event_source (cw_conns w) (cw_graph w) (cb_source rq)) (\<lambda>_.
     bindR (validate_capture_connection w (cb_metadata rq)) (\<lambda>_.
     bindR (assert_not_duplicate s0 rq) (\<lambda>_.
     if \<not> cb_apply rq then flush_new_event w rq Captured s
     else case get_python_handler (cb_type rq) of
            Some k \<Rightarrow> capture_with_python w s rq k
          | None \<Rightarrow> capture_with_template w s rq)))"

text \<open>A committed event fires the Python handler of its type; other types pass.\<close>

definition fire_handler_on_commit :: "capture_env \<Rightarrow> event \<Rightarrow> ledger \<Rightarrow> ledger option" where
  "fire_handler_on_commit w e s =
     (case get_python_handler (ev_type e) of
        None \<Rightarrow> Some s
      | Some k \<Rightarrow>
          (case typed_metadata w k (cw_stored w k e) of
             None \<Rightarrow> None
           | Some m \<Rightarrow> (case dispatch_handler w e k m s of Inl _ \<Rightarrow> None | Inr s1 \<Rightarrow> Some s1)))"

subsection \<open>Preview\<close>

text \<open>The dry run of a type without a Python handler: the errors and the planned transactions.\<close>

definition preview_template_event ::
  "capture_env \<Rightarrow> ledger \<Rightarrow> capture_request \<Rightarrow>
   resolution_error + event_handler \<times> engine_error list \<times> (nat \<times> string \<times> string \<times> int) list" where
  "preview_template_event w s rq =
     bindR (resolve_handler (cw_handlers w) (facts_of_request w rq)) (\<lambda>h.
     Inr (h, preview_handler (cw_str w) (fence_free (cw_locks w))
               (build_event_context (cw_show_time w) ''preview'' rq)
               (case cb_effective rq of Some t \<Rightarrow> time_date t | None \<Rightarrow> time_date (cb_occurred rq)) h s))"

end
