(* ===== verification/Resolution.thy ===== *)
theory Resolution
  imports Reconciling Capture
begin

text \<open>
  Resolving a reconciling item (\<open>resolve_reconciling_item\<close> in
  \<open>operations/roboledger/commands/reconciling_items.py\<close>): the entries of a posted event are
  regenerated from the payload its source now sends (restate), an entry for the difference is
  captured in an open period (catch up), or nothing is booked (acknowledge). In each case the
  event takes the payload and its flag is cleared.

  \<open>s0\<close> is the ledger the plan reads, \<open>s\<close> the one after the locks. The payload as the metadata
  of the event is an argument: \<open>rv_read\<close> is pydantic reading it for a handler, \<open>rv_texts\<close> and
  \<open>rv_links\<close> its texts and its references. The stamp of the flag is a text. The trail that the
  metadata and the response carry is left out, but for what \<open>resolution\<close> holds.
\<close>

record resolve_request =
  rs_event :: string
  rs_disposition :: "disposition option"
  rs_date :: "pdate option"
  rs_posted :: bool
  rs_note :: "string option"
  rs_reference :: "string option"

datatype resolve_error =
    ResolveItem item_error
  | ResolvePeriod period_error
  | NoOpenPeriod
  | ResolveGuard guard_error
  | ResolveRowsHeld string
  | ReflaggedMeanwhile string
  | RestateBlocked "restate_blocker list"
  | RestateIntegrity
  | RestateHandlerFailed
  | AccountsUnmapped "string list"
  | CatchUpFailed capture_error
  | ReferenceUnknown string

record resolve_env =
  rv_capture :: capture_env
  rv_dims :: "string list \<Rightarrow> string set \<Rightarrow> bool"
  rv_read :: "handler_kind \<Rightarrow> drift_payload \<Rightarrow> handler_metadata option"
  rv_texts :: "drift_payload \<Rightarrow> (string \<times> string) list"
  rv_links :: "drift_payload \<Rightarrow> (string option \<times> string option) option list"

text \<open>What was done: the entry of a catch-up, or the entries and transactions rebuilt.\<close>

record resolution =
  rl_disposition :: disposition
  rl_delta :: "delta_line list"
  rl_catch_up :: "(string \<times> entry option \<times> pdate) option"
  rl_regenerated :: "(string list \<times> string list) option"
  rl_reference :: "string option"

definition lift_item :: "item_error + 'a \<Rightarrow> resolve_error + 'a" where
  "lift_item r = (case r of Inl e \<Rightarrow> Inl (ResolveItem e) | Inr x \<Rightarrow> Inr x)"

subsection \<open>The plan and its fence\<close>

definition plan_with_stamp ::
  "(string list \<Rightarrow> string set \<Rightarrow> bool) \<Rightarrow> ledger \<Rightarrow> string \<Rightarrow> string \<Rightarrow>
   resolve_error + item_plan \<times> pdate option \<times> string option" where
  "plan_with_stamp dims s g i =
     bindR (lift_item (plan_reconciling_item dims s i)) (\<lambda>pl.
     case default_catch_up_date s g of
       Inl e \<Rightarrow> Inl (ResolvePeriod e)
     | Inr d \<Rightarrow> Inr (pl, d, Option.bind (find_event s i) (\<lambda>e. meta_get e ''drift_detected_at'')))"

definition accepted_dates :: "drift_payload \<Rightarrow> pdate list" where
  "accepted_dates p = List.map_filter (\<lambda>sp. Option.bind (as_posting_date sp) from_iso) (entry_specs p)"

definition payload_dates :: "ledger \<Rightarrow> string \<Rightarrow> pdate list" where
  "payload_dates s i = (case Option.bind (find_event s i) ev_drift_payload of None \<Rightarrow> [] | Some p \<Rightarrow> accepted_dates p)"

definition fence_item ::
  "(string \<times> string \<Rightarrow> bool) \<Rightarrow> ledger \<Rightarrow> ledger \<Rightarrow> item_plan \<Rightarrow> disposition \<Rightarrow> pdate option \<Rightarrow> resolve_error + unit" where
  "fence_item free s0 s pl disp date =
     (case assert_period_not_closed free s0 s
             (case disp of
                Restate \<Rightarrow> map Some (ip_dates pl @ payload_dates s0 (ip_event pl))
              | CatchUp \<Rightarrow> [date]
              | Acknowledge \<Rightarrow> []) of
        Inl e \<Rightarrow> Inl (ResolveGuard e) | Inr u \<Rightarrow> Inr u)"

subsection \<open>Taking the payload\<close>

definition accept_payload :: "resolve_env \<Rightarrow> drift_payload \<Rightarrow> event \<Rightarrow> event" where
  "accept_payload v p e = e\<lparr>ev_meta := rv_texts v p, ev_linked := rv_links v p, ev_drift_payload := None,
     ev_pending_count := None, ev_void_history := []\<rparr>"

definition settle_item :: "resolve_env \<Rightarrow> drift_payload \<Rightarrow> string \<Rightarrow> ledger \<Rightarrow> ledger" where
  "settle_item v p i s = s\<lparr>events := update_where (\<lambda>e. ev_id e = i)
     (\<lambda>e. (accept_payload v p e)\<lparr>ev_drift := False\<rparr>) (events s)\<rparr>"

subsection \<open>Restate\<close>

definition delete_event_gl_rows :: "string \<Rightarrow> string list \<Rightarrow> ledger \<Rightarrow> ledger" where
  "delete_event_gl_rows i ids s =
     s\<lparr>line_items := filter (\<lambda>l. li_entry l \<notin> set ids) (line_items s),
       entries := filter (\<lambda>e. en_event e \<noteq> Some i) (entries s),
       transactions := filter (\<lambda>t. tx_event t \<noteq> Some i) (transactions s)\<rparr>"

text \<open>A remaining entry that points at a deleted entry or transaction fails the foreign key.\<close>

definition dangling :: "string \<Rightarrow> ledger \<Rightarrow> bool" where
  "dangling i s = list_ex (\<lambda>e. en_event e \<noteq> Some i \<and>
     (list_ex (\<lambda>x. en_event x = Some i \<and> en_reversal_of e = Some (en_id x)) (entries s) \<or>
      list_ex (\<lambda>t. tx_event t = Some i \<and> en_transaction e = Some (tx_id t)) (transactions s))) (entries s)"

definition restate_item :: "resolve_env \<Rightarrow> ledger \<Rightarrow> event \<Rightarrow> drift_payload \<Rightarrow> resolve_error + ledger" where
  "restate_item v s ev p =
     (let es = event_entries s (ev_id ev);
          blockers = restate_blockers (rv_dims v) s ev es p
      in if blockers \<noteq> [] then Inl (RestateBlocked blockers)
         else if dangling (ev_id ev) s then Inl RestateIntegrity
         else (let e = accept_payload v p ev;
                   w = (rv_capture v)\<lparr>cw_stored := \<lambda>k _. rv_read v k p\<rparr>
               in case fire_handler_on_commit w e (put_event e (delete_event_gl_rows (ev_id ev) (map en_id es) s)) of
                    None \<Rightarrow> Inl RestateHandlerFailed | Some s1 \<Rightarrow> Inr s1))"

definition regenerated :: "string \<Rightarrow> ledger \<Rightarrow> string list \<times> string list" where
  "regenerated i s = (let es = filter (\<lambda>e. en_event e = Some i) (entries s) in
     (map en_id es, sort (remdups (List.map_filter en_transaction es))))"

subsection \<open>Catch up\<close>

definition json_line :: "delta_line \<times> manual_line \<Rightarrow> json" where
  "json_line x = (case x of (d, l) \<Rightarrow> JObj
     [(''element_id'', text_or_null (ml_element l)), (''debit_amount'', JInt (or_zero (ml_debit l))),
      (''credit_amount'', JInt (or_zero (ml_credit l))),
      (''description'', text_or_null (str_or (dl_name d) (dl_code d)))])"

definition catch_up_json :: "delta_line list \<Rightarrow> json list" where
  "catch_up_json ds = concat (map (\<lambda>d. map (\<lambda>l. json_line (d, l)) (catch_up_lines [d])) ds)"

text \<open>The dash before the note, in UTF-8.\<close>

definition catch_up_memo :: "event \<Rightarrow> string option \<Rightarrow> string" where
  "catch_up_memo ev note =
     ''Reconciling item: '' @ ev_source ev @ '' '' @ str_first (ev_external_id ev) (ev_id ev) @ '' changed after posting'' @
     (if truthy note then [CHR 0x20, CHR 0xE2, CHR 0x80, CHR 0x94, CHR 0x20] @ the note else [])"

definition catch_up_request :: "event \<Rightarrow> item_plan \<Rightarrow> pdate \<Rightarrow> bool \<Rightarrow> string option \<Rightarrow> capture_request" where
  "catch_up_request ev pl d posted note =
     \<lparr>cb_type = ''journal_entry_recorded'', cb_category = ''adjustment'', cb_class = ''economic'', cb_agent = None,
      cb_resource_type = None, cb_resource_element = None, cb_occurred = Time d 0, cb_effective = None,
      cb_source = ''system'', cb_external = None, cb_amount = None, cb_currency = ''USD'',
      cb_description = Some (catch_up_memo ev note),
      cb_metadata = [(''posting_date'', JStr (iso_date d)), (''memo'', JStr (catch_up_memo ev note)),
        (''type'', JStr ''adjusting''), (''status'', JStr (if posted then ''posted'' else ''draft'')),
        (''line_items'', JArr (catch_up_json (ip_delta pl))), (''publish_to_source'', JBool False),
        (''reconciles_event_id'', JStr (ev_id ev))],
      cb_dimensions = [], cb_obligated_by = None, cb_discharges = None, cb_apply = True\<rparr>"

text \<open>What pydantic reads from that metadata.\<close>

definition catch_up_journal :: "event \<Rightarrow> item_plan \<Rightarrow> pdate \<Rightarrow> bool \<Rightarrow> string option \<Rightarrow> journal_metadata" where
  "catch_up_journal ev pl d posted note =
     \<lparr>jm_date = Some d, jm_memo = Some (catch_up_memo ev note),
      jm_lines = Some (map (\<lambda>l. \<lparr>jl_element = the (ml_element l), jl_debit = or_zero (ml_debit l), jl_credit = or_zero (ml_credit l)\<rparr>)
        (catch_up_lines (ip_delta pl))),
      jm_type = ''adjusting'', jm_transaction = None, jm_posted = posted, jm_entries = None, jm_connection = None\<rparr>"

definition catch_up_item ::
  "resolve_env \<Rightarrow> ledger \<Rightarrow> event \<Rightarrow> item_plan \<Rightarrow> pdate \<Rightarrow> bool \<Rightarrow> string option \<Rightarrow>
   resolve_error + ledger \<times> (string \<times> entry option \<times> pdate) option" where
  "catch_up_item v s ev pl d posted note =
     (if ip_no_effect pl then Inr (s, None)
      else if ip_unmapped pl \<noteq> [] then Inl (AccountsUnmapped (ip_unmapped pl))
      else (let w = rv_capture v in
            case create_event_block w s s (catch_up_request ev pl d posted note) of
              Inl e \<Rightarrow> Inl (CatchUpFailed e)
            | Inr s1 \<Rightarrow> Inr (s1, Some (cw_event_id w,
                find_row (\<lambda>e. en_event e = Some (cw_event_id w)) (entries s1), d))))"

subsection \<open>The resolution\<close>

definition chosen :: "resolve_request \<Rightarrow> item_plan \<Rightarrow> disposition" where
  "chosen rq pl = (case rs_disposition rq of None \<Rightarrow> ip_default pl | Some x \<Rightarrow> x)"

definition catch_up_date :: "resolve_request \<Rightarrow> disposition \<Rightarrow> pdate option \<Rightarrow> pdate option" where
  "catch_up_date rq disp due = (if disp = CatchUp then (case rs_date rq of None \<Rightarrow> due | Some d \<Rightarrow> Some d) else None)"

text \<open>One disposition carried out on the locked rows.\<close>

definition carry_out ::
  "resolve_env \<Rightarrow> ledger \<Rightarrow> event \<Rightarrow> drift_payload \<Rightarrow> item_plan \<Rightarrow> disposition \<Rightarrow> pdate option \<Rightarrow> resolve_request \<Rightarrow>
   resolve_error + ledger \<times> resolution" where
  "carry_out v s ev p pl disp date rq =
     (let done = \<lparr>rl_disposition = disp, rl_delta = ip_delta pl, rl_catch_up = None, rl_regenerated = None,
                  rl_reference = rs_reference rq\<rparr>
      in case disp of
           Restate \<Rightarrow> bindR (restate_item v s ev p) (\<lambda>s1.
             Inr (settle_item v p (ev_id ev) s1, done\<lparr>rl_regenerated := Some (regenerated (ev_id ev) s1)\<rparr>))
         | CatchUp \<Rightarrow> bindR (catch_up_item v s ev pl (the date) (rs_posted rq) (rs_note rq)) (\<lambda>(s1, c).
             Inr (settle_item v p (ev_id ev) s1, done\<lparr>rl_catch_up := c\<rparr>))
         | Acknowledge \<Rightarrow>
             (case rs_reference rq of
                Some r \<Rightarrow> if find_event s r = None then Inl (ReferenceUnknown r)
                          else Inr (settle_item v p (ev_id ev) s, done)
              | None \<Rightarrow> Inr (settle_item v p (ev_id ev) s, done)))"

definition resolve_reconciling_item ::
  "resolve_env \<Rightarrow> ledger \<Rightarrow> ledger \<Rightarrow> resolve_request \<Rightarrow> resolve_error + ledger \<times> resolution" where
  "resolve_reconciling_item v s0 s rq =
     (let i = rs_event rq; k = cw_locks (rv_capture v) in
      bindR (plan_with_stamp (rv_dims v) s0 (cw_graph (rv_capture v)) i) (\<lambda>(pl, due, stamp).
      let disp = chosen rq pl; date = catch_up_date rq disp due in
      if disp = CatchUp \<and> date = None then Inl NoOpenPeriod
      else bindR (fence_item (fence_free k) s0 s pl disp date) (\<lambda>_.
      if \<not> event_free k i then Inl (ResolveRowsHeld i)
      else bindR (lift_item (load_event s i)) (\<lambda>ev.
      bindR (lift_item (require_flagged ev)) (\<lambda>p.
      if meta_get ev ''drift_detected_at'' \<noteq> stamp then Inl (ReflaggedMeanwhile i)
      else if \<not> list_all (entry_free k) (map en_id (event_entries s i)) then Inl (ResolveRowsHeld i)
      else carry_out v s ev p pl disp date rq)))))"

end
