(* ===== verification/HandlerFacts.thy ===== *)
theory HandlerFacts
  imports Handlers
begin

text \<open>
  Facts about the handler engine: which handler an event gets, when a handler that was
  previewed runs, and what it writes.
\<close>

subsection \<open>Resolution\<close>

definition eligible :: "event_facts \<Rightarrow> event_handler \<Rightarrow> bool" where
  "eligible f h \<longleftrightarrow> hd_type h = ef_type f \<and> hd_active h \<and> handler_matches f h"

lemma matched_sorted:
  "filter (handler_matches f) (sort_key k (filter (\<lambda>h. hd_type h = ef_type f \<and> hd_active h) hs)) =
   sort_key k (filter (eligible f) hs)"
proof -
  have "eligible f = (\<lambda>h. (hd_type h = ef_type f \<and> hd_active h) \<and> handler_matches f h)"
    by (simp add: eligible_def fun_eq_iff)
  then show ?thesis by (simp add: filter_sort conj_ac)
qed

lemma sorted_head:
  assumes "sort_key (\<lambda>h. - hd_priority h) xs = m # ms"
  shows "m \<in> set xs" "x \<in> set xs \<Longrightarrow> hd_priority x \<le> hd_priority m"
proof -
  have s: "set (m # ms) = set xs" using assms by (metis set_sort)
  then show "m \<in> set xs" by auto
  have "sorted (map (\<lambda>h. - hd_priority h) (m # ms))" using assms by (metis sorted_sort_key)
  then show "x \<in> set xs \<Longrightarrow> hd_priority x \<le> hd_priority m" using s by force
qed

lemma resolve_cases:
  obtains (none) "filter (eligible f) hs = []" "resolve_handler hs f = Inl (HandlerNotFound (ef_type f))"
  | (one) m where "eligible f m" "m \<in> set hs" "\<And>x. x \<in> set hs \<Longrightarrow> eligible f x \<Longrightarrow> hd_priority x \<le> hd_priority m"
      "filter (\<lambda>h. eligible f h \<and> hd_priority h = hd_priority m) hs = [m]" "resolve_handler hs f = Inr m"
  | (tie) m ns where "eligible f m" "m \<in> set hs" "\<And>x. x \<in> set hs \<Longrightarrow> eligible f x \<Longrightarrow> hd_priority x \<le> hd_priority m"
      "1 < length (filter (\<lambda>h. eligible f h \<and> hd_priority h = hd_priority m) hs)"
      "resolve_handler hs f = Inl (HandlerAmbiguous (ef_type f) ns)"
proof -
  define ms where "ms = sort_key (\<lambda>h. - hd_priority h) (filter (eligible f) hs)"
  have r: "resolve_handler hs f = (case ms of [] \<Rightarrow> Inl (HandlerNotFound (ef_type f))
     | m # rest \<Rightarrow> (let top = filter (\<lambda>h. hd_priority h = hd_priority m) ms
         in if 1 < length top then Inl (HandlerAmbiguous (ef_type f) (map hd_name top)) else Inr (hd top)))"
    unfolding resolve_handler_def Let_def matched_sorted ms_def ..
  show thesis
  proof (cases ms)
    case Nil
    then have "filter (eligible f) hs = []" unfolding ms_def by (metis length_0_conv length_sort)
    with r Nil none show thesis by simp
  next
    case (Cons m rest)
    let ?top = "filter (\<lambda>h. hd_priority h = hd_priority m) ms"
    note h = sorted_head [OF Cons [unfolded ms_def]]
    have m: "eligible f m" "m \<in> set hs" using h(1) by auto
    have top: "?top = filter (\<lambda>h. eligible f h \<and> hd_priority h = hd_priority m) hs"
    proof -
      have "?top = sort_key (\<lambda>h. - hd_priority h) (filter (\<lambda>h. eligible f h \<and> hd_priority h = hd_priority m) hs)"
        by (simp add: ms_def filter_sort conj_commute)
      also have "\<dots> = filter (\<lambda>h. eligible f h \<and> hd_priority h = hd_priority m) hs"
        by (intro sort_key_id_if_sorted) (induction hs; auto)
      finally show ?thesis .
    qed
    have mt: "m \<in> set ?top" using Cons by simp
    show thesis
    proof (cases "1 < length ?top")
      case True
      with r Cons have "resolve_handler hs f = Inl (HandlerAmbiguous (ef_type f) (map hd_name ?top))" by simp
      with tie m h(2) True top show thesis by auto
    next
      case False
      then have "length ?top = 1" using mt by (cases ?top) auto
      then obtain y where "?top = [y]" by (auto simp: length_Suc_conv)
      with mt have y: "?top = [m]" by simp
      with r Cons have "resolve_handler hs f = Inr m" by simp
      with one m h(2) y top show thesis by auto
    qed
  qed
qed

lemma two_rows: "1 < length (filter P xs) \<Longrightarrow> distinct (map k xs) \<Longrightarrow> x \<in> set xs \<Longrightarrow>
  \<exists>y\<in>set xs. P y \<and> k y \<noteq> k x"
proof -
  assume l: "1 < length (filter P xs)" and d: "distinct (map k xs)"
  then obtain a b r where f: "filter P xs = a # b # r" by (cases "filter P xs" rule: remdups_adj.cases) auto
  have "distinct (map k (filter P xs))" using d by (rule distinct_map_filter)
  with f have "k a \<noteq> k b" by simp
  moreover have "{a, b} \<subseteq> {y \<in> set xs. P y}" using f by (metis (no_types) insert_subset list.set_intros set_filter empty_subsetI)
  ultimately show ?thesis by (cases "k a = k x") auto
qed

text \<open>
  C11. A handler is chosen exactly when it is active, approved and matches, and every other
  such handler has a strictly lower priority. No match and a tie at the top are errors: how
  many fields a handler matches on plays no part.
\<close>

theorem handler_choice_exact:
  assumes "distinct (map hd_id hs)"
  shows "(resolve_handler hs f = Inr h \<longleftrightarrow> h \<in> set hs \<and> eligible f h \<and>
      (\<forall>g\<in>set hs. eligible f g \<and> hd_id g \<noteq> hd_id h \<longrightarrow> hd_priority g < hd_priority h)) \<and>
    (resolve_handler hs f = Inl (HandlerNotFound (ef_type f)) \<longleftrightarrow> (\<forall>g\<in>set hs. \<not> eligible f g))"
proof (cases rule: resolve_cases [of f hs])
  case none
  then show ?thesis by (auto simp: filter_empty_conv)
next
  case (one m)
  have u: "g = m" if "g \<in> set hs" "eligible f g" "hd_priority g = hd_priority m" for g
  proof -
    have "g \<in> set (filter (\<lambda>h. eligible f h \<and> hd_priority h = hd_priority m) hs)" using that by simp
    then show ?thesis by (simp add: one(4))
  qed
  have "hd_priority g < hd_priority m" if "g \<in> set hs" "eligible f g" "hd_id g \<noteq> hd_id m" for g
    using one(3) [OF that(1,2)] u [OF that(1,2)] that(3) by fastforce
  moreover have "h = m" if "h \<in> set hs" "eligible f h"
    "\<forall>g\<in>set hs. eligible f g \<and> hd_id g \<noteq> hd_id h \<longrightarrow> hd_priority g < hd_priority h"
    using that one(1,2) one(3) [OF that(1,2)] u by (metis linorder_not_less order_antisym_conv eq_key_imp_eq_value
        assms distinct_map inj_onD)
  ultimately show ?thesis using one by auto
next
  case (tie m ns)
  have "\<not> (h \<in> set hs \<and> eligible f h \<and>
      (\<forall>g\<in>set hs. eligible f g \<and> hd_id g \<noteq> hd_id h \<longrightarrow> hd_priority g < hd_priority h))"
  proof
    assume a: "h \<in> set hs \<and> eligible f h \<and>
      (\<forall>g\<in>set hs. eligible f g \<and> hd_id g \<noteq> hd_id h \<longrightarrow> hd_priority g < hd_priority h)"
    then obtain y where "y \<in> set hs" "eligible f y" "hd_priority y = hd_priority m" "hd_id y \<noteq> hd_id h"
      using two_rows [OF tie(4) assms] by blast
    with a have "hd_priority m < hd_priority h" by auto
    with tie(3) a show False by force
  qed
  with tie show ?thesis by auto
qed

subsection \<open>Running a handler\<close>

lemma is_ok_bindR: "is_ok (bindR r f) \<longleftrightarrow> (\<exists>x. r = Inr x \<and> is_ok (f x))"
  by (cases r) simp_all

lemma is_ok_Inr: "is_ok r \<longleftrightarrow> (\<exists>x. r = Inr x)"
  by (cases r) simp_all

text \<open>A flush accepts the rows of an entry exactly when its amount is positive and its elements exist.\<close>

lemma post_spec_ok:
  "post_spec ev memo d tid eid (de, ce, n) s = Inr s' \<longleftrightarrow>
     0 < n \<and> known_element s de \<and> known_element s ce \<and>
     s' = s\<lparr>transactions := transactions s @
              [\<lparr>tx_id = tid, tx_type = ev_type ev, tx_amount = n, tx_date = d,
                tx_description = Some memo, tx_source = ev_source ev, tx_connection = None,
                tx_status = ''pending'', tx_posted_at = None, tx_event = Some (ev_id ev)\<rparr>],
            entries := entries s @ [\<lparr>en_id = eid, en_type = ''standard'', en_posting_date = d, en_status = EntryDraft,
                en_posted_at = None, en_event = Some (ev_id ev), en_structure = None,
                en_transaction = Some tid, en_reversal_of = None, en_memo = Some memo\<rparr>],
            line_items := line_items s @ two_lines eid de ce n\<rparr>"
  by (auto simp: post_spec_def insert_entry_def reversal_free_def two_lines_def line_check_def)

lemma resolved_amount: "resolve_amount other ctx a = Inr n \<Longrightarrow> 0 \<le> n"
  by (auto simp: resolve_amount_def bindR_eq_Inr split: option.splits if_splits)

lemma resolved_spec: "resolve_spec other ctx i x = Inr (de, ce, n) \<Longrightarrow> 0 \<le> n"
  by (auto simp: resolve_spec_def bindR_eq_Inr dest: resolved_amount split: option.splits if_splits)

definition postable :: "(json \<Rightarrow> string) \<Rightarrow> json \<Rightarrow> ledger \<Rightarrow> nat \<Rightarrow> entry_spec option \<Rightarrow> bool" where
  "postable other ctx s i x \<longleftrightarrow> (\<exists>de ce n. resolve_spec other ctx i x = Inr (de, ce, n) \<and> 0 < n \<and>
     known_element s de \<and> known_element s ce)"

lemma postable_elements: "elements s' = elements s \<Longrightarrow> postable other ctx s' = postable other ctx s"
  by (simp add: postable_def known_element_def fun_eq_iff)

lemma apply_specs_ok:
  "is_ok (apply_specs other ctx tids eids ev memo d i xs s) \<longleftrightarrow>
   (\<forall>k<length xs. postable other ctx s (i + k) (xs ! k))"
proof (induction xs arbitrary: i s)
  case (Cons x xs)
  have "is_ok (apply_specs other ctx tids eids ev memo d i (x # xs) s) \<longleftrightarrow>
      postable other ctx s i x \<and> (\<forall>k<length xs. postable other ctx s (Suc i + k) (xs ! k))"
  proof -
    have "is_ok (apply_specs other ctx tids eids ev memo d (i + 1) xs s1) \<longleftrightarrow>
        (\<forall>k<length xs. postable other ctx s (Suc i + k) (xs ! k))" if "post_spec ev memo d (tids i) (eids i) p s = Inr s1" for p s1
      using Cons.IH [of "i + 1" s1] that postable_elements [of s1 s other ctx]
      by (cases p) (auto simp: post_spec_ok)
    then show ?thesis by (auto simp: is_ok_bindR postable_def post_spec_ok)
  qed
  then show ?case by (auto simp: less_Suc_eq_0_disj)
qed simp

text \<open>The two amounts of an entry as the preview reads them.\<close>

definition leg_amount :: "(json \<Rightarrow> string) \<Rightarrow> json \<Rightarrow> leg \<Rightarrow> int option" where
  "leg_amount other ctx l = (case interpolate other ctx (the (lg_amount l)) of Inl _ \<Rightarrow> None | Inr v \<Rightarrow> py_int v)"

lemma py_int_JNull [simp]: "py_int JNull = None"
  by (simp add: py_int_def)

lemma resolve_amount_iff:
  "lg_amount l \<noteq> None \<Longrightarrow>
   resolve_amount other ctx (lg_amount l) = Inr n \<longleftrightarrow> leg_amount other ctx l = Some n \<and> 0 \<le> n"
  by (auto simp: resolve_amount_def leg_amount_def bindR_eq_Inr lift_template_def
      split: option.splits if_splits sum.splits)

definition element_resolves :: "(json \<Rightarrow> string) \<Rightarrow> json \<Rightarrow> ledger \<Rightarrow> leg \<Rightarrow> bool" where
  "element_resolves other ctx s l \<longleftrightarrow>
     (\<exists>el. resolve_element other ctx (lg_element l) = Inr el \<and> known_element s el)"

definition whole_spec :: "entry_spec option \<Rightarrow> bool" where
  "whole_spec x = (case x of None \<Rightarrow> False | Some es \<Rightarrow>
     (case (es_debit es, es_credit es) of
        (Some d, Some c) \<Rightarrow> lg_element d \<noteq> [] \<and> lg_element c \<noteq> [] \<and> truthy (lg_amount d) \<and> truthy (lg_amount c)
      | _ \<Rightarrow> False))"

lemma validated_whole: "validate_entries i xs = Inr () \<Longrightarrow> x \<in> set xs \<Longrightarrow> whole_spec x"
proof (induction i xs rule: validate_entries.induct)
  case (3 i es xs)
  show ?case
  proof (cases "x \<in> set xs")
    case True
    with 3 show ?thesis by (fastforce split: option.splits if_splits)
  next
    case False
    with 3 show ?thesis by (auto simp: whole_spec_def split: option.splits if_splits)
  qed
qed simp_all

definition spec_legs :: "entry_spec option \<Rightarrow> leg list" where
  "spec_legs x = (case x of None \<Rightarrow> [] | Some es \<Rightarrow> [the (es_debit es), the (es_credit es)])"

text \<open>An entry that was previewed without an error posts, but for two causes the preview does not look at.\<close>

lemma postable_iff:
  assumes "whole_spec x"
  shows "postable other ctx s i x \<longleftrightarrow> fst (preview_spec other ctx i x) = [] \<and>
    (\<forall>(k, d, c, n)\<in>set (snd (preview_spec other ctx i x)). 0 < n) \<and>
    (\<forall>l\<in>set (spec_legs x). element_resolves other ctx s l)"
proof -
  from assms obtain es d c where x: "x = Some es" "es_debit es = Some d" "es_credit es = Some c"
    "lg_element d \<noteq> []" "lg_element c \<noteq> []" "truthy (lg_amount d)" "truthy (lg_amount c)"
    by (auto simp: whole_spec_def split: option.splits)
  then obtain da ca where a: "lg_amount d = Some da" "lg_amount c = Some ca"
    by (auto simp: truthy_def split: option.splits)
  have p: "preview_spec other ctx i x =
      (case bindR (lift_template (interpolate other ctx da)) (\<lambda>dv.
              bindR (lift_template (interpolate other ctx ca)) (\<lambda>cv. Inr (dv, cv))) of
        Inl e \<Rightarrow> ([e], [])
      | Inr (dv, cv) \<Rightarrow>
          (case (py_int dv, py_int cv) of
             (Some dc, Some cc) \<Rightarrow>
               (if dc \<noteq> cc then [TemplateUnbalanced i dc cc] else [], [(i, lg_element d, lg_element c, dc)])
           | _ \<Rightarrow> ([AmountNotNumeric []], [])))"
    unfolding preview_spec_def x Let_def Option.bind.bind_lunit x preview_amount_def preview_element_def option.case a ..
  have r: "postable other ctx s i x \<longleftrightarrow> element_resolves other ctx s d \<and> element_resolves other ctx s c \<and>
      (\<exists>n. leg_amount other ctx d = Some n \<and> leg_amount other ctx c = Some n \<and> 0 < n)"
    using resolve_amount_iff [of d other ctx] resolve_amount_iff [of c other ctx]
    by (auto simp: postable_def resolve_spec_def x a bindR_eq_Inr element_resolves_def)
  show ?thesis
    unfolding r p using a
    by (auto simp: leg_amount_def lift_template_def x(1-3) spec_legs_def
        split: sum.splits option.splits)
qed

lemma preview_specs_parts:
  shows "fst (preview_specs other ctx xs) = [] \<longleftrightarrow> (\<forall>k<length xs. fst (preview_spec other ctx k (xs ! k)) = [])"
    and "set (snd (preview_specs other ctx xs)) = (\<Union>k<length xs. set (snd (preview_spec other ctx k (xs ! k))))"
proof -
  have e: "set (enumerate 0 xs) = (\<lambda>k. (k, xs ! k)) ` {..<length xs}"
    by (auto simp: in_set_enumerate_eq image_iff)
  show "fst (preview_specs other ctx xs) = [] \<longleftrightarrow> (\<forall>k<length xs. fst (preview_spec other ctx k (xs ! k)) = [])"
    by (auto simp: preview_specs_def Let_def concat_eq_Nil_conv e)
  show "set (snd (preview_specs other ctx xs)) = (\<Union>k<length xs. set (snd (preview_spec other ctx k (xs ! k))))"
    by (simp add: preview_specs_def Let_def e)
qed

text \<open>
  C10. A registered handler writes its drafts exactly when its preview reports no error, every
  planned amount is positive and the element expressions resolve to elements that exist. The
  preview promises success without the last two.
\<close>

theorem handler_runs_iff_previewed:
  assumes "validate_template (hd_template h) = Inr ()"
  shows "is_ok (apply_handler other tids eids free event_ctx descr ev h s) \<longleftrightarrow>
    (case preview_handler other free event_ctx (posting_date_for_event ev) h s of
       (errors, plan) \<Rightarrow> errors = [] \<and> (\<forall>(i, d, c, n)\<in>set plan. 0 < n)) \<and>
    (\<forall>x\<in>set (the (hd_template h)). \<forall>l\<in>set (spec_legs x).
       element_resolves other (JObj [(''event'', event_ctx), (''handler'', build_handler_context h)]) s l)"
proof -
  let ?ctx = "JObj [(''event'', event_ctx), (''handler'', build_handler_context h)]"
  let ?g = "assert_period_not_closed free s s [Some (posting_date_for_event ev)]"
  from assms obtain xs where xs: "hd_template h = Some xs" "validate_entries 0 xs = Inr ()"
    by (auto simp: validate_template_def split: option.splits if_splits)
  have w: "whole_spec (xs ! k)" if "k < length xs" for k
    using validated_whole [OF xs(2)] that by simp
  have a: "is_ok (apply_handler other tids eids free event_ctx descr ev h s) \<longleftrightarrow>
      is_ok ?g \<and> (\<forall>k<length xs. postable other ?ctx s k (xs ! k))"
    using apply_specs_ok [of other ?ctx tids eids ev "str_first descr (hd_name h)" "posting_date_for_event ev" 0 xs s]
    by (auto simp: apply_handler_def xs Let_def split: sum.splits)
  have b: "(case preview_handler other free event_ctx (posting_date_for_event ev) h s of
       (errors, plan) \<Rightarrow> errors = [] \<and> (\<forall>(i, d, c, n)\<in>set plan. 0 < n)) \<longleftrightarrow>
      is_ok ?g \<and> (\<forall>k<length xs. fst (preview_spec other ?ctx k (xs ! k)) = [] \<and>
        (\<forall>(i, d, c, n)\<in>set (snd (preview_spec other ?ctx k (xs ! k))). 0 < n))"
    by (auto simp: preview_handler_def xs Let_def preview_specs_parts split: sum.splits)
  have c: "(\<forall>x\<in>set xs. \<forall>l\<in>set (spec_legs x). element_resolves other ?ctx s l) \<longleftrightarrow>
      (\<forall>k<length xs. \<forall>l\<in>set (spec_legs (xs ! k)). element_resolves other ?ctx s l)"
    by (metis in_set_conv_nth)
  show ?thesis unfolding a b xs option.sel c using postable_iff [OF w] by blast
qed

end
