(* ===== verification/CaptureFacts.thy ===== *)
theory CaptureFacts
  imports Capture HandlerFacts
begin

text \<open>
  A capture as steps of the document store: every entry a capture writes is a balanced
  document in a period that is not closed, whether a template, a journal, a reversal or a
  disposal writes it.
\<close>

text \<open>A call whose error is passed on under another constructor.\<close>

lemma lifted_eq_Inr:
  "(case r of Inl e \<Rightarrow> Inl (f e) | Inr x \<Rightarrow> g x) = Inr y \<longleftrightarrow> (\<exists>x. r = Inr x \<and> g x = Inr y)"
  by (cases r) simp_all

subsection \<open>What leaves the documents alone\<close>

lemma find_row_map_same:
  "(\<And>x. k (f x) = k x) \<Longrightarrow> find_row (\<lambda>x. k x = i) (update_where P f xs) =
     map_option (\<lambda>x. if P x then f x else x) (find_row (\<lambda>x. k x = i) xs)"
  by (induction xs) auto

lemma find_entry_link: "find_entry (link_entry ev j s) i =
    map_option (\<lambda>x. if en_id x = j then x\<lparr>en_event := Some ev\<rparr> else x) (find_entry s i)"
  by (simp add: find_entry_def link_entry_def find_row_map_same)

lemma abs_books_cong:
  "entries s' = entries s \<Longrightarrow> line_items s' = line_items s \<Longrightarrow> abs_books s' = abs_books s"
  by (simp add: abs_books_def find_entry_def doc_lines_def lines_of_def fun_eq_iff)

lemma lines_of_links [simp]: "lines_of (link_entry ev j s) i = lines_of s i"
  "lines_of (link_transaction ev t s) i = lines_of s i" "lines_of (put_event e s) i = lines_of s i"
  by (simp_all add: lines_of_def link_entry_def link_transaction_def put_event_def)

lemma abs_link_entry [simp]: "abs_books (link_entry ev j s) = abs_books s"
proof
  show "abs_books (link_entry ev j s) i = abs_books s i" for i
    by (simp add: abs_books_def find_entry_link doc_lines_def option.map_comp comp_def) (cases "find_entry s i"; simp)
qed

lemma abs_link_transaction [simp]: "abs_books (link_transaction ev t s) = abs_books s"
  by (rule abs_books_cong) (simp_all add: link_transaction_def)

lemma abs_put_event [simp]: "abs_books (put_event e s) = abs_books s"
  by (rule abs_books_cong) (simp_all add: put_event_def)

lemma fperiods_links [simp]:
  "fperiods (link_entry ev j s) = fperiods s" "fperiods (link_transaction ev t s) = fperiods s"
  "fperiods (put_event e s) = fperiods s"
  by (simp_all add: link_entry_def link_transaction_def put_event_def)

lemma date_open_cong: "fperiods s' = fperiods s \<Longrightarrow> date_open s' = date_open s"
  by (simp add: date_open_def period_covering_def fun_eq_iff)

lemma peeked_same: "distinct (map period_key (fperiods s)) \<Longrightarrow> peeked s s"
  by (simp add: peeked_def)

lemma fresh_entry_iff: "fresh_entry s i \<longleftrightarrow> abs_books s i = None \<and> lines_of s i = []"
  by (simp add: fresh_entry_def abs_books_def)

lemma fresh_link [simp]: "fresh_entry (link_entry ev j s) i \<longleftrightarrow> fresh_entry s i"
  "fresh_entry (link_transaction ev t s) i \<longleftrightarrow> fresh_entry s i"
  "fresh_entry (put_event e s) i \<longleftrightarrow> fresh_entry s i"
  by (simp_all add: fresh_entry_iff)

lemma insert_fresh:
  assumes "fresh_entry s i" "i \<noteq> en_id e" "\<forall>l\<in>set ls. li_entry l = en_id e"
    "entries s' = entries s @ [e]" "line_items s' = line_items s @ ls"
  shows "fresh_entry s' i"
proof -
  have "find_entry s' i = None"
    using assms(1,2,4) by (simp add: fresh_entry_def find_entry_def find_row_None)
  moreover have "lines_of s' i = []"
    using assms by (auto simp: fresh_entry_def lines_of_def filter_empty_conv)
  ultimately show ?thesis by (simp add: fresh_entry_def)
qed

subsection \<open>Documents a capture adds\<close>

abbreviation doc_run :: "(pdate \<Rightarrow> bool) \<Rightarrow> (string \<rightharpoonup> doc) \<Rightarrow> (string \<rightharpoonup> doc) \<Rightarrow> bool" where
  "doc_run P \<equiv> (doc_step P)\<^sup>*\<^sup>*"

text \<open>The identifiers the database generates: all different, and on no row yet.\<close>

definition fresh_ids :: "capture_env \<Rightarrow> ledger \<Rightarrow> bool" where
  "fresh_ids w s \<longleftrightarrow> inj (cw_entry_id w) \<and> (\<forall>i. fresh_entry s (cw_entry_id w i))"

definition fresh_from :: "capture_env \<Rightarrow> nat \<Rightarrow> ledger \<Rightarrow> bool" where
  "fresh_from w n s \<longleftrightarrow> inj (cw_entry_id w) \<and> (\<forall>i\<ge>n. fresh_entry s (cw_entry_id w i))"

lemma two_lines_document:
  "0 < n \<Longrightarrow> de \<noteq> [] \<Longrightarrow> ce \<noteq> [] \<Longrightarrow>
   balanced_lines (map (\<lambda>l. (li_element l, li_debit l, li_credit l)) (two_lines i de ce n))"
  by (simp add: two_lines_def balanced_lines_def)

text \<open>An entry with balanced lines, flushed in an open period.\<close>

lemma add_document:
  assumes "fresh_entry s (en_id e)" "\<forall>l\<in>set ls. li_entry l = en_id e" "date_open s (en_posting_date e)"
    "balanced_lines (map (\<lambda>l. (li_element l, li_debit l, li_credit l)) ls)" "en_status e \<noteq> EntryReversed"
    "entries s' = entries s @ [e]" "line_items s' = line_items s @ ls"
  shows "doc_step (date_open s) (abs_books s) (abs_books s')"
proof -
  have "abs_books s' = abs_books (s\<lparr>entries := entries s @ [e], line_items := line_items s @ ls\<rparr>)"
    using assms(6,7) by (intro abs_books_cong) simp_all
  also have "\<dots> = (abs_books s)(en_id e \<mapsto> (en_status e, en_posting_date e, map (\<lambda>l. (li_element l, li_debit l, li_credit l)) ls))"
    using assms(1,2) by (rule abs_insert)
  finally show ?thesis
    using doc_step.add [of "abs_books s" "en_id e" "date_open s"] assms by (simp add: fresh_entry_iff)
qed

lemma guard_date_open:
  assumes "assert_period_not_closed free s s [Some d] = Inr u"
  shows "date_open s d"
  using assms by (auto simp: date_open_def assert_period_not_closed_single split: option.splits if_splits)

subsection \<open>Each handler\<close>

lemma create_rows:
  assumes "create_journal_entry k now tid eid s0 s rq = Inr (s', x)"
  shows "x = created_entry now tid eid rq \<and> entries s' = entries s @ [x] \<and>
    (\<exists>ns. line_items s' = line_items s @ rows_of eid ns) \<and> fperiods s' = fperiods s \<and>
    events s' = events s \<and> elements s' = elements s"
  using assms
  by (auto simp: create_journal_entry_def bindR_eq_Inr insert_rows_eq_Inr add_transaction_def split: prod.splits)

lemma record_entry_step:
  assumes "record_entry w i e rq s = Inr (s', x)" "distinct (map period_key (fperiods s))" "fresh_from w i s"
  shows "doc_step (date_open s) (abs_books s) (abs_books s') \<and> fperiods s' = fperiods s \<and> fresh_from w (Suc i) s'"
proof -
  from assms(1) obtain s1 where
    c: "create_journal_entry (cw_locks w) (cw_now w) (cw_tx_id w i) (cw_entry_id w i) s s rq = Inr (s1, x)"
    and s': "s' = link_entry_and_txn (ev_id e) x s1"
    by (auto simp: record_entry_def lifted_eq_Inr)
  note r = create_rows [OF c]
  have f: "fresh_entry s (cw_entry_id w i)" using assms(3) by (simp add: fresh_from_def)
  have "doc_step (date_open s) (abs_books s) (abs_books s1)"
    by (rule journal_steps_documents [OF je_step.created [OF c peeked_same [OF assms(2)] f]])
  moreover have "fresh_entry s1 (cw_entry_id w j)" if "Suc i \<le> j" for j
  proof -
    from r obtain ns where "line_items s1 = line_items s @ rows_of (cw_entry_id w i) ns" by blast
    moreover have "cw_entry_id w j \<noteq> cw_entry_id w i" using that assms(3) by (auto simp: fresh_from_def inj_eq)
    moreover have "fresh_entry s (cw_entry_id w j)" using that assms(3) by (simp add: fresh_from_def)
    moreover have "en_id x = cw_entry_id w i" "entries s1 = entries s @ [x]" using r by simp_all
    ultimately show ?thesis by - (rule insert_fresh [of s _ x "rows_of (cw_entry_id w i) ns"]; simp add: rows_of_entry)
  qed
  ultimately show ?thesis using r assms(3) by (simp add: s' link_entry_and_txn_def fresh_from_def)
qed

lemma record_entries_run:
  assumes "record_entries w e m i t xs s = Inr s'" "distinct (map period_key (fperiods s))" "fresh_from w i s"
  shows "doc_run (date_open s) (abs_books s) (abs_books s') \<and> fperiods s' = fperiods s"
  using assms
proof (induction xs arbitrary: i t s)
  case (Cons p xs)
  obtain x ls where p: "p = (x, ls)" by fastforce
  from Cons.prems(1) obtain s1 row t' where
    r: "record_entry w i e (journal_request e m (ne_date x) (ne_memo x) (ne_type x) ls t) s = Inr (s1, row)"
    and rest: "record_entries w e m (Suc i) t' xs s1 = Inr s'"
    unfolding p record_entries.simps bindR_eq_Inr by auto
  note one = record_entry_step [OF r Cons.prems(2,3)]
  have "doc_run (date_open s1) (abs_books s1) (abs_books s') \<and> fperiods s' = fperiods s1"
    using Cons.IH [OF rest] one Cons.prems(2) by simp
  moreover have "date_open s1 = date_open s" using one by (intro date_open_cong) simp
  ultimately show ?case using one by (auto intro: converse_rtranclp_into_rtranclp)
qed simp

lemma journal_run:
  assumes "dispatch_journal w e m s = Inr (s', e')" "distinct (map period_key (fperiods s))" "fresh_ids w s"
  shows "doc_run (date_open s) (abs_books s) (abs_books s') \<and> fperiods s' = fperiods s"
proof -
  have f: "fresh_from w 0 s" using assms(3) by (simp add: fresh_from_def fresh_ids_def)
  from assms(1) have "dispatch_nested w e m s = Inr s' \<or> dispatch_flat w e m s = Inr s'"
    by (auto simp: dispatch_journal_def bindR_eq_Inr split: if_splits)
  then show ?thesis
  proof
    assume "dispatch_nested w e m s = Inr s'"
    then obtain rows where "record_entries w e m 0 (jm_transaction m) rows s = Inr s'"
      by (auto simp: dispatch_nested_def Let_def bindR_eq_Inr)
    from record_entries_run [OF this assms(2) f] show ?thesis .
  next
    assume "dispatch_flat w e m s = Inr s'"
    then obtain rq x where "record_entry w 0 e rq s = Inr (s', x)"
      by (auto simp: dispatch_flat_def bindR_eq_Inr)
    from record_entry_step [OF this assms(2) f] show ?thesis by auto
  qed
qed

lemma reversal_run:
  assumes "dispatch_reversal w e m s = Inr s'" "distinct (map period_key (fperiods s))" "fresh_ids w s"
  shows "doc_run (date_open s) (abs_books s) (abs_books s')"
proof -
  from assms(1) obtain s1 r where
    c: "reverse_journal_entry (cw_locks w) (cw_now w) (cw_today w) (cw_entry_id w 0) s s (rv_entry m) (rv_date m) (rv_memo m) = Inr (s1, r)"
    and s': "abs_books s' = abs_books s1"
    by (auto simp: dispatch_reversal_def lifted_eq_Inr)
  have "doc_step (date_open s) (abs_books s) (abs_books s1)"
    using assms(3)
    by (intro journal_steps_documents je_step.reversed [OF c peeked_same [OF assms(2)]])
      (auto simp: fresh_ids_def unmoved_def)
  then show ?thesis by (simp add: s')
qed

lemma void_tables:
  "entries (void_for_disposal sid ev s) = entries s" "line_items (void_for_disposal sid ev s) = line_items s"
  "fperiods (void_for_disposal sid ev s) = fperiods s"
  by (auto simp: void_for_disposal_def void_pending_obligations_def Let_def split: option.splits)

lemma manual_document:
  assumes "ls \<noteq> []" "\<forall>l\<in>set ls. line_ok l"
    "(\<Sum>l\<leftarrow>ls. or_zero (ml_debit l)) = (\<Sum>l\<leftarrow>ls. or_zero (ml_credit l))"
  shows "balanced_lines (map (\<lambda>l. (li_element l, li_debit l, li_credit l)) (manual_rows i ls))"
proof -
  have "(\<Sum>(el, d, c)\<leftarrow>map (\<lambda>l. (li_element l, li_debit l, li_credit l)) (manual_rows i ls). d) = (\<Sum>l\<leftarrow>ls. or_zero (ml_debit l))"
    "(\<Sum>(el, d, c)\<leftarrow>map (\<lambda>l. (li_element l, li_debit l, li_credit l)) (manual_rows i ls). c) = (\<Sum>l\<leftarrow>ls. or_zero (ml_credit l))" for ls
    by (induction ls) (simp_all add: manual_rows_def)
  then show ?thesis unfolding balanced_lines_def using assms
    by (auto simp: manual_rows_def list_all_iff line_ok_def truthy_def split: option.splits)
qed

lemma disposal_run:
  assumes "dispatch_disposal w e m s = Inr s'" "fresh_ids w s"
  shows "doc_run (date_open s) (abs_books s) (abs_books s')"
proof -
  define s1 where "s1 = delete_sum_equals_rule (sd_schedule m) (void_for_disposal (sd_schedule m) (ev_id e) s)"
  have same: "entries s1 = entries s" "line_items s1 = line_items s" "fperiods s1 = fperiods s"
    by (simp_all add: s1_def delete_sum_equals_rule_def Let_def void_tables)
  let ?d = "time_date (ev_occurred_at e)" and ?i = "cw_entry_id w 0"
  from assms(1) obtain p :: disposal_plan and s2 r where
    c: "create_manual_closing_entry (fence_free (cw_locks w)) ?i s1 ?d (pl_lines p) (disposal_entry_memo m) ''closing'' = Inr (s2, r)"
    and l: "s' = link_entry (ev_id e) ?i s2"
    unfolding dispatch_disposal_def Let_def bindR_eq_Inr s1_def [symmetric] by (auto simp: lifted_eq_Inr)
  have s': "abs_books s' = abs_books s2" by (simp add: l)
  have "\<exists>r. create_manual_closing_entry (fence_free (cw_locks w)) ?i s1 ?d (pl_lines p) (disposal_entry_memo m) ''closing'' = Inr (s2, r)"
    using c by blast
  note a = this [unfolded manual_entry_accepted_iff]
  let ?e = "manual_entry ?i ''closing'' ?d (disposal_entry_memo m)" and ?ls = "manual_rows ?i (pl_lines p)"
  have "balanced_lines (map (\<lambda>l. (li_element l, li_debit l, li_credit l)) ?ls)"
    using a by (simp add: manual_document list_all_iff)
  moreover have "date_open s1 ?d" using a guard_date_open by blast
  moreover have "fresh_entry s1 ?i" using assms(2) same by (simp add: fresh_ids_def fresh_entry_def find_entry_def lines_of_def)
  ultimately have "doc_step (date_open s1) (abs_books s1) (abs_books s2)"
    using a by (intro add_document [of s1 ?e ?ls s2]) (auto simp: manual_entry_def manual_rows_def)
  moreover have "abs_books s1 = abs_books s" using same by (intro abs_books_cong)
  ultimately show ?thesis using date_open_cong [OF same(3)] by (simp add: s')
qed

lemma template_run:
  assumes "apply_specs other ctx (cw_tx_id w) (cw_entry_id w) ev memo d i xs s = Inr s'" "fresh_from w i s"
    "date_open s d" "\<forall>r\<in>set (elements s). el_id r \<noteq> []"
  shows "doc_run (date_open s) (abs_books s) (abs_books s')"
  using assms
proof (induction xs arbitrary: i s)
  case (Cons x xs)
  let ?i = "cw_entry_id w i"
  from Cons.prems(1) obtain de ce n s1 where
    c: "post_spec ev memo d (cw_tx_id w i) ?i (de, ce, n) s = Inr s1"
    and rest: "apply_specs other ctx (cw_tx_id w) (cw_entry_id w) ev memo d (Suc i) xs s1 = Inr s'"
    unfolding apply_specs.simps bindR_eq_Inr by auto
  note p = c [unfolded post_spec_ok]
  let ?e = "\<lparr>en_id = ?i, en_type = ''standard'', en_posting_date = d, en_status = EntryDraft,
                en_posted_at = None, en_event = Some (ev_id ev), en_structure = None,
                en_transaction = Some (cw_tx_id w i), en_reversal_of = None, en_memo = Some memo\<rparr>"
  have ne: "de \<noteq> []" "ce \<noteq> []" using p Cons.prems(4) by (auto simp: known_element_def list_ex_iff)
  have rows: "entries s1 = entries s @ [?e]" "line_items s1 = line_items s @ two_lines ?i de ce n"
    "fperiods s1 = fperiods s" "elements s1 = elements s" using p by simp_all
  have one: "doc_step (date_open s) (abs_books s) (abs_books s1)"
    using two_lines_document [of n de ce ?i] p ne Cons.prems(2,3) rows
    by (intro add_document [of s ?e "two_lines ?i de ce n" s1]) (auto simp: two_lines_def fresh_from_def)
  have "fresh_from w (Suc i) s1"
    unfolding fresh_from_def
  proof (intro conjI allI impI)
    show "inj (cw_entry_id w)" using Cons.prems(2) by (simp add: fresh_from_def)
    show "fresh_entry s1 (cw_entry_id w j)" if "Suc i \<le> j" for j
    proof (rule insert_fresh [of s _ ?e "two_lines ?i de ce n"])
      show "fresh_entry s (cw_entry_id w j)" "cw_entry_id w j \<noteq> en_id ?e"
        using that Cons.prems(2) by (auto simp: fresh_from_def inj_eq)
    qed (use rows in \<open>auto simp: two_lines_def\<close>)
  qed
  moreover have do: "date_open s1 = date_open s" using rows(3) by (rule date_open_cong)
  ultimately have "doc_run (date_open s) (abs_books s1) (abs_books s')"
    using Cons.IH [OF rest] Cons.prems(3,4) rows(4) by simp
  with one show ?case by (rule converse_rtranclp_into_rtranclp)
qed simp

subsection \<open>A capture\<close>

lemma flush_tables:
  assumes "flush_new_event w rq st s = Inr s1"
  shows "entries s1 = entries s" "line_items s1 = line_items s" "fperiods s1 = fperiods s" "elements s1 = elements s"
    "transactions s1 = transactions s" "events s1 = events s @ [build_event_row w rq st]"
  using assms by (auto simp: flush_new_event_def split: if_splits)

lemma fresh_ids_cong:
  "entries s1 = entries s \<Longrightarrow> line_items s1 = line_items s \<Longrightarrow> fresh_ids w s1 \<longleftrightarrow> fresh_ids w s"
  by (simp add: fresh_ids_def fresh_entry_def find_entry_def lines_of_def)

text \<open>What a successful capture did: no handler, a Python handler or a template.\<close>

lemma capture_cases:
  assumes "create_event_block w s0 s rq = Inr s'"
  obtains (plain) "flush_new_event w rq Captured s = Inr s'"
  | (python) k m s1 where "get_python_handler (cb_type rq) = Some k" "accepted_metadata k m"
      "flush_new_event w rq (target_status k) s = Inr s1"
      "dispatch_handler w (build_event_row w rq (target_status k)) k m s1 = Inr s'"
  | (template) h s1 where "get_python_handler (cb_type rq) = None"
      "resolve_handler (cw_handlers w) (facts_of_request w rq) = Inr h" "flush_new_event w rq Classified s = Inr s1"
      "apply_handler (cw_str w) (cw_tx_id w) (cw_entry_id w) (fence_free (cw_locks w))
         (build_event_context (cw_show_time w) (cw_event_id w) rq) (cb_description rq)
         (build_event_row w rq Classified) h s1 = Inr s'"
proof -
  from assms consider "flush_new_event w rq Captured s = Inr s'"
    | k where "get_python_handler (cb_type rq) = Some k" "capture_with_python w s rq k = Inr s'"
    | "get_python_handler (cb_type rq) = None" "capture_with_template w s rq = Inr s'"
    by (auto simp: create_event_block_def bindR_eq_Inr split: if_splits option.splits)
  then show thesis
  proof cases
    case 1
    then show thesis by (rule plain)
  next
    case (2 k)
    then show thesis
      by (auto simp: capture_with_python_def typed_metadata_def bindR_eq_Inr lifted_eq_Inr
          split: option.split_asm if_split_asm intro: python)
  next
    case 3
    then show thesis
      by (auto simp: capture_with_template_def bindR_eq_Inr lifted_eq_Inr intro: template)
  qed
qed


end
