(* ===== verification/DisposalFacts.thy ===== *)
theory DisposalFacts
  imports CaptureFacts
begin

text \<open>
  Disposals and reversals that fire through events: when a disposal that was previewed runs,
  what it does to obligations that landed, which events a reversal leaves retractable, and
  what a payment discharges.
\<close>

subsection \<open>The disposal plan\<close>

definition self_carried :: "disposal_plan \<Rightarrow> bool" where
  "self_carried p \<longleftrightarrow> pl_asset p = pl_credit p"

lemma plan_parts:
  assumes "compute_disposal_plan s sid d n pel gel = Inr p"
  shows "pl_proceeds p = n" "pl_gain_loss p = n - pl_nbv p" "pl_asset p \<noteq> []" "pl_credit p \<noteq> []"
    "0 < n \<Longrightarrow> truthy pel" "pl_nbv p \<noteq> 0 \<Longrightarrow> pl_gain_loss p \<noteq> 0 \<Longrightarrow> truthy gel"
    "\<not> (self_carried p \<and> pl_nbv p = 0 \<and> n = 0)"
    "\<not> self_carried p \<Longrightarrow> pl_nbv p = pl_original p - pl_accumulated p"
    "pl_lines p = (if self_carried p then (if 0 < pl_nbv p then [credit_of (pl_asset p) (pl_nbv p)] else [])
       else [debit_of (pl_credit p) (pl_accumulated p), credit_of (pl_asset p) (pl_original p)]) @
      (if 0 < n \<and> truthy pel then [debit_of (the pel) n] else []) @ gain_loss_lines gel (pl_gain_loss p)"
proof -
  from assms obtain st where st: "find_row (\<lambda>r. st_id r = sid \<and> st_block_type r = ''schedule'') (structures s) = Some st"
    by (auto simp: compute_disposal_plan_def split: option.splits)
  show "pl_proceeds p = n" "pl_gain_loss p = n - pl_nbv p" "pl_asset p \<noteq> []" "pl_credit p \<noteq> []"
    "0 < n \<Longrightarrow> truthy pel" "pl_nbv p \<noteq> 0 \<Longrightarrow> pl_gain_loss p \<noteq> 0 \<Longrightarrow> truthy gel"
    "\<not> (self_carried p \<and> pl_nbv p = 0 \<and> n = 0)"
    "\<not> self_carried p \<Longrightarrow> pl_nbv p = pl_original p - pl_accumulated p"
    "pl_lines p = (if self_carried p then (if 0 < pl_nbv p then [credit_of (pl_asset p) (pl_nbv p)] else [])
       else [debit_of (pl_credit p) (pl_accumulated p), credit_of (pl_asset p) (pl_original p)]) @
      (if 0 < n \<and> truthy pel then [debit_of (the pel) n] else []) @ gain_loss_lines gel (pl_gain_loss p)"
    using assms unfolding compute_disposal_plan_def st option.case Let_def self_carried_def
    by (auto simp: truthy_def split: if_splits option.splits)
qed

lemma line_ok_debit: "line_ok (debit_of el n) \<longleftrightarrow> el \<noteq> [] \<and> 0 < n"
  and line_ok_credit: "line_ok (credit_of el n) \<longleftrightarrow> el \<noteq> [] \<and> 0 < n"
  by (auto simp: line_ok_def debit_of_def credit_of_def or_zero_def)

lemma leg_amounts [simp]:
  "or_zero (ml_debit (debit_of el n)) = n" "or_zero (ml_credit (debit_of el n)) = 0"
  "or_zero (ml_debit (credit_of el n)) = 0" "or_zero (ml_credit (credit_of el n)) = n"
  by (simp_all add: debit_of_def credit_of_def or_zero_def)

text \<open>What the entry asks of a plan beyond what the plan checks.\<close>

definition postable_plan :: "string option \<Rightarrow> disposal_plan \<Rightarrow> bool" where
  "postable_plan gel p \<longleftrightarrow> (truthy gel \<or> pl_gain_loss p = 0) \<and>
     (if self_carried p then 0 \<le> pl_nbv p else 0 < pl_accumulated p \<and> 0 < pl_original p)"

abbreviation debits :: "manual_line list \<Rightarrow> int" where
  "debits ls \<equiv> \<Sum>l\<leftarrow>ls. or_zero (ml_debit l)"

abbreviation credits :: "manual_line list \<Rightarrow> int" where
  "credits ls \<equiv> \<Sum>l\<leftarrow>ls. or_zero (ml_credit l)"

lemma gain_loss_facts:
  "debits (gain_loss_lines gel g) - credits (gain_loss_lines gel g) = (if truthy gel then - g else 0)"
  "list_all line_ok (gain_loss_lines gel g)"
  "gain_loss_lines gel g = [] \<longleftrightarrow> g = 0 \<or> \<not> truthy gel"
proof -
  have "truthy gel \<Longrightarrow> the gel \<noteq> []" by (auto simp: truthy_def split: option.splits)
  then show "list_all line_ok (gain_loss_lines gel g)"
    by (simp add: gain_loss_lines_def line_ok_debit line_ok_credit)
qed (auto simp: gain_loss_lines_def)

lemma plan_lines_accepted:
  assumes "compute_disposal_plan s sid d n pel gel = Inr p" "0 \<le> n"
  shows "pl_lines p \<noteq> [] \<and> list_all line_ok (pl_lines p) \<and> debits (pl_lines p) = credits (pl_lines p) \<longleftrightarrow>
    postable_plan gel p"
proof -
  note q = plan_parts [OF assms(1)]
  let ?g = "gain_loss_lines gel (pl_gain_loss p)"
  let ?n = "if 0 < n \<and> truthy pel then [debit_of (the pel) n] else []"
  note g = gain_loss_facts [of gel "pl_gain_loss p"]
  have n: "debits ?n = n" "credits ?n = 0" "list_all line_ok ?n" "?n = [] \<longleftrightarrow> n = 0"
  proof -
    have "n = 0 \<or> 0 < n \<and> truthy pel \<and> the pel \<noteq> []"
      using q(5) assms(2) by (cases "n = 0") (auto simp: truthy_def split: option.splits)
    then show "debits ?n = n" "credits ?n = 0" "list_all line_ok ?n" "?n = [] \<longleftrightarrow> n = 0"
      by (auto simp: line_ok_debit)
  qed
  have l: "pl_lines p = (if self_carried p then (if 0 < pl_nbv p then [credit_of (pl_asset p) (pl_nbv p)] else [])
       else [debit_of (pl_credit p) (pl_accumulated p), credit_of (pl_asset p) (pl_original p)]) @ ?n @ ?g"
    by (rule q(9))
  show ?thesis
  proof (cases "self_carried p")
    case True
    let ?b = "if 0 < pl_nbv p then [credit_of (pl_asset p) (pl_nbv p)] else []"
    have l: "pl_lines p = ?b @ ?n @ ?g" unfolding l if_P [OF True] ..
    have b: "debits ?b = 0" "credits ?b = max (pl_nbv p) 0" "list_all line_ok ?b" "?b = [] \<longleftrightarrow> pl_nbv p \<le> 0"
      using q(3) by (auto simp: line_ok_credit)
    have "list_all line_ok (pl_lines p)" unfolding l by (simp only: list_all_append b(3) n(3) g(2))
    moreover have "debits (pl_lines p) - credits (pl_lines p) =
        n - max (pl_nbv p) 0 + (if truthy gel then - pl_gain_loss p else 0)"
      unfolding l map_append sum_list_append b(1,2) n(1,2) using g(1) by linarith
    moreover have "pl_lines p = [] \<longleftrightarrow> pl_nbv p \<le> 0 \<and> n = 0 \<and> (pl_gain_loss p = 0 \<or> \<not> truthy gel)"
      unfolding l by (simp only: append_is_Nil_conv b(4) n(4) g(3))
    moreover have "n - max (pl_nbv p) 0 + (if truthy gel then - pl_gain_loss p else 0) = 0 \<longleftrightarrow>
        (truthy gel \<or> pl_gain_loss p = 0) \<and> 0 \<le> pl_nbv p"
    proof (cases "truthy gel")
      case True
      then show ?thesis using q(2) by (auto simp: max_def)
    next
      case False
      then have "pl_nbv p = 0 \<or> pl_gain_loss p = 0" using q(6) by blast
      then show ?thesis using False q(2) assms(2) by (auto simp: max_def)
    qed
    ultimately show ?thesis
      using q(2,7) assms(2) unfolding postable_plan_def if_P [OF True] by (metis True diff_0_right dual_order.antisym eq_iff_diff_eq_0)
  next
    case False
    let ?b = "[debit_of (pl_credit p) (pl_accumulated p), credit_of (pl_asset p) (pl_original p)]"
    have l: "pl_lines p = ?b @ ?n @ ?g" unfolding l if_not_P [OF False] ..
    have b: "debits ?b = pl_accumulated p" "credits ?b = pl_original p"
      "list_all line_ok ?b \<longleftrightarrow> 0 < pl_accumulated p \<and> 0 < pl_original p"
      using q(3,4) by (simp_all add: line_ok_debit line_ok_credit)
    have "list_all line_ok (pl_lines p) \<longleftrightarrow> 0 < pl_accumulated p \<and> 0 < pl_original p"
      unfolding l list_all_append b(3) using n(3) g(2) by simp
    moreover have "debits (pl_lines p) - credits (pl_lines p) =
        pl_accumulated p - pl_original p + n + (if truthy gel then - pl_gain_loss p else 0)"
      unfolding l map_append sum_list_append b(1,2) n(1,2) using g(1) by linarith
    moreover have "pl_lines p \<noteq> []" unfolding l by simp
    moreover have "pl_accumulated p - pl_original p + n + (if truthy gel then - pl_gain_loss p else 0) = 0 \<longleftrightarrow>
        truthy gel \<or> pl_gain_loss p = 0"
      using q(2) q(8) [OF False] by auto
    ultimately show ?thesis
      unfolding postable_plan_def if_not_P [OF False] by (metis eq_iff_diff_eq_0)
  qed
qed


lemma update_member: "x \<in> set xs \<Longrightarrow> (if P x then f x else x) \<in> set (update_where P f xs)"
  by (simp add: update_where_def)

subsection \<open>Obligations whose entry has landed\<close>

text \<open>
  A disposal voids every pending obligation of its schedule without asking whether an
  entry of it has posted, which is what refuses a retraction elsewhere: the posted entry
  stays under a voided event.
\<close>

theorem disposal_voids_landed_obligation:
  assumes "dispatch_disposal w e m s = Inr s'" "find_structure s (sd_schedule m) = Some st"
    "register_originator s st = Some o_id" "x \<in> set (events s)" "ev_obligated_by x = Some o_id"
    "ev_status x = EvPending" "y \<in> set (entries s)" "landed (ev_id x) y" "fresh_ids w s"
  shows "dead s' (ev_id x) \<and> y \<in> set (entries s') \<and> \<not> books_live s'"
proof -
  define s0 where "s0 = void_for_disposal (sd_schedule m) (ev_id e) s"
  define s1 where "s1 = delete_sum_equals_rule (sd_schedule m) s0"
  from assms(1) obtain p :: disposal_plan and s2 r where
    c: "create_manual_closing_entry (fence_free (cw_locks w)) (cw_entry_id w 0) s1 (time_date (ev_occurred_at e))
      (pl_lines p) (disposal_entry_memo m) ''closing'' = Inr (s2, r)"
    and l: "s' = link_entry (ev_id e) (cw_entry_id w 0) s2"
    unfolding dispatch_disposal_def Let_def bindR_eq_Inr s0_def [symmetric] s1_def [symmetric]
    by (auto simp: lifted_eq_Inr)
  have "\<exists>r. create_manual_closing_entry (fence_free (cw_locks w)) (cw_entry_id w 0) s1 (time_date (ev_occurred_at e))
      (pl_lines p) (disposal_entry_memo m) ''closing'' = Inr (s2, r)" using c by blast
  note a = this [unfolded manual_entry_accepted_iff]
  have ev: "events s' = events s0"
    using a by (simp add: l link_entry_def s1_def delete_sum_equals_rule_def Let_def)
  let ?hit = "\<lambda>e. ev_id e \<in> ev_id ` {e \<in> set (events s). to_void o_id None False e} \<and> voidable False (ev_status e)"
  have hit: "?hit x" using assms(4-6) by (auto simp: to_void_def voidable_def)
  then have n: "count_where ?hit (events s) \<noteq> 0" using assms(4) by (auto simp: count_where_def filter_empty_conv)
  define f :: "event \<Rightarrow> event" where "f = (\<lambda>z. z\<lparr>ev_status := Voided, ev_replaced_by := Some (ev_id e)\<rparr>)"
  define g :: "event \<Rightarrow> event" where "g = (\<lambda>z. z\<lparr>ev_pending_count :=
      Some (max 0 ((case ev_pending_count z of None \<Rightarrow> 0 | Some k \<Rightarrow> k) - int (count_where ?hit (events s)))),
    ev_void_history := ev_void_history z @ [(count_where ?hit (events s), ''asset_disposed'', Some (ev_id e))]\<rparr>)"
  have fg: "ev_id (f z) = ev_id z" "ev_status (f z) = Voided" "ev_id (g z) = ev_id z" "ev_status (g z) = ev_status z" for z
    by (simp_all add: f_def g_def)
  have evs: "events s0 = update_where (\<lambda>e. ev_id e = o_id) g (update_where ?hit f (events s))"
    unfolding s0_def void_for_disposal_def assms(2) option.case void_pending_obligations_def assms(3) Let_def if_not_P [OF n]
      fst_conv f_def g_def by simp
  have "f x \<in> set (update_where ?hit f (events s))" using update_member [OF assms(4), of ?hit f] hit by simp
  from update_member [OF this, of "\<lambda>e. ev_id e = o_id" g]
  have "(if ev_id (f x) = o_id then g (f x) else f x) \<in> set (events s0)" unfolding evs .
  then have d: "dead s' (ev_id x)"
    unfolding dead_def ev by (rule bexI [rotated]) (simp add: fg retracted_def)
  have "en_id y \<noteq> cw_entry_id w 0"
    using assms(7,9) by (auto simp: fresh_ids_def fresh_entry_def find_entry_def find_row_None)
  moreover have "entries s1 = entries s" by (simp add: s1_def s0_def delete_sum_equals_rule_def Let_def void_tables)
  ultimately have y: "y \<in> set (entries s')" using a assms(7) by (auto simp: l link_entry_def update_where_def)
  have "\<not> books_live s'"
  proof
    assume "books_live s'"
    with d y assms(8) have "en_status y = EntryDraft" by (auto simp: books_live_iff live_rows_def landed_def)
    with assms(8) show False by (auto simp: landed_def)
  qed
  with d y show ?thesis by blast
qed

subsection \<open>The event behind a reversed entry\<close>

lemma link_member:
  "x \<in> set (entries s) \<Longrightarrow> \<exists>y\<in>set (entries (link_entry ev j s)). en_id y = en_id x \<and> en_status y = en_status x"
  by (intro bexI [of _ "if en_id x = j then x\<lparr>en_event := Some ev\<rparr> else x"]) (auto simp: link_entry_def update_where_def)

lemma single_landed:
  assumes "count_where (landed i) xs = 1" "x \<in> set xs" "landed i x" "y \<in> set xs" "landed i y"
  shows "y = x"
proof -
  from assms(1) obtain z where "filter (landed i) xs = [z]" by (auto simp: count_where_def length_Suc_conv)
  moreover from assms(2-5) have "x \<in> set (filter (landed i) xs)" "y \<in> set (filter (landed i) xs)" by simp_all
  ultimately show ?thesis by simp
qed

text \<open>The tables a reversal leaves, and where each of its entries comes from.\<close>

lemma reversal_tables:
  assumes "dispatch_reversal w e m s = Inr s'" "find_entry s (rv_entry m) = Some x"
  shows "en_id x = rv_entry m \<and> x \<in> set (entries s) \<and> en_status x = EntryPosted \<and> transactions s' = transactions s \<and>
    (\<exists>y\<in>set (entries s'). en_id y = rv_entry m \<and> en_status y = EntryReversed) \<and>
    (\<forall>y\<in>set (entries s'). y \<in> set (entries s) \<and> en_id y \<noteq> rv_entry m \<or> en_event y = None \<or> en_event y = Some (ev_id e))"
proof -
  let ?i = "rv_entry m" and ?rid = "cw_entry_id w 0"
  from assms(1) obtain s1 r where
    c: "reverse_journal_entry (cw_locks w) (cw_now w) (cw_today w) ?rid s s ?i (rv_date m) (rv_memo m) = Inr (s1, r)"
    and s': "s' = link_entry (ev_id e) ?i (link_entry (ev_id e) (en_id r) s1)"
    by (auto simp: dispatch_reversal_def lifted_eq_Inr)
  from reverse_inversion [OF c] assms(2) have x: "en_status x = EntryPosted"
    and r: "r = reversing_entry ?rid (cw_now w) (en_posting_date r) (rv_memo m) x"
    and put: "s1 = put_entry (x\<lparr>en_status := EntryReversed\<rparr>)
       (s\<lparr>entries := entries s @ [r], line_items := line_items s @ map (flip_line ?rid) (lines_of s ?i)\<rparr>)" by auto
  have id: "en_id x = ?i" "x \<in> set (entries s)"
    using assms(2) find_entry_id [OF assms(2)] unfolding find_entry_def by (auto dest: find_row_Some)
  have "en_event r = None" using arg_cong [OF r, of en_event] by (simp add: reversing_entry_def)
  then have "\<forall>y\<in>set (entries s'). y \<in> set (entries s) \<and> en_id y \<noteq> ?i \<or> en_event y = None \<or> en_event y = Some (ev_id e)"
    using id(1) unfolding s' put by (auto simp: link_entry_def put_entry_def update_where_def split: if_splits)
  moreover have "\<exists>y\<in>set (entries s'). en_id y = ?i \<and> en_status y = EntryReversed"
  proof -
    have "x\<lparr>en_status := EntryReversed\<rparr> \<in> set (entries s1)"
      using id(2) by (auto simp: put put_entry_def update_where_def)
    from link_member [OF this] obtain y where "y \<in> set (entries (link_entry (ev_id e) (en_id r) s1))"
      "en_id y = ?i" "en_status y = EntryReversed" using id(1) by auto
    with link_member [OF this(1)] show ?thesis unfolding s' by metis
  qed
  ultimately show ?thesis using x id by (simp add: s' put link_entry_def put_entry_def)
qed


subsection \<open>Discharges\<close>

definition linked_to :: "event \<Rightarrow> event \<Rightarrow> bool" where
  "linked_to e x \<longleftrightarrow> ev_external_id x \<in> Some ` set (concat (map (external_ref \<circ> the) (ev_linked e)))"

definition reference_of :: "event \<Rightarrow> string" where
  "reference_of e = strip (str_first (meta_get e ''qb_reference_number'') [])"

definition same_reference :: "event \<Rightarrow> event \<Rightarrow> bool" where
  "same_reference e x \<longleftrightarrow> reference_of e \<noteq> [] \<and> meta_get x ''qb_doc_number'' = Some (reference_of e) \<and>
     ev_agent x = ev_agent e"

definition first_of :: "(event \<Rightarrow> bool) \<Rightarrow> ledger \<Rightarrow> event \<Rightarrow> bool" where
  "first_of P s x \<longleftrightarrow> x \<in> set (events s) \<and> P x \<and> (\<forall>y\<in>set (events s). P y \<longrightarrow> ev_occurred_at x \<le> ev_occurred_at y)"

lemma oldest_Some: "oldest P s = Some x \<Longrightarrow> first_of P s x"
proof -
  assume o: "oldest P s = Some x"
  then obtain ys where ys: "sort_key ev_occurred_at (filter P (events s)) = x # ys"
    by (auto simp: oldest_def split: list.splits)
  then have "set (x # ys) = {y \<in> set (events s). P y}" by (metis set_sort set_filter)
  moreover have "sorted (map ev_occurred_at (x # ys))" using ys by (metis sorted_sort_key)
  ultimately show ?thesis by (force simp: first_of_def)
qed

lemma oldest_None: "oldest P s = None \<longleftrightarrow> (\<forall>y\<in>set (events s). \<not> P y)"
proof -
  have "sort_key ev_occurred_at (filter P (events s)) = [] \<longleftrightarrow> filter P (events s) = []"
    by (metis length_0_conv length_sort)
  then show ?thesis
    by (cases "sort_key ev_occurred_at (filter P (events s))") (auto simp: oldest_def filter_empty_conv)
qed

lemma by_linked: "resolve_by_linked_txns types e s = oldest (\<lambda>x. dischargeable types e x \<and> linked_to e x) s"
proof (cases "concat (map (external_ref \<circ> the) (ev_linked e)) = []")
  case True
  have "oldest (\<lambda>x. dischargeable types e x \<and> linked_to e x) s = None"
    unfolding oldest_None by (simp add: linked_to_def True del: concat_eq_Nil_conv)
  with True show ?thesis by (simp add: resolve_by_linked_txns_def Let_def del: concat_eq_Nil_conv)
next
  case False
  then show ?thesis by (simp add: resolve_by_linked_txns_def Let_def linked_to_def del: concat_eq_Nil_conv)
qed

lemma by_reference: "resolve_by_reference_number types e s = oldest (\<lambda>x. dischargeable types e x \<and> same_reference e x) s"
proof (cases "reference_of e = []")
  case True
  have "oldest (\<lambda>x. dischargeable types e x \<and> same_reference e x) s = None"
    unfolding oldest_None by (simp add: same_reference_def True)
  with True show ?thesis by (simp add: resolve_by_reference_number_def Let_def reference_of_def)
next
  case False
  then show ?thesis
    by (simp add: resolve_by_reference_number_def Let_def reference_of_def same_reference_def)
qed

text \<open>
  C14. A payment without a discharge gets the oldest live event of its source and kind that a
  linked transaction names, or without one the oldest with its reference number and
  counterparty; only when neither exists does it stay without. A discharge is never changed.
\<close>

theorem payment_discharges_oldest_live:
  assumes "link_discharge types e s = Inr e'"
  shows "e' = e\<lparr>ev_discharges := ev_discharges e'\<rparr> \<and>
    (case ev_discharges e of
       Some j \<Rightarrow> ev_discharges e' = Some j
     | None \<Rightarrow>
         (case ev_discharges e' of
            None \<Rightarrow> \<forall>x\<in>set (events s). dischargeable types e x \<longrightarrow> \<not> linked_to e x \<and> \<not> same_reference e x
          | Some j \<Rightarrow> \<exists>x. ev_id x = j \<and>
              (first_of (\<lambda>x. dischargeable types e x \<and> linked_to e x) s x \<or>
               (\<forall>y\<in>set (events s). dischargeable types e y \<longrightarrow> \<not> linked_to e y) \<and>
               first_of (\<lambda>x. dischargeable types e x \<and> same_reference e x) s x)))"
proof (cases "ev_discharges e")
  case (Some j)
  with assms show ?thesis by (simp add: link_discharge_def)
next
  case None
  let ?a = "oldest (\<lambda>x. dischargeable types e x \<and> linked_to e x) s"
  let ?b = "oldest (\<lambda>x. dischargeable types e x \<and> same_reference e x) s"
  from assms None have e': "(case (case ?a of None \<Rightarrow> ?b | Some x \<Rightarrow> Some x) of
      None \<Rightarrow> Inr e | Some x \<Rightarrow> Inr (e\<lparr>ev_discharges := Some (ev_id x)\<rparr>)) = (Inr e' :: dispatch_error + event)"
    unfolding link_discharge_def by_linked by_reference by (simp split: if_splits)
  show ?thesis
  proof (cases ?a)
    case (Some x)
    with e' have "e' = e\<lparr>ev_discharges := Some (ev_id x)\<rparr>" by simp
    with None oldest_Some [OF Some] show ?thesis by auto
  next
    case n: None
    show ?thesis
    proof (cases ?b)
      case (Some x)
      with e' n have "e' = e\<lparr>ev_discharges := Some (ev_id x)\<rparr>" by simp
      with None oldest_Some [OF Some] n show ?thesis by (auto simp: oldest_None)
    next
      case b: None
      with e' n have "e' = e" by simp
      with None n b show ?thesis by (auto simp: oldest_None)
    qed
  qed
qed

subsection \<open>Regenerated closing entries\<close>

text \<open>
  Only a posted closing entry stops a schedule's regeneration. One that was posted and
  then reversed is taken for a stale draft: it is deleted, and with it the posted entry that
  reverses it.
\<close>

theorem regeneration_deletes_a_reversed_pair:
  assumes "create_closing_entry free eid rid s sid pd ps pe memo = Inr (s', r)"
    "existing_closing s sid ps pe = Some e" "en_status e = EntryReversed" "cs_outcome r \<noteq> Unchanged"
    "x \<in> set (entries s)" "en_reversal_of x = Some (en_id e)" "en_status x = EntryPosted"
  shows "e \<in> set (entries s) \<and> e \<notin> set (entries s') \<and> x \<notin> set (entries s')"
proof -
  from create_closing_body [OF assms(1)] obtain st t where
    b: "reconcile eid rid s sid t pd pe (entry_memo memo t st) (schedule_fact s sid (tp_debit t) ps pe)
       (existing_closing s sid ps pe) = Inr (s', r)" .
  from assms(2) have e: "e \<in> set (entries s)" by (auto simp: existing_closing_def dest: find_row_Some)
  let ?s0 = "delete_draft_entry (en_id e) s"
  have gone: "e \<notin> set (entries ?s0)" "x \<notin> set (entries ?s0)"
    using assms(6) by (simp_all add: entries_delete_draft)
  consider "s' = ?s0" | t m a oc where "create_draft eid rid ?s0 sid t pd pe m a oc = Inr (s', r)"
    using b assms(2-4) by (auto simp: reconcile_def split: option.splits if_splits)
  then show ?thesis
  proof cases
    case 1
    with gone e show ?thesis by simp
  next
    case 2
    from create_draft_rows [OF 2] obtain es where es: "entries s' = entries ?s0 @ es"
      "\<forall>y\<in>set es. en_status y = EntryDraft"
      by (auto simp: closing_draft_def split: if_splits)
    with gone e assms(3,7) show ?thesis by auto
  qed
qed

end
