(* ===== verification/CaptureResults.thy ===== *)
theory CaptureResults
  imports DisposalFacts
begin

text \<open>
  What a capture keeps: deliveries of an external source are captured once, and nothing lands
  under a retracted event, now with the handlers the code has instead of an assumption on
  them.
\<close>

subsection \<open>Rows a handler touches\<close>

text \<open>Every row is of no event, of the handler's event, or was there and is as far landed.\<close>

definition rows_from :: "string \<Rightarrow> ledger \<Rightarrow> ledger \<Rightarrow> bool" where
  "rows_from i s s' \<longleftrightarrow> (\<forall>x'\<in>set (entries s'). en_event x' = None \<or> en_event x' = Some i \<or>
     (\<exists>x\<in>set (entries s). en_event x = en_event x' \<and> (en_status x = EntryDraft \<longrightarrow> en_status x' = EntryDraft)))"

lemma rows_from_refl: "entries s' = entries s \<Longrightarrow> rows_from i s s'"
  by (auto simp: rows_from_def)

lemma rows_from_trans: "rows_from i s t \<Longrightarrow> rows_from i t u \<Longrightarrow> rows_from i s u"
  unfolding rows_from_def by (metis option.distinct(1))

lemma rows_from_append:
  "entries s' = entries s @ es \<Longrightarrow> \<forall>x\<in>set es. en_event x = None \<or> en_event x = Some i \<Longrightarrow> rows_from i s s'"
  by (auto simp: rows_from_def)

lemma rows_from_subset:
  "entries s' = xs @ es \<Longrightarrow> set xs \<subseteq> set (entries s) \<Longrightarrow> \<forall>x\<in>set es. en_event x = None \<Longrightarrow> rows_from i s s'"
  by (auto simp: rows_from_def)

lemma rows_from_link: "rows_from i s (link_entry i j s)"
  by (auto simp: rows_from_def link_entry_def update_where_def)

lemma rows_from_link_txn: "rows_from i s (link_entry_and_txn i x s)"
  using rows_from_link [of i s "en_id x"]
  by (simp add: rows_from_def link_entry_and_txn_def link_transaction_def)

lemma record_entry_rows:
  assumes "record_entry w n e rq s = Inr (s', x)"
  shows "rows_from (ev_id e) s s' \<and> events s' = events s"
proof -
  from assms obtain s1 where
    c: "create_journal_entry (cw_locks w) (cw_now w) (cw_tx_id w n) (cw_entry_id w n) s s rq = Inr (s1, x)"
    and s': "s' = link_entry_and_txn (ev_id e) x s1"
    by (auto simp: record_entry_def lifted_eq_Inr)
  have "rows_from (ev_id e) s s1"
    using create_rows [OF c] by (intro rows_from_append [of _ _ "[x]"]) (auto simp: created_entry_def)
  then have "rows_from (ev_id e) s s'" unfolding s' by (rule rows_from_trans) (rule rows_from_link_txn)
  moreover have "events s' = events s"
    using create_rows [OF c] by (simp add: s' link_entry_and_txn_def link_transaction_def link_entry_def)
  ultimately show ?thesis ..
qed

lemma record_entries_rows:
  "record_entries w e m n t xs s = Inr s' \<Longrightarrow> rows_from (ev_id e) s s' \<and> events s' = events s"
proof (induction xs arbitrary: n t s)
  case Nil
  then show ?case by (simp add: rows_from_refl)
next
  case (Cons p xs)
  obtain x ls where p: "p = (x, ls)" by fastforce
  from Cons.prems obtain s1 row t' where
    r: "record_entry w n e (journal_request e m (ne_date x) (ne_memo x) (ne_type x) ls t) s = Inr (s1, row)"
    and rest: "record_entries w e m (Suc n) t' xs s1 = Inr s'"
    unfolding p record_entries.simps bindR_eq_Inr by auto
  from record_entry_rows [OF r] Cons.IH [OF rest] rows_from_trans show ?case by metis
qed

text \<open>The event row a handler leaves: the same but for its status and its discharge.\<close>

definition same_delivery_row :: "event \<Rightarrow> event \<Rightarrow> bool" where
  "same_delivery_row e e1 \<longleftrightarrow> ev_id e1 = ev_id e \<and> ev_source e1 = ev_source e \<and>
     ev_external_id e1 = ev_external_id e \<and> (ev_status e1 = ev_status e \<or> ev_status e1 = Fulfilled)"

lemma link_discharge_row:
  "link_discharge types e s = Inr e1 \<Longrightarrow> ev_id e1 = ev_id e \<and> ev_source e1 = ev_source e \<and>
     ev_external_id e1 = ev_external_id e \<and> ev_status e1 = ev_status e"
  by (auto simp: link_discharge_def split: if_splits option.splits)

lemma journal_rows_from:
  assumes "dispatch_journal w e m s = Inr (s', e')"
  shows "rows_from (ev_id e) s s' \<and> events s' = events s \<and> same_delivery_row e e'"
proof -
  from assms have "dispatch_nested w e m s = Inr s' \<or> dispatch_flat w e m s = Inr s'" and e': "same_delivery_row e e'"
    by (auto simp: dispatch_journal_def bindR_eq_Inr same_delivery_row_def split: if_splits)
  moreover have "rows_from (ev_id e) s s' \<and> events s' = events s" if "dispatch_nested w e m s = Inr s'"
    using that record_entries_rows by (auto simp: dispatch_nested_def Let_def bindR_eq_Inr)
  moreover have "rows_from (ev_id e) s s' \<and> events s' = events s" if "dispatch_flat w e m s = Inr s'"
    using that record_entry_rows by (fastforce simp: dispatch_flat_def bindR_eq_Inr)
  ultimately show ?thesis by blast
qed

lemma closing_rows_from:
  assumes "create_closing_entry free eid rid s sid pd ps pe memo = Inr (s', r)"
  shows "rows_from i s s'"
proof -
  from create_closing_body [OF assms] obtain st t where
    "reconcile eid rid s sid t pd pe (entry_memo memo t st) (schedule_fact s sid (tp_debit t) ps pe)
       (existing_closing s sid ps pe) = Inr (s', r)" .
  then show ?thesis
  proof (cases rule: reconcile_cases)
    case (drafted v s0)
    from drafted(3) have "set (entries s0) \<subseteq> set (entries s)" by (auto simp: entries_delete_draft)
    moreover from create_draft_rows [OF drafted(4)] obtain es where "entries s' = entries s0 @ es"
      "\<forall>x\<in>set es. en_event x = None" by (auto simp: closing_draft_def split: if_splits)
    ultimately show ?thesis by (intro rows_from_subset)
  next
    case (removed e)
    then show ?thesis by (intro rows_from_subset [of _ _ "[]"]) (auto simp: entries_delete_draft)
  qed (simp_all add: rows_from_refl)
qed

lemma due_rows_from:
  assumes "dispatch_due free ids e m s = Inr (s', r)"
  shows "rows_from (ev_id e) s s' \<and> events s' = events s"
proof -
  from assms obtain s1 where
    c: "create_closing_entry free (fst (ids (ev_id e))) (snd (ids (ev_id e))) s (dm_schedule m) (dm_posting m)
          (dm_start m) (dm_end m) (dm_memo m) = Inr (s1, r)"
    and s': "s' = s1 \<or> (\<exists>i. s' = link_entry (ev_id e) i s1)"
    unfolding dispatch_due_def link_entry_def by (auto simp: bindR_eq_Inr split: option.splits if_splits)
  have "rows_from (ev_id e) s1 s'" using s' rows_from_link rows_from_refl by blast
  with closing_rows_from [OF c] show ?thesis
    using dispatch_due_events [OF assms] rows_from_trans by blast
qed

lemma reversal_rows_from:
  assumes "dispatch_reversal w e m s = Inr s'"
  shows "rows_from (ev_id e) s s' \<and> events s' = events s"
proof -
  from assms obtain s1 r where
    c: "reverse_journal_entry (cw_locks w) (cw_now w) (cw_today w) (cw_entry_id w 0) s s (rv_entry m) (rv_date m) (rv_memo m) = Inr (s1, r)"
    and s': "s' = link_entry (ev_id e) (rv_entry m) (link_entry (ev_id e) (en_id r) s1)"
    by (auto simp: dispatch_reversal_def lifted_eq_Inr)
  from reverse_inversion [OF c] obtain x where x: "find_entry s (rv_entry m) = Some x" "en_status x = EntryPosted"
    and r: "r = reversing_entry (cw_entry_id w 0) (cw_now w) (en_posting_date r) (rv_memo m) x"
    and s1: "s1 = put_entry (x\<lparr>en_status := EntryReversed\<rparr>)
       (s\<lparr>entries := entries s @ [r], line_items := line_items s @ map (flip_line (cw_entry_id w 0)) (lines_of s (rv_entry m))\<rparr>)" .
  have "en_event r = None" using arg_cong [OF r, of en_event] by (simp add: reversing_entry_def)
  moreover have "x \<in> set (entries s)" using x(1) unfolding find_entry_def by (auto dest: find_row_Some)
  ultimately have "rows_from (ev_id e) s s1"
    using x(2) by (auto simp: rows_from_def s1 put_entry_def update_where_def)
  then have "rows_from (ev_id e) s s'" unfolding s' using rows_from_trans rows_from_link by metis
  then show ?thesis by (simp add: s' s1 link_entry_def put_entry_def)
qed

lemma dispatch_rows_from:
  assumes "dispatch_handler w e k m s = Inr s'" "\<And>d. m \<noteq> DisposalData d"
  shows "rows_from (ev_id e) s s' \<and>
    (events s' = events s \<or> (\<exists>e1. same_delivery_row e e1 \<and> events s' = events (put_event e1 s)))"
proof (cases m)
  case (DueData d)
  with assms(1) obtain r where
    "dispatch_due (fence_free (cw_locks w)) (\<lambda>_. (cw_entry_id w 0, cw_entry_id w 1)) e d s = Inr (s', r)"
    by (auto simp: dispatch_handler_def lifted_eq_Inr)
  from due_rows_from [OF this] show ?thesis by blast
next
  case (JournalData j)
  from assms(1) obtain s1 e0 e1 where d: "dispatch_journal w e j s = Inr (s1, e0)"
    and e1: "e1 = e0 \<or> (\<exists>types. link_discharge types e0 (put_event e0 s1) = Inr e1)" and s': "s' = put_event e1 s1"
    by (auto simp: dispatch_handler_def JournalData dispatch_payment_def bindR_eq_Inr split: if_splits)
  note j = journal_rows_from [OF d]
  have "same_delivery_row e e1"
    using e1 j link_discharge_row by (auto simp: same_delivery_row_def)
  moreover have "rows_from (ev_id e) s s'" using j by (simp add: rows_from_def s')
  moreover have "events s' = events (put_event e1 s)" using j by (simp add: s' put_event_def)
  ultimately show ?thesis by blast
qed (use assms rows_from_refl reversal_rows_from in \<open>auto simp: dispatch_handler_def\<close>)

subsection \<open>Nothing in the books of a retracted event\<close>

lemma dispatch_books_live:
  assumes "dispatch_handler w e k m s = Inr s'" "\<And>d. m \<noteq> DisposalData d" "books_live s"
    "\<not> dead s (ev_id e)" "\<not> retracted (ev_status e)"
  shows "books_live s'"
proof -
  note d = dispatch_rows_from [OF assms(1,2)]
  have ids: "map ev_id (events s') = map ev_id (events s)" using d by auto
  have dead: "dead s i" if "dead s' i" for i
  proof (cases "events s' = events s")
    case True
    with that show ?thesis by (simp add: dead_def)
  next
    case False
    with d obtain e1 where e1: "same_delivery_row e e1" "events s' = events (put_event e1 s)" by blast
    then have "\<not> retracted (ev_status e1)" using assms(5) by (auto simp: same_delivery_row_def retracted_def)
    with that show ?thesis unfolding dead_def e1(2) by (auto simp: put_event_def update_where_def split: if_splits)
  qed
  have "live_rows (dead s') (entries s')"
    unfolding live_rows_def
  proof (intro ballI allI impI)
    fix x' i
    assume x': "x' \<in> set (entries s')" "en_event x' = Some i" "dead s' i"
    with d dead assms(4) obtain x where "x \<in> set (entries s)" "en_event x = Some i"
      "en_status x = EntryDraft \<longrightarrow> en_status x' = EntryDraft"
      unfolding rows_from_def by (metis option.distinct(1) option.inject)
    with assms(3) dead [OF x'(3)] show "en_status x' = EntryDraft" by (auto simp: books_live_iff live_rows_def)
  qed
  with ids assms(3) show ?thesis by (simp add: books_live_iff)
qed

text \<open>A generated event identifier no row has.\<close>

definition fresh_event :: "capture_env \<Rightarrow> ledger \<Rightarrow> bool" where
  "fresh_event w s \<longleftrightarrow> (\<forall>x\<in>set (events s). ev_id x \<noteq> cw_event_id w)"

lemma built_row [simp]: "ev_id (build_event_row w rq st) = cw_event_id w"
  "ev_status (build_event_row w rq st) = st" "ev_source (build_event_row w rq st) = cb_source rq"
  "ev_external_id (build_event_row w rq st) = cb_external rq"
  by (simp_all add: build_event_row_def)

lemma flush_books_live:
  assumes "flush_new_event w rq st s = Inr s1" "books_live s" "fresh_event w s" "\<not> retracted st"
  shows "books_live s1" "\<not> dead s1 (cw_event_id w)"
proof -
  note t = flush_tables [OF assms(1)]
  have d: "dead s1 = dead s"
    using assms(4) by (auto simp: dead_def t(6) fun_eq_iff)
  show "books_live s1"
    using assms(2,3) by (auto simp: books_live_iff d t(1,6) fresh_event_def)
  show "\<not> dead s1 (cw_event_id w)"
    unfolding d using assms(3) by (auto simp: dead_def fresh_event_def)
qed

lemma template_rows:
  "apply_specs other ctx tids eids ev memo d i xs s = Inr s' \<Longrightarrow>
   events s' = events s \<and> rows_from (ev_id ev) s s'"
proof (induction xs arbitrary: i s)
  case (Cons x xs)
  from Cons.prems obtain de ce n s1 where
    c: "post_spec ev memo d (tids i) (eids i) (de, ce, n) s = Inr s1"
    and rest: "apply_specs other ctx tids eids ev memo d (Suc i) xs s1 = Inr s'"
    unfolding apply_specs.simps bindR_eq_Inr by auto
  have "rows_from (ev_id ev) s s1" "events s1 = events s"
    using c [unfolded post_spec_ok] by (auto simp: rows_from_def)
  with Cons.IH [OF rest] rows_from_trans show ?case by metis
qed (simp add: rows_from_refl)

lemma target_not_retracted [simp]: "\<not> retracted (target_status k)"
  by (cases k) (simp_all add: target_status_def retracted_def)

lemma no_disposal:
  assumes "get_python_handler ty = Some k" "accepted_metadata k m" "ty \<noteq> ''asset_disposed''"
  shows "m \<noteq> DisposalData d"
  using assms by (auto simp: get_python_handler_def python_registry_def accepted_metadata_def split: if_splits)

lemma capture_books_live:
  assumes "create_event_block w s0 s rq = Inr s'" "cb_type rq \<noteq> ''asset_disposed''" "fresh_event w s" "books_live s"
  shows "books_live s'"
  using assms(1)
proof (cases rule: capture_cases)
  case plain
  from flush_books_live [OF this assms(4,3)] show ?thesis by (simp add: retracted_def)
next
  case (python k m s1)
  note f = flush_books_live [OF python(3) assms(4,3)]
  show ?thesis
    by (rule dispatch_books_live [OF python(4)]) (use f no_disposal [OF python(1,2) assms(2)] in simp_all)
next
  case (template h s1)
  have f: "books_live s1" "\<not> dead s1 (cw_event_id w)"
    using flush_books_live [OF template(3) assms(4,3)] by (simp_all add: retracted_def)
  from template(4) obtain other ctx memo d xs where
    "apply_specs other ctx (cw_tx_id w) (cw_entry_id w) (build_event_row w rq Classified) memo d 0 xs s1 = Inr s'"
    by (auto simp: apply_handler_def Let_def split: option.splits sum.splits)
  from template_rows [OF this] have t: "events s' = events s1" "rows_from (cw_event_id w) s1 s'" by simp_all
  have "dead s' = dead s1" using t(1) by (simp add: dead_def fun_eq_iff)
  with t f show ?thesis
    unfolding books_live_iff live_rows_def rows_from_def by (metis option.distinct(1) option.inject)
qed

text \<open>The handlers as an update fires them, but for disposals.\<close>

definition safe_fire :: "capture_env \<Rightarrow> event \<Rightarrow> ledger \<Rightarrow> ledger option" where
  "safe_fire w e s = (if ev_type e = ''asset_disposed'' \<or> retracted (ev_status e) then None
     else fire_handler_on_commit w e s)"

lemma safe_fire_keeps: "handler_keeps (safe_fire w)"
  unfolding handler_keeps_def
proof (intro allI impI)
  fix e s s'
  assume f: "safe_fire w e s = Some s'"
  then have r: "\<not> retracted (ev_status e)" "ev_type e \<noteq> ''asset_disposed''" "fire_handler_on_commit w e s = Some s'"
    by (auto simp: safe_fire_def split: if_splits)
  have "rows_from (ev_id e) s s' \<and> (events s' = events s \<or> (\<exists>e1. same_delivery_row e e1 \<and> events s' = events (put_event e1 s)))"
  proof (cases "get_python_handler (ev_type e)")
    case None
    with r(3) show ?thesis by (simp add: fire_handler_on_commit_def rows_from_refl)
  next
    case (Some k)
    with r(3) obtain m where "accepted_metadata k m" "dispatch_handler w e k m s = Inr s'"
      by (auto simp: fire_handler_on_commit_def typed_metadata_def split: option.splits if_splits sum.splits)
    with dispatch_rows_from no_disposal [OF Some _ r(2)] show ?thesis by metis
  qed
  then show "map ev_id (events s') = map ev_id (events s) \<and>
     (\<forall>v'\<in>set (events s'). retracted (ev_status v') \<longrightarrow> (\<exists>v\<in>set (events s). ev_id v = ev_id v' \<and> retracted (ev_status v))) \<and>
     (\<forall>x'\<in>set (entries s'). en_event x' = None \<or> en_event x' = Some (ev_id e) \<or>
        (\<exists>x\<in>set (entries s). en_event x = en_event x' \<and> (en_status x = EntryDraft \<longrightarrow> en_status x' = EntryDraft)))"
    using r(1) unfolding rows_from_def
    by (auto simp: same_delivery_row_def put_event_def update_where_def retracted_def split: if_splits)
qed

lemma apply_transition_type: "apply_transition s e t by = Inr (s1, e1) \<Longrightarrow> ev_type e1 = ev_type e \<and> ev_status e1 = t"
  by (auto simp: apply_transition_def link_successor_def bindR_eq_Inr split: if_splits option.splits)

lemma corrected_type: "ev_type (corrected_event u e) = ev_type e"
proof -
  have "ev_type (patch_meta kvs e) = ev_type e" for kvs :: "(string \<times> string) list" and e :: event
    by (induction kvs arbitrary: e) (auto simp: patch_meta_def meta_set_def split: prod.splits)
  then show ?thesis by (simp add: corrected_event_def Let_def split: option.splits)
qed

lemma update_fires_safely:
  assumes "update_event_block free unlocked conns g (fire_handler_on_commit w) s0 s u = Inr s'"
    "\<forall>e. find_event s (ue_event u) = Some e \<longrightarrow> ev_type e \<noteq> ''asset_disposed''"
  shows "update_event_block free unlocked conns g (safe_fire w) s0 s u = Inr s'"
proof -
  have same: "fire_on_commit (safe_fire w) c (corrected_event u e1) s1 = fire_on_commit (fire_handler_on_commit w) c (corrected_event u e1) s1"
    if "find_event s (ue_event u) = Some e" "c \<longrightarrow> ue_transition u = Some Committed"
      "(case ue_transition u of None \<Rightarrow> Inr (s, e) | Some t \<Rightarrow> apply_transition s e t (ue_superseded_by u)) = Inr (s1, e1)"
    for c e e1 s1
  proof -
    have "ev_type e1 \<noteq> ''asset_disposed''" "c \<longrightarrow> ev_status e1 = Committed"
      using that assms(2) by (auto dest: apply_transition_type split: option.splits)
    then show ?thesis
      by (cases c) (simp_all add: fire_on_commit_def safe_fire_def Let_def corrected_type corrected_event_fields retracted_def)
  qed
  from assms(1) show ?thesis
    unfolding update_event_block_def bindR_eq_Inr
    by (auto simp: bindR_eq_Inr same split: option.splits if_splits)
qed

inductive books_step :: "ledger \<Rightarrow> ledger \<Rightarrow> bool" where
  captured: "create_event_block w s0 s rq = Inr s' \<Longrightarrow> cb_type rq \<noteq> ''asset_disposed'' \<Longrightarrow> fresh_event w s \<Longrightarrow>
    books_step s s'"
| updated: "update_event_block free unlocked conns g (fire_handler_on_commit w) s0 s u = Inr s' \<Longrightarrow>
    \<forall>e. find_event s (ue_event u) = Some e \<longrightarrow> ev_type e \<noteq> ''asset_disposed'' \<Longrightarrow> books_step s s'"
| sent: "execute_event_block now conns qb unlocked free g acquire conn i s = Inr (s', r) \<Longrightarrow> books_step s s'"
| period_closed: "close w' rq' s = (s', res) \<Longrightarrow> quiet_world w' \<Longrightarrow> books_step s s'"
| journal: "je_step s s' \<Longrightarrow> books_step s s'"

interpretation event_books: step_invariant books_step books_live
proof
  fix s t
  assume "books_step s t" "books_live s"
  then show "books_live t"
  proof cases
    case captured
    with \<open>books_live s\<close> show ?thesis by (blast intro: capture_books_live)
  next
    case updated
    from update_books_live [OF update_fires_safely [OF updated] safe_fire_keeps \<open>books_live s\<close>] show ?thesis .
  next
    case sent
    from execute_books_live [OF sent \<open>books_live s\<close>] show ?thesis .
  next
    case period_closed
    from close_books_live [OF period_closed \<open>books_live s\<close>] show ?thesis .
  next
    case journal
    from journal_books_live [OF journal \<open>books_live s\<close>] show ?thesis .
  qed
qed

text \<open>
  C8. Whatever sequence of captures, status updates, publications, closes and journal
  operations runs, with the templates and the handlers the code has, an event that is voided
  or superseded has no posted or reversed entry. Disposals are the exception.
\<close>

theorem retracted_events_have_no_landed_entry:
  assumes "books_step\<^sup>*\<^sup>* s t" "books_live s"
  shows "books_live t"
  using assms by (rule event_books.run_keeps)

subsection \<open>Deliveries\<close>

definition delivery_keys :: "ledger \<Rightarrow> (string \<times> string \<times> string option) list" where
  "delivery_keys s = map (\<lambda>e. (ev_id e, ev_source e, ev_external_id e)) (events s)"

text \<open>What the partial unique index keeps.\<close>

definition deliveries_once :: "ledger \<Rightarrow> bool" where
  "deliveries_once s \<longleftrightarrow> (\<forall>src i. count_where (same_delivery src (Some i)) (events s) \<le> 1)"

lemma count_by_keys:
  "delivery_keys s' = delivery_keys s \<Longrightarrow> count_where (same_delivery src i) (events s') = count_where (same_delivery src i) (events s)"
proof -
  have "count_where (same_delivery src i) (events s) = length (filter (\<lambda>(_, a, b). a = src \<and> b = i) (delivery_keys s))" for s
    by (simp add: count_where_def delivery_keys_def filter_map comp_def same_delivery_def [abs_def])
  then show "delivery_keys s' = delivery_keys s \<Longrightarrow> ?thesis" by simp
qed

lemma void_keys: "delivery_keys (void_for_disposal sid ev s) = delivery_keys s"
  by (auto simp: void_for_disposal_def void_pending_obligations_def Let_def delivery_keys_def update_where_def
      split: option.splits)

lemma disposal_keys:
  assumes "dispatch_disposal w e m s = Inr s'"
  shows "delivery_keys s' = delivery_keys s"
proof -
  define s0 where "s0 = void_for_disposal (sd_schedule m) (ev_id e) s"
  from assms obtain p :: disposal_plan and s2 r where
    c: "create_manual_closing_entry (fence_free (cw_locks w)) (cw_entry_id w 0) (delete_sum_equals_rule (sd_schedule m) s0)
      (time_date (ev_occurred_at e)) (pl_lines p) (disposal_entry_memo m) ''closing'' = Inr (s2, r)"
    and l: "s' = link_entry (ev_id e) (cw_entry_id w 0) s2"
    unfolding dispatch_disposal_def Let_def bindR_eq_Inr s0_def [symmetric] by (auto simp: lifted_eq_Inr)
  have "events s' = events s0"
    using c by (auto simp: l link_entry_def create_manual_closing_entry_def bindR_eq_Inr insert_entry_eq_Inr
        delete_sum_equals_rule_def Let_def split: prod.splits)
  then show ?thesis using void_keys [of "sd_schedule m" "ev_id e" s] by (simp add: delivery_keys_def s0_def)
qed

text \<open>A handler changes no key, as its own row is the only one with its identifier.\<close>

lemma dispatch_keys:
  assumes "dispatch_handler w e k m s = Inr s'"
    "\<forall>x\<in>set (events s). ev_id x = ev_id e \<longrightarrow> ev_source x = ev_source e \<and> ev_external_id x = ev_external_id e"
  shows "delivery_keys s' = delivery_keys s"
proof (cases "\<exists>d. m = DisposalData d")
  case True
  with assms(1) disposal_keys show ?thesis by (auto simp: dispatch_handler_def)
next
  case False
  with dispatch_rows_from [OF assms(1)] consider "events s' = events s"
    | e1 where "same_delivery_row e e1" "events s' = events (put_event e1 s)" by blast
  then show ?thesis
  proof cases
    case 1
    then show ?thesis by (simp add: delivery_keys_def)
  next
    case (2 e1)
    with assms(2) show ?thesis
      by (auto simp: delivery_keys_def put_event_def update_where_def same_delivery_row_def)
  qed
qed

text \<open>
  C12. A delivery of an external source is captured once: when a capture with an external
  identifier succeeds, no event had it, and now one has. A second request loses against the
  unique index even when it read the events before the first had committed.
\<close>

theorem delivery_captured_once:
  assumes "create_event_block w s0 s rq = Inr s'" "cb_external rq = Some i" "deliveries_once s" "fresh_event w s"
  shows "(\<forall>x\<in>set (events s). \<not> same_delivery (cb_source rq) (Some i) x) \<and> deliveries_once s' \<and>
    count_where (same_delivery (cb_source rq) (Some i)) (events s') = 1"
proof -
  from assms(1) obtain st s1 where f: "flush_new_event w rq st s = Inr s1" and k: "delivery_keys s' = delivery_keys s1"
  proof (cases rule: capture_cases)
    case plain
    then show thesis using that by blast
  next
    case (python k m s1)
    have "\<forall>x\<in>set (events s1). ev_id x = cw_event_id w \<longrightarrow> ev_source x = cb_source rq \<and> ev_external_id x = cb_external rq"
      using flush_tables(6) [OF python(3)] assms(4) by (auto simp: fresh_event_def)
    then show thesis using that [OF python(3)] dispatch_keys [OF python(4)] by simp
  next
    case (template h s1)
    then obtain other ctx memo d xs where
      "apply_specs other ctx (cw_tx_id w) (cw_entry_id w) (build_event_row w rq Classified) memo d 0 xs s1 = Inr s'"
      by (auto simp: apply_handler_def Let_def split: option.splits sum.splits)
    from template_rows [OF this] show thesis using that [OF template(3)] by (simp add: delivery_keys_def)
  qed
  have new: "\<forall>x\<in>set (events s). \<not> same_delivery (cb_source rq) (Some i) x"
    using f assms(2) by (auto simp: flush_new_event_def list_ex_iff split: if_splits)
  have c: "count_where (same_delivery src (Some j)) (events s') =
      count_where (same_delivery src (Some j)) (events s) + (if src = cb_source rq \<and> j = i then 1 else 0)" for src j
    unfolding count_by_keys [OF k] flush_tables(6) [OF f]
    using assms(2) by (auto simp: count_where_def same_delivery_def)
  have "count_where (same_delivery (cb_source rq) (Some i)) (events s) = 0"
    using new by (simp add: count_where_def filter_empty_conv)
  with c assms(3) new show ?thesis by (auto simp: deliveries_once_def)
qed

end
