(* ===== verification/ResolutionFacts.thy ===== *)
theory ResolutionFacts
  imports Resolution CaptureResults
begin

text \<open>
  What a resolution leaves: the item is gone from the close gate and nothing else is, a
  catch-up brings the books level with the payload, and a restatement takes the event's
  posted documents out of open periods and writes new ones.
\<close>

subsection \<open>What a journal handler writes\<close>

text \<open>New entries of the handler's event, and its row.\<close>

definition journal_effect :: "event \<Rightarrow> ledger \<Rightarrow> ledger \<Rightarrow> bool" where
  "journal_effect e s s' \<longleftrightarrow> (\<exists>es e1. entries s' = entries s @ es \<and> (\<forall>x\<in>set es. en_event x = Some (ev_id e)) \<and>
     events s' = events (put_event e1 s) \<and> ev_id e1 = ev_id e \<and> ev_drift e1 = ev_drift e)"

lemma link_fresh:
  "fresh_entry s j \<Longrightarrow> entries s' = entries s @ [x] \<Longrightarrow> en_id x = j \<Longrightarrow>
   entries (link_entry i j s') = entries s @ [x\<lparr>en_event := Some i\<rparr>]"
  by (auto simp: fresh_entry_def find_entry_def find_row_None link_entry_def update_where_def intro!: map_idI)

lemma record_entry_new:
  assumes "record_entry w n e rq s = Inr (s', x)" "fresh_entry s (cw_entry_id w n)"
  shows "entries s' = entries s @ [x\<lparr>en_event := Some (ev_id e)\<rparr>] \<and> events s' = events s \<and>
    en_id x = cw_entry_id w n \<and> en_posting_date x = cj_date rq \<and>
    en_status x = (if cj_posted rq then EntryPosted else EntryDraft)"
proof -
  from assms(1) obtain s1 where
    c: "create_journal_entry (cw_locks w) (cw_now w) (cw_tx_id w n) (cw_entry_id w n) s s rq = Inr (s1, x)"
    and s': "s' = link_entry_and_txn (ev_id e) x s1"
    by (auto simp: record_entry_def lifted_eq_Inr)
  note r = create_rows [OF c]
  have "entries s' = entries (link_entry (ev_id e) (cw_entry_id w n) s1)"
    using r by (simp add: s' link_entry_and_txn_def link_transaction_def)
  then show ?thesis
    using r link_fresh [OF assms(2), of s1 x "ev_id e"]
    by (simp add: s' link_entry_and_txn_def link_transaction_def link_entry_def)
qed

lemma record_entries_new:
  "record_entries w e m n t xs s = Inr s' \<Longrightarrow> distinct (map period_key (fperiods s)) \<Longrightarrow> fresh_from w n s \<Longrightarrow>
   \<exists>es. entries s' = entries s @ es \<and> (\<forall>x\<in>set es. en_event x = Some (ev_id e)) \<and> events s' = events s"
proof (induction xs arbitrary: n t s)
  case (Cons p xs)
  obtain x ls where p: "p = (x, ls)" by fastforce
  from Cons.prems(1) obtain s1 row t' where
    r: "record_entry w n e (journal_request e m (ne_date x) (ne_memo x) (ne_type x) ls t) s = Inr (s1, row)"
    and rest: "record_entries w e m (Suc n) t' xs s1 = Inr s'"
    unfolding p record_entries.simps bindR_eq_Inr by auto
  note one = record_entry_step [OF r Cons.prems(2,3)]
  have "fresh_entry s (cw_entry_id w n)" using Cons.prems(3) by (simp add: fresh_from_def)
  note new = record_entry_new [OF r this]
  from Cons.IH [OF rest] one Cons.prems(2) obtain es where
    "entries s' = entries s1 @ es" "\<forall>x\<in>set es. en_event x = Some (ev_id e)" "events s' = events s1" by auto
  with new show ?case by (intro exI [of _ "row\<lparr>en_event := Some (ev_id e)\<rparr> # es"]) auto
qed simp

lemma link_discharge_drift: "link_discharge types e s = Inr e1 \<Longrightarrow> ev_drift e1 = ev_drift e"
  by (auto simp: link_discharge_def split: if_splits option.splits)

lemma journal_new:
  assumes "dispatch_handler w e k (JournalData m) s = Inr s'" "distinct (map period_key (fperiods s))" "fresh_ids w s"
  shows "journal_effect e s s'"
proof -
  have f: "fresh_from w 0 s" using assms(3) by (simp add: fresh_from_def fresh_ids_def)
  from assms(1) obtain s1 e0 e1 where d: "dispatch_journal w e m s = Inr (s1, e0)"
    and e1: "e1 = e0 \<or> (\<exists>types. link_discharge types e0 (put_event e0 s1) = Inr e1)" and s': "s' = put_event e1 s1"
    by (auto simp: dispatch_handler_def dispatch_payment_def bindR_eq_Inr split: if_splits)
  from d have "dispatch_nested w e m s = Inr s1 \<or> dispatch_flat w e m s = Inr s1"
    and e0: "ev_id e0 = ev_id e \<and> ev_drift e0 = ev_drift e"
    by (auto simp: dispatch_journal_def bindR_eq_Inr split: if_splits)
  then obtain es where es: "entries s1 = entries s @ es" "\<forall>x\<in>set es. en_event x = Some (ev_id e)" "events s1 = events s"
  proof (elim disjE)
    assume "dispatch_nested w e m s = Inr s1"
    then obtain rows where "record_entries w e m 0 (jm_transaction m) rows s = Inr s1"
      by (auto simp: dispatch_nested_def Let_def bindR_eq_Inr)
    from record_entries_new [OF this assms(2) f] that show thesis by blast
  next
    assume "dispatch_flat w e m s = Inr s1"
    then obtain rq x where "record_entry w 0 e rq s = Inr (s1, x)" by (auto simp: dispatch_flat_def bindR_eq_Inr)
    moreover have "fresh_entry s (cw_entry_id w 0)" using assms(3) by (simp add: fresh_ids_def)
    ultimately have "entries s1 = entries s @ [x\<lparr>en_event := Some (ev_id e)\<rparr>]" "events s1 = events s"
      using record_entry_new by blast+
    then show thesis using that [of "[x\<lparr>en_event := Some (ev_id e)\<rparr>]"] by simp
  qed
  have "ev_id e1 = ev_id e \<and> ev_drift e1 = ev_drift e"
    using e1 e0 link_discharge_row link_discharge_drift by metis
  with es show ?thesis
    unfolding journal_effect_def by (intro exI [of _ es] exI [of _ e1]) (simp add: s' put_event_def)
qed

lemma journal_handler_run:
  assumes "dispatch_handler w e k (JournalData m) s = Inr s'" "distinct (map period_key (fperiods s))" "fresh_ids w s"
  shows "doc_run (date_open s) (abs_books s) (abs_books s')"
proof -
  from assms(1) obtain s1 e0 e1 where d: "dispatch_journal w e m s = Inr (s1, e0)" and s': "s' = put_event e1 s1"
    by (auto simp: dispatch_handler_def dispatch_payment_def bindR_eq_Inr split: if_splits)
  from journal_run [OF d assms(2,3)] show ?thesis by (simp add: s')
qed

definition journal_kinds :: "handler_kind set" where
  "journal_kinds = {JournalRecorded, PaymentReceived, BillPaid}"

lemma journal_metadata_only:
  "accepted_metadata k m \<Longrightarrow> k \<in> journal_kinds \<Longrightarrow> \<exists>j. m = JournalData j"
  by (auto simp: accepted_metadata_def journal_kinds_def split: handler_metadata.splits)

subsection \<open>The three dispositions\<close>

lemma restate_effect:
  assumes "restate_item v s ev p = Inr s1" "distinct (map period_key (fperiods s))" "fresh_ids (rv_capture v) s"
    "\<And>k. get_python_handler (ev_type ev) = Some k \<Longrightarrow> k \<in> journal_kinds"
  defines "s2 \<equiv> put_event (accept_payload v p ev) (delete_event_gl_rows (ev_id ev) (map en_id (event_entries s (ev_id ev))) s)"
  shows "restate_blockers (rv_dims v) s ev (event_entries s (ev_id ev)) p = [] \<and>
    (s1 = s2 \<or> journal_effect (accept_payload v p ev) s2 s1) \<and> doc_run (date_open s) (abs_books s2) (abs_books s1)"
proof -
  let ?w = "(rv_capture v)\<lparr>cw_stored := \<lambda>k _. rv_read v k p\<rparr>"
  from assms(1) have b: "restate_blockers (rv_dims v) s ev (event_entries s (ev_id ev)) p = []"
    and f: "fire_handler_on_commit ?w (accept_payload v p ev) s2 = Some s1"
    by (auto simp: restate_item_def Let_def s2_def split: if_splits option.splits)
  have "fresh_ids ?w s2"
    using assms(3) by (auto simp: fresh_ids_def fresh_entry_def find_entry_def find_row_None lines_of_def s2_def
        put_event_def delete_event_gl_rows_def filter_empty_conv)
  moreover have "distinct (map period_key (fperiods s2))"
    using assms(2) by (simp add: s2_def delete_event_gl_rows_def)
  moreover from f have "s1 = s2 \<or> (\<exists>k j. dispatch_handler ?w (accept_payload v p ev) k (JournalData j) s2 = Inr s1)"
    using assms(4) journal_metadata_only
    by (fastforce simp: fire_handler_on_commit_def typed_metadata_def accept_payload_def
        split: option.split_asm if_split_asm sum.split_asm)
  moreover have "date_open s2 = date_open s" by (rule date_open_cong) (simp add: s2_def delete_event_gl_rows_def)
  ultimately show ?thesis using b journal_new journal_handler_run by (metis rtranclp.rtrancl_refl)
qed

lemma catch_up_capture:
  assumes "catch_up_item v s ev pl d posted note = Inr (s1, Some c)"
  shows "ip_unmapped pl = [] \<and> create_event_block (rv_capture v) s s (catch_up_request ev pl d posted note) = Inr s1 \<and>
    c = (cw_event_id (rv_capture v), find_row (\<lambda>e. en_event e = Some (cw_event_id (rv_capture v))) (entries s1), d)"
  using assms by (auto simp: catch_up_item_def Let_def split: if_splits sum.splits)

lemma catch_up_dispatch:
  assumes "create_event_block w s s (catch_up_request ev pl d posted note) = Inr s1"
  obtains j s2 where "flush_new_event w (catch_up_request ev pl d posted note) Classified s = Inr s2"
    "cw_parse w JournalRecorded (cb_metadata (catch_up_request ev pl d posted note)) = Some (JournalData j)"
    "dispatch_handler w (build_event_row w (catch_up_request ev pl d posted note) Classified) JournalRecorded (JournalData j) s2 = Inr s1"
proof -
  have k: "get_python_handler (cb_type (catch_up_request ev pl d posted note)) = Some JournalRecorded"
    by (simp add: catch_up_request_def get_python_handler_def python_registry_def)
  have "cb_apply (catch_up_request ev pl d posted note)" by (simp add: catch_up_request_def)
  with assms k have "capture_with_python w s (catch_up_request ev pl d posted note) JournalRecorded = Inr s1"
    by (auto simp: create_event_block_def bindR_eq_Inr)
  then obtain m s2 where m: "cw_parse w JournalRecorded (cb_metadata (catch_up_request ev pl d posted note)) = Some m"
    "accepted_metadata JournalRecorded m" "flush_new_event w (catch_up_request ev pl d posted note) Classified s = Inr s2"
    "dispatch_handler w (build_event_row w (catch_up_request ev pl d posted note) Classified) JournalRecorded m s2 = Inr s1"
    by (auto simp: capture_with_python_def typed_metadata_def bindR_eq_Inr lifted_eq_Inr target_status_def
        split: option.split_asm if_split_asm)
  from journal_metadata_only [OF m(2)] obtain j where "m = JournalData j" by (auto simp: journal_kinds_def)
  with m that show thesis by blast
qed

text \<open>How a resolution ends: a disposition carried out, and the item settled.\<close>

lemma resolution_cases:
  assumes "resolve_reconciling_item v s0 s rq = Inr (s', r)"
  obtains pl due stamp ev p s1 where
    "plan_with_stamp (rv_dims v) s0 (cw_graph (rv_capture v)) (rs_event rq) = Inr (pl, due, stamp)"
    "fence_item (fence_free (cw_locks (rv_capture v))) s0 s pl (chosen rq pl) (catch_up_date rq (chosen rq pl) due) = Inr ()"
    "find_event s (rs_event rq) = Some ev" "ev_drift ev" "ev_drift_payload ev = Some p"
    "s' = settle_item v p (rs_event rq) s1" "rl_disposition r = chosen rq pl" "rl_delta r = ip_delta pl"
    "chosen rq pl = Restate \<and> rl_catch_up r = None \<and> restate_item v s ev p = Inr s1 \<or>
     chosen rq pl = CatchUp \<and> catch_up_date rq CatchUp due \<noteq> None \<and>
       catch_up_item v s ev pl (the (catch_up_date rq CatchUp due)) (rs_posted rq) (rs_note rq) = Inr (s1, rl_catch_up r) \<or>
     chosen rq pl = Acknowledge \<and> rl_catch_up r = None \<and> s1 = s"
proof -
  from assms obtain pl due stamp ev p where
    a: "plan_with_stamp (rv_dims v) s0 (cw_graph (rv_capture v)) (rs_event rq) = Inr (pl, due, stamp)"
    "fence_item (fence_free (cw_locks (rv_capture v))) s0 s pl (chosen rq pl) (catch_up_date rq (chosen rq pl) due) = Inr ()"
    "\<not> (chosen rq pl = CatchUp \<and> catch_up_date rq (chosen rq pl) due = None)"
    "load_event s (rs_event rq) = Inr ev" "require_flagged ev = Inr p"
    and c: "carry_out v s ev p pl (chosen rq pl) (catch_up_date rq (chosen rq pl) due) rq = Inr (s', r)"
    by (auto simp: resolve_reconciling_item_def Let_def bindR_eq_Inr lift_item_def split: if_splits sum.splits prod.splits)
  have e: "find_event s (rs_event rq) = Some ev" "ev_drift ev" "ev_drift_payload ev = Some p"
    using a(4,5) by (auto simp: load_event_def require_flagged_def split: option.splits if_splits)
  have i: "ev_id ev = rs_event rq" using e(1) unfolding find_event_def by (auto dest: find_row_Some)
  show thesis
  proof (cases "chosen rq pl")
    case Restate
    with c i obtain s1 where "restate_item v s ev p = Inr s1" "s' = settle_item v p (rs_event rq) s1"
      "rl_disposition r = Restate" "rl_delta r = ip_delta pl" "rl_catch_up r = None"
      by (auto simp: carry_out_def bindR_eq_Inr)
    with that [OF a(1,2) e] Restate show thesis by metis
  next
    case CatchUp
    with c i obtain s1 where
      "catch_up_item v s ev pl (the (catch_up_date rq CatchUp due)) (rs_posted rq) (rs_note rq) = Inr (s1, rl_catch_up r)"
      "s' = settle_item v p (rs_event rq) s1" "rl_disposition r = CatchUp" "rl_delta r = ip_delta pl"
      by (auto simp: carry_out_def bindR_eq_Inr)
    with that [OF a(1,2) e] CatchUp a(3) show thesis by metis
  next
    case Acknowledge
    with c i have "s' = settle_item v p (rs_event rq) s" "rl_disposition r = Acknowledge" "rl_delta r = ip_delta pl" "rl_catch_up r = None"
      by (auto simp: carry_out_def Let_def split: option.splits if_splits)
    with that [OF a(1,2) e] Acknowledge show thesis by metis
  qed
qed

subsection \<open>The close gate\<close>

lemma unresolved_iff: "(a, b) \<in> set (find_unresolved_reconciling_items s d) \<longleftrightarrow>
    (\<exists>e\<in>set (events s). ev_id e = a \<and> ev_external_id e = b \<and> ev_drift e) \<and>
    (\<exists>x\<in>set (entries s). en_event x = Some a \<and> en_posting_date x \<le> d)"
  by (auto simp: find_unresolved_reconciling_items_def list_ex_iff image_iff)

text \<open>Rows of the other events, before and after.\<close>

definition same_others :: "string set \<Rightarrow> ledger \<Rightarrow> ledger \<Rightarrow> bool" where
  "same_others I s s' \<longleftrightarrow>
     {e \<in> set (events s'). ev_id e \<notin> I} = {e \<in> set (events s). ev_id e \<notin> I} \<and>
     {x \<in> set (entries s'). en_event x \<notin> Some ` I} = {x \<in> set (entries s). en_event x \<notin> Some ` I}"

lemma same_others_refl [simp]: "same_others I s s"
  by (simp add: same_others_def)

lemma same_others_trans: "same_others I s t \<Longrightarrow> same_others I t u \<Longrightarrow> same_others I s u"
  by (simp add: same_others_def)

lemma same_others_rows:
  "same_others I s s' \<Longrightarrow> ev_id e \<notin> I \<Longrightarrow> e \<in> set (events s') \<longleftrightarrow> e \<in> set (events s)"
  "same_others I s s' \<Longrightarrow> en_event x \<notin> Some ` I \<Longrightarrow> x \<in> set (entries s') \<longleftrightarrow> x \<in> set (entries s)"
  unfolding same_others_def by blast+

lemma same_others_mono: "same_others I s s' \<Longrightarrow> I \<subseteq> J \<Longrightarrow> same_others J s s'"
  using same_others_rows [of I s s'] unfolding same_others_def [of J] by blast

lemma same_others_settle [simp]: "i \<in> I \<Longrightarrow> same_others I s (settle_item v p i s)"
  by (auto simp: same_others_def settle_item_def update_where_def accept_payload_def)

lemma same_others_effect: "journal_effect e s s' \<Longrightarrow> ev_id e \<in> I \<Longrightarrow> same_others I s s'"
  by (auto simp: same_others_def journal_effect_def put_event_def update_where_def)

lemma same_others_delete:
  "ev_id e = i \<Longrightarrow> i \<in> I \<Longrightarrow> same_others I s (put_event e (delete_event_gl_rows i ids s))"
  by (auto simp: same_others_def delete_event_gl_rows_def put_event_def update_where_def)

lemma same_others_flush:
  "flush_new_event w rq st s = Inr s' \<Longrightarrow> cw_event_id w \<in> I \<Longrightarrow> same_others I s s'"
  using flush_tables [of w rq st s s'] by (auto simp: same_others_def)

lemma unresolved_others:
  assumes "same_others I s s'" "a \<notin> I"
  shows "(a, b) \<in> set (find_unresolved_reconciling_items s' d) \<longleftrightarrow> (a, b) \<in> set (find_unresolved_reconciling_items s d)"
proof -
  have "(\<exists>e\<in>set (events s'). ev_id e = a \<and> Q e) \<longleftrightarrow> (\<exists>e\<in>set (events s). ev_id e = a \<and> Q e)" for Q
    using assms unfolding same_others_def by blast
  moreover have "(\<exists>x\<in>set (entries s'). en_event x = Some a \<and> Q x) \<longleftrightarrow> (\<exists>x\<in>set (entries s). en_event x = Some a \<and> Q x)" for Q
    using assms unfolding same_others_def by fastforce
  ultimately show ?thesis unfolding unresolved_iff by simp
qed

lemma unflagged_resolved: "\<forall>e\<in>set (events s). ev_id e = a \<longrightarrow> \<not> ev_drift e \<Longrightarrow> (a, b) \<notin> set (find_unresolved_reconciling_items s d)"
  unfolding unresolved_iff by blast

text \<open>A restatement touches the rows of its own event only.\<close>

lemma restate_others:
  assumes "restate_item v s ev p = Inr s1" "distinct (map period_key (fperiods s))" "fresh_ids (rv_capture v) s"
    "\<And>k. get_python_handler (ev_type ev) = Some k \<Longrightarrow> k \<in> journal_kinds"
  shows "same_others {ev_id ev} s s1"
proof -
  let ?e = "accept_payload v p ev"
  let ?s2 = "put_event ?e (delete_event_gl_rows (ev_id ev) (map en_id (event_entries s (ev_id ev))) s)"
  have a: "ev_id ?e = ev_id ev" by (simp add: accept_payload_def)
  from restate_effect [OF assms] have "s1 = ?s2 \<or> journal_effect ?e ?s2 s1" by blast
  then show ?thesis
    using same_others_delete [OF a, of "{ev_id ev}" s] same_others_effect [of ?e _ s1 "{ev_id ev}"] a
    by (auto intro: same_others_trans)
qed

text \<open>A catch-up touches the rows of its own, new event only, and leaves that one unflagged.\<close>

lemma catch_up_others:
  assumes "catch_up_item v s ev pl d posted note = Inr (s1, c)" "distinct (map period_key (fperiods s))"
    "fresh_ids (rv_capture v) s" "fresh_event (rv_capture v) s"
  shows "same_others {cw_event_id (rv_capture v)} s s1 \<and>
    (\<forall>e\<in>set (events s1). ev_id e = cw_event_id (rv_capture v) \<longrightarrow> \<not> ev_drift e)"
proof (cases c)
  case None
  with assms(1) have "s1 = s" by (auto simp: catch_up_item_def Let_def split: if_splits sum.splits)
  with assms(4) show ?thesis by (auto simp: fresh_event_def)
next
  case (Some c')
  let ?w = "rv_capture v" and ?rq = "catch_up_request ev pl d posted note"
  from catch_up_capture [OF assms(1) [unfolded Some]] have "create_event_block ?w s s ?rq = Inr s1" by blast
  from catch_up_dispatch [OF this] obtain j s2 where f: "flush_new_event ?w ?rq Classified s = Inr s2"
    and h: "dispatch_handler ?w (build_event_row ?w ?rq Classified) JournalRecorded (JournalData j) s2 = Inr s1"
    by blast
  note t = flush_tables [OF f]
  from journal_new [OF h] assms(2,3) t fresh_ids_cong [OF t(1,2)]
  have e: "journal_effect (build_event_row ?w ?rq Classified) s2 s1" by simp
  then have "same_others {cw_event_id ?w} s2 s1" by (rule same_others_effect) simp
  moreover have "same_others {cw_event_id ?w} s s2" using f by (rule same_others_flush) simp
  moreover have "\<forall>e\<in>set (events s1). ev_id e = cw_event_id ?w \<longrightarrow> \<not> ev_drift e"
    using e t(6) assms(4)
    by (auto simp: journal_effect_def put_event_def update_where_def build_event_row_def fresh_event_def)
  ultimately show ?thesis using same_others_trans by blast
qed


subsection \<open>A catch-up\<close>

lemma validate_loop_lines:
  "validate_loop n dr cr ls = Inr (ns, d, c) \<Longrightarrow> ns = map (\<lambda>l. (jl_element l, jl_debit l, jl_credit l)) ls"
  by (induction ls arbitrary: n dr cr ns) (auto simp: bindR_eq_Inr split: if_splits)

lemma record_entry_lines:
  assumes "record_entry w n e rq s = Inr (s', x)"
  obtains ns where "ns = map (\<lambda>l. (jl_element l, jl_debit l, jl_credit l)) (cj_lines rq)" "balanced_lines ns"
    "line_items s' = line_items s @ rows_of (cw_entry_id w n) ns" "date_open s (cj_date rq)"
proof -
  from assms obtain s1 where
    "create_journal_entry (cw_locks w) (cw_now w) (cw_tx_id w n) (cw_entry_id w n) s s rq = Inr (s1, x)"
    and l: "line_items s' = line_items s1"
    by (auto simp: record_entry_def lifted_eq_Inr link_entry_and_txn_def link_transaction_def link_entry_def)
  then obtain ns d c where v: "validate_and_normalize_lines (cj_lines rq) = Inr (ns, d, c)"
    and g: "guardJ (cw_locks w) s s [Some (cj_date rq)] = Inr ()"
    and i: "insert_rows (created_entry (cw_now w) (cw_tx_id w n) (cw_entry_id w n) rq) (rows_of (cw_entry_id w n) ns)
      (add_transaction (cw_now w) (cw_tx_id w n) rq d s) = Inr s1"
    unfolding create_journal_entry_def by (auto simp: bindR_eq_Inr split: prod.splits)
  from i have r: "line_items s1 = line_items s @ rows_of (cw_entry_id w n) ns"
    by (auto simp: insert_rows_eq_Inr add_transaction_def)
  from v have "ns = map (\<lambda>l. (jl_element l, jl_debit l, jl_credit l)) (cj_lines rq)"
    by (auto simp: validate_and_normalize_lines_def bindR_eq_Inr split: if_splits dest: validate_loop_lines)
  moreover have "date_open s (cj_date rq)" using g by (auto simp: guardJ_eq_Inr intro: guard_date_open)
  ultimately show thesis using that validate_balanced(1) [OF v] l r by simp
qed

lemma catch_up_net:
  "line_net el (rows_of i (map (\<lambda>l. (the (ml_element l), or_zero (ml_debit l), or_zero (ml_credit l))) (catch_up_lines ds))) =
   (\<Sum>d\<leftarrow>ds. if dl_element d = Some el then dl_delta d else 0)"
  by (induction ds) (auto simp: catch_up_lines_def map_filter_simps line_net_def rows_of_def or_zero_def)

text \<open>The entry a catch-up writes.\<close>

lemma catch_up_entry:
  assumes "create_event_block w s s (catch_up_request ev pl d posted note) = Inr s1"
    "cw_parse w JournalRecorded (cb_metadata (catch_up_request ev pl d posted note)) = Some (JournalData (catch_up_journal ev pl d posted note))"
    "fresh_ids w s"
  obtains x where "entries s1 = entries s @ [x]" "en_event x = Some (cw_event_id w)" "en_posting_date x = d"
    "en_status x = (if posted then EntryPosted else EntryDraft)" "date_open s d" "balanced_lines (doc_lines s1 (en_id x))"
    "find_entry s (en_id x) = None"
    "\<And>el. line_net el (lines_of s1 (en_id x)) = (\<Sum>l\<leftarrow>ip_delta pl. if dl_element l = Some el then dl_delta l else 0)"
proof -
  let ?rq = "catch_up_request ev pl d posted note" and ?j = "catch_up_journal ev pl d posted note"
  let ?e = "build_event_row w ?rq Classified" and ?i = "cw_entry_id w 0"
  from catch_up_dispatch [OF assms(1)] assms(2) obtain s2 where f: "flush_new_event w ?rq Classified s = Inr s2"
    and h: "dispatch_handler w ?e JournalRecorded (JournalData ?j) s2 = Inr s1" by auto
  note t = flush_tables [OF f]
  from h obtain s3 e1 where "dispatch_journal w ?e ?j s2 = Inr (s3, e1)" and s1: "s1 = put_event e1 s3"
    by (auto simp: dispatch_handler_def bindR_eq_Inr)
  then obtain x where
    r: "record_entry w 0 ?e (journal_request ?e ?j d (catch_up_memo ev note) ''adjusting'' (the (jm_lines ?j)) None) s2 = Inr (s3, x)"
    by (auto simp: dispatch_journal_def dispatch_flat_def bindR_eq_Inr catch_up_journal_def split: if_splits)
  have fresh: "fresh_entry s2 ?i" using assms(3) fresh_ids_cong [OF t(1,2), of w] unfolding fresh_ids_def by blast
  note n = record_entry_new [OF r fresh]
  from record_entry_lines [OF r] obtain ns where
    ns: "ns = map (\<lambda>l. (the (ml_element l), or_zero (ml_debit l), or_zero (ml_credit l))) (catch_up_lines (ip_delta pl))"
    "balanced_lines ns" "line_items s3 = line_items s2 @ rows_of ?i ns" "date_open s2 d"
    by (auto simp: journal_request_def catch_up_journal_def comp_def)
  have "lines_of s2 ?i = []" using fresh by (simp add: fresh_entry_def)
  then have l: "lines_of s1 ?i = rows_of ?i ns"
    by (simp add: s1 lines_of_def put_event_def ns(3) filter_rows_of)
  have "date_open s2 = date_open s" using t(3) by (rule date_open_cong)
  moreover have "find_entry s ?i = None" using fresh t(1) by (simp add: fresh_entry_def find_entry_def)
  ultimately show thesis
    using n ns(2,4) t(1) l catch_up_net [of _ ?i "ip_delta pl"]
    by (intro that [of "x\<lparr>en_event := Some (cw_event_id w)\<rparr>"])
      (simp_all add: s1 put_event_def journal_request_def catch_up_journal_def doc_lines_def doc_lines_rows_of ns(1) [symmetric])
qed

text \<open>
  C17. A catch-up brings the books level with the source: it writes one balanced entry, dated
  in a period that is not closed, whose net on every account is what the accepted payload has
  there less what the event's entries had when the plan was made.
\<close>

theorem catch_up_levels_the_books:
  assumes "resolve_reconciling_item v s0 s rq = Inr (s', r)" "rl_catch_up r = Some c"
    "plan_with_stamp (rv_dims v) s0 (cw_graph (rv_capture v)) (rs_event rq) = Inr (pl, due, stamp)"
    "find_event s (rs_event rq) = Some ev" "d = the (catch_up_date rq CatchUp due)"
    "cw_parse (rv_capture v) JournalRecorded (cb_metadata (catch_up_request ev pl d (rs_posted rq) (rs_note rq))) =
       Some (JournalData (catch_up_journal ev pl d (rs_posted rq) (rs_note rq)))"
    "fresh_ids (rv_capture v) s" "\<forall>x\<in>set (entries s). en_event x \<noteq> Some (cw_event_id (rv_capture v))"
  shows "\<exists>x ls ev0 p. c = (cw_event_id (rv_capture v), Some x, d) \<and> date_open s d \<and>
    abs_books s (en_id x) = None \<and>
    abs_books s' (en_id x) = Some (if rs_posted rq then EntryPosted else EntryDraft, d, ls) \<and> balanced_lines ls \<and>
    find_event s0 (rs_event rq) = Some ev0 \<and> ev_drift_payload ev0 = Some p \<and>
    (\<forall>el. element_of_key (Some el) = Some el \<longrightarrow>
       accepted_total (plan_by_ext s0 ev0 p) p (Some el) =
       posted_total (plan_by_ext s0 ev0 p) s0 (map en_id (event_entries s0 (rs_event rq))) (Some el) +
       line_net el (lines_of s' (en_id x)))"
  using assms(1)
proof (cases rule: resolution_cases)
  case (1 pl' due' stamp' ev' p' s1)
  have same: "pl' = pl" "due' = due" "ev' = ev" using 1(1,3) assms(3,4) by auto
  with 1(9) assms(2,5) have "catch_up_item v s ev pl d (rs_posted rq) (rs_note rq) = Inr (s1, Some c)" by auto
  from catch_up_capture [OF this] have
    k: "create_event_block (rv_capture v) s s (catch_up_request ev pl d (rs_posted rq) (rs_note rq)) = Inr s1"
    and c: "c = (cw_event_id (rv_capture v), find_row (\<lambda>e. en_event e = Some (cw_event_id (rv_capture v))) (entries s1), d)"
    by blast+
  obtain x where
    x: "entries s1 = entries s @ [x]" "en_event x = Some (cw_event_id (rv_capture v))" "en_posting_date x = d"
    "en_status x = (if rs_posted rq then EntryPosted else EntryDraft)" "date_open s d"
    "balanced_lines (doc_lines s1 (en_id x))" "find_entry s (en_id x) = None"
    "\<And>el. line_net el (lines_of s1 (en_id x)) = (\<Sum>l\<leftarrow>ip_delta pl. if dl_element l = Some el then dl_delta l else 0)"
    by (rule catch_up_entry [OF k assms(6,7)]) (rule that)
  have "find_row (\<lambda>e. en_event e = Some (cw_event_id (rv_capture v))) (entries s) = None"
    using assms(8) by (simp add: find_row_None)
  then have c': "c = (cw_event_id (rv_capture v), Some x, d)" by (simp add: c x(1,2) find_row_append)
  have "find_entry s1 (en_id x) = Some x" using x(1,7) by (simp add: find_entry_def find_row_append)
  then have b: "abs_books s' (en_id x) = Some (if rs_posted rq then EntryPosted else EntryDraft, d, doc_lines s1 (en_id x))"
    by (simp add: 1(6) settle_item_def abs_books_def find_entry_def doc_lines_def lines_of_def x(3,4))
  have l: "lines_of s' (en_id x) = lines_of s1 (en_id x)" by (simp add: 1(6) settle_item_def lines_of_def)
  from assms(3) have "plan_reconciling_item (rv_dims v) s0 (rs_event rq) = Inr pl"
    by (auto simp: plan_with_stamp_def bindR_eq_Inr lift_item_def split: sum.splits)
  from plan_delta_exact [OF this] obtain ev0 p where "find_event s0 (rs_event rq) = Some ev0" "ev_drift_payload ev0 = Some p"
    "\<And>el. element_of_key (Some el) = Some el \<Longrightarrow> accepted_total (plan_by_ext s0 ev0 p) p (Some el) =
      posted_total (plan_by_ext s0 ev0 p) s0 (map en_id (event_entries s0 (rs_event rq))) (Some el) +
      (\<Sum>d\<leftarrow>ip_delta pl. if dl_element d = Some el then dl_delta d else 0)" by blast
  with c' b x(5-8) l show ?thesis by (intro exI [of _ x] exI [of _ "doc_lines s1 (en_id x)"]) (auto simp: abs_books_def)
qed

subsection \<open>A restatement\<close>

lemma find_row_filter: "(\<And>x. x \<in> set xs \<Longrightarrow> P x \<Longrightarrow> Q x) \<Longrightarrow> find_row P (filter Q xs) = find_row P xs"
  by (induction xs) auto

lemma set_event_entries [simp]: "set (event_entries s i) = {x \<in> set (entries s). en_event x = Some i}"
  by (simp add: event_entries_def)

lemma abs_delete_event:
  assumes "distinct (map en_id (entries s))"
  shows "abs_books (delete_event_gl_rows i (map en_id (event_entries s i)) s) = abs_books s |` (- en_id ` set (event_entries s i))"
proof
  fix j
  let ?s = "delete_event_gl_rows i (map en_id (event_entries s i)) s"
  show "abs_books ?s j = (abs_books s |` (- en_id ` set (event_entries s i))) j"
  proof (cases "j \<in> en_id ` set (event_entries s i)")
    case True
    then have "\<forall>x\<in>set (entries s). en_id x = j \<longrightarrow> en_event x = Some i"
      using assms by (auto simp: distinct_map dest: inj_onD)
    then have "find_entry ?s j = None" by (auto simp: find_entry_def delete_event_gl_rows_def find_row_None)
    with True show ?thesis by (simp add: abs_books_def restrict_map_def del: set_event_entries)
  next
    case False
    then have n: "\<forall>x\<in>set (entries s). en_id x = j \<longrightarrow> en_event x \<noteq> Some i" by auto
    then have "find_entry ?s j = find_entry s j"
      by (auto simp: find_entry_def delete_event_gl_rows_def intro!: find_row_filter)
    moreover have "lines_of ?s j = lines_of s j"
      using False by (auto simp: lines_of_def delete_event_gl_rows_def intro!: filter_cong)
    ultimately show ?thesis using False by (simp add: abs_books_def doc_lines_def del: set_event_entries)
  qed
qed

lemma unblocked:
  assumes "restate_blockers dims s ev es p = []" "x \<in> set es"
  shows "en_status x = EntryPosted \<and> date_open s (en_posting_date x)"
proof -
  from assms(1) have "closed_period_names s (map en_posting_date es) = []" "filter (\<lambda>e. en_status e \<noteq> EntryPosted) es = []"
    by (auto simp: restate_blockers_def Let_def split: if_splits)
  then have c: "List.map_filter (\<lambda>d. case period_covering s d of
        Some p \<Rightarrow> if fp_status p = PeriodClosed then Some (fp_name p) else None | None \<Rightarrow> None)
      (remdups (map en_posting_date es)) = []" and st: "en_status x = EntryPosted"
    using assms(2) by (auto simp: closed_period_names_def filter_empty_conv sort_key_simps)
  from c have "(case period_covering s (en_posting_date x) of
        Some p \<Rightarrow> if fp_status p = PeriodClosed then Some (fp_name p) else None | None \<Rightarrow> None) = None"
    using assms(2) by (auto simp: map_filter_def filter_empty_conv)
  with st show ?thesis by (auto simp: date_open_def split: option.splits if_splits)
qed


end
