(* ===== verification/CaptureExamples.thy ===== *)
theory CaptureExamples
  imports CaptureResults
begin

text \<open>
  The properties of event capture and of the handlers at concrete inputs: an expense that a
  stored template books, a delivered invoice and its payment, an asset disposed of while an
  obligation of it has posted, the reversal of a rent, and a schedule whose entry was reversed.
\<close>

subsection \<open>A tenant\<close>

definition demo_metadata :: journal_metadata where
  "demo_metadata = \<lparr>jm_date = Some (Date 2026 3 5), jm_memo = Some ''Rent'',
     jm_lines = Some [\<lparr>jl_element = ''el_rent'', jl_debit = 700, jl_credit = 0\<rparr>,
                      \<lparr>jl_element = ''el_cash'', jl_debit = 0, jl_credit = 700\<rparr>],
     jm_type = ''standard'', jm_transaction = None, jm_posted = False, jm_entries = None, jm_connection = None\<rparr>"

definition demo_leg :: "string \<Rightarrow> leg option" where
  "demo_leg el = Some \<lparr>lg_element = el, lg_amount = Some ''{{ event.amount }} / 2''\<rparr>"

definition demo_handler :: "string \<Rightarrow> int \<Rightarrow> event_handler" where
  "demo_handler i p = \<lparr>hd_id = i, hd_name = i, hd_type = ''expense_noted'', hd_category = None, hd_source = None,
     hd_agent_type = None, hd_resource_type = None, hd_expression = None,
     hd_template = Some [Some \<lparr>es_debit = demo_leg ''el_rent'', es_credit = demo_leg ''el_cash''\<rparr>],
     hd_priority = p, hd_active = True, hd_origin = ''tenant'', hd_suggested_by = None, hd_approved_by = None,
     hd_metadata = []\<rparr>"

definition demo_capture :: "handler_metadata \<Rightarrow> capture_env" where
  "demo_capture m = \<lparr>cw_locks = demo_locks, cw_now = Time (Date 2026 3 5) 0, cw_today = Date 2026 3 5, cw_graph = ''kg1'',
     cw_conns = [demo_connection], cw_handlers = [demo_handler ''low'' 1, demo_handler ''high'' 2], cw_agents = [],
     cw_parse = (\<lambda>_ _. Some m), cw_stored = (\<lambda>_ _. Some m), cw_str = (\<lambda>_. []), cw_json = (\<lambda>_. []),
     cw_show_time = (\<lambda>_. ''2026-03-05''), cw_event_id = ''evt_new'', cw_tx_id = (\<lambda>i. replicate (Suc i) CHR ''t''),
     cw_entry_id = (\<lambda>i. replicate (Suc i) CHR ''x'')\<rparr>"

definition demo_expense :: capture_request where
  "demo_expense = \<lparr>cb_type = ''expense_noted'', cb_category = ''purchase'', cb_class = ''economic'', cb_agent = None,
     cb_resource_type = None, cb_resource_element = None, cb_occurred = Time (Date 2026 3 5) 0, cb_effective = None,
     cb_source = ''quickbooks'', cb_external = Some ''d1'', cb_amount = Some 1400, cb_currency = ''USD'',
     cb_description = None, cb_metadata = [], cb_dimensions = [], cb_obligated_by = None, cb_discharges = None,
     cb_apply = True\<rparr>"

abbreviation "demo_env_new \<equiv> demo_capture (JournalData demo_metadata)"

definition demo_captured :: "capture_error + ledger" where
  "demo_captured = create_event_block demo_env_new demo_rent demo_rent demo_expense"

lemma demo_captured_ok: "is_ok demo_captured"
  by code_simp

lemma demo_ids: "fresh_ids (demo_capture m) s" if "\<forall>x\<in>set (entries s). CHR ''x'' \<notin> set (en_id x)"
  "\<forall>l\<in>set (line_items s). CHR ''x'' \<notin> set (li_entry l)"
  using that
  by (fastforce simp: fresh_ids_def fresh_entry_def find_entry_def lines_of_def demo_capture_def inj_def find_row_None
      filter_empty_conv)

lemma demo_rent_ids: "fresh_ids (demo_capture m) demo_rent"
  by (rule demo_ids) (simp_all add: demo_rent_def rows_of_def)

lemma demo_rent_keys: "distinct (map period_key (fperiods demo_rent))" "\<forall>r\<in>set (elements demo_rent). el_id r \<noteq> []"
  by (simp_all add: demo_rent_def demo_ledger_def demo_period_def period_key_def demo_account_def)

lemma demo_fresh_event: "fresh_event (demo_capture m) demo_rent"
  by (simp add: fresh_event_def demo_rent_def demo_ledger_def)

subsection \<open>Templates and captures\<close>

lemma handler_choice_exact_witness:
  "resolve_handler [demo_handler ''low'' 1, demo_handler ''high'' 2] (facts_of_request demo_env_new demo_expense)
     = Inr (demo_handler ''high'' 2)"
proof -
  have "distinct (map hd_id [demo_handler ''low'' 1, demo_handler ''high'' 2])" by (simp add: demo_handler_def)
  from handler_choice_exact [OF this, of "facts_of_request demo_env_new demo_expense" "demo_handler ''high'' 2"]
  show ?thesis
    by (auto simp: eligible_def handler_matches_def wild_def matches_metadata_expression_def facts_of_request_def
        demo_handler_def demo_expense_def)
qed

abbreviation "demo_context \<equiv> build_event_context (\<lambda>_. ''2026-03-05'') ''evt_new'' demo_expense"

abbreviation "demo_row \<equiv> build_event_row demo_env_new demo_expense Classified"

lemma handler_runs_iff_previewed_witness:
  "fst (preview_handler (\<lambda>_. []) (\<lambda>_. True) demo_context (posting_date_for_event demo_row) (demo_handler ''high'' 2) demo_rent) = []"
proof -
  have v: "validate_template (hd_template (demo_handler ''high'' 2)) = Inr ()" by code_simp
  have "is_ok (apply_handler (\<lambda>_. []) (\<lambda>i. ''t'') (\<lambda>i. ''x'') (\<lambda>_. True) demo_context None demo_row (demo_handler ''high'' 2) demo_rent)"
    by code_simp
  with handler_runs_iff_previewed [OF v, of "\<lambda>_. []" "\<lambda>i. ''t''" "\<lambda>i. ''x''" "\<lambda>_. True" demo_context None demo_row demo_rent]
  show ?thesis by (auto split: prod.splits)
qed


lemma delivery_captured_once_witness:
  "\<exists>s'. demo_captured = Inr s' \<and> count_where (same_delivery ''quickbooks'' (Some ''d1'')) (events s') = 1"
proof -
  obtain s' where s: "demo_captured = Inr s'" using demo_captured_ok by (auto simp: is_ok_def split: sum.splits)
  have e: "cb_external demo_expense = Some ''d1''" "cb_source demo_expense = ''quickbooks''"
    by (simp_all add: demo_expense_def)
  have "deliveries_once demo_rent" by (simp add: deliveries_once_def count_where_def demo_rent_def demo_ledger_def)
  from delivery_captured_once [OF s [unfolded demo_captured_def] e(1) this demo_fresh_event] s e show ?thesis by auto
qed

text \<open>The expense is captured and its event voided, with the draft still there.\<close>

definition demo_retracted :: "event_error + ledger" where
  "demo_retracted = (case demo_captured of
     Inl _ \<Rightarrow> Inl HandlerFailed
   | Inr s \<Rightarrow> update_event_block (\<lambda>_. True) (\<lambda>_. True) [] ''kg1'' (fire_handler_on_commit demo_env_new) s s
       \<lparr>ue_event = ''evt_new'', ue_transition = Some Voided, ue_superseded_by = None, ue_effective_at = None,
        ue_patch = [], ue_obligated_by = None, ue_discharges = None\<rparr>)"

lemma retracted_events_have_no_landed_entry_witness:
  "\<exists>s'. demo_retracted = Inr s' \<and> dead s' ''evt_new'' \<and> books_live s'"
proof -
  obtain s where s: "demo_captured = Inr s" using demo_captured_ok by (auto simp: is_ok_def split: sum.splits)
  have d: "case demo_retracted of Inr t \<Rightarrow> dead t ''evt_new'' | _ \<Rightarrow> False" by code_simp
  then obtain t where t: "demo_retracted = Inr t" "dead t ''evt_new''" by (auto split: sum.splits)
  have ty: "case demo_captured of Inr s \<Rightarrow> (case find_event s ''evt_new'' of Some e \<Rightarrow> ev_type e = ''expense_noted'' | None \<Rightarrow> False)
      | _ \<Rightarrow> False" by code_simp
  have c: "cb_type demo_expense \<noteq> ''asset_disposed''" by (simp add: demo_expense_def)
  have "books_step demo_rent s"
    using books_step.captured [OF s [unfolded demo_captured_def] c demo_fresh_event] .
  moreover have "books_step s t"
    using books_step.updated [OF t(1) [unfolded demo_retracted_def s sum.case]] ty by (auto simp: s split: option.splits)
  ultimately have "books_step\<^sup>*\<^sup>* demo_rent t" by auto
  moreover have "books_live demo_rent"
    by (simp add: books_live_def demo_rent_def demo_ledger_def)
  ultimately have "books_live t" by (rule retracted_events_have_no_landed_entry)
  with t show ?thesis by blast
qed

subsection \<open>A disposal\<close>

text \<open>
  A machine of twelve dollars, four depreciated. The event of its next month is pending, but a
  close has posted the entry of that month.
\<close>

definition demo_machine :: structure_row where
  "demo_machine = demo_structure\<lparr>st_template := Some (demo_template\<lparr>tp_credit := ''el_accumulated''\<rparr>),
     st_original := Some 1200, st_asset := Some ''el_machine''\<rparr>"

definition demo_pending :: event where
  "demo_pending = obligation ''evt_1'' ''struct_1'' ''evt_0'' ''2026-02-01'' ''2026-02-28''
     (end_of_day (Date 2026 2 28)) EvPending None []"

definition demo_works :: ledger where
  "demo_works = demo_ledger\<lparr>structures := [demo_machine], events := [demo_pending],
     entries := [demo_entry ''je_1'' (Date 2026 2 28) EntryPosted (Some ''evt_1'')],
     facts := [(demo_fact 2 4)\<lparr>fa_element := ''el_accumulated'', fa_instant := True, fa_start := None\<rparr>]\<rparr>"

definition demo_sale :: disposal_metadata where
  "demo_sale = \<lparr>sd_schedule = ''struct_1'', sd_proceeds = 900, sd_proceeds_element = Some ''el_cash'',
     sd_gain_loss_element = Some ''el_gain'', sd_memo = None\<rparr>"

abbreviation "demo_disposer \<equiv> demo_capture (DisposalData demo_sale)"

definition demo_disposed :: event where
  "demo_disposed = build_event_row demo_disposer (demo_expense\<lparr>cb_type := ''asset_disposed''\<rparr>) Fulfilled"

lemma demo_sold: "is_ok (dispatch_disposal demo_disposer demo_disposed demo_sale demo_works)"
  by code_simp


lemma disposal_voids_landed_obligation_witness:
  "\<exists>s'. dispatch_disposal demo_disposer demo_disposed demo_sale demo_works = Inr s' \<and> dead s' ''evt_1'' \<and> \<not> books_live s'"
proof -
  obtain s' where s: "dispatch_disposal demo_disposer demo_disposed demo_sale demo_works = Inr s'"
    using demo_sold by (auto simp: is_ok_def split: sum.splits)
  have st: "find_structure demo_works (sd_schedule demo_sale) = Some demo_machine" by code_simp
  have o: "register_originator demo_works demo_machine = Some ''evt_0''" by code_simp
  have e: "demo_pending \<in> set (events demo_works)" "ev_obligated_by demo_pending = Some ''evt_0''"
    "ev_status demo_pending = EvPending" "ev_id demo_pending = ''evt_1''"
    by (simp_all add: demo_works_def demo_pending_def obligation_def)
  let ?y = "demo_entry ''je_1'' (Date 2026 2 28) EntryPosted (Some ''evt_1'')"
  have y: "?y \<in> set (entries demo_works)" "landed (ev_id demo_pending) ?y"
    by (simp_all add: demo_works_def landed_def demo_entry_def e)
  have "fresh_ids demo_disposer demo_works"
    by (rule demo_ids) (simp_all add: demo_works_def demo_entry_def demo_ledger_def)
  from disposal_voids_landed_obligation [OF s st o e(1-3) y this] s e(4) show ?thesis by auto
qed

subsection \<open>A reversal\<close>

text \<open>The rent was booked by an event; the reversal has an event of its own.\<close>

definition demo_origin :: event where
  "demo_origin = demo_pending\<lparr>ev_id := ''evt_2'', ev_type := ''journal_entry_recorded'', ev_status := Fulfilled\<rparr>"

definition demo_booked :: ledger where
  "demo_booked = link_entry ''evt_2'' ''je_9'' (demo_rent\<lparr>events := [demo_origin]\<rparr>)"

definition demo_undo :: reversal_metadata where
  "demo_undo = \<lparr>rv_entry = ''je_9'', rv_date = None, rv_memo = None\<rparr>"


subsection \<open>A payment\<close>

text \<open>Two invoices have the reference of the payment; the older one was voided.\<close>

definition demo_invoice :: "string \<Rightarrow> int \<Rightarrow> event_status \<Rightarrow> event" where
  "demo_invoice i day st = demo_pending\<lparr>ev_id := i, ev_type := ''invoice_issued'', ev_occurred_at := Time (Date 2026 3 day) 0,
     ev_status := st, ev_source := ''quickbooks'', ev_meta := [(''qb_doc_number'', ''1037'')]\<rparr>"

definition demo_payment :: event where
  "demo_payment = (demo_invoice ''evt_p'' 9 Classified)\<lparr>ev_type := ''payment_received'', ev_meta := [(''qb_reference_number'', '' 1037 '')]\<rparr>"

definition demo_invoices :: ledger where
  "demo_invoices = demo_ledger\<lparr>events :=
     [demo_invoice ''inv_3'' 3 Fulfilled, demo_invoice ''inv_1'' 1 Voided, demo_invoice ''inv_2'' 2 Fulfilled]\<rparr>"

lemma payment_discharges_oldest_live_witness:
  "\<exists>e' x. link_discharge ar_originating_types demo_payment demo_invoices = Inr e' \<and> ev_discharges e' = Some ''inv_2'' \<and>
     ev_id x = ''inv_2'' \<and> first_of (\<lambda>x. dischargeable ar_originating_types demo_payment x \<and> same_reference demo_payment x) demo_invoices x"
proof -
  have "case link_discharge ar_originating_types demo_payment demo_invoices of Inr e \<Rightarrow> ev_discharges e = Some ''inv_2'' | _ \<Rightarrow> False"
    by code_simp
  then obtain e' where e: "link_discharge ar_originating_types demo_payment demo_invoices = Inr e'" "ev_discharges e' = Some ''inv_2''"
    by (auto split: sum.splits)
  have n: "ev_discharges demo_payment = None" "ev_linked demo_payment = []"
    by (simp_all add: demo_payment_def demo_invoice_def demo_pending_def obligation_def)
  then have "\<not> linked_to demo_payment x" for x by (simp add: linked_to_def)
  with payment_discharges_oldest_live [OF e(1)] e n show ?thesis by (auto simp: first_of_def)
qed

subsection \<open>A regenerated schedule\<close>

text \<open>February's interest was posted and reversed on the first of March.\<close>

definition demo_taken_back :: ledger where
  "demo_taken_back = demo_schedule\<lparr>entries :=
     [(demo_entry ''je_7'' (Date 2026 2 28) EntryReversed None)\<lparr>en_structure := Some ''struct_1'', en_type := ''closing''\<rparr>,
      (demo_entry ''je_8'' (Date 2026 3 1) EntryPosted None)\<lparr>en_reversal_of := Some ''je_7''\<rparr>]\<rparr>"

definition demo_regenerated :: "sched_error + ledger \<times> closing_result" where
  "demo_regenerated = create_closing_entry (\<lambda>_. True) ''je_1'' ''je_2'' demo_taken_back ''struct_1''
     (Date 2026 2 28) (Date 2026 2 1) (Date 2026 2 28) None"

lemma regeneration_deletes_a_reversed_pair_witness:
  "\<exists>s' r. demo_regenerated = Inr (s', r) \<and> entries demo_taken_back ! 0 \<notin> set (entries s') \<and>
     entries demo_taken_back ! 1 \<notin> set (entries s')"
proof -
  have o: "outcome_of demo_regenerated = Some Regenerated" by code_simp
  then obtain s' r where r: "demo_regenerated = Inr (s', r)" "cs_outcome r = Regenerated"
    using outcome_of_Some [OF o] by auto
  have x: "existing_closing demo_taken_back ''struct_1'' (Date 2026 2 1) (Date 2026 2 28) = Some (entries demo_taken_back ! 0)"
    by code_simp
  have y: "en_status (entries demo_taken_back ! 0) = EntryReversed" "entries demo_taken_back ! 1 \<in> set (entries demo_taken_back)"
    "en_reversal_of (entries demo_taken_back ! 1) = Some (en_id (entries demo_taken_back ! 0))"
    "en_status (entries demo_taken_back ! 1) = EntryPosted"
    by (simp_all add: demo_taken_back_def demo_entry_def)
  have "cs_outcome r \<noteq> Unchanged" by (simp add: r(2))
  from regeneration_deletes_a_reversed_pair [OF r(1) [unfolded demo_regenerated_def] x y(1) this y(2-4)] r(1)
  show ?thesis by blast
qed

end
