(* ===== verification/ResolutionExamples.thy ===== *)
theory ResolutionExamples
  imports ResolutionFacts CaptureExamples
begin

text \<open>
  Two resolutions: the bill of a closed January whose source now says 700 instead of 500 is
  caught up in February, and a bill of February is restated.
\<close>

definition demo_item_plan :: item_plan where
  "demo_item_plan = (case plan_with_stamp (\<lambda>_ _. False) demo_reconcile ''kg1'' ''evt_9'' of Inr (pl, _) \<Rightarrow> pl)"

definition demo_resolver :: "handler_metadata \<Rightarrow> resolve_env" where
  "demo_resolver m = \<lparr>rv_capture = demo_capture m, rv_dims = (\<lambda>_ _. False), rv_read = (\<lambda>_ _. Some m),
     rv_texts = (\<lambda>_. []), rv_links = (\<lambda>_. [])\<rparr>"

definition demo_resolve :: "disposition option \<Rightarrow> resolve_request" where
  "demo_resolve x = \<lparr>rs_event = ''evt_9'', rs_disposition = x, rs_date = None, rs_posted = False, rs_note = None,
     rs_reference = None\<rparr>"

abbreviation "demo_february \<equiv> Date 2026 2 28"

abbreviation "demo_correction \<equiv> JournalData (catch_up_journal demo_flagged demo_item_plan demo_february False None)"

definition demo_caught_up :: "resolve_error + ledger \<times> resolution" where
  "demo_caught_up = resolve_reconciling_item (demo_resolver demo_correction) demo_reconcile demo_reconcile (demo_resolve None)"

lemma demo_planned: "is_ok (plan_with_stamp (\<lambda>_ _. False) demo_reconcile ''kg1'' ''evt_9'')"
  by code_simp

lemma demo_caught_up_ok: "case demo_caught_up of Inr (s, r) \<Rightarrow> rl_catch_up r \<noteq> None | _ \<Rightarrow> False"
  by code_simp

lemma demo_reconcile_ids: "fresh_ids (demo_capture m) demo_reconcile" "fresh_event (demo_capture m) demo_reconcile"
proof -
  show "fresh_ids (demo_capture m) demo_reconcile"
    by (rule demo_ids) (simp_all add: demo_reconcile_def demo_entry_def)
  show "fresh_event (demo_capture m) demo_reconcile"
    by (simp add: fresh_event_def demo_reconcile_def demo_flagged_def obligation_def demo_capture_def)
qed

lemma catch_up_levels_the_books_witness:
  "\<exists>s' r x ls. demo_caught_up = Inr (s', r) \<and> rl_catch_up r = Some (''evt_new'', Some x, demo_february) \<and>
    abs_books s' (en_id x) = Some (EntryDraft, demo_february, ls) \<and> balanced_lines ls"
proof -
  from demo_caught_up_ok obtain s' r c where r: "demo_caught_up = Inr (s', r)" "rl_catch_up r = Some c"
    by (auto split: sum.splits prod.splits)
  from demo_planned obtain pl due stamp where p: "plan_with_stamp (\<lambda>_ _. False) demo_reconcile ''kg1'' ''evt_9'' = Inr (pl, due, stamp)"
    by (auto simp: is_ok_def split: sum.splits)
  have pl: "demo_item_plan = pl" by (simp add: demo_item_plan_def p)
  have due: "due = Some demo_february"
  proof -
    have "case plan_with_stamp (\<lambda>_ _. False) demo_reconcile ''kg1'' ''evt_9'' of Inr (pl, d, _) \<Rightarrow> d = Some demo_february | _ \<Rightarrow> False"
      by code_simp
    then show ?thesis by (simp add: p)
  qed
  have d: "demo_february = the (catch_up_date (demo_resolve None) CatchUp due)"
    by (simp add: catch_up_date_def demo_resolve_def due)
  have e: "\<forall>x\<in>set (entries demo_reconcile). en_event x \<noteq> Some (cw_event_id (demo_capture m))" for m
    by (simp add: demo_reconcile_def demo_entry_def demo_capture_def)
  show ?thesis
    using catch_up_levels_the_books [OF r(1) [unfolded demo_caught_up_def] r(2), of pl due stamp demo_flagged demo_february]
      r p d e demo_event demo_reconcile_ids
    by (auto simp: demo_resolver_def demo_resolve_def demo_capture_def pl [symmetric])
qed

text \<open>The bill, posted in February and captured by the journal handler.\<close>

definition demo_bill :: ledger where
  "demo_bill = demo_reconcile\<lparr>events := [demo_flagged\<lparr>ev_type := ''bill_received''\<rparr>],
     entries := [demo_entry ''je_9'' (Date 2026 2 20) EntryPosted (Some ''evt_9'')]\<rparr>"

definition demo_restated :: "resolve_error + ledger \<times> resolution" where
  "demo_restated = resolve_reconciling_item (demo_resolver (JournalData demo_metadata)) demo_bill demo_bill (demo_resolve None)"

lemma demo_restated_ok: "case demo_restated of Inr (s, r) \<Rightarrow> rl_disposition r = Restate | _ \<Rightarrow> False"
  by code_simp

lemma demo_bill_wf: "fresh_ids (demo_capture m) demo_bill" "fresh_event (demo_capture m) demo_bill"
  "distinct (map period_key (fperiods demo_bill))" "distinct (map en_id (entries demo_bill))"
  "\<forall>ev k. find_event demo_bill ''evt_9'' = Some ev \<longrightarrow> get_python_handler (ev_type ev) = Some k \<longrightarrow> k \<in> journal_kinds"
proof -
  show "fresh_ids (demo_capture m) demo_bill"
    by (rule demo_ids) (simp_all add: demo_bill_def demo_reconcile_def demo_entry_def)
qed (auto simp: fresh_event_def demo_bill_def demo_reconcile_def demo_flagged_def obligation_def demo_capture_def demo_ledger_def
    demo_period_def period_key_def find_event_def get_python_handler_def python_registry_def journal_kinds_def)

lemma demo_resolver_simps: "rv_capture (demo_resolver m) = demo_capture m" "rs_event (demo_resolve x) = ''evt_9''"
  by (simp_all add: demo_resolver_def demo_resolve_def)



end
