(* ===== verification/Rules.thy ===== *)
theory Rules
  imports Guards
begin

text \<open>
  Rule expressions (\<open>operations/information_block/rules/expressions.py\<close>) and the evaluators
  of the rule patterns (\<open>rules/evaluators.py\<close>).

  The text passes are written out on characters (identifiers are ASCII). Python's
  \<open>ast.parse\<close> is the parameter \<open>ast_parse\<close>, from the preprocessed text to the syntax tree of
  the expression; \<open>None\<close> is a syntax error. Floats are exact rationals, so a comparison with
  the tolerance is exact and there is no overflow, infinity or NaN.
\<close>

subsection \<open>Syntax trees\<close>

datatype const = CNum rat | CBool bool | COther string

datatype binop = OpAdd | OpSub | OpMult | OpDiv | OpOther string

datatype cmpop = CmpEq | CmpOther string

datatype ast =
    Const const
  | Name string
  | USub ast
  | OtherUnary string ast
  | BinOp ast binop ast
  | Compare ast "cmpop list" "ast list"
  | Call "ast list"
  | OtherNode string "ast list"

datatype rule_error =
    UnboundVariables "string list"
  | StrayDollar
  | SyntaxErr
  | DisallowedNode string
  | NotEquality
  | NonNumeric
  | UnboundName string
  | NullValue string
  | DivisionByZero
  | UnexpectedNode
  | MissingValue string

subsection \<open>Text passes\<close>

definition ident_start :: "char \<Rightarrow> bool" where
  "ident_start c \<longleftrightarrow> CHR ''A'' \<le> c \<and> c \<le> CHR ''Z'' \<or> CHR ''a'' \<le> c \<and> c \<le> CHR ''z'' \<or> c = CHR ''_''"

definition word_char :: "char \<Rightarrow> bool" where
  "word_char c \<longleftrightarrow> ident_start c \<or> CHR ''0'' \<le> c \<and> c \<le> CHR ''9''"

definition space_char :: "char \<Rightarrow> bool" where
  "space_char c \<longleftrightarrow> (of_char c :: nat) \<in> {9, 10, 11, 12, 13, 28, 29, 30, 31, 32, 133, 160}"

text \<open>An identifier at the front of a text, with the rest.\<close>

definition take_ident :: "string \<Rightarrow> (string \<times> string) option" where
  "take_ident s = (case s of [] \<Rightarrow> None
     | c # cs \<Rightarrow> if ident_start c then Some (c # takeWhile word_char cs, dropWhile word_char cs) else None)"

lemma take_ident_length: "take_ident s = Some (i, r) \<Longrightarrow> length r < length s"
  by (cases s) (auto simp: take_ident_def less_Suc_eq_le length_dropWhile_le split: if_splits)

text \<open>\<open>_bind_variables\<close>: the bound text and the unknown names, in order.\<close>

function bind_scan :: "string set \<Rightarrow> string \<Rightarrow> string \<times> string list" where
  "bind_scan known [] = ([], [])"
| "bind_scan known (c # cs) =
     (if c = CHR ''$'' then
        (case take_ident cs of
           None \<Rightarrow> (let (t, u) = bind_scan known cs in (c # t, u))
         | Some (i, r) \<Rightarrow>
             (let (t, u) = bind_scan known r in
              if i \<in> known then (''_var_'' @ i @ t, u) else (c # i @ t, i # u)))
      else let (t, u) = bind_scan known cs in (c # t, u))"
  by pat_completeness auto
termination
  by (relation "measure (length \<circ> snd)") (auto dest: take_ident_length)

definition bind_variables :: "string \<Rightarrow> string list \<Rightarrow> rule_error + string" where
  "bind_variables expr names =
     (let (t, unknown) = bind_scan (set names) expr in
      if unknown \<noteq> [] then Inl (UnboundVariables unknown)
      else if CHR ''$'' \<in> set t then Inl StrayDollar
      else Inr t)"

text \<open>\<open>_normalize_equality\<close>: a single \<open>=\<close> becomes two, with the previous character at hand.\<close>

fun normalize_scan :: "char option \<Rightarrow> string \<Rightarrow> string" where
  "normalize_scan prev [] = []"
| "normalize_scan prev (c # cs) =
     (if c = CHR ''='' \<and> (case prev of None \<Rightarrow> True | Some p \<Rightarrow> p \<notin> set ''=<>!'') \<and>
         (case cs of [] \<Rightarrow> True | d # _ \<Rightarrow> d \<noteq> CHR ''='')
      then ''=='' @ normalize_scan (Some c) cs
      else c # normalize_scan (Some c) cs)"

definition normalize_equality :: "string \<Rightarrow> string" where
  "normalize_equality s = normalize_scan None s"

definition has_prefix :: "string \<Rightarrow> string \<Rightarrow> bool" where
  "has_prefix p s \<longleftrightarrow> take (length p) s = p"

text \<open>\<open>desugar_priors\<close>: \<open>$X[t-1]\<close> becomes \<open>$__prior_X\<close>; the map lists synthesized and base names.\<close>

function prior_scan :: "string \<Rightarrow> string \<times> (string \<times> string) list" where
  "prior_scan [] = ([], [])"
| "prior_scan (c # cs) =
     (case (if c = CHR ''$'' then take_ident cs else None) of
        None \<Rightarrow> (let (t, m) = prior_scan cs in (c # t, m))
      | Some (i, r) \<Rightarrow>
          if has_prefix ''[t-1]'' r
          then (let (t, m) = prior_scan (drop 5 r) in (''$__prior_'' @ i @ t, (''__prior_'' @ i, i) # m))
          else (let (t, m) = prior_scan cs in (c # t, m)))"
  by pat_completeness auto
termination
  by (relation "measure length") (auto dest!: take_ident_length split: if_splits)

definition desugar_priors :: "string \<Rightarrow> string \<times> (string \<times> string) list" where
  "desugar_priors expr = (let (t, m) = prior_scan expr in (t, remdups m))"

text \<open>The operand of an \<open>avg(\<close> at the front of a text.\<close>

definition take_avg :: "string \<Rightarrow> (string \<times> string) option" where
  "take_avg s =
     (if \<not> has_prefix ''avg('' s then None
      else case dropWhile space_char (drop 4 s) of
             d # r \<Rightarrow>
               if d \<noteq> CHR ''$'' then None
               else (case take_ident r of
                       None \<Rightarrow> None
                     | Some (i, r1) \<Rightarrow>
                         (case dropWhile space_char r1 of
                            p # r2 \<Rightarrow> if p = CHR '')'' then Some (i, r2) else None
                          | [] \<Rightarrow> None))
           | [] \<Rightarrow> None)"

lemma take_avg_length: "take_avg s = Some (i, r) \<Longrightarrow> length r < length s"
proof -
  assume "take_avg s = Some (i, r)"
  then obtain d r0 r1 p where "dropWhile space_char (drop 4 s) = d # r0" "take_ident r0 = Some (i, r1)"
    "dropWhile space_char r1 = p # r"
    by (auto simp: take_avg_def split: if_splits list.splits option.splits)
  moreover have "length (dropWhile space_char xs) \<le> length xs" for xs by (rule length_dropWhile_le)
  ultimately show ?thesis
    by (metis diff_le_self length_Cons length_drop less_SucI order.strict_trans1 order.trans
        take_ident_length le_imp_less_Suc less_or_eq_imp_le order_less_le_trans)
qed

function avg_scan :: "bool \<Rightarrow> string \<Rightarrow> string \<times> (string \<times> string) list" where
  "avg_scan in_word [] = ([], [])"
| "avg_scan in_word (c # cs) =
     (case (if in_word then None else take_avg (c # cs)) of
        None \<Rightarrow> (let (t, m) = avg_scan (word_char c) cs in (c # t, m))
      | Some (i, r) \<Rightarrow> (let (t, m) = avg_scan False r in (''$__avg_'' @ i @ t, (''__avg_'' @ i, i) # m)))"
  by pat_completeness auto
termination
  by (relation "measure (length \<circ> snd)") (auto dest!: take_avg_length split: if_splits)

definition desugar_aggregates :: "string \<Rightarrow> string \<times> (string \<times> string) list" where
  "desugar_aggregates expr = (let (t, m) = avg_scan False expr in (t, remdups m))"

subsection \<open>Parsing\<close>

text \<open>The whitelist: every node of the tree, with its operators.\<close>

fun allowed_nodes :: "ast \<Rightarrow> bool" where
  "allowed_nodes (Const _) = True"
| "allowed_nodes (Name _) = True"
| "allowed_nodes (USub a) = allowed_nodes a"
| "allowed_nodes (OtherUnary _ _) = False"
| "allowed_nodes (BinOp a f b) = ((case f of OpOther _ \<Rightarrow> False | _ \<Rightarrow> True) \<and> allowed_nodes a \<and> allowed_nodes b)"
| "allowed_nodes (Compare a fs bs) = (list_all (\<lambda>f. f = CmpEq) fs \<and> allowed_nodes a \<and> list_all allowed_nodes bs)"
| "allowed_nodes (Call _) = False"
| "allowed_nodes (OtherNode _ _) = False"

definition require_single_equality :: "ast \<Rightarrow> rule_error + ast \<times> ast" where
  "require_single_equality t = (case t of
     Compare a [f] (b # _) \<Rightarrow> if f = CmpEq then Inr (a, b) else Inl NotEquality
   | _ \<Rightarrow> Inl NotEquality)"

text \<open>
  The evaluator. A missing key is \<open>None\<close>, a key bound to Python's \<open>None\<close> is \<open>Some None\<close>.
  With \<open>shape_only\<close> every name is one.
\<close>

fun eval_arith :: "bool \<Rightarrow> (string \<rightharpoonup> rat option) \<Rightarrow> ast \<Rightarrow> rule_error + rat" where
  "eval_arith shape_only vals (Const k) = (case k of CNum x \<Rightarrow> Inr x | _ \<Rightarrow> Inl NonNumeric)"
| "eval_arith shape_only vals (Name n) =
     (if shape_only then Inr 1
      else case vals n of
             None \<Rightarrow> Inl (UnboundName n)
           | Some None \<Rightarrow> Inl (NullValue n)
           | Some (Some x) \<Rightarrow> Inr x)"
| "eval_arith shape_only vals (USub a) = bindR (eval_arith shape_only vals a) (\<lambda>x. Inr (- x))"
| "eval_arith shape_only vals (BinOp a f b) =
     bindR (eval_arith shape_only vals a) (\<lambda>x.
     bindR (eval_arith shape_only vals b) (\<lambda>y.
     case f of
       OpAdd \<Rightarrow> Inr (x + y)
     | OpSub \<Rightarrow> Inr (x - y)
     | OpMult \<Rightarrow> Inr (x * y)
     | OpDiv \<Rightarrow> if y = 0 then Inl DivisionByZero else Inr (x / y)
     | OpOther _ \<Rightarrow> Inl UnexpectedNode))"
| "eval_arith shape_only vals (OtherUnary _ _) = Inl UnexpectedNode"
| "eval_arith shape_only vals (Compare _ _ _) = Inl UnexpectedNode"
| "eval_arith shape_only vals (Call _) = Inl UnexpectedNode"
| "eval_arith shape_only vals (OtherNode _ _) = Inl UnexpectedNode"

record parsed =
  p_tree :: ast
  p_names :: "string list"

definition parse_arithmetic_expression ::
  "(string \<Rightarrow> ast option) \<Rightarrow> string \<Rightarrow> string list \<Rightarrow> rule_error + parsed" where
  "parse_arithmetic_expression ast_parse expr names =
     bindR (bind_variables expr names) (\<lambda>bound.
     case ast_parse (normalize_equality bound) of
       None \<Rightarrow> Inl SyntaxErr
     | Some t \<Rightarrow>
         if \<not> allowed_nodes t then Inl (DisallowedNode expr)
         else bindR (require_single_equality t) (\<lambda>(a, b).
              bindR (eval_arith True Map.empty a) (\<lambda>_.
              bindR (eval_arith True Map.empty b) (\<lambda>_.
              Inr \<lparr>p_tree = t, p_names = names\<rparr>))))"

text \<open>The bindings of the prefixed names; the first unbound one is reported.\<close>

fun map_values :: "(string \<rightharpoonup> rat option) \<Rightarrow> string list \<Rightarrow> rule_error + (string \<rightharpoonup> rat option)" where
  "map_values vals [] = Inr Map.empty"
| "map_values vals (n # ns) =
     (case vals n of
        None \<Rightarrow> Inl (MissingValue n)
      | Some v \<Rightarrow> bindR (map_values vals ns) (\<lambda>m. Inr (m(''_var_'' @ n \<mapsto> v))))"

definition evaluate_equality :: "parsed \<Rightarrow> (string \<rightharpoonup> rat option) \<Rightarrow> rat \<Rightarrow> rule_error + bool \<times> rat" where
  "evaluate_equality p vals tolerance =
     bindR (require_single_equality (p_tree p)) (\<lambda>(a, b).
     bindR (map_values vals (p_names p)) (\<lambda>m.
     bindR (eval_arith False m a) (\<lambda>x.
     bindR (eval_arith False m b) (\<lambda>y.
     Inr (\<bar>x - y\<bar> \<le> tolerance, \<bar>x - y\<bar>)))))"

text \<open>The variable names of a subtree, without their prefix.\<close>

fun names_in :: "ast \<Rightarrow> string list" where
  "names_in (Const _) = []"
| "names_in (Name n) = [n]"
| "names_in (USub a) = names_in a"
| "names_in (OtherUnary _ a) = names_in a"
| "names_in (BinOp a _ b) = names_in a @ names_in b"
| "names_in (Compare a _ bs) = names_in a @ concat (map names_in bs)"
| "names_in (Call xs) = concat (map names_in xs)"
| "names_in (OtherNode _ xs) = concat (map names_in xs)"

definition variable_names_in :: "ast \<Rightarrow> string list" where
  "variable_names_in t = map (drop 5) (filter (has_prefix ''_var_'') (names_in t))"

definition lhs_variable_names :: "parsed \<Rightarrow> rule_error + string list" where
  "lhs_variable_names p = bindR (require_single_equality (p_tree p)) (\<lambda>(a, _). Inr (variable_names_in a))"

definition evaluate_derivation :: "parsed \<Rightarrow> (string \<rightharpoonup> rat option) \<Rightarrow> rule_error + rat" where
  "evaluate_derivation p vals =
     bindR (require_single_equality (p_tree p)) (\<lambda>(_, b).
     eval_arith False (\<lambda>n. if has_prefix ''_var_'' n then vals (drop 5 n) else None) b)"

subsection \<open>Rule patterns\<close>

datatype rule_status = RPass | RFail | RError | RSkipped

record rule =
  ru_pattern :: string
  ru_expression :: string
  ru_variables :: "string list"
  ru_tolerance :: "rat option"
  ru_expected :: "rat option"

definition equality_tolerance :: rat where
  "equality_tolerance = 1 / 100"

definition rule_tolerance :: "rule \<Rightarrow> rat" where
  "rule_tolerance r = (case ru_tolerance r of Some t \<Rightarrow> t | None \<Rightarrow> equality_tolerance)"

text \<open>\<open>bindings.get(n)\<close>: no key and a null value are the same.\<close>

definition bound_value :: "(string \<rightharpoonup> rat option) \<Rightarrow> string \<Rightarrow> rat option" where
  "bound_value b n = (case b n of None \<Rightarrow> None | Some v \<Rightarrow> v)"

definition status_of :: "rule_error + bool \<times> rat \<Rightarrow> rule_status" where
  "status_of r = (case r of Inl _ \<Rightarrow> RError | Inr (ok, _) \<Rightarrow> if ok then RPass else RFail)"

definition values_of :: "string list \<Rightarrow> (string \<Rightarrow> rat) \<Rightarrow> string \<rightharpoonup> rat option" where
  "values_of ns f = (\<lambda>n. if n \<in> set ns then Some (Some (f n)) else None)"

definition evaluate_equality_pattern ::
  "(string \<Rightarrow> ast option) \<Rightarrow> rule \<Rightarrow> (string \<rightharpoonup> rat option) \<Rightarrow> rule_status" where
  "evaluate_equality_pattern ast_parse r b =
     (if list_ex (\<lambda>n. bound_value b n = None) (ru_variables r) then RSkipped
      else status_of (bindR (parse_arithmetic_expression ast_parse (ru_expression r) (ru_variables r)) (\<lambda>p.
             evaluate_equality p (values_of (ru_variables r) (\<lambda>n. the (bound_value b n))) (rule_tolerance r))))"

definition evaluate_rollup ::
  "(string \<Rightarrow> ast option) \<Rightarrow> rule \<Rightarrow> (string \<rightharpoonup> rat option) \<Rightarrow> rule_status" where
  "evaluate_rollup ast_parse r b =
     (if ru_variables r = [] then RSkipped
      else case bindR (parse_arithmetic_expression ast_parse (ru_expression r) (ru_variables r)) (\<lambda>p.
                  bindR (lhs_variable_names p) (\<lambda>req. Inr (p, req))) of
             Inl _ \<Rightarrow> RError
           | Inr (p, req) \<Rightarrow>
               if list_ex (\<lambda>n. bound_value b n = None) req then RSkipped
               else let rhs = filter (\<lambda>n. n \<notin> set req) (ru_variables r);
                        defaulted = filter (\<lambda>n. bound_value b n = None) rhs
                    in if rhs \<noteq> [] \<and> length defaulted = length rhs then RSkipped
                       else status_of (evaluate_equality p
                              (values_of (ru_variables r) (\<lambda>n. case bound_value b n of Some x \<Rightarrow> x | None \<Rightarrow> 0))
                              (rule_tolerance r)))"

definition evaluate_exists :: "rule \<Rightarrow> (string \<rightharpoonup> rat option) \<Rightarrow> rule_status" where
  "evaluate_exists r b =
     (if ru_variables r = [] then RSkipped
      else if list_ex (\<lambda>n. bound_value b n \<noteq> None) (ru_variables r) then RPass else RFail)"

definition evaluate_coexists :: "rule \<Rightarrow> (string \<rightharpoonup> rat option) \<Rightarrow> rule_status" where
  "evaluate_coexists r b =
     (if ru_variables r = [] then RSkipped
      else let present = filter (\<lambda>n. bound_value b n \<noteq> None) (ru_variables r);
               absent = filter (\<lambda>n. bound_value b n = None) (ru_variables r)
           in if present = [] \<or> absent = [] then RPass else RFail)"

definition evaluate_sum_equals :: "rule \<Rightarrow> (string \<rightharpoonup> rat option) \<Rightarrow> rule_status" where
  "evaluate_sum_equals r b = (case ru_variables r of
     [] \<Rightarrow> RSkipped
   | n # _ \<Rightarrow> (case bound_value b n of
        None \<Rightarrow> RSkipped
      | Some x \<Rightarrow> if \<bar>x - (case ru_expected r of None \<Rightarrow> 0 | Some y \<Rightarrow> y)\<bar> \<le> rule_tolerance r then RPass else RFail))"

definition evaluate_rule :: "(string \<Rightarrow> ast option) \<Rightarrow> rule \<Rightarrow> (string \<rightharpoonup> rat option) \<Rightarrow> rule_status" where
  "evaluate_rule ast_parse r b =
     (if ru_pattern r = ''EqualTo'' \<or> ru_pattern r = ''RollForward'' then evaluate_equality_pattern ast_parse r b
      else if ru_pattern r = ''RollUp'' then evaluate_rollup ast_parse r b
      else if ru_pattern r = ''Exists'' then evaluate_exists r b
      else if ru_pattern r = ''CoExists'' then evaluate_coexists r b
      else if ru_pattern r = ''SumEquals'' then evaluate_sum_equals r b
      else RSkipped)"

end
