(* ===== verification/RuleFacts.thy ===== *)
theory RuleFacts
  imports Rules
begin

text \<open>
  What authoring a rule promises about evaluating it. \<open>parse_arithmetic_expression\<close> runs the
  evaluator with every name set to one; the lemmas compare that dry run with an evaluation on
  real values.
\<close>

lemma parse_cases:
  assumes "parse_arithmetic_expression ast_parse expr names = Inr p"
  obtains a b x y where "require_single_equality (p_tree p) = Inr (a, b)" "p_names p = names"
    "eval_arith True Map.empty a = Inr x" "eval_arith True Map.empty b = Inr y"
  using assms
  by (auto simp: parse_arithmetic_expression_def result_simps split: option.splits if_splits)

lemma map_values_bound:
  "\<forall>n\<in>set ns. \<exists>x. vals n = Some (Some x) \<Longrightarrow>
    \<exists>m. map_values vals ns = Inr m \<and> dom m = (\<lambda>n. ''_var_'' @ n) ` set ns \<and>
      (\<forall>k v. m k = Some v \<longrightarrow> v \<noteq> None)"
  by (induction ns) auto

lemma map_values_dom:
  "map_values vals ns = Inr m \<Longrightarrow> dom m = (\<lambda>n. ''_var_'' @ n) ` set ns"
proof (induction ns arbitrary: m)
  case (Cons n ns)
  then obtain v m0 where "map_values vals ns = Inr m0" "m = m0(''_var_'' @ n \<mapsto> v)"
    by (auto simp: result_simps split: option.splits)
  with Cons.IH show ?case by (simp only: dom_fun_upd list.set image_insert option.distinct if_False)
qed simp

text \<open>A tree the dry run accepts meets only two failures, in the order of the walk.\<close>

lemma eval_after_dry_run:
  assumes "eval_arith True v t = Inr d" "\<forall>k v. m k = Some v \<longrightarrow> v \<noteq> None"
  shows "(\<exists>x. eval_arith False m t = Inr x \<and> set (names_in t) \<subseteq> dom m) \<or>
    eval_arith False m t = Inl DivisionByZero \<or>
    (\<exists>n\<in>set (names_in t) - dom m. eval_arith False m t = Inl (UnboundName n))"
  using assms(1)
proof (induction True v t arbitrary: d rule: eval_arith.induct)
  case (2 vals n)
  with assms(2) show ?case by (cases "m n") (auto split: option.splits)
next
  case (4 vals a f b)
  from 4(3) obtain x y where "eval_arith True vals a = Inr x" "eval_arith True vals b = Inr y"
    and f: "\<not> (\<exists>g. f = OpOther g)"
    by (cases f) (auto simp: result_simps split: if_splits)
  with 4(1) 4(2) have
    "(\<exists>x. eval_arith False m a = Inr x \<and> set (names_in a) \<subseteq> dom m) \<or>
      eval_arith False m a = Inl DivisionByZero \<or>
      (\<exists>n\<in>set (names_in a) - dom m. eval_arith False m a = Inl (UnboundName n))"
    "(\<exists>x. eval_arith False m b = Inr x \<and> set (names_in b) \<subseteq> dom m) \<or>
      eval_arith False m b = Inl DivisionByZero \<or>
      (\<exists>n\<in>set (names_in b) - dom m. eval_arith False m b = Inl (UnboundName n))"
    by blast+
  then show ?case using f by (cases f) auto
qed (auto simp: result_simps split: const.splits)

lemma eval_bare_name:
  "n \<in> set (names_in t) \<Longrightarrow> m n = None \<Longrightarrow> eval_arith False m t \<noteq> Inr x"
  by (induction False m t arbitrary: x rule: eval_arith.induct) (auto simp: result_simps)

lemma accepted_evaluates:
  assumes "parse_arithmetic_expression ast_parse expr names = Inr p"
    and eq: "require_single_equality (p_tree p) = Inr (a, b)"
    and bound: "\<forall>n\<in>set names. \<exists>x. vals n = Some (Some x)"
  defines "V \<equiv> (\<lambda>n. ''_var_'' @ n) ` set names"
  shows "(set (names_in a) \<union> set (names_in b) \<subseteq> V \<and>
      (\<exists>x y. evaluate_equality p vals tolerance = Inr (\<bar>x - y\<bar> \<le> tolerance, \<bar>x - y\<bar>))) \<or>
    evaluate_equality p vals tolerance = Inl DivisionByZero \<or>
    (\<exists>n \<in> set (names_in a) \<union> set (names_in b) - V.
       evaluate_equality p vals tolerance = Inl (UnboundName n))"
proof -
  obtain x y where names: "p_names p = names"
    and dry: "eval_arith True Map.empty a = Inr x" "eval_arith True Map.empty b = Inr y"
    using parse_cases [OF assms(1)] eq by (metis Pair_inject sum.inject(2))
  from map_values_bound [OF bound] obtain m where m: "map_values vals names = Inr m"
    "dom m = V" "\<forall>k v. m k = Some v \<longrightarrow> v \<noteq> None" unfolding V_def by blast
  from eval_after_dry_run [OF dry(1) m(3)] eval_after_dry_run [OF dry(2) m(3)]
  show ?thesis
    by (elim disjE exE bexE conjE) (auto simp: evaluate_equality_def eq names m(1,2))
qed

lemma bare_name_never_evaluates:
  assumes "require_single_equality (p_tree p) = Inr (a, b)"
    and "n \<in> set (names_in a) \<union> set (names_in b)" "n \<notin> (\<lambda>n. ''_var_'' @ n) ` set (p_names p)"
  shows "evaluate_equality p vals tolerance \<noteq> Inr r"
proof
  assume "evaluate_equality p vals tolerance = Inr r"
  then obtain m x y where "map_values vals (p_names p) = Inr m"
    "eval_arith False m a = Inr x" "eval_arith False m b = Inr y"
    by (auto simp: evaluate_equality_def assms(1) result_simps)
  moreover from this(1) assms(3) have "m n = None" using map_values_dom by blast
  ultimately show False using assms(2) eval_bare_name by (metis Un_iff)
qed

text \<open>
  C22. An expression that authoring accepts, evaluated with a number for each of its variables,
  gives a verdict with its residual, unless it divides by zero there or holds a bare name
  (one written without \<open>$\<close>). A bare name is accepted by the dry run, and with it no values
  whatever give a verdict: the split between authoring and evaluation that the dry run is
  there to close stays open for bare names.
\<close>

theorem accepted_expression_evaluates:
  assumes "parse_arithmetic_expression ast_parse expr names = Inr p"
    and "require_single_equality (p_tree p) = Inr (a, b)"
  shows "(let used = set (names_in a) \<union> set (names_in b); variables = (\<lambda>n. ''_var_'' @ n) ` set names in
    ((\<forall>n\<in>set names. \<exists>x. vals n = Some (Some x)) \<longrightarrow>
      (used \<subseteq> variables \<and>
        (\<exists>x y. evaluate_equality p vals tolerance = Inr (\<bar>x - y\<bar> \<le> tolerance, \<bar>x - y\<bar>))) \<or>
      evaluate_equality p vals tolerance = Inl DivisionByZero \<or>
      (\<exists>n \<in> used - variables. evaluate_equality p vals tolerance = Inl (UnboundName n))) \<and>
    (\<not> used \<subseteq> variables \<longrightarrow> (\<forall>vals r. evaluate_equality p vals tolerance \<noteq> Inr r)))"
proof -
  have "p_names p = names" using parse_cases [OF assms(1)] by metis
  with bare_name_never_evaluates [OF assms(2)] have
    "\<not> set (names_in a) \<union> set (names_in b) \<subseteq> (\<lambda>n. ''_var_'' @ n) ` set names \<Longrightarrow>
      evaluate_equality p vals tolerance \<noteq> Inr r" for vals r
    by blast
  with accepted_evaluates [OF assms] show ?thesis unfolding Let_def by blast
qed

text \<open>A parser of two sample expressions.\<close>

definition sample_parse :: "string \<Rightarrow> ast option" where
  "sample_parse s =
     (if s = ''_var_A == _var_B + 1'' then
        Some (Compare (Name ''_var_A'') [CmpEq] [BinOp (Name ''_var_B'') OpAdd (Const (CNum 1))])
      else if s = ''_var_A == B + 1'' then
        Some (Compare (Name ''_var_A'') [CmpEq] [BinOp (Name ''B'') OpAdd (Const (CNum 1))])
      else if s = ''_var_M == _var_A / (_var_B - _var_C)'' then
        Some (Compare (Name ''_var_M'') [CmpEq]
          [BinOp (Name ''_var_A'') OpDiv (BinOp (Name ''_var_B'') OpSub (Name ''_var_C''))])
      else None)"

lemma accepted_expression_evaluates_witness:
  "\<forall>vals r. evaluate_equality
     \<lparr>p_tree = Compare (Name ''_var_A'') [CmpEq] [BinOp (Name ''B'') OpAdd (Const (CNum 1))],
      p_names = [''A'', ''B'']\<rparr> vals (1 / 100) \<noteq> Inr r"
proof -
  have "parse_arithmetic_expression sample_parse ''$A = B + 1'' [''A'', ''B''] =
    Inr \<lparr>p_tree = Compare (Name ''_var_A'') [CmpEq] [BinOp (Name ''B'') OpAdd (Const (CNum 1))],
      p_names = [''A'', ''B'']\<rparr>" by code_simp
  from accepted_expression_evaluates [OF this, of "Name ''_var_A''"
      "BinOp (Name ''B'') OpAdd (Const (CNum 1))" Map.empty "1 / 100"]
  show ?thesis by (simp add: require_single_equality_def)
qed

text \<open>
  The dry run also refuses expressions that do evaluate: with every name set to one, a
  divisor that subtracts one variable from another is zero, so \<open>$M = $A / ($B - $C)\<close> cannot be
  authored, although it has a verdict on every values with different \<open>$B\<close> and \<open>$C\<close>.
\<close>

theorem dry_run_rejects_evaluable:
  assumes "bind_variables expr names = Inr bound"
    and "ast_parse (normalize_equality bound) =
      Some (Compare (Name l) [CmpEq] [BinOp (Name n) OpDiv (BinOp (Name d) OpSub (Name e))])"
    and "map_values vals names = Inr m" "m l = Some (Some z)" "m n = Some (Some u)"
      "m d = Some (Some v)" "m e = Some (Some w)"
  shows "parse_arithmetic_expression ast_parse expr names = Inl DivisionByZero \<and>
    (v \<noteq> w \<longrightarrow>
      evaluate_equality
        \<lparr>p_tree = Compare (Name l) [CmpEq] [BinOp (Name n) OpDiv (BinOp (Name d) OpSub (Name e))],
         p_names = names\<rparr> vals tolerance =
        Inr (\<bar>z - u / (v - w)\<bar> \<le> tolerance, \<bar>z - u / (v - w)\<bar>))"
  using assms by (simp add: parse_arithmetic_expression_def require_single_equality_def
      evaluate_equality_def)

lemma dry_run_rejects_evaluable_witness:
  "parse_arithmetic_expression sample_parse ''$M = $A / ($B - $C)'' [''M'', ''A'', ''B'', ''C''] =
    Inl DivisionByZero"
proof -
  let ?vals = "\<lambda>n. if n = ''C'' then Some (Some (1 :: rat)) else Some (Some 3)"
  have "bind_variables ''$M = $A / ($B - $C)'' [''M'', ''A'', ''B'', ''C''] =
      Inr ''_var_M = _var_A / (_var_B - _var_C)''" by code_simp
  moreover have "sample_parse (normalize_equality ''_var_M = _var_A / (_var_B - _var_C)'') =
      Some (Compare (Name ''_var_M'') [CmpEq]
        [BinOp (Name ''_var_A'') OpDiv (BinOp (Name ''_var_B'') OpSub (Name ''_var_C''))])"
    by code_simp
  moreover have "map_values ?vals [''M'', ''A'', ''B'', ''C''] =
      Inr [''_var_C'' \<mapsto> Some 1, ''_var_B'' \<mapsto> Some 3, ''_var_A'' \<mapsto> Some 3, ''_var_M'' \<mapsto> Some 3]"
    by simp
  ultimately show ?thesis
    using dry_run_rejects_evaluable [of "''$M = $A / ($B - $C)''" "[''M'', ''A'', ''B'', ''C'']"
        "''_var_M = _var_A / (_var_B - _var_C)''" sample_parse "''_var_M''" "''_var_A''" "''_var_B''"
        "''_var_C''" ?vals _ 3 3 3 1 0] by simp
qed

end
