(* ===== verification/Credits.thy ===== *)
theory Credits
  imports Periods Complex_Main
begin

text \<open>
  Credit pools of graphs (\<open>models/core/graph/graph_credits.py\<close>) and their ledger.

  Amounts are rationals: Python's \<open>Decimal\<close> is exact at the sizes in use, and a value stored in
  a NUMERIC(10,2) column is rounded half away from zero by the database, which refuses a value
  of eight or more integer digits past the column's width (\<open>numeric\<close>). The keys that make
  ledger rows idempotent are a datatype; the code renders them as text with distinct prefixes.
  \<open>None\<close> of an operation on the database is a statement that raised, whose transaction rolled
  back. A transaction that commits is one step; an operation that commits twice is the
  composition of two definitions, so that another session can run between them.
\<close>

subsection \<open>Columns\<close>

definition to_cents :: "rat \<Rightarrow> rat" where
  "to_cents x = (if x < 0 then - (of_int \<lfloor>- x * 100 + 1 / 2\<rfloor> / 100) else of_int \<lfloor>x * 100 + 1 / 2\<rfloor> / 100)"

definition numeric :: "rat \<Rightarrow> rat option" where
  "numeric x = (if \<bar>to_cents x\<bar> < 100000000 then Some (to_cents x) else None)"

subsection \<open>Rows\<close>

datatype credit_tx_type = TxAllocation | TxConsumption | TxBonus | TxRefund | TxExpiration

datatype tx_key =
    KeyInitial string
  | KeyConsume string
  | KeyExpiration string int int
  | KeyAllocation string int int
  | KeyBonus string string

record credit_pool =
  cp_id :: string
  cp_graph :: string
  cp_user :: string
  cp_balance :: rat
  cp_allocation :: rat
  cp_allocated_at :: "ptime option"
  cp_storage_limit :: rat
  cp_storage_override :: "rat option"
  cp_warned_at :: "ptime option"

record credit_tx =
  ct_pool :: string
  ct_type :: credit_tx_type
  ct_amount :: rat
  ct_key :: "tx_key option"
  ct_user :: "string option"
  ct_at :: ptime
  ct_shortfall :: "rat option"

record credit_db =
  cd_pools :: "credit_pool list"
  cd_txs :: "credit_tx list"

definition get_by_graph_id :: "credit_db \<Rightarrow> string \<Rightarrow> credit_pool option" where
  "get_by_graph_id db g = find_row (\<lambda>p. cp_graph p = g) (cd_pools db)"

definition pool_row :: "credit_db \<Rightarrow> string \<Rightarrow> credit_pool option" where
  "pool_row db i = find_row (\<lambda>p. cp_id p = i) (cd_pools db)"

definition put_pool :: "credit_pool \<Rightarrow> credit_db \<Rightarrow> credit_db" where
  "put_pool p db = db\<lparr>cd_pools := update_where (\<lambda>x. cp_id x = cp_id p) (\<lambda>_. p) (cd_pools db)\<rparr>"

text \<open>\<open>GraphCreditTransaction.create_transaction\<close>: a row whose key exists is returned untouched.\<close>

definition create_transaction :: "credit_tx \<Rightarrow> credit_db \<Rightarrow> credit_db option" where
  "create_transaction t db =
     (if ct_key t \<noteq> None \<and> list_ex (\<lambda>x. ct_key x = ct_key t) (cd_txs db) then Some db
      else case numeric (ct_amount t) of
             None \<Rightarrow> None
           | Some a \<Rightarrow> Some (db\<lparr>cd_txs := cd_txs db @ [t\<lparr>ct_amount := a\<rparr>]\<rparr>))"

definition tx_row :: "credit_pool \<Rightarrow> credit_tx_type \<Rightarrow> rat \<Rightarrow> tx_key option \<Rightarrow> string option \<Rightarrow> ptime \<Rightarrow> credit_tx" where
  "tx_row p ty a k u now =
     \<lparr>ct_pool = cp_id p, ct_type = ty, ct_amount = a, ct_key = k, ct_user = u, ct_at = now, ct_shortfall = None\<rparr>"

subsection \<open>Creating a pool\<close>

text \<open>
  \<open>graphs\<close> maps a graph to the storage cap of its tier (the tier file's backup limit). The pool
  and its first ledger row are two commits; a graph id is unique in the table.
\<close>

definition new_pool :: "ptime \<Rightarrow> string \<Rightarrow> string \<Rightarrow> string \<Rightarrow> rat \<Rightarrow> rat \<Rightarrow> credit_pool" where
  "new_pool now i g u a limit =
     \<lparr>cp_id = i, cp_graph = g, cp_user = u, cp_balance = a, cp_allocation = a, cp_allocated_at = Some now,
      cp_storage_limit = limit, cp_storage_override = None, cp_warned_at = None\<rparr>"

definition create_for_graph ::
  "(string \<rightharpoonup> rat) \<Rightarrow> ptime \<Rightarrow> string \<Rightarrow> string \<Rightarrow> string \<Rightarrow> rat \<Rightarrow> credit_db \<Rightarrow> credit_db option" where
  "create_for_graph graphs now i g u allocation db =
     (case (graphs g, numeric allocation) of
        (Some cap, Some a) \<Rightarrow>
          (case numeric cap of
             None \<Rightarrow> None
           | Some limit \<Rightarrow>
               if get_by_graph_id db g \<noteq> None \<or> pool_row db i \<noteq> None then None
               else let p = new_pool now i g u a limit
                    in create_transaction (tx_row p TxAllocation allocation (Some (KeyInitial g)) (Some u) now)
                         (db\<lparr>cd_pools := cd_pools db @ [p]\<rparr>))
      | _ \<Rightarrow> None)"

subsection \<open>Consuming\<close>

datatype consumption =
    Consumed rat rat rat
  | Refused rat rat
  | Drained rat rat rat
  | NothingToDrain rat rat
  | ConsumeFailed

definition balance_of :: "credit_db \<Rightarrow> string \<Rightarrow> rat" where
  "balance_of db i = (case pool_row db i of None \<Rightarrow> 0 | Some p \<Rightarrow> cp_balance p)"

text \<open>Both updates are conditional on the row; a row that does not match leaves the balance to be read back.\<close>

definition drain_for_shortfall ::
  "ptime \<Rightarrow> string \<Rightarrow> string option \<Rightarrow> credit_db \<Rightarrow> string \<Rightarrow> rat \<Rightarrow> credit_db \<times> consumption" where
  "drain_for_shortfall now tid u db i cost =
     (case pool_row db i of
        None \<Rightarrow> (db, NothingToDrain cost 0)
      | Some p \<Rightarrow>
          if 0 < cp_balance p \<and> cp_balance p < cost
          then let t = (tx_row p TxConsumption (- cp_balance p) (Some (KeyConsume tid)) (str_or u (Some (cp_user p))) now)
                         \<lparr>ct_shortfall := Some (cost - cp_balance p)\<rparr>
               in case create_transaction t (put_pool (p\<lparr>cp_balance := 0\<rparr>) db) of
                    None \<Rightarrow> (db, ConsumeFailed)
                  | Some db' \<Rightarrow> (db', Drained cost (cp_balance p) (cost - cp_balance p))
          else (db, NothingToDrain cost (cp_balance p)))"

definition debit ::
  "ptime \<Rightarrow> string \<Rightarrow> string option \<Rightarrow> credit_db \<Rightarrow> credit_pool \<Rightarrow> rat \<Rightarrow> credit_db \<times> consumption" where
  "debit now tid u db p cost =
     (case numeric (cp_balance p - cost) of
        None \<Rightarrow> (db, ConsumeFailed)
      | Some b \<Rightarrow>
          (case create_transaction
                  (tx_row p TxConsumption (- cost) (Some (KeyConsume tid)) (str_or u (Some (cp_user p))) now)
                  (put_pool (p\<lparr>cp_balance := b\<rparr>) db) of
             None \<Rightarrow> (db, ConsumeFailed)
           | Some db' \<Rightarrow> (db', Consumed cost (b + cost) b)))"

definition consume_credits_atomic ::
  "ptime \<Rightarrow> string \<Rightarrow> string option \<Rightarrow> bool \<Rightarrow> credit_db \<Rightarrow> string \<Rightarrow> rat \<Rightarrow> credit_db \<times> consumption" where
  "consume_credits_atomic now tid u drain db i cost =
     (case find_row (\<lambda>p. cp_id p = i \<and> cost \<le> cp_balance p) (cd_pools db) of
        Some p \<Rightarrow> debit now tid u db p cost
      | None \<Rightarrow>
          if drain then drain_for_shortfall now tid u db i cost
          else (db, Refused cost (balance_of db i)))"

subsection \<open>Resets\<close>

text \<open>\<open>_expire_unspent\<close>: \<open>seen\<close> is the balance the session holds when it reads the attribute.\<close>

definition expire_unspent ::
  "tx_key option \<Rightarrow> ptime \<Rightarrow> credit_pool \<Rightarrow> rat \<Rightarrow> credit_db \<Rightarrow> credit_db option" where
  "expire_unspent key now p seen db =
     (if seen \<le> 0 then Some db
      else create_transaction (tx_row p TxExpiration (- seen) key (Some (cp_user p)) now) db)"

text \<open>The second commit: an absolute balance, and the row of the allocation.\<close>

definition refill ::
  "tx_key option \<Rightarrow> bool \<Rightarrow> ptime \<Rightarrow> string \<Rightarrow> credit_db \<Rightarrow> credit_db option" where
  "refill key stamp now i db =
     (case pool_row db i of
        None \<Rightarrow> None
      | Some p \<Rightarrow>
          create_transaction (tx_row p TxAllocation (cp_allocation p) key (Some (cp_user p)) now)
            (put_pool (p\<lparr>cp_balance := cp_allocation p,
                        cp_allocated_at := (if stamp then Some now else cp_allocated_at p)\<rparr>) db))"

definition same_month :: "ptime option \<Rightarrow> ptime \<Rightarrow> bool" where
  "same_month a now = (case a of None \<Rightarrow> False
     | Some t \<Rightarrow> yr (time_date t) = yr (time_date now) \<and> mo (time_date t) = mo (time_date now))"

definition expiration_key :: "credit_pool \<Rightarrow> ptime \<Rightarrow> tx_key" where
  "expiration_key p now = KeyExpiration (cp_graph p) (yr (time_date now)) (mo (time_date now))"

definition allocation_key :: "credit_pool \<Rightarrow> ptime \<Rightarrow> tx_key" where
  "allocation_key p now = KeyAllocation (cp_graph p) (yr (time_date now)) (mo (time_date now))"

definition allocate_monthly_credits :: "ptime \<Rightarrow> credit_db \<Rightarrow> string \<Rightarrow> (credit_db \<times> bool) option" where
  "allocate_monthly_credits now db i =
     (case pool_row db i of
        None \<Rightarrow> None
      | Some p \<Rightarrow>
          if same_month (cp_allocated_at p) now then Some (db, False)
          else case expire_unspent (Some (expiration_key p now)) now p (cp_balance p) db of
                 None \<Rightarrow> None
               | Some db1 \<Rightarrow>
                   (case refill (Some (allocation_key p now)) True now i db1 of
                      None \<Rightarrow> None
                    | Some db2 \<Rightarrow> Some (db2, True)))"

text \<open>The administrator's reset, with the amount forfeited.\<close>

definition reset_pool :: "ptime \<Rightarrow> credit_db \<Rightarrow> string \<Rightarrow> (credit_db \<times> rat) option" where
  "reset_pool now db i =
     (case pool_row db i of
        None \<Rightarrow> None
      | Some p \<Rightarrow>
          (case expire_unspent None now p (cp_balance p) db of
             None \<Rightarrow> None
           | Some db1 \<Rightarrow>
               (case refill None False now i db1 of
                  None \<Rightarrow> None
                | Some db2 \<Rightarrow> Some (db2, max 0 (cp_balance p)))))"

subsection \<open>Bonus credits and storage\<close>

definition add_bonus_credits :: "ptime \<Rightarrow> string \<Rightarrow> credit_db \<Rightarrow> string \<Rightarrow> rat \<Rightarrow> credit_db option" where
  "add_bonus_credits now uid db g amount =
     (case get_by_graph_id db g of
        None \<Rightarrow> Some db
      | Some p \<Rightarrow>
          (case numeric (cp_balance p + amount) of
             None \<Rightarrow> None
           | Some b \<Rightarrow>
               create_transaction (tx_row p TxBonus amount (Some (KeyBonus g uid)) (Some (cp_user p)) now)
                 (put_pool (p\<lparr>cp_balance := b\<rparr>) db)))"

definition get_effective_storage_limit :: "credit_pool \<Rightarrow> rat" where
  "get_effective_storage_limit p = (case cp_storage_override p of Some x \<Rightarrow> x | None \<Rightarrow> cp_storage_limit p)"

definition set_storage_override :: "ptime \<Rightarrow> credit_pool \<Rightarrow> rat \<Rightarrow> credit_db \<Rightarrow> credit_db option" where
  "set_storage_override now p gb db =
     (case numeric gb of
        None \<Rightarrow> None
      | Some x \<Rightarrow> create_transaction (tx_row p TxBonus 0 None None now) (put_pool (p\<lparr>cp_storage_override := Some x\<rparr>) db))"

text \<open>The month's consumption, as a positive number.\<close>

definition consumed_this_month :: "ptime \<Rightarrow> credit_db \<Rightarrow> string \<Rightarrow> rat" where
  "consumed_this_month now db i =
     \<bar>\<Sum>t\<leftarrow>filter (\<lambda>t. ct_pool t = i \<and> ct_type t = TxConsumption \<and>
         Time (Date (yr (time_date now)) (mo (time_date now)) 1) 0 \<le> ct_at t) (cd_txs db). ct_amount t\<bar>"

subsection \<open>The bulk allocation\<close>

text \<open>
  \<open>bulk_allocate_monthly_credits\<close>: the pools due at the first of the month (with the time of day
  kept), the inactive graphs skipped. It stops at the first row that raises.
\<close>

fun allocate_each :: "(string \<Rightarrow> bool) \<Rightarrow> ptime \<Rightarrow> credit_pool list \<Rightarrow> credit_db \<Rightarrow> (credit_db \<times> nat \<times> rat) option" where
  "allocate_each active now [] db = Some (db, 0, 0)"
| "allocate_each active now (p # ps) db =
     (if \<not> active (cp_graph p) then allocate_each active now ps db
      else case allocate_monthly_credits now db (cp_id p) of
             None \<Rightarrow> None
           | Some (db', got) \<Rightarrow>
               (case allocate_each active now ps db' of
                  None \<Rightarrow> None
                | Some (db'', n, granted) \<Rightarrow>
                    Some (db'', (if got then n + 1 else n), (if got then granted + cp_allocation p else granted))))"

definition bulk_allocate_monthly_credits ::
  "(string \<Rightarrow> bool) \<Rightarrow> ptime \<Rightarrow> credit_db \<Rightarrow> (credit_db \<times> nat \<times> rat) option" where
  "bulk_allocate_monthly_credits active now db =
     (let cutoff = Time (Date (yr (time_date now)) (mo (time_date now)) 1) (time_us now)
      in allocate_each active now
           (filter (\<lambda>p. case cp_allocated_at p of None \<Rightarrow> True | Some t \<Rightarrow> t < cutoff) (cd_pools db)) db)"

end
