(* ===== verification/RepoCredits.thy ===== *)
theory RepoCredits
  imports Credits
begin

text \<open>
  Credit pools of shared-repository subscriptions
  (\<open>models/core/user/user_repository_credits.py\<close>): consumption, the monthly allocation, plan
  changes and reservations. A reservation lives in the metadata of its CONSUMPTION row
  (\<open>rt_reservation\<close>, \<open>rt_status\<close>, \<open>rt_expires\<close>); the code finds it by a substring of that
  text, which is the id itself for ids without the LIKE metacharacters.
\<close>

record repo_access =
  ra_id :: string
  ra_user :: string
  ra_repository :: string
  ra_plan :: string
  ra_active :: bool

record repo_pool =
  rp_id :: string
  rp_access :: string
  rp_balance :: rat
  rp_allocation :: rat
  rp_consumed :: rat
  rp_last :: "ptime option"
  rp_next :: "ptime option"
  rp_active :: bool

record repo_tx =
  rt_id :: string
  rt_pool :: string
  rt_type :: credit_tx_type
  rt_amount :: rat
  rt_reservation :: "string option"
  rt_status :: "string option"
  rt_expires :: "ptime option"
  rt_at :: ptime

record repo_db =
  rd_access :: "repo_access list"
  rd_pools :: "repo_pool list"
  rd_txs :: "repo_tx list"

definition repo_row :: "repo_db \<Rightarrow> string \<Rightarrow> repo_pool option" where
  "repo_row db i = find_row (\<lambda>p. rp_id p = i) (rd_pools db)"

definition put_repo :: "repo_pool \<Rightarrow> repo_db \<Rightarrow> repo_db" where
  "put_repo p db = db\<lparr>rd_pools := update_where (\<lambda>x. rp_id x = rp_id p) (\<lambda>_. p) (rd_pools db)\<rparr>"

definition get_user_repository_credits :: "repo_db \<Rightarrow> string \<Rightarrow> string \<Rightarrow> repo_pool option" where
  "get_user_repository_credits db u r =
     (case find_row (\<lambda>a. ra_user a = u \<and> ra_repository a = r \<and> ra_active a) (rd_access db) of
        None \<Rightarrow> None
      | Some a \<Rightarrow> find_row (\<lambda>p. rp_access p = ra_id a) (rd_pools db))"

definition create_repo_transaction :: "repo_tx \<Rightarrow> repo_db \<Rightarrow> repo_db option" where
  "create_repo_transaction t db = (case numeric (rt_amount t) of
     None \<Rightarrow> None | Some a \<Rightarrow> Some (db\<lparr>rd_txs := rd_txs db @ [t\<lparr>rt_amount := a\<rparr>]\<rparr>))"

definition plain_tx :: "string \<Rightarrow> string \<Rightarrow> credit_tx_type \<Rightarrow> rat \<Rightarrow> ptime \<Rightarrow> repo_tx" where
  "plain_tx tid i ty a now =
     \<lparr>rt_id = tid, rt_pool = i, rt_type = ty, rt_amount = a, rt_reservation = None, rt_status = None,
      rt_expires = None, rt_at = now\<rparr>"

definition first_of_next_month :: "ptime \<Rightarrow> ptime" where
  "first_of_next_month now =
     (let y = yr (time_date now); m = mo (time_date now)
      in if m = 12 then Time (Date (y + 1) 1 1) 0 else Time (Date y (m + 1) 1) 0)"

definition create_for_access :: "ptime \<Rightarrow> string \<Rightarrow> string \<Rightarrow> string \<Rightarrow> int \<Rightarrow> repo_db \<Rightarrow> repo_db option" where
  "create_for_access now i tid access allocation db =
     (case numeric (of_int allocation) of
        None \<Rightarrow> None
      | Some a \<Rightarrow>
          if list_ex (\<lambda>p. rp_access p = access \<or> rp_id p = i) (rd_pools db) then None
          else create_repo_transaction (plain_tx tid i TxAllocation a now)
                 (db\<lparr>rd_pools := rd_pools db @
                   [\<lparr>rp_id = i, rp_access = access, rp_balance = a, rp_allocation = a, rp_consumed = 0,
                     rp_last = Some now, rp_next = Some (first_of_next_month now), rp_active = True\<rparr>]\<rparr>))"

subsection \<open>Consuming\<close>

definition repo_drain :: "ptime \<Rightarrow> string \<Rightarrow> repo_db \<Rightarrow> repo_pool \<Rightarrow> rat \<Rightarrow> repo_db option" where
  "repo_drain now tid db p amount =
     (if 0 < rp_balance p \<and> rp_balance p < amount
      then (case numeric (rp_consumed p + rp_balance p) of
              None \<Rightarrow> None
            | Some c \<Rightarrow> create_repo_transaction (plain_tx tid (rp_id p) TxConsumption (- rp_balance p) now)
                (put_repo (p\<lparr>rp_balance := 0, rp_consumed := c\<rparr>) db))
      else Some db)"

definition consume_repo_credits ::
  "ptime \<Rightarrow> string \<Rightarrow> bool \<Rightarrow> repo_db \<Rightarrow> string \<Rightarrow> rat \<Rightarrow> (repo_db \<times> bool) option" where
  "consume_repo_credits now tid drain db i amount =
     (case repo_row db i of
        None \<Rightarrow> None
      | Some p \<Rightarrow>
          if \<not> rp_active p then Some (db, False)
          else if amount \<le> rp_balance p
          then (case (numeric (rp_balance p - amount), numeric (rp_consumed p + amount)) of
                  (Some b, Some c) \<Rightarrow>
                    (case create_repo_transaction (plain_tx tid i TxConsumption (- amount) now)
                            (put_repo (p\<lparr>rp_balance := b, rp_consumed := c\<rparr>) db) of
                       None \<Rightarrow> None | Some db' \<Rightarrow> Some (db', True))
                | _ \<Rightarrow> None)
          else if drain
          then (case repo_drain now tid db p amount of None \<Rightarrow> None | Some db' \<Rightarrow> Some (db', False))
          else Some (db, False))"

subsection \<open>Allocation and plan changes\<close>

definition max_balance :: rat where
  "max_balance = 9999999999 / 100"

definition allocate_repo_credits :: "ptime \<Rightarrow> string \<Rightarrow> repo_db \<Rightarrow> string \<Rightarrow> (repo_db \<times> bool) option" where
  "allocate_repo_credits now tid db i =
     (case repo_row db i of
        None \<Rightarrow> None
      | Some p \<Rightarrow>
          if same_month (rp_last p) now then Some (db, False)
          else case create_repo_transaction (plain_tx tid i TxAllocation (rp_allocation p) now)
                      (put_repo (p\<lparr>rp_consumed := 0, rp_balance := min (rp_allocation p) max_balance,
                                  rp_last := Some now, rp_next := Some (first_of_next_month now)\<rparr>) db) of
                 None \<Rightarrow> None | Some db' \<Rightarrow> Some (db', True))"

definition update_monthly_allocation ::
  "ptime \<Rightarrow> string \<Rightarrow> bool \<Rightarrow> repo_db \<Rightarrow> string \<Rightarrow> rat \<Rightarrow> repo_db option" where
  "update_monthly_allocation now tid immediate db i new =
     (case (repo_row db i, numeric new) of
        (Some p, Some a) \<Rightarrow>
          (let diff = new - rp_allocation p in
           if immediate \<and> 0 < diff then
             (case numeric (min (rp_balance p + diff) max_balance) of
                None \<Rightarrow> None
              | Some b \<Rightarrow> create_repo_transaction (plain_tx tid i TxBonus diff now)
                  (put_repo (p\<lparr>rp_allocation := a, rp_balance := b\<rparr>) db))
           else if immediate \<and> diff < 0 then
             (let deduction = min (- diff) (max 0 (rp_balance p)) in
              if 0 < deduction then
                (case numeric (rp_balance p - deduction) of
                   None \<Rightarrow> None
                 | Some b \<Rightarrow> create_repo_transaction (plain_tx tid i TxBonus (- deduction) now)
                     (put_repo (p\<lparr>rp_allocation := a, rp_balance := b\<rparr>) db))
              else Some (put_repo (p\<lparr>rp_allocation := a\<rparr>) db))
           else Some (put_repo (p\<lparr>rp_allocation := a\<rparr>) db))
      | _ \<Rightarrow> None)"

subsection \<open>Reservations\<close>

datatype reservation_result =
    Reserved rat
  | NotReserved string
  | ReservationNotFound
  | ReservationExpired
  | Confirmed rat
  | Cancelled rat
  | ReservationFailed

definition find_reservation :: "repo_db \<Rightarrow> string \<Rightarrow> string \<Rightarrow> repo_tx option" where
  "find_reservation db i rid =
     find_row (\<lambda>t. rt_pool t = i \<and> rt_reservation t = Some rid \<and> rt_type t = TxConsumption) (rd_txs db)"

definition put_tx :: "repo_tx \<Rightarrow> repo_db \<Rightarrow> repo_db" where
  "put_tx t db = db\<lparr>rd_txs := update_where (\<lambda>x. rt_id x = rt_id t) (\<lambda>_. t) (rd_txs db)\<rparr>"

text \<open>\<open>expires\<close> is the current time plus the timeout.\<close>

definition reserve_credits_atomic ::
  "ptime \<Rightarrow> ptime \<Rightarrow> string \<Rightarrow> repo_db \<Rightarrow> string \<Rightarrow> string \<Rightarrow> rat \<Rightarrow> repo_db \<times> reservation_result" where
  "reserve_credits_atomic now expires tid db i rid cost =
     (case find_row (\<lambda>p. rp_id p = i \<and> cost \<le> rp_balance p \<and> rp_active p) (rd_pools db) of
        None \<Rightarrow> (db, NotReserved
          (if (case repo_row db i of None \<Rightarrow> True | Some p \<Rightarrow> \<not> rp_active p)
           then ''Repository credit pool is inactive'' else ''Insufficient credits for reservation''))
      | Some p \<Rightarrow>
          (case numeric (rp_balance p - cost) of
             None \<Rightarrow> (db, ReservationFailed)
           | Some b \<Rightarrow>
               (case create_repo_transaction
                       ((plain_tx tid i TxConsumption (- cost) now)
                          \<lparr>rt_reservation := Some rid, rt_status := Some ''reserved'', rt_expires := Some expires\<rparr>)
                       (put_repo (p\<lparr>rp_balance := b\<rparr>) db) of
                  None \<Rightarrow> (db, ReservationFailed)
                | Some db' \<Rightarrow> (db', Reserved cost))))"

text \<open>The refund does not look at the status of the reservation.\<close>

definition cancel_credit_reservation ::
  "ptime \<Rightarrow> string \<Rightarrow> repo_db \<Rightarrow> string \<Rightarrow> string \<Rightarrow> repo_db \<times> reservation_result" where
  "cancel_credit_reservation now tid db i rid =
     (case find_reservation db i rid of
        None \<Rightarrow> (db, ReservationNotFound)
      | Some t \<Rightarrow>
          (let refund = \<bar>rt_amount t\<bar>;
               credited = (case repo_row db i of
                  None \<Rightarrow> Some db
                | Some p \<Rightarrow> (case numeric (rp_balance p + refund) of
                    None \<Rightarrow> None | Some b \<Rightarrow> Some (put_repo (p\<lparr>rp_balance := b\<rparr>) db)))
           in case credited of
                None \<Rightarrow> (db, ReservationFailed)
              | Some db1 \<Rightarrow>
                  (case create_repo_transaction
                          ((plain_tx tid i TxRefund refund now)\<lparr>rt_reservation := Some rid\<rparr>) db1 of
                     None \<Rightarrow> (db, ReservationFailed)
                   | Some db2 \<Rightarrow> (put_tx (t\<lparr>rt_status := Some ''cancelled''\<rparr>) db2, Cancelled refund))))"

definition confirm_credit_reservation ::
  "ptime \<Rightarrow> string \<Rightarrow> repo_db \<Rightarrow> string \<Rightarrow> string \<Rightarrow> repo_db \<times> reservation_result" where
  "confirm_credit_reservation now tid db i rid =
     (case find_reservation db i rid of
        None \<Rightarrow> (db, ReservationNotFound)
      | Some t \<Rightarrow>
          if (case rt_expires t of None \<Rightarrow> False | Some e \<Rightarrow> e < now)
          then (fst (cancel_credit_reservation now tid db i rid), ReservationExpired)
          else (put_tx (t\<lparr>rt_status := Some ''confirmed'', rt_at := now\<rparr>) db, Confirmed \<bar>rt_amount t\<bar>))"

end
