(* ===== verification/CreditService.thy ===== *)
theory CreditService
  imports RepoCredits Texts
begin

text \<open>
  The credit service (\<open>operations/graph/credit_service.py\<close>): routing a charge to the pool of a
  graph or of a repository subscription, the balance cache, the preflight and the pricing of AI
  tokens. The state is both stores and one process's balance cache, whose entries may be gone
  at any read; usage rows and metrics are left out.
\<close>

subsection \<open>Graph ids\<close>

definition shared_repositories :: "string list" where
  "shared_repositories = [''sec'']"

text \<open>\<open>split("_", 1)\<close> on a text with an underscore.\<close>

definition split_underscore :: "string \<Rightarrow> string \<times> string" where
  "split_underscore g = (takeWhile (\<lambda>c. c \<noteq> CHR ''_'') g, tl (dropWhile (\<lambda>c. c \<noteq> CHR ''_'') g))"

definition is_shared_repository_or_subgraph :: "string \<Rightarrow> bool" where
  "is_shared_repository_or_subgraph g \<longleftrightarrow> g \<in> set shared_repositories \<or>
     CHR ''_'' \<in> set g \<and> fst (split_underscore g) \<in> set shared_repositories"

definition is_subgraph_id :: "string \<Rightarrow> bool" where
  "is_subgraph_id g \<longleftrightarrow> g \<noteq> [] \<and> g \<notin> set shared_repositories \<and> CHR ''_'' \<in> set g \<and>
     (case split_underscore g of (parent, sub) \<Rightarrow>
        sub \<noteq> [] \<and> length sub \<le> 20 \<and> list_all alnum sub \<and>
        (take 2 parent = ''kg'' \<and> 18 \<le> length parent \<and> list_all hex_char (drop 2 parent) \<or>
         parent \<in> set shared_repositories))"

definition parse_graph_id :: "string \<Rightarrow> string \<times> string option" where
  "parse_graph_id g = (if is_subgraph_id g then (fst (split_underscore g), Some (snd (split_underscore g))) else (g, None))"

subsection \<open>Charging\<close>

record credit_state =
  cs_graphs :: credit_db
  cs_repos :: repo_db
  cs_cache :: "string \<rightharpoonup> rat"

datatype charge_error =
    UserRequired
  | NoPool string
  | NoAddOn
  | PoolShort
  | ChargeFailed

datatype charge =
    Charged rat rat
  | FreeCached
  | NotCharged charge_error rat
  | ChargeRaised

definition consume_shared_repository_credits ::
  "ptime \<Rightarrow> string \<Rightarrow> credit_state \<Rightarrow> string \<Rightarrow> string \<Rightarrow> rat \<Rightarrow> bool \<Rightarrow> credit_state \<times> charge" where
  "consume_shared_repository_credits now tid s u r cost drain =
     (case get_user_repository_credits (cs_repos s) u r of
        None \<Rightarrow> (s, NotCharged NoAddOn 0)
      | Some p \<Rightarrow>
          (case consume_repo_credits now tid drain (cs_repos s) (rp_id p) cost of
             None \<Rightarrow> (s, ChargeRaised)
           | Some (db, ok) \<Rightarrow>
               if ok then (s\<lparr>cs_repos := db\<rparr>, Charged cost (case repo_row db (rp_id p) of Some q \<Rightarrow> rp_balance q | None \<Rightarrow> 0))
               else (s\<lparr>cs_repos := db\<rparr>, NotCharged PoolShort 0)))"

definition charge_outcome :: "string \<Rightarrow> credit_state \<Rightarrow> credit_db \<times> consumption \<Rightarrow> credit_state \<times> charge" where
  "charge_outcome g s r = (case r of (db, c) \<Rightarrow>
     (let s1 = s\<lparr>cs_graphs := db, cs_cache := (cs_cache s)(g := None)\<rparr> in
      case c of
        Consumed cost _ new \<Rightarrow> (s1\<lparr>cs_cache := (cs_cache s)(g := Some new)\<rparr>, Charged cost new)
      | Refused _ _ \<Rightarrow> (s1, NotCharged PoolShort 0)
      | Drained _ drained _ \<Rightarrow> (s1\<lparr>cs_cache := (cs_cache s)(g := Some 0)\<rparr>, NotCharged PoolShort drained)
      | NothingToDrain _ _ \<Rightarrow> (s1, NotCharged PoolShort 0)
      | ConsumeFailed \<Rightarrow> (s1, NotCharged ChargeFailed 0)))"

definition consume_credits ::
  "ptime \<Rightarrow> string \<Rightarrow> credit_state \<Rightarrow> string \<Rightarrow> string option \<Rightarrow> rat \<Rightarrow> bool \<Rightarrow> bool \<Rightarrow> credit_state \<times> charge" where
  "consume_credits now tid s g u cost cached drain =
     (if cached then (s, FreeCached)
      else if is_shared_repository_or_subgraph g then
        (if \<not> truthy u then (s, NotCharged UserRequired 0)
         else consume_shared_repository_credits now tid s (the u) (fst (parse_graph_id g)) cost drain)
      else (case get_by_graph_id (cs_graphs s) (fst (parse_graph_id g)) of
              None \<Rightarrow> (s, NotCharged (NoPool (fst (parse_graph_id g))) 0)
            | Some p \<Rightarrow> charge_outcome (fst (parse_graph_id g)) s
                (consume_credits_atomic now tid u drain (cs_graphs s) (cp_id p) cost)))"

subsection \<open>The preflight\<close>

text \<open>Reads the cache first and fills it from the database; debits nothing.\<close>

definition check_credit_balance ::
  "credit_state \<Rightarrow> string \<Rightarrow> string option \<Rightarrow> rat \<Rightarrow> credit_state \<times> bool" where
  "check_credit_balance s g u required =
     (let parent = fst (parse_graph_id g) in
      if is_shared_repository_or_subgraph g then
        (s, truthy u \<and> (case get_user_repository_credits (cs_repos s) (the u) parent of
              None \<Rightarrow> False | Some p \<Rightarrow> required \<le> rp_balance p))
      else case cs_cache s parent of
             Some b \<Rightarrow> (s, required \<le> b)
           | None \<Rightarrow>
               (case get_by_graph_id (cs_graphs s) parent of
                  None \<Rightarrow> (s, False)
                | Some p \<Rightarrow> (s\<lparr>cs_cache := (cs_cache s)(parent := Some (cp_balance p))\<rparr>, required \<le> cp_balance p)))"

subsection \<open>Token pricing\<close>

record token_price =
  tp_input :: rat
  tp_output :: rat
  tp_cache_read :: rat
  tp_cache_write :: rat

definition sonnet_4 :: token_price where
  "sonnet_4 = \<lparr>tp_input = 33 / 10, tp_output = 165 / 10, tp_cache_read = 33 / 100, tp_cache_write = 4125 / 1000\<rparr>"

definition sonnet_5 :: token_price where
  "sonnet_5 = \<lparr>tp_input = 22 / 10, tp_output = 11, tp_cache_read = 22 / 100, tp_cache_write = 275 / 100\<rparr>"

definition token_pricing :: "string \<rightharpoonup> token_price" where
  "token_pricing = map_of [(''anthropic_claude_4_sonnet'', sonnet_4), (''anthropic_claude_5_sonnet'', sonnet_5)]"

definition model_pricing :: "string \<rightharpoonup> string" where
  "model_pricing = map_of
     [(''us.anthropic.claude-sonnet-5'', ''anthropic_claude_5_sonnet''),
      (''us.anthropic.claude-sonnet-4-6'', ''anthropic_claude_4_sonnet''),
      (''us.anthropic.claude-sonnet-4-5-20250929-v1:0'', ''anthropic_claude_4_sonnet''),
      (''us.anthropic.claude-sonnet-4-20250514-v1:0'', ''anthropic_claude_4_sonnet''),
      (''claude-4-sonnet'', ''anthropic_claude_4_sonnet''),
      (''claude-4.1-sonnet'', ''anthropic_claude_4_sonnet'')]"

definition price_of :: "string \<Rightarrow> token_price" where
  "price_of model =
     (let key = (case model_pricing (lower model) of Some k \<Rightarrow> k | None \<Rightarrow> ''anthropic_claude_4_sonnet'')
      in case token_pricing key of Some p \<Rightarrow> p | None \<Rightarrow> sonnet_4)"

definition apply_minimum_charge :: "rat \<Rightarrow> rat" where
  "apply_minimum_charge cost = (if cost \<le> 0 then 0 else max cost 1)"

definition token_cost :: "string \<Rightarrow> int \<Rightarrow> int \<Rightarrow> int \<Rightarrow> int \<Rightarrow> rat" where
  "token_cost model i q r w =
     (let p = price_of model in apply_minimum_charge
        (of_int i / 1000 * tp_input p + of_int q / 1000 * tp_output p +
         of_int r / 1000 * tp_cache_read p + of_int w / 1000 * tp_cache_write p))"

definition consume_ai_tokens ::
  "ptime \<Rightarrow> string \<Rightarrow> credit_state \<Rightarrow> string \<Rightarrow> string option \<Rightarrow> string \<Rightarrow> int \<Rightarrow> int \<Rightarrow> int \<Rightarrow> int \<Rightarrow> credit_state \<times> charge" where
  "consume_ai_tokens now tid s g u model i q r w =
     consume_credits now tid s g u (token_cost model i q r w) False True"

end
