(* ===== verification/CreditFacts.thy ===== *)
theory CreditFacts
  imports CreditService
begin

text \<open>
  What the credit ledgers promise: a graph's pool is never overdrawn and its ledger foots
  against the balance, up to a cent for each charge that falls on half a cent and up to the
  charges a reset overtakes; and what plan changes and reservations do to a repository pool.
\<close>

subsection \<open>Rounding\<close>

definition cents :: "rat \<Rightarrow> bool" where
  "cents x \<longleftrightarrow> x * 100 = of_int \<lfloor>x * 100\<rfloor>"

definition half_cent :: "rat \<Rightarrow> bool" where
  "half_cent c \<longleftrightarrow> c * 100 - of_int \<lfloor>c * 100\<rfloor> = 1 / 2"

lemma centsI: "x * 100 = of_int k \<Longrightarrow> cents x"
  by (simp add: cents_def)

lemma cents_of_int [simp]: "cents (of_int k / 100)"
  by (rule centsI [of _ k]) simp

lemma cents_0 [simp]: "cents 0"
  by (simp add: cents_def)

lemma cents_minus: "cents x \<Longrightarrow> cents (- x)"
  by (metis centsI cents_def minus_mult_left of_int_minus)

lemma cents_add: "cents x \<Longrightarrow> cents y \<Longrightarrow> cents (x + y)"
proof -
  assume "cents x" "cents y"
  then have "(x + y) * 100 = of_int (\<lfloor>x * 100\<rfloor> + \<lfloor>y * 100\<rfloor>)" by (simp add: cents_def algebra_simps)
  then show ?thesis by (rule centsI)
qed

lemma cents_diff: "cents x \<Longrightarrow> cents y \<Longrightarrow> cents (x - y)"
  using cents_add [of x "- y"] cents_minus [of y] by simp

lemma to_cents_cents [simp]: "cents (to_cents x)"
  by (simp add: to_cents_def cents_minus)

lemma to_cents_id: "cents x \<Longrightarrow> to_cents x = x"
proof -
  assume "cents x"
  then obtain k :: int where k: "x = of_int k / 100" by (metis cents_def nonzero_eq_divide_eq zero_neq_numeral)
  have "\<lfloor>of_int k + 1 / 2 :: rat\<rfloor> = k" "\<lfloor>- of_int k + 1 / 2 :: rat\<rfloor> = - k"
    by (simp_all add: floor_eq_iff)
  then show ?thesis by (simp add: to_cents_def k)
qed

lemma to_cents_minus: "to_cents (- x) = - to_cents x"
  by (simp add: to_cents_def floor_eq_iff)

lemma half_cent_cents: "cents c \<Longrightarrow> \<not> half_cent c"
  by (simp add: cents_def half_cent_def)

lemma to_cents_debit:
  assumes "cents b" "0 \<le> c" "c \<le> b"
  shows "to_cents (b - c) = b - to_cents c + (if half_cent c then 1 / 100 else 0)"
proof -
  define k n where "k = \<lfloor>b * 100\<rfloor>" and "n = \<lfloor>c * 100\<rfloor>"
  define f where "f = c * 100 - of_int n"
  have f: "0 \<le> f" "f < 1" unfolding f_def n_def by linarith+
  have c: "c * 100 = of_int n + f" by (simp add: f_def)
  have b: "b * 100 = of_int k" using assms(1) by (simp add: cents_def k_def)
  have "(b - c) * 100 + 1 / 2 = of_int (k - n) + (1 / 2 - f)" using b c by (simp add: left_diff_distrib)
  then have "\<lfloor>(b - c) * 100 + 1 / 2\<rfloor> = k - n + \<lfloor>1 / 2 - f\<rfloor>"
    by (simp only: int_add_floor)
  moreover have "\<lfloor>1 / 2 - f\<rfloor> = (if f \<le> 1 / 2 then 0 else - 1)" using f by (simp add: floor_eq_iff)
  moreover have "\<lfloor>c * 100 + 1 / 2\<rfloor> = n + (if 1 / 2 \<le> f then 1 else 0)"
    unfolding c using f by (simp add: floor_eq_iff)
  moreover have "half_cent c \<longleftrightarrow> f = 1 / 2" by (simp add: half_cent_def f_def n_def)
  ultimately show ?thesis
    using assms b by (auto simp: to_cents_def field_simps)
qed

lemma to_cents_nonneg: "0 \<le> x \<Longrightarrow> 0 \<le> to_cents x"
  by (simp add: to_cents_def)

lemma numeric_cents: "cents x \<Longrightarrow> \<bar>x\<bar> < 100000000 \<Longrightarrow> numeric x = Some x"
  by (simp add: numeric_def to_cents_id)

lemma numeric_Some: "numeric x = Some y \<longleftrightarrow> y = to_cents x \<and> \<bar>to_cents x\<bar> < 100000000"
  by (auto simp: numeric_def)

subsection \<open>The ledger of a pool\<close>

definition ledger_sum :: "credit_db \<Rightarrow> string \<Rightarrow> rat" where
  "ledger_sum db i = (\<Sum>t\<leftarrow>filter (\<lambda>t. ct_pool t = i) (cd_txs db). ct_amount t)"

text \<open>How far the balance is above the sum of the ledger.\<close>

definition drift :: "credit_db \<Rightarrow> string \<Rightarrow> rat" where
  "drift db i = balance_of db i - ledger_sum db i"

definition key_fresh :: "tx_key option \<Rightarrow> credit_db \<Rightarrow> bool" where
  "key_fresh k db \<longleftrightarrow> k = None \<or> (\<forall>t\<in>set (cd_txs db). ct_key t \<noteq> k)"

definition month_le :: "int \<Rightarrow> int \<Rightarrow> ptime \<Rightarrow> bool" where
  "month_le y m t \<longleftrightarrow> y < yr (time_date t) \<or> y = yr (time_date t) \<and> m \<le> mo (time_date t)"

definition money_ok :: "rat \<Rightarrow> bool" where
  "money_ok x \<longleftrightarrow> cents x \<and> 0 \<le> x \<and> x < 100000000"

definition pool_ok :: "credit_pool \<Rightarrow> bool" where
  "pool_ok p \<longleftrightarrow> money_ok (cp_balance p) \<and> money_ok (cp_allocation p)"

text \<open>A dated key belongs to a graph whose pool was allocated in that month or later.\<close>

definition key_ok :: "credit_pool list \<Rightarrow> tx_key option \<Rightarrow> bool" where
  "key_ok ps k = (case k of
     Some (KeyInitial g) \<Rightarrow> (\<exists>p\<in>set ps. cp_graph p = g)
   | Some (KeyAllocation g y m) \<Rightarrow> (\<exists>p\<in>set ps. cp_graph p = g \<and> (\<exists>a. cp_allocated_at p = Some a \<and> month_le y m a))
   | Some (KeyExpiration g y m) \<Rightarrow> (\<exists>p\<in>set ps. cp_graph p = g \<and> (\<exists>a. cp_allocated_at p = Some a \<and> month_le y m a))
   | _ \<Rightarrow> True)"

definition credit_ok :: "credit_db \<Rightarrow> bool" where
  "credit_ok db \<longleftrightarrow> distinct (map cp_id (cd_pools db)) \<and> distinct (map cp_graph (cd_pools db)) \<and>
     (\<forall>p\<in>set (cd_pools db). pool_ok p) \<and>
     (\<forall>t\<in>set (cd_txs db). ct_pool t \<in> cp_id ` set (cd_pools db) \<and> key_ok (cd_pools db) (ct_key t))"

text \<open>An allocation date that does not move back.\<close>

definition later_pool :: "credit_pool \<Rightarrow> credit_pool \<Rightarrow> bool" where
  "later_pool p q \<longleftrightarrow> cp_id q = cp_id p \<and> cp_graph q = cp_graph p \<and>
     (\<forall>a. cp_allocated_at p = Some a \<longrightarrow>
        (\<exists>b. cp_allocated_at q = Some b \<and> month_le (yr (time_date a)) (mo (time_date a)) b))"

lemma month_le_refl [simp]: "month_le (yr (time_date a)) (mo (time_date a)) a"
  by (simp add: month_le_def)

lemma month_le_trans: "month_le y m a \<Longrightarrow> month_le (yr (time_date a)) (mo (time_date a)) b \<Longrightarrow> month_le y m b"
  by (auto simp: month_le_def)

lemma later_pool_keeps: "cp_allocated_at q = cp_allocated_at p \<Longrightarrow> cp_id q = cp_id p \<Longrightarrow> cp_graph q = cp_graph p \<Longrightarrow> later_pool p q"
  by (auto simp: later_pool_def)

lemma key_ok_mono:
  assumes "key_ok ps k" "\<And>p. p \<in> set ps \<Longrightarrow> \<exists>q\<in>set qs. later_pool p q"
  shows "key_ok qs k"
proof -
  have "\<exists>q\<in>set qs. cp_graph q = g \<and> (\<exists>b. cp_allocated_at q = Some b \<and> month_le y m b)"
    if "\<exists>p\<in>set ps. cp_graph p = g \<and> (\<exists>a. cp_allocated_at p = Some a \<and> month_le y m a)" for g y m
  proof -
    from that obtain p a where p: "p \<in> set ps" "cp_graph p = g" "cp_allocated_at p = Some a" "month_le y m a"
      by blast
    from assms(2) [OF p(1)] obtain q where "q \<in> set qs" "later_pool p q" by blast
    with p show ?thesis unfolding later_pool_def using month_le_trans by metis
  qed
  moreover have "\<exists>q\<in>set qs. cp_graph q = g" if "\<exists>p\<in>set ps. cp_graph p = g" for g
    using that assms(2) unfolding later_pool_def by metis
  ultimately show ?thesis using assms(1) by (auto simp: key_ok_def split: option.splits tx_key.splits)
qed

interpretation pools: row_store cd_pools "\<lambda>p db. Inr (put_pool p db) :: unit + credit_db" cp_id "\<lambda>_. True"
  by unfold_locales (auto simp: put_pool_def)

lemma pool_row_put:
  assumes "pool_row db (cp_id q) = Some p"
  shows "pool_row (put_pool q db) i = (if i = cp_id q then Some q else pool_row db i)"
  using pools.lookup_put_same [OF refl, of q db p] pools.lookup_put_other [OF refl, of i q db] assms
  by (auto simp: pool_row_def)

lemma pool_row_Some: "pool_row db i = Some p \<Longrightarrow> p \<in> set (cd_pools db) \<and> cp_id p = i"
  unfolding pool_row_def by (rule find_row_Some)

lemma conditional_row:
  assumes "distinct (map cp_id (cd_pools db))"
  shows "find_row (\<lambda>p. cp_id p = i \<and> P p) (cd_pools db) =
    (case pool_row db i of None \<Rightarrow> None | Some p \<Rightarrow> if P p then Some p else None)"
  unfolding pool_row_def by (rule conditional_find [OF assms])

lemma credit_ok_put:
  assumes "credit_ok db" "pool_row db j = Some p" "later_pool p q" "pool_ok q"
  shows "credit_ok (put_pool q db)"
proof -
  have p: "p \<in> set (cd_pools db)" "cp_id p = j" using pool_row_Some [OF assms(2)] by auto
  have q: "cp_id q = j" "cp_graph q = cp_graph p" using assms(3) p by (simp_all add: later_pool_def)
  have d: "distinct (map cp_id (cd_pools db))" using assms(1) by (simp add: credit_ok_def)
  have only: "x = p" if "x \<in> set (cd_pools db)" "cp_id x = j" for x
    using d p that by (metis distinct_map inj_on_eq_iff)
  have "(if cp_id x = cp_id q then q else x) = (if x = p then q else x)" if "x \<in> set (cd_pools db)" for x
    using only [OF that] p(2) q(1) by metis
  then have pools: "cd_pools (put_pool q db) = map (\<lambda>x. if x = p then q else x) (cd_pools db)"
    by (simp add: put_pool_def update_where_def cong: map_cong)
  have keys: "map cp_id (cd_pools (put_pool q db)) = map cp_id (cd_pools db)"
    "map cp_graph (cd_pools (put_pool q db)) = map cp_graph (cd_pools db)"
    unfolding pools using q p by auto
  have later: "\<exists>y\<in>set (cd_pools (put_pool q db)). later_pool x y" if "x \<in> set (cd_pools db)" for x
    using that assms(3) later_pool_keeps [of x x] unfolding pools by (cases "x = p") auto
  have "key_ok (cd_pools (put_pool q db)) k" if "key_ok (cd_pools db) k" for k
    using key_ok_mono [OF that later] .
  moreover have "cp_id ` set (cd_pools (put_pool q db)) = cp_id ` set (cd_pools db)"
    using keys(1) by (metis list.set_map)
  moreover have "\<forall>x\<in>set (cd_pools (put_pool q db)). pool_ok x"
    unfolding pools using assms(1,4) by (auto simp: credit_ok_def)
  moreover have "cd_txs (put_pool q db) = cd_txs db" by (simp add: put_pool_def)
  ultimately show ?thesis
    using assms(1) unfolding credit_ok_def keys by simp
qed

lemma create_transaction_Some:
  assumes "create_transaction t db = Some db'" "key_fresh (ct_key t) db"
  shows "db' = db\<lparr>cd_txs := cd_txs db @ [t\<lparr>ct_amount := to_cents (ct_amount t)\<rparr>]\<rparr>"
  using assms by (auto simp: create_transaction_def key_fresh_def list_ex_iff numeric_Some split: if_splits option.splits)

lemma create_transaction_foots:
  assumes "create_transaction t db = Some db'" "key_fresh (ct_key t) db" "credit_ok db"
    "ct_pool t \<in> cp_id ` set (cd_pools db)" "key_ok (cd_pools db) (ct_key t)"
  shows "credit_ok db' \<and> cd_pools db' = cd_pools db \<and>
    drift db' i = drift db i - (if ct_pool t = i then to_cents (ct_amount t) else 0)"
  using create_transaction_Some [OF assms(1,2)] assms(3-5)
  by (auto simp: credit_ok_def drift_def ledger_sum_def balance_of_def pool_row_def)

text \<open>One commit: a new version of a pool's row and a ledger row.\<close>

lemma commit_foots:
  assumes "create_transaction t (put_pool q db) = Some db'" "credit_ok db" "pool_row db j = Some p"
    "later_pool p q" "pool_ok q" "ct_pool t = j" "key_fresh (ct_key t) db" "key_ok (cd_pools (put_pool q db)) (ct_key t)"
  shows "credit_ok db' \<and> pool_row db' j = Some q \<and>
    drift db' i = drift db i + (if i = j then cp_balance q - cp_balance p - to_cents (ct_amount t) else 0)"
proof -
  have q: "cp_id q = j" using pool_row_Some [OF assms(3)] assms(4) by (simp add: later_pool_def)
  have row: "pool_row (put_pool q db) k = (if k = j then Some q else pool_row db k)" for k
    using pool_row_put [of db q p] assms(3) q by simp
  have "j \<in> cp_id ` set (cd_pools (put_pool q db))" using pool_row_Some [of "put_pool q db" j q] row q by auto
  moreover have "key_fresh (ct_key t) (put_pool q db)" using assms(7) by (simp add: key_fresh_def put_pool_def)
  ultimately have "credit_ok db' \<and> cd_pools db' = cd_pools (put_pool q db) \<and>
      drift db' i = drift (put_pool q db) i - (if j = i then to_cents (ct_amount t) else 0)"
    using create_transaction_foots [OF assms(1) _ credit_ok_put [OF assms(2-5)]] assms(6,8) by metis
  moreover have "drift (put_pool q db) i = drift db i + (if i = j then cp_balance q - cp_balance p else 0)"
    using row assms(3) by (simp add: drift_def balance_of_def ledger_sum_def put_pool_def)
  ultimately show ?thesis using row [of j] by (auto simp: pool_row_def)
qed

subsection \<open>Each operation\<close>

definition is_consumed :: "consumption \<Rightarrow> bool" where
  "is_consumed r = (case r of Consumed _ _ _ \<Rightarrow> True | _ \<Rightarrow> False)"

lemma money_okD: "money_ok x \<Longrightarrow> to_cents x = x" "money_ok x \<Longrightarrow> 0 \<le> x" "money_ok x \<Longrightarrow> \<bar>x\<bar> < 100000000"
  by (auto simp: money_ok_def to_cents_id)

lemma pool_row_ok: "credit_ok db \<Longrightarrow> pool_row db j = Some p \<Longrightarrow> pool_ok p"
  using pool_row_Some [of db j p] by (auto simp: credit_ok_def)

lemma tx_row_simps [simp]:
  "ct_pool (tx_row p ty a k u now) = cp_id p" "ct_amount (tx_row p ty a k u now) = a" "ct_key (tx_row p ty a k u now) = k"
  by (simp_all add: tx_row_def)

lemma key_ok_consume [simp]: "key_ok ps (Some (KeyConsume t))" "key_ok ps (Some (KeyBonus g u))" "key_ok ps None"
  by (simp_all add: key_ok_def)

lemma consume_foots:
  assumes "consume_credits_atomic now tid u drain db j cost = (db', r)" "credit_ok db" "0 \<le> cost"
    "key_fresh (Some (KeyConsume tid)) db"
  shows "credit_ok db' \<and> drift db' i = drift db i + (if j = i \<and> half_cent cost \<and> is_consumed r then 1 / 100 else 0)"
proof (cases "db' = db \<and> \<not> is_consumed r")
  case False
  have d: "distinct (map cp_id (cd_pools db))" using assms(2) by (simp add: credit_ok_def)
  from False assms(1) obtain p where p: "pool_row db j = Some p"
    by (auto simp: consume_credits_atomic_def conditional_row [OF d] drain_for_shortfall_def is_consumed_def
        split: option.splits if_splits)
  have id: "cp_id p = j" and ok: "pool_ok p" using pool_row_Some [OF p] pool_row_ok [OF assms(2) p] by auto
  show ?thesis
  proof (cases "cost \<le> cp_balance p")
    case True
    with False assms(1) p obtain b where b: "numeric (cp_balance p - cost) = Some b"
      and t: "create_transaction (tx_row p TxConsumption (- cost) (Some (KeyConsume tid)) (str_or u (Some (cp_user p))) now)
          (put_pool (p\<lparr>cp_balance := b\<rparr>) db) = Some db'" and r: "is_consumed r"
      by (auto simp: consume_credits_atomic_def conditional_row [OF d] debit_def is_consumed_def
          split: option.splits if_splits)
    have "money_ok b" using b True to_cents_nonneg [of "cp_balance p - cost"] by (auto simp: numeric_Some money_ok_def)
    then have "pool_ok (p\<lparr>cp_balance := b\<rparr>)" using ok by (simp add: pool_ok_def)
    moreover have "b - cp_balance p - to_cents (- cost) = (if half_cent cost then 1 / 100 else 0)"
      using to_cents_debit [OF _ assms(3) True] ok b
      by (simp add: numeric_Some pool_ok_def money_ok_def to_cents_minus)
    ultimately show ?thesis
      using commit_foots [OF t assms(2) p later_pool_keeps, of i] id assms(4) r by auto
  next
    case F: False
    with False assms(1) p have "0 < cp_balance p" and
      t: "create_transaction ((tx_row p TxConsumption (- cp_balance p) (Some (KeyConsume tid)) (str_or u (Some (cp_user p))) now)
            \<lparr>ct_shortfall := Some (cost - cp_balance p)\<rparr>) (put_pool (p\<lparr>cp_balance := 0\<rparr>) db) = Some db'"
      and r: "\<not> is_consumed r"
      by (auto simp: consume_credits_atomic_def conditional_row [OF d] drain_for_shortfall_def is_consumed_def Let_def
          split: option.splits if_splits)
    have "pool_ok (p\<lparr>cp_balance := 0\<rparr>)" using ok by (simp add: pool_ok_def money_ok_def)
    moreover have "to_cents (- cp_balance p) = - cp_balance p" using ok by (simp add: pool_ok_def money_okD to_cents_minus)
    ultimately show ?thesis
      using commit_foots [OF t assms(2) p later_pool_keeps, of i] id assms(4) r by auto
  qed
qed (use assms in auto)

lemma create_put_commute:
  "create_transaction t db = Some db1 \<Longrightarrow> create_transaction t (put_pool q db) = Some (put_pool q db1)"
  by (auto simp: create_transaction_def put_pool_def split: if_splits option.splits)

lemma reset_foots:
  assumes "credit_ok db" and p: "pool_row db j = Some p"
    and e: "expire_unspent k1 now p (cp_balance p) db = Some db1" and f: "refill k2 stamp now j db1 = Some db2"
    and q: "q = p\<lparr>cp_balance := cp_allocation p, cp_allocated_at := (if stamp then Some now else cp_allocated_at p)\<rparr>"
    and later: "later_pool p q"
    and keys: "key_fresh k1 db" "key_fresh k2 db" "k1 = None \<or> k1 \<noteq> k2"
      "key_ok (cd_pools (put_pool q db)) k1" "key_ok (cd_pools (put_pool q db)) k2"
  shows "credit_ok db2 \<and> drift db2 i = drift db i"
proof -
  have id: "cp_id p = j" and ok: "pool_ok p" using pool_row_Some [OF p] pool_row_ok [OF assms(1) p] by auto
  have okq: "pool_ok q" using ok by (simp add: pool_ok_def q)
  have cents: "to_cents (- cp_balance p) = - cp_balance p" "to_cents (cp_allocation p) = cp_allocation p"
    using ok by (simp_all add: pool_ok_def money_okD to_cents_minus)
  let ?x = "tx_row p TxExpiration (- cp_balance p) k1 (Some (cp_user p)) now"
  let ?a = "tx_row p TxAllocation (cp_allocation p) k2 (Some (cp_user p)) now"
  have pools: "cd_pools db1 = cd_pools db"
    using e by (auto simp: expire_unspent_def create_transaction_def split: if_splits option.splits)
  then have "pool_row db1 j = Some p" using p by (simp add: pool_row_def)
  with f have a: "create_transaction ?a (put_pool q db1) = Some db2" by (simp add: refill_def q)
  show ?thesis
  proof (cases "cp_balance p \<le> 0")
    case True
    with ok have "cp_balance p = 0" by (simp add: pool_ok_def money_ok_def)
    moreover from True e have "db1 = db" by (simp add: expire_unspent_def)
    ultimately show ?thesis
      using commit_foots [OF a [unfolded \<open>db1 = db\<close>] assms(1) p later okq, of i] id keys cents by (simp add: q)
  next
    case False
    with e have "create_transaction ?x db = Some db1" by (simp add: expire_unspent_def)
    note x = create_put_commute [OF this, of q]
    from commit_foots [OF x assms(1) p later okq, of i] id keys
    have m: "credit_ok (put_pool q db1) \<and> drift (put_pool q db1) i =
        drift db i + (if i = j then cp_balance q - cp_balance p - to_cents (- cp_balance p) else 0)" by simp
    have "key_fresh k2 (put_pool q db1)"
      using create_transaction_Some [OF \<open>create_transaction ?x db = Some db1\<close>] keys(1-3)
      by (auto simp: key_fresh_def put_pool_def)
    moreover have "cp_id p \<in> cp_id ` set (cd_pools (put_pool q db1))"
    proof -
      have "cp_id q = j" using id by (simp add: q)
      with pool_row_put [of db1 q p j] \<open>pool_row db1 j = Some p\<close> have "pool_row (put_pool q db1) j = Some q" by simp
      from pool_row_Some [OF this] id show ?thesis by (metis image_eqI)
    qed
    moreover have "key_ok (cd_pools (put_pool q db1)) k2" using keys(5) pools by (simp add: put_pool_def)
    ultimately show ?thesis
      using create_transaction_foots [OF a, of i] m id cents by (simp add: q)
  qed
qed

lemma month_keys_fresh:
  assumes "credit_ok db" "pool_row db j = Some p" "\<not> same_month (cp_allocated_at p) now"
    "\<forall>a. cp_allocated_at p = Some a \<longrightarrow> month_le (yr (time_date a)) (mo (time_date a)) now"
  shows "key_fresh (Some (expiration_key p now)) db" "key_fresh (Some (allocation_key p now)) db"
proof -
  have p: "p \<in> set (cd_pools db)" using pool_row_Some [OF assms(2)] by simp
  have only: "x = p" if "x \<in> set (cd_pools db)" "cp_graph x = cp_graph p" for x
    using that p assms(1) by (metis credit_ok_def distinct_map inj_on_eq_iff)
  have before: "\<not> month_le (yr (time_date now)) (mo (time_date now)) a" if "cp_allocated_at p = Some a" for a
    using assms(3,4) that by (auto simp: same_month_def month_le_def)
  have none: "\<not> (\<exists>x\<in>set (cd_pools db). cp_graph x = cp_graph p \<and>
      (\<exists>a. cp_allocated_at x = Some a \<and> month_le (yr (time_date now)) (mo (time_date now)) a))"
    using only before by blast
  have "ct_key t \<noteq> Some (expiration_key p now) \<and> ct_key t \<noteq> Some (allocation_key p now)"
    if "t \<in> set (cd_txs db)" for t
  proof -
    have "key_ok (cd_pools db) (ct_key t)" using assms(1) that by (simp add: credit_ok_def)
    with none show ?thesis
      unfolding key_ok_def expiration_key_def allocation_key_def
      by (cases "ct_key t") (auto split: tx_key.splits)
  qed
  then show "key_fresh (Some (expiration_key p now)) db" "key_fresh (Some (allocation_key p now)) db"
    unfolding key_fresh_def by blast+
qed

lemma allocate_foots:
  assumes "allocate_monthly_credits now db j = Some (db', got)" "credit_ok db"
    "\<forall>p a. pool_row db j = Some p \<longrightarrow> cp_allocated_at p = Some a \<longrightarrow> month_le (yr (time_date a)) (mo (time_date a)) now"
  shows "credit_ok db' \<and> drift db' i = drift db i"
proof -
  from assms(1) obtain p where p: "pool_row db j = Some p"
    by (auto simp: allocate_monthly_credits_def split: option.splits)
  show ?thesis
  proof (cases "same_month (cp_allocated_at p) now")
    case True
    with assms(1,2) p show ?thesis by (simp add: allocate_monthly_credits_def)
  next
    case False
    with assms(1) p obtain db1 where
      e: "expire_unspent (Some (expiration_key p now)) now p (cp_balance p) db = Some db1"
      and f: "refill (Some (allocation_key p now)) True now j db1 = Some db'"
      by (auto simp: allocate_monthly_credits_def split: option.splits)
    let ?q = "p\<lparr>cp_balance := cp_allocation p, cp_allocated_at := Some now\<rparr>"
    have later: "later_pool p ?q" using assms(3) p by (simp add: later_pool_def)
    have "pool_row (put_pool ?q db) j = Some ?q" using pool_row_put [of db ?q p j] p pool_row_Some [OF p] by simp
    then have q: "?q \<in> set (cd_pools (put_pool ?q db))" using pool_row_Some by blast
    have "key_ok (cd_pools (put_pool ?q db)) (Some (expiration_key p now))"
      "key_ok (cd_pools (put_pool ?q db)) (Some (allocation_key p now))"
      using q by (auto simp: key_ok_def expiration_key_def allocation_key_def intro!: bexI [of _ ?q])
    with month_keys_fresh [OF assms(2) p False] assms(3) p show ?thesis
      by (intro reset_foots [OF assms(2) p e f _ later]) (auto simp: expiration_key_def allocation_key_def)
  qed
qed

lemma admin_reset_foots:
  assumes "reset_pool now db j = Some (db', x)" "credit_ok db"
  shows "credit_ok db' \<and> drift db' i = drift db i"
proof -
  from assms(1) obtain p db1 where p: "pool_row db j = Some p"
    and "expire_unspent None now p (cp_balance p) db = Some db1" "refill None False now j db1 = Some db'"
    by (auto simp: reset_pool_def split: option.splits)
  from reset_foots [OF assms(2) this refl] show ?thesis
    by (simp add: key_fresh_def later_pool_keeps)
qed

lemma get_by_graph_Some: "get_by_graph_id db g = Some p \<Longrightarrow> p \<in> set (cd_pools db) \<and> cp_graph p = g"
  unfolding get_by_graph_id_def by (rule find_row_Some)

lemma pool_row_member: "credit_ok db \<Longrightarrow> p \<in> set (cd_pools db) \<Longrightarrow> pool_row db (cp_id p) = Some p"
  unfolding pool_row_def credit_ok_def by (auto intro: find_row_unique)

lemma bonus_foots:
  assumes "add_bonus_credits now uid db g amount = Some db'" "credit_ok db" "cents amount" "0 \<le> amount"
    "key_fresh (Some (KeyBonus g uid)) db"
  shows "credit_ok db' \<and> drift db' i = drift db i"
proof (cases "get_by_graph_id db g")
  case (Some p)
  then have p: "pool_row db (cp_id p) = Some p" using get_by_graph_Some pool_row_member assms(2) by blast
  from assms(1) Some obtain b where b: "numeric (cp_balance p + amount) = Some b"
    and t: "create_transaction (tx_row p TxBonus amount (Some (KeyBonus g uid)) (Some (cp_user p)) now)
      (put_pool (p\<lparr>cp_balance := b\<rparr>) db) = Some db'"
    by (auto simp: add_bonus_credits_def split: option.splits)
  have ok: "pool_ok p" using pool_row_ok [OF assms(2) p] .
  with b assms(3,4) have "b = cp_balance p + amount" "\<bar>b\<bar> < 100000000"
    by (auto simp: numeric_Some pool_ok_def money_ok_def to_cents_id cents_add)
  moreover from this ok assms(3,4) have "pool_ok (p\<lparr>cp_balance := b\<rparr>)"
    by (simp add: pool_ok_def money_ok_def cents_add)
  ultimately show ?thesis
    using commit_foots [OF t assms(2) p later_pool_keeps, of i] assms(3,5) by (simp add: to_cents_id)
qed (use assms in \<open>simp add: add_bonus_credits_def\<close>)

lemma override_foots:
  assumes "set_storage_override now p gb db = Some db'" "credit_ok db" "p \<in> set (cd_pools db)"
  shows "credit_ok db' \<and> drift db' i = drift db i"
proof -
  from assms(1) obtain x where t: "create_transaction (tx_row p TxBonus 0 None None now)
      (put_pool (p\<lparr>cp_storage_override := Some x\<rparr>) db) = Some db'"
    by (auto simp: set_storage_override_def split: option.splits)
  have p: "pool_row db (cp_id p) = Some p" using pool_row_member [OF assms(2,3)] .
  have "pool_ok (p\<lparr>cp_storage_override := Some x\<rparr>)" using pool_row_ok [OF assms(2) p] by (simp add: pool_ok_def)
  from commit_foots [OF t assms(2) p later_pool_keeps this, of i] show ?thesis
    by (simp add: key_fresh_def to_cents_id)
qed

lemma pool_row_append:
  "pool_row (db\<lparr>cd_pools := cd_pools db @ [p]\<rparr>) i =
    (case pool_row db i of Some q \<Rightarrow> Some q | None \<Rightarrow> if cp_id p = i then Some p else None)"
  by (simp add: pool_row_def find_row_append split: option.split)

lemma created_foots:
  assumes "create_for_graph graphs now j g u allocation db = Some db'" "credit_ok db" "cents allocation" "0 \<le> allocation"
  shows "credit_ok db' \<and> drift db' i = drift db i"
proof -
  from assms(1) obtain limit where n: "numeric allocation = Some allocation"
    and new: "get_by_graph_id db g = None" "pool_row db j = None"
    and t: "create_transaction (tx_row (new_pool now j g u allocation limit) TxAllocation allocation (Some (KeyInitial g)) (Some u) now)
        (db\<lparr>cd_pools := cd_pools db @ [new_pool now j g u allocation limit]\<rparr>) = Some db'"
    by (auto simp: create_for_graph_def numeric_Some Let_def to_cents_id [OF assms(3)] split: option.splits if_splits)
  define p where "p = new_pool now j g u allocation limit"
  let ?db = "db\<lparr>cd_pools := cd_pools db @ [p]\<rparr>"
  have p: "cp_id p = j" "cp_graph p = g" "cp_balance p = allocation" "pool_ok p"
    using n assms(3,4) by (simp_all add: p_def new_pool_def pool_ok_def money_ok_def numeric_Some to_cents_id)
  have fresh: "j \<notin> cp_id ` set (cd_pools db)" "g \<notin> cp_graph ` set (cd_pools db)"
    using new by (auto simp: get_by_graph_id_def pool_row_def find_row_None)
  have keys: "key_ok (cd_pools ?db) k" if "key_ok (cd_pools db) k" for k
    using that later_pool_keeps by (intro key_ok_mono [OF that]) (auto intro!: bexI)
  have okdb: "credit_ok ?db"
    using assms(2) fresh p keys by (auto simp: credit_ok_def)
  have "\<forall>t\<in>set (cd_txs db). key_ok (cd_pools db) (ct_key t)" using assms(2) by (simp add: credit_ok_def)
  then have kf: "key_fresh (Some (KeyInitial g)) ?db"
    using fresh(2) by (fastforce simp: key_fresh_def key_ok_def)
  have "drift ?db i = drift db i + (if i = j then allocation else 0)"
    using new(2) p by (auto simp: drift_def balance_of_def pool_row_append ledger_sum_def split: option.splits)
  moreover have "key_ok (cd_pools ?db) (Some (KeyInitial g))" using p by (auto simp: key_ok_def)
  ultimately show ?thesis
    using create_transaction_foots [OF t [folded p_def], of i] kf okdb p assms(3) by (simp add: to_cents_id)
qed

subsection \<open>Runs\<close>

text \<open>
  Operations one after another; the number counts the charges of pool \<open>i\<close> on half a cent.
  The ids of charges and bonuses are new, and the clock does not go back before the month of
  the last allocation.
\<close>

inductive credit_run :: "string \<Rightarrow> nat \<Rightarrow> credit_db \<Rightarrow> credit_db \<Rightarrow> bool" for i where
  start: "credit_run i 0 db db"
| charged: "credit_run i n db db1 \<Longrightarrow> consume_credits_atomic now tid u drain db1 j cost = (db2, r) \<Longrightarrow>
    0 \<le> cost \<Longrightarrow> key_fresh (Some (KeyConsume tid)) db1 \<Longrightarrow>
    credit_run i (if j = i \<and> half_cent cost \<and> is_consumed r then n + 1 else n) db db2"
| allocated: "credit_run i n db db1 \<Longrightarrow> allocate_monthly_credits now db1 j = Some (db2, got) \<Longrightarrow>
    \<forall>p a. pool_row db1 j = Some p \<longrightarrow> cp_allocated_at p = Some a \<longrightarrow> month_le (yr (time_date a)) (mo (time_date a)) now \<Longrightarrow>
    credit_run i n db db2"
| reset: "credit_run i n db db1 \<Longrightarrow> reset_pool now db1 j = Some (db2, x) \<Longrightarrow> credit_run i n db db2"
| bonus: "credit_run i n db db1 \<Longrightarrow> add_bonus_credits now uid db1 g amount = Some db2 \<Longrightarrow> cents amount \<Longrightarrow>
    0 \<le> amount \<Longrightarrow> key_fresh (Some (KeyBonus g uid)) db1 \<Longrightarrow> credit_run i n db db2"
| overridden: "credit_run i n db db1 \<Longrightarrow> p \<in> set (cd_pools db1) \<Longrightarrow> set_storage_override now p gb db1 = Some db2 \<Longrightarrow>
    credit_run i n db db2"
| created: "credit_run i n db db1 \<Longrightarrow> create_for_graph graphs now j g u allocation db1 = Some db2 \<Longrightarrow>
    cents allocation \<Longrightarrow> 0 \<le> allocation \<Longrightarrow> credit_run i n db db2"

lemma credit_run_foots:
  "credit_run i n db db' \<Longrightarrow> credit_ok db \<Longrightarrow> credit_ok db' \<and> drift db' i = drift db i + of_nat n / 100"
proof (induction rule: credit_run.induct)
  case (charged n db db1 now tid u drain j cost db2 r)
  then show ?case using consume_foots [OF charged(2) _ charged(3,4), of i] by (auto simp: add_divide_distrib)
next
  case (allocated n db db1 now j db2 got)
  then show ?case using allocate_foots [OF allocated(2) _ allocated(3), of i] by simp
next
  case (reset n db db1 now j db2 x)
  then show ?case using admin_reset_foots [OF reset(2), of i] by simp
next
  case (bonus n db db1 now uid g amount db2)
  then show ?case using bonus_foots [OF bonus(2) _ bonus(3-5), of i] by simp
next
  case (overridden n db db1 p now gb db2)
  then show ?case using override_foots [OF overridden(3) _ overridden(2), of i] by simp
next
  case (created n db db1 graphs now j g u allocation db2)
  then show ?case using created_foots [OF created(2) _ created(3,4), of i] by simp
qed simp

end
