(* ===== verification/CreditResults.thy ===== *)
theory CreditResults
  imports CreditFacts
begin

text \<open>
  The properties of the credit pools, with the resets, plan changes and reservations that do
  not keep them, and the runs that witness them.
\<close>

subsection \<open>The ledger of a graph's pool\<close>

text \<open>
  C23. Through any sequence of charges, monthly allocations, resets, bonuses, overrides and new
  pools, no pool is overdrawn or outgrows its column, and the distance between a pool's
  balance and its ledger grows by exactly one cent for every charge of that pool that falls on
  half a cent: the balance rounds up where the ledger row rounds its charge up. With charges
  in whole cents the ledger foots.
\<close>

theorem credit_ledger_foots:
  assumes "credit_run i n db db'" "credit_ok db"
  shows "drift db' i = drift db i + of_nat n / 100 \<and>
    (\<forall>p\<in>set (cd_pools db'). 0 \<le> cp_balance p \<and> cp_balance p < 100000000)"
  using credit_run_foots [OF assms] by (auto simp: credit_ok_def pool_ok_def money_ok_def)

text \<open>
  A reset is two commits: the forfeited balance goes to the ledger first, and the balance is
  overwritten with the allocation after it. A charge that commits in between is in the ledger
  but not in the balance, so the pool has its allocation in full and the charge for free, and
  the ledger never foots again.
\<close>

theorem reset_overtakes_charge:
  assumes "credit_ok db" "pool_row db i = Some p" "0 < cp_balance p"
    and e: "expire_unspent k1 now p (cp_balance p) db = Some db1" "key_fresh k1 db"
    and c: "consume_credits_atomic t tid u drain db1 i cost = (db2, Consumed paid old new)"
      "key_fresh (Some (KeyConsume tid)) db1"
    and r: "refill k2 stamp now' i db2 = Some db3" "key_fresh k2 db2"
  shows "balance_of db3 i = cp_allocation p \<and> drift db3 i = drift db i + to_cents cost"
proof -
  have ok: "pool_ok p" and id: "cp_id p = i" using pool_row_ok pool_row_Some assms(1,2) by auto
  have "create_transaction (tx_row p TxExpiration (- cp_balance p) k1 (Some (cp_user p)) now) db = Some db1"
    using e(1) assms(3) by (simp add: expire_unspent_def)
  from create_transaction_Some [OF this] e(2)
  have x: "cd_pools db1 = cd_pools db" "ledger_sum db1 i = ledger_sum db i - cp_balance p"
    using ok id by (simp_all add: ledger_sum_def to_cents_minus pool_ok_def money_okD)
  have d: "distinct (map cp_id (cd_pools db1))" using assms(1) x by (simp add: credit_ok_def)
  have row: "pool_row db1 i = Some p" using assms(2) x by (simp add: pool_row_def)
  with c obtain b where t: "create_transaction
      (tx_row p TxConsumption (- cost) (Some (KeyConsume tid)) (str_or u (Some (cp_user p))) t)
      (put_pool (p\<lparr>cp_balance := b\<rparr>) db1) = Some db2"
    by (auto simp: consume_credits_atomic_def conditional_row [OF d] debit_def drain_for_shortfall_def Let_def
        split: option.splits if_splits)
  have f: "key_fresh (Some (KeyConsume tid)) (put_pool (p\<lparr>cp_balance := b\<rparr>) db1)"
    using c(2) by (simp add: key_fresh_def put_pool_def)
  have row2: "pool_row (put_pool (p\<lparr>cp_balance := b\<rparr>) db1) i = Some (p\<lparr>cp_balance := b\<rparr>)"
    using pool_row_put [of db1 "p\<lparr>cp_balance := b\<rparr>" p i] row id by simp
  have y: "pool_row db2 i = Some (p\<lparr>cp_balance := b\<rparr>)" "ledger_sum db2 i = ledger_sum db1 i - to_cents cost"
    using create_transaction_Some [OF t] f row2 id
    by (simp_all add: pool_row_def ledger_sum_def put_pool_def to_cents_minus)
  define q where "q = p\<lparr>cp_balance := cp_allocation p, cp_allocated_at := (if stamp then Some now' else cp_allocated_at p)\<rparr>"
  from r(1) y(1) have t3: "create_transaction (tx_row (p\<lparr>cp_balance := b\<rparr>) TxAllocation (cp_allocation p) k2 (Some (cp_user p)) now')
      (put_pool q db2) = Some db3" by (cases stamp) (simp_all add: refill_def q_def)
  have "key_fresh k2 (put_pool q db2)" using r(2) by (simp add: key_fresh_def put_pool_def)
  moreover have "pool_row (put_pool q db2) i = Some q"
    using pool_row_put [of db2 q "p\<lparr>cp_balance := b\<rparr>" i] y(1) id by (simp add: q_def)
  ultimately have "pool_row db3 i = Some q" "ledger_sum db3 i = ledger_sum db2 i + cp_allocation p"
    using create_transaction_Some [OF t3] id ok
    by (simp_all add: pool_row_def ledger_sum_def put_pool_def pool_ok_def money_okD)
  then show ?thesis using x y assms(2) by (simp add: drift_def balance_of_def q_def)
qed

text \<open>
  An AI call that could not be paid in full leaves nothing to run another on: after the
  charge of a graph's pool comes back short, the preflight of that graph refuses every call
  with a positive estimate, from the cache and from the database alike.
\<close>

theorem short_charge_denies_next_call:
  assumes "consume_ai_tokens now tid s g u model i q r w = (s', NotCharged PoolShort x)"
    and "\<not> is_shared_repository_or_subgraph g" "credit_ok (cs_graphs s)" "0 < required"
  shows "\<not> snd (check_credit_balance s' g u' required)"
proof -
  let ?g = "fst (parse_graph_id g)" and ?cost = "token_cost model i q r w"
  have d: "distinct (map cp_id (cd_pools (cs_graphs s)))" using assms(3) by (simp add: credit_ok_def)
  from assms(1,2) obtain p where p: "get_by_graph_id (cs_graphs s) ?g = Some p"
    by (auto simp: consume_ai_tokens_def consume_credits_def Let_def split: option.splits)
  then have row: "pool_row (cs_graphs s) (cp_id p) = Some p"
    using get_by_graph_Some pool_row_member [OF assms(3)] by blast
  from assms(1,2) p have out: "charge_outcome ?g s
      (consume_credits_atomic now tid u True (cs_graphs s) (cp_id p) ?cost) = (s', NotCharged PoolShort x)"
    by (simp add: consume_ai_tokens_def consume_credits_def)
  show ?thesis
  proof (cases "0 < cp_balance p")
    case True
    with out row have "cs_cache s' ?g = Some 0"
      by (auto simp: charge_outcome_def consume_credits_atomic_def conditional_row [OF d] debit_def
          drain_for_shortfall_def Let_def split: option.splits if_splits)
    with assms(2,4) show ?thesis by (simp add: check_credit_balance_def Let_def)
  next
    case False
    with out row have "cs_cache s' ?g = None" "cs_graphs s' = cs_graphs s"
      by (auto simp: charge_outcome_def consume_credits_atomic_def conditional_row [OF d] debit_def
          drain_for_shortfall_def Let_def split: option.splits if_splits)
    with assms(2,4) p False show ?thesis by (simp add: check_credit_balance_def Let_def)
  qed
qed

subsection \<open>Repository pools\<close>

definition repo_balance :: "repo_db \<Rightarrow> string \<Rightarrow> rat" where
  "repo_balance db i = (case repo_row db i of None \<Rightarrow> 0 | Some p \<Rightarrow> rp_balance p)"

lemma repo_row_Some: "repo_row db i = Some p \<Longrightarrow> rp_id p = i"
  by (auto simp: repo_row_def dest: find_row_Some)

interpretation repos: row_store rd_pools "\<lambda>p db. Inr (put_repo p db) :: unit + repo_db" rp_id "\<lambda>_. True"
  by unfold_locales (auto simp: put_repo_def)

lemma repo_row_put:
  assumes "repo_row db (rp_id q) = Some p"
  shows "repo_row (put_repo q db) i = (if i = rp_id q then Some q else repo_row db i)"
  using repos.lookup_put_same [OF refl, of q db p] repos.lookup_put_other [OF refl, of i q db] assms
  by (auto simp: repo_row_def)

lemma create_repo_transaction_row:
  "create_repo_transaction t db = Some db' \<Longrightarrow> repo_row db' i = repo_row db i"
  by (auto simp: create_repo_transaction_def repo_row_def split: option.splits)

lemma money_le_max: "money_ok x \<Longrightarrow> x \<le> max_balance"
proof -
  assume x: "money_ok x"
  obtain k :: int where k: "x * 100 = of_int k" using x unfolding money_ok_def cents_def by metis
  moreover have "x * 100 < of_int 10000000000" using x by (simp add: money_ok_def)
  ultimately have "k < 10000000000" by (simp only: of_int_less_iff)
  then have "x * 100 \<le> of_int 9999999999" unfolding k by (simp only: of_int_le_iff)
  then show "x \<le> max_balance" by (simp add: max_balance_def)
qed

lemma max_balance_small: "x \<le> max_balance \<Longrightarrow> x < 100000000"
  by (simp add: max_balance_def)

lemma plan_change_row:
  assumes "update_monthly_allocation now tid True db i new = Some db'" "repo_row db i = Some p"
    "money_ok new" "money_ok (rp_balance p)" "money_ok (rp_allocation p)"
  shows "repo_row db' i = Some (p\<lparr>rp_allocation := new,
    rp_balance := (if rp_allocation p \<le> new then min (rp_balance p + (new - rp_allocation p)) max_balance
                   else rp_balance p - min (rp_allocation p - new) (rp_balance p))\<rparr>)"
proof -
  have id: "rp_id p = i" using repo_row_Some [OF assms(2)] .
  have n: "numeric new = Some new" using assms(3) by (simp add: numeric_cents money_ok_def)
  have row: "repo_row (put_repo (p\<lparr>rp_allocation := a, rp_balance := b\<rparr>) db) i = Some (p\<lparr>rp_allocation := a, rp_balance := b\<rparr>)"
    "repo_row (put_repo (p\<lparr>rp_allocation := a\<rparr>) db) i = Some (p\<lparr>rp_allocation := a\<rparr>)" for a b
    using repo_row_put [of db "p\<lparr>rp_allocation := a, rp_balance := b\<rparr>" p i]
      repo_row_put [of db "p\<lparr>rp_allocation := a\<rparr>" p i] assms(2) id by simp_all
  have c: "cents (rp_balance p)" "cents new" "cents (rp_allocation p)" "cents max_balance"
    using assms(3-5) unfolding money_ok_def by (blast, blast, blast, simp add: max_balance_def cents_def)
  then have cc: "cents (min (rp_balance p + (new - rp_allocation p)) max_balance)"
    "cents (rp_balance p - min (rp_allocation p - new) (rp_balance p))"
    by (simp_all add: min_def cents_add cents_diff)
  have le: "rp_balance p \<le> max_balance" using assms(4) by (rule money_le_max)
  show ?thesis
  proof (cases "rp_allocation p < new")
    case True
    with assms(1,2) n have "create_repo_transaction (plain_tx tid i TxBonus (new - rp_allocation p) now)
        (put_repo (p\<lparr>rp_allocation := new, rp_balance := to_cents (min (rp_balance p + (new - rp_allocation p)) max_balance)\<rparr>) db) = Some db'"
      by (auto simp: update_monthly_allocation_def Let_def numeric_Some split: option.splits)
    with True cc(1) show ?thesis by (simp add: create_repo_transaction_row row to_cents_id)
  next
    case False
    show ?thesis
    proof (cases "0 < min (rp_allocation p - new) (rp_balance p)")
      case True
      with False assms(1,2,4) n have "create_repo_transaction (plain_tx tid i TxBonus (- min (rp_allocation p - new) (rp_balance p)) now)
          (put_repo (p\<lparr>rp_allocation := new, rp_balance := to_cents (rp_balance p - min (rp_allocation p - new) (rp_balance p))\<rparr>) db) = Some db'"
        by (auto simp: update_monthly_allocation_def Let_def numeric_Some money_ok_def max_def split: option.splits)
      with True False cc(2) show ?thesis by (simp add: create_repo_transaction_row row to_cents_id)
    next
      case none: False
      with False assms(1,2,4) n have "db' = put_repo (p\<lparr>rp_allocation := new\<rparr>) db"
        by (auto simp: update_monthly_allocation_def Let_def money_ok_def max_def split: option.splits if_splits)
      moreover have "rp_balance p - min (rp_allocation p - new) (rp_balance p) = rp_balance p"
        using none False assms(4) by (auto simp: money_ok_def min_def split: if_splits)
      moreover have "new = rp_allocation p \<Longrightarrow> min (rp_balance p + (new - rp_allocation p)) max_balance = rp_balance p"
        using le by simp
      ultimately show ?thesis using row(2) [of new] False by (cases "new = rp_allocation p") auto
    qed
  qed
qed

text \<open>
  A change of plan and back: raising the plan and lowering it again restores the balance
  (below the ceiling of the column), but lowering it and raising it again tops the balance up
  to the whole difference of the plans. What the lower plan could not take back, because it
  was already spent, is granted anew, so a spent pool gains credits on every such cycle.
\<close>

theorem plan_cycle_mints_credits:
  assumes "repo_row db i = Some p" "money_ok (rp_balance p)" "money_ok (rp_allocation p)" "money_ok new"
    and "update_monthly_allocation t1 tid1 True db i new = Some db1"
    and "update_monthly_allocation t2 tid2 True db1 i (rp_allocation p) = Some db2"
    and "rp_balance p + new - rp_allocation p \<le> max_balance"
  shows "repo_row db2 i = Some (p\<lparr>rp_balance :=
    (if new < rp_allocation p then max (rp_balance p) (rp_allocation p - new) else rp_balance p)\<rparr>)"
proof -
  let ?b = "if rp_allocation p \<le> new then min (rp_balance p + (new - rp_allocation p)) max_balance
    else rp_balance p - min (rp_allocation p - new) (rp_balance p)"
  from plan_change_row [OF assms(5,1,4,2,3)] have r: "repo_row db1 i = Some (p\<lparr>rp_allocation := new, rp_balance := ?b\<rparr>)" .
  have le: "x \<le> max_balance" if "money_ok x" for x using that by (rule money_le_max)
  have b: "?b = (if rp_allocation p \<le> new then rp_balance p + (new - rp_allocation p)
      else max (rp_balance p - (rp_allocation p - new)) 0)"
    using assms(7) by (auto simp: min_def max_def)
  have "money_ok ?b"
    unfolding b using assms(2-4,7) max_balance_small by (auto simp: money_ok_def cents_add cents_diff max_def)
  from plan_change_row [OF assms(6) r assms(3)] this assms(4) have
    "repo_row db2 i = Some (p\<lparr>rp_balance := (if new \<le> rp_allocation p then min (?b + (rp_allocation p - new)) max_balance
      else ?b - min (new - rp_allocation p) ?b)\<rparr>)"
    by simp
  then show ?thesis
    using assms(2) le [OF assms(2)] le [OF assms(3)] assms(4) unfolding b
    by (auto simp: money_ok_def min_def max_def)
qed

text \<open>The cancellations of a reservation, one after another.\<close>

fun cancel_each :: "string \<Rightarrow> string \<Rightarrow> (ptime \<times> string) list \<Rightarrow> repo_db \<Rightarrow> repo_db" where
  "cancel_each i rid [] db = db"
| "cancel_each i rid ((now, tid) # cs) db = cancel_each i rid cs (fst (cancel_credit_reservation now tid db i rid))"

lemma cancel_refunds:
  assumes "find_reservation db i rid = Some t" "repo_row db i = Some p" "cents (rt_amount t)" "cents (rp_balance p)"
    "0 \<le> rp_balance p" "rp_balance p + \<bar>rt_amount t\<bar> < 100000000"
    "cancel_credit_reservation now tid db i rid = (db', r)"
  shows "r = Cancelled \<bar>rt_amount t\<bar> \<and> repo_row db' i = Some (p\<lparr>rp_balance := rp_balance p + \<bar>rt_amount t\<bar>\<rparr>) \<and>
    (\<exists>t'. find_reservation db' i rid = Some t' \<and> rt_amount t' = rt_amount t)"
proof -
  have c: "cents \<bar>rt_amount t\<bar>" using assms(3) cents_minus [of "rt_amount t"] by (simp add: abs_if)
  have n: "numeric (rp_balance p + \<bar>rt_amount t\<bar>) = Some (rp_balance p + \<bar>rt_amount t\<bar>)"
    using cents_add [OF assms(4) c] assms(5,6) by (simp add: numeric_cents)
  have a: "numeric \<bar>rt_amount t\<bar> = Some \<bar>rt_amount t\<bar>" using c assms(5,6) by (simp add: numeric_cents)
  have id: "rp_id p = i" using repo_row_Some [OF assms(2)] .
  let ?x = "(plain_tx tid i TxRefund \<bar>rt_amount t\<bar> now)\<lparr>rt_reservation := Some rid\<rparr>"
  let ?q = "p\<lparr>rp_balance := rp_balance p + \<bar>rt_amount t\<bar>\<rparr>"
  let ?t = "t\<lparr>rt_status := Some ''cancelled''\<rparr>"
  have res: "(db', r) = (put_tx ?t ((put_repo ?q db)\<lparr>rd_txs := rd_txs (put_repo ?q db) @ [?x]\<rparr>), Cancelled \<bar>rt_amount t\<bar>)"
    using assms(1,2,7) n a by (simp add: cancel_credit_reservation_def Let_def create_repo_transaction_def plain_tx_def)
  have row: "repo_row db' i = Some ?q"
    using res repo_row_put [of db ?q p i] assms(2) id by (simp add: repo_row_def put_tx_def put_repo_def)
  have refund: "rt_type ?x \<noteq> TxConsumption" by (simp add: plain_tx_def)
  have t: "rt_pool t = i \<and> rt_reservation t = Some rid \<and> rt_type t = TxConsumption"
    using assms(1) unfolding find_reservation_def by (auto dest: find_row_Some)
  have "\<exists>t'. find_row (\<lambda>t. rt_pool t = i \<and> rt_reservation t = Some rid \<and> rt_type t = TxConsumption)
        (update_where (\<lambda>x. rt_id x = rt_id ?t) (\<lambda>_. ?t) (ts @ [?x])) = Some t' \<and> rt_amount t' = rt_amount t"
    if "find_row (\<lambda>t. rt_pool t = i \<and> rt_reservation t = Some rid \<and> rt_type t = TxConsumption) ts = Some t" for ts
    using that t refund by (induction ts) (auto split: if_splits)
  from this [OF assms(1) [unfolded find_reservation_def]] res have
    "\<exists>t'. find_reservation db' i rid = Some t' \<and> rt_amount t' = rt_amount t"
    by (simp add: find_reservation_def put_tx_def put_repo_def)
  with res row show ?thesis by simp
qed

lemma cancel_each_refunds:
  assumes "find_reservation db i rid = Some t" "repo_row db i = Some p" "cents (rt_amount t)" "cents (rp_balance p)"
    "0 \<le> rp_balance p" "rp_balance p + of_nat (length cs) * \<bar>rt_amount t\<bar> < 100000000"
  shows "repo_balance (cancel_each i rid cs db) i = rp_balance p + of_nat (length cs) * \<bar>rt_amount t\<bar>"
  using assms
proof (induction cs arbitrary: db t p)
  case Nil
  then show ?case by (simp add: repo_balance_def)
next
  case (Cons c cs)
  obtain now tid where c: "c = (now, tid)" by fastforce
  obtain db' r where s: "cancel_credit_reservation now tid db i rid = (db', r)" by fastforce
  have "of_nat (length (c # cs)) * \<bar>rt_amount t\<bar> = \<bar>rt_amount t\<bar> + of_nat (length cs) * \<bar>rt_amount t\<bar>"
    "0 \<le> of_nat (length cs) * \<bar>rt_amount t\<bar>" by (simp_all add: distrib_right)
  with Cons.prems(6) have "rp_balance p + \<bar>rt_amount t\<bar> < 100000000" by linarith
  from cancel_refunds [OF Cons.prems(1-5) this s] obtain t' where
    row: "repo_row db' i = Some (p\<lparr>rp_balance := rp_balance p + \<bar>rt_amount t\<bar>\<rparr>)"
    and t': "find_reservation db' i rid = Some t'" "rt_amount t' = rt_amount t" by blast
  have "cents \<bar>rt_amount t\<bar>" using Cons.prems(3) cents_minus [of "rt_amount t"] by (simp add: abs_if)
  then show ?case
    using Cons.IH [OF t'(1) row] t'(2) Cons.prems(3-6) s c
    by (simp add: cents_add algebra_simps)
qed

text \<open>
  Cancelling a reservation returns its credits, and cancelling it again returns them again:
  the refund does not look at the reservation's status, so after \<open>n\<close> cancellations the pool is
  \<open>n - 1\<close> times the reserved amount above where it was before the reservation.
\<close>

theorem every_cancellation_refunds:
  assumes "repo_row db i = Some p" "distinct (map rp_id (rd_pools db))" "rp_active p" "money_ok (rp_balance p)"
    and "money_ok cost" "find_reservation db i rid = None"
    and "reserve_credits_atomic now expires tid db i rid cost = (db', Reserved cost)"
    and "rp_balance p + of_nat (length cs) * cost < 100000000"
  shows "repo_balance (cancel_each i rid cs db') i = rp_balance p + (of_nat (length cs) - 1) * cost"
proof -
  have id: "rp_id p = i" using repo_row_Some [OF assms(1)] .
  have "find_row (\<lambda>p. rp_id p = i \<and> cost \<le> rp_balance p \<and> rp_active p) (rd_pools db) =
      (if cost \<le> rp_balance p then Some p else None)"
    using conditional_find [OF assms(2), of i "\<lambda>p. cost \<le> rp_balance p \<and> rp_active p"] assms(1,3)
    by (simp add: repo_row_def)
  with assms(7) obtain b where "cost \<le> rp_balance p" and n: "numeric (rp_balance p - cost) = Some b"
    and t: "create_repo_transaction ((plain_tx tid i TxConsumption (- cost) now)
        \<lparr>rt_reservation := Some rid, rt_status := Some ''reserved'', rt_expires := Some expires\<rparr>)
      (put_repo (p\<lparr>rp_balance := b\<rparr>) db) = Some db'"
    by (auto simp: reserve_credits_atomic_def split: option.splits if_splits)
  have b: "b = rp_balance p - cost" using n assms(4,5) by (simp add: numeric_Some money_ok_def to_cents_id cents_diff)
  define x where "x = (plain_tx tid i TxConsumption (- cost) now)
        \<lparr>rt_reservation := Some rid, rt_status := Some ''reserved'', rt_expires := Some expires\<rparr>"
  have x: "rt_pool x = i" "rt_reservation x = Some rid" "rt_type x = TxConsumption" "rt_amount x = - cost"
    by (simp_all add: x_def plain_tx_def)
  have db': "db' = (put_repo (p\<lparr>rp_balance := b\<rparr>) db)\<lparr>rd_txs := rd_txs db @ [x]\<rparr>"
    using t [folded x_def] assms(5) x(4)
    by (auto simp: create_repo_transaction_def numeric_Some to_cents_id money_ok_def cents_minus put_repo_def split: option.splits)
  have row: "repo_row db' i = Some (p\<lparr>rp_balance := b\<rparr>)"
    using repo_row_put [of db "p\<lparr>rp_balance := b\<rparr>" p i] assms(1) id by (simp add: db' repo_row_def put_repo_def)
  have "find_reservation db' i rid = Some x"
    using assms(6) x by (simp add: db' find_reservation_def find_row_append)
  from cancel_each_refunds [OF this row, of cs] x assms(4,5,8) b \<open>cost \<le> rp_balance p\<close> show ?thesis
    by (simp add: cents_minus cents_diff money_ok_def left_diff_distrib)
qed

subsection \<open>Witnesses\<close>

definition day :: "int \<Rightarrow> int \<Rightarrow> ptime" where
  "day m d = Time (Date 2025 m d) 0"

definition demo_pool :: credit_pool where
  "demo_pool = (new_pool (day 1 1) ''crd1'' ''kg1'' ''u1'' 8000 10)"

definition demo_credits :: credit_db where
  "demo_credits = \<lparr>cd_pools = [demo_pool],
     cd_txs = [tx_row demo_pool TxAllocation 8000 (Some (KeyInitial ''kg1'')) (Some ''u1'') (day 1 1)]\<rparr>"

lemma demo_credits_ok: "credit_ok demo_credits"
proof -
  have "pool_ok demo_pool" by code_simp
  then show ?thesis by (simp add: credit_ok_def demo_credits_def key_ok_def demo_pool_def new_pool_def)
qed

text \<open>350 input tokens cost 1.155 credits: the pool keeps a cent the ledger does not have.\<close>

definition demo_half_cent :: "credit_db \<times> consumption" where
  "demo_half_cent = consume_credits_atomic (day 1 2) ''tx1'' None True demo_credits ''crd1''
     (token_cost ''claude-4-sonnet'' 350 0 0 0)"

lemma credit_ledger_foots_witness:
  "drift (fst demo_half_cent) ''crd1'' = 1 / 100"
proof -
  obtain db' r where s: "demo_half_cent = (db', r)" by fastforce
  have "is_consumed (snd demo_half_cent) \<and> half_cent (token_cost ''claude-4-sonnet'' 350 0 0 0)" by code_simp
  then have c: "is_consumed r" "half_cent (token_cost ''claude-4-sonnet'' 350 0 0 0)" by (simp_all add: s)
  have "key_fresh (Some (KeyConsume ''tx1'')) demo_credits \<and> 0 \<le> token_cost ''claude-4-sonnet'' 350 0 0 0" by code_simp
  with credit_run.charged [OF credit_run.start s [unfolded demo_half_cent_def], of "''crd1''"] c
  have "credit_run ''crd1'' 1 demo_credits db'" by simp
  from credit_ledger_foots [OF this demo_credits_ok] have "drift db' ''crd1'' = drift demo_credits ''crd1'' + 1 / 100" by simp
  moreover have "drift demo_credits ''crd1'' = 0" by code_simp
  ultimately show ?thesis by (simp add: s)
qed

text \<open>A charge of 100 credits between the two commits of an administrator's reset.\<close>

definition demo_expired :: "credit_db option" where
  "demo_expired = expire_unspent None (day 1 5) demo_pool 8000 demo_credits"

definition demo_overtaken :: "(credit_db \<times> consumption) option" where
  "demo_overtaken = (case demo_expired of None \<Rightarrow> None
     | Some db \<Rightarrow> Some (consume_credits_atomic (day 1 5) ''tx1'' None True db ''crd1'' 100))"

definition demo_refilled :: "credit_db option" where
  "demo_refilled = (case demo_overtaken of None \<Rightarrow> None | Some (db, r) \<Rightarrow> refill None False (day 1 5) ''crd1'' db)"

lemma reset_overtakes_charge_witness:
  "\<exists>db. demo_refilled = Some db \<and> balance_of db ''crd1'' = 8000 \<and> drift db ''crd1'' = 100"
proof -
  have "case demo_refilled of None \<Rightarrow> False | Some _ \<Rightarrow> True" by code_simp
  then obtain db1 db2 r db3 where e: "demo_expired = Some db1"
    and c: "consume_credits_atomic (day 1 5) ''tx1'' None True db1 ''crd1'' 100 = (db2, r)"
    and f: "refill None False (day 1 5) ''crd1'' db2 = Some db3" and all: "demo_refilled = Some db3"
    by (auto simp: demo_refilled_def demo_overtaken_def split: option.splits prod.splits)
  have "case demo_overtaken of Some (_, Consumed p q m) \<Rightarrow> True | _ \<Rightarrow> False" by code_simp
  then have "is_consumed r" by (simp add: demo_overtaken_def e c is_consumed_def split: consumption.splits)
  then obtain p q m where "r = Consumed p q m" by (auto simp: is_consumed_def split: consumption.splits)
  note c = c [unfolded this]
  have "case demo_expired of Some db \<Rightarrow> key_fresh (Some (KeyConsume ''tx1'')) db | None \<Rightarrow> False" by code_simp
  then have fresh: "key_fresh (Some (KeyConsume ''tx1'')) db1" by (simp add: e)
  have row: "pool_row demo_credits ''crd1'' = Some demo_pool" by (simp add: pool_row_def demo_credits_def demo_pool_def new_pool_def)
  have "cp_balance demo_pool = 8000" "cp_allocation demo_pool = 8000" by (simp_all add: demo_pool_def new_pool_def)
  with reset_overtakes_charge [OF demo_credits_ok row _ _ _ c fresh f] e
  have "balance_of db3 ''crd1'' = 8000 \<and> drift db3 ''crd1'' = drift demo_credits ''crd1'' + to_cents 100"
    by (simp add: demo_expired_def key_fresh_def)
  moreover have "drift demo_credits ''crd1'' = 0" "to_cents 100 = 100" by code_simp+
  ultimately show ?thesis using all by (intro exI [of _ db3]) simp
qed

text \<open>A call of a million output tokens against 8000 credits.\<close>

definition demo_short :: "credit_state \<times> charge" where
  "demo_short = consume_ai_tokens (day 1 2) ''tx1'' \<lparr>cs_graphs = demo_credits,
     cs_repos = \<lparr>rd_access = [], rd_pools = [], rd_txs = []\<rparr>, cs_cache = Map.empty\<rparr> ''kg1'' None ''claude-4-sonnet'' 0 1000000 0 0"

lemma short_charge_denies_next_call_witness:
  "\<not> snd (check_credit_balance (fst demo_short) ''kg1'' None 1)"
proof -
  have "case demo_short of (_, NotCharged PoolShort x) \<Rightarrow> True | _ \<Rightarrow> False" by code_simp
  then obtain s' x where s: "demo_short = (s', NotCharged PoolShort x)"
    by (auto split: prod.splits charge.splits charge_error.splits)
  have "\<not> is_shared_repository_or_subgraph ''kg1''" by code_simp
  from short_charge_denies_next_call [OF s [unfolded demo_short_def] this, of 1 None] demo_credits_ok show ?thesis
    by (simp add: s)
qed

text \<open>A spent pool of a 1000-credit plan, lowered to 200 and raised again.\<close>

definition demo_repo :: repo_pool where
  "demo_repo = \<lparr>rp_id = ''crd9'', rp_access = ''ura1'', rp_balance = 0, rp_allocation = 1000, rp_consumed = 1000,
     rp_last = Some (day 1 1), rp_next = Some (day 2 1), rp_active = True\<rparr>"

definition demo_repos :: repo_db where
  "demo_repos = \<lparr>rd_access = [\<lparr>ra_id = ''ura1'', ra_user = ''u1'', ra_repository = ''sec'', ra_plan = ''pro'', ra_active = True\<rparr>],
     rd_pools = [demo_repo], rd_txs = []\<rparr>"

lemma plan_cycle_mints_credits_witness:
  "case update_monthly_allocation (day 1 9) ''t1'' True demo_repos ''crd9'' 200 of
     Some db \<Rightarrow> (case update_monthly_allocation (day 1 9) ''t2'' True db ''crd9'' 1000 of
       Some db' \<Rightarrow> repo_row db' ''crd9'' = Some (demo_repo\<lparr>rp_balance := 800\<rparr>) | None \<Rightarrow> False) | None \<Rightarrow> False"
proof -
  have "case update_monthly_allocation (day 1 9) ''t1'' True demo_repos ''crd9'' 200 of
     Some db \<Rightarrow> (case update_monthly_allocation (day 1 9) ''t2'' True db ''crd9'' 1000 of
       Some db' \<Rightarrow> True | None \<Rightarrow> False) | None \<Rightarrow> False" by code_simp
  then obtain db1 db2 where u: "update_monthly_allocation (day 1 9) ''t1'' True demo_repos ''crd9'' 200 = Some db1"
    "update_monthly_allocation (day 1 9) ''t2'' True db1 ''crd9'' 1000 = Some db2"
    by (auto split: option.splits)
  have row: "repo_row demo_repos ''crd9'' = Some demo_repo" by (simp add: repo_row_def demo_repos_def demo_repo_def)
  have a: "rp_allocation demo_repo = 1000" "rp_balance demo_repo = 0" by (simp_all add: demo_repo_def)
  have m: "money_ok 0" "money_ok 1000" "money_ok 200" "(200 :: rat) - 1000 \<le> max_balance" by code_simp+
  from plan_cycle_mints_credits [OF row _ _ m(3) u(1), of _ "''t2''" db2] u a m show ?thesis by simp
qed

lemma every_cancellation_refunds_witness:
  "case reserve_credits_atomic (day 1 2) (day 1 3) ''t1'' (demo_repos\<lparr>rd_pools := [demo_repo\<lparr>rp_balance := 50\<rparr>]\<rparr>) ''crd9'' ''r1'' 40 of
     (db, r) \<Rightarrow> repo_balance (cancel_each ''crd9'' ''r1'' [(day 1 4, ''t2''), (day 1 5, ''t3''), (day 1 6, ''t4'')] db) ''crd9'' = 130"
proof -
  let ?db = "demo_repos\<lparr>rd_pools := [demo_repo\<lparr>rp_balance := 50\<rparr>]\<rparr>"
  have "case reserve_credits_atomic (day 1 2) (day 1 3) ''t1'' ?db ''crd9'' ''r1'' 40 of (db, Reserved c) \<Rightarrow> c = 40 | _ \<Rightarrow> False"
    by code_simp
  then obtain db where r: "reserve_credits_atomic (day 1 2) (day 1 3) ''t1'' ?db ''crd9'' ''r1'' 40 = (db, Reserved 40)"
    by (auto split: prod.splits reservation_result.splits)
  have row: "repo_row ?db ''crd9'' = Some (demo_repo\<lparr>rp_balance := 50\<rparr>)"
    by (simp add: repo_row_def demo_repo_def)
  have m: "money_ok 50" "money_ok 40" by code_simp+
  have "find_reservation ?db ''crd9'' ''r1'' = None" by (simp add: find_reservation_def demo_repos_def)
  from every_cancellation_refunds [OF row _ _ _ m(2) this r, of "[(day 1 4, ''t2''), (day 1 5, ''t3''), (day 1 6, ''t4'')]"] m(1) r
  show ?thesis by (simp add: demo_repo_def)
qed

end
