(* ===== verification/QueryQueue.thy ===== *)
theory QueryQueue
  imports Prelude Complex_Main "HOL-Library.Product_Lexorder"
begin

text \<open>
  The query queue of one API process (\<open>middleware/graph/query_queue.py\<close>) and its admission
  control (\<open>middleware/graph/admission_control.py\<close>).

  The event loop runs one section at a time: every operation below is the code between two
  points where its coroutine waits. The priority queue is the list of its entries in the order
  they come out, times are numbers, and the readings of the machine and the random draws are
  arguments. The executor's answer is an argument of \<open>execute_query\<close>; metrics are left out.
\<close>

subsection \<open>Admission control\<close>

datatype admission = Accept | RejectMemory | RejectCpu | RejectLoadShed

record resources =
  memory_percent :: rat
  cpu_percent :: rat
  load_average :: rat

record admission_config =
  memory_threshold :: rat
  cpu_threshold :: rat
  queue_threshold :: rat
  shedding_enabled :: bool

definition queue_ratio :: "nat \<Rightarrow> nat \<Rightarrow> rat" where
  "queue_ratio depth cap = (if 0 < cap then of_nat depth / of_nat cap else 0)"

definition pressure_score :: "resources \<Rightarrow> rat \<Rightarrow> rat" where
  "pressure_score r q = min (memory_percent r / 100) 1 * (4 / 10) + min (cpu_percent r / 100) 1 * (3 / 10) +
     q * (2 / 10) + min (load_average r / 4) 1 * (1 / 10)"

definition queue_rejection :: "rat \<Rightarrow> rat" where
  "queue_rejection q = (if 95 / 100 < q then 9 / 10 else if 9 / 10 < q then 7 / 10 else 5 / 10)"

definition priority_factor :: "int \<Rightarrow> rat" where
  "priority_factor p = of_int (11 - p) / 10"

definition check_admission ::
  "admission_config \<Rightarrow> resources \<Rightarrow> rat \<Rightarrow> rat \<Rightarrow> nat \<Rightarrow> nat \<Rightarrow> int \<Rightarrow> admission" where
  "check_admission cfg r draw1 draw2 depth cap p =
     (if \<not> shedding_enabled cfg then Accept
      else if memory_threshold cfg < memory_percent r then RejectMemory
      else if cpu_threshold cfg < cpu_percent r then RejectCpu
      else let q = queue_ratio depth cap; score = pressure_score r q in
        if queue_threshold cfg < q \<and> draw1 < queue_rejection q * priority_factor p then RejectLoadShed
        else if 7 / 10 < score \<and> draw2 < (score - 7 / 10) * 2 * priority_factor p then RejectLoadShed
        else Accept)"

subsection \<open>The queue\<close>

datatype query_status = QPending | QRunning | QCompleted | QFailed | QCancelled

record query =
  qy_id :: string
  qy_user :: string
  qy_graph :: string
  qy_priority :: int
  qy_created :: nat
  qy_started :: "nat option"
  qy_completed :: "nat option"
  qy_status :: query_status
  qy_result :: "string option"
  qy_error :: "string option"

record queue_config =
  max_queue_size :: nat
  max_concurrent_queries :: nat
  max_queries_per_user :: nat
  max_completed :: nat
  query_timeout :: nat

record queue_state =
  qs_heap :: "(int \<times> nat \<times> string) list"
  qs_queries :: "query list"
  qs_users :: "string \<rightharpoonup> nat"
  qs_running :: "string list"
  qs_done :: "query list"

definition empty_queue :: queue_state where
  "empty_queue = \<lparr>qs_heap = [], qs_queries = [], qs_users = Map.empty, qs_running = [], qs_done = []\<rparr>"

definition find_query :: "queue_state \<Rightarrow> string \<Rightarrow> query option" where
  "find_query s i = find_row (\<lambda>q. qy_id q = i) (qs_queries s)"

definition put_query :: "query \<Rightarrow> queue_state \<Rightarrow> queue_state" where
  "put_query q s = s\<lparr>qs_queries := update_where (\<lambda>x. qy_id x = qy_id q) (\<lambda>_. q) (qs_queries s)\<rparr>"

definition user_count :: "queue_state \<Rightarrow> string \<Rightarrow> nat" where
  "user_count s u = (case qs_users s u of None \<Rightarrow> 0 | Some n \<Rightarrow> n)"

definition heap_entry :: "query \<Rightarrow> int \<times> nat \<times> string" where
  "heap_entry q = (- qy_priority q, qy_created q, qy_id q)"

subsection \<open>Submit\<close>

datatype submit_error = Rejected admission | QueueFull | UserLimit

definition new_query :: "string \<Rightarrow> string \<Rightarrow> string \<Rightarrow> int \<Rightarrow> nat \<Rightarrow> query" where
  "new_query i u g p now =
     \<lparr>qy_id = i, qy_user = u, qy_graph = g, qy_priority = p, qy_created = now, qy_started = None,
      qy_completed = None, qy_status = QPending, qy_result = None, qy_error = None\<rparr>"

definition submit_query ::
  "queue_config \<Rightarrow> (nat \<Rightarrow> nat \<Rightarrow> int \<Rightarrow> admission) \<Rightarrow> string \<Rightarrow> nat \<Rightarrow> queue_state \<Rightarrow> string \<Rightarrow> string \<Rightarrow> int \<Rightarrow>
   submit_error + queue_state" where
  "submit_query cfg admit i now s u g p =
     (let decision = admit (length (qs_heap s)) (max_queue_size cfg) p in
      if decision \<noteq> Accept then Inl (Rejected decision)
      else if max_queue_size cfg \<le> length (qs_heap s) then Inl QueueFull
      else if max_queries_per_user cfg \<le> user_count s u then Inl UserLimit
      else Inr (s\<lparr>qs_queries := qs_queries s @ [new_query i u g p now],
                  qs_users := (qs_users s)(u := Some (user_count s u + 1)),
                  qs_heap := insort (heap_entry (new_query i u g p now)) (qs_heap s)\<rparr>))"

subsection \<open>Cancel\<close>

text \<open>\<open>_completed_queries[i] = query\<close> of an ordered dict, and its trimming from the front.\<close>

definition add_completed :: "queue_config \<Rightarrow> query \<Rightarrow> query list \<Rightarrow> query list" where
  "add_completed cfg q ds =
     (let ds' = (if list_ex (\<lambda>x. qy_id x = qy_id q) ds
                 then update_where (\<lambda>x. qy_id x = qy_id q) (\<lambda>_. q) ds else ds @ [q])
      in drop (length ds' - max_completed cfg) ds')"

definition cancel_query :: "queue_config \<Rightarrow> nat \<Rightarrow> queue_state \<Rightarrow> string \<Rightarrow> string \<Rightarrow> queue_state \<times> bool" where
  "cancel_query cfg now s i u =
     (case find_query s i of
        None \<Rightarrow> (s, False)
      | Some q \<Rightarrow>
          if qy_user q \<noteq> u \<or> qy_status q \<noteq> QPending then (s, False)
          else let q' = q\<lparr>qy_status := QCancelled, qy_completed := Some now\<rparr> in
               ((put_query q' s)\<lparr>qs_done := add_completed cfg q' (qs_done s),
                                qs_users := (qs_users s)(u := Some (user_count s u - 1))\<rparr>, True))"

subsection \<open>The worker\<close>

text \<open>
  One iteration of \<open>_process_queue\<close>: nothing at capacity, nothing from an empty queue, and an
  entry whose query is gone or no longer pending is thrown away.
\<close>

definition process_next :: "queue_config \<Rightarrow> nat \<Rightarrow> queue_state \<Rightarrow> queue_state" where
  "process_next cfg now s =
     (if max_concurrent_queries cfg \<le> length (qs_running s) then s
      else case qs_heap s of
             [] \<Rightarrow> s
           | (_, _, i) # rest \<Rightarrow>
               (case find_query s i of
                  None \<Rightarrow> s\<lparr>qs_heap := rest\<rparr>
                | Some q \<Rightarrow>
                    if qy_status q \<noteq> QPending then s\<lparr>qs_heap := rest\<rparr>
                    else (put_query (q\<lparr>qy_status := QRunning, qy_started := Some now\<rparr>) s)
                           \<lparr>qs_heap := rest, qs_running := qs_running s @ [i]\<rparr>))"

datatype execution = Returned string | TimedOut | Raised string

definition finished :: "queue_config \<Rightarrow> execution \<Rightarrow> nat \<Rightarrow> query \<Rightarrow> query" where
  "finished cfg ans now q = (case ans of
     Returned r \<Rightarrow> q\<lparr>qy_status := QCompleted, qy_result := Some r, qy_completed := Some now\<rparr>
   | TimedOut \<Rightarrow> q\<lparr>qy_status := QFailed, qy_error := Some (''Query timeout after '' @ show_nat (query_timeout cfg) @ '' seconds''),
       qy_completed := Some now\<rparr>
   | Raised e \<Rightarrow> q\<lparr>qy_status := QFailed, qy_error := Some e, qy_completed := Some now\<rparr>)"

text \<open>The end of \<open>_execute_query\<close>; the count of a user with no query left is deleted.\<close>

definition execute_query :: "queue_config \<Rightarrow> nat \<Rightarrow> execution \<Rightarrow> queue_state \<Rightarrow> string \<Rightarrow> queue_state" where
  "execute_query cfg now ans s i =
     (if i \<notin> set (qs_running s) then s
      else case find_query s i of
        None \<Rightarrow> s
      | Some q \<Rightarrow>
          (let q' = finished cfg ans now q; n = user_count s (qy_user q) - 1 in
           (put_query q' s)\<lparr>qs_done := add_completed cfg q' (qs_done s),
              qs_running := filter (\<lambda>j. j \<noteq> i) (qs_running s),
              qs_users := (qs_users s)(qy_user q := (if n = 0 then None else Some n))\<rparr>))"

text \<open>Five minutes after a query finished.\<close>

definition cleanup_query :: "queue_state \<Rightarrow> string \<Rightarrow> queue_state" where
  "cleanup_query s i = s\<lparr>qs_queries := filter (\<lambda>q. qy_id q \<noteq> i) (qs_queries s)\<rparr>"

subsection \<open>Reads\<close>

definition estimate_wait_time :: "queue_config \<Rightarrow> nat \<Rightarrow> rat" where
  "estimate_wait_time cfg position = of_nat position / of_nat (max_concurrent_queries cfg) * 2"

datatype status_view =
    ViewRunning
  | ViewDone query_status "string option"
  | ViewPending nat rat

definition get_query_status :: "queue_config \<Rightarrow> queue_state \<Rightarrow> string \<Rightarrow> status_view option" where
  "get_query_status cfg s i =
     (if i \<in> set (qs_running s) \<and> find_query s i \<noteq> None then Some ViewRunning
      else case find_row (\<lambda>q. qy_id q = i) (qs_done s) of
        Some q \<Rightarrow> Some (ViewDone (qy_status q) (qy_error q))
      | None \<Rightarrow>
          (case find_query s i of
             Some _ \<Rightarrow> Some (ViewPending (length (qs_heap s)) (estimate_wait_time cfg (length (qs_heap s))))
           | None \<Rightarrow> None))"

text \<open>\<open>get_query_result\<close> without waiting.\<close>

datatype query_answer =
    Answer "string option"
  | NoAnswer query_status "string option"
  | NotDone "status_view option"

definition get_query_result :: "queue_config \<Rightarrow> queue_state \<Rightarrow> string \<Rightarrow> query_answer" where
  "get_query_result cfg s i = (case find_row (\<lambda>q. qy_id q = i) (qs_done s) of
     Some q \<Rightarrow> if qy_status q = QCompleted then Answer (qy_result q) else NoAnswer (qy_status q) (qy_error q)
   | None \<Rightarrow> NotDone (get_query_status cfg s i))"

definition get_queue_metrics_by_priority :: "queue_state \<Rightarrow> int \<Rightarrow> nat" where
  "get_queue_metrics_by_priority s p =
     count_where (\<lambda>q. qy_status q = QPending \<and> qy_priority q = p) (qs_queries s)"

end
