(* ===== verification/QueueFacts.thy ===== *)
theory QueueFacts
  imports QueryQueue
begin

text \<open>
  The query queue as a state machine: its invariant over every interleaving of submissions,
  cancellations, worker iterations, finishing executions and cleanups, the order in which the
  worker starts queries, and the room that cancelled queries keep.
\<close>

subsection \<open>The invariant\<close>

definition live :: "query \<Rightarrow> bool" where
  "live q \<longleftrightarrow> qy_status q = QPending \<or> qy_status q = QRunning"

definition entry_id :: "int \<times> nat \<times> string \<Rightarrow> string" where
  "entry_id e = snd (snd e)"

lemma entry_id_heap_entry [simp]: "entry_id (heap_entry q) = qy_id q"
  by (simp add: entry_id_def heap_entry_def)

definition counts_ok :: "queue_config \<Rightarrow> queue_state \<Rightarrow> bool" where
  "counts_ok cfg s \<longleftrightarrow> (\<forall>u. user_count s u = count_where (\<lambda>q. qy_user q = u \<and> live q) (qs_queries s) \<and>
     user_count s u \<le> max_queries_per_user cfg)"

definition running_ok :: "queue_config \<Rightarrow> queue_state \<Rightarrow> bool" where
  "running_ok cfg s \<longleftrightarrow> distinct (qs_running s) \<and> length (qs_running s) \<le> max_concurrent_queries cfg \<and>
     (\<forall>i. i \<in> set (qs_running s) \<longleftrightarrow> (\<exists>q\<in>set (qs_queries s). qy_id q = i \<and> qy_status q = QRunning))"

definition heap_ok :: "queue_config \<Rightarrow> queue_state \<Rightarrow> bool" where
  "heap_ok cfg s \<longleftrightarrow> sorted (qs_heap s) \<and> distinct (map entry_id (qs_heap s)) \<and>
     length (qs_heap s) \<le> max_queue_size cfg \<and>
     (\<forall>q\<in>set (qs_queries s). qy_status q = QPending \<longrightarrow> heap_entry q \<in> set (qs_heap s))"

definition queue_ok :: "queue_config \<Rightarrow> queue_state \<Rightarrow> bool" where
  "queue_ok cfg s \<longleftrightarrow> distinct (map qy_id (qs_queries s)) \<and> counts_ok cfg s \<and> running_ok cfg s \<and> heap_ok cfg s \<and>
     length (qs_done s) \<le> max_completed cfg"

text \<open>The ids are new: no query, no entry and no running task has it.\<close>

definition fresh_query :: "queue_state \<Rightarrow> string \<Rightarrow> bool" where
  "fresh_query s i \<longleftrightarrow> i \<notin> qy_id ` set (qs_queries s) \<and> i \<notin> entry_id ` set (qs_heap s) \<and> i \<notin> set (qs_running s)"

inductive queue_step :: "queue_config \<Rightarrow> queue_state \<Rightarrow> queue_state \<Rightarrow> bool" for cfg where
  submitted: "submit_query cfg admit i now s u g p = Inr s' \<Longrightarrow> fresh_query s i \<Longrightarrow> queue_step cfg s s'"
| cancelled: "cancel_query cfg now s i u = (s', b) \<Longrightarrow> queue_step cfg s s'"
| worked: "queue_step cfg s (process_next cfg now s)"
| executed: "queue_step cfg s (execute_query cfg now ans s i)"
| cleaned: "find_query s i = Some q \<Longrightarrow> qy_status q = QCompleted \<or> qy_status q = QFailed \<Longrightarrow>
    queue_step cfg s (cleanup_query s i)"

lemma find_query_Some: "find_query s i = Some q \<Longrightarrow> q \<in> set (qs_queries s) \<and> qy_id q = i"
  unfolding find_query_def by (rule find_row_Some)

lemma find_query_unique:
  "distinct (map qy_id (qs_queries s)) \<Longrightarrow> q \<in> set (qs_queries s) \<Longrightarrow> find_query s (qy_id q) = Some q"
  unfolding find_query_def by (rule find_row_unique)

lemma same_query:
  fixes s :: queue_state
  assumes "distinct (map qy_id (qs_queries s))" "q \<in> set (qs_queries s)" "r \<in> set (qs_queries s)" "qy_id q = qy_id r"
  shows "q = r"
proof -
  have "find_query s (qy_id r) = Some q" using find_query_unique [OF assms(1,2)] assms(4) by simp
  moreover have "find_query s (qy_id r) = Some r" using find_query_unique [OF assms(1,3)] .
  ultimately show ?thesis by simp
qed

lemma put_query_rows:
  assumes "distinct (map qy_id (qs_queries s))" "find_query s i = Some q" "qy_id q' = i"
  shows "map qy_id (qs_queries (put_query q' s)) = map qy_id (qs_queries s)"
    and "x \<in> set (qs_queries (put_query q' s)) \<longleftrightarrow> x = q' \<or> x \<in> set (qs_queries s) \<and> qy_id x \<noteq> i"
    and "count_where P (qs_queries (put_query q' s)) + (if P q then 1 else 0) =
      count_where P (qs_queries s) + (if P q' then 1 else 0)"
  using assms keys_keyed_update [of qy_id q' i] member_keyed_update [of qy_id i "qs_queries s" q x q']
    count_keyed_update [of qy_id "qs_queries s" i q q' P]
  by (simp_all add: put_query_def find_query_def)

lemma put_query_frame [simp]:
  "qs_heap (put_query q s) = qs_heap s" "qs_users (put_query q s) = qs_users s"
  "qs_running (put_query q s) = qs_running s" "qs_done (put_query q s) = qs_done s"
  "user_count (put_query q s) u = user_count s u"
  by (simp_all add: put_query_def user_count_def)

lemma add_completed_length: "length (add_completed cfg q ds) \<le> max_completed cfg"
  by (simp add: add_completed_def Let_def)

subsection \<open>Each operation keeps it\<close>

lemma counts_okD:
  assumes "counts_ok cfg s"
  shows "user_count s u = count_where (\<lambda>q. qy_user q = u \<and> live q) (qs_queries s)"
    and "user_count s u \<le> max_queries_per_user cfg"
  using assms unfolding counts_ok_def by blast+

lemma counts_ok_frame:
  assumes "\<And>u. user_count s' u = user_count s u"
    and "\<And>u. count_where (\<lambda>q. qy_user q = u \<and> live q) (qs_queries s') = count_where (\<lambda>q. qy_user q = u \<and> live q) (qs_queries s)"
  shows "counts_ok cfg s' \<longleftrightarrow> counts_ok cfg s"
  using assms by (simp add: counts_ok_def)

text \<open>An operation that changes the count of one user only.\<close>

lemma counts_okI:
  assumes "\<And>v. user_count s' v = (if v = u then n else user_count s v)"
    and "counts_ok cfg s" "n \<le> max_queries_per_user cfg"
    and "count_where (\<lambda>q. qy_user q = u \<and> live q) (qs_queries s') = n"
    and "\<And>v. v \<noteq> u \<Longrightarrow> count_where (\<lambda>q. qy_user q = v \<and> live q) (qs_queries s') =
      count_where (\<lambda>q. qy_user q = v \<and> live q) (qs_queries s)"
  shows "counts_ok cfg s'"
  using assms unfolding counts_ok_def by metis

lemma submit_keeps:
  assumes "submit_query cfg admit i now s u g p = Inr s'" "fresh_query s i" "queue_ok cfg s"
  shows "queue_ok cfg s'"
proof -
  let ?q = "new_query i u g p now"
  from assms(1) have room: "length (qs_heap s) < max_queue_size cfg" "user_count s u < max_queries_per_user cfg"
    and s': "s' = s\<lparr>qs_queries := qs_queries s @ [?q], qs_users := (qs_users s)(u := Some (user_count s u + 1)),
      qs_heap := insort (heap_entry ?q) (qs_heap s)\<rparr>"
    by (auto simp: submit_query_def Let_def split: if_splits)
  have q: "qy_id ?q = i" "qy_user ?q = u" "qy_status ?q = QPending" "live ?q"
    by (simp_all add: new_query_def live_def)
  have ok: "distinct (map qy_id (qs_queries s))" "counts_ok cfg s" "running_ok cfg s" "heap_ok cfg s"
    "length (qs_done s) \<le> max_completed cfg" using assms(3) by (simp_all add: queue_ok_def)
  have "user_count s' v = (if v = u then user_count s u + 1 else user_count s v)" for v
    by (simp add: s' user_count_def)
  then have "counts_ok cfg s'"
  proof (rule counts_okI [OF _ ok(2)])
    have "user_count s u = count_where (\<lambda>q. qy_user q = u \<and> live q) (qs_queries s)"
      using counts_okD(1) [OF ok(2)] .
    then show "count_where (\<lambda>q. qy_user q = u \<and> live q) (qs_queries s') = user_count s u + 1"
      using q by (simp add: s' count_where_snoc)
  qed (use room(2) q in \<open>simp_all add: s' count_where_snoc\<close>)
  moreover have "running_ok cfg s'" using ok(3) q by (auto simp: running_ok_def s')
  moreover have "heap_entry ?q \<notin> set (qs_heap s)"
    using assms(2) entry_id_heap_entry [of ?q] q(1) unfolding fresh_query_def by (metis image_eqI)
  then have "heap_ok cfg s'"
    using ok(4) room(1) q assms(2) by (auto simp: heap_ok_def s' fresh_query_def sorted_insort set_insort_key distinct_map
        distinct_insort inj_on_def)
  ultimately show ?thesis using ok q assms(2) by (simp add: queue_ok_def s' fresh_query_def)
qed

text \<open>
  The other three operations replace one live query by a version that is no longer pending.
\<close>

lemma replace_keeps:
  assumes "queue_ok cfg s" and f: "find_query s i = Some q" and "live q"
    and q': "qy_id q' = i" "qy_user q' = qy_user q" "qy_status q' \<noteq> QPending"
    and t: "qs_queries t = qs_queries (put_query q' s)" "length (qs_done t) \<le> max_completed cfg"
    and counts: "\<And>v. user_count t v = (if v = qy_user q then user_count s v - (if live q' then 0 else 1) else user_count s v)"
    and running: "distinct (qs_running t)" "length (qs_running t) \<le> max_concurrent_queries cfg"
      "\<And>j. j \<in> set (qs_running t) \<longleftrightarrow> (if j = i then qy_status q' = QRunning else j \<in> set (qs_running s))"
    and heap: "qs_heap t = qs_heap s \<or> (\<exists>e. entry_id e = i \<and> qs_heap s = e # qs_heap t)"
  shows "queue_ok cfg t"
proof -
  have ok: "distinct (map qy_id (qs_queries s))" "counts_ok cfg s" "running_ok cfg s" "heap_ok cfg s"
    using assms(1) by (simp_all add: queue_ok_def)
  have q: "qy_id q = i" "q \<in> set (qs_queries s)" using find_query_Some [OF f] by auto
  note rows = put_query_rows [OF ok(1) f q'(1)]
  have member: "x \<in> set (qs_queries t) \<longleftrightarrow> x = q' \<or> x \<in> set (qs_queries s) \<and> qy_id x \<noteq> i" for x
    using rows(2) t(1) by simp
  have count: "count_where P (qs_queries t) + (if P q then 1 else 0) = count_where P (qs_queries s) + (if P q' then 1 else 0)" for P
    using rows(3) t(1) by simp
  have "counts_ok cfg t"
  proof (rule counts_okI)
    show "user_count t v = (if v = qy_user q then user_count s (qy_user q) - (if live q' then 0 else 1) else user_count s v)" for v
      using counts [of v] by simp
    have n: "user_count s (qy_user q) = count_where (\<lambda>x. qy_user x = qy_user q \<and> live x) (qs_queries s)"
      "user_count s (qy_user q) \<le> max_queries_per_user cfg"
      using counts_okD [OF ok(2)] by blast+
    then show "user_count s (qy_user q) - (if live q' then 0 else 1) \<le> max_queries_per_user cfg" by simp
    show "count_where (\<lambda>x. qy_user x = qy_user q \<and> live x) (qs_queries t) = user_count s (qy_user q) - (if live q' then 0 else 1)"
      using count [of "\<lambda>x. qy_user x = qy_user q \<and> live x"] n(1) assms(3) q'(2) by (simp split: if_splits)
    show "count_where (\<lambda>x. qy_user x = v \<and> live x) (qs_queries t) = count_where (\<lambda>x. qy_user x = v \<and> live x) (qs_queries s)"
      if "v \<noteq> qy_user q" for v
      using count [of "\<lambda>x. qy_user x = v \<and> live x"] q'(2) that by simp
  qed (rule ok(2))
  moreover have "(\<exists>x\<in>set (qs_queries t). qy_id x = j \<and> qy_status x = QRunning) \<longleftrightarrow> j \<in> set (qs_running t)" for j
  proof (cases "j = i")
    case True
    with member q' running(3) [of j] show ?thesis by auto
  next
    case False
    with member q' running(3) [of j] ok(3) show ?thesis unfolding running_ok_def by auto
  qed
  with running have "running_ok cfg t" by (simp add: running_ok_def)
  moreover have "heap_ok cfg t"
    using heap ok(4)
  proof (elim disjE exE conjE)
    assume "qs_heap t = qs_heap s"
    with ok(4) member q'(3) show ?thesis by (auto simp: heap_ok_def)
  next
    fix e assume e: "entry_id e = i" "qs_heap s = e # qs_heap t"
    have "heap_entry x \<in> set (qs_heap t)" if "x \<in> set (qs_queries t)" "qy_status x = QPending" for x
      using that member q'(3) ok(4) e entry_id_heap_entry [of x] by (auto simp: heap_ok_def)
    with e ok(4) show ?thesis by (simp add: heap_ok_def)
  qed
  ultimately show ?thesis using ok rows(1) t by (simp add: queue_ok_def)
qed

lemma running_query:
  assumes "queue_ok cfg s" "find_query s i = Some q"
  shows "i \<in> set (qs_running s) \<longleftrightarrow> qy_status q = QRunning"
proof -
  have "distinct (map qy_id (qs_queries s))" "running_ok cfg s" using assms(1) by (simp_all add: queue_ok_def)
  with find_query_Some [OF assms(2)] same_query [of s q] show ?thesis unfolding running_ok_def by metis
qed

lemma cancel_keeps:
  assumes "cancel_query cfg now s i u = (s', b)" "queue_ok cfg s"
  shows "queue_ok cfg s'"
proof (cases b)
  case False
  with assms show ?thesis by (auto simp: cancel_query_def Let_def split: option.splits if_splits)
next
  case True
  with assms(1) obtain q where f: "find_query s i = Some q" and u: "qy_user q = u" "qy_status q = QPending"
    by (auto simp: cancel_query_def split: option.splits if_splits)
  let ?q = "q\<lparr>qy_status := QCancelled, qy_completed := Some now\<rparr>"
  have s': "s' = (put_query ?q s)\<lparr>qs_done := add_completed cfg ?q (qs_done s),
      qs_users := (qs_users s)(u := Some (user_count s u - 1))\<rparr>"
    using assms(1) f u by (simp add: cancel_query_def Let_def)
  have "i \<notin> set (qs_running s)" using running_query [OF assms(2) f] u by simp
  then show ?thesis
    using assms(2) u find_query_Some [OF f]
    by (intro replace_keeps [OF assms(2) f, of ?q])
      (auto simp: s' live_def user_count_def add_completed_length queue_ok_def running_ok_def)
qed

lemma work_keeps:
  assumes "queue_ok cfg s"
  shows "queue_ok cfg (process_next cfg now s)"
proof (cases "process_next cfg now s = s")
  case False
  then obtain p c i rest where h: "qs_heap s = (p, c, i) # rest" "length (qs_running s) < max_concurrent_queries cfg"
    by (auto simp: process_next_def split: list.splits if_splits)
  show ?thesis
  proof (cases "\<exists>q. find_query s i = Some q \<and> qy_status q = QPending")
    case True
    then obtain q where f: "find_query s i = Some q" and p: "qy_status q = QPending" by blast
    let ?q = "q\<lparr>qy_status := QRunning, qy_started := Some now\<rparr>"
    have "process_next cfg now s = (put_query ?q s)\<lparr>qs_heap := rest, qs_running := qs_running s @ [i]\<rparr>"
      using h f p by (simp add: process_next_def)
    moreover have "i \<notin> set (qs_running s)" using running_query [OF assms f] p by simp
    ultimately show ?thesis
      using assms h p find_query_Some [OF f]
      by (intro replace_keeps [OF assms f, of ?q])
        (auto simp: live_def user_count_def queue_ok_def running_ok_def entry_id_def)
  next
    case none: False
    with h have s': "process_next cfg now s = s\<lparr>qs_heap := rest\<rparr>"
      by (auto simp: process_next_def split: option.splits)
    have "heap_entry q \<in> set rest" if "q \<in> set (qs_queries s)" "qy_status q = QPending" for q
    proof -
      have "qy_id q \<noteq> i" using none find_query_unique [of s q] assms that by (auto simp: queue_ok_def)
      then have "heap_entry q \<noteq> (p, c, i)" by (auto simp: heap_entry_def)
      with assms that h show ?thesis by (auto simp: queue_ok_def heap_ok_def)
    qed
    moreover have "counts_ok cfg (s\<lparr>qs_heap := rest\<rparr>) \<longleftrightarrow> counts_ok cfg s"
      by (rule counts_ok_frame) (simp_all add: user_count_def)
    ultimately show ?thesis
      using assms h by (auto simp: s' queue_ok_def heap_ok_def running_ok_def)
  qed
qed (use assms in simp)

lemma finished_simps [simp]:
  "qy_id (finished cfg ans now q) = qy_id q" "qy_user (finished cfg ans now q) = qy_user q"
  "qy_status (finished cfg ans now q) \<noteq> QPending" "qy_status (finished cfg ans now q) \<noteq> QRunning"
  by (cases ans; simp add: finished_def)+

lemma execute_keeps:
  assumes "queue_ok cfg s"
  shows "queue_ok cfg (execute_query cfg now ans s i)"
proof (cases "\<exists>q. i \<in> set (qs_running s) \<and> find_query s i = Some q")
  case True
  then obtain q where r: "i \<in> set (qs_running s)" and f: "find_query s i = Some q" by blast
  let ?q = "finished cfg ans now q" and ?n = "user_count s (qy_user q) - 1"
  have s': "execute_query cfg now ans s i = (put_query ?q s)\<lparr>qs_done := add_completed cfg ?q (qs_done s),
      qs_running := filter (\<lambda>j. j \<noteq> i) (qs_running s), qs_users := (qs_users s)(qy_user q := (if ?n = 0 then None else Some ?n))\<rparr>"
    using r f by (simp add: execute_query_def Let_def)
  have "length (filter (\<lambda>j. j \<noteq> i) (qs_running s)) \<le> max_concurrent_queries cfg"
    using assms unfolding queue_ok_def running_ok_def by (meson le_trans length_filter_le)
  with r running_query [OF assms f] assms find_query_Some [OF f] show ?thesis
    by (intro replace_keeps [OF assms f, of ?q])
      (auto simp: s' live_def user_count_def add_completed_length queue_ok_def running_ok_def)
qed (use assms in \<open>auto simp: execute_query_def split: option.splits\<close>)

lemma cleanup_keeps:
  assumes "queue_ok cfg s" "find_query s i = Some q" "qy_status q = QCompleted \<or> qy_status q = QFailed"
  shows "queue_ok cfg (cleanup_query s i)"
proof -
  have d: "distinct (map qy_id (qs_queries s))" using assms(1) by (simp add: queue_ok_def)
  have dead: "\<not> live x" if "x \<in> set (qs_queries s)" "qy_id x = i" for x
    using find_query_unique [OF d that(1)] that(2) assms(2,3) by (auto simp: live_def)
  have "count_where (\<lambda>x. qy_user x = u \<and> live x) (filter (\<lambda>x. qy_id x \<noteq> i) (qs_queries s)) =
      count_where (\<lambda>x. qy_user x = u \<and> live x) (qs_queries s)" for u
    using dead by (auto simp: count_where_def intro!: arg_cong [where f = length] filter_cong)
  then have "counts_ok cfg (cleanup_query s i) \<longleftrightarrow> counts_ok cfg s"
    by (intro counts_ok_frame) (simp_all add: cleanup_query_def user_count_def)
  moreover have "running_ok cfg (cleanup_query s i)"
    using assms(1) dead unfolding queue_ok_def running_ok_def cleanup_query_def live_def by fastforce
  ultimately show ?thesis
    using assms(1) d distinct_map_filter [OF d] by (auto simp: queue_ok_def heap_ok_def cleanup_query_def)
qed

lemma queue_step_keeps: "queue_step cfg s s' \<Longrightarrow> queue_ok cfg s \<Longrightarrow> queue_ok cfg s'"
  by (induction rule: queue_step.induct)
    (auto intro: submit_keeps cancel_keeps work_keeps execute_keeps cleanup_keeps)

lemma empty_queue_ok: "queue_ok cfg empty_queue"
  by (simp add: queue_ok_def counts_ok_def running_ok_def heap_ok_def empty_queue_def user_count_def count_where_def)

interpretation queue: step_invariant "queue_step cfg" "queue_ok cfg"
  by unfold_locales (rule queue_step_keeps)

subsection \<open>Bounds\<close>

text \<open>
  C24. Whatever the interleaving, the queue never holds more than its size, never runs more than
  its concurrency, keeps a bounded history, and counts every user's pending and running
  queries exactly, never above the user's limit. The tasks are exactly the running queries,
  and every pending query has its entry in the priority queue.
\<close>

theorem queue_limits_hold:
  assumes "(queue_step cfg)\<^sup>*\<^sup>* empty_queue s"
  shows "length (qs_heap s) \<le> max_queue_size cfg \<and>
    length (qs_running s) \<le> max_concurrent_queries cfg \<and> length (qs_done s) \<le> max_completed cfg \<and>
    (\<forall>u. user_count s u = count_where (\<lambda>q. qy_user q = u \<and> live q) (qs_queries s) \<and>
       user_count s u \<le> max_queries_per_user cfg) \<and>
    (\<forall>i. i \<in> set (qs_running s) \<longleftrightarrow> (\<exists>q\<in>set (qs_queries s). qy_id q = i \<and> qy_status q = QRunning)) \<and>
    (\<forall>q\<in>set (qs_queries s). qy_status q = QPending \<longrightarrow> heap_entry q \<in> set (qs_heap s))"
proof -
  have ok: "queue_ok cfg s" using queue.run_keeps [OF assms empty_queue_ok] .
  then have "counts_ok cfg s" by (simp add: queue_ok_def)
  from counts_okD [OF this] ok show ?thesis by (simp add: queue_ok_def running_ok_def heap_ok_def)
qed

subsection \<open>Order of service\<close>

text \<open>The worker's iterations at the given times.\<close>

fun run_worker :: "queue_config \<Rightarrow> nat list \<Rightarrow> queue_state \<Rightarrow> queue_state" where
  "run_worker cfg [] s = s"
| "run_worker cfg (t # ts) s = run_worker cfg ts (process_next cfg t s)"

lemma process_pops:
  assumes "qs_heap s = e # rest" "length (qs_running s) < max_concurrent_queries cfg"
  shows "qs_heap (process_next cfg t s) = rest \<and> length (qs_running (process_next cfg t s)) \<le> Suc (length (qs_running s))"
  using assms by (cases e) (auto simp: process_next_def split: option.splits)

lemma process_keeps_others:
  assumes "queue_ok cfg s" "qs_heap s = e # rest" "find_query s i = Some q" "entry_id e \<noteq> i"
  shows "find_query (process_next cfg t s) i = Some q"
proof -
  obtain p c j where e: "e = (p, c, j)" by (cases e)
  have j: "j \<noteq> i" using assms(4) e by (simp add: entry_id_def)
  have other: "find_query (put_query r s) i = Some q" if "qy_id r = j" for r
    using find_keyed_update [of qy_id r j i "qs_queries s"] that j assms(3) by (simp add: find_query_def put_query_def)
  have frame: "find_query (t\<lparr>qs_heap := h\<rparr>) i = find_query t i"
    "find_query (t\<lparr>qs_heap := h, qs_running := r\<rparr>) i = find_query t i" for t h r
    by (simp_all add: find_query_def)
  show ?thesis
  proof (cases "find_query s j")
    case None
    with assms(2,3) e frame show ?thesis by (simp add: process_next_def)
  next
    case (Some r)
    with find_query_Some [OF this] other [of "r\<lparr>qy_status := QRunning, qy_started := Some t\<rparr>"] assms(2,3) e frame
    show ?thesis by (simp add: process_next_def)
  qed
qed

lemma worker_reaches:
  assumes "queue_ok cfg s" "find_query s i = Some q" "qy_status q = QPending"
    and "qs_heap s = xs @ heap_entry q # ys" "length (qs_running s) + length xs < max_concurrent_queries cfg"
    and "length ts = Suc (length xs)"
  shows "\<exists>q'. find_query (run_worker cfg ts s) i = Some q' \<and> qy_status q' = QRunning"
  using assms
proof (induction xs arbitrary: s ts)
  case Nil
  have i: "qy_id q = i" using find_query_Some [OF Nil.prems(2)] by simp
  obtain t where ts: "ts = [t]" using Nil.prems(6) by (metis Suc_length_conv length_0_conv list.size(3))
  let ?q = "q\<lparr>qy_status := QRunning, qy_started := Some t\<rparr>"
  have "run_worker cfg ts s = (put_query ?q s)\<lparr>qs_heap := ys, qs_running := qs_running s @ [i]\<rparr>"
    using Nil.prems(2-5) i by (simp add: ts process_next_def heap_entry_def)
  moreover have "find_query (put_query ?q s) i = Some ?q"
    using find_keyed_update [of qy_id ?q i i "qs_queries s"] find_query_Some [OF Nil.prems(2)]
    by (auto simp: find_query_def put_query_def)
  ultimately show ?case by (simp add: find_query_def)
next
  case (Cons e xs)
  obtain t ts' where ts: "ts = t # ts'" "length ts' = Suc (length xs)" using Cons.prems(6) by (cases ts) auto
  have i: "qy_id q = i" using find_query_Some [OF Cons.prems(2)] by simp
  have "distinct (map entry_id (qs_heap s))" using Cons.prems(1) by (simp add: queue_ok_def heap_ok_def)
  then have ne: "entry_id e \<noteq> i" using Cons.prems(4) i entry_id_heap_entry [of q] by auto
  have heap: "qs_heap s = e # xs @ heap_entry q # ys" using Cons.prems(4) by simp
  have "length (qs_running s) < max_concurrent_queries cfg" using Cons.prems(5) by simp
  from process_pops [OF heap this, of t] Cons.prems(5)
  have "qs_heap (process_next cfg t s) = xs @ heap_entry q # ys"
    "length (qs_running (process_next cfg t s)) + length xs < max_concurrent_queries cfg" by auto
  from Cons.IH [OF work_keeps [OF Cons.prems(1)] process_keeps_others [OF Cons.prems(1) heap Cons.prems(2) ne]
      Cons.prems(3) this ts(2)] show ?case by (simp add: ts)
qed


subsection \<open>Cancelled queries keep their room\<close>

text \<open>One user submits and cancels, again and again.\<close>

fun flood :: "queue_config \<Rightarrow> (nat \<Rightarrow> nat \<Rightarrow> int \<Rightarrow> admission) \<Rightarrow> string \<Rightarrow> string \<Rightarrow> int \<Rightarrow> (string \<times> nat) list \<Rightarrow> queue_state \<Rightarrow> queue_state" where
  "flood cfg admit u g p [] s = s"
| "flood cfg admit u g p ((i, now) # is) s =
     (case submit_query cfg admit i now s u g p of
        Inl _ \<Rightarrow> s
      | Inr s1 \<Rightarrow> flood cfg admit u g p is (fst (cancel_query cfg now s1 i u)))"

lemma submit_cancel:
  assumes "queue_ok cfg s" "fresh_query s i" "user_count s u < max_queries_per_user cfg"
    "length (qs_heap s) < max_queue_size cfg" "admit (length (qs_heap s)) (max_queue_size cfg) p = Accept"
    "submit_query cfg admit i now s u g p = Inr s1" "cancel_query cfg now s1 i u = (s2, b)"
  shows "length (qs_heap s2) = Suc (length (qs_heap s)) \<and> user_count s2 v = user_count s v \<and>
    qs_running s2 = qs_running s \<and> filter live (qs_queries s2) = filter live (qs_queries s) \<and>
    (\<forall>j. j \<noteq> i \<longrightarrow> fresh_query s j \<longrightarrow> fresh_query s2 j)"
proof -
  let ?q = "new_query i u g p now"
  have s1: "s1 = s\<lparr>qs_queries := qs_queries s @ [?q], qs_users := (qs_users s)(u := Some (user_count s u + 1)),
      qs_heap := insort (heap_entry ?q) (qs_heap s)\<rparr>"
    using assms(3-6) by (simp add: submit_query_def Let_def)
  have none: "find_query s i = None" using assms(2) by (auto simp: find_query_def find_row_None fresh_query_def image_iff)
  then have f: "find_query s1 i = Some ?q" by (simp add: s1 find_query_def find_row_append new_query_def)
  let ?c = "?q\<lparr>qy_status := QCancelled, qy_completed := Some now\<rparr>"
  have "\<forall>x\<in>set (qs_queries s). qy_id x \<noteq> i" using assms(2) by (auto simp: fresh_query_def)
  then have "update_where (\<lambda>x. qy_id x = i) (\<lambda>_. ?c) (qs_queries s) = qs_queries s"
    by (intro update_where_cong) auto
  then have rows: "qs_queries (put_query ?c s1) = qs_queries s @ [?c]"
    by (simp add: put_query_def s1 new_query_def update_where_def)
  have s2: "s2 = (put_query ?c s1)\<lparr>qs_done := add_completed cfg ?c (qs_done s1), qs_users := (qs_users s1)(u := Some (user_count s1 u - 1))\<rparr>"
    using assms(7) f by (simp add: cancel_query_def Let_def new_query_def)
  have "entry_id ` set (insort (heap_entry ?q) (qs_heap s)) = insert i (entry_id ` set (qs_heap s))"
    by (simp add: set_insort_key new_query_def)
  then show ?thesis
    using rows by (auto simp: s2 s1 user_count_def live_def fresh_query_def new_query_def)
qed

lemma flood_fills:
  assumes "queue_ok cfg s" "distinct (map fst is)" "\<forall>x\<in>set is. fresh_query s (fst x)"
    "user_count s u < max_queries_per_user cfg" "length (qs_heap s) + length is \<le> max_queue_size cfg"
    "\<forall>d. admit d (max_queue_size cfg) p = Accept"
  shows "length (qs_heap (flood cfg admit u g p is s)) = length (qs_heap s) + length is \<and>
    user_count (flood cfg admit u g p is s) v = user_count s v \<and>
    filter live (qs_queries (flood cfg admit u g p is s)) = filter live (qs_queries s)"
  using assms
proof (induction "is" arbitrary: s)
  case (Cons x xs)
  obtain i now where x: "x = (i, now)" by fastforce
  have room: "length (qs_heap s) < max_queue_size cfg" "fresh_query s i" using Cons.prems(3,5) x by auto
  then obtain s1 where s1: "submit_query cfg admit i now s u g p = Inr s1"
    using Cons.prems(4,6) by (simp add: submit_query_def Let_def)
  obtain s2 b where s2: "cancel_query cfg now s1 i u = (s2, b)" by fastforce
  have eff: "length (qs_heap s2) = Suc (length (qs_heap s))" "user_count s2 w = user_count s w"
    "filter live (qs_queries s2) = filter live (qs_queries s)" "\<forall>j. j \<noteq> i \<longrightarrow> fresh_query s j \<longrightarrow> fresh_query s2 j" for w
    using submit_cancel [OF Cons.prems(1) room(2) Cons.prems(4) room(1) _ s1 s2, of w] Cons.prems(6) by auto
  have "queue_ok cfg s2" using cancel_keeps [OF s2 submit_keeps [OF s1 room(2) Cons.prems(1)]] .
  moreover have "\<forall>y\<in>set xs. fresh_query s2 (fst y)"
    using Cons.prems(2,3) eff(4) x by (force simp: image_iff)
  ultimately show ?case
    using Cons.IH [of s2] Cons.prems(2,4-6) eff(1-3) x s1 s2 by simp
qed simp

text \<open>
  A cancelled query keeps its entry until the worker meets it, while the user's count is
  given back at once. So one user below the limit can fill what is left of the queue by
  submitting and cancelling: no further query is pending or running and the user's count is
  unchanged, but every submission, by anyone, is refused because the queue is full.
\<close>

theorem cancelled_queries_fill_the_queue:
  assumes "(queue_step cfg)\<^sup>*\<^sup>* empty_queue s" "distinct (map fst is)" "\<forall>x\<in>set is. fresh_query s (fst x)"
    and "user_count s u < max_queries_per_user cfg" "length (qs_heap s) + length is = max_queue_size cfg"
    and "\<forall>d. admit d (max_queue_size cfg) p = Accept" "t = flood cfg admit u g p is s"
  shows "filter live (qs_queries t) = filter live (qs_queries s) \<and> (\<forall>v. user_count t v = user_count s v) \<and>
    (admit' (max_queue_size cfg) (max_queue_size cfg) p' = Accept \<longrightarrow>
      submit_query cfg admit' i now t v g' p' = Inl QueueFull)"
proof -
  have ok: "queue_ok cfg s" using queue.run_keeps [OF assms(1) empty_queue_ok] .
  have "length (qs_heap s) + length is \<le> max_queue_size cfg" using assms(5) by simp
  from flood_fills [where g = g and admit = admit and p = p, OF ok assms(2-4) this assms(6)] assms(5,7) show ?thesis
    by (auto simp: submit_query_def)
qed

subsection \<open>Witnesses\<close>

definition demo_limits :: queue_config where
  "demo_limits = \<lparr>max_queue_size = 2, max_concurrent_queries = 1, max_queries_per_user = 1, max_completed = 5, query_timeout = 300\<rparr>"

definition demo_admit :: "nat \<Rightarrow> nat \<Rightarrow> int \<Rightarrow> admission" where
  "demo_admit = check_admission \<lparr>memory_threshold = 85, cpu_threshold = 90, queue_threshold = 8 / 10, shedding_enabled = False\<rparr>
     \<lparr>memory_percent = 50, cpu_percent = 50, load_average = 1\<rparr> 0 0"

text \<open>A query of priority 5 and a later one of priority 7.\<close>

definition demo_two :: "submit_error + queue_state" where
  "demo_two = bindR (submit_query demo_limits demo_admit ''q1'' 1 empty_queue ''u1'' ''kg1'' 5) (\<lambda>s.
     submit_query demo_limits demo_admit ''q2'' 2 s ''u2'' ''kg1'' 7)"

lemma demo_two_reached: "\<exists>s. demo_two = Inr s \<and> (queue_step demo_limits)\<^sup>*\<^sup>* empty_queue s"
proof -
  have "is_ok demo_two" by code_simp
  then obtain s1 s2 where s1: "submit_query demo_limits demo_admit ''q1'' 1 empty_queue ''u1'' ''kg1'' 5 = Inr s1"
    and s2: "submit_query demo_limits demo_admit ''q2'' 2 s1 ''u2'' ''kg1'' 7 = Inr s2" and s: "demo_two = Inr s2"
    unfolding demo_two_def by (auto simp: is_ok_def bindR_def split: sum.splits)
  have "case submit_query demo_limits demo_admit ''q1'' 1 empty_queue ''u1'' ''kg1'' 5 of
      Inr s \<Rightarrow> fresh_query s ''q2'' | _ \<Rightarrow> False" by code_simp
  then have "fresh_query s1 ''q2''" unfolding s1 sum.case .
  moreover have "fresh_query empty_queue ''q1''" by (simp add: fresh_query_def empty_queue_def)
  ultimately have "queue_step demo_limits empty_queue s1" "queue_step demo_limits s1 s2"
    using queue_step.submitted [OF s1] queue_step.submitted [OF s2] by blast+
  then show ?thesis using s by (meson rtranclp.rtrancl_into_rtrancl rtranclp.rtrancl_refl)
qed

lemma queue_limits_hold_witness:
  "\<exists>s. demo_two = Inr s \<and> length (qs_heap s) = 2 \<and> user_count s ''u1'' = 1 \<and>
     (\<forall>u. user_count s u \<le> max_queries_per_user demo_limits)"
proof -
  obtain s where s: "demo_two = Inr s" and r: "(queue_step demo_limits)\<^sup>*\<^sup>* empty_queue s" using demo_two_reached by blast
  have "case demo_two of Inr s \<Rightarrow> length (qs_heap s) = 2 \<and> user_count s ''u1'' = 1 | _ \<Rightarrow> False" by code_simp
  then have "length (qs_heap s) = 2 \<and> user_count s ''u1'' = 1" unfolding s sum.case .
  moreover have "\<forall>u. user_count s u \<le> max_queries_per_user demo_limits" using queue_limits_hold [OF r] by blast
  ultimately show ?thesis using s by blast
qed


lemma cancelled_queries_fill_the_queue_witness:
  "submit_query demo_limits demo_admit ''c'' 9
     (flood demo_limits demo_admit ''u1'' ''kg1'' 5 [(''a'', 1), (''b'', 2)] empty_queue) ''u2'' ''kg2'' 9 = Inl QueueFull"
proof -
  have a: "\<forall>d c p. demo_admit d c p = Accept" by (simp add: demo_admit_def check_admission_def)
  have f: "\<forall>x\<in>set [(''a'', 1 :: nat), (''b'', 2)]. fresh_query empty_queue (fst x)"
    by (simp add: fresh_query_def empty_queue_def)
  have d: "distinct (map fst [(''a'', 1 :: nat), (''b'', 2)])" by simp
  have "user_count empty_queue ''u1'' < max_queries_per_user demo_limits"
    "length (qs_heap empty_queue) + length [(''a'', 1 :: nat), (''b'', 2)] = max_queue_size demo_limits"
    by (simp_all add: user_count_def empty_queue_def demo_limits_def)
  from cancelled_queries_fill_the_queue [OF rtranclp.rtrancl_refl d f this, of demo_admit 5
      "flood demo_limits demo_admit ''u1'' ''kg1'' 5 [(''a'', 1), (''b'', 2)] empty_queue" "''kg1''" demo_admit 9 "''c''" 9 "''u2''" "''kg2''"] a
  show ?thesis by blast
qed

end
