(* ===== verification/RedirectUris.thy ===== *)
theory RedirectUris
  imports Texts
begin

text \<open>
  Redirect URIs of OAuth clients (\<open>operations/oauth_server/clients.py\<close>): what may be
  registered, when a presented URI matches a registered one, and the URI an authorization
  request is answered at. Below them the parts of the standard library they rest on, as in
  CPython 3.13: \<open>urlsplit\<close> with its derived \<open>hostname\<close> and \<open>port\<close>, and the address literals
  of \<open>ipaddress\<close>. \<open>None\<close> of these is a raised \<open>ValueError\<close>.
\<close>

subsection \<open>Address literals\<close>

datatype ip_address = IPv4 int int int int | IPv6 "int list"

definition parse_octet :: "string \<Rightarrow> int option" where
  "parse_octet s =
     (if s = [] \<or> 3 < length s \<or> \<not> list_all digit s \<or> (1 < length s \<and> hd s = CHR ''0'') then None
      else if int_of_digits s \<le> 255 then Some (int_of_digits s) else None)"

definition ipv4_address :: "string \<Rightarrow> ip_address option" where
  "ipv4_address s = (case map parse_octet (split_chr CHR ''.'' s) of
     [Some a, Some b, Some c, Some d] \<Rightarrow> Some (IPv4 a b c d) | _ \<Rightarrow> None)"

text \<open>A piece between two colons: empty, not a hextet, or its value.\<close>

datatype hextet = HexEmpty | HexBad | HexVal int

definition hextet :: "string \<Rightarrow> hextet" where
  "hextet s = (if s = [] then HexEmpty
     else if length s \<le> 4 \<and> list_all hex_any s then HexVal (int_of_hex s) else HexBad)"

definition ipv6_pieces :: "string \<Rightarrow> hextet list" where
  "ipv6_pieces s =
     (let ps = split_chr CHR '':'' s in
      if CHR ''.'' \<in> set (last ps) then
        map hextet (butlast ps) @ (case ipv4_address (last ps) of
          Some (IPv4 a b c d) \<Rightarrow> [HexVal (256 * a + b), HexVal (256 * c + d)] | _ \<Rightarrow> [HexBad])
      else map hextet ps)"

definition hextet_vals :: "hextet list \<Rightarrow> int list option" where
  "hextet_vals hs = (if list_all (\<lambda>h. case h of HexVal _ \<Rightarrow> True | _ \<Rightarrow> False) hs
     then Some (map (\<lambda>h. case h of HexVal n \<Rightarrow> n | _ \<Rightarrow> 0) hs) else None)"

text \<open>An empty piece at the very end may only stand beside the double colon.\<close>

definition outer :: "hextet list \<Rightarrow> hextet list" where
  "outer hs = (if hs = [HexEmpty] then [] else hs)"

definition ipv6_address :: "string \<Rightarrow> ip_address option" where
  "ipv6_address t =
     (let s = before_chr CHR ''%'' t; zone = after_chr CHR ''%'' t; ps = ipv6_pieces s;
          gaps = filter (\<lambda>i. ps ! i = HexEmpty) [1..<length ps - 1]
      in if CHR ''%'' \<in> set t \<and> (zone = [] \<or> CHR ''%'' \<in> set zone) then None
         else if length (split_chr CHR '':'' s) < 3 \<or> 9 < length ps then None
         else case gaps of
           [] \<Rightarrow> if length ps = 8 then map_option IPv6 (hextet_vals ps) else None
         | [k] \<Rightarrow>
             (let hi = outer (take k ps); lo = outer (drop (k + 1) ps)
              in if 8 \<le> length hi + length lo then None
                 else case (hextet_vals hi, hextet_vals lo) of
                   (Some a, Some b) \<Rightarrow> Some (IPv6 (a @ replicate (8 - (length a + length b)) 0 @ b))
                 | _ \<Rightarrow> None)
         | _ \<Rightarrow> None)"

definition ip_address :: "string \<Rightarrow> ip_address option" where
  "ip_address s = (case ipv4_address s of Some a \<Rightarrow> Some a | None \<Rightarrow> ipv6_address s)"

text \<open>An IPv4 address mapped into IPv6 is judged as the IPv4 address.\<close>

definition ip_is_loopback :: "ip_address \<Rightarrow> bool" where
  "ip_is_loopback a = (case a of
     IPv4 n _ _ _ \<Rightarrow> n = 127
   | IPv6 hs \<Rightarrow> if take 6 hs = [0, 0, 0, 0, 0, 0xFFFF] then hs ! 6 div 256 = 127
                else hs = [0, 0, 0, 0, 0, 0, 0, 1])"

subsection \<open>Splitting a URL\<close>

record url =
  u_scheme :: string
  u_netloc :: string
  u_path :: string
  u_query :: string
  u_fragment :: string

text \<open>Leading control characters and spaces go, and tabs and line breaks anywhere.\<close>

definition clean_url :: "string \<Rightarrow> string" where
  "clean_url s = filter (\<lambda>c. c \<notin> {CHR 0x09, CHR 0x0A, CHR 0x0D})
     (dropWhile (\<lambda>c. code_point c \<le> 32) s)"

definition scheme_char :: "char \<Rightarrow> bool" where
  "scheme_char c \<longleftrightarrow> alnum c \<or> c \<in> set ''+-.''"

definition split_scheme :: "string \<Rightarrow> string \<times> string" where
  "split_scheme s =
     (let a = before_chr CHR '':'' s in
      if CHR '':'' \<in> set s \<and> a \<noteq> [] \<and> alpha (hd a) \<and> list_all scheme_char a
      then (lower a, after_chr CHR '':'' s) else ([], s))"

definition netloc_end :: "char \<Rightarrow> bool" where
  "netloc_end c \<longleftrightarrow> c \<in> set ''/?#''"

definition split_netloc :: "string \<Rightarrow> string \<times> string" where
  "split_netloc s = (if take 2 s = ''//''
     then (takeWhile (\<lambda>c. \<not> netloc_end c) (drop 2 s), dropWhile (\<lambda>c. \<not> netloc_end c) (drop 2 s))
     else ([], s))"

definition bracketed_host_ok :: "string \<Rightarrow> bool" where
  "bracketed_host_ok h =
     (if h \<noteq> [] \<and> hd h = CHR ''v'' then
        takeWhile hex_any (tl h) \<noteq> [] \<and> 2 \<le> length (dropWhile hex_any (tl h)) \<and>
        hd (dropWhile hex_any (tl h)) = CHR ''.''
      else case ip_address h of Some (IPv6 _) \<Rightarrow> True | _ \<Rightarrow> False)"

definition brackets_ok :: "string \<Rightarrow> bool" where
  "brackets_ok n =
     (let h = after_last CHR ''@'' n; inside = after_chr CHR ''['' h; port = after_chr CHR '']'' inside
      in if CHR ''['' \<in> set h then
           before_chr CHR ''['' h = [] \<and> (port = [] \<or> hd port = CHR '':'') \<and>
           bracketed_host_ok (before_chr CHR '']'' inside)
         else bracketed_host_ok (before_chr CHR '':'' h))"

definition netloc_ok :: "string \<Rightarrow> bool" where
  "netloc_ok n \<longleftrightarrow> (CHR ''['' \<in> set n \<longleftrightarrow> CHR '']'' \<in> set n) \<and> (CHR ''['' \<in> set n \<longrightarrow> brackets_ok n)"

definition urlsplit :: "string \<Rightarrow> url option" where
  "urlsplit s =
     (case split_scheme (clean_url s) of (scheme, r1) \<Rightarrow>
      case split_netloc r1 of (netloc, r2) \<Rightarrow>
        if \<not> netloc_ok netloc then None
        else let r3 = before_chr CHR ''#'' r2
             in Some \<lparr>u_scheme = scheme, u_netloc = netloc, u_path = before_chr CHR ''?'' r3,
                      u_query = after_chr CHR ''?'' r3, u_fragment = after_chr CHR ''#'' r2\<rparr>)"

text \<open>The host and the port text behind any user information.\<close>

definition hostinfo :: "url \<Rightarrow> string \<times> string" where
  "hostinfo u =
     (let h = after_last CHR ''@'' (u_netloc u) in
      if CHR ''['' \<in> set h then
        let inside = after_chr CHR ''['' h
        in (before_chr CHR '']'' inside, after_chr CHR '':'' (after_chr CHR '']'' inside))
      else (before_chr CHR '':'' h, after_chr CHR '':'' h))"

definition hostname :: "url \<Rightarrow> string option" where
  "hostname u =
     (let h = fst (hostinfo u) in
      if h = [] then None
      else Some (lower (before_chr CHR ''%'' h) @ dropWhile (\<lambda>c. c \<noteq> CHR ''%'') h))"

definition port_ok :: "url \<Rightarrow> bool" where
  "port_ok u = (let p = snd (hostinfo u) in p = [] \<or> list_all digit p \<and> int_of_digits p \<le> 65535)"

subsection \<open>What may be registered\<close>

definition is_loopback_host :: "string \<Rightarrow> bool" where
  "is_loopback_host host =
     (let brackets = (\<lambda>c. c = CHR ''['' \<or> c = CHR '']'');
          bare = lower (rev (dropWhile brackets (rev (dropWhile brackets host))))
      in bare \<in> {''localhost'', ''127.0.0.1'', ''::1''} \<or>
         (case ip_address bare of Some a \<Rightarrow> ip_is_loopback a | None \<Rightarrow> False))"

definition host_text :: "url \<Rightarrow> string" where
  "host_text u = (case hostname u of Some h \<Rightarrow> h | None \<Rightarrow> [])"

definition is_loopback_redirect :: "string \<Rightarrow> bool option" where
  "is_loopback_redirect uri =
     map_option (\<lambda>u. u_scheme u = ''http'' \<and> is_loopback_host (host_text u)) (urlsplit uri)"

definition redirect_uri_matches :: "string \<Rightarrow> string \<Rightarrow> bool option" where
  "redirect_uri_matches registered presented =
     (if registered = presented then Some True
      else case (urlsplit registered, is_loopback_redirect registered) of
        (Some r, Some True) \<Rightarrow>
          (case (urlsplit presented, is_loopback_redirect presented) of
             (Some p, Some True) \<Rightarrow>
               Some (u_scheme r = u_scheme p \<and> lower (host_text r) = lower (host_text p) \<and>
                     u_path r = u_path p \<and> u_query r = u_query p)
           | (Some _, _) \<Rightarrow> Some False
           | _ \<Rightarrow> None)
      | (Some _, _) \<Rightarrow> Some False
      | _ \<Rightarrow> None)"

definition uri_char :: "char \<Rightarrow> bool" where
  "uri_char c \<longleftrightarrow> alnum c \<or> c \<in> set ''-._~:/?#[]@!$&'()*+,;=%''"

datatype uri_verdict = UriAccepted | UriRefused string | UriRaises

definition validate_redirect_uri :: "string \<Rightarrow> uri_verdict" where
  "validate_redirect_uri uri =
     (if uri = [] \<or> 2048 < length uri then UriRefused ''redirect_uris entries must be non-empty strings''
      else if list_ex (\<lambda>c. \<not> uri_char c) uri
      then UriRefused ''redirect_uris entries must be ASCII URIs without whitespace or backslashes''
      else case urlsplit uri of
        None \<Rightarrow> UriRaises
      | Some u \<Rightarrow>
          if u_fragment u \<noteq> [] then UriRefused ''redirect_uris entries must not contain a fragment''
          else if CHR ''@'' \<in> set (u_netloc u) then UriRefused ''redirect_uris entries must not contain userinfo''
          else if \<not> port_ok u then UriRefused ''redirect_uris entries must have a numeric port''
          else if u_scheme u = [] then UriRefused ''redirect_uris entries must be absolute URIs''
          else if u_scheme u = ''https'' then
            (if hostname u \<noteq> None then UriAccepted else UriRefused ''https redirect_uris require a host'')
          else if u_scheme u = ''http'' then
            (if is_loopback_host (host_text u) then UriAccepted
             else UriRefused ''http redirect_uris are only permitted for loopback hosts'')
          else if u_scheme u \<in> {''javascript'', ''data'', ''file'', ''blob'', ''vbscript'', ''about''} then
            UriRefused (u_scheme u @ '': redirect_uris are not permitted'')
          else if u_netloc u = [] \<and> u_path u = []
          then UriRefused ''custom-scheme redirect_uris must include a host or path''
          else UriAccepted)"

subsection \<open>The URI of a request\<close>

datatype client_error =
    InvalidClient
  | InvalidRedirectUri string
  | InvalidClientMetadata string
  | RedirectNotRegistered
  | RedirectRequired
  | ClientRaises

text \<open>The first registered URI that matches; a URI that cannot be split raises.\<close>

fun first_match :: "string \<Rightarrow> string list \<Rightarrow> client_error + string" where
  "first_match presented [] = Inl RedirectNotRegistered"
| "first_match presented (r # rs) =
     (case redirect_uri_matches r presented of
        None \<Rightarrow> Inl ClientRaises
      | Some True \<Rightarrow> Inr presented
      | Some False \<Rightarrow> first_match presented rs)"

definition pick_redirect_uri :: "string list \<Rightarrow> string option \<Rightarrow> client_error + string" where
  "pick_redirect_uri stored presented =
     (if list_ex (\<lambda>r. validate_redirect_uri r = UriRaises) stored then Inl ClientRaises
      else let registered = filter (\<lambda>r. validate_redirect_uri r = UriAccepted) stored in
        if truthy presented then
          (case validate_redirect_uri (the presented) of
             UriRaises \<Rightarrow> Inl ClientRaises
           | UriRefused _ \<Rightarrow> Inl RedirectNotRegistered
           | UriAccepted \<Rightarrow> first_match (the presented) registered)
        else case registered of
          [r] \<Rightarrow> (case is_loopback_redirect r of
                   None \<Rightarrow> Inl ClientRaises
                 | Some True \<Rightarrow> Inl RedirectRequired
                 | Some False \<Rightarrow> Inr r)
        | _ \<Rightarrow> Inl RedirectRequired)"

subsection \<open>The host a browser reads\<close>

text \<open>
  A browser reads a URL by the WHATWG standard: a backslash ends the authority of a web URL
  like a slash does, any number of slashes may stand before it, and the host is decoded before
  it is looked up.
\<close>

fun percent_decode :: "string \<Rightarrow> string" where
  "percent_decode (a # b # c # s) =
     (if a = CHR ''%'' \<and> hex_any b \<and> hex_any c then char_of (16 * hex_val b + hex_val c) # percent_decode s
      else a # percent_decode (b # c # s))"
| "percent_decode s = s"

definition slash :: "char \<Rightarrow> bool" where
  "slash c \<longleftrightarrow> c = CHR ''/'' \<or> c = CHR 0x5C"

definition browser_authority :: "string \<Rightarrow> string" where
  "browser_authority uri =
     takeWhile (\<lambda>c. \<not> slash c \<and> \<not> netloc_end c) (dropWhile slash (snd (split_scheme (clean_url uri))))"

definition browser_host :: "string \<Rightarrow> string option" where
  "browser_host uri =
     (let h = after_last CHR ''@'' (browser_authority uri);
          host = (if CHR ''['' \<in> set h then before_chr CHR '']'' (after_chr CHR ''['' h) else before_chr CHR '':'' h)
      in if host = [] then None else Some (lower (percent_decode host)))"

lemma percent_decode_none: "CHR ''%'' \<notin> set s \<Longrightarrow> percent_decode s = s"
  by (induction s rule: percent_decode.induct) auto

lemma set_before_chr: "set (before_chr c s) \<subseteq> set s"
  by (auto simp: before_chr_def dest: set_takeWhileD)

lemma set_after_chr: "set (after_chr c s) \<subseteq> set s"
proof -
  have "set (tl xs) \<subseteq> set xs" for xs :: string by (cases xs) auto
  then show ?thesis unfolding after_chr_def using set_dropWhileD [of _ "\<lambda>x. x \<noteq> c" s] by blast
qed

lemma dropWhile_none: "c \<notin> set s \<Longrightarrow> dropWhile (\<lambda>x. x \<noteq> c) s = []"
  by (induction s) auto

lemma uri_char_code:
  assumes "uri_char c"
  shows "\<not> code_point c \<le> 32 \<and> c \<notin> {CHR 0x09, CHR 0x0A, CHR 0x0D} \<and> c \<noteq> CHR 0x5C"
proof -
  have "\<forall>c \<in> set ''-._~:/?#[]@!$&'()*+,;=%''. \<not> code_point c \<le> 32 \<and> c \<notin> {CHR 0x09, CHR 0x0A, CHR 0x0D} \<and> c \<noteq> CHR 0x5C"
    by code_simp
  moreover have "c \<noteq> CHR 0x5C \<and> \<not> code_point c \<le> 32" if "alnum c"
    using that by (auto simp: alnum_def alpha_def in_range_def digit_def code_point_def)
  moreover have "code_point d \<le> 32" if "d \<in> {CHR 0x09, CHR 0x0A, CHR 0x0D}" for d
    using that by (auto simp: code_point_def)
  ultimately show ?thesis using assms unfolding uri_char_def by blast
qed

lemma clean_url_id: "list_all uri_char s \<Longrightarrow> clean_url s = s"
proof -
  assume s: "list_all uri_char s"
  then have "filter (\<lambda>c. c \<notin> {CHR 0x09, CHR 0x0A, CHR 0x0D}) s = s"
    using uri_char_code by (intro filter_True) (auto simp: list_all_iff)
  moreover have "dropWhile (\<lambda>c. code_point c \<le> 32) s = s"
    using s uri_char_code by (cases s) auto
  ultimately show ?thesis by (simp add: clean_url_def)
qed

lemma accepted_chars:
  "validate_redirect_uri uri = UriAccepted \<Longrightarrow> list_all uri_char uri"
  by (auto simp: validate_redirect_uri_def list_ex_iff list_all_iff split: if_splits)

lemma no_loopback_host [simp]: "\<not> is_loopback_host []"
  by code_simp

lemma accepted_parts:
  assumes "validate_redirect_uri uri = UriAccepted" "urlsplit uri = Some u" "u_scheme u \<in> {''http'', ''https''}"
  shows "hostname u \<noteq> None" "CHR ''@'' \<notin> set (u_netloc u)"
  using assms by (auto simp: validate_redirect_uri_def host_text_def split: if_splits option.splits)

lemma hostname_netloc: "hostname u \<noteq> None \<Longrightarrow> u_netloc u \<noteq> []"
  by (auto simp: hostname_def hostinfo_def Let_def after_last_def before_chr_def split: if_splits)

text \<open>The authority the code validated is the one a browser reads.\<close>

lemma browser_authority_netloc:
  assumes "list_all uri_char uri" "urlsplit uri = Some u" "u_netloc u \<noteq> []"
  shows "browser_authority uri = u_netloc u"
proof -
  let ?r = "snd (split_scheme uri)" and ?stop = "\<lambda>c. \<not> slash c \<and> \<not> netloc_end c"
  have n: "u_netloc u = fst (split_netloc ?r)"
    using assms(1,2) by (auto simp: urlsplit_def clean_url_id Let_def split: prod.splits if_splits)
  with assms(3) have r: "take 2 ?r = ''//''" by (auto simp: split_netloc_def split: if_splits)
  define t where "t = drop 2 ?r"
  have split: "?r = ''//'' @ t" using r append_take_drop_id [of 2 ?r] by (simp add: t_def)
  have u: "u_netloc u = takeWhile (\<lambda>c. \<not> netloc_end c) t" using n r by (simp add: split_netloc_def t_def)
  have "set ?r \<subseteq> set uri" using set_after_chr by (auto simp: split_scheme_def Let_def)
  then have t: "\<forall>c\<in>set t. c \<noteq> CHR 0x5C" using split uri_char_code assms(1) by (auto simp: list_all_iff)
  obtain c w where cw: "t = c # w" "\<not> netloc_end c" using u assms(3) by (cases t) (auto split: if_splits)
  then have "\<not> slash c" using t by (auto simp: slash_def netloc_end_def)
  then have "dropWhile slash ?r = t" using split cw(1) by (simp add: slash_def)
  moreover have "takeWhile ?stop t = takeWhile (\<lambda>c. \<not> netloc_end c) t"
    using t by (intro takeWhile_cong) (auto simp: slash_def netloc_end_def)
  ultimately show ?thesis using u by (simp add: browser_authority_def clean_url_id [OF assms(1)])
qed



text \<open>With an encoded character they differ: this URI is accepted, shown as one host, and opened at another.\<close>

lemma encoded_host_differs:
  "validate_redirect_uri ''https://claude.ai%2Eevil.com/cb'' = UriAccepted"
  "map_option hostname (urlsplit ''https://claude.ai%2Eevil.com/cb'') = Some (Some ''claude.ai%2Eevil.com'')"
  "browser_host ''https://claude.ai%2Eevil.com/cb'' = Some ''claude.ai.evil.com''"
  by code_simp+

subsection \<open>Where a code may be delivered\<close>

lemma matches_same_target:
  assumes "redirect_uri_matches r p = Some True" "r \<noteq> p"
  shows "\<exists>u w. urlsplit r = Some u \<and> urlsplit p = Some w \<and> u_scheme u = ''http'' \<and> u_scheme w = ''http'' \<and>
    is_loopback_host (host_text u) \<and> is_loopback_host (host_text w) \<and>
    lower (host_text u) = lower (host_text w) \<and> u_path u = u_path w \<and> u_query u = u_query w"
  using assms by (auto simp: redirect_uri_matches_def is_loopback_redirect_def split: option.splits bool.splits if_splits)

lemma first_match_Some: "first_match p rs = Inr uri \<Longrightarrow> uri = p \<and> (\<exists>r\<in>set rs. redirect_uri_matches r p = Some True)"
  by (induction rs) (auto split: option.splits bool.splits)

text \<open>
  The URI an authorization request is answered at is an accepted URI, and one the client
  registered: exactly, or on a loopback interface up to the port, with the same host, path and
  query. Nothing else the request presents is ever redirected to.
\<close>

theorem picked_redirect_is_registered:
  assumes "pick_redirect_uri stored presented = Inr uri"
  shows "validate_redirect_uri uri = UriAccepted \<and>
    (\<exists>r\<in>set stored. validate_redirect_uri r = UriAccepted \<and>
      (uri = r \<or> (\<exists>u w. urlsplit r = Some u \<and> urlsplit uri = Some w \<and> u_scheme u = ''http'' \<and> u_scheme w = ''http'' \<and>
         is_loopback_host (host_text u) \<and> is_loopback_host (host_text w) \<and>
         lower (host_text u) = lower (host_text w) \<and> u_path u = u_path w \<and> u_query u = u_query w)))"
proof (cases "truthy presented")
  case True
  with assms have v: "validate_redirect_uri (the presented) = UriAccepted"
    and m: "first_match (the presented) (filter (\<lambda>r. validate_redirect_uri r = UriAccepted) stored) = Inr uri"
    by (auto simp: pick_redirect_uri_def Let_def split: if_splits uri_verdict.splits)
  from first_match_Some [OF m] obtain r where "uri = the presented" "r \<in> set stored" "validate_redirect_uri r = UriAccepted"
    "redirect_uri_matches r (the presented) = Some True" by auto
  then show ?thesis using v matches_same_target [of r uri] by (cases "r = uri") auto
next
  case False
  with assms obtain r where f: "filter (\<lambda>r. validate_redirect_uri r = UriAccepted) stored = [r]" and "uri = r"
    by (auto simp: pick_redirect_uri_def Let_def split: if_splits list.splits option.splits bool.splits)
  moreover have "r \<in> set (filter (\<lambda>r. validate_redirect_uri r = UriAccepted) stored)" by (simp only: f) simp
  then have "r \<in> set stored \<and> validate_redirect_uri r = UriAccepted" by simp
  ultimately show ?thesis by blast
qed

lemma picked_redirect_is_registered_witness:
  "validate_redirect_uri ''http://127.0.0.1:33418/cb'' = UriAccepted"
proof -
  let ?a = "''https://a.example/cb''" and ?b = "''http://127.0.0.1/cb''" and ?p = "''http://127.0.0.1:33418/cb''"
  have "validate_redirect_uri ?a = UriAccepted" by code_simp
  moreover have "validate_redirect_uri ?b = UriAccepted" by code_simp
  moreover have "validate_redirect_uri ?p = UriAccepted" by code_simp
  moreover have "redirect_uri_matches ?a ?p = Some False" by code_simp
  moreover have "redirect_uri_matches ?b ?p = Some True" by code_simp
  ultimately have "pick_redirect_uri [?a, ?b] (Some ?p) = Inr ?p" by (simp add: pick_redirect_uri_def)
  from picked_redirect_is_registered [OF this] show ?thesis by simp
qed

end
