(* ===== verification/OAuth.thy ===== *)
theory OAuth
  imports RedirectUris
begin

text \<open>
  The OAuth 2.1 authorization server of the MCP surface (\<open>operations/oauth_server\<close>, the rows in
  \<open>models/core/user\<close>) and the validation of its access tokens (\<open>middleware/auth/oauth.py\<close>).

  The state is the tables, the two single-use stores of Valkey with their expiry, and the
  validation cache, whose entries may be gone at any read. The SHA-256 digest, authlib's S256
  challenge and the API's origin are the environment; random ids and secrets are arguments, and
  so are the current time, whether Valkey answers, the document a metadata URL serves, and the
  live access check of the consent. Texts shown to people, use stamps and the audit log are
  left out. An operation that commits more than once is composed of one definition per commit,
  so that another request can run between them.
\<close>

subsection \<open>Environment and resources\<close>

record oauth_env =
  sha256 :: "string \<Rightarrow> string"
  s256_challenge :: "string \<Rightarrow> string"
  api_url :: string

definition issuer :: "oauth_env \<Rightarrow> string" where
  "issuer v = rstrip_chr CHR ''/'' (strip (api_url v))"

record resource_target =
  tg_resource :: string
  tg_graph :: "string option"

definition agnostic_target :: "oauth_env \<Rightarrow> resource_target" where
  "agnostic_target v = \<lparr>tg_resource = issuer v @ ''/v1/mcp'', tg_graph = None\<rparr>"

definition graph_target :: "oauth_env \<Rightarrow> string \<Rightarrow> resource_target" where
  "graph_target v g = \<lparr>tg_resource = issuer v @ ''/v1/graphs/'' @ g @ ''/mcp'', tg_graph = Some g\<rparr>"

text \<open>The pattern of graph ids: a user graph, a shared repository, either with a subgraph, or the library.\<close>

definition subgraph_suffix :: "string \<Rightarrow> bool" where
  "subgraph_suffix s \<longleftrightarrow> s = [] \<or>
     hd s = CHR ''_'' \<and> 2 \<le> length s \<and> length s \<le> 21 \<and> list_all alnum (tl s)"

definition graph_or_subgraph_id :: "string \<Rightarrow> bool" where
  "graph_or_subgraph_id g \<longleftrightarrow>
     take 2 g = ''kg'' \<and> 16 \<le> length (takeWhile hex_char (drop 2 g)) \<and>
       subgraph_suffix (dropWhile hex_char (drop 2 g)) \<or>
     take 3 g = ''sec'' \<and> subgraph_suffix (drop 3 g) \<or> g = ''library''"

text \<open>The graph a path of the per-graph route names.\<close>

definition graph_of_path :: "string \<Rightarrow> string option" where
  "graph_of_path p =
     (let g = take (length p - 15) (drop 11 p)
      in if 15 \<le> length p \<and> p = ''/v1/graphs/'' @ g @ ''/mcp'' \<and> graph_or_subgraph_id g then Some g else None)"

text \<open>The outer option is the \<open>ValueError\<close> of a text that cannot be split.\<close>

definition resolve_resource :: "oauth_env \<Rightarrow> string option \<Rightarrow> resource_target option option" where
  "resolve_resource v value =
     (if \<not> truthy value then Some (Some (agnostic_target v))
      else if 512 < length (the value) then Some None
      else case urlsplit (strip (the value)) of
        None \<Rightarrow> None
      | Some u \<Rightarrow>
          if u_query u \<noteq> [] \<or> u_fragment u \<noteq> [] \<or> u_scheme u = [] \<or> u_netloc u = [] then Some None
          else if lower (u_scheme u) @ ''://'' @ lower (u_netloc u) \<noteq> lower (issuer v) then Some None
          else let r = rstrip_chr CHR ''/'' (u_path u); path = (if r = [] then ''/'' else r)
               in if path = ''/v1/mcp'' then Some (Some (agnostic_target v))
                  else Some (map_option (graph_target v) (graph_of_path path)))"

definition normalize_scope :: "string option \<Rightarrow> string option" where
  "normalize_scope requested =
     (case requested of
        None \<Rightarrow> Some ''mcp''
      | Some r \<Rightarrow>
          if strip r = [] then Some ''mcp''
          else let parts = filter (\<lambda>p. p \<noteq> []) (split_chr CHR '' '' r) in
            if \<not> set parts \<subseteq> {''mcp'', ''offline_access''} then None
            else if ''offline_access'' \<in> set parts then Some ''mcp offline_access''
            else Some ''mcp'')"

text \<open>The scopes of a space-separated text.\<close>

definition scope_set :: "string \<Rightarrow> string set" where
  "scope_set s = set (filter (\<lambda>p. p \<noteq> []) (split_chr CHR '' '' s))"

subsection \<open>Rows\<close>

datatype registration = Dcr | Cimd | Preregistered

record oauth_client =
  oc_id :: string
  oc_client_id :: string
  oc_secret_hash :: "string option"
  oc_redirects :: "string list"
  oc_source :: registration
  oc_ip :: "string option"
  oc_active :: bool
  oc_expires :: "int option"
  oc_created :: int

record oauth_grant =
  og_id :: string
  og_user :: string
  og_client :: string
  og_graph :: string
  og_resource :: string
  og_scope :: string
  og_revoked :: "int option"

datatype token_type = AccessToken | RefreshToken

record oauth_token =
  ot_id :: string
  ot_grant :: string
  ot_user :: string
  ot_type :: token_type
  ot_hash :: string
  ot_family :: string
  ot_expires :: int
  ot_used :: "int option"
  ot_revoked :: "int option"

record pending_auth =
  pa_client :: string
  pa_redirect :: string
  pa_state :: "string option"
  pa_challenge :: string
  pa_resource :: string
  pa_graph :: "string option"
  pa_scope :: string

record code_payload =
  ac_client :: string
  ac_grant :: string
  ac_redirect :: string
  ac_challenge :: string
  ac_resource :: string

record principal =
  pr_user :: string
  pr_token :: string
  pr_grant :: string
  pr_client :: string
  pr_graph :: string
  pr_resource :: string
  pr_scope :: string

record oauth_state =
  oa_clients :: "oauth_client list"
  oa_grants :: "oauth_grant list"
  oa_tokens :: "oauth_token list"
  oa_users :: "string \<rightharpoonup> bool"
  oa_pending :: "string \<rightharpoonup> pending_auth \<times> int"
  oa_codes :: "string \<rightharpoonup> code_payload \<times> int"
  oa_cache :: "string \<rightharpoonup> principal \<times> int"

definition client_row :: "oauth_state \<Rightarrow> string \<Rightarrow> oauth_client option" where
  "client_row s i = find_row (\<lambda>c. oc_id c = i) (oa_clients s)"

definition get_by_client_id :: "oauth_state \<Rightarrow> string \<Rightarrow> oauth_client option" where
  "get_by_client_id s i = find_row (\<lambda>c. oc_client_id c = i) (oa_clients s)"

definition grant_row :: "oauth_state \<Rightarrow> string \<Rightarrow> oauth_grant option" where
  "grant_row s i = find_row (\<lambda>g. og_id g = i) (oa_grants s)"

definition user_active :: "oauth_state \<Rightarrow> string \<Rightarrow> bool" where
  "user_active s u = (oa_users s u = Some True)"

definition put_client :: "oauth_client \<Rightarrow> oauth_state \<Rightarrow> oauth_state" where
  "put_client c s = s\<lparr>oa_clients := update_where (\<lambda>x. oc_id x = oc_id c) (\<lambda>_. c) (oa_clients s)\<rparr>"

definition is_usable :: "int \<Rightarrow> oauth_client \<Rightarrow> bool" where
  "is_usable now c \<longleftrightarrow> oc_active c \<and> (case oc_expires c of None \<Rightarrow> True | Some e \<Rightarrow> now \<le> e)"

definition is_live :: "int \<Rightarrow> oauth_token \<Rightarrow> bool" where
  "is_live now t \<longleftrightarrow> ot_revoked t = None \<and> ot_used t = None \<and> now \<le> ot_expires t"

subsection \<open>Tokens\<close>

record minted =
  mi_access_id :: string
  mi_refresh_id :: string
  mi_access :: string
  mi_refresh :: string

definition access_plain :: "minted \<Rightarrow> string" where
  "access_plain m = ''rfso'' @ mi_access m"

definition refresh_plain :: "minted \<Rightarrow> string" where
  "refresh_plain m = ''rfsr'' @ mi_refresh m"

definition minted_rows :: "oauth_env \<Rightarrow> int \<Rightarrow> minted \<Rightarrow> string \<Rightarrow> string \<Rightarrow> string \<Rightarrow> oauth_token list" where
  "minted_rows v now m g u family =
     [\<lparr>ot_id = mi_access_id m, ot_grant = g, ot_user = u, ot_type = AccessToken,
       ot_hash = sha256 v (access_plain m), ot_family = family, ot_expires = now + 3600,
       ot_used = None, ot_revoked = None\<rparr>,
      \<lparr>ot_id = mi_refresh_id m, ot_grant = g, ot_user = u, ot_type = RefreshToken,
       ot_hash = sha256 v (refresh_plain m), ot_family = family, ot_expires = now + 90 * 86400,
       ot_used = None, ot_revoked = None\<rparr>]"

text \<open>The digest is unique in the table and the id its key: a collision raises and rolls back.\<close>

definition mint_pair ::
  "oauth_env \<Rightarrow> int \<Rightarrow> minted \<Rightarrow> string \<Rightarrow> string \<Rightarrow> string \<Rightarrow> oauth_state \<Rightarrow> oauth_state option" where
  "mint_pair v now m g u family s =
     (let rows = oa_tokens s @ minted_rows v now m g u family in
      if distinct (map ot_id rows) \<and> distinct (map ot_hash rows) then Some (s\<lparr>oa_tokens := rows\<rparr>) else None)"

definition get_by_plaintext :: "oauth_env \<Rightarrow> oauth_state \<Rightarrow> string \<Rightarrow> token_type \<Rightarrow> oauth_token option" where
  "get_by_plaintext v s p ty =
     (if p = [] then None
      else find_row (\<lambda>t. ot_hash t = sha256 v p \<and> ot_type t = ty) (oa_tokens s))"

text \<open>The conditional update that claims a refresh token.\<close>

definition claimable :: "string \<Rightarrow> oauth_token \<Rightarrow> bool" where
  "claimable i t \<longleftrightarrow> ot_id t = i \<and> ot_type t = RefreshToken \<and> ot_used t = None \<and> ot_revoked t = None"

definition consume_refresh :: "int \<Rightarrow> oauth_state \<Rightarrow> string \<Rightarrow> oauth_state \<times> bool" where
  "consume_refresh now s i =
     (s\<lparr>oa_tokens := update_where (claimable i) (\<lambda>t. t\<lparr>ot_used := Some now\<rparr>) (oa_tokens s)\<rparr>,
      count_where (claimable i) (oa_tokens s) = 1)"

text \<open>
  \<open>_revoke_query\<close>: the rows of a query that are not revoked yet, and the cache entries of the
  access tokens among them.
\<close>

definition revoke_where :: "int \<Rightarrow> (oauth_token \<Rightarrow> bool) \<Rightarrow> oauth_state \<Rightarrow> oauth_state" where
  "revoke_where now P s =
     (let hit = (\<lambda>t. P t \<and> ot_revoked t = None);
          gone = ot_hash ` set (filter (\<lambda>t. hit t \<and> ot_type t = AccessToken) (oa_tokens s))
      in s\<lparr>oa_tokens := update_where hit (\<lambda>t. t\<lparr>ot_revoked := Some now\<rparr>) (oa_tokens s),
           oa_cache := (\<lambda>h. if h \<in> gone then None else oa_cache s h)\<rparr>)"

definition revoke_family :: "int \<Rightarrow> string \<Rightarrow> oauth_state \<Rightarrow> oauth_state" where
  "revoke_family now family = revoke_where now (\<lambda>t. ot_family t = family)"

definition revoke_for_grant :: "int \<Rightarrow> string \<Rightarrow> oauth_state \<Rightarrow> oauth_state" where
  "revoke_for_grant now g = revoke_where now (\<lambda>t. ot_grant t = g)"

definition revoke_all_for_user :: "int \<Rightarrow> string \<Rightarrow> oauth_state \<Rightarrow> oauth_state" where
  "revoke_all_for_user now u = revoke_where now (\<lambda>t. ot_user t = u)"

text \<open>\<open>OAuthToken.revoke\<close> on one row; the cache entry goes even if the row was revoked before.\<close>

definition revoke_token :: "int \<Rightarrow> oauth_token \<Rightarrow> oauth_state \<Rightarrow> oauth_state" where
  "revoke_token now t s =
     (let s1 = revoke_where now (\<lambda>x. ot_id x = ot_id t) s
      in if ot_type t = AccessToken then s1\<lparr>oa_cache := (oa_cache s1)(ot_hash t := None)\<rparr> else s1)"

definition cleanup_expired :: "int \<Rightarrow> nat \<Rightarrow> oauth_state \<Rightarrow> oauth_state" where
  "cleanup_expired now days s =
     (let cutoff = now - int days * 86400
      in s\<lparr>oa_tokens := filter (\<lambda>t. \<not> (ot_expires t < cutoff \<or>
             (case ot_revoked t of None \<Rightarrow> False | Some r \<Rightarrow> r < cutoff))) (oa_tokens s)\<rparr>)"

subsection \<open>Grants and clients\<close>

definition stamp_grant :: "int \<Rightarrow> string \<Rightarrow> oauth_state \<Rightarrow> oauth_state" where
  "stamp_grant now i s = s\<lparr>oa_grants :=
     update_where (\<lambda>g. og_id g = i \<and> og_revoked g = None) (\<lambda>g. g\<lparr>og_revoked := Some now\<rparr>) (oa_grants s)\<rparr>"

text \<open>Two commits: the grant, then its tokens.\<close>

definition revoke_grant :: "int \<Rightarrow> string \<Rightarrow> oauth_state \<Rightarrow> oauth_state" where
  "revoke_grant now i s = revoke_for_grant now i (stamp_grant now i s)"

definition revoke_user_grant :: "int \<Rightarrow> oauth_state \<Rightarrow> string \<Rightarrow> string \<Rightarrow> oauth_state option" where
  "revoke_user_grant now s u i =
     (case grant_row s i of
        None \<Rightarrow> None
      | Some g \<Rightarrow> if og_user g \<noteq> u then None else Some (revoke_grant now i s))"

definition revoke_all_for_client :: "int \<Rightarrow> string \<Rightarrow> oauth_state \<Rightarrow> oauth_state" where
  "revoke_all_for_client now i s =
     fold (revoke_grant now) (map og_id (filter (\<lambda>g. og_client g = i \<and> og_revoked g = None) (oa_grants s))) s"

definition deactivate_client :: "int \<Rightarrow> oauth_client \<Rightarrow> oauth_state \<Rightarrow> oauth_state" where
  "deactivate_client now c s = revoke_all_for_client now (oc_id c) (put_client (c\<lparr>oc_active := False\<rparr>) s)"

definition deactivate_user :: "int \<Rightarrow> string \<Rightarrow> oauth_state \<Rightarrow> oauth_state" where
  "deactivate_user now u s = revoke_all_for_user now u (s\<lparr>oa_users := (oa_users s)(u \<mapsto> False)\<rparr>)"

definition verify_secret :: "oauth_env \<Rightarrow> oauth_client \<Rightarrow> string option \<Rightarrow> bool" where
  "verify_secret v c presented =
     (case oc_secret_hash c of None \<Rightarrow> False | Some h \<Rightarrow> truthy presented \<and> sha256 v (the presented) = h)"

definition authenticate_client :: "oauth_env \<Rightarrow> oauth_client \<Rightarrow> string option \<Rightarrow> client_error + unit" where
  "authenticate_client v c presented =
     guardR (oc_secret_hash c \<noteq> None \<longrightarrow> verify_secret v c presented) InvalidClient"

subsection \<open>Registration\<close>

datatype json = JNull | JBool bool | JNum int | JStr string | JList "json list" | JObj "(string \<times> json) list"

text \<open>\<open>payload.get(k)\<close>: a missing key and a null are both \<open>None\<close>.\<close>

definition jget :: "(string \<times> json) list \<Rightarrow> string \<Rightarrow> json" where
  "jget o1 k = (case map_of o1 k of Some x \<Rightarrow> x | None \<Rightarrow> JNull)"

record registration_metadata =
  rm_name :: string
  rm_redirects :: "string list"
  rm_method :: string
  rm_scope :: "string option"

text \<open>The first reason a list of redirect URIs is refused for.\<close>

fun check_uris :: "json list \<Rightarrow> client_error + string list" where
  "check_uris [] = Inr []"
| "check_uris (u # us) =
     (case u of
        JStr t \<Rightarrow>
          (case validate_redirect_uri t of
             UriRaises \<Rightarrow> Inl ClientRaises
           | UriRefused e \<Rightarrow> Inl (InvalidRedirectUri e)
           | UriAccepted \<Rightarrow> bindR (check_uris us) (\<lambda>ts. Inr (t # ts)))
      | _ \<Rightarrow> Inl (InvalidRedirectUri ''redirect_uris entries must be non-empty strings''))"

definition optional_https :: "(string \<times> json) list \<Rightarrow> string \<Rightarrow> client_error + unit" where
  "optional_https o1 field =
     (case jget o1 field of
        JNull \<Rightarrow> Inr ()
      | JStr t \<Rightarrow>
          if 2048 < length t then Inl (InvalidClientMetadata (field @ '' must be an https URL''))
          else (case urlsplit t of
                  None \<Rightarrow> Inl ClientRaises
                | Some u \<Rightarrow> guardR (u_scheme u = ''https'') (InvalidClientMetadata (field @ '' must be an https URL'')))
      | _ \<Rightarrow> Inl (InvalidClientMetadata (field @ '' must be an https URL'')))"

definition grant_types_ok :: "json \<Rightarrow> bool" where
  "grant_types_ok j = (case j of JNull \<Rightarrow> True | JList xs \<Rightarrow> JStr ''authorization_code'' \<in> set xs | _ \<Rightarrow> False)"

definition response_types_ok :: "json \<Rightarrow> bool" where
  "response_types_ok j = (case j of JNull \<Rightarrow> True | JList xs \<Rightarrow> list_all (\<lambda>x. x = JStr ''code'') xs | _ \<Rightarrow> False)"

text \<open>The method defaults to \<open>none\<close> only when the key is missing.\<close>

definition auth_method :: "(string \<times> json) list \<Rightarrow> client_error + string" where
  "auth_method o1 =
     (case map_of o1 ''token_endpoint_auth_method'' of
        None \<Rightarrow> Inr ''none''
      | Some (JStr m) \<Rightarrow>
          if m \<in> {''none'', ''client_secret_post'', ''client_secret_basic''} then Inr m
          else Inl (InvalidClientMetadata ''token_endpoint_auth_method'')
      | Some _ \<Rightarrow> Inl (InvalidClientMetadata ''token_endpoint_auth_method''))"

definition client_name :: "(string \<times> json) list \<Rightarrow> string list \<Rightarrow> client_error + string" where
  "client_name o1 uris =
     (case jget o1 ''client_name'' of
        JNull \<Rightarrow> (case urlsplit (hd uris) of
                    None \<Rightarrow> Inl ClientRaises
                  | Some u \<Rightarrow> Inr (take 100 (case hostname u of Some h \<Rightarrow> h | None \<Rightarrow> ''MCP client'')))
      | JStr n \<Rightarrow> if strip n = [] then Inl (InvalidClientMetadata ''client_name must be a string'')
                  else Inr (take 100 (strip n))
      | _ \<Rightarrow> Inl (InvalidClientMetadata ''client_name must be a string''))"

definition scope_text :: "json \<Rightarrow> client_error + string option" where
  "scope_text j = (case j of
     JNull \<Rightarrow> Inr None
   | JStr t \<Rightarrow> Inr (if t = [] then None else Some (take 200 t))
   | _ \<Rightarrow> Inl (InvalidClientMetadata ''scope must be a string''))"

definition validate_registration_metadata :: "json \<Rightarrow> client_error + registration_metadata" where
  "validate_registration_metadata payload =
     (case payload of
        JObj o1 \<Rightarrow>
          (case jget o1 ''redirect_uris'' of
             JList (x # xs) \<Rightarrow>
               if 10 < length (x # xs) then Inl (InvalidRedirectUri ''At most 10 redirect_uris'')
               else bindR (check_uris (x # xs)) (\<lambda>uris.
                 let deduped = remdups_first uris in
                 bindR (client_name o1 deduped) (\<lambda>name.
                 bindR (auth_method o1) (\<lambda>m.
                 bindR (guardR (grant_types_ok (jget o1 ''grant_types''))
                          (InvalidClientMetadata ''grant_types must include authorization_code'')) (\<lambda>_.
                 bindR (guardR (response_types_ok (jget o1 ''response_types''))
                          (InvalidClientMetadata ''response_types may only be code'')) (\<lambda>_.
                 bindR (guardR (case jget o1 ''scope'' of JNull \<Rightarrow> True | JStr _ \<Rightarrow> True | _ \<Rightarrow> False)
                          (InvalidClientMetadata ''scope must be a string'')) (\<lambda>_.
                 bindR (optional_https o1 ''client_uri'') (\<lambda>_.
                 bindR (optional_https o1 ''logo_uri'') (\<lambda>_.
                 bindR (scope_text (jget o1 ''scope'')) (\<lambda>sc.
                 Inr \<lparr>rm_name = name, rm_redirects = deduped, rm_method = m, rm_scope = sc\<rparr>)))))))))
           | _ \<Rightarrow> Inl (InvalidRedirectUri ''redirect_uris is required''))
      | _ \<Rightarrow> Inl (InvalidClientMetadata ''Request body must be a JSON object''))"

definition recent_registrations :: "int \<Rightarrow> string \<Rightarrow> oauth_state \<Rightarrow> nat" where
  "recent_registrations now ip s =
     count_where (\<lambda>c. oc_source c = Dcr \<and> oc_ip c = Some ip \<and> now - 86400 \<le> oc_created c) (oa_clients s)"

text \<open>\<open>i\<close>, \<open>cid\<close> and \<open>secret\<close> are generated; a confidential client is told its secret once.\<close>

definition register_dynamic_client ::
  "oauth_env \<Rightarrow> int \<Rightarrow> string \<Rightarrow> string \<Rightarrow> string \<Rightarrow> oauth_state \<Rightarrow> json \<Rightarrow> string option \<Rightarrow>
   client_error + oauth_state \<times> string option" where
  "register_dynamic_client v now i cid secret s payload ip =
     bindR (validate_registration_metadata payload) (\<lambda>m.
     bindR (guardR (truthy ip \<longrightarrow> recent_registrations now (the ip) s < 50)
              (InvalidClientMetadata ''Registration limit reached; try again later'')) (\<lambda>_.
     if client_row s i \<noteq> None \<or> get_by_client_id s cid \<noteq> None then Inl ClientRaises
     else let plain = (if rm_method m = ''none'' then None else Some (''rfsos'' @ secret)) in
       Inr (s\<lparr>oa_clients := oa_clients s @
         [\<lparr>oc_id = i, oc_client_id = cid, oc_secret_hash = map_option (sha256 v) plain,
           oc_redirects = rm_redirects m, oc_source = Dcr, oc_ip = ip, oc_active = True,
           oc_expires = Some (now + 24 * 3600), oc_created = now\<rparr>]\<rparr>, plain)))"

text \<open>The shape of a metadata-document URL.\<close>

definition is_cimd_client_id :: "string \<Rightarrow> bool option" where
  "is_cimd_client_id cid =
     (if 512 < length cid then Some False
      else map_option (\<lambda>u. u_scheme u = ''https'' \<and> hostname u \<noteq> None \<and> CHR ''@'' \<notin> set (u_netloc u) \<and>
             u_path u \<noteq> [] \<and> u_path u \<noteq> ''/'' \<and> u_query u = [] \<and> u_fragment u = []) (urlsplit cid))"

text \<open>The mirror of a document: its redirect URIs are refreshed, a deactivation sticks.\<close>

definition upsert_cimd :: "int \<Rightarrow> string \<Rightarrow> string \<Rightarrow> string list \<Rightarrow> oauth_state \<Rightarrow> oauth_state \<times> oauth_client" where
  "upsert_cimd now i cid uris s =
     (case get_by_client_id s cid of
        None \<Rightarrow>
          (let c = \<lparr>oc_id = i, oc_client_id = cid, oc_secret_hash = None, oc_redirects = uris, oc_source = Cimd,
                    oc_ip = None, oc_active = True, oc_expires = None, oc_created = now\<rparr>
           in (s\<lparr>oa_clients := oa_clients s @ [c]\<rparr>, c))
      | Some c \<Rightarrow>
          (let c1 = c\<lparr>oc_redirects := uris, oc_expires := None\<rparr> in (put_client c1 s, c1)))"

definition resolve_client ::
  "int \<Rightarrow> string \<Rightarrow> (string \<Rightarrow> client_error + (string \<times> json) list) \<Rightarrow> bool \<Rightarrow> oauth_state \<Rightarrow> string option \<Rightarrow>
   oauth_state \<times> (client_error + oauth_client)" where
  "resolve_client now i document allow_stale s cid_opt =
     (if \<not> truthy cid_opt \<or> 512 < length (the cid_opt) then (s, Inl InvalidClient)
      else let cid = the cid_opt in
        case is_cimd_client_id cid of
          None \<Rightarrow> (s, Inl ClientRaises)
        | Some True \<Rightarrow>
            (case get_by_client_id s cid of
               Some c \<Rightarrow>
                 if \<not> oc_active c then (s, Inl InvalidClient)
                 else (case bindR (document cid) (\<lambda>d. validate_registration_metadata
                                (JObj ((''token_endpoint_auth_method'', JStr ''none'') # d))) of
                         Inl e \<Rightarrow> if allow_stale \<and> is_usable now c \<and> e \<noteq> ClientRaises then (s, Inr c) else (s, Inl e)
                       | Inr m \<Rightarrow> (case upsert_cimd now i cid (rm_redirects m) s of (s1, c1) \<Rightarrow> (s1, Inr c1)))
             | None \<Rightarrow>
                 (case bindR (document cid) (\<lambda>d. validate_registration_metadata
                         (JObj ((''token_endpoint_auth_method'', JStr ''none'') # d))) of
                    Inl e \<Rightarrow> (s, Inl e)
                  | Inr m \<Rightarrow> (case upsert_cimd now i cid (rm_redirects m) s of (s1, c1) \<Rightarrow> (s1, Inr c1))))
        | Some False \<Rightarrow>
            (case get_by_client_id s cid of
               None \<Rightarrow> (s, Inl InvalidClient)
             | Some c \<Rightarrow> if is_usable now c then (s, Inr c) else (s, Inl InvalidClient)))"

subsection \<open>The authorization leg\<close>

record authorize_params =
  ap_response_type :: "string option"
  ap_client_id :: "string option"
  ap_redirect :: "string option"
  ap_state :: "string option"
  ap_challenge :: "string option"
  ap_method :: "string option"
  ap_scope :: "string option"
  ap_resource :: "string option"

text \<open>An error is shown to the user, or delivered to the verified redirect URI.\<close>

datatype authorize_error =
    ShowClientError client_error
  | ShowError string
  | DeliverError string string
  | AuthorizeRaises

definition challenge_ok :: "string option \<Rightarrow> bool" where
  "challenge_ok c \<longleftrightarrow> truthy c \<and> length (the c) = 43 \<and> list_all (\<lambda>x. alnum x \<or> x \<in> set ''-_'') (the c)"

text \<open>\<open>rid\<close> is the generated request id; \<open>up\<close> tells whether Valkey takes the entry.\<close>

definition park_request ::
  "oauth_env \<Rightarrow> bool \<Rightarrow> int \<Rightarrow> string \<Rightarrow> oauth_state \<Rightarrow> oauth_client \<Rightarrow> string \<Rightarrow> authorize_params \<Rightarrow>
   authorize_error + oauth_state" where
  "park_request v up now rid s c redirect ps =
     (if case ap_state ps of None \<Rightarrow> False | Some t \<Rightarrow> 1024 < length t then Inl (ShowError ''invalid_request'')
      else if ap_response_type ps \<noteq> Some ''code'' then Inl (DeliverError redirect ''unsupported_response_type'')
      else if \<not> challenge_ok (ap_challenge ps) then Inl (DeliverError redirect ''invalid_request'')
      else if ap_method ps \<noteq> Some ''S256'' then Inl (DeliverError redirect ''invalid_request'')
      else case normalize_scope (ap_scope ps) of
        None \<Rightarrow> Inl (DeliverError redirect ''invalid_scope'')
      | Some sc \<Rightarrow>
          (case resolve_resource v (ap_resource ps) of
             None \<Rightarrow> Inl AuthorizeRaises
           | Some None \<Rightarrow> Inl (DeliverError redirect ''invalid_target'')
           | Some (Some tg) \<Rightarrow>
               if \<not> up then Inl (DeliverError redirect ''temporarily_unavailable'')
               else Inr (s\<lparr>oa_pending := (oa_pending s)(sha256 v rid \<mapsto>
                      (\<lparr>pa_client = oc_id c, pa_redirect = redirect, pa_state = ap_state ps,
                        pa_challenge = the (ap_challenge ps), pa_resource = tg_resource tg,
                        pa_graph = tg_graph tg, pa_scope = sc\<rparr>, now + 600))\<rparr>)))"

definition begin_authorization ::
  "oauth_env \<Rightarrow> bool \<Rightarrow> int \<Rightarrow> string \<Rightarrow> string \<Rightarrow> (string \<Rightarrow> client_error + (string \<times> json) list) \<Rightarrow> oauth_state \<Rightarrow>
   authorize_params \<Rightarrow> oauth_state \<times> (authorize_error + unit)" where
  "begin_authorization v up now i rid document s ps =
     (case resolve_client now i document False s (ap_client_id ps) of
        (s1, Inl e) \<Rightarrow> (s1, Inl (ShowClientError e))
      | (s1, Inr c) \<Rightarrow>
          (case pick_redirect_uri (oc_redirects c) (ap_redirect ps) of
             Inl e \<Rightarrow> (s1, Inl (ShowClientError e))
           | Inr redirect \<Rightarrow>
               (case park_request v up now rid s1 c redirect ps of
                  Inl e \<Rightarrow> (s1, Inl e)
                | Inr s2 \<Rightarrow> (s2, Inr ()))))"

text \<open>\<open>GETDEL\<close> of an entry that may have expired.\<close>

definition take_entry :: "int \<Rightarrow> (string \<rightharpoonup> 'a \<times> int) \<Rightarrow> string \<Rightarrow> (string \<rightharpoonup> 'a \<times> int) \<times> 'a option" where
  "take_entry now m k = (m(k := None),
     case m k of None \<Rightarrow> None | Some (x, e) \<Rightarrow> if now < e then Some x else None)"

definition consume_pending :: "oauth_env \<Rightarrow> bool \<Rightarrow> int \<Rightarrow> oauth_state \<Rightarrow> string \<Rightarrow> oauth_state \<times> pending_auth option" where
  "consume_pending v up now s rid =
     (if rid = [] \<or> 128 < length rid \<or> \<not> up then (s, None)
      else case take_entry now (oa_pending s) (sha256 v rid) of (m, p) \<Rightarrow> (s\<lparr>oa_pending := m\<rparr>, p))"

definition consume_code :: "oauth_env \<Rightarrow> bool \<Rightarrow> int \<Rightarrow> oauth_state \<Rightarrow> string \<Rightarrow> oauth_state \<times> code_payload option" where
  "consume_code v up now s code =
     (if code = [] \<or> 128 < length code \<or> \<not> up then (s, None)
      else case take_entry now (oa_codes s) (sha256 v code) of (m, p) \<Rightarrow> (s\<lparr>oa_codes := m\<rparr>, p))"

datatype consent_error =
    RequestGone
  | GraphMismatch
  | GraphRequired
  | GraphInvalid
  | NoAccess
  | ClientGone
  | ConsentUnavailable

datatype consent_answer = ConsentDenied string | CodeDelivered string string

definition chosen_graph :: "pending_auth \<Rightarrow> string option \<Rightarrow> consent_error + string" where
  "chosen_graph p g =
     (case pa_graph p of
        Some fixed \<Rightarrow> if g = None \<or> g = Some fixed then Inr fixed else Inl GraphMismatch
      | None \<Rightarrow> if truthy g then Inr (the g) else Inl GraphRequired)"

definition new_grant :: "string \<Rightarrow> string \<Rightarrow> pending_auth \<Rightarrow> oauth_client \<Rightarrow> string \<Rightarrow> oauth_grant" where
  "new_grant gid u p c g =
     \<lparr>og_id = gid, og_user = u, og_client = oc_id c, og_graph = g, og_resource = pa_resource p,
      og_scope = pa_scope p, og_revoked = None\<rparr>"

text \<open>
  \<open>may_read\<close> is the live access check of the MCP route; \<open>gid\<close> and \<open>code\<close> are generated. A grant
  whose code could not be stored stays.
\<close>

definition record_decision ::
  "oauth_env \<Rightarrow> bool \<Rightarrow> bool \<Rightarrow> int \<Rightarrow> string \<Rightarrow> string \<Rightarrow> (string \<Rightarrow> string \<Rightarrow> bool) \<Rightarrow> oauth_state \<Rightarrow>
   string \<Rightarrow> string \<Rightarrow> bool \<Rightarrow> string option \<Rightarrow> oauth_state \<times> (consent_error + consent_answer)" where
  "record_decision v up up2 now gid code may_read s rid u approved g =
     (case consume_pending v up now s rid of
        (s1, None) \<Rightarrow> (s1, Inl RequestGone)
      | (s1, Some p) \<Rightarrow>
          if \<not> approved then (s1, Inr (ConsentDenied (pa_redirect p)))
          else case chosen_graph p g of
            Inl e \<Rightarrow> (s1, Inl e)
          | Inr chosen \<Rightarrow>
              if \<not> graph_or_subgraph_id chosen then (s1, Inl GraphInvalid)
              else if \<not> may_read u chosen then (s1, Inl NoAccess)
              else case client_row s1 (pa_client p) of
                None \<Rightarrow> (s1, Inl ClientGone)
              | Some c \<Rightarrow>
                  if \<not> is_usable now c then (s1, Inl ClientGone)
                  else let s2 = put_client (c\<lparr>oc_expires := None\<rparr>)
                                  (s1\<lparr>oa_grants := oa_grants s1 @ [new_grant gid u p c chosen]\<rparr>)
                    in if \<not> up2 then (s2, Inl ConsentUnavailable)
                       else (s2\<lparr>oa_codes := (oa_codes s2)(sha256 v code \<mapsto>
                               (\<lparr>ac_client = oc_id c, ac_grant = gid, ac_redirect = pa_redirect p,
                                 ac_challenge = pa_challenge p, ac_resource = pa_resource p\<rparr>, now + 120))\<rparr>,
                             Inr (CodeDelivered (pa_redirect p) code)))"

subsection \<open>The token endpoint\<close>

datatype token_error = InvalidGrant | InvalidTarget | InvalidScope | TokenRaises

record token_response =
  tr_access :: string
  tr_refresh :: string
  tr_ttl :: int
  tr_scope :: string

definition verify_pkce :: "oauth_env \<Rightarrow> string option \<Rightarrow> string \<Rightarrow> bool" where
  "verify_pkce v verifier challenge \<longleftrightarrow> truthy verifier \<and> 43 \<le> length (the verifier) \<and> length (the verifier) \<le> 128 \<and>
     list_all (\<lambda>c. alnum c \<or> c \<in> set ''-._~'') (the verifier) \<and> s256_challenge v (the verifier) = challenge"

definition live_grant :: "oauth_state \<Rightarrow> string \<Rightarrow> oauth_grant option" where
  "live_grant s i = (case grant_row s i of
     None \<Rightarrow> None
   | Some g \<Rightarrow> if og_revoked g \<noteq> None \<or> \<not> user_active s (og_user g) then None else Some g)"

definition token_response_of :: "minted \<Rightarrow> oauth_grant \<Rightarrow> token_response" where
  "token_response_of m g =
     \<lparr>tr_access = access_plain m, tr_refresh = refresh_plain m, tr_ttl = 3600, tr_scope = og_scope g\<rparr>"

definition resource_matches :: "oauth_env \<Rightarrow> string option \<Rightarrow> string \<Rightarrow> token_error + unit" where
  "resource_matches v presented bound =
     (if \<not> truthy presented then Inr ()
      else case resolve_resource v presented of
        None \<Rightarrow> Inl TokenRaises
      | Some None \<Rightarrow> Inl InvalidTarget
      | Some (Some tg) \<Rightarrow> guardR (tg_resource tg = bound) InvalidTarget)"

text \<open>The checks of an exchange on the payload the code was bound to.\<close>

definition exchange_checks ::
  "oauth_env \<Rightarrow> oauth_state \<Rightarrow> code_payload \<Rightarrow> oauth_client \<Rightarrow> string option \<Rightarrow> string option \<Rightarrow> string option \<Rightarrow>
   token_error + oauth_grant" where
  "exchange_checks v s p c verifier redirect resource =
     (if ac_client p \<noteq> oc_id c then Inl InvalidGrant
      else bindR (case redirect of
                    None \<Rightarrow> Inr ()
                  | Some r \<Rightarrow> (case redirect_uri_matches (ac_redirect p) r of
                      None \<Rightarrow> Inl TokenRaises
                    | Some ok \<Rightarrow> guardR ok InvalidGrant)) (\<lambda>_.
           bindR (resource_matches v resource (ac_resource p)) (\<lambda>_.
           bindR (guardR (verify_pkce v verifier (ac_challenge p)) InvalidGrant) (\<lambda>_.
           case live_grant s (ac_grant p) of None \<Rightarrow> Inl InvalidGrant | Some g \<Rightarrow> Inr g))))"

definition exchange_authorization_code ::
  "oauth_env \<Rightarrow> bool \<Rightarrow> int \<Rightarrow> minted \<Rightarrow> string \<Rightarrow> oauth_state \<Rightarrow> string option \<Rightarrow> oauth_client \<Rightarrow>
   string option \<Rightarrow> string option \<Rightarrow> string option \<Rightarrow> oauth_state \<times> (token_error + token_response)" where
  "exchange_authorization_code v up now m family s code c verifier redirect resource =
     (case consume_code v up now s (case code of None \<Rightarrow> [] | Some x \<Rightarrow> x) of
        (s1, None) \<Rightarrow> (s1, Inl InvalidGrant)
      | (s1, Some p) \<Rightarrow>
          (case exchange_checks v s1 p c verifier redirect resource of
             Inl e \<Rightarrow> (s1, Inl e)
           | Inr g \<Rightarrow>
               (case mint_pair v now m (og_id g) (og_user g) family s1 of
                  None \<Rightarrow> (s1, Inl TokenRaises)
                | Some s2 \<Rightarrow> (s2, Inr (token_response_of m g)))))"

text \<open>What a refresh request finds before it claims the token.\<close>

datatype refresh_finding =
    Dismissed token_error
  | Replayed oauth_token
  | Claimable oauth_token oauth_grant

definition find_refresh ::
  "oauth_env \<Rightarrow> int \<Rightarrow> oauth_state \<Rightarrow> string option \<Rightarrow> oauth_client \<Rightarrow> string option \<Rightarrow> string option \<Rightarrow> refresh_finding" where
  "find_refresh v now s presented c scope resource =
     (if \<not> truthy presented \<or> take 4 (the presented) \<noteq> ''rfsr'' then Dismissed InvalidGrant
      else case get_by_plaintext v s (the presented) RefreshToken of
        None \<Rightarrow> Dismissed InvalidGrant
      | Some t \<Rightarrow>
          (case grant_row s (ot_grant t) of
             None \<Rightarrow> Dismissed InvalidGrant
           | Some g \<Rightarrow>
               if og_client g \<noteq> oc_id c then Dismissed InvalidGrant
               else if ot_used t \<noteq> None then (if ot_revoked t = None then Replayed t else Dismissed InvalidGrant)
               else if ot_revoked t \<noteq> None \<or> ot_expires t < now then Dismissed InvalidGrant
               else if og_revoked g \<noteq> None \<or> \<not> user_active s (og_user g) then Dismissed InvalidGrant
               else case resource_matches v resource (og_resource g) of
                 Inl e \<Rightarrow> Dismissed e
               | Inr _ \<Rightarrow>
                   if truthy scope \<and> (case normalize_scope scope of
                        None \<Rightarrow> True | Some r \<Rightarrow> \<not> scope_set r \<subseteq> scope_set (og_scope g))
                   then Dismissed InvalidScope
                   else Claimable t g))"

text \<open>The end of a rotation: the access tokens of the family go, and a new pair is minted in it.\<close>

definition rotate ::
  "oauth_env \<Rightarrow> int \<Rightarrow> minted \<Rightarrow> oauth_state \<Rightarrow> oauth_token \<Rightarrow> oauth_grant \<Rightarrow> oauth_state \<times> (token_error + token_response)" where
  "rotate v now m s t g =
     (let s1 = revoke_where now (\<lambda>x. ot_family x = ot_family t \<and> ot_type x = AccessToken) s
      in case mint_pair v now m (og_id g) (og_user g) (ot_family t) s1 of
           None \<Rightarrow> (s1, Inl TokenRaises)
         | Some s2 \<Rightarrow> (s2, Inr (token_response_of m g)))"

definition refresh_access_token ::
  "oauth_env \<Rightarrow> int \<Rightarrow> minted \<Rightarrow> oauth_state \<Rightarrow> string option \<Rightarrow> oauth_client \<Rightarrow> string option \<Rightarrow> string option \<Rightarrow>
   oauth_state \<times> (token_error + token_response)" where
  "refresh_access_token v now m s presented c scope resource =
     (case find_refresh v now s presented c scope resource of
        Dismissed e \<Rightarrow> (s, Inl e)
      | Replayed t \<Rightarrow> (revoke_family now (ot_family t) s, Inl InvalidGrant)
      | Claimable t g \<Rightarrow>
          (case consume_refresh now s (ot_id t) of
             (s1, False) \<Rightarrow> (revoke_family now (ot_family t) s1, Inl InvalidGrant)
           | (s1, True) \<Rightarrow> rotate v now m s1 t g))"

definition revoke_presented_token :: "oauth_env \<Rightarrow> int \<Rightarrow> oauth_state \<Rightarrow> string option \<Rightarrow> oauth_client \<Rightarrow> oauth_state" where
  "revoke_presented_token v now s presented c =
     (if \<not> truthy presented then s
      else let ty = (if take 4 (the presented) = ''rfsr'' then RefreshToken else AccessToken) in
        case get_by_plaintext v s (the presented) ty of
          None \<Rightarrow> s
        | Some t \<Rightarrow>
            (case grant_row s (ot_grant t) of
               None \<Rightarrow> s
             | Some g \<Rightarrow>
                 if og_client g \<noteq> oc_id c then s
                 else if ty = RefreshToken then revoke_family now (ot_family t) s
                 else revoke_token now t s))"

subsection \<open>Validation of access tokens\<close>

text \<open>The cached principal counts until the token expires.\<close>

definition validate_cached :: "oauth_env \<Rightarrow> int \<Rightarrow> oauth_state \<Rightarrow> string \<Rightarrow> principal option" where
  "validate_cached v now s plain =
     (case oa_cache s (sha256 v plain) of
        None \<Rightarrow> None
      | Some (p, e) \<Rightarrow> if e \<le> now then None else Some p)"

definition validate_database :: "oauth_env \<Rightarrow> int \<Rightarrow> oauth_state \<Rightarrow> string \<Rightarrow> (principal \<times> int) option" where
  "validate_database v now s plain =
     (case get_by_plaintext v s plain AccessToken of
        None \<Rightarrow> None
      | Some t \<Rightarrow>
          if \<not> is_live now t then None
          else case grant_row s (ot_grant t) of
            None \<Rightarrow> None
          | Some g \<Rightarrow>
              if og_revoked g \<noteq> None then None
              else case client_row s (og_client g) of
                None \<Rightarrow> None
              | Some c \<Rightarrow>
                  if \<not> oc_active c \<or> \<not> user_active s (og_user g) then None
                  else Some (\<lparr>pr_user = og_user g, pr_token = ot_id t, pr_grant = og_id g, pr_client = og_client g,
                              pr_graph = og_graph g, pr_resource = og_resource g, pr_scope = og_scope g\<rparr>,
                             ot_expires t))"

definition cache_validation :: "oauth_env \<Rightarrow> string \<Rightarrow> principal \<times> int \<Rightarrow> oauth_state \<Rightarrow> oauth_state" where
  "cache_validation v plain e s = s\<lparr>oa_cache := (oa_cache s)(sha256 v plain \<mapsto> e)\<rparr>"

definition validate_oauth_access_token ::
  "oauth_env \<Rightarrow> int \<Rightarrow> oauth_state \<Rightarrow> string \<Rightarrow> oauth_state \<times> principal option" where
  "validate_oauth_access_token v now s plain =
     (if take 4 plain \<noteq> ''rfso'' \<or> 256 < length plain then (s, None)
      else case validate_cached v now s plain of
        Some p \<Rightarrow> (s, Some p)
      | None \<Rightarrow>
          (case validate_database v now s plain of
             None \<Rightarrow> (s, None)
           | Some (p, e) \<Rightarrow> (cache_validation v plain (p, e) s, Some p)))"

end
