(* ===== verification/OAuthFacts.thy ===== *)
theory OAuthFacts
  imports OAuth
begin

text \<open>
  The authorization server as a step relation: any sequence of registrations, consents,
  exchanges, rotations, revocations, validations and clean-ups, each of them uninterrupted.
  What they keep, and what stays revoked; the interleavings that break it follow at the end.
\<close>

subsection \<open>Steps\<close>

definition fresh_pair :: "oauth_env \<Rightarrow> string set \<Rightarrow> minted \<Rightarrow> oauth_state \<Rightarrow> bool" where
  "fresh_pair v avoid m s \<longleftrightarrow>
     (\<forall>h\<in>{sha256 v (access_plain m), sha256 v (refresh_plain m)}. h \<notin> avoid \<and> oa_cache s h = None)"

definition fresh_family :: "string set \<Rightarrow> string \<Rightarrow> oauth_state \<Rightarrow> bool" where
  "fresh_family avoid family s \<longleftrightarrow> family \<notin> avoid \<and> (\<forall>t\<in>set (oa_tokens s). ot_family t \<noteq> family)"

inductive oauth_step :: "oauth_env \<Rightarrow> string set \<Rightarrow> oauth_state \<Rightarrow> oauth_state \<Rightarrow> bool" for v avoid where
  registers: "oauth_step v avoid s s'"
    if "register_dynamic_client v now i cid secret s payload ip = Inr (s', plain)"
| begins: "oauth_step v avoid s s'"
    if "begin_authorization v up now i rid document s ps = (s', r)"
| decides: "oauth_step v avoid s s'"
    if "record_decision v up up2 now gid code may_read s rid u approved g = (s', r)" "grant_row s gid = None"
       "\<forall>t\<in>set (oa_tokens s). ot_grant t \<noteq> gid"
| exchanges: "oauth_step v avoid s s'"
    if "exchange_authorization_code v up now m family s code c verifier redirect resource = (s', r)"
       "fresh_pair v avoid m s" "fresh_family avoid family s"
| refreshes: "oauth_step v avoid s s'"
    if "refresh_access_token v now m s presented c scope resource = (s', r)" "fresh_pair v avoid m s"
| revokes: "oauth_step v avoid s (revoke_presented_token v now s presented c)"
| disconnects: "oauth_step v avoid s s'" if "revoke_user_grant now s u i = Some s'"
| deactivates_client: "oauth_step v avoid s (deactivate_client now c s)"
| deactivates_user: "oauth_step v avoid s (deactivate_user now u s)"
| activates_user: "oauth_step v avoid s (s\<lparr>oa_users := (oa_users s)(u \<mapsto> True)\<rparr>)"
| validates: "oauth_step v avoid s s'" if "validate_oauth_access_token v now s plain = (s', r)"
| lapses: "oauth_step v avoid s (s\<lparr>oa_cache := (oa_cache s)(h := None)\<rparr>)"
| cleans: "oauth_step v avoid s (cleanup_expired now days s)"

subsection \<open>The invariant\<close>

text \<open>A token that is neither consumed nor revoked.\<close>

definition open_token :: "oauth_token \<Rightarrow> bool" where
  "open_token t \<longleftrightarrow> ot_revoked t = None \<and> ot_used t = None"

definition one_open :: "oauth_token list \<Rightarrow> bool" where
  "one_open ts \<longleftrightarrow> (\<forall>t\<in>set ts. \<forall>u\<in>set ts. open_token t \<longrightarrow> open_token u \<longrightarrow> ot_family t = ot_family u \<longrightarrow>
     ot_type t = ot_type u \<longrightarrow> t = u)"

definition cache_clean :: "oauth_token list \<Rightarrow> (string \<rightharpoonup> principal \<times> int) \<Rightarrow> bool" where
  "cache_clean ts cache \<longleftrightarrow>
     (\<forall>t\<in>set ts. ot_type t = RefreshToken \<or> ot_revoked t \<noteq> None \<longrightarrow> cache (ot_hash t) = None)"

definition tokens_ok :: "oauth_token list \<Rightarrow> (string \<rightharpoonup> principal \<times> int) \<Rightarrow> bool" where
  "tokens_ok ts cache \<longleftrightarrow> distinct (map ot_id ts) \<and> distinct (map ot_hash ts) \<and> one_open ts \<and> cache_clean ts cache"

definition confined :: "oauth_grant \<Rightarrow> principal \<Rightarrow> bool" where
  "confined g p \<longleftrightarrow> og_id g = pr_grant p \<and> og_user g = pr_user p \<and> og_client g = pr_client p \<and>
     og_graph g = pr_graph p \<and> og_resource g = pr_resource p \<and> og_scope g = pr_scope p"

definition cache_confined :: "oauth_grant list \<Rightarrow> (string \<rightharpoonup> principal \<times> int) \<Rightarrow> bool" where
  "cache_confined gs cache \<longleftrightarrow> (\<forall>h p e. cache h = Some (p, e) \<longrightarrow> (\<exists>g\<in>set gs. confined g p))"

definition target_of :: "oauth_env \<Rightarrow> string option \<Rightarrow> string \<Rightarrow> bool" where
  "target_of v g resource \<longleftrightarrow> resource =
     tg_resource (case g of None \<Rightarrow> agnostic_target v | Some x \<Rightarrow> graph_target v x)"

definition grant_ok :: "oauth_env \<Rightarrow> oauth_grant \<Rightarrow> bool" where
  "grant_ok v g \<longleftrightarrow> graph_or_subgraph_id (og_graph g) \<and>
     (target_of v None (og_resource g) \<or> target_of v (Some (og_graph g)) (og_resource g))"

definition revoked_closed :: "oauth_grant list \<Rightarrow> oauth_token list \<Rightarrow> bool" where
  "revoked_closed gs ts \<longleftrightarrow>
     (\<forall>g\<in>set gs. og_revoked g \<noteq> None \<longrightarrow> (\<forall>t\<in>set ts. ot_grant t = og_id g \<longrightarrow> ot_revoked t \<noteq> None))"

definition oauth_ok :: "oauth_env \<Rightarrow> oauth_state \<Rightarrow> bool" where
  "oauth_ok v s \<longleftrightarrow> tokens_ok (oa_tokens s) (oa_cache s) \<and> distinct (map og_id (oa_grants s)) \<and>
     (\<forall>g\<in>set (oa_grants s). grant_ok v g) \<and> cache_confined (oa_grants s) (oa_cache s) \<and>
     revoked_closed (oa_grants s) (oa_tokens s) \<and>
     (\<forall>k p e. oa_pending s k = Some (p, e) \<longrightarrow> target_of v (pa_graph p) (pa_resource p))"

lemma oauth_okD:
  assumes "oauth_ok v s"
  shows "tokens_ok (oa_tokens s) (oa_cache s)" "distinct (map og_id (oa_grants s))"
    "\<And>g. g \<in> set (oa_grants s) \<Longrightarrow> grant_ok v g" "cache_confined (oa_grants s) (oa_cache s)"
    "revoked_closed (oa_grants s) (oa_tokens s)"
    "\<And>k p e. oa_pending s k = Some (p, e) \<Longrightarrow> target_of v (pa_graph p) (pa_resource p)"
  using assms unfolding oauth_ok_def by blast+

text \<open>The rows an operation leaves alone.\<close>

definition same_oauth :: "oauth_state \<Rightarrow> oauth_state \<Rightarrow> bool" where
  "same_oauth s s' \<longleftrightarrow> oa_tokens s' = oa_tokens s \<and> oa_grants s' = oa_grants s \<and> oa_cache s' = oa_cache s"

lemma oauth_ok_frame:
  assumes "oauth_ok v s" "same_oauth s s'" "oa_pending s' \<subseteq>\<^sub>m oa_pending s"
  shows "oauth_ok v s'"
proof -
  have "oa_pending s k = Some x" if "oa_pending s' k = Some x" for k x
    using that assms(3) by (metis domI map_le_def)
  then show ?thesis using assms(1,2) unfolding oauth_ok_def same_oauth_def by metis
qed

lemma oauth_ok_other [simp]:
  "oauth_ok v (s\<lparr>oa_clients := cs\<rparr>) = oauth_ok v s" "oauth_ok v (s\<lparr>oa_users := us\<rparr>) = oauth_ok v s"
  "oauth_ok v (s\<lparr>oa_codes := ks\<rparr>) = oauth_ok v s"
  by (simp_all add: oauth_ok_def)

subsection \<open>Revocations\<close>

text \<open>Every operation below only closes tokens and drops cache entries.\<close>

definition closes :: "oauth_token list \<Rightarrow> oauth_token list \<Rightarrow> bool" where
  "closes ts ts' \<longleftrightarrow> map ot_id ts' = map ot_id ts \<and> map ot_hash ts' = map ot_hash ts \<and>
     (\<forall>u\<in>set ts'. \<exists>t\<in>set ts. ot_id u = ot_id t \<and> ot_hash u = ot_hash t \<and> ot_type u = ot_type t \<and>
        ot_family u = ot_family t \<and> ot_grant u = ot_grant t \<and> ot_user u = ot_user t \<and> ot_expires u = ot_expires t \<and>
        (open_token u \<longrightarrow> u = t) \<and> (ot_revoked t \<noteq> None \<longrightarrow> ot_revoked u = ot_revoked t))"

lemma one_open_closes: "closes ts ts' \<Longrightarrow> one_open ts \<Longrightarrow> one_open ts'"
  unfolding closes_def one_open_def by metis

lemma closes_revoke:
  "closes ts (update_where (\<lambda>t. P t \<and> ot_revoked t = None) (\<lambda>t. t\<lparr>ot_revoked := Some now\<rparr>) ts)"
  by (auto simp: closes_def table_simps open_token_def)

lemma revoke_where_tables [simp]:
  "oa_tokens (revoke_where now P s) =
     update_where (\<lambda>t. P t \<and> ot_revoked t = None) (\<lambda>t. t\<lparr>ot_revoked := Some now\<rparr>) (oa_tokens s)"
  "oa_grants (revoke_where now P s) = oa_grants s" "oa_pending (revoke_where now P s) = oa_pending s"
  "oa_users (revoke_where now P s) = oa_users s" "oa_clients (revoke_where now P s) = oa_clients s"
  by (simp_all add: revoke_where_def Let_def)

lemma revoke_where_cache:
  "oa_cache (revoke_where now P s) h =
     (if \<exists>t\<in>set (oa_tokens s). P t \<and> ot_revoked t = None \<and> ot_type t = AccessToken \<and> ot_hash t = h then None
      else oa_cache s h)"
  by (auto simp: revoke_where_def Let_def image_iff)

lemma revoked_all:
  assumes "t \<in> set (oa_tokens (revoke_where now P s))"
    and "\<And>t. P (t\<lparr>ot_revoked := Some now\<rparr>) = P t" "P t"
  shows "ot_revoked t \<noteq> None"
  using assms by (auto simp: set_update_where)

lemma revoke_where_clean:
  assumes "cache_clean (oa_tokens s) (oa_cache s)"
  shows "cache_clean (oa_tokens (revoke_where now P s)) (oa_cache (revoke_where now P s))"
proof -
  have "oa_cache (revoke_where now P s) (ot_hash t) = None"
    if "t \<in> set (oa_tokens s)" "ot_type t = RefreshToken \<or> ot_revoked t \<noteq> None \<or> P t" for t
  proof -
    have "ot_type t = RefreshToken \<or> ot_revoked t \<noteq> None \<or> (P t \<and> ot_revoked t = None \<and> ot_type t = AccessToken)"
      using that(2) by (cases "ot_type t") auto
    then show ?thesis using that(1) assms unfolding cache_clean_def revoke_where_cache by auto
  qed
  then show ?thesis by (auto simp: cache_clean_def set_update_where)
qed

lemma revoke_where_ok:
  assumes "oauth_ok v s"
  shows "oauth_ok v (revoke_where now P s)"
proof -
  let ?s = "revoke_where now P s"
  note ok = oauth_okD [OF assms]
  have t: "one_open (oa_tokens ?s)" using one_open_closes [OF closes_revoke] ok(1) by (simp add: tokens_ok_def)
  have "cache_clean (oa_tokens ?s) (oa_cache ?s)"
    using revoke_where_clean [of s now P] ok(1) by (simp add: tokens_ok_def)
  with t have "tokens_ok (oa_tokens ?s) (oa_cache ?s)" using ok(1) by (simp add: tokens_ok_def table_simps)
  moreover have "cache_confined (oa_grants ?s) (oa_cache ?s)"
    using ok(4) by (auto simp: cache_confined_def revoke_where_cache split: if_splits)
  moreover have "revoked_closed (oa_grants ?s) (oa_tokens ?s)"
    using ok(5) by (auto simp: revoked_closed_def set_update_where)
  ultimately show ?thesis using ok(2,3,6) unfolding oauth_ok_def by (simp only: revoke_where_tables) blast
qed

lemma cache_drop_ok:
  assumes "oauth_ok v s" "\<And>h. cache h = None \<or> cache h = oa_cache s h"
  shows "oauth_ok v (s\<lparr>oa_cache := cache\<rparr>)"
proof -
  note ok = oauth_okD [OF assms(1)]
  have "tokens_ok (oa_tokens s) cache"
    using ok(1) assms(2) unfolding tokens_ok_def cache_clean_def by metis
  moreover have "cache_confined (oa_grants s) cache"
    using ok(4) assms(2) unfolding cache_confined_def by (metis option.distinct(1))
  ultimately show ?thesis using ok unfolding oauth_ok_def by simp
qed

lemma revoke_token_ok: "oauth_ok v s \<Longrightarrow> oauth_ok v (revoke_token now t s)"
  unfolding revoke_token_def Let_def
  by (auto intro!: cache_drop_ok revoke_where_ok)

subsection \<open>Minting and rotating\<close>

lemma mint_pair_Some:
  "mint_pair v now m g u family s = Some s' \<Longrightarrow>
   s' = s\<lparr>oa_tokens := oa_tokens s @ minted_rows v now m g u family\<rparr> \<and>
   distinct (map ot_id (oa_tokens s')) \<and> distinct (map ot_hash (oa_tokens s'))"
  by (auto simp: mint_pair_def Let_def split: if_splits)

lemma minted_row:
  "t \<in> set (minted_rows v now m g u family) \<Longrightarrow>
   ot_grant t = g \<and> ot_family t = family \<and> ot_revoked t = None \<and> open_token t \<and>
   (ot_hash t = sha256 v (access_plain m) \<and> ot_type t = AccessToken \<or>
    ot_hash t = sha256 v (refresh_plain m) \<and> ot_type t = RefreshToken)"
  by (auto simp: minted_rows_def open_token_def)

lemma minted_rows_one_open: "one_open (minted_rows v now m g u family)"
  by (auto simp: one_open_def minted_rows_def)

lemma mint_ok:
  assumes "oauth_ok v s" "mint_pair v now m g u family s = Some s'" "fresh_pair v avoid m s"
    and "\<forall>t\<in>set (oa_tokens s). ot_family t = family \<longrightarrow> \<not> open_token t"
    and "\<forall>x\<in>set (oa_grants s). og_id x = g \<longrightarrow> og_revoked x = None"
  shows "oauth_ok v s'"
proof -
  let ?new = "minted_rows v now m g u family"
  note ok = oauth_okD [OF assms(1)]
  from mint_pair_Some [OF assms(2)] have s': "s' = s\<lparr>oa_tokens := oa_tokens s @ ?new\<rparr>"
    and d: "distinct (map ot_id (oa_tokens s'))" "distinct (map ot_hash (oa_tokens s'))" by blast+
  have "one_open (oa_tokens s @ ?new)"
    using ok(1) minted_rows_one_open [of v now m g u family] minted_row assms(4)
    unfolding tokens_ok_def one_open_def set_append by (metis Un_iff)
  moreover have "cache_clean (oa_tokens s @ ?new) (oa_cache s)"
    using ok(1) assms(3) minted_row [of _ v now m g u family] unfolding tokens_ok_def cache_clean_def fresh_pair_def
    by (auto simp del: minted_row) metis+
  moreover have "revoked_closed (oa_grants s) (oa_tokens s @ ?new)"
    using ok(5) assms(5) minted_row [of _ v now m g u family] unfolding revoked_closed_def by (metis Un_iff set_append)
  ultimately show ?thesis using ok d unfolding oauth_ok_def tokens_ok_def by (simp add: s')
qed

lemma consume_refresh_tables [simp]:
  "oa_tokens (fst (consume_refresh now s i)) = update_where (claimable i) (\<lambda>t. t\<lparr>ot_used := Some now\<rparr>) (oa_tokens s)"
  "oa_grants (fst (consume_refresh now s i)) = oa_grants s" "oa_pending (fst (consume_refresh now s i)) = oa_pending s"
  "oa_cache (fst (consume_refresh now s i)) = oa_cache s" "oa_users (fst (consume_refresh now s i)) = oa_users s"
  by (simp_all add: consume_refresh_def)

lemma consume_ok:
  assumes "oauth_ok v s"
  shows "oauth_ok v (fst (consume_refresh now s i))"
proof -
  let ?ts = "update_where (claimable i) (\<lambda>t. t\<lparr>ot_used := Some now\<rparr>) (oa_tokens s)"
  note ok = oauth_okD [OF assms]
  have "closes (oa_tokens s) ?ts" by (auto simp: closes_def table_simps open_token_def)
  from one_open_closes [OF this] have "one_open ?ts" using ok(1) by (simp add: tokens_ok_def)
  moreover have "cache_clean ?ts (oa_cache s)"
    using ok(1) by (auto simp: tokens_ok_def cache_clean_def set_update_where claimable_def)
  moreover have "revoked_closed (oa_grants s) ?ts"
    using ok(5) by (auto simp: revoked_closed_def set_update_where)
  ultimately show ?thesis using ok unfolding oauth_ok_def tokens_ok_def by (simp add: table_simps)
qed

lemma fresh_pair_revoke: "fresh_pair v avoid m s \<Longrightarrow> fresh_pair v avoid m (revoke_where now P s)"
  by (auto simp: fresh_pair_def revoke_where_cache)

text \<open>A rotation is safe once the family has no refresh token that could still be claimed.\<close>

lemma rotate_ok:
  assumes "oauth_ok v s" "fresh_pair v avoid m s"
    and "\<forall>x\<in>set (oa_tokens s). ot_family x = ot_family t \<longrightarrow> ot_type x = RefreshToken \<longrightarrow> \<not> open_token x"
    and "\<forall>x\<in>set (oa_grants s). og_id x = og_id g \<longrightarrow> og_revoked x = None"
  shows "oauth_ok v (fst (rotate v now m s t g))"
proof -
  define s1 where "s1 = revoke_where now (\<lambda>x. ot_family x = ot_family t \<and> ot_type x = AccessToken) s"
  have ok1: "oauth_ok v s1" unfolding s1_def by (rule revoke_where_ok [OF assms(1)])
  have closed: "\<forall>x\<in>set (oa_tokens s1). ot_family x = ot_family t \<longrightarrow> \<not> open_token x"
  proof (intro ballI impI)
    fix x assume x: "x \<in> set (oa_tokens s1)" "ot_family x = ot_family t"
    show "\<not> open_token x"
    proof (cases "ot_type x")
      case AccessToken
      with x show ?thesis by (auto simp: s1_def set_update_where open_token_def)
    next
      case RefreshToken
      with x have "x \<in> set (oa_tokens s)" by (auto simp: s1_def set_update_where)
      with x RefreshToken assms(3) show ?thesis by blast
    qed
  qed
  show ?thesis
  proof (cases "mint_pair v now m (og_id g) (og_user g) (ot_family t) s1")
    case None
    then show ?thesis using ok1 by (simp add: rotate_def Let_def s1_def)
  next
    case (Some s2)
    have "oauth_ok v s2"
      using mint_ok [OF ok1 Some, of avoid] fresh_pair_revoke [OF assms(2)] closed assms(4) by (simp add: s1_def)
    then show ?thesis using Some by (simp add: rotate_def Let_def s1_def)
  qed
qed

lemma get_by_plaintext_Some:
  "get_by_plaintext v s p ty = Some t \<Longrightarrow> t \<in> set (oa_tokens s) \<and> ot_hash t = sha256 v p \<and> ot_type t = ty"
  by (auto simp: get_by_plaintext_def dest: find_row_Some split: if_splits)

lemma grant_row_Some: "grant_row s i = Some g \<Longrightarrow> g \<in> set (oa_grants s) \<and> og_id g = i"
  by (auto simp: grant_row_def dest: find_row_Some)

lemma claimable_facts:
  assumes "find_refresh v now s presented c scope resource = Claimable t g"
  shows "t \<in> set (oa_tokens s) \<and> ot_type t = RefreshToken \<and> open_token t \<and> grant_row s (ot_grant t) = Some g \<and>
    og_revoked g = None \<and> ot_hash t = sha256 v (the presented) \<and> now \<le> ot_expires t"
  using assms get_by_plaintext_Some [of v s "the presented" RefreshToken t]
  by (auto simp: find_refresh_def open_token_def split: if_splits option.splits sum.splits)

lemma replayed_facts:
  assumes "find_refresh v now s presented c scope resource = Replayed t"
  shows "t \<in> set (oa_tokens s) \<and> ot_type t = RefreshToken \<and> ot_used t \<noteq> None \<and> ot_revoked t = None \<and>
    ot_hash t = sha256 v (the presented)"
  using assms get_by_plaintext_Some [of v s "the presented" RefreshToken t]
  by (auto simp: find_refresh_def split: if_splits option.splits sum.splits)

lemma same_id_same_row:
  "distinct (map k xs) \<Longrightarrow> x \<in> set xs \<Longrightarrow> y \<in> set xs \<Longrightarrow> k x = k y \<Longrightarrow> x = y"
  by (induction xs) (auto simp: image_iff)

lemma claimed_family_closed:
  assumes "oauth_ok v s" "t \<in> set (oa_tokens s)" "ot_type t = RefreshToken" "open_token t"
  shows "\<forall>x\<in>set (oa_tokens (fst (consume_refresh now s (ot_id t)))).
    ot_family x = ot_family t \<longrightarrow> ot_type x = RefreshToken \<longrightarrow> \<not> open_token x"
proof -
  have d: "one_open (oa_tokens s)" using oauth_okD(1) [OF assms(1)] by (simp add: tokens_ok_def)
  have "x = t" if "x \<in> set (oa_tokens s)" "ot_family x = ot_family t" "ot_type x = RefreshToken" "open_token x" for x
    using d assms(2-4) that unfolding one_open_def by metis
  moreover have "\<not> open_token x" if "x \<in> set (oa_tokens (fst (consume_refresh now s (ot_id t))))"
    "x \<in> set (oa_tokens s) \<Longrightarrow> x = t" for x
    using that assms(3,4) by (auto simp: set_update_where claimable_def open_token_def)
  ultimately show ?thesis by blast
qed

lemma unrevoked_by_id:
  assumes "distinct (map og_id gs)" "g \<in> set gs" "og_revoked g = None"
  shows "\<forall>x\<in>set gs. og_id x = og_id g \<longrightarrow> og_revoked x = None"
  using assms same_id_same_row [of og_id gs g] by metis

lemma refresh_ok:
  assumes "oauth_ok v s" "refresh_access_token v now m s presented c scope resource = (s', r)" "fresh_pair v avoid m s"
  shows "oauth_ok v s'"
proof (cases "find_refresh v now s presented c scope resource")
  case (Claimable t g)
  note f = claimable_facts [OF Claimable]
  let ?s1 = "fst (consume_refresh now s (ot_id t))"
  have ok1: "oauth_ok v ?s1" by (rule consume_ok [OF assms(1)])
  have "g \<in> set (oa_grants s)" using f grant_row_Some by blast
  then have u: "\<forall>x\<in>set (oa_grants ?s1). og_id x = og_id g \<longrightarrow> og_revoked x = None"
    using unrevoked_by_id [OF oauth_okD(2) [OF assms(1)]] f by simp
  have "fresh_pair v avoid m ?s1" using assms(3) by (simp add: fresh_pair_def)
  from rotate_ok [OF ok1 this _ u, of t now] claimed_family_closed [OF assms(1), of t now] f
  have "oauth_ok v (fst (rotate v now m ?s1 t g))" by blast
  moreover have "oauth_ok v (revoke_family now (ot_family t) ?s1)"
    unfolding revoke_family_def by (rule revoke_where_ok [OF ok1])
  ultimately show ?thesis using assms(2) Claimable
    by (cases "consume_refresh now s (ot_id t)") (auto simp: refresh_access_token_def split: bool.splits)
next
  case (Replayed t)
  then show ?thesis using assms(1,2) revoke_where_ok by (auto simp: refresh_access_token_def revoke_family_def)
next
  case (Dismissed e)
  then show ?thesis using assms(1,2) by (simp add: refresh_access_token_def)
qed

subsection \<open>The other operations\<close>

lemma same_oauth_refl [simp]: "same_oauth s s"
  by (simp add: same_oauth_def)

lemma put_client_frame [simp]:
  "oa_tokens (put_client c s) = oa_tokens s" "oa_grants (put_client c s) = oa_grants s"
  "oa_cache (put_client c s) = oa_cache s" "oa_pending (put_client c s) = oa_pending s"
  "oa_users (put_client c s) = oa_users s" "oa_codes (put_client c s) = oa_codes s"
  by (simp_all add: put_client_def)

lemma resolve_client_frame:
  "resolve_client now i document stale s cid = (s', r) \<Longrightarrow> same_oauth s s' \<and> oa_pending s' = oa_pending s"
  by (auto simp: resolve_client_def upsert_cimd_def same_oauth_def Let_def split: if_splits option.splits bool.splits sum.splits)

lemma resolve_target: "resolve_resource v x = Some (Some tg) \<Longrightarrow> target_of v (tg_graph tg) (tg_resource tg)"
  by (auto simp: resolve_resource_def target_of_def agnostic_target_def graph_target_def Let_def
      split: if_splits option.splits)

lemma register_ok:
  "oauth_ok v s \<Longrightarrow> register_dynamic_client v now i cid secret s payload ip = Inr (s', plain) \<Longrightarrow> oauth_ok v s'"
  by (auto simp: register_dynamic_client_def result_simps Let_def split: if_splits)

lemma begin_ok:
  assumes "oauth_ok v s" "begin_authorization v up now i rid document s ps = (s', r)"
  shows "oauth_ok v s'"
proof -
  obtain s1 rc where c: "resolve_client now i document False s (ap_client_id ps) = (s1, rc)" by fastforce
  note f = resolve_client_frame [OF c]
  have ok1: "oauth_ok v s1" using oauth_ok_frame [OF assms(1)] f by simp
  show ?thesis
  proof (cases "s' = s1")
    case False
    with assms(2) c obtain cl redirect where p: "park_request v up now rid s1 cl redirect ps = Inr s'"
      by (auto simp: begin_authorization_def split: sum.splits)
    then obtain tg q where tg: "resolve_resource v (ap_resource ps) = Some (Some tg)"
      and s': "s' = s1\<lparr>oa_pending := (oa_pending s1)(sha256 v rid \<mapsto> q)\<rparr>"
      and q: "pa_graph (fst q) = tg_graph tg" "pa_resource (fst q) = tg_resource tg"
      by (auto simp: park_request_def split: if_splits option.splits)
    show ?thesis using ok1 resolve_target [OF tg] q unfolding oauth_ok_def by (auto simp: s' split: if_splits)
  qed (use ok1 in simp)
qed

lemma take_entry_le: "take_entry now m k = (m', r) \<Longrightarrow> m' \<subseteq>\<^sub>m m \<and> (\<forall>x. r = Some x \<longrightarrow> (\<exists>e. m k = Some (x, e)))"
  by (auto simp: take_entry_def map_le_def split: option.splits if_splits)

lemma consume_pending_facts:
  assumes "consume_pending v up now s rid = (s1, r)"
  shows "same_oauth s s1 \<and> oa_pending s1 \<subseteq>\<^sub>m oa_pending s \<and> (\<forall>p. r = Some p \<longrightarrow> (\<exists>k e. oa_pending s k = Some (p, e)))"
proof (cases "rid = [] \<or> 128 < length rid \<or> \<not> up")
  case False
  obtain m q where t: "take_entry now (oa_pending s) (sha256 v rid) = (m, q)" by fastforce
  with False assms take_entry_le [OF t] show ?thesis by (auto simp: consume_pending_def same_oauth_def)
qed (use assms in \<open>auto simp: consume_pending_def same_oauth_def\<close>)

lemma consume_code_frame:
  "consume_code v up now s code = (s1, r) \<Longrightarrow> same_oauth s s1 \<and> oa_pending s1 = oa_pending s"
  by (auto simp: consume_code_def same_oauth_def split: if_splits prod.splits)

lemma add_grant_ok:
  assumes "oauth_ok v s" "grant_ok v g" "og_revoked g = None" "grant_row s (og_id g) = None"
  shows "oauth_ok v (s\<lparr>oa_grants := oa_grants s @ [g]\<rparr>)"
proof -
  note ok = oauth_okD [OF assms(1)]
  have "distinct (map og_id (oa_grants s @ [g]))"
    using ok(2) assms(4) by (auto simp: grant_row_def find_row_None)
  moreover have "cache_confined (oa_grants s @ [g]) (oa_cache s)" using ok(4) unfolding cache_confined_def by fastforce
  moreover have "revoked_closed (oa_grants s @ [g]) (oa_tokens s)" using ok(5) assms(3) by (auto simp: revoked_closed_def)
  ultimately show ?thesis using ok assms(2) unfolding oauth_ok_def by auto
qed

lemma chosen_target:
  "chosen_graph p g = Inr x \<Longrightarrow> target_of v (pa_graph p) (pa_resource p) \<Longrightarrow>
   target_of v None (pa_resource p) \<or> target_of v (Some x) (pa_resource p)"
  by (auto simp: chosen_graph_def split: option.splits if_splits)

lemma decide_ok:
  assumes "oauth_ok v s" "record_decision v up up2 now gid code may_read s rid u approved g = (s', r)"
    "grant_row s gid = None"
  shows "oauth_ok v s'"
proof -
  obtain s1 q where c: "consume_pending v up now s rid = (s1, q)" by fastforce
  note f = consume_pending_facts [OF c]
  have ok1: "oauth_ok v s1" using oauth_ok_frame [OF assms(1)] f by simp
  show ?thesis
  proof (cases "s' = s1")
    case False
    with assms(2) c obtain p x cl s2 where p: "q = Some p" and x: "chosen_graph p g = Inr x" "graph_or_subgraph_id x"
      and s2: "s2 = put_client (cl\<lparr>oc_expires := None\<rparr>) (s1\<lparr>oa_grants := oa_grants s1 @ [new_grant gid u p cl x]\<rparr>)"
      and s': "same_oauth s2 s'" "oa_pending s' = oa_pending s2"
      by (auto simp: record_decision_def same_oauth_def Let_def split: option.splits if_splits sum.splits)
    from p f obtain k e where k: "oa_pending s k = Some (p, e)" by blast
    have "grant_ok v (new_grant gid u p cl x)"
      using chosen_target [OF x(1) oauth_okD(6) [OF assms(1) k]] x(2) by (simp add: grant_ok_def new_grant_def)
    moreover have "grant_row s1 gid = None" using assms(3) f by (simp add: grant_row_def same_oauth_def)
    ultimately have "oauth_ok v (s1\<lparr>oa_grants := oa_grants s1 @ [new_grant gid u p cl x]\<rparr>)"
      by (intro add_grant_ok ok1) (simp_all add: new_grant_def)
    then show ?thesis
      by (rule oauth_ok_frame) (use s' in \<open>simp_all add: s2 same_oauth_def\<close>)
  qed (use ok1 in simp)
qed

lemma exchange_ok:
  assumes "oauth_ok v s" "exchange_authorization_code v up now m family s code c verifier redirect resource = (s', r)"
    "fresh_pair v avoid m s" "fresh_family avoid family s"
  shows "oauth_ok v s'"
proof -
  obtain s1 q where c: "consume_code v up now s (case code of None \<Rightarrow> [] | Some x \<Rightarrow> x) = (s1, q)" by fastforce
  note f = consume_code_frame [OF c]
  have ok1: "oauth_ok v s1" using oauth_ok_frame [OF assms(1)] f by simp
  show ?thesis
  proof (cases "s' = s1")
    case False
    with assms(2) c obtain p g where x: "exchange_checks v s1 p c verifier redirect resource = Inr g"
      and m: "mint_pair v now m (og_id g) (og_user g) family s1 = Some s'"
      by (auto simp: exchange_authorization_code_def split: option.splits sum.splits)
    from x have "g \<in> set (oa_grants s1) \<and> og_revoked g = None"
      using grant_row_Some by (auto simp: exchange_checks_def live_grant_def result_simps split: if_splits option.splits)
    with unrevoked_by_id [OF oauth_okD(2) [OF ok1]]
    have u: "\<forall>x\<in>set (oa_grants s1). og_id x = og_id g \<longrightarrow> og_revoked x = None" by blast
    have "fresh_pair v avoid m s1" "\<forall>t\<in>set (oa_tokens s1). ot_family t = family \<longrightarrow> \<not> open_token t"
      using assms(3,4) f by (auto simp: fresh_pair_def fresh_family_def same_oauth_def)
    from mint_ok [OF ok1 m this u] show ?thesis .
  qed (use ok1 in simp)
qed

lemma revoke_presented_ok: "oauth_ok v s \<Longrightarrow> oauth_ok v (revoke_presented_token v now s presented c)"
  by (auto simp: revoke_presented_token_def revoke_family_def Let_def
      intro: revoke_where_ok revoke_token_ok split: option.splits)

lemma confined_stamp [simp]: "confined (g\<lparr>og_revoked := r\<rparr>) p = confined g p"
  and grant_ok_stamp [simp]: "grant_ok v (g\<lparr>og_revoked := r\<rparr>) = grant_ok v g"
  by (simp_all add: confined_def grant_ok_def)

lemma revoke_grant_ok:
  assumes "oauth_ok v s"
  shows "oauth_ok v (revoke_grant now i s)"
proof -
  let ?gs = "update_where (\<lambda>g. og_id g = i \<and> og_revoked g = None) (\<lambda>g. g\<lparr>og_revoked := Some now\<rparr>) (oa_grants s)"
  define s1 where "s1 = revoke_where now (\<lambda>t. ot_grant t = i) s"
  note ok = oauth_okD [OF revoke_where_ok [OF assms, of now "\<lambda>t. ot_grant t = i", folded s1_def]]
  have s': "revoke_grant now i s = s1\<lparr>oa_grants := ?gs\<rparr>"
    by (cases s) (simp add: revoke_grant_def revoke_for_grant_def stamp_grant_def s1_def revoke_where_def Let_def cong: if_cong)
  have gs: "oa_grants s1 = oa_grants s" by (simp add: s1_def)
  have "cache_confined ?gs (oa_cache s1)"
    unfolding cache_confined_def
  proof (intro allI impI)
    fix h p e assume "oa_cache s1 h = Some (p, e)"
    then obtain g where g: "g \<in> set (oa_grants s)" "confined g p" using ok(4) unfolding gs cache_confined_def by blast
    then have "(if og_id g = i \<and> og_revoked g = None then g\<lparr>og_revoked := Some now\<rparr> else g) \<in> set ?gs"
      by (auto simp: update_where_def image_iff intro: bexI [of _ g])
    then show "\<exists>g\<in>set ?gs. confined g p" using g(2) by (intro bexI) auto
  qed
  moreover have "\<And>g. g \<in> set ?gs \<Longrightarrow> grant_ok v g"
    using ok(3) unfolding gs by (auto simp: set_update_where)
  moreover have "revoked_closed ?gs (oa_tokens s1)"
    unfolding revoked_closed_def
  proof (intro ballI impI)
    fix g t assume g: "g \<in> set ?gs" "og_revoked g \<noteq> None" and t: "t \<in> set (oa_tokens s1)" "ot_grant t = og_id g"
    show "ot_revoked t \<noteq> None"
    proof (cases "og_id g = i")
      case True
      with t show ?thesis unfolding s1_def by (intro revoked_all [of t now "\<lambda>t. ot_grant t = i" s]) auto
    next
      case False
      with g(1) have "g \<in> set (oa_grants s)" by (auto simp: set_update_where)
      with ok(5) g(2) t show ?thesis unfolding gs revoked_closed_def by blast
    qed
  qed
  moreover have "distinct (map og_id ?gs)" using ok(2) unfolding gs by (simp add: table_simps)
  ultimately show ?thesis using ok unfolding s' oauth_ok_def by simp
qed

lemma revoke_grants_ok: "oauth_ok v s \<Longrightarrow> oauth_ok v (fold (revoke_grant now) is s)"
  by (induction "is" arbitrary: s) (auto intro: revoke_grant_ok)

lemma deactivate_client_ok: "oauth_ok v s \<Longrightarrow> oauth_ok v (deactivate_client now c s)"
  unfolding deactivate_client_def revoke_all_for_client_def put_client_def
  by (rule revoke_grants_ok) simp

lemma deactivate_user_ok: "oauth_ok v s \<Longrightarrow> oauth_ok v (deactivate_user now u s)"
  unfolding deactivate_user_def revoke_all_for_user_def by (rule revoke_where_ok) simp

lemma disconnect_ok: "oauth_ok v s \<Longrightarrow> revoke_user_grant now s u i = Some s' \<Longrightarrow> oauth_ok v s'"
  by (auto simp: revoke_user_grant_def intro: revoke_grant_ok split: option.splits if_splits)

lemma validated_facts:
  assumes "validate_database v now s plain = Some (p, e)"
  shows "\<exists>t g. t \<in> set (oa_tokens s) \<and> ot_hash t = sha256 v plain \<and> ot_type t = AccessToken \<and> is_live now t \<and>
    g \<in> set (oa_grants s) \<and> og_id g = ot_grant t \<and> og_revoked g = None \<and> confined g p \<and> pr_token p = ot_id t \<and>
    pr_grant p = ot_grant t \<and> e = ot_expires t"
proof -
  from assms obtain t g where t: "get_by_plaintext v s plain AccessToken = Some t" and "is_live now t"
    and g: "grant_row s (ot_grant t) = Some g" and "og_revoked g = None"
    and p: "p = \<lparr>pr_user = og_user g, pr_token = ot_id t, pr_grant = og_id g, pr_client = og_client g,
      pr_graph = og_graph g, pr_resource = og_resource g, pr_scope = og_scope g\<rparr>" "e = ot_expires t"
    by (auto simp: validate_database_def split: option.splits if_splits)
  moreover from p grant_row_Some [OF g] have "confined g p" "pr_grant p = ot_grant t" by (simp_all add: confined_def)
  moreover have "pr_token p = ot_id t" by (simp add: p)
  ultimately show ?thesis using get_by_plaintext_Some [OF t] grant_row_Some [OF g] by blast
qed

lemma cache_validation_ok:
  assumes "oauth_ok v s" "validate_database v now s plain = Some (p, e)"
  shows "oauth_ok v (cache_validation v plain (p, e) s)"
proof -
  note ok = oauth_okD [OF assms(1)]
  obtain t g where t: "t \<in> set (oa_tokens s)" "ot_hash t = sha256 v plain" "ot_type t = AccessToken" "is_live now t"
    and g: "g \<in> set (oa_grants s)" "confined g p" using validated_facts [OF assms(2)] by blast
  have d: "distinct (map ot_hash (oa_tokens s))" using ok(1) by (simp add: tokens_ok_def)
  have "x = t" if "x \<in> set (oa_tokens s)" "ot_hash x = sha256 v plain" for x
    using same_id_same_row [OF d that(1) t(1)] that t(2) by simp
  then have "cache_clean (oa_tokens s) ((oa_cache s)(sha256 v plain \<mapsto> (p, e)))"
    using ok(1) t(3,4) by (auto simp: tokens_ok_def cache_clean_def is_live_def)
  moreover have "cache_confined (oa_grants s) ((oa_cache s)(sha256 v plain \<mapsto> (p, e)))"
    using ok(4) g by (auto simp: cache_confined_def)
  ultimately show ?thesis using ok unfolding oauth_ok_def by (simp add: cache_validation_def tokens_ok_def)
qed

lemma validate_ok:
  assumes "oauth_ok v s" "validate_oauth_access_token v now s plain = (s', r)"
  shows "oauth_ok v s'"
  using assms cache_validation_ok
  by (auto simp: validate_oauth_access_token_def split: if_splits option.splits)

lemma cleanup_ok:
  assumes "oauth_ok v s"
  shows "oauth_ok v (cleanup_expired now days s)"
proof -
  note ok = oauth_okD [OF assms]
  obtain P where s': "cleanup_expired now days s = s\<lparr>oa_tokens := filter P (oa_tokens s)\<rparr>"
    by (auto simp: cleanup_expired_def Let_def)
  have "tokens_ok (filter P (oa_tokens s)) (oa_cache s)"
    using ok(1) by (auto simp: tokens_ok_def one_open_def cache_clean_def distinct_map_filter)
  moreover have "revoked_closed (oa_grants s) (filter P (oa_tokens s))" using ok(5) by (auto simp: revoked_closed_def)
  ultimately show ?thesis using ok unfolding s' oauth_ok_def by simp
qed

lemma oauth_step_keeps: "oauth_step v avoid s s' \<Longrightarrow> oauth_ok v s \<Longrightarrow> oauth_ok v s'"
proof (induction rule: oauth_step.induct)
  case (lapses s h)
  then show ?case using cache_drop_ok [of v s "(oa_cache s)(h := None)"] by simp
qed (auto intro: register_ok begin_ok decide_ok exchange_ok refresh_ok revoke_presented_ok disconnect_ok
    deactivate_client_ok deactivate_user_ok validate_ok cleanup_ok)

interpretation oauth: step_invariant "oauth_step v avoid" "oauth_ok v"
  by unfold_locales (rule oauth_step_keeps)

definition empty_oauth :: oauth_state where
  "empty_oauth = \<lparr>oa_clients = [], oa_grants = [], oa_tokens = [], oa_users = Map.empty, oa_pending = Map.empty,
     oa_codes = Map.empty, oa_cache = Map.empty\<rparr>"

lemma empty_oauth_ok: "oauth_ok v empty_oauth"
  by (simp add: oauth_ok_def empty_oauth_def tokens_ok_def one_open_def cache_clean_def cache_confined_def revoked_closed_def)

subsection \<open>What stays revoked\<close>

text \<open>Families no token is minted in any more, and digests no request can use.\<close>

definition dead :: "string set \<Rightarrow> string set \<Rightarrow> oauth_state \<Rightarrow> bool" where
  "dead F H s \<longleftrightarrow>
     (\<forall>t\<in>set (oa_tokens s). ot_family t \<in> F \<or> ot_hash t \<in> H \<longrightarrow> ot_revoked t \<noteq> None) \<and>
     (\<forall>h\<in>H. oa_cache s h = None)"

lemma dead_frame: "dead F H s \<Longrightarrow> same_oauth s s' \<Longrightarrow> dead F H s'"
  by (simp add: dead_def same_oauth_def)

lemma dead_other [simp]:
  "dead F H (s\<lparr>oa_clients := cs\<rparr>) = dead F H s" "dead F H (s\<lparr>oa_users := us\<rparr>) = dead F H s"
  "dead F H (s\<lparr>oa_grants := gs\<rparr>) = dead F H s" "dead F H (put_client c s) = dead F H s"
  by (simp_all add: dead_def put_client_def)

lemma dead_revoke: "dead F H s \<Longrightarrow> dead F H (revoke_where now P s)"
  by (auto simp: dead_def revoke_where_cache set_update_where)

lemma dead_grant: "dead F H s \<Longrightarrow> dead F H (revoke_grant now i s)"
  unfolding revoke_grant_def revoke_for_grant_def stamp_grant_def by (rule dead_revoke) simp

lemma dead_grants: "dead F H s \<Longrightarrow> dead F H (fold (revoke_grant now) is s)"
  by (induction "is" arbitrary: s) (auto intro: dead_grant)

lemma dead_mint:
  assumes "dead F H s" "mint_pair v now m g u f s = Some s'" "fresh_pair v avoid m s" "H \<subseteq> avoid" "f \<notin> F"
  shows "dead F H s'"
proof -
  have "\<And>t. t \<in> set (minted_rows v now m g u f) \<Longrightarrow> ot_family t = f \<and> ot_hash t \<notin> H"
    using minted_row [of _ v now m g u f] assms(3,4) unfolding fresh_pair_def by blast
  with assms(1,5) mint_pair_Some [OF assms(2)] show ?thesis unfolding dead_def by (auto simp del: not_None_eq)
qed

lemma dead_consume: "dead F H s \<Longrightarrow> dead F H (fst (consume_refresh now s i))"
  by (auto simp: dead_def set_update_where)

lemma dead_rotate:
  assumes "dead F H s" "fresh_pair v avoid m s" "H \<subseteq> avoid" "ot_family t \<notin> F"
  shows "dead F H (fst (rotate v now m s t g))"
  using dead_revoke [OF assms(1)] dead_mint [OF dead_revoke [OF assms(1)] _ fresh_pair_revoke [OF assms(2)] assms(3,4)]
  by (auto simp: rotate_def Let_def split: option.splits)

lemma dead_refresh:
  assumes "dead F H s" "refresh_access_token v now m s presented c scope resource = (s', r)"
    "fresh_pair v avoid m s" "H \<subseteq> avoid"
  shows "dead F H s'"
proof (cases "find_refresh v now s presented c scope resource")
  case (Claimable t g)
  let ?s1 = "fst (consume_refresh now s (ot_id t))"
  have ne: "ot_family t \<notin> F"
    using claimable_facts [OF Claimable] assms(1) by (auto simp: dead_def open_token_def)
  have "fresh_pair v avoid m ?s1" using assms(3) by (simp add: fresh_pair_def)
  from dead_rotate [OF dead_consume [OF assms(1)] this assms(4) ne, of now g]
  have "dead F H (fst (rotate v now m ?s1 t g))" .
  moreover have "dead F H (revoke_family now (ot_family t) ?s1)"
    unfolding revoke_family_def by (intro dead_revoke dead_consume assms(1))
  ultimately show ?thesis using assms(2) Claimable
    by (cases "consume_refresh now s (ot_id t)") (auto simp: refresh_access_token_def split: bool.splits)
next
  case (Replayed t)
  then show ?thesis using assms(1,2) dead_revoke by (auto simp: refresh_access_token_def revoke_family_def)
next
  case (Dismissed e)
  then show ?thesis using assms(1,2) by (simp add: refresh_access_token_def)
qed

lemma dead_validate:
  assumes "dead F H s" "validate_oauth_access_token v now s plain = (s', r)"
  shows "dead F H s'"
proof -
  have "sha256 v plain \<notin> H" if "validate_database v now s plain = Some (p, e)" for p e
    using validated_facts [OF that] assms(1) by (auto simp: dead_def is_live_def)
  with assms show ?thesis
    by (auto simp: validate_oauth_access_token_def cache_validation_def dead_def split: if_splits option.splits)
qed

lemma dead_step:
  assumes "oauth_step v avoid s s'" "dead F H s" "F \<union> H \<subseteq> avoid"
  shows "dead F H s'"
  using assms
proof (induction rule: oauth_step.induct)
  case (registers now i cid secret s payload ip s' plain)
  then show ?case by (auto simp: register_dynamic_client_def result_simps Let_def split: if_splits)
next
  case (begins up now i rid document s ps s' r)
  obtain s1 rc where c: "resolve_client now i document False s (ap_client_id ps) = (s1, rc)" by fastforce
  then have "same_oauth s1 s'" using begins(1)
    by (auto simp: begin_authorization_def park_request_def same_oauth_def split: sum.splits if_splits option.splits)
  then show ?case using dead_frame resolve_client_frame [OF c] begins(2) by blast
next
  case (decides up up2 now gid code may_read s rid u approved g s' r)
  obtain s1 q where c: "consume_pending v up now s rid = (s1, q)" by fastforce
  have "oa_tokens s' = oa_tokens s1 \<and> oa_cache s' = oa_cache s1" using decides(1) c
    by (auto simp: record_decision_def Let_def split: option.splits if_splits sum.splits)
  then show ?case using consume_pending_facts [OF c] decides(4) by (simp add: dead_def same_oauth_def)
next
  case (exchanges up now m family s code c verifier redirect resource s' r)
  obtain s1 q where k: "consume_code v up now s (case code of None \<Rightarrow> [] | Some x \<Rightarrow> x) = (s1, q)" by fastforce
  note f = consume_code_frame [OF k]
  have d1: "dead F H s1" using dead_frame f exchanges(4) by blast
  have "fresh_pair v avoid m s1" using exchanges(2) f by (simp add: fresh_pair_def same_oauth_def)
  moreover have "family \<notin> F" using exchanges(3,5) by (auto simp: fresh_family_def)
  ultimately show ?case using exchanges(1,5) k d1 dead_mint [OF d1, of v now m _ _ family s' avoid]
    by (auto simp: exchange_authorization_code_def split: option.splits sum.splits)
next
  case (refreshes now m s presented c scope resource s' r)
  then show ?case using dead_refresh by blast
next
  case (revokes s now presented c)
  have "dead F H (revoke_token now t s)" for t
    using dead_revoke [OF revokes(1)] by (auto simp: revoke_token_def Let_def dead_def)
  then show ?case using revokes(1) dead_revoke
    by (auto simp: revoke_presented_token_def revoke_family_def Let_def split: option.splits)
next
  case (disconnects now s u i s')
  then show ?case by (auto simp: revoke_user_grant_def intro: dead_grant split: option.splits if_splits)
next
  case (deactivates_client s now c)
  then show ?case unfolding deactivate_client_def revoke_all_for_client_def by (intro dead_grants) simp
next
  case (deactivates_user s now u)
  then show ?case unfolding deactivate_user_def revoke_all_for_user_def by (intro dead_revoke) simp
next
  case (validates now s plain s' r)
  then show ?case using dead_validate by blast
qed (auto simp: dead_def cleanup_expired_def Let_def)

lemma dead_run: "(oauth_step v avoid)\<^sup>*\<^sup>* s s' \<Longrightarrow> dead F H s \<Longrightarrow> F \<union> H \<subseteq> avoid \<Longrightarrow> dead F H s'"
  by (induction rule: rtranclp_induct) (auto intro: dead_step)

text \<open>The digests of rows that are all revoked are dead.\<close>

lemma dead_of_revoked:
  assumes "oauth_ok v s" "\<forall>h\<in>H. \<exists>y\<in>set (oa_tokens s). ot_hash y = h \<and> ot_revoked y \<noteq> None"
    and "\<forall>y\<in>set (oa_tokens s). ot_family y \<in> F \<longrightarrow> ot_revoked y \<noteq> None"
  shows "dead F H s"
proof -
  have d: "distinct (map ot_hash (oa_tokens s))" "cache_clean (oa_tokens s) (oa_cache s)"
    using oauth_okD(1) [OF assms(1)] by (simp_all add: tokens_ok_def)
  have "ot_revoked y \<noteq> None" if "y \<in> set (oa_tokens s)" "ot_hash y \<in> H" for y
    using same_id_same_row [OF d(1) that(1)] assms(2) that(2) by metis
  moreover have "oa_cache s h = None" if "h \<in> H" for h
    using assms(2) that d(2) unfolding cache_clean_def by metis
  ultimately show ?thesis using assms(3) unfolding dead_def by blast
qed

text \<open>A revocation keeps the digests of the rows it reaches.\<close>

lemma revoked_hashes:
  assumes "x \<in> set (oa_tokens s)" "P x" "\<And>t. P (t\<lparr>ot_revoked := Some now\<rparr>) = P t"
  shows "\<exists>y\<in>set (oa_tokens (revoke_where now P s)). ot_hash y = ot_hash x \<and> ot_revoked y \<noteq> None"
proof -
  have "(if P x \<and> ot_revoked x = None then x\<lparr>ot_revoked := Some now\<rparr> else x) \<in> set (oa_tokens (revoke_where now P s))"
    using assms(1) by (auto simp: update_where_def)
  then show ?thesis using assms(2) by (intro bexI) auto
qed

text \<open>No request with such a digest is answered with anything but a refusal.\<close>

lemma dead_refused:
  assumes "dead F H s" "sha256 v plain \<in> H"
  shows "snd (validate_oauth_access_token v now s plain) = None \<and>
    (\<exists>e. find_refresh v now s (Some plain) c scope resource = Dismissed e)"
proof -
  have "validate_cached v now s plain = None" using assms by (simp add: validate_cached_def dead_def)
  moreover have "validate_database v now s plain = None"
  proof (cases "validate_database v now s plain")
    case (Some x)
    then show ?thesis using validated_facts [of v now s plain "fst x" "snd x"] assms by (auto simp: dead_def is_live_def)
  qed simp
  moreover have "\<exists>e. find_refresh v now s (Some plain) c scope resource = Dismissed e"
  proof (cases "find_refresh v now s (Some plain) c scope resource")
    case (Claimable t g)
    then show ?thesis using claimable_facts [OF Claimable] assms by (auto simp: dead_def open_token_def)
  next
    case (Replayed t)
    then show ?thesis using replayed_facts [OF Replayed] assms by (auto simp: dead_def)
  qed simp
  ultimately show ?thesis by (simp add: validate_oauth_access_token_def)
qed

text \<open>A revoked grant stays revoked.\<close>

definition grant_dead :: "string \<Rightarrow> oauth_state \<Rightarrow> bool" where
  "grant_dead i s \<longleftrightarrow> (\<exists>g\<in>set (oa_grants s). og_id g = i \<and> og_revoked g \<noteq> None)"

lemma grant_dead_stamp: "grant_dead i s \<Longrightarrow> grant_dead i (revoke_grant now j s)"
  by (fastforce simp: grant_dead_def revoke_grant_def revoke_for_grant_def stamp_grant_def update_where_def)

lemma grant_dead_now:
  assumes "grant_row s i = Some g"
  shows "grant_dead i (revoke_grant now i s)"
proof -
  have g: "g \<in> set (oa_grants s)" "og_id g = i" using grant_row_Some [OF assms] by auto
  let ?g = "if og_id g = i \<and> og_revoked g = None then g\<lparr>og_revoked := Some now\<rparr> else g"
  have "?g \<in> set (oa_grants (revoke_grant now i s))"
    using g by (auto simp: revoke_grant_def revoke_for_grant_def stamp_grant_def update_where_def)
  moreover have "og_id ?g = i \<and> og_revoked ?g \<noteq> None" using g by simp
  ultimately show ?thesis unfolding grant_dead_def by blast
qed

lemma grant_dead_grants: "grant_dead i s \<Longrightarrow> grant_dead i (fold (revoke_grant now) js s)"
  by (induction js arbitrary: s) (auto intro: grant_dead_stamp)

lemma grant_dead_frame: "grant_dead i s \<Longrightarrow> oa_grants s' = oa_grants s \<Longrightarrow> grant_dead i s'"
  by (simp add: grant_dead_def)

lemma refresh_grants: "refresh_access_token v now m s presented c scope resource = (s', r) \<Longrightarrow> oa_grants s' = oa_grants s"
  by (auto simp: refresh_access_token_def rotate_def revoke_family_def consume_refresh_def Let_def mint_pair_def
      split: refresh_finding.splits prod.splits bool.splits option.splits if_splits)

lemma exchange_grants:
  "exchange_authorization_code v up now m family s code c verifier redirect resource = (s', r) \<Longrightarrow> oa_grants s' = oa_grants s"
  by (auto simp: exchange_authorization_code_def mint_pair_def Let_def consume_code_def
      split: option.splits sum.splits if_splits prod.splits)

lemma grant_dead_step: "oauth_step v avoid s s' \<Longrightarrow> grant_dead i s \<Longrightarrow> grant_dead i s'"
proof (induction rule: oauth_step.induct)
  case (begins up now i rid document s ps s' r)
  then show ?case
    by (auto simp: begin_authorization_def park_request_def same_oauth_def grant_dead_def
        split: sum.splits if_splits option.splits prod.splits dest!: resolve_client_frame)
next
  case (decides up up2 now gid code may_read s rid u approved g s' r)
  obtain s1 q where c: "consume_pending v up now s rid = (s1, q)" by fastforce
  have "set (oa_grants s1) \<subseteq> set (oa_grants s')" using decides(1) c
    by (auto simp: record_decision_def Let_def split: option.splits if_splits sum.splits)
  then show ?case using consume_pending_facts [OF c] decides(4) by (auto simp: grant_dead_def same_oauth_def)
next
  case (deactivates_client s now c)
  then show ?case unfolding deactivate_client_def revoke_all_for_client_def
    by (intro grant_dead_grants) (simp add: grant_dead_def)
qed (auto simp: register_dynamic_client_def result_simps Let_def revoke_presented_token_def revoke_family_def
      revoke_token_def revoke_user_grant_def deactivate_user_def revoke_all_for_user_def validate_oauth_access_token_def
      cache_validation_def cleanup_expired_def intro: grant_dead_stamp grant_dead_frame refresh_grants exchange_grants
      split: option.splits if_splits)

interpretation closed_grant: step_invariant "oauth_step v avoid" "grant_dead i"
  by unfold_locales (rule grant_dead_step)

end
