(* ===== verification/OAuthResults.thy ===== *)
theory OAuthResults
  imports OAuthFacts
begin

text \<open>
  The properties of the authorization server, the two interleavings that break what its comments
  promise, and the run that witnesses them.
\<close>

subsection \<open>Uninterrupted operations\<close>


text \<open>
  C27. A bearer is confined to its consent: whoever presents a token that is accepted, from the
  cache or from the tables, acts as the user of a recorded grant, through its client, on its
  one graph, at its one URL; and that URL is the graph-agnostic route or names that graph.
\<close>

theorem bearer_confined_to_consent:
  assumes "(oauth_step v avoid)\<^sup>*\<^sup>* empty_oauth s" "validate_oauth_access_token v now s plain = (s', Some p)"
  shows "\<exists>g\<in>set (oa_grants s). og_id g = pr_grant p \<and> og_user g = pr_user p \<and> og_client g = pr_client p \<and>
    og_graph g = pr_graph p \<and> og_resource g = pr_resource p \<and> og_scope g = pr_scope p \<and>
    graph_or_subgraph_id (pr_graph p) \<and>
    pr_resource p \<in> {tg_resource (agnostic_target v), tg_resource (graph_target v (pr_graph p))}"
proof -
  note ok = oauth_okD [OF oauth.run_keeps [OF assms(1) empty_oauth_ok]]
  have "\<exists>g\<in>set (oa_grants s). confined g p"
  proof (cases "validate_cached v now s plain")
    case None
    with assms(2) obtain e where "validate_database v now s plain = Some (p, e)"
      by (auto simp: validate_oauth_access_token_def split: if_splits option.splits)
    then show ?thesis using validated_facts by blast
  next
    case (Some q)
    with assms(2) have "q = p" by (auto simp: validate_oauth_access_token_def split: if_splits)
    with Some obtain e where "oa_cache s (sha256 v plain) = Some (p, e)"
      by (auto simp: validate_cached_def split: option.splits if_splits)
    then show ?thesis using ok(4) unfolding cache_confined_def by blast
  qed
  then obtain g where g: "g \<in> set (oa_grants s)" "confined g p" by blast
  with ok(3) have "grant_ok v g" by blast
  with g show ?thesis by (auto simp: confined_def grant_ok_def target_of_def)
qed


text \<open>
  Disconnecting an app is final: after a user revoked a grant, whatever follows, every
  token ever minted from it is refused, as a bearer and for rotation, and every token the
  tables hold for it is revoked.
\<close>

theorem disconnecting_is_final:
  assumes "(oauth_step v avoid)\<^sup>*\<^sup>* empty_oauth s"
    and r: "revoke_user_grant now s u i = Some s1"
    and "(oauth_step v (ot_hash ` {x \<in> set (oa_tokens s). ot_grant x = i}))\<^sup>*\<^sup>* s1 s2"
    and "x \<in> set (oa_tokens s) \<union> set (oa_tokens s2)" "ot_grant x = i" "sha256 v plain = ot_hash x"
  shows "(\<forall>y\<in>set (oa_tokens s2). ot_grant y = i \<longrightarrow> ot_revoked y \<noteq> None) \<and>
    snd (validate_oauth_access_token v now' s2 plain) = None \<and>
    (\<exists>e. find_refresh v now' s2 (Some plain) c scope resource = Dismissed e)"
proof -
  let ?H = "ot_hash ` {x \<in> set (oa_tokens s). ot_grant x = i}"
  have ok: "oauth_ok v s" using oauth.run_keeps [OF assms(1) empty_oauth_ok] .
  from r obtain g where g: "grant_row s i = Some g" and s1: "s1 = revoke_grant now i s"
    by (auto simp: revoke_user_grant_def split: option.splits if_splits)
  have ok1: "oauth_ok v s1" unfolding s1 by (rule revoke_grant_ok [OF ok])
  have ok2: "oauth_ok v s2" using oauth.run_keeps [OF assms(3) ok1] .
  have "grant_dead i s1" unfolding s1 by (rule grant_dead_now [OF g])
  from closed_grant.run_keeps [OF assms(3) this] obtain g2 where g2: "g2 \<in> set (oa_grants s2)" "og_id g2 = i" "og_revoked g2 \<noteq> None"
    by (auto simp: grant_dead_def)
  have rev1: "ot_revoked y \<noteq> None" if "y \<in> set (oa_tokens s1)" "ot_grant y = i" for y
    using that unfolding s1 revoke_grant_def revoke_for_grant_def
    by (intro revoked_all [of y now "\<lambda>y. ot_grant y = i" "stamp_grant now i s"]) auto
  have rev2: "ot_revoked y \<noteq> None" if "y \<in> set (oa_tokens s2)" "ot_grant y = i" for y
    using oauth_okD(5) [OF ok2] g2 that unfolding revoked_closed_def by blast
  have dead1: "dead {} ?H s1" 
    using revoked_hashes [of _ "stamp_grant now i s" "\<lambda>y. ot_grant y = i" now]
    by (intro dead_of_revoked [OF ok1]) (auto simp: s1 revoke_grant_def revoke_for_grant_def stamp_grant_def)
  from dead_run [OF assms(3) this] have dead: "dead {} ?H s2" by simp
  show ?thesis
  proof (cases "sha256 v plain \<in> ?H")
    case True
    from dead_refused [OF dead this] rev2 show ?thesis by blast
  next
    case False
    with assms(4-6) have x: "x \<in> set (oa_tokens s2)" by auto
    have "dead {} {ot_hash x} s2" using x rev2 [OF x assms(5)] by (intro dead_of_revoked [OF ok2]) auto
    from dead_refused [OF this] assms(6) rev2 show ?thesis by auto
  qed
qed

subsection \<open>Interrupted operations\<close>

lemma count_one:
  assumes "distinct (map k xs)" "x \<in> set xs" "P x" "\<And>y. P y \<Longrightarrow> k y = k x"
  shows "count_where P xs = 1"
  using assms(1,2)
proof (induction xs)
  case (Cons a xs)
  have "count_where P xs = 0" if "a = x"
    using Cons.prems(1) assms(4) that by (auto simp: count_where_def filter_empty_conv image_iff)
  moreover have "\<not> P a \<and> count_where P xs = 1" if "a \<noteq> x"
    using Cons that assms(4) by (auto simp: image_iff)
  ultimately show ?case using assms(3) by (cases "a = x") (auto simp: count_where_def)
qed simp

text \<open>A token that was just claimed is found again as a replay.\<close>

lemma claimed_is_replay:
  assumes "oauth_ok v s" "find_refresh v now s presented c scope resource = Claimable t g"
    and s1: "s1 = fst (consume_refresh now s (ot_id t))"
  shows "find_refresh v now2 s1 presented c scope2 resource2 = Replayed (t\<lparr>ot_used := Some now\<rparr>)"
proof -
  have d: "distinct (map ot_id (oa_tokens s))" "distinct (map ot_hash (oa_tokens s))"
    using oauth_okD(1) [OF assms(1)] by (simp_all add: tokens_ok_def)
  note f = claimable_facts [OF assms(2)]
  have shape: "truthy presented" "take 4 (the presented) = ''rfsr''" "og_client g = oc_id c" "the presented \<noteq> []"
    using assms(2) by (auto simp: find_refresh_def get_by_plaintext_def split: if_splits option.splits sum.splits)
  let ?t = "t\<lparr>ot_used := Some now\<rparr>"
  have "x = (if claimable (ot_id t) y then y\<lparr>ot_used := Some now\<rparr> else y) \<Longrightarrow> y \<in> set (oa_tokens s) \<Longrightarrow>
      ot_hash x = ot_hash t \<Longrightarrow> x = ?t" for x y
    using same_id_same_row [OF d(2), of y t] f by (auto simp: claimable_def open_token_def split: if_splits)
  then have only: "x = ?t" if "x \<in> set (oa_tokens s1)" "ot_hash x = ot_hash t" for x
    using that unfolding s1 by (auto simp: update_where_def)
  have "?t \<in> set (oa_tokens s1)"
    using f unfolding s1 by (force simp: update_where_def claimable_def open_token_def image_iff)
  then obtain x where x: "find_row (\<lambda>x. ot_hash x = sha256 v (the presented) \<and> ot_type x = RefreshToken) (oa_tokens s1) = Some x"
    using f by (cases "find_row (\<lambda>x. ot_hash x = sha256 v (the presented) \<and> ot_type x = RefreshToken) (oa_tokens s1)")
      (auto simp: find_row_None)
  with only [of x] f find_row_Some [OF x] have "x = ?t" by simp
  with x shape f show ?thesis
    by (auto simp: find_refresh_def get_by_plaintext_def s1 grant_row_def open_token_def)
qed

lemma rotate_result:
  assumes "rotate v now m s t g = (s', Inr resp)"
  shows "\<exists>y\<in>set (oa_tokens s'). ot_family y = ot_family t \<and> ot_type y = RefreshToken \<and>
    ot_hash y = sha256 v (tr_refresh resp) \<and> is_live now y"
proof -
  from assms obtain s1 where "mint_pair v now m (og_id g) (og_user g) (ot_family t) s1 = Some s'"
    and "resp = token_response_of m g"
    by (auto simp: rotate_def Let_def split: option.splits)
  with mint_pair_Some [OF this(1)] show ?thesis
    by (auto simp: minted_rows_def token_response_of_def is_live_def)
qed

text \<open>
  A rotation survives the replay that its token is answered with: when a second request
  with the same refresh token arrives after the first one claimed it and before it mints, the
  replay is detected and the whole family revoked; then the first request mints its pair in
  the revoked family, and that pair is live.
\<close>

theorem rotation_survives_replay:
  assumes "(oauth_step v avoid)\<^sup>*\<^sup>* empty_oauth s"
    and r: "find_refresh v now s presented c scope resource = Claimable t g"
    and k: "consume_refresh now s (ot_id t) = (s1, won)"
    and a: "refresh_access_token v now2 m2 s1 presented c scope2 resource2 = (s2, second)"
    and "rotate v now3 m s2 t g = (s3, Inr first)"
  shows "won \<and> second = Inl InvalidGrant \<and>
    (\<forall>y\<in>set (oa_tokens s2). ot_family y = ot_family t \<longrightarrow> ot_revoked y \<noteq> None) \<and>
    (\<exists>y\<in>set (oa_tokens s3). ot_family y = ot_family t \<and> ot_type y = RefreshToken \<and>
       ot_hash y = sha256 v (tr_refresh first) \<and> is_live now3 y)"
proof -
  have ok: "oauth_ok v s" using oauth.run_keeps [OF assms(1) empty_oauth_ok] .
  note f = claimable_facts [OF r]
  have "distinct (map ot_id (oa_tokens s))" using oauth_okD(1) [OF ok] by (simp add: tokens_ok_def)
  then have "count_where (claimable (ot_id t)) (oa_tokens s) = 1"
    using f by (intro count_one [of ot_id _ t]) (auto simp: claimable_def open_token_def)
  then have "won" using k by (simp add: consume_refresh_def)
  moreover from claimed_is_replay [OF ok r, of s1 now2 scope2 resource2] k
  have s2: "s2 = revoke_family now2 (ot_family t) s1" and "second = Inl InvalidGrant"
    using a by (simp_all add: refresh_access_token_def)
  moreover have "ot_revoked y \<noteq> None" if "y \<in> set (oa_tokens s2)" "ot_family y = ot_family t" for y
    using that unfolding s2 revoke_family_def
    by (intro revoked_all [of y now2 "\<lambda>y. ot_family y = ot_family t" s1]) auto
  ultimately show ?thesis using rotate_result [OF assms(5)] by blast
qed

text \<open>
  A validation outlives the disconnection: when the user revokes the grant after a
  validation read the tables and before it writes the cache, the revoked token is accepted
  until it expires, and revoking the grant again, which the code offers as the retry, does not
  clear it, because only tokens that were not revoked yet lose their cache entry.
\<close>

theorem validation_outlives_disconnection:
  assumes "(oauth_step v avoid)\<^sup>*\<^sup>* empty_oauth s"
    and d: "validate_database v now s plain = Some (p, e)"
    and r1: "revoke_user_grant now2 s u (pr_grant p) = Some s1"
    and r2: "revoke_user_grant now3 (cache_validation v plain (p, e) s1) u (pr_grant p) = Some s2"
    and "take 4 plain = ''rfso''" "length plain \<le> 256" "now4 < e"
  shows "snd (validate_oauth_access_token v now4 s2 plain) = Some p \<and>
    (\<forall>y\<in>set (oa_tokens s2). ot_hash y = sha256 v plain \<longrightarrow> ot_revoked y \<noteq> None)"
proof -
  have s1: "s1 = revoke_grant now2 (pr_grant p) s"
    and s2: "s2 = revoke_grant now3 (pr_grant p) (cache_validation v plain (p, e) s1)"
    using r1 r2 by (auto simp: revoke_user_grant_def split: option.splits if_splits)
  have ok: "oauth_ok v s" using oauth.run_keeps [OF assms(1) empty_oauth_ok] .
  obtain t where t: "t \<in> set (oa_tokens s)" "ot_hash t = sha256 v plain" "ot_grant t = pr_grant p"
    using validated_facts [OF d] by metis
  have rev1: "ot_revoked y \<noteq> None" if "y \<in> set (oa_tokens s1)" "ot_grant y = pr_grant p" for y
    using that unfolding s1 revoke_grant_def revoke_for_grant_def
    by (intro revoked_all [of y now2 "\<lambda>y. ot_grant y = pr_grant p" "stamp_grant now2 (pr_grant p) s"]) auto
  have "dead {} {ot_hash t} s1"
    using revoked_hashes [of t "stamp_grant now2 (pr_grant p) s" "\<lambda>y. ot_grant y = pr_grant p" now2] t
      dead_of_revoked [OF revoke_grant_ok [OF ok]]
    by (auto simp: s1 revoke_grant_def revoke_for_grant_def stamp_grant_def)
  then have h: "ot_revoked y \<noteq> None" if "y \<in> set (oa_tokens s1)" "ot_hash y = sha256 v plain" for y
    using that t(2) by (auto simp: dead_def)
  have tokens: "oa_tokens s2 = oa_tokens s1"
    unfolding s2 revoke_grant_def revoke_for_grant_def stamp_grant_def cache_validation_def
    by (auto intro!: update_where_cong dest: rev1)
  have "oa_cache s2 (sha256 v plain) = Some (p, e)"
    unfolding s2 revoke_grant_def revoke_for_grant_def stamp_grant_def cache_validation_def
    using rev1 by (auto simp: revoke_where_cache)
  then have "validate_cached v now4 s2 plain = Some p" using assms(7) by (simp add: validate_cached_def)
  then show ?thesis using assms(5,6) h tokens by (simp add: validate_oauth_access_token_def)
qed

subsection \<open>A run\<close>

text \<open>A client registers, a user connects it to the library, and the pair is rotated once.\<close>

definition demo_env :: oauth_env where
  "demo_env = \<lparr>sha256 = (\<lambda>t. t), s256_challenge = (\<lambda>t. take 43 t), api_url = ''https://api.x/''\<rparr>"

definition demo_verifier :: string where
  "demo_verifier = replicate 43 CHR ''c''"

definition demo_pair :: "char \<Rightarrow> minted" where
  "demo_pair c = \<lparr>mi_access_id = [CHR ''a'', c], mi_refresh_id = [CHR ''r'', c], mi_access = [c], mi_refresh = [c]\<rparr>"

definition demo_payload :: json where
  "demo_payload = JObj [(''redirect_uris'', JList [JStr ''https://a.example/cb'']), (''client_name'', JStr ''App'')]"

definition demo_params :: authorize_params where
  "demo_params = \<lparr>ap_response_type = Some ''code'', ap_client_id = Some ''rfsoc_1'', ap_redirect = Some ''https://a.example/cb'',
     ap_state = None, ap_challenge = Some demo_verifier, ap_method = Some ''S256'', ap_scope = None, ap_resource = None\<rparr>"

definition demo_registered :: oauth_state where
  "demo_registered = (case register_dynamic_client demo_env 0 ''oac1'' ''rfsoc_1'' [] (empty_oauth\<lparr>oa_users := [''u1'' \<mapsto> True]\<rparr>)
     demo_payload None of Inr (s, _) \<Rightarrow> s | Inl _ \<Rightarrow> empty_oauth)"

definition demo_parked :: oauth_state where
  "demo_parked = fst (begin_authorization demo_env True 10 [] ''req1'' (\<lambda>_. Inl InvalidClient) demo_registered demo_params)"

definition demo_granted :: oauth_state where
  "demo_granted = fst (record_decision demo_env True True 20 ''oag1'' ''code1'' (\<lambda>_ _. True) demo_parked ''req1'' ''u1'' True
     (Some ''library''))"

definition demo_app :: oauth_client where
  "demo_app = \<lparr>oc_id = ''oac1'', oc_client_id = ''rfsoc_1'', oc_secret_hash = None, oc_redirects = [''https://a.example/cb''],
     oc_source = Dcr, oc_ip = None, oc_active = True, oc_expires = None, oc_created = 0\<rparr>"

definition demo_exchanged :: oauth_state where
  "demo_exchanged = fst (exchange_authorization_code demo_env True 30 (demo_pair CHR ''1'') ''oaf1'' demo_granted (Some ''code1'')
     demo_app (Some demo_verifier) (Some ''https://a.example/cb'') None)"

definition demo_rotated :: oauth_state where
  "demo_rotated = fst (refresh_access_token demo_env 40 (demo_pair CHR ''2'') demo_exchanged (Some ''rfsr1'') demo_app None None)"

lemma demo_tokens:
  "oa_tokens demo_exchanged = minted_rows demo_env 30 (demo_pair CHR ''1'') ''oag1'' ''u1'' ''oaf1''"
  "oa_grants demo_exchanged = [\<lparr>og_id = ''oag1'', og_user = ''u1'', og_client = ''oac1'', og_graph = ''library'',
     og_resource = ''https://api.x/v1/mcp'', og_scope = ''mcp'', og_revoked = None\<rparr>]"
  "oa_cache demo_exchanged ''rfso1'' = None"
  "oa_clients demo_exchanged = [demo_app]"
  by code_simp+

lemma demo_run: "(oauth_step demo_env {})\<^sup>*\<^sup>* empty_oauth demo_exchanged"
proof -
  let ?s0 = "empty_oauth\<lparr>oa_users := [''u1'' \<mapsto> True]\<rparr>"
  have "oauth_step demo_env {} empty_oauth ?s0"
    using oauth_step.activates_user [of demo_env "{}" empty_oauth "''u1''"] by (simp add: empty_oauth_def)
  moreover have "is_ok (register_dynamic_client demo_env 0 ''oac1'' ''rfsoc_1'' [] ?s0 demo_payload None)" by code_simp
  then have "oauth_step demo_env {} ?s0 demo_registered"
    unfolding demo_registered_def by (auto simp: is_ok_def intro: oauth_step.registers split: sum.splits)
  moreover have "oauth_step demo_env {} demo_registered demo_parked"
    unfolding demo_parked_def by (rule oauth_step.begins [OF surjective_pairing])
  moreover have "grant_row demo_parked ''oag1'' = None" "oa_tokens demo_parked = []" by code_simp+
  then have "oauth_step demo_env {} demo_parked demo_granted"
    unfolding demo_granted_def by (intro oauth_step.decides [OF surjective_pairing]) auto
  moreover have "oa_tokens demo_granted = []" "oa_cache demo_granted ''rfso1'' = None" "oa_cache demo_granted ''rfsr1'' = None"
    by code_simp+
  then have "oauth_step demo_env {} demo_granted demo_exchanged"
    unfolding demo_exchanged_def
    by (intro oauth_step.exchanges [OF surjective_pairing])
      (simp_all add: fresh_pair_def fresh_family_def demo_env_def access_plain_def refresh_plain_def demo_pair_def)
  ultimately show ?thesis by (meson rtranclp.rtrancl_into_rtrancl rtranclp.rtrancl_refl)
qed

lemma demo_run_rotated: "(oauth_step demo_env {})\<^sup>*\<^sup>* empty_oauth demo_rotated"
proof -
  have "fresh_pair demo_env {} (demo_pair CHR ''2'') demo_exchanged" by code_simp
  then have "oauth_step demo_env {} demo_exchanged demo_rotated"
    unfolding demo_rotated_def by (rule oauth_step.refreshes [OF surjective_pairing])
  with demo_run show ?thesis by (rule rtranclp.rtrancl_into_rtrancl)
qed


lemma bearer_confined_to_consent_witness:
  "case validate_oauth_access_token demo_env 35 demo_exchanged ''rfso1'' of
     (_, Some p) \<Rightarrow> pr_graph p = ''library'' \<and> pr_user p = ''u1'' | _ \<Rightarrow> False"
proof -
  have "snd (validate_oauth_access_token demo_env 35 demo_exchanged ''rfso1'') \<noteq> None" by code_simp
  then obtain s' p where v: "validate_oauth_access_token demo_env 35 demo_exchanged ''rfso1'' = (s', Some p)"
    by (metis option.exhaust prod.exhaust_sel)
  from bearer_confined_to_consent [OF demo_run this] show ?thesis by (auto simp: v demo_tokens)
qed


lemma disconnecting_is_final_witness:
  "case revoke_user_grant 50 demo_exchanged ''u1'' ''oag1'' of
     Some s \<Rightarrow> snd (validate_oauth_access_token demo_env 60 s ''rfso1'') = None | None \<Rightarrow> False"
proof -
  have "revoke_user_grant 50 demo_exchanged ''u1'' ''oag1'' \<noteq> None"
    by (simp add: revoke_user_grant_def grant_row_def demo_tokens)
  then obtain s where r: "revoke_user_grant 50 demo_exchanged ''u1'' ''oag1'' = Some s" by auto
  have "list_ex (\<lambda>x. ot_hash x = ''rfso1'' \<and> ot_grant x = ''oag1'') (oa_tokens demo_exchanged)"
    unfolding demo_tokens by code_simp
  then obtain x where "x \<in> set (oa_tokens demo_exchanged)" "ot_hash x = ''rfso1''" "ot_grant x = ''oag1''"
    by (auto simp: list_ex_iff)
  then have x: "x \<in> set (oa_tokens demo_exchanged) \<union> set (oa_tokens s)" "ot_grant x = ''oag1''"
    "sha256 demo_env ''rfso1'' = ot_hash x" by (simp_all add: demo_env_def)
  from disconnecting_is_final [OF demo_run r rtranclp.rtrancl_refl x] show ?thesis by (simp add: r)
qed

lemma rotation_survives_replay_witness:
  "case find_refresh demo_env 40 demo_exchanged (Some ''rfsr1'') demo_app None None of
     Claimable t g \<Rightarrow>
       (case consume_refresh 40 demo_exchanged (ot_id t) of (s1, _) \<Rightarrow>
        case refresh_access_token demo_env 41 (demo_pair CHR ''3'') s1 (Some ''rfsr1'') demo_app None None of (s2, _) \<Rightarrow>
        case rotate demo_env 42 (demo_pair CHR ''2'') s2 t g of
          (s3, Inr _) \<Rightarrow> \<exists>y\<in>set (oa_tokens s3). ot_family y = ot_family t \<and> is_live 42 y
        | _ \<Rightarrow> False)
   | _ \<Rightarrow> False"
proof -
  let ?find = "find_refresh demo_env 40 demo_exchanged (Some ''rfsr1'') demo_app None None"
  have "case ?find of Claimable t g \<Rightarrow>
      is_ok (snd (rotate demo_env 42 (demo_pair CHR ''2'')
        (fst (refresh_access_token demo_env 41 (demo_pair CHR ''3'') (fst (consume_refresh 40 demo_exchanged (ot_id t)))
          (Some ''rfsr1'') demo_app None None)) t g)) | _ \<Rightarrow> False" by code_simp
  then obtain t g where f: "?find = Claimable t g" and ok: "is_ok (snd (rotate demo_env 42 (demo_pair CHR ''2'')
        (fst (refresh_access_token demo_env 41 (demo_pair CHR ''3'') (fst (consume_refresh 40 demo_exchanged (ot_id t)))
          (Some ''rfsr1'') demo_app None None)) t g))" by (auto split: refresh_finding.splits)
  obtain s1 won where s1: "consume_refresh 40 demo_exchanged (ot_id t) = (s1, won)" by fastforce
  obtain s2 second where s2: "refresh_access_token demo_env 41 (demo_pair CHR ''3'') s1 (Some ''rfsr1'') demo_app None None = (s2, second)"
    by fastforce
  from ok obtain s3 first where s3: "rotate demo_env 42 (demo_pair CHR ''2'') s2 t g = (s3, Inr first)"
    by (cases "rotate demo_env 42 (demo_pair CHR ''2'') s2 t g") (auto simp: s1 s2 is_ok_def split: sum.splits)
  from rotation_survives_replay [OF demo_run f s1 s2 s3] show ?thesis by (auto simp: f s1 s2 s3)
qed

lemma validation_outlives_disconnection_witness:
  "case validate_database demo_env 35 demo_exchanged ''rfso1'' of
     Some (p, e) \<Rightarrow>
       (case revoke_user_grant 36 demo_exchanged ''u1'' (pr_grant p) of
          Some s1 \<Rightarrow>
            (case revoke_user_grant 38 (cache_validation demo_env ''rfso1'' (p, e) s1) ''u1'' (pr_grant p) of
               Some s2 \<Rightarrow> snd (validate_oauth_access_token demo_env 39 s2 ''rfso1'') = Some p
             | None \<Rightarrow> False)
        | None \<Rightarrow> False)
   | None \<Rightarrow> False"
proof -
  have "case validate_database demo_env 35 demo_exchanged ''rfso1'' of
      Some (p, e) \<Rightarrow> 39 < e \<and>
        (case revoke_user_grant 36 demo_exchanged ''u1'' (pr_grant p) of
           Some s1 \<Rightarrow> revoke_user_grant 38 (cache_validation demo_env ''rfso1'' (p, e) s1) ''u1'' (pr_grant p) \<noteq> None
         | None \<Rightarrow> False) | None \<Rightarrow> False" by code_simp
  then obtain p e s1 s2 where f: "validate_database demo_env 35 demo_exchanged ''rfso1'' = Some (p, e)" "39 < e"
    "revoke_user_grant 36 demo_exchanged ''u1'' (pr_grant p) = Some s1"
    "revoke_user_grant 38 (cache_validation demo_env ''rfso1'' (p, e) s1) ''u1'' (pr_grant p) = Some s2"
    by (auto split: option.splits prod.splits)
  from validation_outlives_disconnection [OF demo_run f(1,3,4) _ _ f(2)] show ?thesis by (simp add: f)
qed

end
