(* ===== verification/Allocation.thy ===== *)
theory Allocation
  imports Texts
begin

text \<open>
  The placement of graph databases on writer instances
  (\<open>middleware/graph/allocation_manager.py\<close>, \<open>middleware/graph/utils/subgraph.py\<close>): the
  graph, instance and volume registries, the requests an allocation and a deallocation send
  one after the other, each request one step that may be answered by a client error.
  The registries are DynamoDB tables: a request with a condition is atomic.
\<close>

subsection \<open>Identifiers\<close>

text \<open>Python's \<open>re.match\<close> with a pattern that ends in \<open>$\<close>: a final newline is ignored.\<close>

definition dollar :: "(string \<Rightarrow> bool) \<Rightarrow> string \<Rightarrow> bool" where
  "dollar P s \<longleftrightarrow> P s \<or> (s \<noteq> [] \<and> last s = CHR 0x0A \<and> P (butlast s))"

definition entity_id_ok :: "string \<Rightarrow> bool" where
  "entity_id_ok = dollar (\<lambda>t. t \<noteq> [] \<and> length t \<le> 128 \<and>
     list_all (\<lambda>c. alnum c \<or> c = CHR ''_'' \<or> c = CHR ''-'') t)"

definition user_graph_id :: "string \<Rightarrow> bool" where
  "user_graph_id t \<longleftrightarrow> take 2 t = ''kg'' \<and> 16 \<le> length (drop 2 t) \<and> list_all hex_char (drop 2 t)"

text \<open>\<open>shared\<close> are the ids of the registered shared repositories.\<close>

definition graph_id_ok :: "string list \<Rightarrow> string \<Rightarrow> bool" where
  "graph_id_ok shared = dollar (\<lambda>t. user_graph_id t \<or> t \<in> set shared)"

definition subgraph_name_ok :: "string \<Rightarrow> bool" where
  "subgraph_name_ok t \<longleftrightarrow> t \<noteq> [] \<and> length t \<le> 20 \<and> list_all alnum t"

record subgraph_info =
  sg_graph :: string
  sg_parent :: string
  sg_name :: string
  sg_database :: string

definition full_subgraph :: "string \<Rightarrow> (string \<times> string) option" where
  "full_subgraph t =
     (if CHR ''_'' \<in> set t \<and> user_graph_id (before_chr CHR ''_'' t) \<and> subgraph_name_ok (after_chr CHR ''_'' t)
      then Some (before_chr CHR ''_'' t, after_chr CHR ''_'' t) else None)"

definition parse_subgraph_id :: "string list \<Rightarrow> string \<Rightarrow> subgraph_info option" where
  "parse_subgraph_id shared g =
     (case (case full_subgraph g of
              Some m \<Rightarrow> Some m
            | None \<Rightarrow> if g \<noteq> [] \<and> last g = CHR 0x0A then full_subgraph (butlast g) else None) of
        Some (p, n) \<Rightarrow> Some \<lparr>sg_graph = g, sg_parent = p, sg_name = n, sg_database = g\<rparr>
      | None \<Rightarrow>
          if CHR ''_'' \<in> set g then
            let p = before_chr CHR ''_'' g; n = after_chr CHR ''_'' g in
            if p \<noteq> [] \<and> n \<noteq> [] \<and> p \<in> set shared \<and> dollar subgraph_name_ok n
            then Some \<lparr>sg_graph = g, sg_parent = p, sg_name = n, sg_database = g\<rparr> else None
          else None)"

definition is_subgraph_id :: "string list \<Rightarrow> string \<Rightarrow> bool" where
  "is_subgraph_id shared g \<longleftrightarrow>
     g \<noteq> [] \<and> g \<notin> set shared \<and> CHR ''_'' \<in> set g \<and>
     (let p = before_chr CHR ''_'' g; n = after_chr CHR ''_'' g in
        n \<noteq> [] \<and> length n \<le> 20 \<and> list_all alnum n \<and>
        ((take 2 p = ''kg'' \<and> 18 \<le> length p \<and> list_all hex_char (drop 2 p)) \<or> p \<in> set shared))"

subsection \<open>The registries\<close>

datatype db_status = DbActive | DbCreating | DbMigrating | DbFailed | DbDeleted

datatype instance_status = Healthy | Unhealthy | Terminating

text \<open>
  A row of the graph registry. The entity and the instance are absent from a row that a
  conditional update created, which happens when the row was rolled back in between.
  The locks are the timestamps that the code formats into them.
\<close>

record graph_row =
  gr_graph :: string
  gr_entity :: "string option"
  gr_instance :: "string option"
  gr_backend :: "string option"
  gr_ip :: "string option"
  gr_zone :: "string option"
  gr_created :: int
  gr_accessed :: "int option"
  gr_status :: db_status
  gr_alloc_lock :: "int option"
  gr_dealloc_lock :: "int option"

text \<open>Registration writes \<open>cluster_tier\<close>; \<open>ir_tier\<close> is the attribute \<open>tier\<close> the code also reads.\<close>

record instance_row =
  ir_id :: string
  ir_ip :: string
  ir_zone :: "string option"
  ir_status :: instance_status
  ir_cluster_tier :: string
  ir_tier :: "string option"
  ir_count :: int
  ir_max :: "int option"

record volume_row =
  vr_id :: string
  vr_instance :: string
  vr_zone :: string
  vr_tier :: string
  vr_status :: string
  vr_databases :: "string list option"

text \<open>The tables, and the instances the scaling group must not scale in.\<close>

record registries =
  graph_table :: "graph_row list"
  instance_table :: "instance_row list"
  volume_table :: "volume_row list"
  protected :: "string list"

definition graph_item :: "registries \<Rightarrow> string \<Rightarrow> graph_row option" where
  "graph_item t g = find_row (\<lambda>r. gr_graph r = g) (graph_table t)"

definition instance_item :: "registries \<Rightarrow> string \<Rightarrow> instance_row option" where
  "instance_item t i = find_row (\<lambda>r. ir_id r = i) (instance_table t)"

definition put_graph :: "graph_row \<Rightarrow> registries \<Rightarrow> registries" where
  "put_graph r t = t\<lparr>graph_table := update_where (\<lambda>x. gr_graph x = gr_graph r) (\<lambda>_. r) (graph_table t)\<rparr>"

definition put_instance :: "instance_row \<Rightarrow> registries \<Rightarrow> registries" where
  "put_instance r t = t\<lparr>instance_table := update_where (\<lambda>x. ir_id x = ir_id r) (\<lambda>_. r) (instance_table t)\<rparr>"

record alloc_config =
  ac_environment :: string
  ac_max_databases :: int
  ac_shared :: "string list"

definition deployed :: "alloc_config \<Rightarrow> bool" where
  "deployed cfg \<longleftrightarrow> ac_environment cfg = ''prod'' \<or> ac_environment cfg = ''staging''"

definition unmanaged :: "alloc_config \<Rightarrow> bool" where
  "unmanaged cfg \<longleftrightarrow> ac_environment cfg = ''dev'' \<or> ac_environment cfg = ''test''"

text \<open>\<open>get_tier_config\<close> answers the standard tier's block for a tier it does not list.\<close>

definition databases_per_instance :: "alloc_config \<Rightarrow> string \<Rightarrow> int" where
  "databases_per_instance cfg tier =
     (if tier = ''ladybug-large'' \<or> tier = ''ladybug-xlarge'' \<or> tier = ''ladybug-shared'' then 1
      else ac_max_databases cfg)"

subsection \<open>The choice of an instance\<close>

record instance_info =
  ii_id :: string
  ii_ip :: string
  ii_zone :: string
  ii_count :: int
  ii_max :: int

definition available_capacity :: "instance_info \<Rightarrow> int" where
  "available_capacity i = max 0 (ii_max i - ii_count i)"

definition occupying :: "db_status \<Rightarrow> bool" where
  "occupying s \<longleftrightarrow> s = DbActive \<or> s = DbCreating \<or> s = DbMigrating"

text \<open>
  The index of the graph registry by instance answers in pages; it trails the table, so its
  answer is an argument.
\<close>

type_synonym instance_index = "string \<Rightarrow> graph_row list list"

primrec count_pages :: "graph_row list list \<Rightarrow> int" where
  "count_pages [] = 0"
| "count_pages (p # ps) = int (count_where (\<lambda>r. occupying (gr_status r)) p) + count_pages ps"

definition count_allocated_graphs :: "instance_index \<Rightarrow> string \<Rightarrow> int" where
  "count_allocated_graphs idx i = count_pages (idx i)"

text \<open>An index that has caught up, in one page.\<close>

definition current_index :: "registries \<Rightarrow> instance_index" where
  "current_index t i = [filter (\<lambda>r. gr_instance r = Some i) (graph_table t)]"

definition tier_suffix :: "string \<Rightarrow> string option" where
  "tier_suffix tier =
     (if tier = ''ladybug-standard'' then Some ''LadybugStandard''
      else if tier = ''ladybug-large'' then Some ''LadybugLarge''
      else if tier = ''ladybug-xlarge'' then Some ''LadybugXlarge''
      else if tier = ''ladybug-shared'' then Some ''LadybugShared''
      else None)"

text \<open>Python's \<open>max\<close> with a key: the first of the largest.\<close>

primrec first_max :: "('a \<Rightarrow> int) \<Rightarrow> 'a list \<Rightarrow> 'a option" where
  "first_max k [] = None"
| "first_max k (x # xs) =
     (case first_max k xs of None \<Rightarrow> Some x | Some y \<Rightarrow> if k x < k y then Some y else Some x)"

definition instance_infos :: "alloc_config \<Rightarrow> instance_index \<Rightarrow> instance_row list \<Rightarrow> string \<Rightarrow> string option \<Rightarrow> instance_info list" where
  "instance_infos cfg idx rows tier excluded =
     [\<lparr>ii_id = ir_id r, ii_ip = ir_ip r, ii_zone = (case ir_zone r of None \<Rightarrow> ''unknown'' | Some z \<Rightarrow> z),
       ii_count = count_allocated_graphs idx (ir_id r),
       ii_max = (case ir_max r of None \<Rightarrow> ac_max_databases cfg | Some m \<Rightarrow> m)\<rparr>.
      r \<leftarrow> rows, ir_status r = Healthy \<and> ir_cluster_tier r = tier,
      \<not> (truthy excluded \<and> Some (ir_id r) = excluded),
      count_allocated_graphs idx (ir_id r) < (case ir_max r of None \<Rightarrow> ac_max_databases cfg | Some m \<Rightarrow> m)]"

definition find_best_instance :: "alloc_config \<Rightarrow> instance_index \<Rightarrow> instance_row list \<Rightarrow> string option \<Rightarrow> string option \<Rightarrow> instance_info option" where
  "find_best_instance cfg idx rows tier excluded =
     (let target = (case tier of None \<Rightarrow> ''ladybug-standard'' | Some t \<Rightarrow> t) in
      if deployed cfg \<and> tier_suffix target = None then None
      else first_max available_capacity (instance_infos cfg idx rows target excluded))"

text \<open>\<open>headroom\<close> is the scaling group's answer, \<open>None\<close> a client error or no such group.\<close>

definition asg_has_headroom :: "(int \<times> int) option \<Rightarrow> bool" where
  "asg_has_headroom headroom = (case headroom of None \<Rightarrow> False | Some (desired, most) \<Rightarrow> desired < most)"

datatype tier_capacity = TierReady | TierScalable | TierAtCapacity

definition check_tier_capacity :: "alloc_config \<Rightarrow> instance_index \<Rightarrow> instance_row list \<Rightarrow> (int \<times> int) option \<Rightarrow> string \<Rightarrow> tier_capacity" where
  "check_tier_capacity cfg idx rows headroom tier =
     (case find_best_instance cfg idx rows (Some tier) None of
        Some _ \<Rightarrow> TierReady
      | None \<Rightarrow> if asg_has_headroom headroom then TierScalable else TierAtCapacity)"

subsection \<open>Allocation\<close>

record location =
  lc_graph :: string
  lc_instance :: string
  lc_ip :: "string option"
  lc_zone :: string
  lc_created :: int
  lc_status :: db_status
  lc_backend :: string

datatype alloc_error =
    EntityIdEmpty
  | EntityIdInvalid
  | SubgraphIdInRegistry string
  | GraphIdInvalid
  | ParentNotFound string
  | NoCapacity
  | NoInstanceAfterConflict
  | CapacityConflicts
  | GraphIdCollision
  | AllocationRace
  | AllocationClientError
  | AllocationKeyError

text \<open>
  Where an allocation stands: the constructor names the request it sends next. The number
  counts the retries; the instance is the one chosen last.
\<close>

datatype alloc_phase =
    Choosing nat "string option"
  | Putting nat instance_info
  | Counting nat instance_info
  | RollingBack nat instance_info
  | LookingUp
  | ScanningVolumes instance_info
  | ReadingInstance instance_info
  | ScanningByTier instance_info string string
  | AppendingDatabase instance_info string
  | Protecting instance_info
  | PlacedAt location
  | AlreadyPlaced location
  | NotPlaced alloc_error

record alloc_call =
  al_entity :: string
  al_graph :: string
  al_tier :: "string option"
  al_now :: int
  al_phase :: alloc_phase

definition next_phase :: "alloc_call \<Rightarrow> alloc_phase \<Rightarrow> alloc_call" where
  "next_phase c p = c\<lparr>al_phase := p\<rparr>"

text \<open>The row an allocation puts, and the location it answers.\<close>

definition new_row :: "alloc_call \<Rightarrow> instance_info \<Rightarrow> graph_row" where
  "new_row c i = \<lparr>gr_graph = al_graph c, gr_entity = Some (al_entity c), gr_instance = Some (ii_id i),
     gr_backend = Some ''ladybug'', gr_ip = Some (ii_ip i), gr_zone = Some (ii_zone i), gr_created = al_now c,
     gr_accessed = Some (al_now c), gr_status = DbActive, gr_alloc_lock = Some (al_now c), gr_dealloc_lock = None\<rparr>"

definition new_location :: "alloc_call \<Rightarrow> instance_info \<Rightarrow> location" where
  "new_location c i = \<lparr>lc_graph = al_graph c, lc_instance = ii_id i, lc_ip = Some (ii_ip i), lc_zone = ii_zone i,
     lc_created = al_now c, lc_status = DbActive, lc_backend = ''ladybug''\<rparr>"

definition zone_or_unknown :: "string option \<Rightarrow> string" where
  "zone_or_unknown z = (case z of None \<Rightarrow> ''unknown'' | Some x \<Rightarrow> x)"

definition backend_or_default :: "string option \<Rightarrow> string" where
  "backend_or_default b = (case b of None \<Rightarrow> ''ladybug'' | Some x \<Rightarrow> x)"

text \<open>The first request of the loop: before the first attempt and after a capacity conflict.\<close>

definition choose_instance :: "alloc_config \<Rightarrow> bool \<Rightarrow> instance_index \<Rightarrow> registries \<Rightarrow> alloc_call \<Rightarrow> nat \<Rightarrow> string option \<Rightarrow> alloc_phase" where
  "choose_instance cfg client_error idx t c retries excluded =
     (case (if client_error then None
            else find_best_instance cfg idx (instance_table t) (al_tier c) excluded) of
        None \<Rightarrow> NotPlaced (if excluded = None then NoCapacity else NoInstanceAfterConflict)
      | Some i \<Rightarrow>
          if excluded = None then Putting 0 i
          else if 3 \<le> Suc retries then NotPlaced CapacityConflicts
          else Putting (Suc retries) i)"

definition put_database :: "bool \<Rightarrow> registries \<Rightarrow> alloc_call \<Rightarrow> nat \<Rightarrow> instance_info \<Rightarrow> registries \<times> alloc_phase" where
  "put_database client_error t c retries i =
     (if client_error then (t, NotPlaced AllocationClientError)
      else if graph_item t (al_graph c) = None
      then (t\<lparr>graph_table := graph_table t @ [new_row c i]\<rparr>, Counting retries i)
      else (t, LookingUp))"

text \<open>The environment decides whether the volume registry and scale-in protection exist.\<close>

definition after_counting :: "alloc_config \<Rightarrow> alloc_call \<Rightarrow> instance_info \<Rightarrow> alloc_phase" where
  "after_counting cfg c i = (if unmanaged cfg then PlacedAt (new_location c i) else ScanningVolumes i)"

definition count_database :: "alloc_config \<Rightarrow> bool \<Rightarrow> registries \<Rightarrow> alloc_call \<Rightarrow> nat \<Rightarrow> instance_info \<Rightarrow> registries \<times> alloc_phase" where
  "count_database cfg client_error t c retries i =
     (if client_error then (t, NotPlaced AllocationClientError)
      else case instance_item t (ii_id i) of
        None \<Rightarrow> (t, RollingBack retries i)
      | Some r \<Rightarrow>
          (case ir_max r of
             None \<Rightarrow> (t, RollingBack retries i)
           | Some m \<Rightarrow>
               if ir_count r < m
               then (put_instance (r\<lparr>ir_count := ir_count r + 1\<rparr>) t, after_counting cfg c i)
               else (t, RollingBack retries i)))"

definition roll_back :: "bool \<Rightarrow> registries \<Rightarrow> alloc_call \<Rightarrow> nat \<Rightarrow> instance_info \<Rightarrow> registries \<times> alloc_phase" where
  "roll_back client_error t c retries i =
     ((if client_error then t
       else t\<lparr>graph_table := filter (\<lambda>r. \<not> (gr_graph r = al_graph c \<and> gr_alloc_lock r = Some (al_now c))) (graph_table t)\<rparr>),
      Choosing retries (Some (ii_id i)))"

text \<open>The row exists already: the same entity's row is answered, another's is a collision.\<close>

definition look_up_existing :: "bool \<Rightarrow> registries \<Rightarrow> alloc_call \<Rightarrow> alloc_phase" where
  "look_up_existing client_error t c =
     (if client_error then NotPlaced AllocationRace
      else case graph_item t (al_graph c) of
        None \<Rightarrow> NotPlaced AllocationRace
      | Some r \<Rightarrow>
          if (case gr_entity r of None \<Rightarrow> ''unknown'' | Some e \<Rightarrow> e) = al_entity c then
            (case gr_instance r of
               None \<Rightarrow> NotPlaced AllocationKeyError
             | Some i \<Rightarrow> AlreadyPlaced \<lparr>lc_graph = al_graph c, lc_instance = i, lc_ip = gr_ip r,
                 lc_zone = zone_or_unknown (gr_zone r), lc_created = gr_created r, lc_status = gr_status r,
                 lc_backend = backend_or_default (gr_backend r)\<rparr>)
          else NotPlaced GraphIdCollision)"

subsection \<open>The volume registry\<close>

definition attached_volumes :: "registries \<Rightarrow> string \<Rightarrow> volume_row list" where
  "attached_volumes t i = filter (\<lambda>v. vr_instance v = i \<and> vr_status v = ''attached'') (volume_table t)"

definition volumes_by_tier :: "registries \<Rightarrow> string \<Rightarrow> string \<Rightarrow> volume_row list" where
  "volumes_by_tier t zone tier =
     filter (\<lambda>v. vr_zone v = zone \<and> vr_tier v = tier \<and> vr_status v = ''attached'') (volume_table t)"

definition scan_volumes :: "bool \<Rightarrow> registries \<Rightarrow> instance_info \<Rightarrow> alloc_phase" where
  "scan_volumes client_error t i =
     (if client_error then Protecting i
      else case attached_volumes t (ii_id i) of
        [] \<Rightarrow> ReadingInstance i
      | v # _ \<Rightarrow> AppendingDatabase i (vr_id v))"

text \<open>Any failure of the fallback is logged, and the database stays out of the registry.\<close>

definition read_instance :: "bool \<Rightarrow> registries \<Rightarrow> instance_info \<Rightarrow> alloc_phase" where
  "read_instance client_error t i =
     (if client_error then Protecting i
      else case instance_item t (ii_id i) of
        None \<Rightarrow> Protecting i
      | Some r \<Rightarrow>
          if truthy (ir_zone r) \<and> truthy (ir_tier r)
          then ScanningByTier i (the (ir_zone r)) (the (ir_tier r)) else Protecting i)"

definition scan_by_tier :: "bool \<Rightarrow> registries \<Rightarrow> instance_info \<Rightarrow> string \<Rightarrow> string \<Rightarrow> alloc_phase" where
  "scan_by_tier client_error t i zone tier =
     (if client_error then Protecting i
      else case volumes_by_tier t zone tier of
        [] \<Rightarrow> Protecting i
      | v # _ \<Rightarrow> AppendingDatabase i (vr_id v))"

definition databases_of :: "volume_row \<Rightarrow> string list" where
  "databases_of v = (case vr_databases v of None \<Rightarrow> [] | Some ds \<Rightarrow> ds)"

definition append_database :: "bool \<Rightarrow> registries \<Rightarrow> string \<Rightarrow> string \<Rightarrow> registries" where
  "append_database client_error t v g =
     (if client_error then t
      else t\<lparr>volume_table := update_where (\<lambda>x. vr_id x = v \<and> g \<notin> set (databases_of x))
        (\<lambda>x. x\<lparr>vr_databases := Some (databases_of x @ [g])\<rparr>) (volume_table t)\<rparr>)"

text \<open>Scale-in protection is set on the scaling group of the instance's registry row.\<close>

definition protect_instance :: "bool \<Rightarrow> registries \<Rightarrow> string \<Rightarrow> registries" where
  "protect_instance client_error t i =
     (if client_error \<or> instance_item t i = None then t
      else t\<lparr>protected := (if i \<in> set (protected t) then protected t else i # protected t)\<rparr>)"

text \<open>One request of an allocation.\<close>

definition alloc_request :: "alloc_config \<Rightarrow> bool \<Rightarrow> instance_index \<Rightarrow> registries \<Rightarrow> alloc_call \<Rightarrow> registries \<times> alloc_call" where
  "alloc_request cfg client_error idx t c =
     (let (t', p) =
       (case al_phase c of
          Choosing n x \<Rightarrow> (t, choose_instance cfg client_error idx t c n x)
        | Putting n i \<Rightarrow> put_database client_error t c n i
        | Counting n i \<Rightarrow> count_database cfg client_error t c n i
        | RollingBack n i \<Rightarrow> roll_back client_error t c n i
        | LookingUp \<Rightarrow> (t, look_up_existing client_error t c)
        | ScanningVolumes i \<Rightarrow> (t, scan_volumes client_error t i)
        | ReadingInstance i \<Rightarrow> (t, read_instance client_error t i)
        | ScanningByTier i z r \<Rightarrow> (t, scan_by_tier client_error t i z r)
        | AppendingDatabase i v \<Rightarrow> (append_database client_error t v (al_graph c), Protecting i)
        | Protecting i \<Rightarrow> (protect_instance client_error t (ii_id i), PlacedAt (new_location c i))
        | p \<Rightarrow> (t, p))
      in (t', next_phase c p))"

subsection \<open>Finding a database\<close>

text \<open>
  A lookup by the id of a parent graph or a shared repository: the address cached in the
  row, or the instance registry's, which is then cached.
\<close>

definition find_parent_location :: "int \<Rightarrow> registries \<Rightarrow> string \<Rightarrow> registries \<times> (alloc_error + location option)" where
  "find_parent_location now t g =
     (case graph_item t g of
        None \<Rightarrow> (t, Inr None)
      | Some r \<Rightarrow>
          (case gr_instance r of
             None \<Rightarrow> (t, Inl AllocationKeyError)
           | Some i \<Rightarrow>
               let zone = zone_or_unknown (gr_zone r);
                   fresh = (if truthy (gr_ip r) then None else instance_item t i);
                   ip = (case fresh of None \<Rightarrow> gr_ip r | Some n \<Rightarrow> Some (ir_ip n));
                   zone' = (case fresh of None \<Rightarrow> zone | Some n \<Rightarrow> (case ir_zone n of None \<Rightarrow> zone | Some z \<Rightarrow> z));
                   t' = (if fresh = None then t
                         else put_graph (r\<lparr>gr_ip := ip, gr_zone := Some zone', gr_accessed := Some now\<rparr>) t);
                   r' = (if fresh = None then r else r\<lparr>gr_ip := ip, gr_zone := Some zone', gr_accessed := Some now\<rparr>)
               in if \<not> truthy ip then (t', Inr None)
                  else (put_graph (r'\<lparr>gr_accessed := Some now\<rparr>) t',
                        Inr (Some \<lparr>lc_graph = g, lc_instance = i, lc_ip = ip, lc_zone = zone',
                          lc_created = gr_created r, lc_status = gr_status r,
                          lc_backend = backend_or_default (gr_backend r)\<rparr>))))"

text \<open>The parent of a subgraph is no subgraph, so the code's recursion is one level deep.\<close>

definition find_database_location :: "string list \<Rightarrow> int \<Rightarrow> registries \<Rightarrow> string \<Rightarrow> registries \<times> (alloc_error + location option)" where
  "find_database_location shared now t g =
     (case parse_subgraph_id shared g of
        None \<Rightarrow> find_parent_location now t g
      | Some s \<Rightarrow>
          (case find_parent_location now t (sg_parent s) of
             (t', Inr (Some l)) \<Rightarrow> (t', Inr (Some (l\<lparr>lc_graph := g\<rparr>)))
           | r \<Rightarrow> r))"

text \<open>The checks of \<open>allocate_database\<close> before its first request.\<close>

definition allocate_database :: "alloc_config \<Rightarrow> string \<Rightarrow> string option \<Rightarrow> string \<Rightarrow> string option \<Rightarrow> int \<Rightarrow> alloc_error + alloc_call" where
  "allocate_database cfg entity graph generated tier now =
     (if entity = [] then Inl EntityIdEmpty
      else if \<not> entity_id_ok entity then Inl EntityIdInvalid
      else
        let g = (case graph of Some x \<Rightarrow> if x \<noteq> [] then x else generated | None \<Rightarrow> generated) in
        if \<not> graph_id_ok (ac_shared cfg) g then
          Inl (if is_subgraph_id (ac_shared cfg) g then SubgraphIdInRegistry (before_chr CHR ''_'' g) else GraphIdInvalid)
        else Inr \<lparr>al_entity = entity, al_graph = g, al_tier = tier, al_now = now, al_phase = Choosing 0 None\<rparr>)"

subsection \<open>Deallocation\<close>

datatype dealloc_phase =
    ReadingRow
  | MarkingDeleted string
  | Decrementing string
  | Unmarking
  | ScanningAttached string
  | RemovingDatabase string string "string list"
  | ReadingCount string
  | Unprotecting string
  | Released bool
  | ReleaseRaised

record dealloc_call =
  de_graph :: string
  de_now :: int
  de_phase :: dealloc_phase

definition deallocate_database :: "string \<Rightarrow> int \<Rightarrow> dealloc_call" where
  "deallocate_database g now = \<lparr>de_graph = g, de_now = now, de_phase = ReadingRow\<rparr>"

definition read_row :: "bool \<Rightarrow> registries \<Rightarrow> dealloc_call \<Rightarrow> dealloc_phase" where
  "read_row client_error t d =
     (if client_error then Released False
      else case graph_item t (de_graph d) of
        None \<Rightarrow> Released False
      | Some r \<Rightarrow>
          (case gr_instance r of
             None \<Rightarrow> ReleaseRaised
           | Some i \<Rightarrow> if gr_status r = DbDeleted then Released True else MarkingDeleted i))"

text \<open>A conditional update of a row that is gone creates it: its status differs from any.\<close>

definition mark_deleted :: "bool \<Rightarrow> registries \<Rightarrow> dealloc_call \<Rightarrow> string \<Rightarrow> registries \<times> dealloc_phase" where
  "mark_deleted client_error t d i =
     (if client_error then (t, Released False)
      else case graph_item t (de_graph d) of
        None \<Rightarrow>
          (t\<lparr>graph_table := graph_table t @ [\<lparr>gr_graph = de_graph d, gr_entity = None, gr_instance = None,
             gr_backend = None, gr_ip = None, gr_zone = None, gr_created = 0, gr_accessed = None,
             gr_status = DbDeleted, gr_alloc_lock = None, gr_dealloc_lock = Some (de_now d)\<rparr>]\<rparr>, Decrementing i)
      | Some r \<Rightarrow>
          if gr_status r = DbDeleted then (t, Released True)
          else (put_graph (r\<lparr>gr_status := DbDeleted, gr_dealloc_lock := Some (de_now d)\<rparr>) t, Decrementing i))"

text \<open>A count that is already zero is logged; the release goes on.\<close>

definition after_decrement :: "alloc_config \<Rightarrow> string \<Rightarrow> dealloc_phase" where
  "after_decrement cfg i = (if unmanaged cfg then Released True else ScanningAttached i)"

definition decrement_count :: "alloc_config \<Rightarrow> bool \<Rightarrow> registries \<Rightarrow> string \<Rightarrow> registries \<times> dealloc_phase" where
  "decrement_count cfg client_error t i =
     (if client_error then (t, Unmarking)
      else ((case instance_item t i of
               None \<Rightarrow> t
             | Some r \<Rightarrow> if 0 < ir_count r then put_instance (r\<lparr>ir_count := ir_count r - 1\<rparr>) t else t),
            after_decrement cfg i))"

definition unmark_deleted :: "bool \<Rightarrow> registries \<Rightarrow> dealloc_call \<Rightarrow> registries" where
  "unmark_deleted client_error t d =
     (if client_error then t
      else case graph_item t (de_graph d) of
        None \<Rightarrow> t
      | Some r \<Rightarrow>
          if gr_dealloc_lock r = Some (de_now d)
          then put_graph (r\<lparr>gr_status := DbActive, gr_dealloc_lock := None\<rparr>) t else t)"

text \<open>The databases to write back are the ones read here, less the released one.\<close>

definition scan_attached :: "bool \<Rightarrow> registries \<Rightarrow> string \<Rightarrow> string \<Rightarrow> dealloc_phase" where
  "scan_attached client_error t i g =
     (if client_error then ReadingCount i
      else case attached_volumes t i of
        [] \<Rightarrow> ReadingCount i
      | v # _ \<Rightarrow>
          if g \<in> set (databases_of v)
          then RemovingDatabase i (vr_id v) (filter (\<lambda>d. d \<noteq> g) (databases_of v)) else ReadingCount i)"

definition remove_database :: "bool \<Rightarrow> registries \<Rightarrow> string \<Rightarrow> string \<Rightarrow> string list \<Rightarrow> registries" where
  "remove_database client_error t v g ds =
     (if client_error then t
      else t\<lparr>volume_table := update_where (\<lambda>x. vr_id x = v \<and> g \<in> set (databases_of x))
        (\<lambda>x. x\<lparr>vr_databases := Some ds\<rparr>) (volume_table t)\<rparr>)"

definition read_count :: "bool \<Rightarrow> registries \<Rightarrow> string \<Rightarrow> dealloc_phase" where
  "read_count client_error t i =
     (if client_error then Released True
      else case instance_item t i of
        None \<Rightarrow> Released True
      | Some r \<Rightarrow> if ir_count r = 0 then Unprotecting i else Released True)"

definition unprotect_instance :: "bool \<Rightarrow> registries \<Rightarrow> string \<Rightarrow> registries" where
  "unprotect_instance client_error t i =
     (if client_error \<or> instance_item t i = None then t
      else t\<lparr>protected := filter (\<lambda>j. j \<noteq> i) (protected t)\<rparr>)"

text \<open>One request of a deallocation.\<close>

definition dealloc_request :: "alloc_config \<Rightarrow> bool \<Rightarrow> registries \<Rightarrow> dealloc_call \<Rightarrow> registries \<times> dealloc_call" where
  "dealloc_request cfg client_error t d =
     (let (t', p) =
       (case de_phase d of
          ReadingRow \<Rightarrow> (t, read_row client_error t d)
        | MarkingDeleted i \<Rightarrow> mark_deleted client_error t d i
        | Decrementing i \<Rightarrow> decrement_count cfg client_error t i
        | Unmarking \<Rightarrow> (unmark_deleted client_error t d, Released False)
        | ScanningAttached i \<Rightarrow> (t, scan_attached client_error t i (de_graph d))
        | RemovingDatabase i v ds \<Rightarrow> (remove_database client_error t v (de_graph d) ds, ReadingCount i)
        | ReadingCount i \<Rightarrow> (t, read_count client_error t i)
        | Unprotecting i \<Rightarrow> (unprotect_instance client_error t i, Released True)
        | p \<Rightarrow> (t, p))
      in (t', d\<lparr>de_phase := p\<rparr>))"

subsection \<open>Reports\<close>

definition get_instance_databases :: "registries \<Rightarrow> string \<Rightarrow> string list" where
  "get_instance_databases t i =
     map gr_graph (filter (\<lambda>r. gr_instance r = Some i \<and> gr_status r = DbActive) (graph_table t))"

definition get_all_instances :: "registries \<Rightarrow> instance_row list" where
  "get_all_instances t = filter (\<lambda>r. ir_status r = Healthy) (instance_table t)"

record alloc_metrics =
  am_instances :: nat
  am_capacity :: int
  am_databases :: int
  am_scale_up :: bool

text \<open>The utilisation is compared without the division: used * 100 > 80 * capacity.\<close>

definition get_allocation_metrics :: "alloc_config \<Rightarrow> registries \<Rightarrow> alloc_metrics" where
  "get_allocation_metrics cfg t =
     (let rows = get_all_instances t;
          capacity = sum_list (map (\<lambda>r. case ir_max r of None \<Rightarrow> ac_max_databases cfg | Some m \<Rightarrow> m) rows);
          used = sum_list (map ir_count rows)
      in \<lparr>am_instances = length rows, am_capacity = capacity, am_databases = used,
          am_scale_up = (0 < capacity \<and> 80 * capacity < used * 100)\<rparr>)"

subsection \<open>Calls side by side\<close>

text \<open>The registries with the allocations and deallocations that have been started.\<close>

record cluster =
  cl_tables :: registries
  cl_allocs :: "alloc_call list"
  cl_deallocs :: "dealloc_call list"

definition alloc_turn :: "alloc_config \<Rightarrow> bool \<Rightarrow> instance_index \<Rightarrow> nat \<Rightarrow> cluster \<Rightarrow> cluster" where
  "alloc_turn cfg client_error idx k w =
     (let (t, c) = alloc_request cfg client_error idx (cl_tables w) (cl_allocs w ! k)
      in w\<lparr>cl_tables := t, cl_allocs := (cl_allocs w)[k := c]\<rparr>)"

definition dealloc_turn :: "alloc_config \<Rightarrow> bool \<Rightarrow> nat \<Rightarrow> cluster \<Rightarrow> cluster" where
  "dealloc_turn cfg client_error k w =
     (let (t, d) = dealloc_request cfg client_error (cl_tables w) (cl_deallocs w ! k)
      in w\<lparr>cl_tables := t, cl_deallocs := (cl_deallocs w)[k := d]\<rparr>)"

text \<open>An allocation whose row is put and not yet counted on its instance.\<close>

fun uncounted_on :: "alloc_phase \<Rightarrow> string option" where
  "uncounted_on (Counting n i) = Some (ii_id i)"
| "uncounted_on (RollingBack n i) = Some (ii_id i)"
| "uncounted_on _ = None"

definition in_flight :: "cluster \<Rightarrow> string \<Rightarrow> bool" where
  "in_flight w g \<longleftrightarrow> (\<exists>c\<in>set (cl_allocs w). al_graph c = g \<and> uncounted_on (al_phase c) \<noteq> None)"

text \<open>
  One step of the cluster: a call starts, a call sends its next request, or an instance
  changes its status. \<open>faulty\<close> admits client errors; \<open>early\<close> admits releases that read the
  row of an allocation which is still in flight.
\<close>

inductive cluster_step :: "alloc_config \<Rightarrow> bool \<Rightarrow> bool \<Rightarrow> cluster \<Rightarrow> cluster \<Rightarrow> bool" for cfg faulty early where
  allocate: "allocate_database cfg e g new tier now = Inr c \<Longrightarrow>
     cluster_step cfg faulty early w (w\<lparr>cl_allocs := cl_allocs w @ [c]\<rparr>)"
| deallocate: "cluster_step cfg faulty early w (w\<lparr>cl_deallocs := cl_deallocs w @ [deallocate_database g now]\<rparr>)"
| alloc: "k < length (cl_allocs w) \<Longrightarrow> client_error \<longrightarrow> faulty \<Longrightarrow>
     cluster_step cfg faulty early w (alloc_turn cfg client_error idx k w)"
| dealloc: "k < length (cl_deallocs w) \<Longrightarrow> client_error \<longrightarrow> faulty \<Longrightarrow>
     de_phase (cl_deallocs w ! k) = ReadingRow \<Longrightarrow> \<not> in_flight w (de_graph (cl_deallocs w ! k)) \<or> early \<Longrightarrow>
     cluster_step cfg faulty early w (dealloc_turn cfg client_error k w)"
| release: "k < length (cl_deallocs w) \<Longrightarrow> client_error \<longrightarrow> faulty \<Longrightarrow>
     de_phase (cl_deallocs w ! k) \<noteq> ReadingRow \<Longrightarrow>
     cluster_step cfg faulty early w (dealloc_turn cfg client_error k w)"
| health: "q \<in> set (instance_table (cl_tables w)) \<Longrightarrow>
     cluster_step cfg faulty early w (w\<lparr>cl_tables := put_instance (q\<lparr>ir_status := s'\<rparr>) (cl_tables w)\<rparr>)"

text \<open>Requests of one allocation with nothing in between; the list tells which are refused.\<close>

primrec run_alloc :: "alloc_config \<Rightarrow> bool list \<Rightarrow> registries \<Rightarrow> alloc_call \<Rightarrow> registries \<times> alloc_call" where
  "run_alloc cfg [] t c = (t, c)"
| "run_alloc cfg (e # es) t c =
     (let (t', c') = alloc_request cfg e (current_index t) t c in run_alloc cfg es t' c')"

primrec run_dealloc :: "alloc_config \<Rightarrow> bool list \<Rightarrow> registries \<Rightarrow> dealloc_call \<Rightarrow> registries \<times> dealloc_call" where
  "run_dealloc cfg [] t d = (t, d)"
| "run_dealloc cfg (e # es) t d =
     (let (t', d') = dealloc_request cfg e t d in run_dealloc cfg es t' d')"

end
