(* ===== verification/AllocationFacts.thy ===== *)
theory AllocationFacts
  imports Allocation
begin

text \<open>
  The placement of databases under every interleaving of its calls: the number of requests
  an allocation sends, the one owner of a graph, and the balance between the instances'
  counters and the registry's rows.
\<close>

subsection \<open>Lists of calls\<close>

lemma count_list_update:
  "k < length xs \<Longrightarrow>
   count_where P (xs[k := y]) + (if P (xs ! k) then 1 else 0) = count_where P xs + (if P y then 1 else 0)"
proof (induction xs arbitrary: k)
  case (Cons x xs)
  then show ?case by (cases k) (auto simp: count_where_def)
qed simp

lemma count_removed:
  assumes "distinct (map key xs)" "r \<in> set xs" "Q r"
  shows "count_where P (filter (\<lambda>x. \<not> (key x = key r \<and> Q x)) xs) + (if P r then 1 else 0) = count_where P xs"
  using assms
proof (induction xs)
  case (Cons a xs)
  show ?case
  proof (cases "a = r")
    case True
    with Cons.prems have "filter (\<lambda>x. \<not> (key x = key r \<and> Q x)) xs = xs"
      by (intro filter_True) (auto simp: image_iff)
    with True Cons.prems show ?thesis by (simp add: count_where_def)
  next
    case False
    with Cons.prems have "key a \<noteq> key r" by (auto simp: image_iff)
    with False Cons show ?thesis by (auto simp: count_where_def)
  qed
qed simp

text \<open>Entries that satisfy \<open>P\<close> and have different keys, each with a row of its own.\<close>

lemma count_injects:
  assumes "\<And>j k. j < length xs \<Longrightarrow> k < length xs \<Longrightarrow> j \<noteq> k \<Longrightarrow> P (xs ! j) \<Longrightarrow> P (xs ! k) \<Longrightarrow>
      f (xs ! j) \<noteq> f (xs ! k)"
    and "\<And>x. x \<in> set xs \<Longrightarrow> P x \<Longrightarrow> \<exists>r\<in>set rows. Q r \<and> key r = f x"
  shows "count_where P xs \<le> count_where Q rows"
proof -
  have inj: "distinct (map f (filter P xs))"
    using assms(1)
  proof (induction xs)
    case (Cons a xs)
    have "distinct (map f (filter P xs))"
    proof (rule Cons.IH)
      fix j k assume "j < length xs" "k < length xs" "j \<noteq> k" "P (xs ! j)" "P (xs ! k)"
      then show "f (xs ! j) \<noteq> f (xs ! k)" using Cons.prems [of "Suc j" "Suc k"] by simp
    qed
    moreover have "f a \<noteq> f x" if x: "P a" "x \<in> set xs" "P x" for x
    proof -
      from x(2) obtain k where "k < length xs" "xs ! k = x" by (auto simp: in_set_conv_nth)
      then show ?thesis using x Cons.prems [of 0 "Suc k"] by auto
    qed
    ultimately show ?case by auto
  qed simp
  have "set (map f (filter P xs)) \<subseteq> set (map key (filter Q rows))"
  proof
    fix z assume "z \<in> set (map f (filter P xs))"
    then obtain x where x: "x \<in> set xs" "P x" "z = f x" by auto
    from assms(2) [OF x(1,2)] obtain r where "r \<in> set rows" "Q r" "key r = f x" by blast
    with x(3) show "z \<in> set (map key (filter Q rows))" by force
  qed
  then have "card (set (map f (filter P xs))) \<le> card (set (map key (filter Q rows)))"
    by (intro card_mono) simp_all
  also have "\<dots> \<le> length (filter Q rows)" using card_length [of "map key (filter Q rows)"] by simp
  finally show ?thesis using distinct_card [OF inj] by (simp add: count_where_def)
qed

subsection \<open>Each allocation ends\<close>

fun requests_left :: "alloc_phase \<Rightarrow> nat" where
  "requests_left (Choosing n None) = 16"
| "requests_left (Choosing n (Some x)) = 4 * (2 - n) + 4"
| "requests_left (Putting n i) = 4 * (2 - n) + 7"
| "requests_left (Counting n i) = 4 * (2 - n) + 6"
| "requests_left (RollingBack n i) = 4 * (2 - n) + 5"
| "requests_left LookingUp = 1"
| "requests_left (ScanningVolumes i) = 5"
| "requests_left (ReadingInstance i) = 4"
| "requests_left (ScanningByTier i z r) = 3"
| "requests_left (AppendingDatabase i v) = 2"
| "requests_left (Protecting i) = 1"
| "requests_left _ = 0"

definition ended :: "alloc_call \<Rightarrow> bool" where
  "ended c \<longleftrightarrow> (case al_phase c of PlacedAt l \<Rightarrow> True | AlreadyPlaced l \<Rightarrow> True | NotPlaced e \<Rightarrow> True | _ \<Rightarrow> False)"

lemma ended_iff: "ended c \<longleftrightarrow> requests_left (al_phase c) = 0"
proof (cases "al_phase c")
  case (Choosing n x)
  then show ?thesis by (cases x) (simp_all add: ended_def)
qed (simp_all add: ended_def)

lemma next_phase_simps [simp]:
  "al_phase (next_phase c p) = p" "al_graph (next_phase c p) = al_graph c"
  "al_entity (next_phase c p) = al_entity c" "al_now (next_phase c p) = al_now c" "al_tier (next_phase c p) = al_tier c"
  by (simp_all add: next_phase_def)

lemmas alloc_phase_defs = choose_instance_def put_database_def count_database_def after_counting_def roll_back_def
  look_up_existing_def scan_volumes_def read_instance_def scan_by_tier_def

lemma request_progress:
  "requests_left (al_phase (snd (alloc_request cfg e idx t c))) \<le> requests_left (al_phase c) - 1"
proof (cases "al_phase c")
  case (Choosing n x)
  show ?thesis
  proof (cases x)
    case None
    with Choosing show ?thesis by (simp add: alloc_request_def choose_instance_def split: option.splits)
  next
    case (Some y)
    have "4 * (2 - Suc n) + 7 \<le> 4 * (2 - n) + 3" if "\<not> 3 \<le> Suc n" using that by (cases n) auto
    with Choosing Some show ?thesis by (simp add: alloc_request_def choose_instance_def split: option.splits)
  qed
qed (auto simp: alloc_request_def alloc_phase_defs split: option.splits list.splits)

text \<open>
  An allocation among others: before each of its requests the others may have changed the
  registries, the index may trail, and the request may be refused.
\<close>

primrec drive :: "alloc_config \<Rightarrow> (bool \<times> instance_index \<times> registries) list \<Rightarrow> alloc_call \<Rightarrow> alloc_call" where
  "drive cfg [] c = c"
| "drive cfg (s # ss) c = drive cfg ss (snd (alloc_request cfg (fst s) (fst (snd s)) (snd (snd s)) c))"

lemma drive_progress: "requests_left (al_phase (drive cfg ss c)) \<le> requests_left (al_phase c) - length ss"
proof (induction ss arbitrary: c)
  case (Cons s ss)
  have "requests_left (al_phase (drive cfg (s # ss) c)) \<le>
      requests_left (al_phase (snd (alloc_request cfg (fst s) (fst (snd s)) (snd (snd s)) c))) - length ss"
    using Cons.IH by simp
  with request_progress [of cfg "fst s" "fst (snd s)" "snd (snd s)" c] show ?case by simp
qed simp

lemma allocate_database_call:
  "allocate_database cfg e g new tier now = Inr c \<Longrightarrow>
   al_phase c = Choosing 0 None \<and> al_entity c = e \<and> al_now c = now \<and> al_tier c = tier"
  by (auto simp: allocate_database_def Let_def split: if_splits)


subsection \<open>One owner per graph\<close>

text \<open>The instance an allocation has put its row on, until it is rolled back.\<close>

fun own_instance :: "alloc_phase \<Rightarrow> string option" where
  "own_instance (Counting n i) = Some (ii_id i)"
| "own_instance (RollingBack n i) = Some (ii_id i)"
| "own_instance (ScanningVolumes i) = Some (ii_id i)"
| "own_instance (ReadingInstance i) = Some (ii_id i)"
| "own_instance (ScanningByTier i z r) = Some (ii_id i)"
| "own_instance (AppendingDatabase i v) = Some (ii_id i)"
| "own_instance (Protecting i) = Some (ii_id i)"
| "own_instance (PlacedAt l) = Some (lc_instance l)"
| "own_instance _ = None"

definition row_of :: "alloc_call \<Rightarrow> graph_row \<Rightarrow> bool" where
  "row_of c r \<longleftrightarrow> gr_graph r = al_graph c \<and> gr_entity r = Some (al_entity c) \<and>
     gr_instance r = own_instance (al_phase c) \<and> gr_alloc_lock r = Some (al_now c)"

text \<open>What one request of an allocation does to the graph and instance registries.\<close>

lemma uncounted_own: "uncounted_on p = Some i \<Longrightarrow> own_instance p = Some i"
  by (cases p) simp_all

lemma after_counting_phase [simp]: "after_counting cfg c i \<noteq> RollingBack n j" "RollingBack n j \<noteq> after_counting cfg c i"
  by (simp_all add: after_counting_def)

lemma alloc_request_effect [consumes 1]:
  assumes "alloc_request cfg e idx t c = (t', c')"
  obtains
    (unchanged) "graph_table t' = graph_table t" "instance_table t' = instance_table t"
      "own_instance (al_phase c') = own_instance (al_phase c)"
      "uncounted_on (al_phase c') = uncounted_on (al_phase c)"
  | (put) n i where "al_phase c = Putting n i" "graph_item t (al_graph c) = None"
      "graph_table t' = graph_table t @ [new_row c i]" "instance_table t' = instance_table t"
      "al_phase c' = Counting n i"
  | (counted) n i q m where "al_phase c = Counting n i" "graph_table t' = graph_table t"
      "instance_item t (ii_id i) = Some q" "ir_max q = Some m" "ir_count q < m"
      "instance_table t' = instance_table (put_instance (q\<lparr>ir_count := ir_count q + 1\<rparr>) t)"
      "own_instance (al_phase c') = Some (ii_id i)" "uncounted_on (al_phase c') = None"
  | (rolled_back) n i where "al_phase c = RollingBack n i" "al_phase c' = Choosing n (Some (ii_id i))"
      "graph_table t' = filter (\<lambda>r. \<not> (gr_graph r = al_graph c \<and> gr_alloc_lock r = Some (al_now c))) (graph_table t)"
      "instance_table t' = instance_table t"
  | (failed) "e" "graph_table t' = graph_table t" "instance_table t' = instance_table t"
      "own_instance (al_phase c') = None" "uncounted_on (al_phase c') = None"
proof (cases "al_phase c")
  case (Choosing n x)
  with assms show ?thesis
    by (intro unchanged) (auto simp: alloc_request_def choose_instance_def split: option.splits if_splits)
next
  case (Putting n i)
  with assms consider "graph_table t' = graph_table t" "instance_table t' = instance_table t"
      "own_instance (al_phase c') = None" "uncounted_on (al_phase c') = None"
    | "graph_item t (al_graph c) = None" "graph_table t' = graph_table t @ [new_row c i]"
      "instance_table t' = instance_table t" "al_phase c' = Counting n i"
    by (auto simp: alloc_request_def put_database_def split: if_splits)
  then show ?thesis using Putting by cases (auto intro: unchanged put)
next
  case (Counting n i)
  show ?thesis
  proof (cases "e")
    case True
    with Counting assms show ?thesis by (intro failed) (auto simp: alloc_request_def count_database_def)
  next
    case False
    show ?thesis
    proof (cases "al_phase c' = RollingBack n i")
      case True
      with Counting assms False show ?thesis
        by (intro unchanged) (auto simp: alloc_request_def count_database_def split: option.splits if_splits)
    next
      case no: False
      with Counting assms False obtain q m where
        "instance_item t (ii_id i) = Some q" "ir_max q = Some m" "ir_count q < m"
        "t' = put_instance (q\<lparr>ir_count := ir_count q + 1\<rparr>) t" "al_phase c' = after_counting cfg c i"
        by (auto simp: alloc_request_def count_database_def split: option.splits if_splits)
      with Counting show ?thesis
        by (intro counted) (auto simp: after_counting_def new_location_def put_instance_def)
    qed
  qed
next
  case (RollingBack n i)
  with assms consider "e" "graph_table t' = graph_table t" "instance_table t' = instance_table t"
      "own_instance (al_phase c') = None" "uncounted_on (al_phase c') = None"
    | "al_phase c' = Choosing n (Some (ii_id i))" "instance_table t' = instance_table t"
      "graph_table t' = filter (\<lambda>r. \<not> (gr_graph r = al_graph c \<and> gr_alloc_lock r = Some (al_now c))) (graph_table t)"
    by (auto simp: alloc_request_def roll_back_def split: if_splits)
  then show ?thesis using RollingBack by cases (auto intro: failed rolled_back)
next
  case LookingUp
  with assms show ?thesis
    by (intro unchanged) (auto simp: alloc_request_def look_up_existing_def split: option.splits if_splits)
next
  case (ScanningVolumes i)
  with assms show ?thesis
    by (intro unchanged) (auto simp: alloc_request_def scan_volumes_def split: list.splits if_splits)
next
  case (ReadingInstance i)
  with assms show ?thesis
    by (intro unchanged) (auto simp: alloc_request_def read_instance_def split: option.splits if_splits)
next
  case (ScanningByTier i z r)
  with assms show ?thesis
    by (intro unchanged) (auto simp: alloc_request_def scan_by_tier_def split: list.splits if_splits)
next
  case (AppendingDatabase i v)
  with assms show ?thesis
    by (intro unchanged) (auto simp: alloc_request_def append_database_def split: if_splits)
next
  case (Protecting i)
  with assms show ?thesis
    by (intro unchanged) (auto simp: alloc_request_def protect_instance_def new_location_def split: if_splits)
qed (use assms in \<open>auto intro: unchanged simp: alloc_request_def\<close>)

lemma alloc_request_call:
  "alloc_request cfg e idx t c = (t', c') \<Longrightarrow>
   al_graph c' = al_graph c \<and> al_entity c' = al_entity c \<and> al_now c' = al_now c"
  by (auto simp: alloc_request_def split: prod.splits)

definition placed_ok :: "cluster \<Rightarrow> bool" where
  "placed_ok w \<longleftrightarrow> distinct (map gr_graph (graph_table (cl_tables w))) \<and>
     (\<forall>c\<in>set (cl_allocs w). own_instance (al_phase c) \<noteq> None \<longrightarrow> (\<exists>r\<in>set (graph_table (cl_tables w)). row_of c r)) \<and>
     (\<forall>j<length (cl_allocs w). \<forall>k<length (cl_allocs w). j \<noteq> k \<longrightarrow>
        own_instance (al_phase (cl_allocs w ! j)) \<noteq> None \<longrightarrow> own_instance (al_phase (cl_allocs w ! k)) \<noteq> None \<longrightarrow>
        al_graph (cl_allocs w ! j) \<noteq> al_graph (cl_allocs w ! k))"

lemma placed_okD:
  assumes "placed_ok w"
  shows "distinct (map gr_graph (graph_table (cl_tables w)))"
    and "c \<in> set (cl_allocs w) \<Longrightarrow> own_instance (al_phase c) \<noteq> None \<Longrightarrow>
      \<exists>r\<in>set (graph_table (cl_tables w)). row_of c r"
    and "j < length (cl_allocs w) \<Longrightarrow> k < length (cl_allocs w) \<Longrightarrow> j \<noteq> k \<Longrightarrow>
      own_instance (al_phase (cl_allocs w ! j)) \<noteq> None \<Longrightarrow> own_instance (al_phase (cl_allocs w ! k)) \<noteq> None \<Longrightarrow>
      al_graph (cl_allocs w ! j) \<noteq> al_graph (cl_allocs w ! k)"
  using assms unfolding placed_ok_def by blast+

lemma row_of_item:
  assumes "placed_ok w" "c \<in> set (cl_allocs w)" "own_instance (al_phase c) \<noteq> None"
  obtains r where "graph_item (cl_tables w) (al_graph c) = Some r" "row_of c r"
proof -
  from placed_okD(2) [OF assms] obtain r where r: "r \<in> set (graph_table (cl_tables w))" "row_of c r" by blast
  from find_row_unique [OF placed_okD(1) [OF assms(1)] r(1)] r(2)
  have "graph_item (cl_tables w) (al_graph c) = Some r" by (simp add: graph_item_def row_of_def)
  from this r(2) show thesis by (rule that)
qed

text \<open>
  A step keeps the invariant when the rows of the owners are still there and every owner was
  one before, but for one call whose graph no owner had.
\<close>

lemma placed_okI:
  assumes ok: "placed_ok w" and allocs: "cl_allocs w' = (cl_allocs w)[k := c']" and k: "k < length (cl_allocs w)"
    and ids: "distinct (map gr_graph (graph_table (cl_tables w')))"
    and same: "al_graph c' = al_graph (cl_allocs w ! k)"
    and mine: "own_instance (al_phase c') \<noteq> None \<Longrightarrow> \<exists>r\<in>set (graph_table (cl_tables w')). row_of c' r"
    and others: "\<And>j. j < length (cl_allocs w) \<Longrightarrow> j \<noteq> k \<Longrightarrow> own_instance (al_phase (cl_allocs w ! j)) \<noteq> None \<Longrightarrow>
      \<exists>r\<in>set (graph_table (cl_tables w')). row_of (cl_allocs w ! j) r"
    and new: "own_instance (al_phase c') \<noteq> None \<Longrightarrow> own_instance (al_phase (cl_allocs w ! k)) = None \<Longrightarrow>
      graph_item (cl_tables w) (al_graph c') = None"
  shows "placed_ok w'"
  unfolding placed_ok_def
proof (intro conjI ballI allI impI)
  fix c assume "c \<in> set (cl_allocs w')" "own_instance (al_phase c) \<noteq> None"
  then obtain j where j: "j < length (cl_allocs w)" "c = (cl_allocs w)[k := c'] ! j"
    by (auto simp: allocs in_set_conv_nth)
  with \<open>own_instance (al_phase c) \<noteq> None\<close> mine others [of j] k
  show "\<exists>r\<in>set (graph_table (cl_tables w')). row_of c r" by (cases "j = k") auto
next
  have *: "al_graph (cl_allocs w ! j) \<noteq> al_graph c'"
    if "j < length (cl_allocs w)" "j \<noteq> k" "own_instance (al_phase (cl_allocs w ! j)) \<noteq> None"
      "own_instance (al_phase c') \<noteq> None" for j
  proof (cases "own_instance (al_phase (cl_allocs w ! k)) = None")
    case True
    from row_of_item [OF ok nth_mem [OF that(1)] that(3)] new [OF that(4) True] show ?thesis by force
  next
    case False
    from placed_okD(3) [OF ok that(1) k that(2,3) False] same show ?thesis by simp
  qed
  fix i j assume "i < length (cl_allocs w')" "j < length (cl_allocs w')" "i \<noteq> j"
    "own_instance (al_phase (cl_allocs w' ! i)) \<noteq> None" "own_instance (al_phase (cl_allocs w' ! j)) \<noteq> None"
  then show "al_graph (cl_allocs w' ! i) \<noteq> al_graph (cl_allocs w' ! j)"
    using * [of i] * [of j] placed_okD(3) [OF ok, of i j] k by (cases "i = k"; cases "j = k") (auto simp: allocs)
qed (rule ids)

lemma row_of_cong:
  "al_graph c = al_graph d \<Longrightarrow> al_entity c = al_entity d \<Longrightarrow> al_now c = al_now d \<Longrightarrow>
   own_instance (al_phase c) = own_instance (al_phase d) \<Longrightarrow> row_of c r = row_of d r"
  by (simp add: row_of_def)

lemma alloc_turn_keeps_placed:
  assumes ok: "placed_ok w" and k: "k < length (cl_allocs w)"
  shows "placed_ok (alloc_turn cfg e idx k w)"
proof -
  let ?c = "cl_allocs w ! k" and ?t = "cl_tables w"
  obtain t' c' where req: "alloc_request cfg e idx ?t ?c = (t', c')" by fastforce
  let ?w = "w\<lparr>cl_tables := t', cl_allocs := (cl_allocs w)[k := c']\<rparr>"
  have w': "alloc_turn cfg e idx k w = ?w" by (simp add: alloc_turn_def req)
  note same = alloc_request_call [OF req]
  note mem = nth_mem [OF k]
  note ids = placed_okD(1) [OF ok]
  have keep: "\<exists>r\<in>set (graph_table t'). row_of d r" if "graph_table t' = graph_table ?t" "d \<in> set (cl_allocs w)"
      "own_instance (al_phase d) \<noteq> None" for d
    using that placed_okD(2) [OF ok] by simp
  from req have "placed_ok ?w"
  proof (cases rule: alloc_request_effect)
    case unchanged
    show ?thesis
      by (rule placed_okI [OF ok _ k, of _ c'])
        (use unchanged same ids mem keep [OF unchanged(1)] row_of_cong [of c' ?c] in \<open>simp_all\<close>)
  next
    case (put n i)
    then have "al_graph ?c \<notin> gr_graph ` set (graph_table ?t)" by (auto simp: graph_item_def find_row_None)
    with put same ids show ?thesis
      by (intro placed_okI [OF ok _ k, of _ c'])
        (auto simp: row_of_def new_row_def dest!: placed_okD(2) [OF ok nth_mem])
  next
    case (counted n i q m)
    show ?thesis
      by (rule placed_okI [OF ok _ k, of _ c'])
        (use counted same ids mem keep [OF counted(2)] row_of_cong [of c' ?c] in \<open>simp_all\<close>)
  next
    case (rolled_back n i)
    show ?thesis
    proof (rule placed_okI [OF ok _ k, of _ c'])
      show "distinct (map gr_graph (graph_table (cl_tables ?w)))"
        using ids by (simp add: rolled_back distinct_map_filter)
      fix j assume j: "j < length (cl_allocs w)" "j \<noteq> k" "own_instance (al_phase (cl_allocs w ! j)) \<noteq> None"
      from placed_okD(2) [OF ok nth_mem [OF j(1)] j(3)] obtain r where
        r: "r \<in> set (graph_table ?t)" "row_of (cl_allocs w ! j) r" by blast
      from placed_okD(3) [OF ok j(1) k j(2,3)] rolled_back(1) have "gr_graph r \<noteq> al_graph ?c"
        using r(2) by (simp add: row_of_def)
      with r show "\<exists>r\<in>set (graph_table (cl_tables ?w)). row_of (cl_allocs w ! j) r"
        by (auto simp: rolled_back)
    qed (use rolled_back same in simp_all)
  next
    case failed
    show ?thesis
      by (rule placed_okI [OF ok _ k, of _ c']) (use failed same ids keep [OF failed(2)] in simp_all)
  qed
  with w' show ?thesis by simp
qed

text \<open>What a request of a deallocation does to the graph registry: no row goes, none changes hands.\<close>

definition same_owner :: "graph_row \<Rightarrow> graph_row \<Rightarrow> bool" where
  "same_owner r s \<longleftrightarrow> gr_graph s = gr_graph r \<and> gr_entity s = gr_entity r \<and> gr_instance s = gr_instance r \<and>
     gr_alloc_lock s = gr_alloc_lock r"

lemma put_graph_keeps:
  assumes "graph_item t g = Some r" "same_owner r r'" "x \<in> set (graph_table t)"
    "distinct (map gr_graph (graph_table t))"
  shows "\<exists>y\<in>set (graph_table (put_graph r' t)). same_owner x y"
proof (cases "gr_graph x = g")
  case True
  from assms(1) have r: "gr_graph r = g" "r \<in> set (graph_table t)"
    unfolding graph_item_def by (auto dest!: find_row_Some)
  with True assms(3,4) have "x = r" by (auto simp: distinct_map inj_on_def)
  with r assms(2) show ?thesis by (auto simp: put_graph_def set_update_where same_owner_def)
next
  case False
  from assms(1,2) have "gr_graph r' = g" unfolding graph_item_def by (auto dest!: find_row_Some simp: same_owner_def)
  with False assms(3) show ?thesis by (auto simp: put_graph_def set_update_where same_owner_def)
qed

lemma put_graph_ids: "map gr_graph (graph_table (put_graph r t)) = map gr_graph (graph_table t)"
  by (simp add: put_graph_def update_where_def)

lemma dealloc_request_effect [consumes 1]:
  assumes "dealloc_request cfg e t d = (t', d')"
  obtains
    (unchanged) "graph_table t' = graph_table t" "instance_table t' = instance_table t"
      "\<And>i. de_phase d' \<noteq> Decrementing i" "\<And>i. de_phase d' = MarkingDeleted i \<Longrightarrow>
         de_phase d = ReadingRow \<and> (\<exists>r. graph_item t (de_graph d) = Some r \<and> gr_instance r = Some i)"
      "\<And>i. de_phase d = Decrementing i \<Longrightarrow> e" "de_phase d' = Unmarking \<Longrightarrow> e"
  | (ghost) i where "de_phase d = MarkingDeleted i" "graph_item t (de_graph d) = None"
      "\<exists>r. graph_table t' = graph_table t @ [r] \<and> gr_graph r = de_graph d"
      "instance_table t' = instance_table t" "de_phase d' = Decrementing i"
  | (marked) i r where "de_phase d = MarkingDeleted i" "graph_item t (de_graph d) = Some r" "gr_status r \<noteq> DbDeleted"
      "t' = put_graph (r\<lparr>gr_status := DbDeleted, gr_dealloc_lock := Some (de_now d)\<rparr>) t" "de_phase d' = Decrementing i"
  | (decremented) i where "de_phase d = Decrementing i" "graph_table t' = graph_table t"
      "instance_table t' = (case instance_item t i of None \<Rightarrow> instance_table t
         | Some q \<Rightarrow> if 0 < ir_count q then instance_table (put_instance (q\<lparr>ir_count := ir_count q - 1\<rparr>) t)
                   else instance_table t)"
      "de_phase d' = after_decrement cfg i"
  | (unmarked) r where "de_phase d = Unmarking" "graph_item t (de_graph d) = Some r"
      "t' = put_graph (r\<lparr>gr_status := DbActive, gr_dealloc_lock := None\<rparr>) t" "de_phase d' = Released False"
proof (cases "de_phase d")
  case ReadingRow
  with assms show ?thesis
    by (intro unchanged) (auto simp: dealloc_request_def read_row_def split: option.splits if_splits)
next
  case (MarkingDeleted i)
  show ?thesis
  proof (cases "e")
    case True
    with MarkingDeleted assms show ?thesis by (intro unchanged) (auto simp: dealloc_request_def mark_deleted_def)
  next
    case False
    show ?thesis
    proof (cases "graph_item t (de_graph d)")
      case None
      with MarkingDeleted False assms show ?thesis
        by (intro ghost) (auto simp: dealloc_request_def mark_deleted_def)
    next
      case (Some r)
      show ?thesis
      proof (cases "gr_status r = DbDeleted")
        case True
        with MarkingDeleted False Some assms show ?thesis
          by (intro unchanged) (auto simp: dealloc_request_def mark_deleted_def)
      next
        case live: False
        with MarkingDeleted False Some assms show ?thesis
          by (intro marked) (auto simp: dealloc_request_def mark_deleted_def)
      qed
    qed
  qed
next
  case (Decrementing i)
  show ?thesis
  proof (cases "e")
    case True
    with Decrementing assms show ?thesis by (intro unchanged) (auto simp: dealloc_request_def decrement_count_def)
  next
    case False
    with Decrementing assms show ?thesis
      by (intro decremented) (auto simp: dealloc_request_def decrement_count_def put_instance_def split: option.splits)
  qed
next
  case Unmarking
  with assms consider "graph_table t' = graph_table t" "instance_table t' = instance_table t" "de_phase d' = Released False"
    | r where "graph_item t (de_graph d) = Some r" "de_phase d' = Released False"
      "t' = put_graph (r\<lparr>gr_status := DbActive, gr_dealloc_lock := None\<rparr>) t"
    by (auto simp: dealloc_request_def unmark_deleted_def split: option.splits if_splits)
  then show ?thesis using Unmarking by cases (auto intro: unchanged unmarked)
next
  case (ScanningAttached i)
  with assms show ?thesis
    by (intro unchanged) (auto simp: dealloc_request_def scan_attached_def split: list.splits if_splits)
next
  case (RemovingDatabase i v ds)
  with assms show ?thesis
    by (intro unchanged) (auto simp: dealloc_request_def remove_database_def split: if_splits)
next
  case (ReadingCount i)
  with assms show ?thesis
    by (intro unchanged) (auto simp: dealloc_request_def read_count_def split: option.splits if_splits)
next
  case (Unprotecting i)
  with assms show ?thesis
    by (intro unchanged) (auto simp: dealloc_request_def unprotect_instance_def split: if_splits)
qed (use assms in \<open>auto intro: unchanged simp: dealloc_request_def\<close>)

lemma dealloc_request_call: "dealloc_request cfg e t d = (t', d') \<Longrightarrow> de_graph d' = de_graph d"
  by (auto simp: dealloc_request_def split: prod.splits)

lemma dealloc_keeps_owners:
  assumes req: "dealloc_request cfg e t d = (t', d')" and ids: "distinct (map gr_graph (graph_table t))"
  shows "distinct (map gr_graph (graph_table t'))"
    and "x \<in> set (graph_table t) \<Longrightarrow> \<exists>y\<in>set (graph_table t'). same_owner x y"
proof -
  have same: "same_owner r (r\<lparr>gr_status := s, gr_dealloc_lock := l\<rparr>)" for r s l by (simp add: same_owner_def)
  from req show "distinct (map gr_graph (graph_table t'))"
    by (cases rule: dealloc_request_effect)
      (use ids in \<open>force simp: put_graph_ids graph_item_def find_row_None\<close>)+
  assume x: "x \<in> set (graph_table t)"
  from req show "\<exists>y\<in>set (graph_table t'). same_owner x y"
  proof (cases rule: dealloc_request_effect)
    case (marked i r)
    from put_graph_keeps [OF marked(2) same x ids] show ?thesis by (simp add: marked(4))
  next
    case (unmarked r)
    from put_graph_keeps [OF unmarked(2) same x ids] show ?thesis by (simp add: unmarked(3))
  qed (use x in \<open>auto simp: same_owner_def\<close>)
qed

lemma placed_ok_frame:
  assumes "placed_ok w" "cl_allocs w' = cl_allocs w" "distinct (map gr_graph (graph_table (cl_tables w')))"
    and "\<And>x. x \<in> set (graph_table (cl_tables w)) \<Longrightarrow> \<exists>y\<in>set (graph_table (cl_tables w')). same_owner x y"
  shows "placed_ok w'"
proof -
  have "\<exists>r\<in>set (graph_table (cl_tables w')). row_of c r"
    if "c \<in> set (cl_allocs w)" "own_instance (al_phase c) \<noteq> None" for c
  proof -
    from placed_okD(2) [OF assms(1) that] obtain r where r: "r \<in> set (graph_table (cl_tables w))" "row_of c r" by blast
    from assms(4) [OF r(1)] r(2) show ?thesis by (auto simp: row_of_def same_owner_def)
  qed
  with assms(1-3) show ?thesis unfolding placed_ok_def by auto
qed

lemma dealloc_turn_keeps_placed: "placed_ok w \<Longrightarrow> placed_ok (dealloc_turn cfg e k w)"
proof -
  assume ok: "placed_ok w"
  obtain t' d' where req: "dealloc_request cfg e (cl_tables w) (cl_deallocs w ! k) = (t', d')" by fastforce
  from dealloc_keeps_owners [OF req placed_okD(1) [OF ok]] show ?thesis
    by (intro placed_ok_frame [OF ok]) (simp_all add: dealloc_turn_def req)
qed

lemma new_call_keeps_placed:
  assumes "placed_ok w" "own_instance (al_phase c) = None"
  shows "placed_ok (w\<lparr>cl_allocs := cl_allocs w @ [c]\<rparr>)"
  using assms unfolding placed_ok_def by (auto simp: nth_append less_Suc_eq)

lemma cluster_step_keeps_placed:
  assumes "cluster_step cfg faulty early w w'" "placed_ok w"
  shows "placed_ok w'"
  using assms
proof cases
  case (allocate e g new tier now c)
  from allocate_database_call [OF allocate(2)] assms(2) show ?thesis
    by (auto simp: allocate(1) intro: new_call_keeps_placed)
next
  case (deallocate g now)
  with assms(2) show ?thesis by (auto intro!: placed_ok_frame [OF assms(2)] simp: placed_okD same_owner_def)
next
  case (health q s')
  with assms(2) show ?thesis
    by (auto intro!: placed_ok_frame [OF assms(2)] simp: placed_okD put_instance_def same_owner_def)
qed (use assms(2) in \<open>auto intro: alloc_turn_keeps_placed dealloc_turn_keeps_placed\<close>)

interpretation placed: step_invariant "cluster_step cfg faulty early" placed_ok for cfg faulty early
  by unfold_locales (rule cluster_step_keeps_placed)

text \<open>
  A graph is placed once: in every interleaving of allocations, deallocations and changes
  of health, with requests refused at any point, an allocation that has placed its graph has
  its own row in the graph registry, with its entity and its instance, and no other
  allocation of that graph holds one.
\<close>

theorem graph_placed_once:
  assumes "(cluster_step cfg faulty early)\<^sup>*\<^sup>* \<lparr>cl_tables = t, cl_allocs = [], cl_deallocs = []\<rparr> w"
    and "distinct (map gr_graph (graph_table t))"
    and "k < length (cl_allocs w)" "al_phase (cl_allocs w ! k) = PlacedAt l"
  shows "\<exists>r. graph_item (cl_tables w) (al_graph (cl_allocs w ! k)) = Some r \<and>
    gr_entity r = Some (al_entity (cl_allocs w ! k)) \<and> gr_instance r = Some (lc_instance l) \<and>
    (\<forall>j<length (cl_allocs w). j \<noteq> k \<and> al_graph (cl_allocs w ! j) = al_graph (cl_allocs w ! k) \<longrightarrow>
       own_instance (al_phase (cl_allocs w ! j)) = None)"
proof -
  have ok: "placed_ok w"
    using placed.run_keeps [OF assms(1)] assms(2) by (simp add: placed_ok_def)
  have own: "own_instance (al_phase (cl_allocs w ! k)) \<noteq> None" by (simp add: assms(4))
  obtain r where "graph_item (cl_tables w) (al_graph (cl_allocs w ! k)) = Some r" "row_of (cl_allocs w ! k) r"
    by (rule row_of_item [OF ok nth_mem [OF assms(3)] own])
  moreover have "own_instance (al_phase (cl_allocs w ! j)) = None"
    if "j < length (cl_allocs w)" "j \<noteq> k" "al_graph (cl_allocs w ! j) = al_graph (cl_allocs w ! k)" for j
    using placed_okD(3) [OF ok that(1) assms(3) that(2) _ own] that(3) by blast
  ultimately show ?thesis using assms(4) by (auto simp: row_of_def)
qed

text \<open>
  The code routes subgraph ids to their parent's instance after it has checked the id. The
  check admits no such id, so the branch is never taken and is not part of the model.
\<close>

lemma validated_id_is_no_subgraph:
  assumes "graph_id_ok shared g" "list_all (\<lambda>s. CHR ''_'' \<notin> set s) shared"
  shows "parse_subgraph_id shared g = None"
proof -
  have user: "CHR ''_'' \<notin> set t" if "user_graph_id t" for t
  proof
    assume "CHR ''_'' \<in> set t"
    then have "CHR ''_'' \<in> set (take 2 t) \<or> CHR ''_'' \<in> set (drop 2 t)"
      by (metis Un_iff append_take_drop_id set_append)
    with that have "hex_char CHR ''_''" by (auto simp: user_graph_id_def list_all_iff)
    moreover have "\<not> hex_char CHR ''_''" by code_simp
    ultimately show False by simp
  qed
  have plain: "CHR ''_'' \<notin> set t" if "user_graph_id t \<or> t \<in> set shared" for t
    using that user assms(2) by (auto simp: list_all_iff)
  have ends: "set g = insert (last g) (set (butlast g))" if "g \<noteq> []"
    using that by (metis append_butlast_last_id list.set(1) list.set(2) set_append Un_insert_right sup_bot.right_neutral)
  have "CHR ''_'' \<notin> set g"
    using assms(1) plain ends by (auto simp: graph_id_ok_def dollar_def)
  moreover from this have "CHR ''_'' \<notin> set (butlast g)" by (meson in_set_butlastD)
  ultimately show ?thesis by (simp add: parse_subgraph_id_def full_subgraph_def)
qed

end
