(* ===== verification/AllocationResults.thy ===== *)
theory AllocationResults
  imports AllocationFacts
begin

text \<open>
  The capacity of the instances: the counter of each instance against the rows of the graph
  registry, in every interleaving without client errors, and what the registries look like
  when a request is refused or when two calls meet.
\<close>

subsection \<open>The balance of the counters\<close>

definition live_row :: "string \<Rightarrow> graph_row \<Rightarrow> bool" where
  "live_row i r \<longleftrightarrow> gr_instance r = Some i \<and> gr_status r \<noteq> DbDeleted"

text \<open>The databases an instance hosts, and the calls whose counting is still to come.\<close>

definition hosted :: "cluster \<Rightarrow> string \<Rightarrow> nat" where
  "hosted w i = count_where (live_row i) (graph_table (cl_tables w))"

definition uncounted :: "cluster \<Rightarrow> string \<Rightarrow> nat" where
  "uncounted w i = count_where (\<lambda>c. uncounted_on (al_phase c) = Some i) (cl_allocs w)"

definition unreleased :: "cluster \<Rightarrow> string \<Rightarrow> nat" where
  "unreleased w i = count_where (\<lambda>d. de_phase d = Decrementing i) (cl_deallocs w)"

definition counter_ok :: "cluster \<Rightarrow> instance_row \<Rightarrow> bool" where
  "counter_ok w q \<longleftrightarrow> ir_count q + int (uncounted w (ir_id q)) = int (hosted w (ir_id q)) + int (unreleased w (ir_id q)) \<and>
     (\<forall>m. ir_max q = Some m \<longrightarrow> ir_count q \<le> m)"

definition settled_rows :: "cluster \<Rightarrow> bool" where
  "settled_rows w \<longleftrightarrow>
     (\<forall>c\<in>set (cl_allocs w). uncounted_on (al_phase c) \<noteq> None \<longrightarrow>
        (\<forall>r\<in>set (graph_table (cl_tables w)). gr_graph r = al_graph c \<longrightarrow> gr_status r = DbActive)) \<and>
     (\<forall>d\<in>set (cl_deallocs w). de_phase d \<noteq> Unmarking \<and> (\<forall>i. de_phase d = MarkingDeleted i \<longrightarrow>
        \<not> in_flight w (de_graph d) \<and> (\<exists>r. graph_item (cl_tables w) (de_graph d) = Some r \<and> gr_instance r = Some i)))"

definition balanced :: "cluster \<Rightarrow> bool" where
  "balanced w \<longleftrightarrow> placed_ok w \<and> distinct (map ir_id (instance_table (cl_tables w))) \<and>
     (\<forall>q\<in>set (instance_table (cl_tables w)). counter_ok w q) \<and> settled_rows w"

lemma balancedD:
  assumes "balanced w"
  shows "placed_ok w" "distinct (map ir_id (instance_table (cl_tables w)))"
    "q \<in> set (instance_table (cl_tables w)) \<Longrightarrow> counter_ok w q" "settled_rows w"
  using assms unfolding balanced_def by blast+

lemma settled_rowsD:
  assumes "settled_rows w"
  shows "c \<in> set (cl_allocs w) \<Longrightarrow> uncounted_on (al_phase c) \<noteq> None \<Longrightarrow>
      r \<in> set (graph_table (cl_tables w)) \<Longrightarrow> gr_graph r = al_graph c \<Longrightarrow> gr_status r = DbActive"
    and "d \<in> set (cl_deallocs w) \<Longrightarrow> de_phase d \<noteq> Unmarking"
    and "d \<in> set (cl_deallocs w) \<Longrightarrow> de_phase d = MarkingDeleted i \<Longrightarrow> \<not> in_flight w (de_graph d)"
    and "d \<in> set (cl_deallocs w) \<Longrightarrow> de_phase d = MarkingDeleted i \<Longrightarrow>
      \<exists>r. graph_item (cl_tables w) (de_graph d) = Some r \<and> gr_instance r = Some i"
  using assms unfolding settled_rows_def by blast+

text \<open>Each allocation in flight has a live row of its own, so the counter is not yet exhausted.\<close>

lemma uncounted_hosted:
  assumes "balanced w"
  shows "uncounted w i \<le> hosted w i"
  unfolding uncounted_def hosted_def
proof (rule count_injects [where f = al_graph and key = gr_graph])
  fix j k assume "j < length (cl_allocs w)" "k < length (cl_allocs w)" "j \<noteq> k"
    "uncounted_on (al_phase (cl_allocs w ! j)) = Some i" "uncounted_on (al_phase (cl_allocs w ! k)) = Some i"
  with placed_okD(3) [OF balancedD(1) [OF assms]] show "al_graph (cl_allocs w ! j) \<noteq> al_graph (cl_allocs w ! k)"
    by (metis option.discI uncounted_own)
next
  fix c assume c: "c \<in> set (cl_allocs w)" "uncounted_on (al_phase c) = Some i"
  from uncounted_own [OF c(2)] placed_okD(2) [OF balancedD(1) [OF assms] c(1)]
  obtain r where r: "r \<in> set (graph_table (cl_tables w))" "row_of c r" by auto
  with settled_rowsD(1) [OF balancedD(4) [OF assms] c(1)] c(2) uncounted_own [OF c(2)]
  have "live_row i r \<and> gr_graph r = al_graph c" by (simp add: live_row_def row_of_def)
  with r(1) show "\<exists>r\<in>set (graph_table (cl_tables w)). live_row i r \<and> gr_graph r = al_graph c" by blast
qed

lemma uncounted_update:
  "k < length (cl_allocs w) \<Longrightarrow>
   uncounted (w\<lparr>cl_tables := t, cl_allocs := (cl_allocs w)[k := c']\<rparr>) i +
     (if uncounted_on (al_phase (cl_allocs w ! k)) = Some i then 1 else 0) =
   uncounted w i + (if uncounted_on (al_phase c') = Some i then 1 else 0)"
  using count_list_update [of k "cl_allocs w" "\<lambda>c. uncounted_on (al_phase c) = Some i" c']
  by (simp add: uncounted_def)

lemma unreleased_update:
  "k < length (cl_deallocs w) \<Longrightarrow>
   unreleased (w\<lparr>cl_tables := t, cl_deallocs := (cl_deallocs w)[k := d']\<rparr>) i +
     (if de_phase (cl_deallocs w ! k) = Decrementing i then 1 else 0) =
   unreleased w i + (if de_phase d' = Decrementing i then 1 else 0)"
  using count_list_update [of k "cl_deallocs w" "\<lambda>d. de_phase d = Decrementing i" d']
  by (simp add: unreleased_def)

lemma put_instance_mem:
  assumes "instance_item t i = Some q" "ir_id q' = i"
  shows "x \<in> set (instance_table (put_instance q' t)) \<longleftrightarrow> x = q' \<or> x \<in> set (instance_table t) \<and> ir_id x \<noteq> i"
  using member_keyed_update [of ir_id i "instance_table t" q x q'] assms by (simp add: instance_item_def put_instance_def)

lemma put_instance_ids: "map ir_id (instance_table (put_instance q t)) = map ir_id (instance_table t)"
  by (simp add: put_instance_def update_where_def)

lemma instance_item_mem: "instance_item t i = Some q \<Longrightarrow> q \<in> set (instance_table t) \<and> ir_id q = i"
  unfolding instance_item_def by (rule find_row_Some)

lemma graph_item_mem: "graph_item t g = Some r \<Longrightarrow> r \<in> set (graph_table t) \<and> gr_graph r = g"
  unfolding graph_item_def by (rule find_row_Some)

subsection \<open>Turns of an allocation\<close>

lemma counter_okI:
  assumes "counter_ok w q" "ir_id q' = ir_id q" "ir_max q' = ir_max q"
    "ir_count q' + int (uncounted w' (ir_id q)) + int (hosted w (ir_id q)) + int (unreleased w (ir_id q)) =
     ir_count q + int (uncounted w (ir_id q)) + int (hosted w' (ir_id q)) + int (unreleased w' (ir_id q))"
    "\<And>m. ir_max q = Some m \<Longrightarrow> ir_count q' \<le> m"
  shows "counter_ok w' q'"
  using assms by (auto simp: counter_ok_def)

lemma alloc_turn_counters:
  assumes w: "balanced w" and k: "k < length (cl_allocs w)"
    and req: "alloc_request cfg False idx (cl_tables w) (cl_allocs w ! k) = (t', c')"
    and w': "w' = w\<lparr>cl_tables := t', cl_allocs := (cl_allocs w)[k := c']\<rparr>"
    and q: "q' \<in> set (instance_table t')"
  shows "counter_ok w' q'"
proof -
  let ?c = "cl_allocs w ! k" and ?t = "cl_tables w"
  note old = balancedD(3) [OF w]
  note un = uncounted_update [OF k, where t = t' and c' = c', folded w']
  have rel: "unreleased w' i = unreleased w i" for i by (simp add: w' unreleased_def)
  have host: "hosted w' i = count_where (live_row i) (graph_table t')" for i by (simp add: w' hosted_def)
  have before: "hosted w i = count_where (live_row i) (graph_table ?t)" for i by (simp add: hosted_def)
  have cap: "counter_ok w x \<Longrightarrow> ir_max x = Some m \<Longrightarrow> ir_count x \<le> m" for x m by (simp add: counter_ok_def)
  from req show ?thesis
  proof (cases rule: alloc_request_effect)
    case unchanged
    with q un [of "ir_id q'"] show ?thesis
      by (intro counter_okI [OF old]) (auto simp: rel host before cap [OF old] split: if_splits)
  next
    case (put n i)
    with q un [of "ir_id q'"] show ?thesis
      by (intro counter_okI [OF old])
        (auto simp: rel host before count_where_snoc live_row_def new_row_def cap [OF old] split: if_splits)
  next
    case (counted n i q m)
    from instance_item_mem [OF counted(3)] have i: "q \<in> set (instance_table ?t)" "ir_id q = ii_id i" by auto
    from q counted(6) put_instance_mem [OF counted(3), of "q\<lparr>ir_count := ir_count q + 1\<rparr>" q'] i(2)
    consider "q' = q\<lparr>ir_count := ir_count q + 1\<rparr>" | "q' \<in> set (instance_table ?t)" "ir_id q' \<noteq> ii_id i" by auto
    then show ?thesis
    proof cases
      case 1
      with counted i un [of "ii_id i"] show ?thesis
        by (intro counter_okI [OF old [OF i(1)]]) (auto simp: rel host before)
    next
      case 2
      with counted un [of "ir_id q'"] show ?thesis
        by (intro counter_okI [OF old]) (auto simp: rel host before cap [OF old])
    qed
  next
    case (rolled_back n i)
    have mem: "?c \<in> set (cl_allocs w)" using k by simp
    have own: "own_instance (al_phase ?c) = Some (ii_id i)" "uncounted_on (al_phase ?c) = Some (ii_id i)"
      using rolled_back(1) by simp_all
    from own(1) placed_okD(2) [OF balancedD(1) [OF w] mem] obtain r where r: "r \<in> set (graph_table ?t)" "row_of ?c r"
      by auto
    with own settled_rowsD(1) [OF balancedD(4) [OF w] mem _ r(1)] have live: "live_row j r \<longleftrightarrow> j = ii_id i" for j
      by (auto simp: live_row_def row_of_def)
    have hosts: "hosted w' j + (if j = ii_id i then 1 else 0) = hosted w j" for j
      using count_removed [OF placed_okD(1) [OF balancedD(1) [OF w]] r(1), of "\<lambda>x. gr_alloc_lock x = Some (al_now ?c)" "live_row j"]
        r(2) live [of j] by (simp add: host before rolled_back(3) row_of_def)
    show ?thesis using rolled_back q un [of "ir_id q'"] hosts [of "ir_id q'"]
      by (intro counter_okI [OF old]) (auto simp: rel cap [OF old] split: if_splits)
  next
    case failed
    then show ?thesis by simp
  qed
qed

lemma graph_item_table: "graph_table t = graph_table t' \<Longrightarrow> graph_item t g = graph_item t' g"
  by (simp add: graph_item_def)

lemma graph_item_filter:
  assumes "graph_item t g = Some r" "g \<noteq> h" "graph_table t' = filter (\<lambda>x. \<not> (gr_graph x = h \<and> Q x)) (graph_table t)"
  shows "graph_item t' g = Some r"
proof -
  have "find_row (\<lambda>x. gr_graph x = g) (filter (\<lambda>x. \<not> (gr_graph x = h \<and> Q x)) xs) = find_row (\<lambda>x. gr_graph x = g) xs" for xs
    using assms(2) by (induction xs) auto
  with assms show ?thesis by (simp add: graph_item_def)
qed

lemma alloc_turn_settled:
  assumes w: "balanced w" and k: "k < length (cl_allocs w)"
    and req: "alloc_request cfg False idx (cl_tables w) (cl_allocs w ! k) = (t', c')"
    and w': "w' = w\<lparr>cl_tables := t', cl_allocs := (cl_allocs w)[k := c']\<rparr>"
  shows "settled_rows w'"
proof -
  let ?c = "cl_allocs w ! k" and ?t = "cl_tables w"
  note same = alloc_request_call [OF req]
  note settled = settled_rowsD [OF balancedD(4) [OF w]]
  have mem: "?c \<in> set (cl_allocs w)" using k by simp
  have calls: "c \<in> set (cl_allocs w') \<Longrightarrow> c = c' \<or> c \<in> set (cl_allocs w)" for c
    using set_update_subset_insert [of "cl_allocs w" k c'] by (auto simp: w')
  have flight: "in_flight w' g \<Longrightarrow> in_flight w g \<or> (g = al_graph ?c \<and> uncounted_on (al_phase c') \<noteq> None)" for g
    using calls same unfolding in_flight_def by blast
  have tables: "cl_tables w' = t'" "cl_deallocs w' = cl_deallocs w" by (simp_all add: w')
  show ?thesis
  proof (cases "graph_table t' = graph_table ?t \<and> (uncounted_on (al_phase c') \<noteq> None \<longrightarrow> uncounted_on (al_phase ?c) \<noteq> None)")
    case True
    then have sub: "in_flight w' g \<Longrightarrow> in_flight w g" for g
      using flight [of g] mem by (auto simp: in_flight_def)
    have rows: "gr_status r = DbActive" if "c \<in> set (cl_allocs w')" "uncounted_on (al_phase c) \<noteq> None"
      "r \<in> set (graph_table t')" "gr_graph r = al_graph c" for c r
      using calls [OF that(1)] settled(1) [of c r] settled(1) [OF mem, of r] that True same by auto
    show ?thesis unfolding settled_rows_def tables
    proof (intro conjI ballI impI allI)
      fix d i assume d: "d \<in> set (cl_deallocs w)" "de_phase d = MarkingDeleted i"
      from settled(3) [OF d] show "\<not> in_flight w' (de_graph d)" using sub by blast
      from settled(4) [OF d] show "\<exists>r. graph_item t' (de_graph d) = Some r \<and> gr_instance r = Some i"
        using True graph_item_table [of t' ?t] by simp
    qed (use rows settled(2) in blast)+
  next
    case False
    from req False consider (put) n i where "al_phase ?c = Putting n i" "graph_item ?t (al_graph ?c) = None"
        "graph_table t' = graph_table ?t @ [new_row ?c i]"
      | (rolled) n i where "al_phase ?c = RollingBack n i" "al_phase c' = Choosing n (Some (ii_id i))"
        "graph_table t' = filter (\<lambda>r. \<not> (gr_graph r = al_graph ?c \<and> gr_alloc_lock r = Some (al_now ?c))) (graph_table ?t)"
      by (cases rule: alloc_request_effect) auto
    then show ?thesis
    proof cases
      case put
      show ?thesis unfolding settled_rows_def tables
      proof (intro conjI ballI impI allI)
        fix c r assume "c \<in> set (cl_allocs w')" "uncounted_on (al_phase c) \<noteq> None"
          "r \<in> set (graph_table t')" "gr_graph r = al_graph c"
        with put calls [of c] settled(1) [of c r] same show "gr_status r = DbActive"
          by (auto simp: new_row_def graph_item_def find_row_None)
      next
        fix d i assume d: "d \<in> set (cl_deallocs w)" "de_phase d = MarkingDeleted i"
        from settled(4) [OF d] obtain r where r: "graph_item ?t (de_graph d) = Some r" "gr_instance r = Some i" by blast
        with put(2) have "de_graph d \<noteq> al_graph ?c" by auto
        with settled(3) [OF d] flight show "\<not> in_flight w' (de_graph d)" by blast
        from r put(3) show "\<exists>r. graph_item t' (de_graph d) = Some r \<and> gr_instance r = Some i"
          by (simp add: graph_item_def find_row_append)
      qed (use settled(2) in blast)
    next
      case rolled
      show ?thesis unfolding settled_rows_def tables
      proof (intro conjI ballI impI allI)
        fix c r assume "c \<in> set (cl_allocs w')" "uncounted_on (al_phase c) \<noteq> None"
          "r \<in> set (graph_table t')" "gr_graph r = al_graph c"
        with rolled calls [of c] settled(1) [of c r] show "gr_status r = DbActive" by auto
      next
        fix d i assume d: "d \<in> set (cl_deallocs w)" "de_phase d = MarkingDeleted i"
        have "in_flight w (al_graph ?c)" using mem rolled(1) by (auto simp: in_flight_def intro!: bexI [of _ ?c])
        with settled(3) [OF d] have ne: "de_graph d \<noteq> al_graph ?c" by auto
        with settled(3) [OF d] flight show "\<not> in_flight w' (de_graph d)" by blast
        from settled(4) [OF d] obtain r where r: "graph_item ?t (de_graph d) = Some r" "gr_instance r = Some i" by blast
        from graph_item_filter [OF r(1) ne rolled(3)] r(2)
        show "\<exists>r. graph_item t' (de_graph d) = Some r \<and> gr_instance r = Some i" by blast
      qed (use settled(2) in blast)
    qed
  qed
qed

lemma alloc_turn_ids:
  assumes "alloc_request cfg e idx t c = (t', c')"
  shows "map ir_id (instance_table t') = map ir_id (instance_table t)"
  using assms by (cases rule: alloc_request_effect) (simp_all add: put_instance_ids)

lemma alloc_turn_keeps:
  assumes "balanced w" "k < length (cl_allocs w)"
  shows "balanced (alloc_turn cfg False idx k w)"
proof -
  obtain t' c' where req: "alloc_request cfg False idx (cl_tables w) (cl_allocs w ! k) = (t', c')" by fastforce
  let ?w = "w\<lparr>cl_tables := t', cl_allocs := (cl_allocs w)[k := c']\<rparr>"
  have w': "alloc_turn cfg False idx k w = ?w" by (simp add: alloc_turn_def req)
  have "distinct (map ir_id (instance_table t'))"
    using balancedD(2) [OF assms(1)] by (simp add: alloc_turn_ids [OF req])
  moreover have "placed_ok ?w"
    using alloc_turn_keeps_placed [OF balancedD(1) [OF assms(1)] assms(2), of cfg False idx] by (simp add: w')
  ultimately show ?thesis unfolding w' balanced_def
    using alloc_turn_counters [OF assms req refl] alloc_turn_settled [OF assms req refl] by simp
qed

subsection \<open>Turns of a deallocation\<close>

text \<open>A release that waits for its decrement finds the counter above zero.\<close>

lemma counter_positive:
  assumes "balanced w" "q \<in> set (instance_table (cl_tables w))" "0 < unreleased w (ir_id q)"
  shows "0 < ir_count q"
  using balancedD(3) [OF assms(1,2)] uncounted_hosted [OF assms(1), of "ir_id q"] assms(3)
  by (auto simp: counter_ok_def)

lemma dealloc_turn_counters:
  assumes w: "balanced w" and k: "k < length (cl_deallocs w)"
    and req: "dealloc_request cfg False (cl_tables w) (cl_deallocs w ! k) = (t', d')"
    and w': "w' = w\<lparr>cl_tables := t', cl_deallocs := (cl_deallocs w)[k := d']\<rparr>"
    and q: "q' \<in> set (instance_table t')"
  shows "counter_ok w' q'"
proof -
  let ?d = "cl_deallocs w ! k" and ?t = "cl_tables w"
  note old = balancedD(3) [OF w]
  note settled = settled_rowsD [OF balancedD(4) [OF w]]
  note ids = placed_okD(1) [OF balancedD(1) [OF w]]
  note un = unreleased_update [OF k, where t = t' and d' = d', folded w']
  have mem: "?d \<in> set (cl_deallocs w)" using k by simp
  have unc: "uncounted w' i = uncounted w i" for i by (simp add: w' uncounted_def)
  have host: "hosted w' i = count_where (live_row i) (graph_table t')" for i by (simp add: w' hosted_def)
  have before: "hosted w i = count_where (live_row i) (graph_table ?t)" for i by (simp add: hosted_def)
  have cap: "counter_ok w x \<Longrightarrow> ir_max x = Some m \<Longrightarrow> ir_count x \<le> m" for x m by (simp add: counter_ok_def)
  from req show ?thesis
  proof (cases rule: dealloc_request_effect)
    case unchanged
    with q un [of "ir_id q'"] show ?thesis
      by (intro counter_okI [OF old]) (auto simp: unc host before cap [OF old] split: if_splits)
  next
    case (ghost i)
    with settled(4) [OF mem ghost(1)] show ?thesis by simp
  next
    case (marked i r)
    let ?r = "r\<lparr>gr_status := DbDeleted, gr_dealloc_lock := Some (de_now ?d)\<rparr>"
    from settled(4) [OF mem marked(1)] marked(2) have inst: "gr_instance r = Some i" by simp
    from graph_item_mem [OF marked(2)] have g: "gr_graph ?r = de_graph ?d" by simp
    have hosts: "hosted w' j + (if j = i then 1 else 0) = hosted w j" for j
      using count_keyed_update [OF ids marked(2) [unfolded graph_item_def] g, of "live_row j"] marked(3) inst g
      by (auto simp: host before marked(4) put_graph_def live_row_def split: if_splits)
    have rows: "q' \<in> set (instance_table ?t)" using q by (simp add: marked(4) put_graph_def)
    show ?thesis using un [of "ir_id q'"] hosts [of "ir_id q'"] marked(1,5)
      by (intro counter_okI [OF old [OF rows]]) (auto simp: unc cap [OF old [OF rows]] split: if_splits)
  next
    case (decremented i)
    have host': "hosted w' j = hosted w j" for j by (simp add: host before decremented(2))
    have not: "\<And>j. de_phase d' \<noteq> Decrementing j" using decremented(4) by (simp add: after_decrement_def)
    show ?thesis
    proof (cases "instance_item ?t i")
      case None
      with decremented(3) have tab: "instance_table t' = instance_table ?t" by simp
      with None q have "ir_id q' \<noteq> i" by (auto simp: instance_item_def find_row_None)
      with q None decremented(1,3) un [of "ir_id q'"] not show ?thesis
        by (intro counter_okI [OF old]) (auto simp: unc host' cap [OF old])
    next
      case (Some x)
      let ?x = "x\<lparr>ir_count := ir_count x - 1\<rparr>"
      from instance_item_mem [OF Some] have x: "x \<in> set (instance_table ?t)" "ir_id x = i" by auto
      from un [of i] decremented(1) not have dec: "unreleased w i = Suc (unreleased w' i)" by simp
      with counter_positive [OF w x(1)] x(2) have pos: "0 < ir_count x" by simp
      with q Some decremented(3) put_instance_mem [OF Some, of ?x q'] x(2)
      consider "q' = ?x" | "q' \<in> set (instance_table ?t)" "ir_id q' \<noteq> i" by auto
      then show ?thesis
      proof cases
        case 1
        with x dec show ?thesis
          by (intro counter_okI [OF old [OF x(1)]]) (auto simp: unc host' dest: cap [OF old [OF x(1)]])
      next
        case 2
        with decremented(1) un [of "ir_id q'"] not show ?thesis
          by (intro counter_okI [OF old]) (auto simp: unc host' cap [OF old])
      qed
    qed
  next
    case (unmarked r)
    with settled(2) [OF mem] show ?thesis by simp
  qed
qed

lemma put_graph_item:
  "graph_item t h = Some r \<Longrightarrow> gr_graph r' = h \<Longrightarrow>
   graph_item (put_graph r' t) g = (if g = h then Some r' else graph_item t g)"
  using find_keyed_update [of gr_graph r' h g "graph_table t"] graph_item_mem [of t h r]
  by (auto simp: graph_item_def put_graph_def)

lemma dealloc_turn_settled:
  assumes w: "balanced w" and k: "k < length (cl_deallocs w)"
    and req: "dealloc_request cfg False (cl_tables w) (cl_deallocs w ! k) = (t', d')"
    and w': "w' = w\<lparr>cl_tables := t', cl_deallocs := (cl_deallocs w)[k := d']\<rparr>"
    and guard: "de_phase (cl_deallocs w ! k) = ReadingRow \<Longrightarrow> \<not> in_flight w (de_graph (cl_deallocs w ! k))"
  shows "settled_rows w'"
proof -
  let ?d = "cl_deallocs w ! k" and ?t = "cl_tables w"
  note settled = settled_rowsD [OF balancedD(4) [OF w]]
  have mem: "?d \<in> set (cl_deallocs w)" using k by simp
  have same: "de_graph d' = de_graph ?d" by (rule dealloc_request_call [OF req])
  have calls: "d \<in> set (cl_deallocs w') \<Longrightarrow> d = d' \<or> d \<in> set (cl_deallocs w)" for d
    using set_update_subset_insert [of "cl_deallocs w" k d'] by (auto simp: w')
  have flight: "in_flight w' g = in_flight w g" for g by (simp add: w' in_flight_def)
  have tables: "cl_tables w' = t'" "cl_allocs w' = cl_allocs w" by (simp_all add: w')
  have here: "de_phase d' \<noteq> Unmarking \<and> (\<forall>i. de_phase d' = MarkingDeleted i \<longrightarrow>
      \<not> in_flight w (de_graph d') \<and> (\<exists>r. graph_item ?t (de_graph d') = Some r \<and> gr_instance r = Some i))"
    using req guard by (cases rule: dealloc_request_effect) (auto simp: same after_decrement_def)
  from req consider (kept) "graph_table t' = graph_table ?t"
    | (marked) i r where "de_phase ?d = MarkingDeleted i" "graph_item ?t (de_graph ?d) = Some r"
        "t' = put_graph (r\<lparr>gr_status := DbDeleted, gr_dealloc_lock := Some (de_now ?d)\<rparr>) ?t" "de_phase d' = Decrementing i"
    using settled(2,4) [OF mem] by (cases rule: dealloc_request_effect) auto
  then show ?thesis
  proof cases
    case kept
    then have item: "graph_item t' g = graph_item ?t g" for g by (rule graph_item_table)
    show ?thesis unfolding settled_rows_def flight tables item kept
      using here settled calls by blast
  next
    case (marked i r)
    let ?r = "r\<lparr>gr_status := DbDeleted, gr_dealloc_lock := Some (de_now ?d)\<rparr>"
    note free = settled(3) [OF mem marked(1)]
    have key: "gr_graph ?r = de_graph ?d" using graph_item_mem [OF marked(2)] by simp
    note item = put_graph_item [OF marked(2) key, folded marked(3)]
    show ?thesis unfolding settled_rows_def flight tables
    proof (intro conjI ballI impI allI)
      fix c x assume c: "c \<in> set (cl_allocs w)" "uncounted_on (al_phase c) \<noteq> None"
        and x: "x \<in> set (graph_table t')" "gr_graph x = al_graph c"
      from c free have "al_graph c \<noteq> de_graph ?d" by (auto simp: in_flight_def)
      with x key have "x \<in> set (graph_table ?t)" by (auto simp: marked(3) put_graph_def set_update_where)
      from settled(1) [OF c this x(2)] show "gr_status x = DbActive" .
    next
      fix d assume "d \<in> set (cl_deallocs w')"
      then show "de_phase d \<noteq> Unmarking" using calls [of d] here settled(2) by blast
    next
      fix d j assume d: "d \<in> set (cl_deallocs w')" "de_phase d = MarkingDeleted j"
      with calls [of d] marked(4) have old: "d \<in> set (cl_deallocs w)" by auto
      from settled(3) [OF old d(2)] show "\<not> in_flight w (de_graph d)" .
      from settled(4) [OF old d(2)] marked(2) item [of "de_graph d"]
      show "\<exists>r. graph_item t' (de_graph d) = Some r \<and> gr_instance r = Some j" by auto
    qed
  qed
qed

lemma dealloc_turn_keeps:
  assumes "balanced w" "k < length (cl_deallocs w)"
    "de_phase (cl_deallocs w ! k) = ReadingRow \<Longrightarrow> \<not> in_flight w (de_graph (cl_deallocs w ! k))"
  shows "balanced (dealloc_turn cfg False k w)"
proof -
  obtain t' d' where req: "dealloc_request cfg False (cl_tables w) (cl_deallocs w ! k) = (t', d')" by fastforce
  let ?w = "w\<lparr>cl_tables := t', cl_deallocs := (cl_deallocs w)[k := d']\<rparr>"
  have w': "dealloc_turn cfg False k w = ?w" by (simp add: dealloc_turn_def req)
  have "map ir_id (instance_table t') = map ir_id (instance_table (cl_tables w))"
    using req by (cases rule: dealloc_request_effect)
      (auto simp: put_instance_ids put_graph_def split: option.splits)
  with balancedD(2) [OF assms(1)] have "distinct (map ir_id (instance_table t'))" by simp
  moreover have "placed_ok ?w"
    using dealloc_turn_keeps_placed [OF balancedD(1) [OF assms(1)], of cfg False k] by (simp add: w')
  ultimately show ?thesis unfolding w' balanced_def
    using dealloc_turn_counters [OF assms(1,2) req refl] dealloc_turn_settled [OF assms(1,2) req refl assms(3)] by simp
qed

subsection \<open>The capacity of the instances\<close>

lemma balanced_cong:
  assumes "balanced w" "placed_ok w'"
    "graph_table (cl_tables w') = graph_table (cl_tables w)"
    "map (\<lambda>q. (ir_id q, ir_count q, ir_max q)) (instance_table (cl_tables w')) =
     map (\<lambda>q. (ir_id q, ir_count q, ir_max q)) (instance_table (cl_tables w))"
    "\<And>i. uncounted w' i = uncounted w i" "\<And>i. unreleased w' i = unreleased w i" "settled_rows w'"
  shows "balanced w'"
proof -
  have "map fst (map (\<lambda>q. (ir_id q, ir_count q, ir_max q)) (instance_table (cl_tables w'))) = map ir_id (instance_table (cl_tables w))"
    by (simp only: assms(4)) simp
  then have ids: "distinct (map ir_id (instance_table (cl_tables w')))"
    using balancedD(2) [OF assms(1)] by (simp add: comp_def)
  have "counter_ok w' q'" if "q' \<in> set (instance_table (cl_tables w'))" for q'
  proof -
    have "(ir_id q', ir_count q', ir_max q') \<in> set (map (\<lambda>q. (ir_id q, ir_count q, ir_max q)) (instance_table (cl_tables w)))"
      using that by (simp only: assms(4) [symmetric]) auto
    then obtain q where "q \<in> set (instance_table (cl_tables w))" "ir_id q = ir_id q'" "ir_count q = ir_count q'" "ir_max q = ir_max q'"
      by auto
    with balancedD(3) [OF assms(1), of q] assms(3,5,6) show ?thesis by (simp add: counter_ok_def hosted_def)
  qed
  with ids assms(2,7) show ?thesis by (simp add: balanced_def)
qed

lemma cluster_step_keeps_balance:
  assumes "cluster_step cfg False False w w'" "balanced w"
  shows "balanced w'"
proof -
  have placed: "placed_ok w'" using cluster_step_keeps_placed [OF assms(1) balancedD(1) [OF assms(2)]] .
  note settled = balancedD(4) [OF assms(2)]
  from assms(1) show ?thesis
  proof cases
    case (allocate e g new tier now c)
    have c: "uncounted_on (al_phase c) = None" using allocate_database_call [OF allocate(2)] by simp
    have "in_flight w' h = in_flight w h" for h using c by (auto simp: in_flight_def allocate(1))
    then have "settled_rows w'" using settled c unfolding settled_rows_def by (auto simp: allocate(1))
    with c show ?thesis
      by (intro balanced_cong [OF assms(2) placed])
        (simp_all add: allocate(1) uncounted_def unreleased_def count_where_append count_where_def)
  next
    case (deallocate g now)
    have "in_flight w' h = in_flight w h" for h by (simp add: in_flight_def deallocate)
    then have "settled_rows w'" using settled unfolding settled_rows_def
      by (auto simp: deallocate deallocate_database_def)
    then show ?thesis
      by (intro balanced_cong [OF assms(2) placed])
        (simp_all add: deallocate deallocate_database_def uncounted_def unreleased_def count_where_append count_where_def)
  next
    case (health q s')
    have "in_flight w' h = in_flight w h" for h by (simp add: in_flight_def health)
    then have "settled_rows w'" using settled unfolding settled_rows_def
      by (simp add: health put_instance_def graph_item_def)
    moreover have "map (\<lambda>q. (ir_id q, ir_count q, ir_max q)) (update_where (\<lambda>x. ir_id x = ir_id q) (\<lambda>_. q\<lparr>ir_status := s'\<rparr>) rows) =
        map (\<lambda>q. (ir_id q, ir_count q, ir_max q)) rows" if "distinct (map ir_id rows)" "q \<in> set rows" for rows
    proof -
      have "x = q" if "x \<in> set rows" "ir_id x = ir_id q" for x
        using that \<open>distinct (map ir_id rows)\<close> \<open>q \<in> set rows\<close> by (auto simp: distinct_map inj_on_def)
      then show ?thesis by (auto simp: update_where_def)
    qed
    ultimately show ?thesis using health balancedD(2) [OF assms(2)]
      by (intro balanced_cong [OF assms(2) placed])
        (simp_all add: put_instance_def uncounted_def unreleased_def)
  qed (use assms(2) in \<open>auto intro: alloc_turn_keeps dealloc_turn_keeps\<close>)
qed

interpretation counters: step_invariant "cluster_step cfg False False" balanced for cfg
  by unfold_locales (rule cluster_step_keeps_balance)

text \<open>The registries of a cluster at rest: each counter is the number of its live rows.\<close>

definition registries_ok :: "registries \<Rightarrow> bool" where
  "registries_ok t \<longleftrightarrow> distinct (map gr_graph (graph_table t)) \<and> distinct (map ir_id (instance_table t)) \<and>
     list_all (\<lambda>q. ir_count q = int (count_where (live_row (ir_id q)) (graph_table t)) \<and>
       (case ir_max q of None \<Rightarrow> True | Some m \<Rightarrow> ir_count q \<le> m)) (instance_table t)"

abbreviation at_rest :: "registries \<Rightarrow> cluster" where
  "at_rest t \<equiv> \<lparr>cl_tables = t, cl_allocs = [], cl_deallocs = []\<rparr>"

lemma balanced_at_rest: "registries_ok t \<Longrightarrow> balanced (at_rest t)"
  by (auto simp: registries_ok_def balanced_def placed_ok_def settled_rows_def counter_ok_def uncounted_def
      hosted_def unreleased_def count_where_def list_all_iff)


subsection \<open>One allocation from start to end\<close>

text \<open>
  C31. An allocation with nothing in between does what it is for: the chosen instance has room,
  the graph has no row and the instance's volume is attached and without the graph; then the
  allocation places the graph there, its row is the last of the registry, the instance's
  counter goes up by one, the volume lists the database and the instance is protected.
\<close>

theorem allocation_places_graph:
  assumes "allocate_database cfg e g new tier now = Inr c" "\<not> unmanaged cfg"
    and "find_best_instance cfg (current_index t) (instance_table t) tier None = Some i"
    and "graph_item t (al_graph c) = None"
    and "instance_item t (ii_id i) = Some q" "ir_max q = Some m" "ir_count q < m"
    and "attached_volumes t (ii_id i) = v # vs" "ii_id i \<notin> set (protected t)"
  shows "run_alloc cfg (replicate 6 False) t c =
    (\<lparr>graph_table = graph_table t @ [new_row c i],
      instance_table = update_where (\<lambda>x. ir_id x = ii_id i) (\<lambda>_. q\<lparr>ir_count := ir_count q + 1\<rparr>) (instance_table t),
      volume_table = update_where (\<lambda>x. vr_id x = vr_id v \<and> al_graph c \<notin> set (databases_of x))
        (\<lambda>x. x\<lparr>vr_databases := Some (databases_of x @ [al_graph c])\<rparr>) (volume_table t),
      protected = ii_id i # protected t\<rparr>,
     c\<lparr>al_phase := PlacedAt (new_location c i)\<rparr>)"
proof -
  have six: "replicate 6 False = [False, False, False, False, False, False]" by (simp add: numeral_eq_Suc)
  have c: "al_phase c = Choosing 0 None" "al_tier c = tier" using allocate_database_call [OF assms(1)] by auto
  have item: "instance_item (t'\<lparr>instance_table := instance_table t\<rparr>) (ii_id i) = Some q" for t'
    using assms(5) by (simp add: instance_item_def)
  have q: "ir_id q = ii_id i" using instance_item_mem [OF assms(5)] by simp
  have found: "\<exists>x. find_row (\<lambda>r. ir_id r = ii_id i) (update_where (\<lambda>x. ir_id x = ii_id i) (\<lambda>_. q\<lparr>ir_count := ir_count q + 1\<rparr>) (instance_table t)) = Some x"
    using find_keyed_update [of ir_id "q\<lparr>ir_count := ir_count q + 1\<rparr>" "ii_id i" "ii_id i" "instance_table t"] q assms(5)
      instance_item_mem [OF assms(5)] by auto
  have loc: "new_location (next_phase x p) i = new_location x i" "new_row (next_phase x p) i = new_row x i" for x p
    by (simp_all add: new_location_def new_row_def)
  show ?thesis
    using assms c found q
    by (cases t) (auto simp: six alloc_request_def alloc_phase_defs append_database_def protect_instance_def loc
        put_instance_def instance_item_def attached_volumes_def graph_item_def next_phase_def new_location_def new_row_def)
qed

subsection \<open>Refused requests and meeting calls\<close>

text \<open>
  An allocation whose counting request is refused raises, and leaves its row behind: the
  graph occupies a slot of the instance although the call failed, and the instance's counter
  does not show it.
\<close>

theorem refused_count_keeps_the_slot:
  assumes "al_phase c = Putting n i" "graph_item t (al_graph c) = None"
    and "run_alloc cfg [False, True] t c = (t', c')"
  shows "al_phase c' = NotPlaced AllocationClientError \<and> instance_table t' = instance_table t \<and>
    count_allocated_graphs (current_index t') (ii_id i) = count_allocated_graphs (current_index t) (ii_id i) + 1"
  using assms
  by (auto simp: alloc_request_def put_database_def count_database_def count_allocated_graphs_def current_index_def
      count_where_def new_row_def occupying_def)

lemma databases_of_put [simp]: "databases_of (x\<lparr>vr_databases := Some ds\<rparr>) = ds"
  by (simp add: databases_of_def)

text \<open>
  The removal of a database from the volume registry drops an entry that another call
  added in between: a release has read the volume's databases, an allocation appends its
  graph, and the release writes back what it read, so that the allocated graph is missing
  from the registry that instance replacement restores volumes from.
\<close>

theorem volume_removal_drops_concurrent_add:
  assumes "de_phase d = ScanningAttached i" "attached_volumes t i = v # vs" "de_graph d \<in> set (databases_of v)"
    and "al_graph c \<notin> set (databases_of v)" "al_phase c = AppendingDatabase info (vr_id v)"
    and "dealloc_request cfg False t d = (t1, d1)" "alloc_request cfg False idx t1 c = (t2, c1)"
    and "dealloc_request cfg False t2 d1 = (t3, d2)"
    and "x \<in> set (volume_table t3)" "vr_id x = vr_id v" "distinct (map vr_id (volume_table t))"
  shows "al_graph c \<notin> set (databases_of x)"
proof -
  from assms(2) have "v \<in> set (attached_volumes t i)" by simp
  then have v: "v \<in> set (volume_table t)" by (simp add: attached_volumes_def)
  have same: "y = v" if "y \<in> set (volume_table t)" "vr_id y = vr_id v" for y
    using that v assms(11) by (auto simp: distinct_map inj_on_def)
  have d1: "d1 = d\<lparr>de_phase := RemovingDatabase i (vr_id v) (filter (\<lambda>g. g \<noteq> de_graph d) (databases_of v))\<rparr>" "t1 = t"
    using assms(1-3,6) by (auto simp: dealloc_request_def scan_attached_def)
  have "volume_table t2 = update_where (\<lambda>y. vr_id y = vr_id v \<and> al_graph c \<notin> set (databases_of y))
      (\<lambda>y. y\<lparr>vr_databases := Some (databases_of y @ [al_graph c])\<rparr>) (volume_table t)"
    using assms(5,7) d1(2) by (auto simp: alloc_request_def append_database_def)
  then have t2: "y = v\<lparr>vr_databases := Some (databases_of v @ [al_graph c])\<rparr>"
    if "y \<in> set (volume_table t2)" "vr_id y = vr_id v" for y
    using that same assms(4) by (auto simp: set_update_where)
  have "volume_table t3 = update_where (\<lambda>y. vr_id y = vr_id v \<and> de_graph d \<in> set (databases_of y))
      (\<lambda>y. y\<lparr>vr_databases := Some (filter (\<lambda>g. g \<noteq> de_graph d) (databases_of v))\<rparr>) (volume_table t2)"
    using assms(8) d1(1) by (auto simp: dealloc_request_def remove_database_def)
  with assms(3,9,10) have "databases_of x = filter (\<lambda>g. g \<noteq> de_graph d) (databases_of v)"
    by (auto simp: set_update_where dest!: t2)
  with assms(4) show ?thesis by simp
qed

text \<open>
  A release that read the counter of an empty instance removes the scale-in protection that
  an allocation has set in between, and the instance that hosts the new graph is unprotected.
\<close>

lemma late_unprotect_exposes_instance:
  assumes "de_phase d = ReadingCount i" "instance_item t i = Some q" "ir_count q = 0"
    and "dealloc_request cfg False t d = (t1, d1)"
    and "al_phase c = Protecting info" "ii_id info = i" "instance_item t2 i = Some q'"
    and "alloc_request cfg False idx t2 c = (t3, c')" "dealloc_request cfg False t3 d1 = (t4, d2)"
  shows "al_phase c' = PlacedAt (new_location c info) \<and> i \<notin> set (protected t4)"
  using assms
  by (auto simp: dealloc_request_def read_count_def alloc_request_def protect_instance_def unprotect_instance_def
      instance_item_def split: if_splits)

subsection \<open>Examples\<close>

definition ex_cfg :: alloc_config where
  "ex_cfg = \<lparr>ac_environment = ''prod'', ac_max_databases = 10, ac_shared = [''sec'']\<rparr>"

text \<open>One writer for one database, its volume attached and empty.\<close>

definition ex_tables :: registries where
  "ex_tables = \<lparr>graph_table = [],
     instance_table = [\<lparr>ir_id = ''i-1'', ir_ip = ''10.0.0.1'', ir_zone = Some ''a'', ir_status = Healthy,
       ir_cluster_tier = ''ladybug-standard'', ir_tier = None, ir_count = 0, ir_max = Some 1\<rparr>],
     volume_table = [\<lparr>vr_id = ''v-1'', vr_instance = ''i-1'', vr_zone = ''a'', vr_tier = ''ladybug-standard'',
       vr_status = ''attached'', vr_databases = Some [''kg0'']\<rparr>],
     protected = []\<rparr>"

definition ex_call :: "string \<Rightarrow> string \<Rightarrow> int \<Rightarrow> alloc_call" where
  "ex_call e g now = \<lparr>al_entity = e, al_graph = g, al_tier = None, al_now = now, al_phase = Choosing 0 None\<rparr>"

abbreviation ex_info :: instance_info where
  "ex_info \<equiv> \<lparr>ii_id = ''i-1'', ii_ip = ''10.0.0.1'', ii_zone = ''a'', ii_count = 0, ii_max = 1\<rparr>"

lemma ex_allocate:
  "allocate_database ex_cfg ''ann'' (Some ''kg0123456789abcdef'') [] None 7 = Inr (ex_call ''ann'' ''kg0123456789abcdef'' 7)"
  "allocate_database ex_cfg ''bob'' (Some ''kg0123456789abcde0'') [] None 9 = Inr (ex_call ''bob'' ''kg0123456789abcde0'' 9)"
  by code_simp+


lemma allocation_places_graph_witness:
  "al_phase (snd (run_alloc ex_cfg (replicate 6 False) ex_tables (ex_call ''ann'' ''kg0123456789abcdef'' 7))) =
   PlacedAt (new_location (ex_call ''ann'' ''kg0123456789abcdef'' 7) ex_info)"
proof -
  have "find_best_instance ex_cfg (current_index ex_tables) (instance_table ex_tables) None None = Some ex_info"
    "graph_item ex_tables (al_graph (ex_call ''ann'' ''kg0123456789abcdef'' 7)) = None"
    "instance_item ex_tables (ii_id ex_info) = Some (hd (instance_table ex_tables))"
    "ir_max (hd (instance_table ex_tables)) = Some 1" "ir_count (hd (instance_table ex_tables)) < 1"
    "attached_volumes ex_tables (ii_id ex_info) = hd (volume_table ex_tables) # []"
    "ii_id ex_info \<notin> set (protected ex_tables)" "\<not> unmanaged ex_cfg"
    by code_simp+
  from allocation_places_graph [OF ex_allocate(1) this(8,1-7)] show ?thesis by simp
qed

definition race :: "nat \<Rightarrow> cluster" where
  "race n = foldl (\<lambda>w k. alloc_turn ex_cfg False (current_index ex_tables) k w)
     \<lparr>cl_tables = ex_tables, cl_allocs = [ex_call ''ann'' ''kg0123456789abcdef'' 7, ex_call ''bob'' ''kg0123456789abcde0'' 9],
      cl_deallocs = []\<rparr> (take n [0, 1, 0, 1, 0, 0, 0, 0])"

lemma race_reachable: "(cluster_step ex_cfg faulty early)\<^sup>*\<^sup>* (at_rest ex_tables) (race n)"
proof -
  let ?w = "\<lparr>cl_tables = ex_tables, cl_allocs = [ex_call ''ann'' ''kg0123456789abcdef'' 7, ex_call ''bob'' ''kg0123456789abcde0'' 9],
      cl_deallocs = []\<rparr>"
  have "cluster_step ex_cfg faulty early (at_rest ex_tables) (at_rest ex_tables\<lparr>cl_allocs := [ex_call ''ann'' ''kg0123456789abcdef'' 7]\<rparr>)"
    using cluster_step.allocate [OF ex_allocate(1), of faulty early "at_rest ex_tables"] by simp
  moreover have "cluster_step ex_cfg faulty early (at_rest ex_tables\<lparr>cl_allocs := [ex_call ''ann'' ''kg0123456789abcdef'' 7]\<rparr>) ?w"
    using cluster_step.allocate [OF ex_allocate(2), of faulty early "at_rest ex_tables\<lparr>cl_allocs := [ex_call ''ann'' ''kg0123456789abcdef'' 7]\<rparr>"]
    by simp
  ultimately have start: "(cluster_step ex_cfg faulty early)\<^sup>*\<^sup>* (at_rest ex_tables) ?w" by auto
  have turns: "(cluster_step ex_cfg faulty early)\<^sup>*\<^sup>* w (foldl (\<lambda>w k. alloc_turn ex_cfg False (current_index ex_tables) k w) w ks)"
    if "\<forall>k\<in>set ks. k < length (cl_allocs w)" for ks and w :: cluster
    using that
  proof (induction ks arbitrary: w)
    case (Cons k ks)
    let ?v = "alloc_turn ex_cfg False (current_index ex_tables) k w"
    from Cons.prems have "cluster_step ex_cfg faulty early w ?v"
      using cluster_step.alloc [of k w False faulty] by simp
    moreover have "length (cl_allocs ?v) = length (cl_allocs w)" by (simp add: alloc_turn_def split: prod.splits)
    ultimately show ?case using Cons by (auto intro: converse_rtranclp_into_rtranclp)
  qed simp
  have "set (take n [0, 1, 0, 1, 0, 0, 0, 0 :: nat]) \<subseteq> {0, 1}" using set_take_subset [of n] by fastforce
  then have "(cluster_step ex_cfg faulty early)\<^sup>*\<^sup>* ?w (race n)"
    unfolding race_def by (intro turns) auto
  with start show ?thesis by simp
qed


lemma graph_placed_once_witness:
  "\<exists>r. graph_item (cl_tables (race 8)) ''kg0123456789abcdef'' = Some r \<and> gr_entity r = Some ''ann'' \<and> gr_instance r = Some ''i-1''"
proof -
  have "distinct (map gr_graph (graph_table ex_tables))" "0 < length (cl_allocs (race 8))"
    "al_phase (cl_allocs (race 8) ! 0) = PlacedAt (new_location (ex_call ''ann'' ''kg0123456789abcdef'' 7) ex_info)"
    "al_graph (cl_allocs (race 8) ! 0) = ''kg0123456789abcdef''" "al_entity (cl_allocs (race 8) ! 0) = ''ann''"
    "lc_instance (new_location (ex_call ''ann'' ''kg0123456789abcdef'' 7) ex_info) = ''i-1''"
    by code_simp+
  with graph_placed_once [OF race_reachable, of 0 8] show ?thesis by auto
qed

lemma refused_count_keeps_the_slot_witness:
  "case run_alloc ex_cfg [False, True] ex_tables ((ex_call ''ann'' ''kg0123456789abcdef'' 7)\<lparr>al_phase := Putting 0 ex_info\<rparr>) of
     (t', c') \<Rightarrow> al_phase c' = NotPlaced AllocationClientError \<and> count_allocated_graphs (current_index t') ''i-1'' = 1"
proof -
  have "graph_item ex_tables (al_graph ((ex_call ''ann'' ''kg0123456789abcdef'' 7)\<lparr>al_phase := Putting 0 ex_info\<rparr>)) = None"
    "al_phase ((ex_call ''ann'' ''kg0123456789abcdef'' 7)\<lparr>al_phase := Putting 0 ex_info\<rparr>) = Putting 0 ex_info"
    "count_allocated_graphs (current_index ex_tables) (ii_id ex_info) = 0"
    by code_simp+
  with refused_count_keeps_the_slot [OF this(2,1) surjective_pairing] show ?thesis by (auto simp: case_prod_beta)
qed

lemma volume_removal_drops_concurrent_add_witness:
  "let c = (ex_call ''ann'' ''kg0123456789abcdef'' 7)\<lparr>al_phase := AppendingDatabase ex_info ''v-1''\<rparr>;
       d = (deallocate_database ''kg0'' 8)\<lparr>de_phase := ScanningAttached ''i-1''\<rparr>;
       (t1, d1) = dealloc_request ex_cfg False ex_tables d;
       (t2, c1) = alloc_request ex_cfg False (current_index ex_tables) t1 c;
       (t3, d2) = dealloc_request ex_cfg False t2 d1
   in ''kg0123456789abcdef'' \<in> set (databases_of (hd (volume_table t2))) \<and>
      ''kg0123456789abcdef'' \<notin> set (databases_of (hd (volume_table t3)))"
proof -
  let ?c = "(ex_call ''ann'' ''kg0123456789abcdef'' 7)\<lparr>al_phase := AppendingDatabase ex_info ''v-1''\<rparr>"
  let ?d = "(deallocate_database ''kg0'' 8)\<lparr>de_phase := ScanningAttached ''i-1''\<rparr>"
  let ?v = "hd (volume_table ex_tables)"
  define r1 where "r1 = dealloc_request ex_cfg False ex_tables ?d"
  define r2 where "r2 = alloc_request ex_cfg False (current_index ex_tables) (fst r1) ?c"
  define r3 where "r3 = dealloc_request ex_cfg False (fst r2) (snd r1)"
  have s: "de_phase ?d = ScanningAttached ''i-1''" "attached_volumes ex_tables ''i-1'' = ?v # []"
    "de_graph ?d \<in> set (databases_of ?v)" "al_graph ?c \<notin> set (databases_of ?v)"
    "al_phase ?c = AppendingDatabase ex_info (vr_id ?v)" "distinct (map vr_id (volume_table ex_tables))"
    "al_graph ?c = ''kg0123456789abcdef''"
    by code_simp+
  have m: "hd (volume_table (fst r3)) \<in> set (volume_table (fst r3))" "vr_id (hd (volume_table (fst r3))) = vr_id ?v"
    "''kg0123456789abcdef'' \<in> set (databases_of (hd (volume_table (fst r2))))"
    unfolding r3_def r2_def r1_def by code_simp+
  have e: "dealloc_request ex_cfg False ex_tables ?d = (fst r1, snd r1)"
    "alloc_request ex_cfg False (current_index ex_tables) (fst r1) ?c = (fst r2, snd r2)"
    "dealloc_request ex_cfg False (fst r2) (snd r1) = (fst r3, snd r3)"
    by (simp_all add: r1_def r2_def r3_def)
  from volume_removal_drops_concurrent_add [OF s(1-5) e m(1,2) s(6)] s(7) m(3)
  show ?thesis by (simp add: r3_def r2_def r1_def Let_def case_prod_beta)
qed

end
