(* ===== verification/CalcDag.thy ===== *)
theory CalcDag
  imports Complex_Main Prelude "HOL-Library.AList"
begin

text \<open>
  The calculation arcs and the resolution of subtotals
  (\<open>operations/roboledger/reports/calc_dag.py\<close>). A Python dict is an association list in
  insertion order, with \<open>AList.update\<close> as item assignment. Amounts are exact rationals: the
  rounding of floats is not modelled.
\<close>

type_synonym element_id = string
type_synonym amounts = "(element_id \<times> rat) list"
type_synonym calculations = "(element_id \<times> (element_id \<times> rat) list) list"

text \<open>\<open>d.get(k, 0.0)\<close>, and the children of a parent (none without arcs).\<close>

definition amount :: "amounts \<Rightarrow> element_id \<Rightarrow> rat" where
  "amount m e = (case map_of m e of None \<Rightarrow> 0 | Some v \<Rightarrow> v)"

definition children :: "calculations \<Rightarrow> element_id \<Rightarrow> (element_id \<times> rat) list" where
  "children calcs e = (case map_of calcs e of None \<Rightarrow> [] | Some cs \<Rightarrow> cs)"

definition targets :: "calculations \<Rightarrow> element_id set" where
  "targets calcs = set (map fst calcs)"

definition sources :: "calculations \<Rightarrow> element_id \<Rightarrow> element_id list" where
  "sources calcs e = map fst (children calcs e)"

text \<open>The arcs of the standard, in order, each pair once; an arc without a weight counts once.\<close>

fun add_arc :: "calculations \<times> (element_id \<times> element_id) list \<Rightarrow> element_id \<times> element_id \<times> rat option \<Rightarrow>
    calculations \<times> (element_id \<times> element_id) list" where
  "add_arc (calcs, seen) (p, c, w) =
     (if (p, c) \<in> set seen then (calcs, seen)
      else (AList.update p (children calcs p @ [(c, case w of None \<Rightarrow> 1 | Some x \<Rightarrow> x)]) calcs, (p, c) # seen))"

definition load_rs_gaap_calculations :: "(element_id \<times> element_id \<times> rat option) list \<Rightarrow> calculations" where
  "load_rs_gaap_calculations rows = fst (foldl add_arc ([], []) rows)"

definition merge_calculations :: "calculations \<Rightarrow> calculations \<Rightarrow> calculations" where
  "merge_calculations global local = foldl (\<lambda>m (p, cs). AList.update p cs m) global local"

subsection \<open>The order of the subtotals\<close>

text \<open>
  Kahn's algorithm. \<open>ts\<close> is the set of the targets in the order the interpreter iterates it;
  the dependencies are kept in that order too.
\<close>

definition initial_deps :: "element_id list \<Rightarrow> calculations \<Rightarrow> (element_id \<times> element_id list) list" where
  "initial_deps ts calcs = map (\<lambda>t. (t, filter (\<lambda>s. s \<in> set ts) (sources calcs t))) ts"

definition drop_dep :: "element_id \<Rightarrow> (element_id \<times> element_id list) list \<Rightarrow> (element_id \<times> element_id list) list" where
  "drop_dep n deps = map (\<lambda>(t, ds). (t, removeAll n ds)) deps"

definition newly_ready :: "element_id \<Rightarrow> element_id list \<Rightarrow> element_id list \<Rightarrow> (element_id \<times> element_id list) list \<Rightarrow> element_id list" where
  "newly_ready n ordered ready deps =
     map fst (filter (\<lambda>(t, ds). n \<in> set ds \<and> removeAll n ds = [] \<and> t \<notin> set ordered \<and> t \<notin> set ready) deps)"

definition waiting :: "(element_id \<times> element_id list) list \<Rightarrow> nat" where
  "waiting deps = count_where (\<lambda>d. snd d \<noteq> []) deps"

lemma waiting_drop:
  "waiting (drop_dep n deps) + length (newly_ready n ordered ready deps) \<le> waiting deps"
  by (induction deps) (auto simp: waiting_def count_where_def drop_dep_def newly_ready_def)

function kahn :: "element_id list \<Rightarrow> element_id list \<Rightarrow> (element_id \<times> element_id list) list \<Rightarrow> element_id list" where
  "kahn [] ordered deps = ordered"
| "kahn (n # ready) ordered deps =
     kahn (ready @ newly_ready n (ordered @ [n]) ready deps) (ordered @ [n]) (drop_dep n deps)"
  by pat_completeness auto

termination kahn
proof (relation "measure (\<lambda>(ready, ordered, deps). length ready + waiting deps)")
  fix n ready ordered and deps :: "(element_id \<times> element_id list) list"
  show "((ready @ newly_ready n (ordered @ [n]) ready deps, ordered @ [n], drop_dep n deps), n # ready, ordered, deps)
      \<in> measure (\<lambda>(ready, ordered, deps). length ready + waiting deps)"
    using waiting_drop [of n deps "ordered @ [n]" ready] by simp
qed simp

definition topo_sort_calculations :: "element_id list \<Rightarrow> calculations \<Rightarrow> element_id list" where
  "topo_sort_calculations ts calcs =
     (let deps = initial_deps ts calcs;
          ordered = kahn (map fst (filter (\<lambda>d. snd d = []) deps)) [] deps
      in ordered @ filter (\<lambda>t. t \<notin> set ordered) ts)"

subsection \<open>Resolution\<close>

definition weighted :: "(element_id \<Rightarrow> rat) \<Rightarrow> (element_id \<times> rat) list \<Rightarrow> rat" where
  "weighted f cs = sum_list (map (\<lambda>(s, w). f s * w) cs)"

text \<open>A direct fact wins over the sum of the children, by presence.\<close>

definition resolve_step :: "element_id set \<Rightarrow> calculations \<Rightarrow> amounts \<Rightarrow> element_id \<Rightarrow> amounts" where
  "resolve_step present calcs m e =
     AList.update e (if e \<in> present then amount m e else weighted (amount m) (children calcs e)) m"

definition resolve_calc_dag :: "amounts \<Rightarrow> element_id set \<Rightarrow> calculations \<Rightarrow> element_id list \<Rightarrow> amounts" where
  "resolve_calc_dag balances present calcs order = foldl (resolve_step present calcs) balances order"

end
