(* ===== verification/Forecast.thy ===== *)
theory Forecast
  imports CalcDag Rules "HOL-Library.Product_Lexorder"
begin

text \<open>
  The forward months of a scenario: the balance-sheet roll, the schedule projection and the
  derived cash flow (\<open>operations/information_block/forecast_articulation.py\<close>), and the walk
  that computes month after month (\<open>forecast_compute.py\<close>). A month key is its \<open>YYYY-MM\<close> text;
  a set of ids is the list in the order the interpreter iterates it.
\<close>

subsection \<open>Schedule projection\<close>

text \<open>One row of the join of schedule facts with the mapping to statement elements.\<close>

record schedule_row =
  sr_set :: string
  sr_value :: rat
  sr_end :: pdate
  sr_instant :: bool
  sr_source :: element_id
  sr_target :: element_id
  sr_qname :: string
  sr_class :: "string option"
  sr_source_class :: "string option"

record schedule_projection =
  sp_duration :: "(element_id \<times> (string \<times> rat) list) list"
  sp_instant :: "((string \<times> element_id) \<times> (pdate \<times> rat) list) list"
  sp_unrouted :: "string list"

definition contra :: "string option \<Rightarrow> bool" where
  "contra c \<longleftrightarrow> c = Some ''contraAsset'' \<or> c = Some ''contraLiability'' \<or> c = Some ''contraEquity''"

definition ppe_route :: "string \<Rightarrow> rat option" where
  "ppe_route q =
     (if q = ''rs-gaap:PropertyPlantAndEquipmentGross'' then Some 1
      else if q = ''rs-gaap:AccumulatedDepreciationDepletionAndAmortizationPropertyPlantAndEquipment'' then Some (- 1)
      else None)"

text \<open>\<open>d.get(k, 0.0)\<close> of a nested dict, and \<open>d[k] = d.get(k, 0.0) + v\<close>.\<close>

definition get0 :: "('k \<times> rat) list \<Rightarrow> 'k \<Rightarrow> rat" where
  "get0 m k = (case map_of m k of None \<Rightarrow> 0 | Some v \<Rightarrow> v)"

definition bump :: "'k \<Rightarrow> rat \<Rightarrow> ('k \<times> rat) list \<Rightarrow> ('k \<times> rat) list" where
  "bump k v m = AList.update k (get0 m k + v) m"

definition bump_in :: "'a \<Rightarrow> 'k \<Rightarrow> rat \<Rightarrow> ('a \<times> ('k \<times> rat) list) list \<Rightarrow> ('a \<times> ('k \<times> rat) list) list" where
  "bump_in a k v m = AList.update a (bump k v (case map_of m a of None \<Rightarrow> [] | Some x \<Rightarrow> x)) m"

text \<open>The primary target of a source: the first by trait, then by name.\<close>

primrec first_by :: "('a \<Rightarrow> 'b::linorder) \<Rightarrow> 'a list \<Rightarrow> 'a option" where
  "first_by k [] = None"
| "first_by k (x # xs) =
     (case first_by k xs of None \<Rightarrow> Some x | Some y \<Rightarrow> if k y < k x then Some y else Some x)"

definition primary_target :: "schedule_row list \<Rightarrow> element_id \<Rightarrow> (element_id \<times> string) option" where
  "primary_target rows src =
     map_option (\<lambda>r. (sr_target r, sr_qname r))
       (first_by (\<lambda>r. (sr_class r = None, sr_qname r)) (filter (\<lambda>r. sr_source r = src) rows))"

definition route_instant :: "element_id list \<Rightarrow> element_id option \<Rightarrow> schedule_row \<Rightarrow> (element_id \<times> rat) option" where
  "route_instant base_bs ppe_net r =
     (if sr_target r \<in> set base_bs
      then Some (sr_target r, if contra (sr_source_class r) \<noteq> contra (sr_class r) then - 1 else 1)
      else case ppe_route (sr_qname r) of
        None \<Rightarrow> None
      | Some w \<Rightarrow> (case ppe_net of None \<Rightarrow> None
          | Some n \<Rightarrow> if n \<in> set base_bs then Some (n, w) else None))"

definition month_key :: "pdate \<Rightarrow> string" where
  "month_key d = fmt_d 4 (yr d) @ ''-'' @ fmt_d 2 (mo d)"

definition project_row :: "element_id list \<Rightarrow> element_id list \<Rightarrow> element_id option \<Rightarrow> schedule_row list \<Rightarrow>
    schedule_projection \<Rightarrow> schedule_row \<Rightarrow> schedule_projection" where
  "project_row base_is base_bs ppe_net rows p r =
     (if primary_target rows (sr_source r) \<noteq> Some (sr_target r, sr_qname r) then p
      else if sr_instant r then
        (case route_instant base_bs ppe_net r of
           None \<Rightarrow> p\<lparr>sp_unrouted := sr_qname r # sp_unrouted p\<rparr>
         | Some (e, w) \<Rightarrow> p\<lparr>sp_instant := bump_in (sr_set r, e) (sr_end r) (w * sr_value r) (sp_instant p)\<rparr>)
      else if sr_target r \<notin> set base_is then p\<lparr>sp_unrouted := sr_qname r # sp_unrouted p\<rparr>
      else p\<lparr>sp_duration := bump_in (sr_target r) (month_key (sr_end r)) (sr_value r) (sp_duration p)\<rparr>)"

definition load_schedule_projection :: "bool \<Rightarrow> element_id list \<Rightarrow> element_id list \<Rightarrow> element_id option \<Rightarrow>
    schedule_row list \<Rightarrow> schedule_projection" where
  "load_schedule_projection mapped base_is base_bs ppe_net rows =
     (let empty = \<lparr>sp_duration = [], sp_instant = [], sp_unrouted = []\<rparr>;
          p = (if mapped then foldl (project_row base_is base_bs ppe_net rows) empty rows else empty)
      in p\<lparr>sp_unrouted := sort (remdups (sp_unrouted p))\<rparr>)"

subsection \<open>The articulation context\<close>

record articulation =
  cx_has_cf :: bool
  cx_base_bs :: "element_id list"
  cx_cash :: "element_id option"
  cx_re :: "element_id option"
  cx_ni :: "element_id option"
  cx_assets :: "element_id option"
  cx_le :: "element_id option"
  cx_net_change :: "element_id option"
  cx_recon :: "element_id option"
  cx_operating :: "element_id option"
  cx_investing :: "element_id option"
  cx_financing :: "element_id option"
  cx_derivations :: "(element_id \<times> (element_id \<times> rat) list) list"
  cx_schedules :: schedule_projection

text \<open>The first candidate with a fact in the base set, else the first that resolves.\<close>

definition anchor_with_base_fact :: "(string \<rightharpoonup> element_id) \<Rightarrow> element_id list \<Rightarrow> string list \<Rightarrow> element_id option" where
  "anchor_with_base_fact specials base candidates =
     (let resolved = List.map_filter specials candidates in
      case filter (\<lambda>e. e \<in> set base) resolved of
        e # _ \<Rightarrow> Some e
      | [] \<Rightarrow> (case resolved of [] \<Rightarrow> None | e # _ \<Rightarrow> Some e))"

definition cash_candidates :: "string list" where
  "cash_candidates = [''rs-gaap:Cash'', ''rs-gaap:CashAndCashEquivalents'', ''rs-gaap:CashAndCashEquivalentsAtCarryingValue'',
     ''rs-gaap:CashCashEquivalentsAndShortTermInvestments'',
     ''rs-gaap:CashCashEquivalentsRestrictedCashAndRestrictedCashEquivalents'']"

definition re_candidates :: "string list" where
  "re_candidates = [''rs-gaap:RetainedEarningsAccumulatedDeficit'', ''rs-gaap:PartnersCapital'', ''rs-gaap:MembersEquity'']"

text \<open>The derivation arcs of the library, with the alias for accounts payable.\<close>

definition add_derivation :: "(element_id \<times> (element_id \<times> rat) list) list \<Rightarrow> element_id \<times> element_id \<times> rat option \<Rightarrow>
    (element_id \<times> (element_id \<times> rat) list) list" where
  "add_derivation d a =
     (case a of (cf, src, w) \<Rightarrow>
        AList.update cf (children d cf @ [(src, case w of None \<Rightarrow> 1 | Some x \<Rightarrow> if x = 0 then 1 else x)]) d)"

definition load_operating_derivations :: "(element_id \<times> element_id \<times> rat option) list \<Rightarrow>
    (element_id \<times> (element_id \<times> rat) list) list" where
  "load_operating_derivations rows = foldl add_derivation [] rows"

definition ap_alias :: "(string \<rightharpoonup> element_id) \<Rightarrow> (element_id \<times> (element_id \<times> rat) list) list \<Rightarrow>
    (element_id \<times> (element_id \<times> rat) list) list" where
  "ap_alias specials d =
     (case (specials ''rs-gaap:IncreaseDecreaseInAccountsPayableAndAccruedLiabilities'',
            specials ''rs-gaap:AccountsPayableCurrent'') of
        (Some leaf, Some src) \<Rightarrow>
          (if src \<in> fst ` set (children d leaf) then AList.update leaf (children d leaf) d
           else AList.update leaf (children d leaf @ [(src, 1)]) d)
      | _ \<Rightarrow> d)"

definition load_articulation_context :: "(string \<rightharpoonup> element_id) \<Rightarrow> bool \<Rightarrow> element_id list \<Rightarrow>
    (element_id \<times> element_id \<times> rat option) list \<Rightarrow> schedule_projection \<Rightarrow> articulation" where
  "load_articulation_context specials has_cf base_bs arcs schedules =
     \<lparr>cx_has_cf = has_cf, cx_base_bs = base_bs,
      cx_cash = anchor_with_base_fact specials base_bs cash_candidates,
      cx_re = anchor_with_base_fact specials base_bs re_candidates,
      cx_ni = specials ''rs-gaap:NetIncomeLoss'',
      cx_assets = specials ''rs-gaap:Assets'',
      cx_le = specials ''rs-gaap:LiabilitiesAndStockholdersEquity'',
      cx_net_change = specials ''rs-gaap:CashAndCashEquivalentsPeriodIncreaseDecrease'',
      cx_recon = specials ''rs-gaap:IncreaseDecreaseInOtherOperatingCapitalNet'',
      cx_operating = specials ''rs-gaap:NetCashProvidedByUsedInOperatingActivities'',
      cx_investing = specials ''rs-gaap:NetCashProvidedByUsedInInvestingActivities'',
      cx_financing = specials ''rs-gaap:NetCashProvidedByUsedInFinancingActivities'',
      cx_derivations = ap_alias specials (load_operating_derivations arcs),
      cx_schedules = schedules\<rparr>"

subsection \<open>Schedule movements\<close>

definition schedule_is_delta :: "articulation \<Rightarrow> element_id \<Rightarrow> string \<Rightarrow> string \<Rightarrow> rat" where
  "schedule_is_delta ctx e month reference =
     (case map_of (sp_duration (cx_schedules ctx)) e of
        None \<Rightarrow> 0
      | Some per_month \<Rightarrow> get0 per_month month - get0 per_month reference)"

text \<open>A set without an instant this month contributes nothing.\<close>

definition set_movement :: "pdate \<Rightarrow> pdate \<Rightarrow> (pdate \<times> rat) list \<Rightarrow> rat" where
  "set_movement month_end prev_end by_date =
     (case map_of by_date month_end of None \<Rightarrow> 0 | Some v \<Rightarrow> v - get0 by_date prev_end)"

definition schedule_instant_movement :: "articulation \<Rightarrow> element_id \<Rightarrow> pdate \<Rightarrow> pdate \<Rightarrow> rat" where
  "schedule_instant_movement ctx e month_end prev_end =
     sum_list (map (\<lambda>(k, by_date). if snd k = e then set_movement month_end prev_end by_date else 0)
       (sp_instant (cx_schedules ctx)))"

subsection \<open>The balance sheet\<close>

definition carried_line :: "articulation \<Rightarrow> amounts \<Rightarrow> amounts \<Rightarrow> element_id list \<Rightarrow> calculations \<Rightarrow> amounts \<Rightarrow> element_id \<Rightarrow> amounts" where
  "carried_line ctx prior rules rule_targets calcs bs e =
     (if e \<in> targets calcs \<or> Some e = cx_cash ctx \<or> Some e = cx_re ctx then bs
      else if e \<in> set rule_targets \<and> e \<in> fst ` set rules then AList.update e (amount rules e) bs
      else AList.update e (amount prior e) bs)"

definition rule_line :: "amounts \<Rightarrow> calculations \<Rightarrow> amounts \<Rightarrow> element_id \<Rightarrow> amounts" where
  "rule_line rules calcs bs e =
     (if e \<in> fst ` set rules \<and> e \<notin> fst ` set bs \<and> e \<notin> targets calcs then AList.update e (amount rules e) bs else bs)"

definition roll_lines :: "articulation \<Rightarrow> pdate \<Rightarrow> pdate \<Rightarrow> amounts \<Rightarrow> amounts \<Rightarrow> element_id list \<Rightarrow> amounts \<Rightarrow> calculations \<Rightarrow> amounts" where
  "roll_lines ctx month_end prev_end prior rules rule_targets is_values calcs =
     (let bs = foldl (carried_line ctx prior rules rule_targets calcs) [] (cx_base_bs ctx);
          bs = foldl (rule_line rules calcs) bs rule_targets;
          bs = map (\<lambda>(e, v). (e, v + schedule_instant_movement ctx e month_end prev_end)) bs
      in case cx_re ctx of
           None \<Rightarrow> bs
         | Some re \<Rightarrow>
             AList.update re (amount prior re +
               (case cx_ni ctx of None \<Rightarrow> 0 | Some ni \<Rightarrow> if ni = [] then 0 else amount is_values ni)) bs)"

definition roll_balance_sheet :: "articulation \<Rightarrow> pdate \<Rightarrow> pdate \<Rightarrow> amounts \<Rightarrow> amounts \<Rightarrow> element_id list \<Rightarrow> amounts \<Rightarrow>
    calculations \<Rightarrow> element_id list \<Rightarrow> amounts" where
  "roll_balance_sheet ctx month_end prev_end prior rules rule_targets is_values calcs order =
     (let bs = roll_lines ctx month_end prev_end prior rules rule_targets is_values calcs in
      case cx_cash ctx of
        None \<Rightarrow> bs
      | Some cash \<Rightarrow>
          if truthy (cx_le ctx) \<and> truthy (cx_assets ctx) then
            let interim = resolve_calc_dag bs (fst ` set bs) calcs order
            in AList.update cash (amount interim (the (cx_le ctx)) - amount interim (the (cx_assets ctx))) bs
          else bs)"

subsection \<open>The cash flow\<close>

definition reconcile_tolerance :: rat where
  "reconcile_tolerance = 1 / 200"

definition leaf_value :: "amounts \<Rightarrow> amounts \<Rightarrow> amounts \<Rightarrow> element_id \<times> (element_id \<times> rat) list \<Rightarrow> rat" where
  "leaf_value bs prior is_values d =
     (if fst d \<in> fst ` set is_values then amount is_values (fst d)
      else weighted (\<lambda>s. amount bs s - amount prior s) (snd d))"

definition cash_flow_leaves :: "articulation \<Rightarrow> amounts \<Rightarrow> amounts \<Rightarrow> amounts \<Rightarrow> amounts" where
  "cash_flow_leaves ctx bs prior is_values =
     (let cf = foldl (\<lambda>m d. if leaf_value bs prior is_values d \<noteq> 0
                            then AList.update (fst d) (leaf_value bs prior is_values d) m else m) [] (cx_derivations ctx)
      in case cx_ni ctx of
           None \<Rightarrow> cf
         | Some ni \<Rightarrow> if ni \<in> fst ` set is_values then AList.update ni (amount is_values ni) cf else cf)"

definition plugged_leaves :: "articulation \<Rightarrow> amounts \<Rightarrow> amounts \<Rightarrow> calculations \<Rightarrow> element_id list \<Rightarrow> amounts \<Rightarrow> amounts \<times> rat" where
  "plugged_leaves ctx bs prior calcs order cf =
     (case (cx_cash ctx, cx_net_change ctx) of
        (Some cash, Some net) \<Rightarrow>
          (let residual = amount bs cash - amount prior cash - amount (resolve_calc_dag cf (fst ` set cf) calcs order) net
           in case cx_recon ctx of
                Some recon \<Rightarrow>
                  if reconcile_tolerance < \<bar>residual\<bar> then (AList.update recon (amount cf recon + residual) cf, residual)
                  else (cf, 0)
              | None \<Rightarrow> (cf, 0))
      | _ \<Rightarrow> (cf, 0))"

definition put_subtotal :: "bool \<Rightarrow> amounts \<Rightarrow> amounts \<Rightarrow> element_id option \<Rightarrow> amounts" where
  "put_subtotal always final cf s =
     (case s of None \<Rightarrow> cf
      | Some e \<Rightarrow> if always \<or> amount final e \<noteq> 0 then AList.update e (amount final e) cf else cf)"

definition derive_cash_flow :: "articulation \<Rightarrow> amounts \<Rightarrow> amounts \<Rightarrow> amounts \<Rightarrow> calculations \<Rightarrow> element_id list \<Rightarrow> amounts \<times> rat" where
  "derive_cash_flow ctx bs prior is_values calcs order =
     (let (cf, plug) = plugged_leaves ctx bs prior calcs order (cash_flow_leaves ctx bs prior is_values);
          final = resolve_calc_dag cf (fst ` set cf) calcs order;
          cf = foldl (put_subtotal True final) cf [cx_operating ctx, cx_net_change ctx];
          cf = foldl (put_subtotal False final) cf [cx_investing ctx, cx_financing ctx]
      in (cf, plug))"

end
