(* ===== verification/ForecastWalk.thy ===== *)
theory ForecastWalk
  imports Forecast Texts
begin

text \<open>
  The walk of a scenario (\<open>operations/information_block/forecast_compute.py\<close>): the month it
  starts from, the owners of each line of a month, driver rules and the push-down of their
  values, the statements a month emits, and the fact sets of the scenario.
  Parameters of the model: the parser of rule expressions, the elements of the library and
  the verdict of the rule engine on an emitted month.
\<close>

subsection \<open>Fact sets\<close>

record statement_set =
  ss_id :: string
  ss_structure :: string
  ss_type :: string
  ss_entity :: string
  ss_start :: pdate
  ss_end :: pdate
  ss_scenario :: "string option"
  ss_report :: "string option"
  ss_created :: int
  ss_facts :: amounts

text \<open>\<open>ORDER BY report_id IS NOT NULL, created_at DESC LIMIT 1\<close>.\<close>

definition actual_set_at :: "statement_set list \<Rightarrow> string \<Rightarrow> string \<Rightarrow> pdate \<Rightarrow> pdate \<Rightarrow> bool \<Rightarrow> statement_set option" where
  "actual_set_at sets structure entity start end canonical =
     first_by (\<lambda>f. (ss_report f \<noteq> None, - ss_created f))
       (filter (\<lambda>f. ss_structure f = structure \<and> ss_type f = ''report'' \<and> ss_scenario f = None \<and> ss_entity f = entity \<and>
          ss_end f = end \<and> start \<le> ss_start f \<and> (canonical \<longrightarrow> ss_report f = None)) sets)"

definition newest_actual_month :: "statement_set list \<Rightarrow> string \<Rightarrow> string \<Rightarrow> string option" where
  "newest_actual_month sets structure entity =
     (case filter (\<lambda>f. ss_structure f = structure \<and> ss_type f = ''report'' \<and> ss_scenario f = None \<and>
        ss_report f = None \<and> ss_entity f = entity) sets of
        [] \<Rightarrow> None
      | f # fs \<Rightarrow> Some (month_key (foldl max (ss_end f) (map ss_end fs))))"

text \<open>A month that carries the close-stamped sets the walk needs.\<close>

definition closed_month :: "statement_set list \<Rightarrow> string \<Rightarrow> string option \<Rightarrow> string \<Rightarrow> pdate \<times> pdate \<Rightarrow> bool" where
  "closed_month sets is_structure bs_structure entity w \<longleftrightarrow>
     actual_set_at sets is_structure entity (fst w) (snd w) True \<noteq> None \<and>
     (case bs_structure of None \<Rightarrow> True | Some b \<Rightarrow> actual_set_at sets b entity (fst w) (snd w) True \<noteq> None)"

text \<open>The scan from the end of the horizon back to the month after the base.\<close>

primrec scan_anchor :: "statement_set list \<Rightarrow> string \<Rightarrow> string option \<Rightarrow> string \<Rightarrow> string \<Rightarrow> string \<Rightarrow> nat \<Rightarrow> period_error + string" where
  "scan_anchor sets is_s bs_s entity newest base 0 = Inr base"
| "scan_anchor sets is_s bs_s entity newest base (Suc n) =
     bindR (add_months base (int (Suc n))) (\<lambda>month.
       if newest < month then scan_anchor sets is_s bs_s entity newest base n
       else bindR (period_date_range month) (\<lambda>w.
         if closed_month sets is_s bs_s entity w then Inr month
         else scan_anchor sets is_s bs_s entity newest base n))"

definition resolve_anchor_period :: "statement_set list \<Rightarrow> string \<Rightarrow> nat \<Rightarrow> string \<Rightarrow> string option \<Rightarrow> string \<Rightarrow> period_error + string" where
  "resolve_anchor_period sets base horizon is_s bs_s entity =
     (case newest_actual_month sets is_s entity of
        None \<Rightarrow> Inr base
      | Some newest \<Rightarrow> scan_anchor sets is_s bs_s entity newest base horizon)"

subsection \<open>Elements and driver rules\<close>

record element =
  el_id :: element_id
  el_qname :: "string option"
  el_period :: string

definition element_of :: "element list \<Rightarrow> element_id \<Rightarrow> element option" where
  "element_of els e = find_row (\<lambda>x. el_id x = e) els"

definition element_by_qname :: "element list \<Rightarrow> string \<Rightarrow> element option" where
  "element_by_qname els q = find_row (\<lambda>x. el_qname x = Some q) els"

text \<open>A stored rule: its variables are dicts of a name and a qname, either may be missing.\<close>

record driver_rule =
  dr_id :: string
  dr_variables :: "(string option \<times> string option) list"
  dr_target :: "element_id option"
  dr_expression :: string

record active_rule =
  ar_id :: string
  ar_target :: element
  ar_qnames :: "(string \<times> string) list"
  ar_operands :: "string list"
  ar_expression :: string

datatype skip_reason =
    NoResolvableTarget
  | RunOffClamped
  | GrowthDisplaced
  | DisplacedByAssertion
  | DisplacedByChildren
  | ExpressionError rule_error
  | LhsNotSingle "string list"
  | UnboundOperands "string list"
  | EvaluationError rule_error

record skipped_line =
  sk_rule :: "string option"
  sk_qname :: "string option"
  sk_period :: string
  sk_reason :: skip_reason

definition driver_prefix :: string where
  "driver_prefix = ''rs-driver:''"

definition rule_qnames :: "driver_rule \<Rightarrow> (string \<times> string) list" where
  "rule_qnames r = foldl (\<lambda>m v. case v of (Some n, Some q) \<Rightarrow> AList.update n q m | _ \<Rightarrow> m) [] (dr_variables r)"

text \<open>A rule is active when it names levers and each of them has asserted values.\<close>

definition activate_rule :: "element list \<Rightarrow> (string \<times> (string \<times> rat) list) list \<Rightarrow> string \<Rightarrow> driver_rule \<Rightarrow>
    (skipped_line + active_rule) option" where
  "activate_rule els levers anchor r =
     (if \<exists>v\<in>set (dr_variables r). \<not> truthy (fst v) then None
      else
        let qs = rule_qnames r; lever_qs = filter (has_prefix driver_prefix) (map snd qs) in
        if lever_qs = [] \<or> (\<exists>q\<in>set lever_qs. q \<notin> fst ` set levers) then None
        else case (if truthy (dr_target r) then element_of els (the (dr_target r)) else None) of
          None \<Rightarrow> Some (Inl \<lparr>sk_rule = Some (dr_id r), sk_qname = None, sk_period = anchor, sk_reason = NoResolvableTarget\<rparr>)
        | Some t \<Rightarrow> Some (Inr \<lparr>ar_id = dr_id r, ar_target = t, ar_qnames = qs,
            ar_operands = List.map_filter fst (dr_variables r), ar_expression = dr_expression r\<rparr>))"

definition active_rules :: "element list \<Rightarrow> (string \<times> (string \<times> rat) list) list \<Rightarrow> string \<Rightarrow> driver_rule list \<Rightarrow> active_rule list" where
  "active_rules els levers anchor rs =
     List.map_filter (\<lambda>r. case activate_rule els levers anchor r of Some (Inr a) \<Rightarrow> Some a | _ \<Rightarrow> None) rs"

text \<open>A later rule replaces an earlier one with the same target name.\<close>

definition by_target :: "active_rule list \<Rightarrow> (string \<times> active_rule) list" where
  "by_target ars = foldl (\<lambda>m a. if truthy (el_qname (ar_target a)) then AList.update (the (el_qname (ar_target a))) a m else m) [] ars"

definition rule_dependencies :: "active_rule list \<Rightarrow> calculations" where
  "rule_dependencies ars =
     foldl (\<lambda>m a. case el_qname (ar_target a) of
         None \<Rightarrow> m
       | Some t \<Rightarrow> if t = [] then m else AList.update t
           (map (\<lambda>q. (q, 1)) (remdups (filter (\<lambda>q. q \<noteq> t \<and> q \<in> fst ` set (by_target ars)) (map snd (ar_qnames a))))) m) [] ars"

definition ordered_active :: "string list \<Rightarrow> active_rule list \<Rightarrow> active_rule list" where
  "ordered_active ts ars = List.map_filter (map_of (by_target ars)) (topo_sort_calculations ts (rule_dependencies ars))"

subsection \<open>Walks over the arcs\<close>

definition build_parents_by_child :: "calculations \<Rightarrow> (element_id \<times> element_id list) list" where
  "build_parents_by_child calcs =
     foldl (\<lambda>m (p, cs). foldl (\<lambda>m c. AList.update (fst c) ((case map_of m (fst c) of None \<Rightarrow> [] | Some ps \<Rightarrow> ps) @ [p]) m) m cs)
       [] calcs"

definition parents_of :: "(element_id \<times> element_id list) list \<Rightarrow> element_id \<Rightarrow> element_id list" where
  "parents_of m e = (case map_of m e of None \<Rightarrow> [] | Some ps \<Rightarrow> ps)"

text \<open>The stack is taken from its end, which is the head of the list here.\<close>

definition new_parents :: "element_id list \<Rightarrow> element_id list \<Rightarrow> element_id list" where
  "new_parents closure ps = remdups (filter (\<lambda>p. p \<notin> set closure) ps)"

lemma parents_of_bound: "set (parents_of m e) \<subseteq> set (concat (map snd m))"
proof (cases "map_of m e")
  case (Some ps)
  then have "(e, ps) \<in> set m" by (rule map_of_SomeD)
  with Some show ?thesis by (force simp: parents_of_def)
qed (simp add: parents_of_def)

function closure_loop :: "(element_id \<times> element_id list) list \<Rightarrow> element_id list \<Rightarrow> element_id list \<Rightarrow> element_id list" where
  "closure_loop m [] closure = closure"
| "closure_loop m (e # stack) closure =
     closure_loop m (rev (new_parents closure (parents_of m e)) @ stack) (closure @ new_parents closure (parents_of m e))"
  by pat_completeness auto

termination closure_loop
proof (relation "measures [\<lambda>(m, stack, closure). card (set (concat (map snd m)) - set closure), \<lambda>(m, stack, closure). length stack]")
  fix m :: "(element_id \<times> element_id list) list" and e stack closure
  let ?new = "new_parents closure (parents_of m e)"
  show "((m, rev ?new @ stack, closure @ ?new), m, e # stack, closure)
      \<in> measures [\<lambda>(m, stack, closure). card (set (concat (map snd m)) - set closure), \<lambda>(m, stack, closure). length stack]"
  proof (cases "?new = []")
    case False
    then obtain p where "p \<in> set ?new" by (cases ?new) auto
    moreover have "set ?new \<subseteq> set (concat (map snd m)) - set closure"
      using parents_of_bound [of m e] by (auto simp: new_parents_def)
    ultimately have "set (concat (map snd m)) - set (closure @ ?new) \<subset> set (concat (map snd m)) - set closure"
      by (simp only: set_append) blast
    then have "card (set (concat (map snd m)) - set (closure @ ?new)) < card (set (concat (map snd m)) - set closure)"
      by (intro psubset_card_mono) simp_all
    then show ?thesis by simp
  qed simp
qed simp

definition ancestor_closure :: "element_id list \<Rightarrow> (element_id \<times> element_id list) list \<Rightarrow> element_id list" where
  "ancestor_closure seeds m = closure_loop m (rev seeds) []"

text \<open>
  Whether every valued element under a target is pinned: the stack walk, with its set of
  seen elements. Each turn of the loop that goes on adds an element to the seen ones.
\<close>

function pinned_loop :: "calculations \<Rightarrow> amounts \<Rightarrow> element_id list \<Rightarrow> element_id list \<Rightarrow> element_id list \<Rightarrow> bool \<Rightarrow> bool" where
  "pinned_loop calcs current asserted [] seen has_value = has_value"
| "pinned_loop calcs current asserted (e # stack) seen has_value =
     (if e \<in> set seen then pinned_loop calcs current asserted stack seen has_value
      else if e \<in> fst ` set current \<and> e \<notin> set asserted then False
      else pinned_loop calcs current asserted (rev (sources calcs e) @ stack) (e # seen)
        (has_value \<or> e \<in> fst ` set current))"
  by pat_completeness auto

lemma sources_bound: "sources calcs e \<noteq> [] \<Longrightarrow> e \<in> targets calcs"
  by (auto simp: sources_def children_def targets_def split: option.splits dest!: map_of_SomeD intro: rev_image_eqI)

termination pinned_loop
proof (relation "measures [\<lambda>(calcs, current, asserted, stack, seen, h). card (targets calcs - set seen),
    \<lambda>(calcs, current, asserted, stack, seen, h). length stack]")
  fix calcs :: calculations and current :: amounts and asserted stack seen :: "element_id list" and e h
  assume new: "e \<notin> set seen"
  show "((calcs, current, asserted, rev (sources calcs e) @ stack, e # seen, h \<or> e \<in> fst ` set current),
      calcs, current, asserted, e # stack, seen, h)
    \<in> measures [\<lambda>(calcs, current, asserted, stack, seen, h). card (targets calcs - set seen),
        \<lambda>(calcs, current, asserted, stack, seen, h). length stack]"
  proof (cases "e \<in> targets calcs")
    case True
    then have "targets calcs - set (e # seen) \<subset> targets calcs - set seen" using new by auto
    then have "card (targets calcs - set (e # seen)) < card (targets calcs - set seen)"
      by (intro psubset_card_mono) (simp_all add: targets_def)
    then show ?thesis by simp
  next
    case False
    then have "sources calcs e = []" using sources_bound by blast
    moreover have "targets calcs - set (e # seen) = targets calcs - set seen" using False by auto
    ultimately show ?thesis by simp
  qed
qed simp_all

definition subtree_all_pinned :: "element_id \<Rightarrow> calculations \<Rightarrow> amounts \<Rightarrow> element_id list \<Rightarrow> bool" where
  "subtree_all_pinned t calcs current asserted = pinned_loop calcs current asserted (rev (sources calcs t)) [] False"

text \<open>
  The value a calc parent derives from its valued descendants. The set of seen elements is
  shared by the whole walk, as in the code; the fuel bounds the depth, which the seen
  elements with arcs bound.
\<close>

fun derive_from :: "calculations \<Rightarrow> amounts \<Rightarrow> nat \<Rightarrow> element_id \<Rightarrow> element_id list \<Rightarrow> rat option \<times> element_id list"
  and derive_sum :: "calculations \<Rightarrow> amounts \<Rightarrow> nat \<Rightarrow> (element_id \<times> rat) list \<Rightarrow> rat \<Rightarrow> bool \<Rightarrow> element_id list \<Rightarrow> rat option \<times> element_id list" where
  "derive_from calcs current 0 e seen = (None, seen)"
| "derive_from calcs current (Suc n) e seen =
     (if e \<in> set seen then (None, seen)
      else if children calcs e = [] then (None, e # seen)
      else derive_sum calcs current n (children calcs e) 0 False (e # seen))"
| "derive_sum calcs current n [] acc found seen = (if found then Some acc else None, seen)"
| "derive_sum calcs current n ((c, w) # cs) acc found seen =
     (if c \<in> fst ` set current then derive_sum calcs current n cs (acc + amount current c * w) True seen
      else case derive_from calcs current n c seen of
        (None, seen') \<Rightarrow> derive_sum calcs current n cs acc found seen'
      | (Some v, seen') \<Rightarrow> derive_sum calcs current n cs (acc + v * w) True seen')"

definition derive_from_children :: "element_id \<Rightarrow> calculations \<Rightarrow> amounts \<Rightarrow> rat option" where
  "derive_from_children e calcs current = fst (derive_from calcs current (Suc (length calcs)) e [])"

subsection \<open>The push-down\<close>

text \<open>The present, unpinned elements under a parent, each once, in the order they are visited.\<close>

fun scale_visit :: "calculations \<Rightarrow> element_id set \<Rightarrow> element_id set \<Rightarrow> nat \<Rightarrow> element_id list \<Rightarrow> element_id list \<Rightarrow> element_id list" where
  "scale_visit calcs present pinned n [] visited = visited"
| "scale_visit calcs present pinned 0 (c # cs) visited =
     scale_visit calcs present pinned 0 cs
       (if c \<in> set visited \<or> c \<notin> present \<or> c \<in> pinned then visited else visited @ [c])"
| "scale_visit calcs present pinned (Suc n) (c # cs) visited =
     (if c \<in> set visited \<or> c \<notin> present \<or> c \<in> pinned then scale_visit calcs present pinned (Suc n) cs visited
      else scale_visit calcs present pinned (Suc n) cs (scale_visit calcs present pinned n (sources calcs c) (visited @ [c])))"

definition scale_subtree :: "calculations \<Rightarrow> element_id list \<Rightarrow> element_id \<Rightarrow> rat \<Rightarrow> amounts \<Rightarrow> amounts" where
  "scale_subtree calcs pinned parent factor current =
     (let visited = scale_visit calcs (fst ` set current) (set pinned) (length current) (sources calcs parent) []
      in map (\<lambda>(e, v). (e, if e \<in> set visited then v * factor else v)) current)"

definition present_sum :: "amounts \<Rightarrow> (element_id \<Rightarrow> bool) \<Rightarrow> (element_id \<times> rat) list \<Rightarrow> rat" where
  "present_sum current P cs = weighted (amount current) (filter (\<lambda>c. fst c \<in> fst ` set current \<and> P (fst c)) cs)"

definition scale_target :: "calculations \<Rightarrow> element_id list \<Rightarrow> amounts \<Rightarrow> element_id \<Rightarrow> amounts" where
  "scale_target calcs pinned current t =
     (if children calcs t = [] \<or> t \<notin> fst ` set current then current
      else
        let pinned_sum = present_sum current (\<lambda>c. c \<in> set pinned) (children calcs t);
            children_sum = present_sum current (\<lambda>c. c \<notin> set pinned) (children calcs t)
        in if \<bar>children_sum\<bar> < 1 / 10 ^ 9 then current
           else
             let factor = (amount current t - pinned_sum) / children_sum
             in if factor = 1 then current else scale_subtree calcs pinned t factor current)"

definition scale_rule_target_children :: "amounts \<Rightarrow> element_id list \<Rightarrow> calculations \<Rightarrow> element_id list \<Rightarrow> amounts" where
  "scale_rule_target_children current active_targets calcs pinned = foldl (scale_target calcs pinned) current active_targets"

subsection \<open>The owners of a line\<close>

text \<open>What a run knows before its first month.\<close>

record scenario =
  sc_elements :: "element list"
  sc_parse :: "string \<Rightarrow> ast option"
  sc_carry :: "element_id list"
  sc_growth :: "(element_id \<times> (string \<times> rat) list) list"
  sc_growth_qnames :: "(element_id \<times> string) list"
  sc_assertions :: "(element_id \<times> (string \<times> rat) list) list"
  sc_assert_period :: "(element_id \<times> string) list"
  sc_levers :: "(string \<times> (string \<times> rat) list) list"
  sc_rules :: "active_rule list"
  sc_active_targets :: "element_id list"
  sc_calcs :: calculations
  sc_order :: "element_id list"
  sc_base_is :: "element_id list"
  sc_base_bs :: "element_id list"
  sc_context :: "articulation option"

record walk_state =
  ws_prior :: amounts
  ws_prior_bs :: amounts
  ws_prev_end :: pdate
  ws_prev_month :: string

definition carry_pool :: "element_id list \<Rightarrow> calculations \<Rightarrow> element_id list \<Rightarrow> (element_id \<times> string) list \<Rightarrow>
    (element_id \<times> (string \<times> rat) list) list \<Rightarrow> element_id list" where
  "carry_pool base_is calcs active_targets assert_period growth =
     (let free = (\<lambda>e. e \<notin> targets calcs \<and> e \<notin> set active_targets);
          pool = filter free base_is;
          asserted = filter (\<lambda>e. e \<notin> set base_is \<and> free e)
            (sort (map fst (filter (\<lambda>a. snd a \<noteq> ''instant'') assert_period)));
          pool = pool @ asserted
      in pool @ filter (\<lambda>e. e \<notin> set base_is \<and> free e \<and> e \<notin> set pool) (sort (map fst growth)))"

definition carry_forward :: "element_id list \<Rightarrow> amounts \<Rightarrow> amounts" where
  "carry_forward pool prior =
     foldl (\<lambda>m e. if e \<in> fst ` set prior then AList.update e (amount prior e) m else m) [] pool"

text \<open>A run-off cannot take a line below zero; \<open>clamped\<close> says that it was cut there.\<close>

definition clamped :: "rat \<Rightarrow> rat \<Rightarrow> bool" where
  "clamped before delta \<longleftrightarrow> delta < 0 \<and> 0 \<le> before \<and> before + delta < 0"

definition schedule_line :: "articulation \<Rightarrow> string \<Rightarrow> string \<Rightarrow> element_id \<times> rat \<Rightarrow> rat" where
  "schedule_line ctx month prev l =
     (let delta = schedule_is_delta ctx (fst l) month prev
      in if clamped (snd l) delta then 0 else snd l + delta)"

definition name_of :: "element list \<Rightarrow> element_id \<Rightarrow> string option" where
  "name_of els e = (case element_of els e of None \<Rightarrow> Some e | Some x \<Rightarrow> el_qname x)"

definition schedule_deltas :: "scenario \<Rightarrow> string \<Rightarrow> string \<Rightarrow> amounts \<Rightarrow> amounts \<times> skipped_line list" where
  "schedule_deltas sc month prev current =
     (case sc_context sc of
        None \<Rightarrow> (current, [])
      | Some ctx \<Rightarrow>
          (map (\<lambda>l. (fst l, schedule_line ctx month prev l)) current,
           map (\<lambda>l. \<lparr>sk_rule = None, sk_qname = name_of (sc_elements sc) (fst l), sk_period = month, sk_reason = RunOffClamped\<rparr>)
             (filter (\<lambda>l. clamped (snd l) (schedule_is_delta ctx (fst l) month prev)) current)))"

definition grows :: "scenario \<Rightarrow> string \<Rightarrow> element_id \<times> (string \<times> rat) list \<Rightarrow> bool" where
  "grows sc month g \<longleftrightarrow> map_of (snd g) month \<noteq> None \<and> fst g \<notin> set (sc_active_targets sc)"

definition line_growth :: "scenario \<Rightarrow> amounts \<Rightarrow> string \<Rightarrow> amounts \<Rightarrow> amounts \<times> element_id list \<times> skipped_line list" where
  "line_growth sc prior month current =
     (foldl (\<lambda>m g. if grows sc month g
               then AList.update (fst g) (amount prior (fst g) * (1 + the (map_of (snd g) month))) m else m) current (sc_growth sc),
      map fst (filter (grows sc month) (sc_growth sc)),
      map (\<lambda>g. \<lparr>sk_rule = None, sk_qname = map_of (sc_growth_qnames sc) (fst g), sk_period = month, sk_reason = GrowthDisplaced\<rparr>)
        (filter (\<lambda>g. map_of (snd g) month \<noteq> None \<and> fst g \<in> set (sc_active_targets sc)) (sc_growth sc)))"

definition line_assertions :: "scenario \<Rightarrow> string \<Rightarrow> amounts \<Rightarrow> amounts \<times> element_id list" where
  "line_assertions sc month current =
     (foldl (\<lambda>m a. case map_of (snd a) month of None \<Rightarrow> m | Some v \<Rightarrow> AList.update (fst a) v m) current (sc_assertions sc),
      map fst (filter (\<lambda>a. map_of (snd a) month \<noteq> None) (sc_assertions sc)))"

subsection \<open>Driver rules\<close>

text \<open>A same-month operand: the value so far, else what its children derive, else last month's.\<close>

definition operand_value :: "scenario \<Rightarrow> amounts \<Rightarrow> amounts \<Rightarrow> element_id \<Rightarrow> rat option" where
  "operand_value sc prior current e =
     (if e \<in> fst ` set current then Some (amount current e)
      else case derive_from_children e (sc_calcs sc) current of
        Some v \<Rightarrow> Some v
      | None \<Rightarrow> if e \<in> fst ` set prior then Some (amount prior e) else None)"

type_synonym bindings = "(string \<rightharpoonup> rat option) \<times> string list"

definition bind_value :: "string \<Rightarrow> rat option \<Rightarrow> string \<Rightarrow> bindings \<Rightarrow> bindings" where
  "bind_value n v missing b = (case v of Some x \<Rightarrow> ((fst b)(n \<mapsto> Some x), snd b) | None \<Rightarrow> (fst b, snd b @ [missing]))"

definition bind_operand :: "scenario \<Rightarrow> amounts \<Rightarrow> amounts \<Rightarrow> string \<Rightarrow> active_rule \<Rightarrow> string \<Rightarrow> bindings \<Rightarrow> string \<Rightarrow> bindings" where
  "bind_operand sc prior current month r lhs b n =
     (if n = lhs then b
      else case map_of (ar_qnames r) n of
        None \<Rightarrow> bind_value n None n b
      | Some q \<Rightarrow>
          if has_prefix driver_prefix q then
            bind_value n (map_of (case map_of (sc_levers sc) q of None \<Rightarrow> [] | Some m \<Rightarrow> m) month)
              (q @ '' (lever not asserted for '' @ month @ '')'') b
          else
            bind_value n (case element_by_qname (sc_elements sc) q of None \<Rightarrow> None
                | Some x \<Rightarrow> operand_value sc prior current (el_id x)) q b)"

definition bind_prior :: "scenario \<Rightarrow> amounts \<Rightarrow> active_rule \<Rightarrow> bindings \<Rightarrow> string \<times> string \<Rightarrow> bindings" where
  "bind_prior sc prior r b s =
     (let q = map_of (ar_qnames r) (snd s);
          x = (if truthy q then element_by_qname (sc_elements sc) (the q) else None)
      in case x of
           None \<Rightarrow> bind_value (fst s) None (if truthy q then the q else snd s) b
         | Some x \<Rightarrow> bind_value (fst s) (if el_id x \<in> fst ` set prior then Some (amount prior (el_id x)) else None)
             (the q @ ''[t-1] (no prior value)'') b)"

definition rule_bindings :: "scenario \<Rightarrow> amounts \<Rightarrow> amounts \<Rightarrow> string \<Rightarrow> active_rule \<Rightarrow> string \<Rightarrow>
    (string \<times> string) list \<Rightarrow> (string \<times> string) list \<Rightarrow> bindings" where
  "rule_bindings sc prior current month r lhs priors avgs =
     (let b = foldl (bind_operand sc prior current month r lhs) (Map.empty, []) (ar_operands r);
          b = foldl (bind_prior sc prior r) b priors
      in (fst b, snd b @ map (\<lambda>a. fst a @ '' (avg() unsupported in compute-forecast)'') avgs))"

text \<open>The value a rule gives its target this month, or why it is skipped.\<close>

definition rule_value :: "scenario \<Rightarrow> amounts \<Rightarrow> amounts \<Rightarrow> string \<Rightarrow> active_rule \<Rightarrow> skip_reason + rat" where
  "rule_value sc prior current month r =
     (let (expr, priors) = desugar_priors (ar_expression r);
          (expr, avgs) = desugar_aggregates expr;
          parsed = parse_arithmetic_expression (sc_parse sc) expr (ar_operands r @ map fst priors @ map fst avgs)
      in case bindR parsed (\<lambda>p. bindR (lhs_variable_names p) (\<lambda>ns. Inr (p, ns))) of
           Inl e \<Rightarrow> Inl (ExpressionError e)
         | Inr (p, ns) \<Rightarrow>
             (case ns of
                [lhs] \<Rightarrow>
                  (let (vals, missing) = rule_bindings sc prior current month r lhs priors avgs in
                   if missing \<noteq> [] then Inl (UnboundOperands missing)
                   else case evaluate_derivation p vals of
                     Inl e \<Rightarrow> Inl (EvaluationError e)
                   | Inr v \<Rightarrow> Inr v)
              | _ \<Rightarrow> Inl (LhsNotSingle ns)))"

record rules_state =
  rs_current :: amounts
  rs_displaced :: "element_id list"
  rs_skipped :: "skipped_line list"

definition skip_rule :: "active_rule \<Rightarrow> string \<Rightarrow> skip_reason \<Rightarrow> rules_state \<Rightarrow> rules_state" where
  "skip_rule r month reason s = s\<lparr>rs_skipped := rs_skipped s @
     [\<lparr>sk_rule = Some (ar_id r), sk_qname = el_qname (ar_target r), sk_period = month, sk_reason = reason\<rparr>]\<rparr>"

definition displace :: "active_rule \<Rightarrow> string \<Rightarrow> skip_reason \<Rightarrow> rules_state \<Rightarrow> rules_state" where
  "displace r month reason s =
     skip_rule r month reason (s\<lparr>rs_displaced := el_id (ar_target r) # rs_displaced s\<rparr>)"

definition apply_rule :: "scenario \<Rightarrow> amounts \<Rightarrow> string \<Rightarrow> element_id list \<Rightarrow> element_id list \<Rightarrow> element_id list \<Rightarrow>
    rules_state \<Rightarrow> active_rule \<Rightarrow> rules_state" where
  "apply_rule sc prior month asserted ancestors pinned s r =
     (let t = el_id (ar_target r) in
      if t \<in> set asserted then displace r month DisplacedByAssertion s
      else if t \<in> set ancestors \<and> subtree_all_pinned t (sc_calcs sc) (rs_current s) pinned
      then displace r month DisplacedByChildren s
      else case rule_value sc prior (rs_current s) month r of
        Inl reason \<Rightarrow> skip_rule r month reason s
      | Inr v \<Rightarrow> s\<lparr>rs_current := AList.update t v (rs_current s)\<rparr>)"

text \<open>The target of a skipped rule repeats its prior value; a displaced one does not.\<close>

definition fall_back :: "scenario \<Rightarrow> amounts \<Rightarrow> rules_state \<Rightarrow> amounts" where
  "fall_back sc prior s =
     foldl (\<lambda>m e. if e \<notin> fst ` set m \<and> e \<notin> set (rs_displaced s) \<and> e \<in> fst ` set prior
                  then AList.update e (amount prior e) m else m) (rs_current s) (sc_active_targets sc)"

definition asserted_instants :: "scenario \<Rightarrow> element_id list \<Rightarrow> element_id list" where
  "asserted_instants sc asserted = filter (\<lambda>e. map_of (sc_assert_period sc) e = Some ''instant'') asserted"

text \<open>The values of a month before the subtotals, the lines that are pinned, what was skipped.\<close>

definition month_values :: "scenario \<Rightarrow> walk_state \<Rightarrow> string \<Rightarrow> amounts \<times> element_id list \<times> skipped_line list" where
  "month_values sc w month =
     (let prior = ws_prior w;
          current = carry_forward (sc_carry sc) prior;
          (current, sk1) = schedule_deltas sc month (ws_prev_month w) current;
          (current, grown, sk2) = line_growth sc prior month current;
          (current, asserted) = line_assertions sc month current;
          pinned = asserted @ grown;
          ancestors = ancestor_closure (filter (\<lambda>e. e \<notin> set (asserted_instants sc asserted)) asserted)
            (build_parents_by_child (sc_calcs sc));
          s = foldl (apply_rule sc prior month asserted ancestors pinned)
            \<lparr>rs_current = current, rs_displaced = [], rs_skipped = sk1 @ sk2\<rparr> (sc_rules sc);
          current = scale_rule_target_children (fall_back sc prior s) (sc_active_targets sc) (sc_calcs sc) pinned
      in (current, asserted, rs_skipped s))"

subsection \<open>The statements of a month\<close>

definition is_instant :: "scenario \<Rightarrow> element_id \<Rightarrow> bool" where
  "is_instant sc e = (case element_of (sc_elements sc) e of None \<Rightarrow> False | Some x \<Rightarrow> el_period x = ''instant'')"

definition known_duration :: "scenario \<Rightarrow> element_id \<Rightarrow> bool" where
  "known_duration sc e = (case element_of (sc_elements sc) e of None \<Rightarrow> False | Some x \<Rightarrow> el_period x \<noteq> ''instant'')"

definition known :: "scenario \<Rightarrow> element_id \<Rightarrow> bool" where
  "known sc e \<longleftrightarrow> element_of (sc_elements sc) e \<noteq> None"

text \<open>The base lines, then the lines outside the base report with their calc ancestors.\<close>

definition income_facts :: "scenario \<Rightarrow> amounts \<Rightarrow> amounts \<Rightarrow> amounts" where
  "income_facts sc current resolved =
     (let base = filter (\<lambda>e. known sc e \<and> e \<in> fst ` set resolved) (sc_base_is sc);
          extra = filter (\<lambda>e. e \<notin> set base \<and> known_duration sc e) (map fst current);
          above = filter (\<lambda>e. e \<notin> set base \<and> e \<notin> set extra \<and> known_duration sc e)
            (ancestor_closure extra (build_parents_by_child (sc_calcs sc)))
      in map (\<lambda>e. (e, amount resolved e)) (base @ filter (\<lambda>e. e \<in> fst ` set resolved) (sort (remdups (extra @ above)))))"

definition rule_instants :: "scenario \<Rightarrow> element_id list" where
  "rule_instants sc = filter (is_instant sc) (map (\<lambda>r. el_id (ar_target r)) (sc_rules sc))"

definition balance_facts :: "scenario \<Rightarrow> amounts \<Rightarrow> amounts" where
  "balance_facts sc bs =
     (let final = resolve_calc_dag bs (fst ` set bs) (sc_calcs sc) (sc_order sc);
          base = filter (\<lambda>e. known sc e \<and> e \<in> fst ` set final) (sc_base_bs sc)
      in map (\<lambda>e. (e, amount final e)) base @
         map (\<lambda>e. (e, amount bs e)) (filter (known sc) (filter (\<lambda>e. e \<notin> set base) (sort (map fst bs)))))"

text \<open>Without a balance sheet at the base month only the driven and asserted instants remain.\<close>

definition instant_facts :: "scenario \<Rightarrow> amounts \<Rightarrow> element_id list \<Rightarrow> amounts" where
  "instant_facts sc current asserted =
     (let driven = filter (\<lambda>e. e \<in> fst ` set current) (rule_instants sc)
      in map (\<lambda>e. (e, amount current e))
         (driven @ filter (\<lambda>e. known sc e \<and> e \<in> fst ` set current)
            (sort (filter (\<lambda>e. e \<notin> set driven) (asserted_instants sc asserted)))))"

record month_result =
  mr_period :: string
  mr_end :: pdate
  mr_is :: amounts
  mr_bs :: amounts
  mr_cf :: amounts
  mr_balances :: amounts
  mr_passed :: "bool option"

definition month_balances :: "scenario \<Rightarrow> walk_state \<Rightarrow> pdate \<Rightarrow> amounts \<Rightarrow> element_id list \<Rightarrow> amounts \<Rightarrow> amounts" where
  "month_balances sc w month_end current asserted resolved =
     (case sc_context sc of
        None \<Rightarrow> []
      | Some ctx \<Rightarrow> roll_balance_sheet ctx month_end (ws_prev_end w) (ws_prior_bs w) current
          (remdups (rule_instants sc @ asserted_instants sc asserted)) resolved (sc_calcs sc) (sc_order sc))"

definition month_cash_flow :: "scenario \<Rightarrow> walk_state \<Rightarrow> amounts \<Rightarrow> amounts \<Rightarrow> amounts" where
  "month_cash_flow sc w bs resolved =
     (case sc_context sc of
        None \<Rightarrow> []
      | Some ctx \<Rightarrow>
          if cx_has_cf ctx
          then fst (derive_cash_flow ctx bs (ws_prior_bs w) resolved (sc_calcs sc) (sc_order sc)) else [])"

definition compute_month :: "scenario \<Rightarrow> (string \<Rightarrow> amounts \<Rightarrow> amounts \<Rightarrow> amounts \<Rightarrow> bool option) \<Rightarrow> walk_state \<Rightarrow>
    string \<times> pdate \<Rightarrow> month_result \<times> skipped_line list" where
  "compute_month sc verdict w m =
     (let (current, asserted, skipped) = month_values sc w (fst m);
          resolved = resolve_calc_dag current (fst ` set current) (sc_calcs sc) (sc_order sc);
          is_f = income_facts sc current resolved;
          bs = month_balances sc w (snd m) current asserted resolved;
          bs_f = (if sc_context sc = None then instant_facts sc current asserted else balance_facts sc bs);
          cf_f = filter (\<lambda>f. known sc (fst f)) (sort_key fst (month_cash_flow sc w bs resolved))
      in (\<lparr>mr_period = fst m, mr_end = snd m, mr_is = is_f, mr_bs = bs_f, mr_cf = cf_f, mr_balances = bs,
           mr_passed = verdict (fst m) is_f bs_f cf_f\<rparr>, skipped))"

text \<open>The next month's context: this month's income statement and its full balance sheet.\<close>

definition roll_window :: "walk_state \<Rightarrow> month_result \<Rightarrow> walk_state" where
  "roll_window w r =
     \<lparr>ws_prior = foldl (\<lambda>m f. AList.update (fst f) (snd f) m) (foldl (\<lambda>m f. AList.update (fst f) (snd f) m) [] (mr_is r))
        (if mr_balances r \<noteq> [] then mr_balances r else mr_bs r),
      ws_prior_bs = (if mr_balances r \<noteq> [] then mr_balances r else ws_prior_bs w),
      ws_prev_end = mr_end r, ws_prev_month = mr_period r\<rparr>"

text \<open>The walk stops after the first month whose verification failed.\<close>

fun walk_months :: "scenario \<Rightarrow> (string \<Rightarrow> amounts \<Rightarrow> amounts \<Rightarrow> amounts \<Rightarrow> bool option) \<Rightarrow> walk_state \<Rightarrow>
    (string \<times> pdate) list \<Rightarrow> month_result list \<times> skipped_line list" where
  "walk_months sc verdict w [] = ([], [])"
| "walk_months sc verdict w (m # ms) =
     (let (r, sk) = compute_month sc verdict w m in
      if mr_passed r = Some False then ([r], sk)
      else let (rs, sks) = walk_months sc verdict (roll_window w r) ms in (r # rs, sk @ sks))"

subsection \<open>The run\<close>

text \<open>The months after the anchor, up to the end of the authored window.\<close>

fun months_from :: "string \<Rightarrow> string \<Rightarrow> nat \<Rightarrow> nat \<Rightarrow> period_error + string list" where
  "months_from anchor window_end k 0 = Inr []"
| "months_from anchor window_end k (Suc n) =
     bindR (add_months anchor (int k)) (\<lambda>month.
       if window_end < month then Inr []
       else bindR (months_from anchor window_end (Suc k) n) (\<lambda>ms. Inr (month # ms)))"

definition forecast_months :: "string \<Rightarrow> nat \<Rightarrow> string \<Rightarrow> nat \<Rightarrow> period_error + string list" where
  "forecast_months base horizon anchor n =
     bindR (add_months base (int horizon)) (\<lambda>window_end. months_from anchor window_end 1 n)"

text \<open>A month's set of one structure: the standing one is replaced in full, or one is created.\<close>

definition standing_set :: "statement_set list \<Rightarrow> string \<Rightarrow> string \<Rightarrow> string \<Rightarrow> pdate \<Rightarrow> statement_set option" where
  "standing_set sets scenario entity structure end =
     first_by (\<lambda>f. - ss_created f)
       (filter (\<lambda>f. ss_structure f = structure \<and> ss_type f = ''report'' \<and> ss_entity f = entity \<and> ss_end f = end \<and>
          ss_scenario f = Some scenario) sets)"

definition upsert_month_set :: "(string list \<Rightarrow> string) \<Rightarrow> int \<Rightarrow> string \<Rightarrow> string \<Rightarrow> string \<Rightarrow> pdate \<times> pdate \<Rightarrow> amounts \<Rightarrow> statement_set list \<Rightarrow> statement_set list" where
  "upsert_month_set fresh now scenario entity structure window values sets =
     (if values = [] then sets
      else case standing_set sets scenario entity structure (snd window) of
        Some s \<Rightarrow> update_where (\<lambda>f. ss_id f = ss_id s) (\<lambda>f. f\<lparr>ss_facts := values\<rparr>) sets
      | None \<Rightarrow> sets @ [\<lparr>ss_id = fresh (map ss_id sets), ss_structure = structure, ss_type = ''report'', ss_entity = entity,
          ss_start = fst window, ss_end = snd window, ss_scenario = Some scenario, ss_report = None, ss_created = now,
          ss_facts = values\<rparr>])"

record run_target =
  rt_scenario :: string
  rt_entity :: string
  rt_is :: string
  rt_bs :: "string option"
  rt_cf :: "string option"

definition upsert_option :: "(string list \<Rightarrow> string) \<Rightarrow> int \<Rightarrow> run_target \<Rightarrow> string option \<Rightarrow> pdate \<times> pdate \<Rightarrow> amounts \<Rightarrow> statement_set list \<Rightarrow> statement_set list" where
  "upsert_option fresh now rt s window values sets =
     (case s of None \<Rightarrow> sets | Some x \<Rightarrow> upsert_month_set fresh now (rt_scenario rt) (rt_entity rt) x window values sets)"

text \<open>\<open>fresh\<close> yields an identifier that no row has.\<close>

definition month_start :: "pdate \<Rightarrow> pdate" where
  "month_start d = Date (yr d) (mo d) 1"

definition store_month :: "(string list \<Rightarrow> string) \<Rightarrow> int \<Rightarrow> run_target \<Rightarrow> statement_set list \<Rightarrow> month_result \<Rightarrow> statement_set list" where
  "store_month fresh now rt sets r =
     (let window = (month_start (mr_end r), mr_end r);
          sets = upsert_option fresh now rt (Some (rt_is rt)) window (mr_is r) sets;
          sets = upsert_option fresh now rt (rt_bs rt) window (mr_bs r) sets
      in upsert_option fresh now rt (rt_cf rt) window (mr_cf r) sets)"

text \<open>The sweep spares the authored lever set, which carries the scenario's id as its structure.\<close>

definition swept :: "run_target \<Rightarrow> (pdate \<Rightarrow> bool) \<Rightarrow> statement_set \<Rightarrow> bool" where
  "swept rt bound f \<longleftrightarrow> ss_scenario f = Some (rt_scenario rt) \<and> ss_entity f = rt_entity rt \<and> bound (ss_end f) \<and>
     \<not> (ss_structure f = rt_scenario rt \<and> ss_type f = ''custom'')"

definition sweep_scenario_sets :: "run_target \<Rightarrow> (pdate \<Rightarrow> bool) \<Rightarrow> statement_set list \<Rightarrow> statement_set list \<times> nat" where
  "sweep_scenario_sets rt bound sets = (filter (\<lambda>f. \<not> swept rt bound f) sets, count_where (swept rt bound) sets)"

definition invalidate_stale_tail :: "run_target \<Rightarrow> pdate \<Rightarrow> statement_set list \<Rightarrow> statement_set list \<times> nat" where
  "invalidate_stale_tail rt through = sweep_scenario_sets rt (\<lambda>d. through < d)"

definition invalidate_superseded_head :: "run_target \<Rightarrow> pdate \<Rightarrow> statement_set list \<Rightarrow> statement_set list \<times> nat" where
  "invalidate_superseded_head rt through = sweep_scenario_sets rt (\<lambda>d. d \<le> through)"

record forecast_response =
  fr_months :: "month_result list"
  fr_halted :: "string option"
  fr_skipped :: "skipped_line list"

definition halted_at :: "month_result list \<Rightarrow> string option" where
  "halted_at rs = (if rs \<noteq> [] \<and> mr_passed (last rs) = Some False then Some (mr_period (last rs)) else None)"

text \<open>
  \<open>compute_forecast\<close> from the point where the months are known: the walk, its stored months
  and the two sweeps. No month left clears what earlier runs computed up to the anchor.
\<close>

definition compute_forecast :: "scenario \<Rightarrow> (string \<Rightarrow> amounts \<Rightarrow> amounts \<Rightarrow> amounts \<Rightarrow> bool option) \<Rightarrow>
    (string list \<Rightarrow> string) \<Rightarrow> int \<Rightarrow> run_target \<Rightarrow> bool \<Rightarrow> walk_state \<Rightarrow>
    (string \<times> pdate) list \<Rightarrow> statement_set list \<Rightarrow> statement_set list \<times> forecast_response" where
  "compute_forecast sc verdict fresh now rt moved w months sets =
     (let (rs, skipped) = walk_months sc verdict w months;
          stored = foldl (store_month fresh now rt) sets rs;
          sets' = (if months = [] then fst (invalidate_superseded_head rt (ws_prev_end w) sets)
            else let tail = fst (invalidate_stale_tail rt (mr_end (last rs)) stored)
                 in if moved then fst (invalidate_superseded_head rt (ws_prev_end w) tail) else tail)
      in (sets', \<lparr>fr_months = rs, fr_halted = halted_at rs, fr_skipped = skipped\<rparr>))"

end
