(* ===== verification/ForecastCommand.thy ===== *)
theory ForecastCommand
  imports ForecastWalk
begin

text \<open>
  The handler of compute-forecast (\<open>cmd_compute_forecast\<close> in
  \<open>operations/information_block/forecast_compute.py\<close>): its checks in their order, the values
  bound from the scenario's authored facts, the base month that seeds the walk, the rules and
  arcs in force, and the verification of an emitted month. Parameters: the parser of rule
  expressions, the rule engine, the supply of identifiers and \<open>iter\<close>, the order in which the
  interpreter iterates a set of ids.
\<close>

record forecast_mechanics =
  fm_base :: string
  fm_horizon :: nat
  fm_seam :: bool
  fm_levers :: "(element_id \<times> string) list"
  fm_assertions :: "(element_id \<times> string) list"
  fm_growth :: "(element_id \<times> string \<times> (string \<times> rat) list) list"

record forecast_request =
  fq_structure :: string
  fq_months :: "nat option"
  fq_entity :: "string option"

text \<open>What the handler reads: rows as the queries return them.\<close>

record forecast_books =
  fb_blocks :: "(string \<times> string) list"
  fb_mechanics :: "string \<Rightarrow> forecast_mechanics"
  fb_sets :: "statement_set list"
  fb_authored :: "string \<Rightarrow> (element_id \<times> pdate \<times> rat) list"
  fb_entities :: "string list"
  fb_elements :: "element list"
  fb_rules :: "driver_rule list"
  fb_library :: "(element_id \<times> element_id \<times> rat option) list"
  fb_local :: "string \<Rightarrow> (element_id option \<times> element_id option \<times> rat option) list"
  fb_specials :: "string \<rightharpoonup> element_id"
  fb_derivations :: "(element_id \<times> element_id \<times> rat option) list"
  fb_mapping :: "string \<Rightarrow> string option"
  fb_rows :: "string \<Rightarrow> string \<Rightarrow> pdate \<Rightarrow> pdate \<Rightarrow> schedule_row list"

datatype forecast_error =
    StructureNotFound
  | NotAForecast string
  | MonthsBeyondHorizon nat nat
  | NoLeverSet
  | NoEntity
  | NoActualIncomeStatement
  | NoBaseStatement string
  | PeriodFailure period_error

subsection \<open>Reads\<close>

definition newest_actual_structure_id :: "(string \<times> string) list \<Rightarrow> statement_set list \<Rightarrow> string \<Rightarrow> string option" where
  "newest_actual_structure_id blocks sets block_type =
     map_option ss_structure (first_by (\<lambda>f. - ss_created f)
       (filter (\<lambda>f. ss_type f = ''report'' \<and> ss_scenario f = None \<and> map_of blocks (ss_structure f) = Some block_type) sets))"

definition load_lever_set :: "statement_set list \<Rightarrow> string \<Rightarrow> statement_set option" where
  "load_lever_set sets scenario =
     first_by (\<lambda>f. - ss_created f)
       (filter (\<lambda>f. ss_structure f = scenario \<and> ss_type f = ''custom'' \<and> ss_scenario f = Some scenario) sets)"

text \<open>A parent's own arcs in order; an arc without both ends is left out.\<close>

definition local_arc :: "calculations \<Rightarrow> element_id option \<times> element_id option \<times> rat option \<Rightarrow> calculations" where
  "local_arc calcs a =
     (case a of
        (Some p, Some c, w) \<Rightarrow> AList.update p (children calcs p @ [(c, case w of None \<Rightarrow> 1 | Some x \<Rightarrow> x)]) calcs
      | _ \<Rightarrow> calcs)"

definition local_calc_arcs :: "(element_id option \<times> element_id option \<times> rat option) list \<Rightarrow> calculations" where
  "local_calc_arcs rows = foldl local_arc [] rows"

text \<open>A dict built from pairs: a later value replaces an earlier one of its key.\<close>

definition dict_of :: "('k \<times> 'v) list \<Rightarrow> ('k \<times> 'v) list" where
  "dict_of xs = foldl (\<lambda>m x. AList.update (fst x) (snd x) m) [] xs"

text \<open>Levers by qname and month, assertions by element and month; a lever's element wins.\<close>

definition put_month :: "'k \<Rightarrow> string \<Rightarrow> rat \<Rightarrow> ('k \<times> (string \<times> rat) list) list \<Rightarrow> ('k \<times> (string \<times> rat) list) list" where
  "put_month k month v m = AList.update k (AList.update month v (case map_of m k of None \<Rightarrow> [] | Some x \<Rightarrow> x)) m"

definition bind_authored :: "forecast_mechanics \<Rightarrow>
    (string \<times> (string \<times> rat) list) list \<times> (element_id \<times> (string \<times> rat) list) list \<Rightarrow> element_id \<times> pdate \<times> rat \<Rightarrow>
    (string \<times> (string \<times> rat) list) list \<times> (element_id \<times> (string \<times> rat) list) list" where
  "bind_authored fm b f =
     (case f of (e, d, v) \<Rightarrow>
        case map_of (dict_of (fm_levers fm)) e of
          Some q \<Rightarrow> (put_month q (month_key d) v (fst b), snd b)
        | None \<Rightarrow>
            if e \<in> fst ` set (fm_assertions fm) then (fst b, put_month e (month_key d) v (snd b)) else b)"

definition authored_values :: "forecast_mechanics \<Rightarrow> (element_id \<times> pdate \<times> rat) list \<Rightarrow>
    (string \<times> (string \<times> rat) list) list \<times> (element_id \<times> (string \<times> rat) list) list" where
  "authored_values fm fs = foldl (bind_authored fm) ([], []) fs"

text \<open>The base month: the income statement first, then what the balance sheet adds.\<close>

definition put_new :: "amounts \<Rightarrow> amounts \<Rightarrow> amounts" where
  "put_new m fs = foldl (\<lambda>m f. if fst f \<in> fst ` set m then m else AList.update (fst f) (snd f) m) m fs"

definition first_seen :: "amounts \<Rightarrow> element_id list" where
  "first_seen fs = rev (remdups (rev (map fst fs)))"

subsection \<open>Verification\<close>

datatype rule_status = RulePass | RuleFail | RuleError | RuleSkipped

text \<open>No result is no verdict; otherwise the month passed when nothing failed.\<close>

definition verify_month_sets :: "(string \<Rightarrow> string \<Rightarrow> amounts \<Rightarrow> rule_status list) \<Rightarrow> run_target \<Rightarrow>
    string \<Rightarrow> amounts \<Rightarrow> amounts \<Rightarrow> amounts \<Rightarrow> bool option" where
  "verify_month_sets engine rt month is_f bs_f cf_f =
     (let results = concat (map (\<lambda>(s, fs). case s of None \<Rightarrow> [] | Some x \<Rightarrow> if fs = [] then [] else engine x month fs)
            [(Some (rt_is rt), is_f), (rt_bs rt, bs_f), (rt_cf rt, cf_f)])
      in if results = [] then None else Some (\<not> (\<exists>s\<in>set results. s = RuleFail \<or> s = RuleError)))"

subsection \<open>The scenario of a run\<close>

definition merged_calculations :: "forecast_books \<Rightarrow> string \<Rightarrow> string option \<Rightarrow> calculations" where
  "merged_calculations b is_s bs_s =
     (let calcs = merge_calculations (load_rs_gaap_calculations (fb_library b)) (local_calc_arcs (fb_local b is_s))
      in case bs_s of None \<Rightarrow> calcs | Some s \<Rightarrow> merge_calculations calcs (local_calc_arcs (fb_local b s)))"

definition run_rules :: "forecast_books \<Rightarrow> (string \<times> (string \<times> rat) list) list \<Rightarrow> string \<Rightarrow> active_rule list \<times> skipped_line list" where
  "run_rules b levers anchor =
     (active_rules (fb_elements b) levers anchor (fb_rules b),
      List.map_filter (\<lambda>r. case activate_rule (fb_elements b) levers anchor r of Some (Inl s) \<Rightarrow> Some s | _ \<Rightarrow> None) (fb_rules b))"

definition run_scenario :: "forecast_books \<Rightarrow> (string \<Rightarrow> ast option) \<Rightarrow> (string list \<Rightarrow> string list) \<Rightarrow> forecast_mechanics \<Rightarrow>
    (string \<times> (string \<times> rat) list) list \<Rightarrow> (element_id \<times> (string \<times> rat) list) list \<Rightarrow> active_rule list \<Rightarrow>
    calculations \<Rightarrow> element_id list \<Rightarrow> element_id list \<Rightarrow> articulation option \<Rightarrow> scenario" where
  "run_scenario b parse iter fm levers assertions ars calcs base_is base_bs ctx =
     (let active = iter (remdups (map (\<lambda>a. el_id (ar_target a)) ars));
          growth = dict_of (map (\<lambda>(e, q, rates). (e, rates)) (fm_growth fm));
          asserted = dict_of (fm_assertions fm)
      in \<lparr>sc_elements = fb_elements b, sc_parse = parse,
          sc_carry = carry_pool base_is calcs active asserted growth,
          sc_growth = growth, sc_growth_qnames = dict_of (map (\<lambda>(e, q, rates). (e, q)) (fm_growth fm)),
          sc_assertions = assertions, sc_assert_period = asserted, sc_levers = levers,
          sc_rules = ordered_active (iter (map fst (rule_dependencies ars))) ars, sc_active_targets = active,
          sc_calcs = calcs, sc_order = topo_sort_calculations (iter (map fst calcs)) calcs,
          sc_base_is = base_is, sc_base_bs = base_bs, sc_context = ctx\<rparr>)"

text \<open>The articulation needs a balance sheet at the base month; the mapping rides its sets.\<close>

definition run_context :: "forecast_books \<Rightarrow> string \<Rightarrow> string option \<Rightarrow> statement_set \<Rightarrow> statement_set option \<Rightarrow>
    element_id list \<Rightarrow> element_id list \<Rightarrow> pdate \<Rightarrow> pdate \<Rightarrow> articulation option" where
  "run_context b entity cf_s base_is_set base_bs_set base_is base_bs start horizon_end =
     (case base_bs_set of
        None \<Rightarrow> None
      | Some bs \<Rightarrow>
          let mapping = (case fb_mapping b (ss_id base_is_set) of Some m \<Rightarrow> Some m | None \<Rightarrow> fb_mapping b (ss_id bs));
              rows = (case mapping of None \<Rightarrow> [] | Some m \<Rightarrow> fb_rows b m entity start horizon_end)
          in Some (load_articulation_context (fb_specials b) (cf_s \<noteq> None) base_bs (fb_derivations b)
               (load_schedule_projection (mapping \<noteq> None) base_is base_bs
                  (fb_specials b ''rs-gaap:PropertyPlantAndEquipmentNet'') rows)))"

subsection \<open>The handler\<close>

definition period_step :: "period_error + 'a \<Rightarrow> forecast_error + 'a" where
  "period_step r = (case r of Inl e \<Rightarrow> Inl (PeriodFailure e) | Inr x \<Rightarrow> Inr x)"

text \<open>The month the walk is anchored to, and the sets found there.\<close>

definition anchor_period :: "forecast_books \<Rightarrow> forecast_mechanics \<Rightarrow> string \<Rightarrow> string option \<Rightarrow> string \<Rightarrow> period_error + string" where
  "anchor_period b fm is_s bs_s entity =
     (if fm_seam fm then
        bindR (period_date_range (fm_base fm)) (\<lambda>w.
          let rolls = (case bs_s of None \<Rightarrow> False | Some s \<Rightarrow> actual_set_at (fb_sets b) s entity (fst w) (snd w) False \<noteq> None)
          in resolve_anchor_period (fb_sets b) (fm_base fm) (fm_horizon fm) is_s (if rolls then bs_s else None) entity)
      else Inr (fm_base fm))"

definition month_ends :: "string list \<Rightarrow> period_error + (string \<times> pdate) list" where
  "month_ends ms = foldr (\<lambda>m r. bindR (period_date_range m) (\<lambda>w. bindR r (\<lambda>xs. Inr ((m, snd w) # xs)))) ms (Inr [])"

record run_parameters =
  rp_parse :: "string \<Rightarrow> ast option"
  rp_engine :: "string \<Rightarrow> string \<Rightarrow> amounts \<Rightarrow> rule_status list"
  rp_fresh :: "string list \<Rightarrow> string"
  rp_iter :: "string list \<Rightarrow> string list"
  rp_now :: int

text \<open>The run once its anchor and base sets are known.\<close>

definition forecast_run :: "run_parameters \<Rightarrow> forecast_books \<Rightarrow> forecast_mechanics \<Rightarrow> string \<Rightarrow> string \<Rightarrow> string \<Rightarrow> string option \<Rightarrow>
    (element_id \<times> pdate \<times> rat) list \<Rightarrow> string \<Rightarrow> pdate \<times> pdate \<Rightarrow> statement_set \<Rightarrow> (string \<times> pdate) list \<Rightarrow>
    statement_set list \<times> forecast_response" where
  "forecast_run p b fm scenario entity is_s bs_s authored anchor base is_set months =
     (let bs_set = (case bs_s of None \<Rightarrow> None | Some s \<Rightarrow> actual_set_at (fb_sets b) s entity (fst base) (snd base) False);
          bs_facts = (case bs_set of None \<Rightarrow> [] | Some f \<Rightarrow> ss_facts f);
          (levers, assertions) = authored_values fm authored;
          (ars, skipped) = run_rules b levers anchor;
          cf_s = newest_actual_structure_id (fb_blocks b) (fb_sets b) ''cash_flow_statement'';
          base_is = first_seen (ss_facts is_set);
          base_bs = first_seen bs_facts;
          horizon_end = (if months = [] then snd base else snd (last months));
          ctx = run_context b entity cf_s is_set bs_set base_is base_bs (fst base) horizon_end;
          sc = run_scenario b (rp_parse p) (rp_iter p) fm levers assertions ars (merged_calculations b is_s bs_s) base_is base_bs ctx;
          rt = \<lparr>rt_scenario = scenario, rt_entity = entity, rt_is = is_s, rt_bs = bs_s, rt_cf = (if ctx = None then None else cf_s)\<rparr>;
          w = \<lparr>ws_prior = put_new (dict_of (ss_facts is_set)) bs_facts, ws_prior_bs = dict_of bs_facts,
               ws_prev_end = snd base, ws_prev_month = anchor\<rparr>;
          (sets, resp) = compute_forecast sc (verify_month_sets (rp_engine p) rt) (rp_fresh p) (rp_now p) rt
            (anchor \<noteq> fm_base fm) w months (fb_sets b)
      in (sets, resp\<lparr>fr_skipped := skipped @ fr_skipped resp\<rparr>))"

text \<open>The months come from the anchor, the entity from the request, the levers or the graph.\<close>

definition run_entity :: "forecast_books \<Rightarrow> forecast_request \<Rightarrow> statement_set \<Rightarrow> forecast_error + string" where
  "run_entity b q lever =
     (if truthy (fq_entity q) then Inr (the (fq_entity q))
      else if ss_entity lever \<noteq> [] then Inr (ss_entity lever)
      else case fb_entities b of [] \<Rightarrow> Inl NoEntity | e # _ \<Rightarrow> Inr e)"

definition run_length :: "forecast_mechanics \<Rightarrow> forecast_request \<Rightarrow> nat" where
  "run_length fm q = (case fq_months q of None \<Rightarrow> fm_horizon fm | Some n \<Rightarrow> if n = 0 then fm_horizon fm else n)"

definition cmd_compute_forecast :: "run_parameters \<Rightarrow> forecast_request \<Rightarrow> forecast_books \<Rightarrow> forecast_error + forecast_books \<times> forecast_response" where
  "cmd_compute_forecast p q b =
     (let scenario = fq_structure q; fm = fb_mechanics b scenario in
      case map_of (fb_blocks b) scenario of
        None \<Rightarrow> Inl StructureNotFound
      | Some block \<Rightarrow>
          if block \<noteq> ''forecast'' then Inl (NotAForecast block)
          else if fm_horizon fm < run_length fm q then Inl (MonthsBeyondHorizon (run_length fm q) (fm_horizon fm))
          else case load_lever_set (fb_sets b) scenario of
            None \<Rightarrow> Inl NoLeverSet
          | Some lever \<Rightarrow>
              bindR (run_entity b q lever) (\<lambda>entity.
              case newest_actual_structure_id (fb_blocks b) (fb_sets b) ''income_statement'' of
                None \<Rightarrow> Inl NoActualIncomeStatement
              | Some is_s \<Rightarrow>
                  let bs_s = newest_actual_structure_id (fb_blocks b) (fb_sets b) ''balance_sheet'' in
                  bindR (period_step (anchor_period b fm is_s bs_s entity)) (\<lambda>anchor.
                  bindR (period_step (period_date_range anchor)) (\<lambda>base.
                  case actual_set_at (fb_sets b) is_s entity (fst base) (snd base) False of
                    None \<Rightarrow> Inl (NoBaseStatement anchor)
                  | Some is_set \<Rightarrow>
                      bindR (period_step (forecast_months (fm_base fm) (fm_horizon fm) anchor (run_length fm q))) (\<lambda>ms.
                      bindR (period_step (month_ends ms)) (\<lambda>months.
                        let (sets, resp) = forecast_run p b fm scenario entity is_s bs_s
                              (fb_authored b (ss_id lever)) anchor base is_set months
                        in Inr (b\<lparr>fb_sets := sets\<rparr>, resp)))))))"

end
