(* ===== verification/CalcFacts.thy ===== *)
theory CalcFacts
  imports CalcDag
begin

text \<open>
  Kahn's algorithm orders an acyclic calculation DAG, resolution in such an order satisfies
  every arc, and resolution is linear in the direct facts.
\<close>

subsection \<open>Dicts\<close>

lemma amount_update [simp]: "amount (AList.update k v m) e = (if e = k then v else amount m e)"
  by (simp add: amount_def AList.update_conv')

lemma amount_Nil [simp]: "amount [] e = 0"
  by (simp add: amount_def)

lemma amount_absent: "e \<notin> fst ` set m \<Longrightarrow> amount m e = 0"
  by (simp add: amount_def map_of_eq_None_iff [THEN iffD2])

lemma update_keys [simp]: "fst ` set (AList.update k v m) = insert k (fst ` set m)"
  by (simp add: AList.dom_update)

lemma children_absent: "e \<notin> targets calcs \<Longrightarrow> children calcs e = []"
  by (simp add: children_def targets_def map_of_eq_None_iff [THEN iffD2])

lemma weighted_cong: "(\<And>s. s \<in> fst ` set cs \<Longrightarrow> f s = g s) \<Longrightarrow> weighted f cs = weighted g cs"
  unfolding weighted_def by (intro arg_cong [where f = sum_list] map_cong) force+

lemma weighted_linear: "weighted (\<lambda>e. f e + x * g e) cs = weighted f cs + x * weighted g cs"
  by (induction cs) (auto simp: weighted_def algebra_simps)

text \<open>A local arc replaces the global arcs of its parent, and only those.\<close>

lemma merge_calculations_children:
  "distinct (map fst local) \<Longrightarrow>
   children (merge_calculations global local) p = (if p \<in> targets local then children local p else children global p)"
proof (induction local arbitrary: global)
  case (Cons l ls)
  obtain q cs where l: "l = (q, cs)" by fastforce
  have "children (AList.update q cs global) p = (if p = q then cs else children global p)"
    by (simp add: children_def AList.update_conv')
  with Cons show ?case
    by (auto simp: l merge_calculations_def targets_def children_def)
qed (simp add: merge_calculations_def targets_def)

subsection \<open>Orders\<close>

text \<open>No subtotal depends on itself or on a later one.\<close>

primrec calc_ordered :: "calculations \<Rightarrow> element_id list \<Rightarrow> bool" where
  "calc_ordered calcs [] \<longleftrightarrow> True"
| "calc_ordered calcs (y # ys) \<longleftrightarrow> y \<notin> set ys \<and> (\<forall>s\<in>set (sources calcs y). s \<notin> set (y # ys)) \<and> calc_ordered calcs ys"

lemma calc_ordered_snoc:
  "calc_ordered calcs (xs @ [y]) \<longleftrightarrow> calc_ordered calcs xs \<and> y \<notin> set xs \<and> y \<notin> set (sources calcs y) \<and>
     (\<forall>x\<in>set xs. y \<notin> set (sources calcs x))"
  by (induction xs) auto

text \<open>The arcs are acyclic: every target has a rank above the targets it sums.\<close>

definition ranked :: "(element_id \<Rightarrow> nat) \<Rightarrow> calculations \<Rightarrow> bool" where
  "ranked rank calcs \<longleftrightarrow> (\<forall>t\<in>targets calcs. \<forall>s\<in>set (sources calcs t). s \<in> targets calcs \<longrightarrow> rank s < rank t)"

definition needs :: "calculations \<Rightarrow> element_id \<Rightarrow> element_id set" where
  "needs calcs t = set (sources calcs t) \<inter> targets calcs"

definition kahn_ok :: "calculations \<Rightarrow> element_id list \<Rightarrow> element_id list \<Rightarrow> (element_id \<times> element_id list) list \<Rightarrow> bool" where
  "kahn_ok calcs ready ordered deps \<longleftrightarrow>
     distinct (map fst deps) \<and> fst ` set deps = targets calcs \<and>
     (\<forall>(t, ds)\<in>set deps. set ds = needs calcs t - set ordered) \<and>
     distinct (ordered @ ready) \<and> set (ordered @ ready) \<subseteq> targets calcs \<and>
     (\<forall>t\<in>targets calcs. needs calcs t \<subseteq> set ordered \<longleftrightarrow> t \<in> set (ordered @ ready)) \<and>
     calc_ordered calcs ordered"

lemma kahn_okD:
  assumes "kahn_ok calcs ready ordered deps"
  shows "distinct (map fst deps)" "fst ` set deps = targets calcs"
    "(t, ds) \<in> set deps \<Longrightarrow> set ds = needs calcs t - set ordered"
    "distinct (ordered @ ready)" "set (ordered @ ready) \<subseteq> targets calcs"
    "t \<in> targets calcs \<Longrightarrow> needs calcs t \<subseteq> set ordered \<longleftrightarrow> t \<in> set (ordered @ ready)"
    "calc_ordered calcs ordered"
  using assms unfolding kahn_ok_def by blast+

lemma newly_ready_set:
  assumes "kahn_ok calcs (n # ready) ordered deps"
  shows "t \<in> set (newly_ready n (ordered @ [n]) ready deps) \<longleftrightarrow>
    t \<in> targets calcs \<and> n \<in> needs calcs t \<and> needs calcs t \<subseteq> set (ordered @ [n]) \<and> t \<notin> set (ordered @ [n]) \<and> t \<notin> set ready"
proof -
  have n: "n \<notin> set ordered" using kahn_okD(4) [OF assms] by simp
  have empty: "removeAll n ds = [] \<longleftrightarrow> set ds \<subseteq> {n}" for ds by (auto simp flip: set_empty)
  have "t \<in> set (newly_ready n (ordered @ [n]) ready deps) \<longleftrightarrow>
      (\<exists>ds. (t, ds) \<in> set deps \<and> n \<in> set ds \<and> set ds \<subseteq> {n}) \<and> t \<notin> set (ordered @ [n]) \<and> t \<notin> set ready"
    by (auto simp: newly_ready_def empty image_iff)
  also have "(\<exists>ds. (t, ds) \<in> set deps \<and> n \<in> set ds \<and> set ds \<subseteq> {n}) \<longleftrightarrow>
      t \<in> targets calcs \<and> n \<in> needs calcs t \<and> needs calcs t \<subseteq> set (ordered @ [n])"
    (is "?l \<longleftrightarrow> ?r")
  proof
    assume ?l
    then obtain ds where ds: "(t, ds) \<in> set deps" "n \<in> set ds" "set ds \<subseteq> {n}" by blast
    moreover have "t \<in> targets calcs" using ds(1) kahn_okD(2) [OF assms] by force
    ultimately show ?r using kahn_okD(3) [OF assms ds(1)] by auto
  next
    assume r: ?r
    then have "t \<in> fst ` set deps" using kahn_okD(2) [OF assms] by simp
    then obtain ds where ds: "(t, ds) \<in> set deps" by auto
    with r n kahn_okD(3) [OF assms ds] show ?l by (intro exI [of _ ds]) auto
  qed
  finally show ?thesis by blast
qed

lemma distinct_newly_ready:
  "distinct (map fst deps) \<Longrightarrow> distinct (newly_ready n ordered ready deps)"
  by (simp add: newly_ready_def distinct_map_filter)

lemma kahn_step_ok:
  assumes ok: "kahn_ok calcs (n # ready) ordered deps"
  shows "kahn_ok calcs (ready @ newly_ready n (ordered @ [n]) ready deps) (ordered @ [n]) (drop_dep n deps)"
proof -
  note inv = kahn_okD [OF ok]
  note new = newly_ready_set [OF ok]
  have fsts: "map fst (drop_dep n deps) = map fst deps" by (simp add: drop_dep_def case_prod_beta)
  have n: "n \<in> targets calcs" "n \<notin> set ordered" "n \<notin> set ready" using inv(4,5) by auto
  have closed: "needs calcs x \<subseteq> set ordered" if "x \<in> set ordered" for x
    using inv(5) inv(6) [of x] that by auto
  have deps: "set ds = needs calcs t - set (ordered @ [n])" if "(t, ds) \<in> set (drop_dep n deps)" for t ds
    using that inv(3) by (auto simp: drop_dep_def)
  have mine: "needs calcs n \<subseteq> set ordered" using inv(6) [OF n(1)] by simp
  have "calc_ordered calcs (ordered @ [n])"
    unfolding calc_ordered_snoc using inv(7) n closed mine by (auto simp: needs_def)
  moreover have "distinct ((ordered @ [n]) @ ready @ newly_ready n (ordered @ [n]) ready deps)"
    using inv(4) distinct_newly_ready [OF inv(1)] new by auto
  moreover have "set ((ordered @ [n]) @ ready @ newly_ready n (ordered @ [n]) ready deps) \<subseteq> targets calcs"
    using inv(5) new by auto
  moreover have "needs calcs t \<subseteq> set (ordered @ [n]) \<longleftrightarrow>
      t \<in> set ((ordered @ [n]) @ ready @ newly_ready n (ordered @ [n]) ready deps)" if "t \<in> targets calcs" for t
    using new [of t] inv(6) [OF that] mine that by auto
  moreover have "fst ` set (drop_dep n deps) = targets calcs"
    using inv(2) fsts by (metis list.set_map)
  ultimately show ?thesis
    unfolding kahn_ok_def using inv(1) deps fsts by auto
qed

lemma kahn_result:
  "kahn_ok calcs ready ordered deps \<Longrightarrow> \<exists>deps'. kahn_ok calcs [] (kahn ready ordered deps) deps'"
proof (induction ready ordered deps rule: kahn.induct)
  case (1 ordered deps)
  then show ?case by auto
next
  case (2 n ready ordered deps)
  from 2(1) [OF kahn_step_ok [OF 2(2)]] show ?case by simp
qed

lemma initial_ok:
  assumes "distinct ts" "set ts = targets calcs"
  shows "kahn_ok calcs (map fst (filter (\<lambda>d. snd d = []) (initial_deps ts calcs))) [] (initial_deps ts calcs)"
proof -
  have fsts: "map fst (initial_deps ts calcs) = ts" by (simp add: initial_deps_def comp_def)
  have "set (map fst (filter (\<lambda>d. snd d = []) (initial_deps ts calcs))) = {t \<in> set ts. needs calcs t = {}}"
  proof -
    have "filter (\<lambda>s. s \<in> set ts) (sources calcs t) = [] \<longleftrightarrow> needs calcs t = {}" for t
      using assms(2) by (auto simp: needs_def filter_empty_conv)
    then show ?thesis by (simp add: initial_deps_def filter_map comp_def)
  qed
  moreover have "distinct (map fst (filter (\<lambda>d. snd d = []) (initial_deps ts calcs)))"
    using fsts assms(1) by (simp add: distinct_map_filter)
  moreover have "fst ` set (initial_deps ts calcs) = targets calcs"
    using fsts assms(2) by (metis list.set_map)
  ultimately show ?thesis
    unfolding kahn_ok_def using fsts assms by (auto simp: initial_deps_def needs_def)
qed

lemma acyclic_all_ordered:
  assumes "kahn_ok calcs [] ordered deps" "ranked rank calcs"
  shows "set ordered = targets calcs"
proof (rule ccontr)
  assume "set ordered \<noteq> targets calcs"
  with kahn_okD(5) [OF assms(1)] obtain t where "t \<in> targets calcs - set ordered" by auto
  then obtain t where t: "t \<in> targets calcs - set ordered"
    and least: "\<And>s. s \<in> targets calcs - set ordered \<Longrightarrow> rank t \<le> rank s"
    using ex_has_least_nat [of "\<lambda>s. s \<in> targets calcs - set ordered" t rank] by blast
  with kahn_okD(6) [OF assms(1), of t] obtain s where s: "s \<in> needs calcs t" "s \<notin> set ordered" by auto
  with assms(2) t have "rank s < rank t" by (auto simp: ranked_def needs_def)
  with least [of s] s show False by (auto simp: needs_def)
qed

lemma acyclic_sorted:
  assumes "distinct ts" "set ts = targets calcs" "ranked rank calcs"
  shows "calc_ordered calcs (topo_sort_calculations ts calcs)"
    and "set (topo_sort_calculations ts calcs) = targets calcs"
proof -
  obtain deps where ok: "kahn_ok calcs []
      (kahn (map fst (filter (\<lambda>d. snd d = []) (initial_deps ts calcs))) [] (initial_deps ts calcs)) deps"
    using kahn_result [OF initial_ok [OF assms(1,2)]] by blast
  from acyclic_all_ordered [OF ok assms(3)] kahn_okD(7) [OF ok] assms(2)
  show "calc_ordered calcs (topo_sort_calculations ts calcs)" "set (topo_sort_calculations ts calcs) = targets calcs"
    by (simp_all add: topo_sort_calculations_def Let_def)
qed

text \<open>
  Kahn's algorithm sorts an acyclic DAG of calculation arcs, whatever the order in which
  the set of the targets is iterated: every target is in the result once, and none is before
  a target it sums.
\<close>

theorem topo_sort_orders:
  assumes "distinct ts" "set ts = targets calcs" "ranked rank calcs"
  shows "calc_ordered calcs (topo_sort_calculations ts calcs) \<and> set (topo_sort_calculations ts calcs) = targets calcs"
  using acyclic_sorted [OF assms] by simp

subsection \<open>Resolution\<close>

text \<open>The amounts of the resolution, without the order of the dict.\<close>

lemma amount_resolve_step:
  "amount (resolve_step present calcs m e) d =
   (if d = e then (if e \<in> present then amount m e else weighted (amount m) (children calcs e)) else amount m d)"
  by (simp add: resolve_step_def)

lemma resolve_Nil [simp]: "resolve_calc_dag m present calcs [] = m"
  and resolve_Cons [simp]: "resolve_calc_dag m present calcs (e # es) =
    resolve_calc_dag (resolve_step present calcs m e) present calcs es"
  by (simp_all add: resolve_calc_dag_def)

lemma resolve_other: "e \<notin> set order \<Longrightarrow> amount (resolve_calc_dag m present calcs order) e = amount m e"
  by (induction order arbitrary: m) (simp_all add: amount_resolve_step)

lemma resolve_keys: "fst ` set (resolve_calc_dag m present calcs order) = fst ` set m \<union> set order"
  by (induction order arbitrary: m) (auto simp: resolve_step_def)

text \<open>
  What resolution promises: an element that is present, or no subtotal, keeps its direct
  amount, and every other subtotal is the weighted sum of its children's resolved amounts.
\<close>

definition foots :: "amounts \<Rightarrow> element_id set \<Rightarrow> calculations \<Rightarrow> element_id set \<Rightarrow> (element_id \<Rightarrow> rat) \<Rightarrow> bool" where
  "foots balances present calcs subtotals f \<longleftrightarrow>
     (\<forall>e. f e = (if e \<in> subtotals \<and> e \<notin> present then weighted f (children calcs e) else amount balances e))"

lemma resolve_foots:
  "calc_ordered calcs order \<Longrightarrow>
   foots balances present calcs (set order) (amount (resolve_calc_dag balances present calcs order))"
proof (induction order arbitrary: balances)
  case (Cons y ys)
  let ?m = "resolve_step present calcs balances y"
  let ?f = "amount (resolve_calc_dag ?m present calcs ys)"
  from Cons.prems have y: "y \<notin> set ys" "\<forall>s\<in>set (sources calcs y). s \<notin> set (y # ys)" by auto
  have ih: "?f e = (if e \<in> set ys \<and> e \<notin> present then weighted ?f (children calcs e) else amount ?m e)" for e
    using Cons.IH [of ?m] Cons.prems by (simp add: foots_def)
  have "weighted ?f (children calcs y) = weighted (amount balances) (children calcs y)"
    using y(2) by (intro weighted_cong) (auto simp: resolve_other amount_resolve_step sources_def)
  then have "?f e = (if e \<in> set (y # ys) \<and> e \<notin> present then weighted ?f (children calcs e) else amount balances e)" for e
    using ih [of e] y(1) by (auto simp: amount_resolve_step)
  then show ?case unfolding foots_def resolve_Cons by blast
qed (simp add: foots_def)

text \<open>
  C35. Resolving the subtotals of an acyclic DAG in the order of Kahn's algorithm satisfies all
  arcs at once: every subtotal without a direct fact is the weighted sum of the resolved
  amounts of its children, at any depth of chaining, and every direct fact is kept.
\<close>

theorem resolved_subtotals_foot:
  assumes "distinct ts" "set ts = targets calcs" "ranked rank calcs"
  shows "foots balances present calcs (targets calcs)
    (amount (resolve_calc_dag balances present calcs (topo_sort_calculations ts calcs)))"
proof -
  have "calc_ordered calcs (topo_sort_calculations ts calcs)" "set (topo_sort_calculations ts calcs) = targets calcs"
    using acyclic_sorted [OF assms] by auto
  with resolve_foots [of calcs "topo_sort_calculations ts calcs" balances present] show ?thesis by simp
qed

text \<open>Resolution is linear in the direct amounts.\<close>

lemma resolve_linear:
  assumes "\<And>e. amount m e = amount a e + x * amount b e"
  shows "amount (resolve_calc_dag m present calcs order) e =
    amount (resolve_calc_dag a present calcs order) e + x * amount (resolve_calc_dag b present calcs order) e"
  using assms
proof (induction order arbitrary: m a b)
  case (Cons y ys)
  have "weighted (amount m) cs = weighted (amount a) cs + x * weighted (amount b) cs" for cs
    using weighted_linear [of "amount a" x "amount b" cs] Cons.prems by (simp add: fun_eq_iff [symmetric] weighted_def)
  with Cons.prems show ?case
    unfolding resolve_Cons by (intro Cons.IH) (auto simp: amount_resolve_step)
qed simp

text \<open>The presence of an element that is no subtotal does not matter.\<close>

lemma resolve_present_cong:
  "present \<inter> set order = present' \<inter> set order \<Longrightarrow>
   resolve_calc_dag m present calcs order = resolve_calc_dag m present' calcs order"
  by (induction order arbitrary: m) (auto simp: resolve_step_def)

lemma resolve_amount_cong:
  assumes "\<And>e. amount m e = amount m' e"
  shows "amount (resolve_calc_dag m present calcs order) e = amount (resolve_calc_dag m' present calcs order) e"
  using resolve_linear [of m m' 0 "[]" present calcs order e] assms by simp

text \<open>
  How much one unit of a leaf contributes to a subtotal: the sum over the paths of the
  products of their weights, which resolution computes from the unit.
\<close>

definition share :: "element_id \<Rightarrow> element_id set \<Rightarrow> calculations \<Rightarrow> element_id list \<Rightarrow> element_id \<Rightarrow> rat" where
  "share leaf present calcs order e = amount (resolve_calc_dag [(leaf, 1)] present calcs order) e"

lemma resolve_update:
  assumes "leaf \<notin> set order"
  shows "amount (resolve_calc_dag (AList.update leaf v m) (insert leaf present) calcs order) e =
    amount (resolve_calc_dag m present calcs order) e + (v - amount m leaf) * share leaf present calcs order e"
proof -
  have "resolve_calc_dag (AList.update leaf v m) (insert leaf present) calcs order =
      resolve_calc_dag (AList.update leaf v m) present calcs order"
    using assms by (intro resolve_present_cong) auto
  then show ?thesis
    using resolve_linear [of "AList.update leaf v m" m "v - amount m leaf" "[(leaf, 1)]" present calcs order e]
    by (simp add: share_def amount_def AList.update_conv')
qed

end
