(* ===== verification/ForecastFacts.thy ===== *)
theory ForecastFacts
  imports ForecastWalk CalcFacts
begin

text \<open>
  The statements of a forecast month: when the rolled balance sheet balances, how far the
  cash flow is from the change of cash, and what schedules contribute over a walk.
\<close>

subsection \<open>The balance sheet\<close>

lemma carried_keys:
  assumes "cx_cash ctx = Some cash"
  shows "cash \<notin> fst ` set bs \<Longrightarrow>
    cash \<notin> fst ` set (foldl (carried_line ctx prior rules rule_targets calcs) bs es)"
proof (induction es arbitrary: bs)
  case (Cons e es)
  have "cash \<notin> fst ` set (carried_line ctx prior rules rule_targets calcs bs e)"
    using Cons.prems assms by (auto simp: carried_line_def simp del: image_iff)
  then show ?case using Cons.IH by simp
qed simp

lemma rule_line_keys:
  "cash \<notin> fst ` set bs \<Longrightarrow> cash \<notin> set es \<Longrightarrow> cash \<notin> fst ` set (foldl (rule_line rules calcs) bs es)"
proof (induction es arbitrary: bs)
  case (Cons e es)
  have "cash \<notin> fst ` set (rule_line rules calcs bs e)"
    using Cons.prems by (simp add: rule_line_def)
  then show ?case using Cons.IH Cons.prems by simp
qed simp

text \<open>Cash is no line of the roll: it is what remains.\<close>

lemma roll_lines_cash:
  assumes "cx_cash ctx = Some cash" "cash \<notin> set rule_targets" "cx_re ctx \<noteq> Some cash"
  shows "cash \<notin> fst ` set (roll_lines ctx d0 d1 prior rules rule_targets is_values calcs)"
proof -
  have "cash \<notin> fst ` set (foldl (rule_line rules calcs) (foldl (carried_line ctx prior rules rule_targets calcs) [] (cx_base_bs ctx)) rule_targets)"
    using assms(2) by (intro rule_line_keys carried_keys [OF assms(1)]) auto
  moreover have "fst ` set (map (\<lambda>(e, v). (e, v + f e)) xs) = fst ` set xs" for f and xs :: amounts
    by (force simp: image_iff)
  ultimately show ?thesis using assms(3) by (auto simp: roll_lines_def Let_def split: option.splits)
qed

text \<open>The sheet's total of an element: the roll resolved over all arcs.\<close>

definition sheet_total :: "calculations \<Rightarrow> element_id list \<Rightarrow> amounts \<Rightarrow> element_id \<Rightarrow> rat" where
  "sheet_total calcs order bs e = amount (resolve_calc_dag bs (fst ` set bs) calcs order) e"

lemma sheet_total_update:
  assumes "leaf \<notin> set order" "leaf \<notin> fst ` set bs"
  shows "sheet_total calcs order (AList.update leaf v bs) e =
    sheet_total calcs order bs e + v * share leaf (fst ` set bs) calcs order e"
  using resolve_update [OF assms(1), of v bs "fst ` set bs" calcs e] amount_absent [OF assms(2)]
  by (simp add: sheet_total_def)

lemma rolled_totals:
  assumes "cx_cash ctx = Some cash" "cx_le ctx = Some le" "cx_assets ctx = Some assets" "le \<noteq> []" "assets \<noteq> []"
    and "cash \<notin> set rule_targets" "cx_re ctx \<noteq> Some cash" "cash \<notin> set order"
    and bs0_def: "bs0 = roll_lines ctx d0 d1 prior rules rule_targets is_values calcs"
    and bs_def: "bs = roll_balance_sheet ctx d0 d1 prior rules rule_targets is_values calcs order"
  shows "sheet_total calcs order bs e = sheet_total calcs order bs0 e +
    (sheet_total calcs order bs0 le - sheet_total calcs order bs0 assets) * share cash (fst ` set bs0) calcs order e"
proof -
  have "bs = AList.update cash (sheet_total calcs order bs0 le - sheet_total calcs order bs0 assets) bs0"
    using assms(1-5) by (simp add: bs_def bs0_def roll_balance_sheet_def sheet_total_def Let_def)
  with sheet_total_update [OF assms(8) roll_lines_cash [OF assms(1,6,7), of d0 d1 prior rules is_values calcs, folded bs0_def]]
  show ?thesis by simp
qed


subsection \<open>The cash flow\<close>

lemma put_subtotal_other:
  "s \<noteq> Some e \<Longrightarrow> amount (put_subtotal always final cf s) e = amount cf e"
  by (auto simp: put_subtotal_def split: option.splits)

text \<open>
  The derived cash flow foots: its net change differs from the change of cash by at most
  the reconciling tolerance, half a cent, whatever the statements hold. (The net change is
  no leaf, and the reconciling line adds to it with weight one.)
\<close>

theorem cash_flow_foots:
  assumes "cx_cash ctx = Some cash" "cx_net_change ctx = Some net" "cx_recon ctx = Some recon"
    and "recon \<notin> set order" "net \<notin> fst ` set (cash_flow_leaves ctx bs prior is_values)" "net \<noteq> recon"
    and "share recon (fst ` set (cash_flow_leaves ctx bs prior is_values)) calcs order net = 1"
    and "cx_investing ctx \<noteq> Some net" "cx_financing ctx \<noteq> Some net"
  shows "\<bar>amount (fst (derive_cash_flow ctx bs prior is_values calcs order)) net - (amount bs cash - amount prior cash)\<bar>
    \<le> reconcile_tolerance"
proof -
  let ?cf = "cash_flow_leaves ctx bs prior is_values"
  let ?delta = "amount bs cash - amount prior cash"
  let ?residual = "?delta - amount (resolve_calc_dag ?cf (fst ` set ?cf) calcs order) net"
  obtain cf plug where cf: "plugged_leaves ctx bs prior calcs order ?cf = (cf, plug)" by fastforce
  let ?final = "resolve_calc_dag cf (fst ` set cf) calcs order"
  have "amount (fst (derive_cash_flow ctx bs prior is_values calcs order)) net = amount ?final net"
    unfolding derive_cash_flow_def cf
    by (simp add: Let_def put_subtotal_other assms(8,9)) (simp add: put_subtotal_def assms(2))
  moreover have "\<bar>amount ?final net - ?delta\<bar> \<le> reconcile_tolerance"
  proof (cases "reconcile_tolerance < \<bar>?residual\<bar>")
    case True
    with cf assms(1-3) have "cf = AList.update recon (amount ?cf recon + ?residual) ?cf"
      by (auto simp: plugged_leaves_def Let_def)
    with resolve_update [OF assms(4), of "amount ?cf recon + ?residual" ?cf "fst ` set ?cf" calcs net] assms(7)
    have "amount ?final net = ?delta" by simp
    then show ?thesis by (simp add: reconcile_tolerance_def)
  next
    case False
    with cf assms(1-3) have "cf = ?cf" by (simp add: plugged_leaves_def Let_def)
    with False show ?thesis by (simp add: abs_minus_commute)
  qed
  ultimately show ?thesis by simp
qed

subsection \<open>Enough fuel\<close>

text \<open>
  More fuel than the definitions pass changes neither a derived value nor the elements a
  push-down visits, so neither stops early.
\<close>

lemma seen_grows:
  "set seen \<subseteq> set (snd (derive_from calcs current n e seen))"
  "set seen \<subseteq> set (snd (derive_sum calcs current n cs acc found seen))"
proof (induction calcs current n e seen and calcs current n cs acc found seen rule: derive_from_derive_sum.induct)
  case (4 calcs current n c w cs acc found seen)
  obtain r s where d: "derive_from calcs current n c seen = (r, s)" by fastforce
  show ?case
  proof (cases "c \<in> fst ` set current")
    case True
    with 4(1) show ?thesis by simp
  next
    case False
    from 4(2) [OF False] d have s: "set seen \<subseteq> set s" by simp
    show ?thesis
    proof (cases r)
      case None
      with 4(3) [OF False d [symmetric]] False d s show ?thesis by auto
    next
      case (Some v)
      with 4(4) [OF False d [symmetric]] False d s show ?thesis by auto
    qed
  qed
qed auto

lemma finite_targets [simp]: "finite (targets calcs)"
  by (simp add: targets_def)

lemma fewer_unseen:
  assumes "card (targets calcs - set seen) < Suc n" "e \<notin> set seen" "children calcs e \<noteq> []"
  shows "card (targets calcs - set (e # seen)) < n"
proof -
  have "e \<in> targets calcs" using assms(3) sources_bound [of calcs e] by (simp add: sources_def)
  then have "targets calcs - set (e # seen) \<subset> targets calcs - set seen" using assms(2) by auto
  then have "card (targets calcs - set (e # seen)) < card (targets calcs - set seen)"
    by (intro psubset_card_mono) simp_all
  with assms(1) show ?thesis by simp
qed

text \<open>One more unit of fuel changes nothing once the fuel exceeds the unseen calculations.\<close>

lemma derive_fuel:
  "card (targets calcs - set seen) < n \<Longrightarrow> derive_from calcs current (Suc n) e seen = derive_from calcs current n e seen"
  "card (targets calcs - set seen) < n \<Longrightarrow>
     derive_sum calcs current (Suc n) cs acc found seen = derive_sum calcs current n cs acc found seen"
proof (induction calcs current n e seen and calcs current n cs acc found seen rule: derive_from_derive_sum.induct)
  case (2 calcs current n e seen)
  then show ?case using fewer_unseen [of calcs seen n e] by (auto simp del: set_simps(2))
next
  case (4 calcs current n c w cs acc found seen)
  have "card (targets calcs - set (snd (derive_from calcs current n c seen))) \<le> card (targets calcs - set seen)"
    using seen_grows(1) [of seen calcs current n c] by (intro card_mono) auto
  then have s: "card (targets calcs - set (snd (derive_from calcs current n c seen))) < n" using 4(5) by simp
  obtain r seen' where d: "derive_from calcs current n c seen = (r, seen')" by fastforce
  show ?case
  proof (cases "c \<in> fst ` set current")
    case True
    with 4(1,5) show ?thesis by simp
  next
    case False
    from 4(2) [OF False 4(5)] d have "derive_from calcs current (Suc n) c seen = (r, seen')" by simp
    with False d s 4(3,4) [OF False d [symmetric]] show ?thesis by (cases r) auto
  qed
qed auto

lemma enough_fuel_derives:
  "length calcs < n \<Longrightarrow> derive_from_children e calcs current = fst (derive_from calcs current n e [])"
proof (induction n)
  case (Suc n)
  have c: "card (targets calcs) \<le> length calcs"
    unfolding targets_def by (rule order_trans [OF card_length]) simp
  show ?case
  proof (cases "n = length calcs")
    case False
    with Suc have "length calcs < n" by simp
    with Suc.IH c derive_fuel(1) [of calcs "[]" n current e] show ?thesis by simp
  qed (simp add: derive_from_children_def)
qed simp

lemma visited_grows: "set visited \<subseteq> set (scale_visit calcs present pinned n cs visited)"
  by (induction calcs present pinned n cs visited rule: scale_visit.induct) auto

lemma visit_fuel:
  "finite present \<Longrightarrow> card (present - set visited) \<le> n \<Longrightarrow>
   scale_visit calcs present pinned (Suc n) cs visited = scale_visit calcs present pinned n cs visited"
proof (induction calcs present pinned n cs visited rule: scale_visit.induct)
  case (2 calcs present pinned c cs visited)
  then have "present \<subseteq> set visited" by simp
  with 2 show ?case by auto
next
  case (3 calcs present pinned n c cs visited)
  show ?case
  proof (cases "c \<in> set visited \<or> c \<notin> present \<or> c \<in> pinned")
    case True
    with 3 show ?thesis by simp
  next
    case False
    then have "present - set (visited @ [c]) \<subset> present - set visited" by auto
    then have "card (present - set (visited @ [c])) < card (present - set visited)"
      using 3(4) by (intro psubset_card_mono) simp_all
    then have c: "card (present - set (visited @ [c])) \<le> n" using 3(5) by simp
    let ?v = "scale_visit calcs present pinned n (sources calcs c) (visited @ [c])"
    have "card (present - set ?v) \<le> card (present - set visited)"
      using visited_grows [of "visited @ [c]" calcs present pinned n "sources calcs c"] 3(4) by (intro card_mono) auto
    with 3 False c show ?thesis by simp
  qed
qed auto

lemma enough_fuel_scales:
  assumes "length current \<le> n"
  shows "scale_visit calcs (fst ` set current) pinned n cs [] = scale_visit calcs (fst ` set current) pinned (length current) cs []"
  using assms
proof (induction n)
  case (Suc n)
  have c: "card (fst ` set current) \<le> length current" by (rule order_trans [OF card_image_le card_length]) simp
  show ?case
  proof (cases "length current = Suc n")
    case False
    with Suc have "length current \<le> n" by simp
    with Suc.IH c visit_fuel [of "fst ` set current" "[]" n calcs pinned cs] show ?thesis by simp
  qed simp
qed simp

end
