(* ===== verification/ForecastResults.thy ===== *)
theory ForecastResults
  imports ForecastFacts
begin

text \<open>
  The run of a forecast: the month it starts from, the push-down of driven values, the line
  of a schedule over the months of a walk, and where the walk stops.
\<close>

subsection \<open>The anchor\<close>

lemma first_by_None: "first_by k xs = None \<longleftrightarrow> xs = []"
  by (cases xs) (auto split: option.splits)

lemma first_by_mem: "first_by k xs = Some x \<Longrightarrow> x \<in> set xs"
  by (induction xs arbitrary: x) (auto split: option.splits if_splits)

lemma month_key_ptext:
  assumes "0 \<le> yr d" "yr d < 10000" "1 \<le> mo d" "mo d \<le> 12"
  shows "month_key d = ptext (yr d * 12 + mo d - 1)"
  using period_name_ptext [OF assms] assms by (simp add: period_name_def month_key_def)

lemma month_key_mono:
  assumes "d \<le> e" "0 \<le> yr d" "yr e < 10000" "1 \<le> mo d" "mo d \<le> 12" "1 \<le> mo e" "mo e \<le> 12"
  shows "month_key d \<le> month_key e"
proof -
  have y: "yr d < 10000" "0 \<le> yr e" "yr d * 12 + mo d \<le> yr e * 12 + mo e"
    using assms by (auto simp: less_eq_pdate_def)
  then have "\<not> ptext (yr e * 12 + mo e - 1) < ptext (yr d * 12 + mo d - 1)"
    using assms by (subst ptext_less) auto
  then show ?thesis using assms y by (simp add: month_key_ptext not_less)
qed

lemma range_month_key:
  assumes "0 \<le> i" "i < 120000" "period_date_range (ptext i) = Inr w"
  shows "month_key (snd w) = ptext i \<and> yr (snd w) = i div 12 \<and> mo (snd w) = i mod 12 + 1"
proof -
  from assms have w: "yr (snd w) = i div 12" "mo (snd w) = i mod 12 + 1"
    by (auto simp: period_date_range_def parse_ptext mk_date_def Let_def split: sum.splits if_splits)
  moreover have "i div 12 * 12 + (i mod 12 + 1) - 1 = i" by simp
  moreover have "0 \<le> i div 12" "i div 12 < 10000" "i mod 12 + 1 \<le> 12" using assms(1,2) by auto
  ultimately show ?thesis using month_key_ptext [of "snd w"] by simp
qed

text \<open>The months of the horizon that carry close-stamped sets.\<close>

definition closed_offset :: "statement_set list \<Rightarrow> string \<Rightarrow> string option \<Rightarrow> string \<Rightarrow> string \<Rightarrow> nat \<Rightarrow> bool" where
  "closed_offset sets is_s bs_s entity base k \<longleftrightarrow>
     (case bindR (add_months base (int k)) period_date_range of
        Inl _ \<Rightarrow> False | Inr w \<Rightarrow> closed_month sets is_s bs_s entity w)"

definition dated :: "statement_set list \<Rightarrow> bool" where
  "dated sets \<longleftrightarrow> list_all (\<lambda>f. 0 \<le> yr (ss_end f) \<and> yr (ss_end f) < 10000 \<and> 1 \<le> mo (ss_end f) \<and> mo (ss_end f) \<le> 12) sets"

lemma foldl_max_ge:
  fixes d :: pdate
  shows "d \<le> foldl max d ds" "x \<in> set ds \<Longrightarrow> x \<le> foldl max d ds" "foldl max d ds \<in> insert d (set ds)"
proof -
  have ge: "d \<le> foldl max d ds" for d :: pdate and ds
    by (induction ds arbitrary: d) (auto intro: order_trans [OF max.cobounded1])
  then show "d \<le> foldl max d ds" .
  show "x \<in> set ds \<Longrightarrow> x \<le> foldl max d ds"
    by (induction ds arbitrary: d) (auto intro: order_trans [OF max.cobounded2 ge])
  show "foldl max d ds \<in> insert d (set ds)" by (induction ds arbitrary: d) (auto simp: max_def)
qed

text \<open>The newest month bounds every month that carries a set.\<close>

lemma newest_bounds:
  assumes "dated sets" "f \<in> set sets" "ss_structure f = s" "ss_type f = ''report''" "ss_scenario f = None" "ss_report f = None"
    "ss_entity f = entity"
  shows "\<exists>newest. newest_actual_month sets s entity = Some newest \<and> month_key (ss_end f) \<le> newest"
proof -
  let ?P = "\<lambda>f. ss_structure f = s \<and> ss_type f = ''report'' \<and> ss_scenario f = None \<and> ss_report f = None \<and> ss_entity f = entity"
  have f: "f \<in> set (filter ?P sets)" using assms by simp
  then obtain g gs where g: "filter ?P sets = g # gs" by (cases "filter ?P sets") auto
  let ?m = "foldl max (ss_end g) (map ss_end gs)"
  have "ss_end f \<le> ?m" using f foldl_max_ge(1) [of "ss_end g" "map ss_end gs"] foldl_max_ge(2) [of "ss_end f" "map ss_end gs" "ss_end g"]
    unfolding g by auto
  moreover have "?m \<in> ss_end ` set sets"
  proof -
    have "?m \<in> ss_end ` set (g # gs)" using foldl_max_ge(3) [of "ss_end g" "map ss_end gs"] by auto
    then show ?thesis unfolding g [symmetric] by auto
  qed
  ultimately have "month_key (ss_end f) \<le> month_key ?m"
    using assms(1,2) by (intro month_key_mono) (auto simp: dated_def list_all_iff)
  with g show ?thesis by (simp add: newest_actual_month_def)
qed

lemma closed_month_newest:
  assumes "dated sets" "closed_month sets is_s bs_s entity w"
  shows "\<exists>newest. newest_actual_month sets is_s entity = Some newest \<and> month_key (snd w) \<le> newest"
proof -
  from assms(2) obtain f where "actual_set_at sets is_s entity (fst w) (snd w) True = Some f"
    by (auto simp: closed_month_def)
  from first_by_mem [OF this [unfolded actual_set_at_def]]
  have "f \<in> set sets" "ss_structure f = is_s" "ss_type f = ''report''" "ss_scenario f = None" "ss_report f = None"
    "ss_entity f = entity" "ss_end f = snd w" by auto
  with newest_bounds [OF assms(1)] show ?thesis by metis
qed

lemma closed_offset_window:
  assumes "0 \<le> i" "12 \<le> i + int k" "i + int k < 120000"
  shows "\<exists>w. period_date_range (ptext (i + int k)) = Inr w \<and> bindR (add_months (ptext i) (int k)) period_date_range = Inr w"
proof -
  have j: "0 \<le> i + int k" using assms(1) by simp
  have y: "1 \<le> (i + int k) div 12" "(i + int k) div 12 \<le> 9999" using assms(2,3) by auto
  have add: "add_months (ptext i) (int k) = Inr (ptext (i + int k))"
    using add_months_ptext [of i "int k"] assms j by simp
  have "\<exists>w. period_date_range (ptext (i + int k)) = Inr w"
    using y by (auto simp: period_date_range_def parse_ptext [OF j assms(3)] mk_date_def last_day_of_month_def month_days_def Let_def)
  with add show ?thesis by simp
qed

lemma scan_anchor_exact:
  assumes "0 \<le> i" "12 \<le> i" "i + int n < 120000" "dated sets" "newest_actual_month sets is_s entity = Some newest"
  shows "\<exists>k\<le>n. scan_anchor sets is_s bs_s entity newest (ptext i) n = Inr (ptext (i + int k)) \<and>
    (k = 0 \<or> closed_offset sets is_s bs_s entity (ptext i) k) \<and>
    (\<forall>j. k < j \<and> j \<le> n \<longrightarrow> \<not> closed_offset sets is_s bs_s entity (ptext i) j)"
  using assms(3)
proof (induction n)
  case (Suc n)
  let ?k = "Suc n"
  from Suc.prems have lim: "i + int n < 120000" by simp
  have lim': "i + int ?k < 120000" "12 \<le> i + int ?k" "0 \<le> i + int ?k" using Suc.prems assms(1,2) by simp_all
  have add: "add_months (ptext i) (int ?k) = Inr (ptext (i + int ?k))"
    using add_months_ptext [of i "int ?k"] assms(1) lim' by simp
  obtain w where w: "period_date_range (ptext (i + int ?k)) = Inr w" "bindR (add_months (ptext i) (int ?k)) period_date_range = Inr w"
    using closed_offset_window [OF assms(1) lim'(2,1)] by blast
  have off: "closed_offset sets is_s bs_s entity (ptext i) ?k \<longleftrightarrow> closed_month sets is_s bs_s entity w"
    using w(2) by (simp add: closed_offset_def)
  have key: "month_key (snd w) = ptext (i + int ?k)" using range_month_key [OF lim'(3,1) w(1)] by simp
  show ?case
  proof (cases "closed_month sets is_s bs_s entity w")
    case True
    with closed_month_newest [OF assms(4) True] assms(5) key have "\<not> newest < ptext (i + int ?k)" by auto
    with True add w(1) off show ?thesis by (intro exI [of _ ?k]) auto
  next
    case False
    from Suc.IH [OF lim] obtain k where k: "k \<le> n" "scan_anchor sets is_s bs_s entity newest (ptext i) n = Inr (ptext (i + int k))"
      "k = 0 \<or> closed_offset sets is_s bs_s entity (ptext i) k"
      "\<forall>j. k < j \<and> j \<le> n \<longrightarrow> \<not> closed_offset sets is_s bs_s entity (ptext i) j" by blast
    have "scan_anchor sets is_s bs_s entity newest (ptext i) ?k = Inr (ptext (i + int k))"
      using False add w(1) k(2) by simp
    moreover have "\<not> closed_offset sets is_s bs_s entity (ptext i) ?k" using False off by simp
    ultimately show ?thesis using k by (intro exI [of _ k]) (auto simp: le_Suc_eq)
  qed
qed auto

text \<open>
  The walk starts from the newest month of the horizon that carries close-stamped
  monthly statements, or from the base when no later month does: the bound taken from the
  newest set of the graph never hides such a month, and a month without statements in
  between does not end the search.
\<close>

theorem anchor_is_newest_closed_month:
  assumes "12 \<le> i" "i + int horizon < 120000" "dated sets"
  shows "\<exists>k\<le>horizon. resolve_anchor_period sets (ptext i) horizon is_s bs_s entity = Inr (ptext (i + int k)) \<and>
    (k = 0 \<or> closed_offset sets is_s bs_s entity (ptext i) k) \<and>
    (\<forall>j. k < j \<and> j \<le> horizon \<longrightarrow> \<not> closed_offset sets is_s bs_s entity (ptext i) j)"
proof (cases "newest_actual_month sets is_s entity")
  case None
  have "\<not> closed_offset sets is_s bs_s entity (ptext i) j" for j
    using closed_month_newest [OF assms(3), of is_s bs_s entity] None by (fastforce simp: closed_offset_def split: sum.splits)
  with None show ?thesis by (intro exI [of _ 0]) (simp add: resolve_anchor_period_def)
next
  case (Some newest)
  from scan_anchor_exact [OF _ assms(1,2,3) Some, of bs_s] assms(1) Some show ?thesis
    by (simp add: resolve_anchor_period_def)
qed

subsection \<open>The push-down\<close>

lemma scale_visit_grows: "set visited \<subseteq> set (scale_visit calcs present pinned n cs visited)"
  by (induction calcs present pinned n cs visited rule: scale_visit.induct) (auto split: if_splits)

lemma scale_visit_covers:
  "c \<in> set cs \<Longrightarrow> c \<in> present \<Longrightarrow> c \<notin> pinned \<Longrightarrow> c \<in> set (scale_visit calcs present pinned n cs visited)"
proof (induction calcs present pinned n cs visited rule: scale_visit.induct)
  case (2 calcs present pinned d cs visited)
  then show ?case
    using scale_visit_grows [of "if d \<in> set visited \<or> d \<notin> present \<or> d \<in> pinned then visited else visited @ [d]" calcs present pinned 0 cs]
    by (auto split: if_splits)
next
  case (3 calcs present pinned n d cs visited)
  have "d \<in> set (scale_visit calcs present pinned n (sources calcs d) (visited @ [d]))"
    using scale_visit_grows [of "visited @ [d]" calcs present pinned n "sources calcs d"] by auto
  then show ?case
    using 3 scale_visit_grows [of visited calcs present pinned "Suc n" cs]
      scale_visit_grows [of "scale_visit calcs present pinned n (sources calcs d) (visited @ [d])" calcs present pinned "Suc n" cs]
    by (auto split: if_splits)
qed simp

text \<open>What is visited is present and not pinned, and below the target in the order of the arcs.\<close>

lemma scale_visit_within:
  assumes "ranked rank calcs" "\<forall>c\<in>set cs. c \<in> targets calcs \<longrightarrow> rank c < k"
    and "\<forall>x\<in>set visited. x \<in> present \<and> x \<notin> pinned \<and> (x \<in> targets calcs \<longrightarrow> rank x < k)"
  shows "\<forall>x\<in>set (scale_visit calcs present pinned n cs visited). x \<in> present \<and> x \<notin> pinned \<and> (x \<in> targets calcs \<longrightarrow> rank x < k)"
  using assms
proof (induction calcs present pinned n cs visited rule: scale_visit.induct)
  case (3 calcs present pinned n c cs visited)
  have "\<forall>s\<in>set (sources calcs c). s \<in> targets calcs \<longrightarrow> rank s < k"
  proof (intro ballI impI)
    fix s assume s: "s \<in> set (sources calcs c)" "s \<in> targets calcs"
    then have "c \<in> targets calcs" using sources_bound [of calcs c] by (cases "sources calcs c") auto
    with 3(4,5) s show "rank s < k" by (force simp: ranked_def)
  qed
  note below = this
  show ?case
  proof (cases "c \<in> set visited \<or> c \<notin> present \<or> c \<in> pinned")
    case True
    from 3(5) have "\<forall>c\<in>set cs. c \<in> targets calcs \<longrightarrow> rank c < k" by simp
    from 3(1) [OF True 3(4) this 3(6)] True show ?thesis by simp
  next
    case False
    have "\<forall>x\<in>set (visited @ [c]). x \<in> present \<and> x \<notin> pinned \<and> (x \<in> targets calcs \<longrightarrow> rank x < k)"
      using False 3(5,6) by auto
    note inner = 3(2) [OF False 3(4) below this]
    from 3(5) have "\<forall>c\<in>set cs. c \<in> targets calcs \<longrightarrow> rank c < k" by simp
    from 3(3) [OF False 3(4) this inner] False show ?thesis by simp
  qed
next
  case (2 calcs present pinned c cs visited)
  let ?v = "if c \<in> set visited \<or> c \<notin> present \<or> c \<in> pinned then visited else visited @ [c]"
  from 2(3) have "\<forall>c\<in>set cs. c \<in> targets calcs \<longrightarrow> rank c < k" by simp
  moreover have "\<forall>x\<in>set ?v. x \<in> present \<and> x \<notin> pinned \<and> (x \<in> targets calcs \<longrightarrow> rank x < k)"
    using 2(3,4) by auto
  ultimately show ?case using 2(1) [OF 2(2)] unfolding scale_visit.simps by blast
qed simp

lemma weighted_filter_split:
  "weighted f (filter P cs) = weighted f (filter (\<lambda>c. P c \<and> Q c) cs) + weighted f (filter (\<lambda>c. P c \<and> \<not> Q c) cs)"
  by (induction cs) (auto simp: weighted_def)

lemma weighted_scaled: "weighted (\<lambda>e. f e * x) cs = x * weighted f cs"
  by (induction cs) (auto simp: weighted_def algebra_simps)

lemma amount_scaled: "amount (map (\<lambda>(e, v). (e, if e \<in> V then v * x else v)) m) e = (if e \<in> V then amount m e * x else amount m e)"
  by (induction m) (auto simp: amount_def)

lemma keys_scaled: "fst ` set (map (\<lambda>(e, v). (e, g e v)) m) = fst ` set m"
  by (force simp: image_iff)


subsection \<open>The walk\<close>

lemma walk_prefix: "map mr_period (fst (walk_months sc verdict w ms)) = map fst (take (length (fst (walk_months sc verdict w ms))) ms)"
proof (induction ms arbitrary: w)
  case (Cons m ms)
  have "mr_period (fst (compute_month sc verdict w m)) = fst m" by (simp add: compute_month_def case_prod_beta Let_def)
  with Cons show ?case by (simp add: case_prod_beta Let_def)
qed simp

text \<open>
  The walk stops at the first month whose verification failed: its months are the first
  ones asked for, in order, none but the last has failed, and when months are missing the
  last one has.
\<close>

theorem walk_stops_at_failure:
  assumes "walk_months sc verdict w ms = (rs, sks)"
  shows "map mr_period rs = map fst (take (length rs) ms) \<and>
    (\<forall>r\<in>set (butlast rs). mr_passed r \<noteq> Some False) \<and>
    (length rs < length ms \<longrightarrow> rs \<noteq> [] \<and> mr_passed (last rs) = Some False)"
proof -
  have "(\<forall>r\<in>set (butlast rs). mr_passed r \<noteq> Some False) \<and> (length rs < length ms \<longrightarrow> rs \<noteq> [] \<and> mr_passed (last rs) = Some False)"
    using assms
  proof (induction ms arbitrary: w rs sks)
    case (Cons m ms)
    obtain r sk where c: "compute_month sc verdict w m = (r, sk)" by fastforce
    show ?case
    proof (cases "mr_passed r = Some False")
      case True
      with Cons.prems c show ?thesis by auto
    next
      case False
      obtain rs' sks' where rest: "walk_months sc verdict (roll_window w r) ms = (rs', sks')" by fastforce
      with Cons.prems c False have "rs = r # rs'" by simp
      with Cons.IH [OF rest] False show ?thesis by auto
    qed
  qed simp
  with walk_prefix [of sc verdict w ms] assms show ?thesis by simp
qed

subsection \<open>The line of a schedule\<close>

definition scheduled :: "articulation \<Rightarrow> element_id \<Rightarrow> string \<Rightarrow> rat" where
  "scheduled ctx e month = (case map_of (sp_duration (cx_schedules ctx)) e of None \<Rightarrow> 0 | Some m \<Rightarrow> get0 m month)"

lemma schedule_is_delta_scheduled: "schedule_is_delta ctx e m p = scheduled ctx e m - scheduled ctx e p"
  by (simp add: schedule_is_delta_def scheduled_def split: option.splits)

lemma carry_forward_amount:
  assumes "e \<in> set pool" "e \<in> fst ` set prior"
  shows "e \<in> fst ` set (carry_forward pool prior) \<and> amount (carry_forward pool prior) e = amount prior e"
proof -
  let ?step = "\<lambda>m e. if e \<in> fst ` set prior then AList.update e (amount prior e) m else m"
  have keeps: "e \<in> fst ` set m \<and> amount m e = amount prior e \<Longrightarrow>
      e \<in> fst ` set (foldl ?step m es) \<and> amount (foldl ?step m es) e = amount prior e" for m es
  proof (induction es arbitrary: m)
    case (Cons x es)
    have "e \<in> fst ` set (?step m x) \<and> amount (?step m x) e = amount prior e"
      using Cons.prems by (cases "x \<in> fst ` set prior") auto
    then show ?case using Cons.IH by simp
  qed simp
  have "e \<in> fst ` set (foldl ?step m pool) \<and> amount (foldl ?step m pool) e = amount prior e" for m
    using assms(1)
  proof (induction pool arbitrary: m)
    case (Cons x pool)
    show ?case
    proof (cases "x = e")
      case True
      have "e \<in> fst ` set (?step m x) \<and> amount (?step m x) e = amount prior e" using True assms(2) by simp
      from keeps [OF this] show ?thesis by simp
    next
      case False
      then show ?thesis using Cons by simp
    qed
  qed simp
  then show ?thesis by (simp add: carry_forward_def)
qed

lemma amount_map_line:
  "e \<in> fst ` set m \<Longrightarrow> amount (map (\<lambda>l. (fst l, g l)) m) e = g (e, amount m e)"
  by (induction m) (auto simp: amount_def)

lemma map_line_keys: "fst ` set (map (\<lambda>l. (fst l, g l)) m) = fst ` set m"
  by force

lemma amount_listed: "amount (map (\<lambda>e. (e, f e)) es) e = (if e \<in> set es then f e else 0)"
  by (induction es) (auto simp: amount_def)

lemma amount_stored:
  "amount (foldl (\<lambda>m f. AList.update (fst f) (snd f) m) m (map (\<lambda>e. (e, f e)) es)) e = (if e \<in> set es then f e else amount m e)"
  by (induction es arbitrary: m) auto

lemma keys_stored:
  "fst ` set (foldl (\<lambda>m f. AList.update (fst f) (snd f) m) m fs) = fst ` set m \<union> fst ` set fs"
  by (induction fs arbitrary: m) auto

lemma amount_stored_other:
  "e \<notin> fst ` set fs \<Longrightarrow> amount (foldl (\<lambda>m f. AList.update (fst f) (snd f) m) m fs) e = amount m e"
  by (induction fs arbitrary: m) auto

text \<open>A scenario in which nothing drives, grows or asserts a line.\<close>

definition unmodelled :: "scenario \<Rightarrow> bool" where
  "unmodelled sc \<longleftrightarrow> sc_rules sc = [] \<and> sc_active_targets sc = [] \<and> sc_growth sc = [] \<and> sc_assertions sc = []"

lemma unmodelled_values:
  assumes "unmodelled sc" "sc_context sc = Some ctx"
  shows "\<exists>sk. month_values sc w m =
    (map (\<lambda>l. (fst l, schedule_line ctx m (ws_prev_month w) l)) (carry_forward (sc_carry sc) (ws_prior w)), [], sk)"
  using assms
  by (simp add: unmodelled_def month_values_def schedule_deltas_def line_growth_def line_assertions_def fall_back_def
      scale_rule_target_children_def Let_def)

lemma carried_bound:
  "fst ` set (foldl (carried_line ctx prior rules rule_targets calcs) bs es) \<subseteq> fst ` set bs \<union> set es"
proof (induction es arbitrary: bs)
  case (Cons x es)
  have "fst ` set (carried_line ctx prior rules rule_targets calcs bs x) \<subseteq> insert x (fst ` set bs)"
    by (auto simp: carried_line_def simp del: image_iff)
  with Cons.IH [of "carried_line ctx prior rules rule_targets calcs bs x"] show ?case by auto
qed simp

lemma roll_bound:
  "fst ` set (roll_balance_sheet ctx d0 d1 prior rules [] is_values calcs order) \<subseteq>
   set (cx_base_bs ctx) \<union> {e. Some e = cx_re ctx \<or> Some e = cx_cash ctx}"
proof -
  have k: "fst ` set (map (\<lambda>(e, v). (e, v + f e)) xs) = fst ` set xs" for f and xs :: amounts
    by (force simp: image_iff)
  have "fst ` set (roll_lines ctx d0 d1 prior rules [] is_values calcs) \<subseteq> set (cx_base_bs ctx) \<union> {e. Some e = cx_re ctx}"
    using carried_bound [of ctx prior rules "[]" calcs "[]" "cx_base_bs ctx"]
    unfolding roll_lines_def Let_def by (auto simp: k simp del: set_map image_iff split: option.splits)
  then show ?thesis by (auto simp: roll_balance_sheet_def Let_def simp del: image_iff split: option.splits)
qed

lemma balance_facts_keys: "fst ` set (balance_facts sc bs) \<subseteq> fst ` set bs \<union> set (sc_order sc)"
  by (force simp: balance_facts_def Let_def image_image resolve_keys)

lemma income_facts_listed:
  assumes "e \<in> set (sc_base_is sc)" "known sc e" "e \<in> fst ` set resolved"
  shows "\<exists>es. income_facts sc current resolved = map (\<lambda>e. (e, amount resolved e)) es \<and> e \<in> set es"
  unfolding income_facts_def Let_def by (intro exI conjI, rule refl) (use assms in simp)

text \<open>What the next month reads of a line that no balance sheet holds.\<close>

lemma rolled_prior:
  assumes "mr_is r = map (\<lambda>x. (x, f x)) es" "e \<in> set es" "e \<notin> fst ` set (mr_balances r)" "e \<notin> fst ` set (mr_bs r)"
  shows "e \<in> fst ` set (ws_prior (roll_window w r)) \<and> amount (ws_prior (roll_window w r)) e = f e"
proof -
  have mem: "e \<in> fst ` set (mr_is r)" using assms(1,2) by force
  show ?thesis
    using assms(3,4) mem by (simp add: roll_window_def keys_stored amount_stored_other) (simp add: assms(1,2) amount_stored)
qed

lemma unmodelled_month:
  assumes "unmodelled sc" "sc_context sc = Some ctx" "e \<in> set (sc_carry sc)" "e \<in> set (sc_base_is sc)" "known sc e"
    and "e \<notin> set (sc_order sc)" "e \<notin> set (cx_base_bs ctx)" "cx_cash ctx \<noteq> Some e" "cx_re ctx \<noteq> Some e"
    and "e \<in> fst ` set (ws_prior w)" "compute_month sc verdict w m = (r, sk)"
  shows "amount (mr_is r) e = schedule_line ctx (fst m) (ws_prev_month w) (e, amount (ws_prior w) e)"
    and "e \<in> fst ` set (ws_prior (roll_window w r)) \<and> amount (ws_prior (roll_window w r)) e = amount (mr_is r) e"
    and "ws_prev_month (roll_window w r) = fst m"
proof -
  define carried where "carried = carry_forward (sc_carry sc) (ws_prior w)"
  define current where "current = map (\<lambda>l. (fst l, schedule_line ctx (fst m) (ws_prev_month w) l)) carried"
  define resolved where "resolved = resolve_calc_dag current (fst ` set current) (sc_calcs sc) (sc_order sc)"
  from unmodelled_values [OF assms(1,2), of w "fst m"] obtain sk' where v: "month_values sc w (fst m) = (current, [], sk')"
    unfolding current_def carried_def by blast
  have r: "mr_is r = income_facts sc current resolved" "mr_period r = fst m"
    "mr_balances r = month_balances sc w (snd m) current [] resolved"
    "mr_bs r = balance_facts sc (mr_balances r)"
    using assms(2,11) v by (auto simp: compute_month_def Let_def resolved_def)
  have carried: "e \<in> fst ` set carried" "amount carried e = amount (ws_prior w) e"
    using carry_forward_amount [OF assms(3,10)] unfolding carried_def by auto
  have c: "e \<in> fst ` set current" "amount current e = schedule_line ctx (fst m) (ws_prev_month w) (e, amount (ws_prior w) e)"
    using carried(1) amount_map_line [OF carried(1)] carried(2) unfolding current_def map_line_keys by simp_all
  have res: "e \<in> fst ` set resolved" "amount resolved e = amount current e"
    using c(1) resolve_other [OF assms(6)] unfolding resolved_def resolve_keys by simp_all
  obtain es where es: "mr_is r = map (\<lambda>e. (e, amount resolved e)) es" "e \<in> set es"
    using income_facts_listed [OF assms(4,5) res(1), of current] unfolding r(1) by blast
  show is_line: "amount (mr_is r) e = schedule_line ctx (fst m) (ws_prev_month w) (e, amount (ws_prior w) e)"
    using es res(2) c(2) by (simp add: amount_listed)
  have none: "rule_instants sc = []" "asserted_instants sc [] = []"
    using assms(1) by (simp_all add: unmodelled_def rule_instants_def asserted_instants_def)
  have bal: "e \<notin> fst ` set (mr_balances r)"
    using roll_bound [of ctx "snd m" "ws_prev_end w" "ws_prior_bs w" current resolved "sc_calcs sc" "sc_order sc"] assms(2,7,8,9)
    by (auto simp: r(3) month_balances_def none simp del: image_iff)
  have "e \<notin> fst ` set (mr_bs r)"
    using balance_facts_keys [of sc "mr_balances r"] bal assms(6) unfolding r(4) by blast
  from rolled_prior [OF es(1,2) bal this, of w] es
  show "e \<in> fst ` set (ws_prior (roll_window w r)) \<and> amount (ws_prior (roll_window w r)) e = amount (mr_is r) e"
    by (simp add: amount_listed)
  show "ws_prev_month (roll_window w r) = fst m" by (simp add: roll_window_def r(2))
qed

text \<open>
  A scheduled line follows its schedule: over every month of a walk in which nothing
  drives, grows or asserts it, the line is its base value plus what the schedule books in
  the month less what it booked in the base month. The month-over-month differences of the
  walk add up to that, whatever months the schedule skips, as long as no month would take
  the line below zero.
\<close>

theorem scheduled_line_follows_schedule:
  assumes "unmodelled sc" "sc_context sc = Some ctx" "e \<in> set (sc_carry sc)" "e \<in> set (sc_base_is sc)" "known sc e"
    and "e \<notin> set (sc_order sc)" "e \<notin> set (cx_base_bs ctx)" "cx_cash ctx \<noteq> Some e" "cx_re ctx \<noteq> Some e"
    and "e \<in> fst ` set (ws_prior w)"
    and "\<forall>m\<in>set ms. 0 \<le> amount (ws_prior w) e + (scheduled ctx e (fst m) - scheduled ctx e (ws_prev_month w))"
  shows "\<forall>r\<in>set (fst (walk_months sc verdict w ms)).
    amount (mr_is r) e = amount (ws_prior w) e + (scheduled ctx e (mr_period r) - scheduled ctx e (ws_prev_month w))"
  using assms(10,11)
proof (induction ms arbitrary: w)
  case (Cons m ms)
  obtain r sk where c: "compute_month sc verdict w m = (r, sk)" by fastforce
  note month = unmodelled_month [OF assms(1-9) Cons.prems(1) c]
  let ?w = "roll_window w r"
  have line: "amount (mr_is r) e = amount (ws_prior w) e + (scheduled ctx e (fst m) - scheduled ctx e (ws_prev_month w))"
    using month(1) Cons.prems(2) by (simp add: schedule_line_def schedule_is_delta_scheduled clamped_def Let_def)
  have period: "mr_period r = fst m" using c by (auto simp: compute_month_def case_prod_beta Let_def)
  have step: "amount (ws_prior ?w) e + (scheduled ctx e x - scheduled ctx e (ws_prev_month ?w)) =
      amount (ws_prior w) e + (scheduled ctx e x - scheduled ctx e (ws_prev_month w))" for x
    using month(2,3) line by simp
  have "\<forall>m\<in>set ms. 0 \<le> amount (ws_prior ?w) e + (scheduled ctx e (fst m) - scheduled ctx e (ws_prev_month ?w))"
    using Cons.prems(2) unfolding step by simp
  from Cons.IH [OF conjunct1 [OF month(2)] this]
  have "\<forall>r\<in>set (fst (walk_months sc verdict ?w ms)).
      amount (mr_is r) e = amount (ws_prior w) e + (scheduled ctx e (mr_period r) - scheduled ctx e (ws_prev_month w))"
    unfolding step .
  with line period c show ?case by (auto simp: case_prod_beta)
qed simp

subsection \<open>Subtotals of the balance sheet\<close>

lemma carried_no_subtotal:
  assumes "e \<in> targets calcs"
  shows "e \<notin> fst ` set bs \<Longrightarrow> e \<notin> fst ` set (foldl (carried_line ctx prior rules rule_targets calcs) bs es)"
proof (induction es arbitrary: bs)
  case (Cons x es)
  have "e \<notin> fst ` set (carried_line ctx prior rules rule_targets calcs bs x)"
    using Cons.prems assms by (auto simp: carried_line_def simp del: image_iff)
  then show ?case using Cons.IH by simp
qed simp

lemma rule_no_subtotal:
  assumes "e \<in> targets calcs"
  shows "e \<notin> fst ` set bs \<Longrightarrow> e \<notin> fst ` set (foldl (rule_line rules calcs) bs es)"
proof (induction es arbitrary: bs)
  case (Cons x es)
  have "e \<notin> fst ` set (rule_line rules calcs bs x)"
    using Cons.prems assms by (auto simp: rule_line_def simp del: image_iff)
  then show ?case using Cons.IH by simp
qed simp

lemma roll_no_subtotal:
  assumes "e \<in> targets calcs" "cx_re ctx \<noteq> Some e" "cx_cash ctx \<noteq> Some e"
  shows "e \<notin> fst ` set (roll_balance_sheet ctx d0 d1 prior rules rule_targets is_values calcs order)"
proof -
  have k: "fst ` set (map (\<lambda>(e, v). (e, v + f e)) xs) = fst ` set xs" for f and xs :: amounts
    by (force simp: image_iff)
  have "e \<notin> fst ` set (roll_lines ctx d0 d1 prior rules rule_targets is_values calcs)"
    using assms carried_no_subtotal [OF assms(1), of "[]" ctx prior rules rule_targets "cx_base_bs ctx"]
      rule_no_subtotal [OF assms(1), of _ rules rule_targets]
    unfolding roll_lines_def Let_def by (auto simp: k simp del: set_map image_iff split: option.splits)
  with assms(3) show ?thesis
    by (auto simp: roll_balance_sheet_def Let_def simp del: image_iff split: option.splits)
qed

lemma month_parts:
  assumes "compute_month sc verdict w m = (r, sk)"
  shows "\<exists>current asserted resolved. mr_is r = income_facts sc current resolved \<and>
    mr_balances r = month_balances sc w (snd m) current asserted resolved"
proof -
  obtain current asserted skipped where "month_values sc w (fst m) = (current, asserted, skipped)" using prod_cases3 by blast
  with assms have "mr_is r = income_facts sc current (resolve_calc_dag current (fst ` set current) (sc_calcs sc) (sc_order sc)) \<and>
      mr_balances r = month_balances sc w (snd m) current asserted (resolve_calc_dag current (fst ` set current) (sc_calcs sc) (sc_order sc))"
    by (auto simp: compute_month_def Let_def)
  then show ?thesis by blast
qed

text \<open>
  A subtotal of the balance sheet leaves the context of the walk: the base month seeds it as a
  prior value, and the month after the first no longer has it, so a rule that reads it from
  the month before binds once and is skipped from then on.
\<close>

lemma sheet_subtotal_leaves_context:
  assumes "sc_context sc = Some ctx" "e \<in> targets (sc_calcs sc)" "cx_re ctx \<noteq> Some e" "cx_cash ctx \<noteq> Some e"
    and "is_instant sc e" "e \<notin> set (sc_base_is sc)"
    and "compute_month sc verdict w m = (r, sk)" "mr_balances r \<noteq> []"
  shows "e \<notin> fst ` set (ws_prior (roll_window w r))"
proof -
  obtain current asserted resolved where r: "mr_is r = income_facts sc current resolved"
    "mr_balances r = month_balances sc w (snd m) current asserted resolved"
    using month_parts [OF assms(7)] by blast
  have "e \<notin> fst ` set (mr_balances r)"
    using assms(1) roll_no_subtotal [OF assms(2-4)] unfolding r month_balances_def by simp
  moreover have "\<not> known_duration sc e" using assms(5) by (auto simp: is_instant_def known_duration_def split: option.splits)
  then have "e \<notin> fst ` set (mr_is r)"
    using assms(6) unfolding r income_facts_def by (auto simp: Let_def)
  ultimately show ?thesis using assms(8) by (simp add: roll_window_def keys_stored)
qed

end
