(* ===== verification/ForecastRuns.thy ===== *)
theory ForecastRuns
  imports ForecastCommand ForecastResults
begin

text \<open>
  What a run of a forecast leaves in the books: the sets of other scenarios, the actuals and
  the authored levers as they were, the statements of every month it reports, and no set
  outside its window.
\<close>

subsection \<open>One stored month\<close>

definition supplies_fresh :: "(string list \<Rightarrow> string) \<Rightarrow> bool" where
  "supplies_fresh fresh \<longleftrightarrow> (\<forall>xs. fresh xs \<notin> set xs)"

lemma distinct_rows: "distinct (map ss_id sets) \<Longrightarrow> f \<in> set sets \<Longrightarrow> g \<in> set sets \<Longrightarrow> ss_id f = ss_id g \<Longrightarrow> f = g"
  by (simp add: distinct_map inj_on_def)

lemma filter_update_where:
  "(\<And>f. f \<in> set rows \<Longrightarrow> Q f \<Longrightarrow> \<not> P f \<and> \<not> P (g f)) \<Longrightarrow> filter P (update_where Q g rows) = filter P rows"
  by (induction rows) auto

lemma standing_set_member:
  assumes "standing_set sets scenario entity structure end = Some s"
  shows "s \<in> set sets" "ss_structure s = structure" "ss_type s = ''report''" "ss_entity s = entity" "ss_end s = end"
    "ss_scenario s = Some scenario"
  using first_by_mem [OF assms [unfolded standing_set_def]] by auto

text \<open>A set that this scenario does not compute.\<close>

definition not_computed :: "string \<Rightarrow> statement_set \<Rightarrow> bool" where
  "not_computed scenario f \<longleftrightarrow> ss_scenario f \<noteq> Some scenario \<or> (ss_structure f = scenario \<and> ss_type f = ''custom'')"

lemma upsert_spares:
  assumes "distinct (map ss_id sets)" "supplies_fresh fresh"
  shows "filter (not_computed scenario) (upsert_month_set fresh now scenario entity structure window values sets) =
      filter (not_computed scenario) sets"
    and "distinct (map ss_id (upsert_month_set fresh now scenario entity structure window values sets))"
proof -
  show "filter (not_computed scenario) (upsert_month_set fresh now scenario entity structure window values sets) =
      filter (not_computed scenario) sets"
  proof (cases "values = []")
    case False
    show ?thesis
    proof (cases "standing_set sets scenario entity structure (snd window)")
      case (Some s)
      have "filter (not_computed scenario) (update_where (\<lambda>f. ss_id f = ss_id s) (\<lambda>f. f\<lparr>ss_facts := values\<rparr>) sets) =
          filter (not_computed scenario) sets"
      proof (rule filter_update_where)
        fix f assume "f \<in> set sets" "ss_id f = ss_id s"
        with distinct_rows [OF assms(1) _ standing_set_member(1) [OF Some]] have "f = s" by blast
        with standing_set_member [OF Some] show "\<not> not_computed scenario f \<and> \<not> not_computed scenario (f\<lparr>ss_facts := values\<rparr>)"
          by (simp add: not_computed_def)
      qed
      with Some False show ?thesis by (simp add: upsert_month_set_def)
    qed (use False in \<open>simp add: upsert_month_set_def not_computed_def\<close>)
  qed (simp add: upsert_month_set_def)
  have "map ss_id (update_where Q (\<lambda>f. f\<lparr>ss_facts := values\<rparr>) sets) = map ss_id sets" for Q
    by (simp add: update_where_def)
  moreover have "fresh (map ss_id sets) \<notin> set (map ss_id sets)" using assms(2) unfolding supplies_fresh_def ..
  ultimately show "distinct (map ss_id (upsert_month_set fresh now scenario entity structure window values sets))"
    using assms(1) by (simp add: upsert_month_set_def split: option.splits)
qed

lemma upsert_option_spares:
  assumes "distinct (map ss_id sets)" "supplies_fresh fresh"
  shows "filter (not_computed (rt_scenario rt)) (upsert_option fresh now rt s window values sets) =
      filter (not_computed (rt_scenario rt)) sets"
    and "distinct (map ss_id (upsert_option fresh now rt s window values sets))"
  using upsert_spares [OF assms] assms(1) by (auto simp: upsert_option_def split: option.splits)

lemma store_spares:
  assumes "distinct (map ss_id sets)" "supplies_fresh fresh"
  shows "filter (not_computed (rt_scenario rt)) (store_month fresh now rt sets r) = filter (not_computed (rt_scenario rt)) sets"
    and "distinct (map ss_id (store_month fresh now rt sets r))"
  using upsert_option_spares [OF _ assms(2)] assms(1) by (simp_all add: store_month_def Let_def)

lemma store_all_spares:
  assumes "supplies_fresh fresh"
  shows "distinct (map ss_id sets) \<Longrightarrow>
      filter (not_computed (rt_scenario rt)) (foldl (store_month fresh now rt) sets rs) = filter (not_computed (rt_scenario rt)) sets \<and>
      distinct (map ss_id (foldl (store_month fresh now rt) sets rs))"
  by (induction rs arbitrary: sets) (simp_all add: store_spares [OF _ assms])

lemma sweep_spares:
  "filter (not_computed (rt_scenario rt)) (fst (sweep_scenario_sets rt bound sets)) = filter (not_computed (rt_scenario rt)) sets"
  by (auto simp: sweep_scenario_sets_def swept_def not_computed_def intro!: filter_cong)

lemma compute_spares:
  assumes "distinct (map ss_id sets)" "supplies_fresh fresh"
    and "compute_forecast sc verdict fresh now rt moved w months sets = (sets', resp)"
  shows "filter (not_computed (rt_scenario rt)) sets' = filter (not_computed (rt_scenario rt)) sets"
  using assms store_all_spares [OF assms(2,1)]
  by (auto simp: compute_forecast_def sweep_spares invalidate_stale_tail_def invalidate_superseded_head_def Let_def
      split: prod.splits if_splits)

lemma run_spares:
  assumes "distinct (map ss_id (fb_sets b))" "supplies_fresh (rp_fresh p)"
    and "forecast_run p b fm scenario entity is_s bs_s authored anchor base is_set months = (sets', resp)"
  shows "filter (not_computed scenario) sets' = filter (not_computed scenario) (fb_sets b)"
  using assms(3) by (auto simp: forecast_run_def Let_def split: prod.splits dest!: compute_spares [OF assms(1,2)])

text \<open>
  C33. A forecast run touches nothing but what its scenario computed: the actuals, the sets of
  other scenarios and the authored levers of its own are the same rows in the same order
  after it, however far it walked, where it halted and whatever it swept.
\<close>

theorem run_spares_other_sets:
  assumes "distinct (map ss_id (fb_sets b))" "supplies_fresh (rp_fresh p)"
    and "cmd_compute_forecast p q b = Inr (b', resp)"
  shows "filter (not_computed (fq_structure q)) (fb_sets b') = filter (not_computed (fq_structure q)) (fb_sets b)"
proof -
  obtain entity is_s bs_s authored anchor base is_set months sets' resp' where
    "forecast_run p b (fb_mechanics b (fq_structure q)) (fq_structure q) entity is_s bs_s authored anchor base is_set months = (sets', resp')"
    "b' = b\<lparr>fb_sets := sets'\<rparr>"
    using assms(3) by (auto simp: cmd_compute_forecast_def bindR_def Let_def split: option.splits sum.splits if_splits prod.splits)
  with run_spares [OF assms(1,2)] show ?thesis by simp
qed

subsection \<open>The months a run reports\<close>

text \<open>The set that stands for a structure and a month end, by what it matches.\<close>

definition stands_for :: "run_target \<Rightarrow> string \<Rightarrow> pdate \<Rightarrow> statement_set \<Rightarrow> bool" where
  "stands_for rt structure end f \<longleftrightarrow> ss_structure f = structure \<and> ss_type f = ''report'' \<and> ss_entity f = rt_entity rt \<and>
     ss_end f = end \<and> ss_scenario f = Some (rt_scenario rt)"

definition stored_statement :: "run_target \<Rightarrow> statement_set list \<Rightarrow> string \<Rightarrow> pdate \<Rightarrow> amounts option" where
  "stored_statement rt sets structure end = map_option ss_facts (standing_set sets (rt_scenario rt) (rt_entity rt) structure end)"

lemma standing_set_stands:
  "standing_set sets (rt_scenario rt) (rt_entity rt) structure end = first_by (\<lambda>f. - ss_created f) (filter (stands_for rt structure end) sets)"
  unfolding standing_set_def by (rule arg_cong [where f = "first_by _"], rule filter_cong) (auto simp: stands_for_def)

lemma first_by_map: "first_by k (map h xs) = map_option h (first_by (\<lambda>x. k (h x)) xs)"
  by (induction xs) (auto split: option.splits)

lemma filter_map_same: "(\<And>x. P (h x) = P x) \<Longrightarrow> filter P (map h xs) = map h (filter P xs)"
  by (induction xs) auto

lemma replaced_standing:
  "first_by (\<lambda>f. - ss_created f) (filter (stands_for rt structure end) (update_where Q (\<lambda>f. f\<lparr>ss_facts := values\<rparr>) sets)) =
   map_option (\<lambda>f. if Q f then f\<lparr>ss_facts := values\<rparr> else f) (first_by (\<lambda>f. - ss_created f) (filter (stands_for rt structure end) sets))"
proof -
  let ?h = "\<lambda>f. if Q f then f\<lparr>ss_facts := values\<rparr> else f"
  have "filter (stands_for rt structure end) (map ?h sets) = map ?h (filter (stands_for rt structure end) sets)"
    by (rule filter_map_same) (simp add: stands_for_def)
  moreover have "(\<lambda>f. - ss_created (?h f)) = (\<lambda>f. - ss_created f)" by auto
  ultimately show ?thesis by (simp add: update_where_def first_by_map)
qed

lemma upsert_stored:
  assumes "values \<noteq> []"
  shows "stored_statement rt (upsert_month_set fresh now (rt_scenario rt) (rt_entity rt) structure window values sets) structure (snd window) = Some values"
proof (cases "standing_set sets (rt_scenario rt) (rt_entity rt) structure (snd window)")
  case None
  then have "filter (stands_for rt structure (snd window)) sets = []" by (simp add: standing_set_stands first_by_None)
  with None assms show ?thesis by (simp add: upsert_month_set_def stored_statement_def standing_set_stands stands_for_def)
next
  case (Some s)
  with assms show ?thesis by (simp add: upsert_month_set_def stored_statement_def standing_set_stands replaced_standing)
qed

lemma upsert_stored_other:
  assumes "distinct (map ss_id sets)" "(structure, snd window) \<noteq> (structure', end')"
  shows "stored_statement rt (upsert_month_set fresh now (rt_scenario rt) (rt_entity rt) structure window values sets) structure' end' =
    stored_statement rt sets structure' end'"
proof (cases "values = []")
  case False
  show ?thesis
  proof (cases "standing_set sets (rt_scenario rt) (rt_entity rt) structure (snd window)")
    case None
    have "\<not> stands_for rt structure' end' \<lparr>ss_id = x, ss_structure = structure, ss_type = ''report'', ss_entity = rt_entity rt, ss_start = fst window,
        ss_end = snd window, ss_scenario = Some (rt_scenario rt), ss_report = None, ss_created = now, ss_facts = values\<rparr>" for x
      using assms(2) by (auto simp: stands_for_def)
    with None False show ?thesis by (simp add: upsert_month_set_def stored_statement_def standing_set_stands)
  next
    case (Some s)
    have "(if ss_id f = ss_id s then f\<lparr>ss_facts := values\<rparr> else f) = f"
      if "first_by (\<lambda>f. - ss_created f) (filter (stands_for rt structure' end') sets) = Some f" for f
    proof -
      from first_by_mem [OF that] have f: "f \<in> set sets" "stands_for rt structure' end' f" by auto
      with standing_set_member [OF Some] assms(2) have "f \<noteq> s" by (auto simp: stands_for_def)
      with distinct_rows [OF assms(1) f(1) standing_set_member(1) [OF Some]] have "ss_id f \<noteq> ss_id s" by blast
      then show ?thesis by simp
    qed
    with Some False show ?thesis
      by (cases "first_by (\<lambda>f. - ss_created f) (filter (stands_for rt structure' end') sets)")
        (simp_all add: upsert_month_set_def stored_statement_def standing_set_stands replaced_standing)
  qed
qed (simp add: upsert_month_set_def)

lemma upsert_option_other:
  assumes "distinct (map ss_id sets)" "\<And>x. s = Some x \<Longrightarrow> (x, snd window) \<noteq> (structure', end')"
  shows "stored_statement rt (upsert_option fresh now rt s window values sets) structure' end' = stored_statement rt sets structure' end'"
  using upsert_stored_other [OF assms(1)] assms(2) by (auto simp: upsert_option_def split: option.splits)

text \<open>The statement sets of a run have structures of their own.\<close>

definition separate_statements :: "run_target \<Rightarrow> bool" where
  "separate_statements rt \<longleftrightarrow> rt_bs rt \<noteq> Some (rt_is rt) \<and> rt_cf rt \<noteq> Some (rt_is rt)"

lemma store_month_other:
  assumes "distinct (map ss_id sets)" "supplies_fresh fresh" "mr_end r \<noteq> end'"
  shows "stored_statement rt (store_month fresh now rt sets r) structure' end' = stored_statement rt sets structure' end'"
  using assms upsert_option_spares(2) [OF _ assms(2)] by (simp add: store_month_def Let_def upsert_option_other)

lemma store_month_stored:
  assumes "distinct (map ss_id sets)" "supplies_fresh fresh" "separate_statements rt" "mr_is r \<noteq> []"
  shows "stored_statement rt (store_month fresh now rt sets r) (rt_is rt) (mr_end r) = Some (mr_is r)"
proof -
  let ?window = "(month_start (mr_end r), mr_end r)"
  let ?is = "upsert_option fresh now rt (Some (rt_is rt)) ?window (mr_is r) sets"
  let ?bs = "upsert_option fresh now rt (rt_bs rt) ?window (mr_bs r) ?is"
  have d: "distinct (map ss_id ?is)" "distinct (map ss_id ?bs)"
    using upsert_option_spares(2) [OF _ assms(2)] assms(1) by auto
  have "stored_statement rt (upsert_option fresh now rt (rt_cf rt) ?window (mr_cf r) ?bs) (rt_is rt) (mr_end r) =
      stored_statement rt ?bs (rt_is rt) (mr_end r)"
    using assms(3) by (intro upsert_option_other [OF d(2)]) (auto simp: separate_statements_def)
  also have "\<dots> = stored_statement rt ?is (rt_is rt) (mr_end r)"
    using assms(3) by (intro upsert_option_other [OF d(1)]) (auto simp: separate_statements_def)
  also have "\<dots> = Some (mr_is r)"
    using upsert_stored [OF assms(4), of rt fresh now "rt_is rt" ?window sets] by (simp add: upsert_option_def)
  finally show ?thesis by (simp add: store_month_def Let_def)
qed

lemma store_all_other:
  assumes "supplies_fresh fresh"
  shows "distinct (map ss_id sets) \<Longrightarrow> end' \<notin> set (map mr_end rs) \<Longrightarrow>
    stored_statement rt (foldl (store_month fresh now rt) sets rs) structure' end' = stored_statement rt sets structure' end'"
proof (induction rs arbitrary: sets)
  case (Cons r rs)
  have "distinct (map ss_id (store_month fresh now rt sets r))" using store_spares(2) [OF Cons.prems(1) assms] .
  with Cons store_month_other [OF Cons.prems(1) assms, of r end' rt now structure'] show ?case by auto
qed simp

lemma store_all_stored:
  assumes "supplies_fresh fresh" "separate_statements rt"
  shows "distinct (map ss_id sets) \<Longrightarrow> distinct (map mr_end rs) \<Longrightarrow> r \<in> set rs \<Longrightarrow> mr_is r \<noteq> [] \<Longrightarrow>
    stored_statement rt (foldl (store_month fresh now rt) sets rs) (rt_is rt) (mr_end r) = Some (mr_is r)"
proof (induction rs arbitrary: sets)
  case (Cons r' rs)
  have d: "distinct (map ss_id (store_month fresh now rt sets r'))" using store_spares(2) [OF Cons.prems(1) assms(1)] .
  show ?case
  proof (cases "r = r'")
    case True
    have "mr_end r \<notin> set (map mr_end rs)" using Cons.prems(2) True by simp
    from store_all_other [OF assms(1) d this] show ?thesis
      using store_month_stored [OF Cons.prems(1) assms Cons.prems(4)] True by simp
  next
    case False
    with Cons.IH [OF d] Cons.prems show ?thesis by simp
  qed
qed simp

lemma sweep_stored:
  assumes "\<not> bound end'"
  shows "stored_statement rt (fst (sweep_scenario_sets rt bound sets)) structure' end' = stored_statement rt sets structure' end'"
proof -
  have "filter (stands_for rt structure' end') (filter (\<lambda>f. \<not> swept rt bound f) sets) = filter (stands_for rt structure' end') sets"
    unfolding filter_filter by (rule filter_cong) (use assms in \<open>auto simp: stands_for_def swept_def\<close>)
  then show ?thesis by (simp add: stored_statement_def standing_set_stands sweep_scenario_sets_def)
qed

lemma walk_ends: "map mr_end (fst (walk_months sc verdict w ms)) = map snd (take (length (fst (walk_months sc verdict w ms))) ms)"
proof (induction ms arbitrary: w)
  case (Cons m ms)
  have "mr_end (fst (compute_month sc verdict w m)) = snd m" by (simp add: compute_month_def case_prod_beta Let_def)
  with Cons show ?case by (simp add: case_prod_beta Let_def)
qed simp

lemma sorted_wrt_take_last:
  "sorted_wrt (<) xs \<Longrightarrow> x \<in> set (take n xs) \<Longrightarrow> x \<le> last (take n (xs :: 'a::linorder list))"
proof (induction xs arbitrary: n)
  case (Cons y ys)
  then obtain k where n: "n = Suc k" by (cases n) auto
  show ?case
  proof (cases "take k ys = []")
    case False
    from Cons.prems(1) have "\<forall>z\<in>set (take k ys). y < z" by (auto dest: in_set_takeD)
    then have "y < last (take k ys)" using False by simp
    with Cons n False show ?thesis by auto
  qed (use Cons.prems n in auto)
qed simp

text \<open>
  C34. What a run reports is what it leaves behind: the income statement of every month in the
  response stands in the books under the scenario, the entity and the month's end, with
  exactly the values of the response, whatever earlier runs had stored there and whatever the
  two sweeps removed.
\<close>

theorem reported_months_are_stored:
  assumes "distinct (map ss_id sets)" "supplies_fresh fresh" "separate_statements rt"
    and "sorted_wrt (<) (map snd months)" "\<forall>m\<in>set months. ws_prev_end w < snd m"
    and "compute_forecast sc verdict fresh now rt moved w months sets = (sets', resp)"
    and "r \<in> set (fr_months resp)" "mr_is r \<noteq> []"
  shows "stored_statement rt sets' (rt_is rt) (mr_end r) = Some (mr_is r)"
proof -
  define rs where "rs = fst (walk_months sc verdict w months)"
  define stored where "stored = foldl (store_month fresh now rt) sets rs"
  have rs: "fr_months resp = rs" and nonempty: "months \<noteq> []"
    and sets': "sets' = (let tail = fst (invalidate_stale_tail rt (mr_end (last rs)) stored)
        in if moved then fst (invalidate_superseded_head rt (ws_prev_end w) tail) else tail)"
    using assms(6,7) by (auto simp: compute_forecast_def rs_def stored_def Let_def split: prod.splits if_splits)
  have ends: "map mr_end rs = take (length rs) (map snd months)"
    using walk_ends [of sc verdict w months] by (simp add: rs_def take_map)
  have "distinct (map mr_end rs)"
    using assms(4) unfolding ends by (meson distinct_take strict_sorted_iff sorted_wrt_take)
  with store_all_stored [OF assms(2,3,1)] assms(7,8) rs
  have stands: "stored_statement rt stored (rt_is rt) (mr_end r) = Some (mr_is r)" by (simp add: stored_def)
  have r: "mr_end r \<in> set (take (length rs) (map snd months))" using assms(7) rs unfolding ends [symmetric] by simp
  have "mr_end r \<le> mr_end (last rs)"
    using sorted_wrt_take_last [OF assms(4) r] assms(7) rs unfolding ends [symmetric] by (subst (asm) last_map) auto
  moreover have "ws_prev_end w < mr_end r" using assms(5) in_set_takeD [OF r] by auto
  ultimately show ?thesis
    using stands by (simp add: sets' Let_def invalidate_stale_tail_def invalidate_superseded_head_def sweep_stored)
qed

text \<open>
  After a run with months to compute, the scenario holds nothing past the last month it
  reports: a walk that halted, or was asked for fewer months than an earlier one, leaves no
  later set of the entity but the authored levers.
\<close>

theorem run_leaves_no_tail:
  assumes "compute_forecast sc verdict fresh now rt moved w months sets = (sets', resp)" "months \<noteq> []"
  shows "\<forall>f\<in>set sets'. ss_scenario f = Some (rt_scenario rt) \<longrightarrow> ss_entity f = rt_entity rt \<longrightarrow>
    ss_end f \<le> mr_end (last (fr_months resp)) \<or> (ss_structure f = rt_scenario rt \<and> ss_type f = ''custom'')"
  using assms by (auto simp: compute_forecast_def invalidate_stale_tail_def invalidate_superseded_head_def sweep_scenario_sets_def
      swept_def Let_def split: prod.splits if_splits)

end
