(* ===== verification/ForecastExamples.thy ===== *)
theory ForecastExamples
  imports ForecastRuns
begin

text \<open>
  The properties of the forecast on concrete charts, statements and walks.
\<close>

subsection \<open>Subtotals and statements\<close>

definition demo_profit :: calculations where
  "demo_profit = [(''GrossProfit'', [(''Revenues'', 1), (''CostOfRevenue'', - 1)]), (''Revenues'', [(''Sales'', 1), (''Fees'', 1)])]"

definition demo_sales :: amounts where
  "demo_sales = [(''Sales'', 90), (''Fees'', 30), (''CostOfRevenue'', 50)]"

definition demo_rank :: "element_id \<Rightarrow> nat" where
  "demo_rank e = (if e = ''GrossProfit'' then 1 else 0)"

lemma demo_profit_ranked: "ranked demo_rank demo_profit"
  by (auto simp: ranked_def targets_def sources_def children_def demo_rank_def demo_profit_def)

lemma resolved_subtotals_foot_witness:
  "amount (resolve_calc_dag demo_sales (fst ` set demo_sales) demo_profit
     (topo_sort_calculations [''GrossProfit'', ''Revenues''] demo_profit)) ''GrossProfit'' = 70"
proof -
  let ?f = "amount (resolve_calc_dag demo_sales (fst ` set demo_sales) demo_profit
     (topo_sort_calculations [''GrossProfit'', ''Revenues''] demo_profit))"
  have "foots demo_sales (fst ` set demo_sales) demo_profit (targets demo_profit) ?f"
    by (rule resolved_subtotals_foot [OF _ _ demo_profit_ranked]) (auto simp: targets_def demo_profit_def)
  then have f: "?f e = (if e \<in> targets demo_profit \<and> e \<notin> fst ` set demo_sales then weighted ?f (children demo_profit e)
      else amount demo_sales e)" for e
    unfolding foots_def by blast
  note eval = targets_def children_def weighted_def amount_def demo_profit_def demo_sales_def
  have "?f ''Sales'' = 90" "?f ''Fees'' = 30" "?f ''CostOfRevenue'' = 50"
    unfolding f [of "''Sales''"] f [of "''Fees''"] f [of "''CostOfRevenue''"] by (simp_all add: eval)
  moreover from this have "?f ''Revenues'' = 120"
    by (subst f) (simp add: demo_profit_def demo_sales_def targets_def children_def weighted_def)
  ultimately show ?thesis
    by (subst f) (simp add: demo_profit_def demo_sales_def targets_def children_def weighted_def)
qed

definition demo_sheet :: "element_id \<Rightarrow> articulation" where
  "demo_sheet cash =
     \<lparr>cx_has_cf = True, cx_base_bs = [cash, ''ppe'', ''debt'', ''re''], cx_cash = Some cash, cx_re = Some ''re'',
      cx_ni = Some ''ni'', cx_assets = Some ''assets'', cx_le = Some ''le'', cx_net_change = Some ''net'',
      cx_recon = Some ''other'', cx_operating = Some ''ocf'', cx_investing = None, cx_financing = None,
      cx_derivations = [(''receivables'', [(''ppe'', - 1)])],
      cx_schedules = \<lparr>sp_duration = [(''dep'', [(''2025-01'', 4), (''2025-03'', 7)])], sp_instant = [], sp_unrouted = []\<rparr>\<rparr>"

definition demo_arcs :: calculations where
  "demo_arcs = [(''assets'', [(''cash'', 1), (''ppe'', 1)]), (''le'', [(''debt'', 1), (''re'', 1)]),
     (''ocf'', [(''ni'', 1), (''other'', 1)]), (''net'', [(''ocf'', 1)])]"

definition demo_prior :: amounts where
  "demo_prior = [(''ppe'', 5), (''debt'', 2), (''re'', 3)]"

definition demo_roll :: "element_id \<Rightarrow> amounts" where
  "demo_roll cash = roll_balance_sheet (demo_sheet cash) (Date 2025 2 28) (Date 2025 1 31) demo_prior []
     [] [(''ni'', 4)] demo_arcs [''assets'', ''le'', ''ocf'', ''net'']"


lemma cash_flow_foots_witness:
  "\<bar>amount (fst (derive_cash_flow (demo_sheet ''cash'') (demo_roll ''cash'') demo_prior [(''ni'', 3)] demo_arcs [''assets'', ''le'', ''ocf'', ''net'']))
      ''net'' - 4\<bar> \<le> reconcile_tolerance"
proof -
  have "amount (demo_roll ''cash'') ''cash'' - amount demo_prior ''cash'' = 4" by code_simp
  moreover have "share ''other'' (fst ` set (cash_flow_leaves (demo_sheet ''cash'') (demo_roll ''cash'') demo_prior [(''ni'', 3)])) demo_arcs
      [''assets'', ''le'', ''ocf'', ''net''] ''net'' = 1" by code_simp
  moreover have "''net'' \<notin> fst ` set (cash_flow_leaves (demo_sheet ''cash'') (demo_roll ''cash'') demo_prior [(''ni'', 3)])" by code_simp
  ultimately show ?thesis
    using cash_flow_foots [of "demo_sheet ''cash''" "''cash''" "''net''" "''other''" "[''assets'', ''le'', ''ocf'', ''net'']"
        "demo_roll ''cash''" demo_prior "[(''ni'', 3)]" demo_arcs] by (simp add: demo_sheet_def)
qed

subsection \<open>The walk\<close>

definition demo_sets :: "statement_set list" where
  "demo_sets = map (\<lambda>(m, d, n, scenario, t).
     \<lparr>ss_id = n, ss_structure = ''is'', ss_type = ''report'', ss_entity = ''e'', ss_start = Date 2025 m 1, ss_end = Date 2025 m d,
      ss_scenario = scenario, ss_report = None, ss_created = t, ss_facts = []\<rparr>)
     [(1, 31, ''f1'', None, 1), (3, 31, ''f3'', None, 2), (4, 30, ''s4'', Some ''plan'', 3)]"

lemma demo_windows:
  "bindR (add_months (ptext 24300) 1) period_date_range = Inr (Date 2025 2 1, Date 2025 2 28)"
  "bindR (add_months (ptext 24300) 2) period_date_range = Inr (Date 2025 3 1, Date 2025 3 31)"
  "bindR (add_months (ptext 24300) 3) period_date_range = Inr (Date 2025 4 1, Date 2025 4 30)"
  using add_months_ptext [of 24300 1] add_months_ptext [of 24300 2] add_months_ptext [of 24300 3]
  by (simp_all add: period_date_range_def parse_ptext mk_date_def last_day_of_month_def month_days_def is_leap_def Let_def)

lemma demo_window:
  assumes "1 \<le> k" "k \<le> 3"
  shows "closed_offset demo_sets ''is'' None ''e'' (ptext 24300) k \<longleftrightarrow> k = 2"
proof -
  have closed: "closed_month demo_sets ''is'' None ''e'' (Date 2025 m 1, Date 2025 m d) \<longleftrightarrow> (m, d) \<in> {(1, 31), (3, 31)}" for m d
    by (auto simp: closed_month_def actual_set_at_def demo_sets_def less_eq_pdate_def)
  from assms consider "k = 1" | "k = 2" | "k = 3" by linarith
  then show ?thesis
    by cases (simp_all add: closed_offset_def demo_windows closed)
qed

lemma anchor_is_newest_closed_month_witness:
  "resolve_anchor_period demo_sets (ptext 24300) 3 ''is'' None ''e'' = Inr (ptext 24302)"
proof -
  have "dated demo_sets" by (simp add: dated_def demo_sets_def)
  from anchor_is_newest_closed_month [of 24300 3, OF _ _ this, of "''is''" None "''e''"]
  obtain k where k: "k \<le> 3" "resolve_anchor_period demo_sets (ptext 24300) 3 ''is'' None ''e'' = Inr (ptext (24300 + int k))"
    "k = 0 \<or> closed_offset demo_sets ''is'' None ''e'' (ptext 24300) k"
    "\<forall>j. k < j \<and> j \<le> 3 \<longrightarrow> \<not> closed_offset demo_sets ''is'' None ''e'' (ptext 24300) j" by auto
  have "k = 2" using k(3,4) demo_window [of 2] demo_window [of k] k(1) by (cases "k = 0") auto
  with k(2) show ?thesis by simp
qed

definition demo_driven :: amounts where
  "demo_driven = [(''opex'', 10), (''rent'', 3), (''wages'', 2)]"

definition demo_opex :: calculations where
  "demo_opex = [(''opex'', [(''rent'', 1), (''wages'', 1)])]"


definition demo_scenario :: scenario where
  "demo_scenario =
     \<lparr>sc_elements = [\<lparr>el_id = ''dep'', el_qname = Some ''rs-gaap:Depreciation'', el_period = ''duration''\<rparr>], sc_parse = (\<lambda>_. None),
      sc_carry = [''dep''], sc_growth = [], sc_growth_qnames = [], sc_assertions = [], sc_assert_period = [], sc_levers = [],
      sc_rules = [], sc_active_targets = [], sc_calcs = demo_arcs, sc_order = [''assets'', ''le'', ''ocf'', ''net''],
      sc_base_is = [''dep''], sc_base_bs = [''cash'', ''ppe'', ''debt'', ''re''], sc_context = Some (demo_sheet ''cash'')\<rparr>"

definition demo_start :: walk_state where
  "demo_start = \<lparr>ws_prior = (''dep'', 9) # demo_prior, ws_prior_bs = demo_prior, ws_prev_end = Date 2025 1 31, ws_prev_month = ''2025-01''\<rparr>"

definition demo_months :: "(string \<times> pdate) list" where
  "demo_months = [(''2025-02'', Date 2025 2 28), (''2025-03'', Date 2025 3 31), (''2025-04'', Date 2025 4 30)]"

text \<open>A verdict that looks at the month only.\<close>

lemma month_verdict: "mr_passed (fst (compute_month sc (\<lambda>m _ _ _. f m) w m)) = f (fst m)"
  by (simp add: compute_month_def case_prod_beta Let_def)

lemma walk_by_month:
  "fst (walk_months sc (\<lambda>m _ _ _. f m) w (m # ms)) = fst (compute_month sc (\<lambda>m _ _ _. f m) w m) #
     (if f (fst m) = Some False then []
      else fst (walk_months sc (\<lambda>m _ _ _. f m) (roll_window w (fst (compute_month sc (\<lambda>m _ _ _. f m) w m))) ms))"
  using month_verdict [of sc f w m] by (simp add: case_prod_beta Let_def)

lemma walk_stops_at_failure_witness:
  "length (fst (walk_months demo_scenario (\<lambda>m _ _ _. Some (m = ''2025-02'')) demo_start demo_months)) = 2 \<and>
   mr_passed (last (fst (walk_months demo_scenario (\<lambda>m _ _ _. Some (m = ''2025-02'')) demo_start demo_months))) = Some False"
proof -
  let ?w = "walk_months demo_scenario (\<lambda>m _ _ _. Some (m = ''2025-02'')) demo_start demo_months"
  have "length (fst ?w) = 2" unfolding demo_months_def walk_by_month by simp
  moreover have "length demo_months = 3" by (simp add: demo_months_def)
  moreover from calculation walk_stops_at_failure [of demo_scenario "\<lambda>m _ _ _. Some (m = ''2025-02'')" demo_start demo_months "fst ?w" "snd ?w"]
  have "mr_passed (last (fst ?w)) = Some False" by simp
  ultimately show ?thesis by simp
qed

lemma scheduled_line_follows_schedule_witness:
  "map (\<lambda>r. amount (mr_is r) ''dep'') (fst (walk_months demo_scenario (\<lambda>_ _ _ _. None) demo_start demo_months)) = [5, 12, 5]"
proof -
  let ?w = "fst (walk_months demo_scenario (\<lambda>_ _ _ _. None) demo_start demo_months)"
  have "\<forall>r\<in>set ?w. amount (mr_is r) ''dep'' = amount (ws_prior demo_start) ''dep'' +
      (scheduled (demo_sheet ''cash'') ''dep'' (mr_period r) - scheduled (demo_sheet ''cash'') ''dep'' (ws_prev_month demo_start))"
    by (rule scheduled_line_follows_schedule)
      (simp_all add: unmodelled_def known_def element_of_def find_row_def demo_scenario_def demo_sheet_def demo_start_def demo_months_def
        demo_prior_def scheduled_def get0_def amount_def)
  then have "map (\<lambda>r. amount (mr_is r) ''dep'') ?w = map (\<lambda>p. amount (ws_prior demo_start) ''dep'' +
      (scheduled (demo_sheet ''cash'') ''dep'' p - scheduled (demo_sheet ''cash'') ''dep'' (ws_prev_month demo_start))) (map mr_period ?w)"
    by simp
  moreover have "length ?w = 3" unfolding demo_months_def walk_by_month by simp
  then have "map mr_period ?w = [''2025-02'', ''2025-03'', ''2025-04'']"
    by (simp add: walk_prefix) (simp add: demo_months_def)
  moreover have "amount (ws_prior demo_start) ''dep'' = 9" "scheduled (demo_sheet ''cash'') ''dep'' (ws_prev_month demo_start) = 4"
    "map (scheduled (demo_sheet ''cash'') ''dep'') [''2025-02'', ''2025-03'', ''2025-04''] = [0, 7, 0]" by code_simp+
  ultimately show ?thesis by simp
qed

subsection \<open>Runs\<close>

definition demo_supply :: "string list \<Rightarrow> string" where
  "demo_supply xs = CHR ''x'' # concat xs"

lemma demo_supply: "supplies_fresh demo_supply"
proof -
  have "length x \<le> length (concat xs)" if "x \<in> set xs" for x :: string and xs
    using that by (induction xs) auto
  then have "demo_supply xs \<notin> set xs" for xs by (force simp: demo_supply_def)
  then show ?thesis by (simp add: supplies_fresh_def)
qed

definition demo_target :: run_target where
  "demo_target = \<lparr>rt_scenario = ''plan'', rt_entity = ''e'', rt_is = ''is'', rt_bs = Some ''bs'', rt_cf = Some ''cf''\<rparr>"

definition demo_run :: "statement_set list \<times> forecast_response" where
  "demo_run = compute_forecast demo_scenario (\<lambda>_ _ _ _. None) demo_supply 9 demo_target True demo_start demo_months demo_sets"

lemma demo_run_months: "fr_months (snd demo_run) = fst (walk_months demo_scenario (\<lambda>_ _ _ _. None) demo_start demo_months)"
  by (simp add: demo_run_def compute_forecast_def case_prod_beta Let_def)

lemma demo_run_ends: "map mr_end (fr_months (snd demo_run)) = [Date 2025 2 28, Date 2025 3 31, Date 2025 4 30]"
proof -
  have "length (fst (walk_months demo_scenario (\<lambda>_ _ _ _. None) demo_start demo_months)) = 3"
    unfolding demo_months_def walk_by_month by simp
  then show ?thesis by (simp add: demo_run_months walk_ends) (simp add: demo_months_def)
qed

lemma demo_first_month:
  "\<exists>r. r \<in> set (fr_months (snd demo_run)) \<and> mr_end r = Date 2025 2 28 \<and> mr_is r \<noteq> []"
proof -
  obtain r sk where c: "compute_month demo_scenario (\<lambda>_ _ _ _. None) demo_start (''2025-02'', Date 2025 2 28) = (r, sk)" by fastforce
  have "amount (mr_is r) ''dep'' = schedule_line (demo_sheet ''cash'') (fst (''2025-02'', Date 2025 2 28)) (ws_prev_month demo_start)
      (''dep'', amount (ws_prior demo_start) ''dep'')"
    by (rule unmodelled_month(1) [OF _ _ _ _ _ _ _ _ _ _ c])
      (simp_all add: unmodelled_def known_def element_of_def find_row_def demo_scenario_def demo_sheet_def demo_start_def demo_prior_def)
  moreover have "schedule_line (demo_sheet ''cash'') (fst (''2025-02'', Date 2025 2 28)) (ws_prev_month demo_start)
      (''dep'', amount (ws_prior demo_start) ''dep'') = 5" by code_simp
  ultimately have "mr_is r \<noteq> []" by auto
  moreover have "fst (compute_month demo_scenario (\<lambda>_ _ _ _. None) demo_start (''2025-02'', Date 2025 2 28)) \<in> set (fr_months (snd demo_run))"
    unfolding demo_run_months demo_months_def walk_by_month by (rule list.set_intros(1))
  moreover have "mr_end r = Date 2025 2 28" using c by (auto simp: compute_month_def case_prod_beta Let_def)
  ultimately show ?thesis using c by auto
qed

lemma reported_months_are_stored_witness:
  "\<exists>v. v \<noteq> [] \<and> stored_statement demo_target (fst demo_run) ''is'' (Date 2025 2 28) = Some v"
proof -
  obtain r where r: "r \<in> set (fr_months (snd demo_run))" "mr_end r = Date 2025 2 28" "mr_is r \<noteq> []"
    using demo_first_month by blast
  have "stored_statement demo_target (fst demo_run) (rt_is demo_target) (mr_end r) = Some (mr_is r)"
  proof (rule reported_months_are_stored [OF _ demo_supply])
    show "distinct (map ss_id demo_sets)" by (simp add: demo_sets_def)
    show "separate_statements demo_target" by (simp add: separate_statements_def demo_target_def)
    show "sorted_wrt (<) (map snd demo_months)" "\<forall>m\<in>set demo_months. ws_prev_end demo_start < snd m"
      by (simp_all add: demo_months_def demo_start_def less_pdate_def)
    show "compute_forecast demo_scenario (\<lambda>_ _ _ _. None) demo_supply 9 demo_target True demo_start demo_months demo_sets =
        (fst demo_run, snd demo_run)" by (simp add: demo_run_def)
  qed (use r in auto)
  with r show ?thesis by (auto simp: demo_target_def)
qed

lemma run_leaves_no_tail_witness:
  "ss_end \<lparr>ss_id = ''x'', ss_structure = ''is'', ss_type = ''report'', ss_entity = ''e'', ss_start = Date 2025 5 1, ss_end = Date 2025 5 31,
     ss_scenario = Some ''plan'', ss_report = None, ss_created = 1, ss_facts = []\<rparr> > mr_end (last (fr_months (snd demo_run))) \<and>
   \<lparr>ss_id = ''x'', ss_structure = ''is'', ss_type = ''report'', ss_entity = ''e'', ss_start = Date 2025 5 1, ss_end = Date 2025 5 31,
     ss_scenario = Some ''plan'', ss_report = None, ss_created = 1, ss_facts = []\<rparr> \<notin> set (fst demo_run)"
proof -
  have tail: "\<forall>f\<in>set (fst demo_run). ss_scenario f = Some (rt_scenario demo_target) \<longrightarrow> ss_entity f = rt_entity demo_target \<longrightarrow>
      ss_end f \<le> mr_end (last (fr_months (snd demo_run))) \<or> (ss_structure f = rt_scenario demo_target \<and> ss_type f = ''custom'')"
    by (rule run_leaves_no_tail [of demo_scenario "\<lambda>_ _ _ _. None" demo_supply 9 demo_target True demo_start demo_months demo_sets])
      (simp_all add: demo_run_def demo_months_def)
  have "mr_end (last (fr_months (snd demo_run))) = Date 2025 4 30"
    using demo_run_ends by (cases "fr_months (snd demo_run)" rule: rev_cases) auto
  with tail show ?thesis by (auto simp: demo_target_def less_pdate_def less_eq_pdate_def)
qed

definition demo_levers :: statement_set where
  "demo_levers = \<lparr>ss_id = ''l1'', ss_structure = ''plan'', ss_type = ''custom'', ss_entity = ''e'', ss_start = Date 2025 2 1,
     ss_end = Date 2025 4 30, ss_scenario = Some ''plan'', ss_report = None, ss_created = 5, ss_facts = []\<rparr>"

definition demo_forecast :: forecast_books where
  "demo_forecast =
     \<lparr>fb_blocks = [(''plan'', ''forecast''), (''is'', ''income_statement'')],
      fb_mechanics = (\<lambda>_. \<lparr>fm_base = ptext 24300, fm_horizon = 1, fm_seam = False, fm_levers = [], fm_assertions = [], fm_growth = []\<rparr>),
      fb_sets = demo_levers # demo_sets, fb_authored = (\<lambda>_. []), fb_entities = [''e''], fb_elements = [], fb_rules = [], fb_library = [],
      fb_local = (\<lambda>_. []), fb_specials = Map.empty, fb_derivations = [], fb_mapping = (\<lambda>_. None), fb_rows = (\<lambda>_ _ _ _. [])\<rparr>"

definition demo_parameters :: run_parameters where
  "demo_parameters = \<lparr>rp_parse = (\<lambda>_. None), rp_engine = (\<lambda>_ _ _. []), rp_fresh = demo_supply, rp_iter = (\<lambda>xs. xs), rp_now = 9\<rparr>"

definition demo_query :: forecast_request where
  "demo_query = \<lparr>fq_structure = ''plan'', fq_months = None, fq_entity = None\<rparr>"

lemma demo_ranges:
  "period_date_range (ptext 24300) = Inr (Date 2025 1 1, Date 2025 1 31)"
  "period_date_range (ptext 24301) = Inr (Date 2025 2 1, Date 2025 2 28)"
  "add_months (ptext 24300) 1 = Inr (ptext 24301)"
  using add_months_ptext [of 24300 1]
  by (simp_all add: period_date_range_def parse_ptext mk_date_def last_day_of_month_def month_days_def is_leap_def Let_def)

lemma demo_query_succeeds: "\<exists>b' resp. cmd_compute_forecast demo_parameters demo_query demo_forecast = Inr (b', resp)"
proof -
  have "newest_actual_structure_id (fb_blocks demo_forecast) (fb_sets demo_forecast) ''income_statement'' = Some ''is''"
    "load_lever_set (fb_sets demo_forecast) ''plan'' = Some demo_levers"
    "actual_set_at (fb_sets demo_forecast) ''is'' ''e'' (Date 2025 1 1) (Date 2025 1 31) False \<noteq> None"
    by (simp_all add: newest_actual_structure_id_def load_lever_set_def actual_set_at_def demo_forecast_def demo_levers_def demo_sets_def
        less_eq_pdate_def)
  moreover have "run_length (fb_mechanics demo_forecast ''plan'') demo_query = 1" "run_entity demo_forecast demo_query demo_levers = Inr ''e''"
    "map_of (fb_blocks demo_forecast) ''plan'' = Some ''forecast''" "fq_structure demo_query = ''plan''"
    "fm_base (fb_mechanics demo_forecast ''plan'') = ptext 24300" "fm_horizon (fb_mechanics demo_forecast ''plan'') = 1"
    by (simp_all add: run_length_def run_entity_def demo_query_def demo_forecast_def demo_levers_def)
  moreover have "anchor_period demo_forecast (fb_mechanics demo_forecast ''plan'') x y z = Inr (ptext 24300)" for x y z
    by (simp add: anchor_period_def demo_forecast_def)
  moreover have "forecast_months (ptext 24300) 1 (ptext 24300) 1 = Inr [ptext 24301]"
    by (simp add: forecast_months_def demo_ranges numeral_eq_Suc)
  ultimately show ?thesis
    by (auto simp: cmd_compute_forecast_def period_step_def demo_ranges month_ends_def case_prod_beta Let_def)
qed

lemma run_spares_other_sets_witness:
  "\<exists>b' resp. cmd_compute_forecast demo_parameters demo_query demo_forecast = Inr (b', resp) \<and>
     filter (not_computed ''plan'') (fb_sets b') = demo_levers # take 2 demo_sets"
proof -
  obtain b' resp where run: "cmd_compute_forecast demo_parameters demo_query demo_forecast = Inr (b', resp)"
    using demo_query_succeeds by blast
  have "filter (not_computed (fq_structure demo_query)) (fb_sets b') = filter (not_computed (fq_structure demo_query)) (fb_sets demo_forecast)"
    by (rule run_spares_other_sets [OF _ _ run])
      (use demo_supply in \<open>simp_all add: demo_parameters_def demo_forecast_def demo_levers_def demo_sets_def\<close>)
  moreover have "filter (not_computed (fq_structure demo_query)) (fb_sets demo_forecast) = demo_levers # take 2 demo_sets"
    by (simp add: not_computed_def demo_query_def demo_forecast_def demo_levers_def demo_sets_def numeral_eq_Suc)
  ultimately show ?thesis using run by (auto simp: demo_query_def)
qed

end
