(* ===== verification/CypherGuard.thy ===== *)
theory CypherGuard
  imports Texts
begin

text \<open>
  The classifier of Cypher statements (\<open>security/cypher_analyzer.py\<close>): the scanner that masks
  comments, literals and quoted identifiers, the keyword and CALL patterns over the masked
  text, and the gates built on them. Texts are ASCII. A pattern of the code is the function
  that finds its matches from left to right without overlap; \<open>prev\<close> is the character before
  the rest of the text, for the word boundary.
\<close>

subsection \<open>The scanner\<close>

fun after_block :: "string \<Rightarrow> string" where
  "after_block (c # d # s) = (if c = CHR ''*'' \<and> d = CHR ''/'' then s else after_block (d # s))"
| "after_block s = []"

text \<open>Behind the closing quote; a backslash takes the next character with it.\<close>

fun after_string :: "char \<Rightarrow> string \<Rightarrow> string" where
  "after_string q (c # d # s) =
     (if c = CHR 0x5C then after_string q s else if c = q then d # s else after_string q (d # s))"
| "after_string q s = []"

definition after_line :: "string \<Rightarrow> string" where
  "after_line s = dropWhile (\<lambda>c. c \<noteq> CHR 0x0A) s"

lemma after_block_shorter: "length (after_block s) \<le> length s"
  by (induction s rule: after_block.induct) auto

lemma after_string_shorter: "length (after_string q s) \<le> length s"
  by (induction q s rule: after_string.induct) auto

lemma after_line_shorter: "length (after_line s) \<le> length s"
  by (simp add: after_line_def length_dropWhile_le)

lemma after_chr_shorter: "length (after_chr c s) \<le> length s"
  using length_dropWhile_le [of "\<lambda>x. x \<noteq> c" s] by (simp add: after_chr_def)

function clean_query :: "string \<Rightarrow> string" where
  "clean_query [] = []"
| "clean_query (c # s) =
     (if c = CHR ''/'' \<and> take 1 s = ''/'' then CHR '' '' # clean_query (after_line s)
      else if c = CHR ''/'' \<and> take 1 s = ''*'' then CHR '' '' # clean_query (after_block (tl s))
      else if c = CHR 0x27 \<or> c = CHR 0x22 then '' STRING_LITERAL '' @ clean_query (after_string c s)
      else if c = CHR 0x60 then '' IDENTIFIER '' @ clean_query (after_chr (CHR 0x60) s)
      else c # clean_query s)"
  by pat_completeness auto

termination clean_query
proof (relation "measure length")
  fix s :: string
  show "(after_line s, c # s) \<in> measure length" for c using after_line_shorter [of s] by simp
  have "length (after_block (tl s)) \<le> length s" using after_block_shorter [of "tl s"] by simp
  then show "(after_block (tl s), c # s) \<in> measure length" for c by simp
  show "(after_string c s, c # s) \<in> measure length" for c using after_string_shorter [of c s] by simp
  show "(after_chr (CHR 0x60) s, c # s) \<in> measure length" for c using after_chr_shorter [of _ s] by (simp add: le_imp_less_Suc)
qed simp_all

subsection \<open>Words\<close>

text \<open>\<open>\w\<close>, the names \<open>[\w.]\<close> of a CALL, and the word boundary on both sides.\<close>

definition wordy :: "char \<Rightarrow> bool" where
  "wordy c \<longleftrightarrow> alnum c \<or> c = CHR ''_''"

definition dotted :: "char \<Rightarrow> bool" where
  "dotted c \<longleftrightarrow> wordy c \<or> c = CHR ''.''"

definition word_start :: "char option \<Rightarrow> bool" where
  "word_start prev \<longleftrightarrow> (case prev of None \<Rightarrow> True | Some c \<Rightarrow> \<not> wordy c)"

definition word_end :: "string \<Rightarrow> bool" where
  "word_end s \<longleftrightarrow> (case s of [] \<Rightarrow> True | c # _ \<Rightarrow> \<not> wordy c)"

definition has_word :: "string \<Rightarrow> string \<Rightarrow> bool" where
  "has_word k s \<longleftrightarrow> lower (take (length k) s) = lower k"

text \<open>The alternatives of a pattern are tried in their order.\<close>

definition keyword_at :: "string list \<Rightarrow> string \<Rightarrow> string option" where
  "keyword_at ks s = find_row (\<lambda>k. has_word k s \<and> word_end (drop (length k) s)) ks"

text \<open>The matches of \<open>\b(K1|K2|...)\b\<close>: what precedes one, its keyword, what follows.\<close>

function keyword_matches :: "string list \<Rightarrow> char option \<Rightarrow> string \<Rightarrow> (char option \<times> string \<times> string) list" where
  "keyword_matches ks prev [] = []"
| "keyword_matches ks prev (c # s) =
     (case (if word_start prev then keyword_at ks (c # s) else None) of
        None \<Rightarrow> keyword_matches ks (Some c) s
      | Some k \<Rightarrow> (prev, k, drop (length k) (c # s)) #
          keyword_matches ks (Some (last (c # take (length k - 1) s))) (drop (length k - 1) s))"
  by pat_completeness auto

termination keyword_matches by (relation "measure (\<lambda>(ks, prev, s). length s)") simp_all

definition stands_alone :: "char option \<times> string \<times> string \<Rightarrow> bool" where
  "stands_alone m \<longleftrightarrow> (case m of (prev, k, rest) \<Rightarrow>
     (case prev of None \<Rightarrow> True | Some c \<Rightarrow> \<not> alnum c) \<and> (case rest of [] \<Rightarrow> True | c # _ \<Rightarrow> \<not> alnum c))"

definition found_keywords :: "string list \<Rightarrow> string \<Rightarrow> string list" where
  "found_keywords ks s = map (\<lambda>m. fst (snd m)) (filter stands_alone (keyword_matches ks None s))"

subsection \<open>Calls and phrases\<close>

text \<open>\<open>CALL\s+([\w.]+)\s*x\<close> at the start of a text: the name and what follows.\<close>

definition call_at :: "char \<Rightarrow> string \<Rightarrow> (string \<times> string) option" where
  "call_at x s =
     (let a = drop 4 s; b = dropWhile space_char a; r = dropWhile space_char (dropWhile dotted b)
      in if has_word ''CALL'' s \<and> a \<noteq> b \<and> takeWhile dotted b \<noteq> [] \<and> take 1 r = [x]
         then Some (takeWhile dotted b, tl r) else None)"

lemma call_at_shorter: "call_at x s = Some (n, r) \<Longrightarrow> length r < length s"
  using length_dropWhile_le [of space_char "dropWhile dotted (dropWhile space_char (drop 4 s))"]
    length_dropWhile_le [of dotted "dropWhile space_char (drop 4 s)"] length_dropWhile_le [of space_char "drop 4 s"]
  by (cases "dropWhile space_char (dropWhile dotted (dropWhile space_char (drop 4 s)))")
    (auto simp: call_at_def Let_def split: if_splits)

function call_matches :: "char \<Rightarrow> char option \<Rightarrow> string \<Rightarrow> string list" where
  "call_matches x prev [] = []"
| "call_matches x prev (c # s) =
     (case (if word_start prev then call_at x (c # s) else None) of
        None \<Rightarrow> call_matches x (Some c) s
      | Some m \<Rightarrow> fst m # call_matches x (Some x) (snd m))"
  by pat_completeness auto

termination call_matches
  by (relation "measure (\<lambda>(x, prev, s). length s)") (auto split: if_splits dest: call_at_shorter)

text \<open>Words of a phrase with spaces between them; a final word boundary where the pattern has one.\<close>

fun phrase_at :: "bool \<Rightarrow> string list list \<Rightarrow> string \<Rightarrow> bool" where
  "phrase_at b [] s \<longleftrightarrow> True"
| "phrase_at b [ks] s \<longleftrightarrow> (\<exists>k\<in>set ks. has_word k s \<and> (b \<longrightarrow> word_end (drop (length k) s)))"
| "phrase_at b (ks # w # ws) s \<longleftrightarrow>
     (\<exists>k\<in>set ks. has_word k s \<and>
        (let a = drop (length k) s; r = dropWhile space_char a in a \<noteq> r \<and> phrase_at b (w # ws) r))"

fun anywhere :: "(char option \<Rightarrow> string \<Rightarrow> bool) \<Rightarrow> char option \<Rightarrow> string \<Rightarrow> bool" where
  "anywhere P prev [] \<longleftrightarrow> P prev []"
| "anywhere P prev (c # s) \<longleftrightarrow> P prev (c # s) \<or> anywhere P (Some c) s"

definition has_phrase :: "string list list \<Rightarrow> string \<Rightarrow> bool" where
  "has_phrase ws s \<longleftrightarrow> anywhere (\<lambda>prev r. word_start prev \<and> phrase_at True ws r) None s"

text \<open>After a semicolon.\<close>

definition next_statement :: "bool \<Rightarrow> string list list \<Rightarrow> string \<Rightarrow> bool" where
  "next_statement b ws s \<longleftrightarrow> take 1 s = '';'' \<and> phrase_at b ws (dropWhile space_char (tl s))"

subsection \<open>The classifier\<close>

definition write_keywords :: "string list" where
  "write_keywords = [''CREATE'', ''MERGE'', ''SET'', ''DELETE'', ''REMOVE'', ''DETACH'', ''DROP'', ''ALTER'', ''INSERT'', ''UPDATE'']"

definition bulk_keywords :: "string list" where
  "bulk_keywords = [''COPY'', ''LOAD'', ''IMPORT'']"

definition admin_keywords :: "string list" where
  "admin_keywords = [''EXPORT'', ''INSTALL'', ''ATTACH'', ''USE'']"

definition read_keywords :: "string list" where
  "read_keywords = [''MATCH'', ''RETURN'', ''WHERE'', ''WITH'', ''UNWIND'', ''ORDER'', ''LIMIT'', ''SKIP'', ''DISTINCT'', ''COUNT'',
     ''COLLECT'', ''SUM'', ''AVG'', ''MIN'', ''MAX'', ''CASE'', ''WHEN'', ''THEN'', ''ELSE'', ''END'']"

definition read_only_procedures :: "string list" where
  "read_only_procedures = [''show_tables'', ''table_info'', ''db_version'', ''current_setting'', ''show_connection'', ''show_warnings'',
     ''show_indexes'', ''show_functions'', ''query_vector_index'', ''query_fts_index'']"

definition system_procedures :: "string list" where
  "system_procedures = [''show_warnings'', ''clear_warnings'', ''current_setting'', ''db_version'', ''table_info'', ''show_tables'',
     ''show_connection'']"

definition opaque_procedures :: "string list" where
  "opaque_procedures = [''gql'']"

datatype query_error = EmptyQuery | QueryTooLong | UnbalancedComments | DangerousPattern

fun count_pair :: "char \<Rightarrow> char \<Rightarrow> string \<Rightarrow> int" where
  "count_pair a b (x # y # s) = (if x = a \<and> y = b then 1 + count_pair a b s else count_pair a b (y # s))"
| "count_pair a b s = 0"

definition dangerous_patterns :: "string list list list" where
  "dangerous_patterns = [[[''CREATE''], [''USER'']], [[''DROP''], [''DATABASE'']], [[''CALL''], [''dbms.'']], [[''SHOW''], [''USERS'']]]"

definition validate_query_security :: "string \<Rightarrow> query_error option" where
  "validate_query_security q =
     (if 100000 < length q then Some QueryTooLong
      else if count_pair CHR ''/'' CHR ''*'' q \<noteq> count_pair CHR ''*'' CHR ''/'' q then Some UnbalancedComments
      else if \<exists>ws\<in>set dangerous_patterns. anywhere (\<lambda>_. next_statement False ws) None q then Some DangerousPattern
      else None)"

text \<open>CALL forms that are no reads: settings, and procedures outside the allowlist.\<close>

definition find_call_operations :: "string \<Rightarrow> string list" where
  "find_call_operations s =
     map (\<lambda>n. ''CALL_SET:'' @ lower n) (call_matches CHR ''='' None s) @
     map (\<lambda>n. ''CALL:'' @ lower n) (filter (\<lambda>n. lower n \<notin> set read_only_procedures) (call_matches CHR ''('' None s))"

definition find_write_operations :: "string \<Rightarrow> string list" where
  "find_write_operations s = found_keywords write_keywords s @ find_call_operations s"

definition find_read_operations :: "string \<Rightarrow> string list" where
  "find_read_operations s = map (\<lambda>m. fst (snd m)) (keyword_matches read_keywords None s)"

datatype operation_type = ReadOperation | WriteOperation | MixedOperation

definition analyze_query :: "string \<Rightarrow> query_error + operation_type" where
  "analyze_query q =
     (if q = [] then Inl EmptyQuery
      else case validate_query_security q of
        Some e \<Rightarrow> Inl e
      | None \<Rightarrow>
          Inr (if find_write_operations (clean_query q) = [] then ReadOperation
               else if find_read_operations (clean_query q) = [] then WriteOperation else MixedOperation))"

definition is_write_operation :: "string \<Rightarrow> bool" where
  "is_write_operation q = (case analyze_query q of Inl _ \<Rightarrow> True | Inr t \<Rightarrow> t = WriteOperation \<or> t = MixedOperation)"

definition is_bulk_operation :: "string \<Rightarrow> bool" where
  "is_bulk_operation q \<longleftrightarrow> found_keywords bulk_keywords (clean_query q) \<noteq> []"

definition transaction_control :: "string \<Rightarrow> bool" where
  "transaction_control s \<longleftrightarrow>
     (let verbs = [[''BEGIN'', ''COMMIT'', ''ROLLBACK'', ''CHECKPOINT'']]
      in phrase_at True verbs (dropWhile space_char s) \<or> anywhere (\<lambda>_. next_statement True verbs) None s)"

definition is_admin_operation :: "string \<Rightarrow> bool" where
  "is_admin_operation q \<longleftrightarrow>
     (let s = clean_query q in
      found_keywords admin_keywords s \<noteq> [] \<or> has_phrase [[''IMPORT'', ''EXPORT''], [''DATABASE'']] s \<or>
      has_phrase [[''DETACH''], [''DATABASE'']] s \<or> transaction_control s)"

definition ddl_phrases :: "string list list list" where
  "ddl_phrases =
     [[[''CREATE''], [''NODE'', ''REL''], [''TABLE'']], [[''DROP''], [''NODE'', ''REL''], [''TABLE'']], [[''CREATE'', ''DROP''], [''TABLE'']],
      [[''CREATE'', ''DROP''], [''INDEX'']], [[''CREATE'', ''DROP''], [''SEQUENCE'']], [[''ALTER''], [''TABLE'']],
      [[''ADD'', ''DROP'', ''RENAME''], [''COLUMN'']], [[''RENAME''], [''TABLE'']], [[''COMMENT''], [''ON'']]]"

definition is_schema_ddl :: "string \<Rightarrow> bool" where
  "is_schema_ddl q \<longleftrightarrow> (\<exists>ws\<in>set ddl_phrases. has_phrase ws (clean_query q))"

definition is_non_read_call :: "string \<Rightarrow> bool" where
  "is_non_read_call q \<longleftrightarrow> find_call_operations (clean_query q) \<noteq> []"

definition has_system_calls :: "string \<Rightarrow> bool" where
  "has_system_calls q \<longleftrightarrow> (\<exists>n\<in>set (call_matches CHR ''('' None (clean_query q)). lower n \<in> set system_procedures)"

definition has_opaque_statement_call :: "string \<Rightarrow> bool" where
  "has_opaque_statement_call q \<longleftrightarrow>
     (\<exists>n\<in>set (call_matches CHR ''('' None (clean_query q)). n = ''IDENTIFIER'' \<or> lower n \<in> set opaque_procedures)"

end
