(* ===== verification/CypherFacts.thy ===== *)
theory CypherFacts
  imports CypherGuard
begin

text \<open>
  What the classifier sees: the scanner against a grammar of code, literals and comments, and
  the patterns against the occurrences of words and calls in the masked text.
\<close>

subsection \<open>The scanner and its grammar\<close>

text \<open>A statement as its writer composed it.\<close>

datatype piece =
    Code char
  | LineComment string
  | BlockComment string
  | Literal char string
  | Quoted string

fun piece_text :: "piece \<Rightarrow> string" where
  "piece_text (Code c) = [c]"
| "piece_text (LineComment s) = ''//'' @ s"
| "piece_text (BlockComment s) = ''/*'' @ s @ ''*/''"
| "piece_text (Literal q s) = q # s @ [q]"
| "piece_text (Quoted s) = CHR 0x60 # s @ [CHR 0x60]"

text \<open>What is left of it: the code, and nothing of what a literal or a comment holds.\<close>

fun piece_code :: "piece \<Rightarrow> string" where
  "piece_code (Code c) = [c]"
| "piece_code (LineComment s) = '' ''"
| "piece_code (BlockComment s) = '' ''"
| "piece_code (Literal q s) = '' STRING_LITERAL ''"
| "piece_code (Quoted s) = '' IDENTIFIER ''"

definition statement_text :: "piece list \<Rightarrow> string" where
  "statement_text ps = concat (map piece_text ps)"

definition statement_code :: "piece list \<Rightarrow> string" where
  "statement_code ps = concat (map piece_code ps)"

text \<open>A literal's body: a backslash escapes one character, the quote stands only escaped.\<close>

fun literal_body :: "char \<Rightarrow> string \<Rightarrow> bool" where
  "literal_body q [] \<longleftrightarrow> True"
| "literal_body q [c] \<longleftrightarrow> c \<noteq> q \<and> c \<noteq> CHR 0x5C"
| "literal_body q (c # d # s) \<longleftrightarrow> (if c = CHR 0x5C then literal_body q s else c \<noteq> q \<and> literal_body q (d # s))"

fun block_body :: "string \<Rightarrow> bool" where
  "block_body (c # d # s) \<longleftrightarrow> \<not> (c = CHR ''*'' \<and> d = CHR ''/'') \<and> block_body (d # s)"
| "block_body s \<longleftrightarrow> True"

fun piece_ok :: "piece \<Rightarrow> string \<Rightarrow> bool" where
  "piece_ok (Code c) rest \<longleftrightarrow> c \<noteq> CHR 0x27 \<and> c \<noteq> CHR 0x22 \<and> c \<noteq> CHR 0x60 \<and>
     (c = CHR ''/'' \<longrightarrow> take 1 rest \<noteq> ''/'' \<and> take 1 rest \<noteq> ''*'')"
| "piece_ok (LineComment s) rest \<longleftrightarrow> CHR 0x0A \<notin> set s \<and> (rest = [] \<or> hd rest = CHR 0x0A)"
| "piece_ok (BlockComment s) rest \<longleftrightarrow> block_body (s @ ''*'')"
| "piece_ok (Literal q s) rest \<longleftrightarrow> (q = CHR 0x27 \<or> q = CHR 0x22) \<and> literal_body q s"
| "piece_ok (Quoted s) rest \<longleftrightarrow> CHR 0x60 \<notin> set s"

fun well_lexed :: "piece list \<Rightarrow> bool" where
  "well_lexed [] \<longleftrightarrow> True"
| "well_lexed (p # ps) \<longleftrightarrow> piece_ok p (statement_text ps) \<and> well_lexed ps"

lemma after_string_literal:
  "q \<noteq> CHR 0x5C \<Longrightarrow> literal_body q s \<Longrightarrow> after_string q (s @ q # rest) = rest"
proof (induction q s rule: literal_body.induct)
  case (1 q)
  then show ?case by (cases rest) auto
next
  case (2 q c)
  then show ?case by (cases rest) auto
qed (auto split: if_splits)

lemma after_block_comment: "block_body (s @ ''*'') \<Longrightarrow> after_block (s @ CHR ''*'' # CHR ''/'' # rest) = rest"
proof (induction s)
  case (Cons c s)
  then show ?case by (cases s) auto
qed simp

lemma after_line_comment: "CHR 0x0A \<notin> set s \<Longrightarrow> rest = [] \<or> hd rest = CHR 0x0A \<Longrightarrow> after_line (s @ rest) = rest"
proof (induction s)
  case Nil
  then show ?case by (cases rest) (auto simp: after_line_def)
qed (auto simp: after_line_def)

lemma after_quoted: "CHR 0x60 \<notin> set s \<Longrightarrow> after_chr (CHR 0x60) (s @ CHR 0x60 # rest) = rest"
  by (induction s) (auto simp: after_chr_def)

text \<open>
  C40. The scanner takes every statement apart as its writer composed it: the code comes out
  character by character, and of comments, literals and quoted identifiers, with any
  escapes, comment marks or quotes inside them, only a placeholder is left. So nothing
  inside a literal can hide code that follows it, and nothing in it is read as code.
\<close>

theorem scanner_masks_literals:
  assumes "well_lexed ps"
  shows "clean_query (statement_text ps) = statement_code ps"
  using assms
proof (induction ps)
  case (Cons p ps)
  then have ok: "piece_ok p (statement_text ps)" and ih: "clean_query (statement_text ps) = statement_code ps" by simp_all
  have "clean_query (piece_text p @ statement_text ps) = piece_code p @ clean_query (statement_text ps)"
  proof (cases p)
    case (LineComment s)
    with ok after_line_comment show ?thesis by (simp add: after_line_def)
  next
    case (BlockComment s)
    with ok after_block_comment show ?thesis by simp
  next
    case (Literal q s)
    with ok after_string_literal [of q s "statement_text ps"] show ?thesis by auto
  next
    case (Quoted s)
    with ok after_quoted show ?thesis by simp
  qed (use ok in auto)
  with ih show ?case by (simp add: statement_text_def statement_code_def)
qed (simp add: statement_text_def statement_code_def)

subsection \<open>Occurrences\<close>

definition bounded_left :: "string \<Rightarrow> bool" where
  "bounded_left u \<longleftrightarrow> u = [] \<or> \<not> wordy (last u)"

definition bounded_right :: "string \<Rightarrow> bool" where
  "bounded_right v \<longleftrightarrow> v = [] \<or> \<not> wordy (hd v)"

text \<open>A whole word of a text, and a CALL of a name that a bracket or an equals sign follows.\<close>

definition occurs_word :: "string \<Rightarrow> string \<Rightarrow> bool" where
  "occurs_word k s \<longleftrightarrow> (\<exists>u w v. s = u @ w @ v \<and> lower w = lower k \<and> bounded_left u \<and> bounded_right v)"

definition occurs_call :: "char \<Rightarrow> string \<Rightarrow> string \<Rightarrow> bool" where
  "occurs_call x n s \<longleftrightarrow> (\<exists>u w a b v. s = u @ w @ a @ n @ b @ x # v \<and> lower w = ''call'' \<and> bounded_left u \<and>
     a \<noteq> [] \<and> list_all space_char a \<and> n \<noteq> [] \<and> list_all dotted n \<and> list_all space_char b)"

definition before :: "char option \<Rightarrow> string \<Rightarrow> char option" where
  "before prev u = (if u = [] then prev else Some (last u))"

lemma before_Cons: "before prev (c # u) = before (Some c) u"
  by (simp add: before_def)

lemma anywhere_split: "anywhere P prev s \<longleftrightarrow> (\<exists>u v. s = u @ v \<and> P (before prev u) v)"
proof (induction P prev s rule: anywhere.induct)
  case (2 P prev c s)
  show ?case
  proof
    assume "anywhere P prev (c # s)"
    with 2 consider "P prev (c # s)" | u v where "s = u @ v" "P (before (Some c) u) v" by auto
    then show "\<exists>u v. c # s = u @ v \<and> P (before prev u) v"
    proof cases
      case 1
      then show ?thesis by (intro exI [of _ "[]"] exI [of _ "c # s"]) (simp add: before_def)
    next
      case (2 u v)
      then show ?thesis by (intro exI [of _ "c # u"] exI [of _ v]) (simp add: before_Cons)
    qed
  next
    assume "\<exists>u v. c # s = u @ v \<and> P (before prev u) v"
    then obtain u v where uv: "c # s = u @ v" "P (before prev u) v" by blast
    then show "anywhere P prev (c # s)"
      using 2 by (cases u) (auto simp: before_Cons, simp add: before_def)
  qed
qed (simp add: before_def)

lemma bounded_left_start: "bounded_left u \<longleftrightarrow> word_start (before None u)"
  by (simp add: bounded_left_def word_start_def before_def)

lemma bounded_right_end: "bounded_right v \<longleftrightarrow> word_end v"
  by (simp add: bounded_right_def word_end_def split: list.splits)

lemma lower_length: "lower a = lower b \<Longrightarrow> length a = length b"
  unfolding lower_def by (metis length_map)

lemma has_word_split: "has_word k v \<longleftrightarrow> (\<exists>w r. v = w @ r \<and> lower w = lower k)"
proof
  assume "has_word k v"
  then show "\<exists>w r. v = w @ r \<and> lower w = lower k"
    unfolding has_word_def by (intro exI [of _ "take (length k) v"] exI [of _ "drop (length k) v"]) simp
next
  assume "\<exists>w r. v = w @ r \<and> lower w = lower k"
  then obtain w r where "v = w @ r" "lower w = lower k" by blast
  then show "has_word k v" using lower_length [of w k] by (simp add: has_word_def)
qed

lemma occurs_word_anywhere:
  "occurs_word k s \<longleftrightarrow> anywhere (\<lambda>p v. word_start p \<and> has_word k v \<and> word_end (drop (length k) v)) None s"
proof
  assume "occurs_word k s"
  then obtain u w v where s: "s = u @ w @ v" "lower w = lower k" "bounded_left u" "bounded_right v"
    unfolding occurs_word_def by blast
  then show "anywhere (\<lambda>p v. word_start p \<and> has_word k v \<and> word_end (drop (length k) v)) None s"
    unfolding anywhere_split using lower_length [of w k]
    by (intro exI [of _ u] exI [of _ "w @ v"]) (auto simp: has_word_split bounded_left_start bounded_right_end)
next
  assume "anywhere (\<lambda>p v. word_start p \<and> has_word k v \<and> word_end (drop (length k) v)) None s"
  then obtain u v where s: "s = u @ v" "word_start (before None u)" "has_word k v" "word_end (drop (length k) v)"
    unfolding anywhere_split by blast
  then have "s = u @ take (length k) v @ drop (length k) v \<and> lower (take (length k) v) = lower k \<and> bounded_left u \<and>
      bounded_right (drop (length k) v)"
    by (simp add: has_word_def bounded_left_start bounded_right_end)
  then show "occurs_word k s" unfolding occurs_word_def by blast
qed

text \<open>There is no match exactly when no keyword occurs, in whatever order they are tried.\<close>

lemma keyword_at_None: "keyword_at ks s = None \<longleftrightarrow> (\<forall>k\<in>set ks. \<not> (has_word k s \<and> word_end (drop (length k) s)))"
  by (auto simp: keyword_at_def find_row_None)

lemma no_keyword_at_end: "[] \<notin> set ks \<Longrightarrow> k \<in> set ks \<Longrightarrow> \<not> has_word k []"
  by (cases k) (auto simp: has_word_def lower_def)

lemma no_matches:
  assumes "[] \<notin> set ks"
  shows "keyword_matches ks prev s = [] \<longleftrightarrow>
    (\<forall>k\<in>set ks. \<not> anywhere (\<lambda>p v. word_start p \<and> has_word k v \<and> word_end (drop (length k) v)) prev s)"
proof (induction s arbitrary: prev)
  case Nil
  then show ?case using no_keyword_at_end [OF assms] by auto
next
  case (Cons c s)
  show ?case
  proof (cases "if word_start prev then keyword_at ks (c # s) else None")
    case None
    then have "\<forall>k\<in>set ks. \<not> (word_start prev \<and> has_word k (c # s) \<and> word_end (drop (length k) (c # s)))"
      by (auto simp: keyword_at_None split: if_splits)
    with None Cons show ?thesis by auto
  next
    case (Some k)
    then have "word_start prev" "keyword_at ks (c # s) \<noteq> None" by (auto split: if_splits)
    then show ?thesis using Some by (auto simp: keyword_at_None)
  qed
qed

lemma match_stands_alone: "m \<in> set (keyword_matches ks prev s) \<Longrightarrow> stands_alone m"
proof (induction ks prev s rule: keyword_matches.induct)
  case (2 ks prev c s)
  show ?case
  proof (cases "if word_start prev then keyword_at ks (c # s) else None")
    case None
    with 2 show ?thesis by simp
  next
    case (Some k)
    then have k: "word_start prev" "keyword_at ks (c # s) = Some k" by (auto split: if_splits)
    then have "word_end (drop (length k) (c # s))" by (auto simp: keyword_at_def dest: find_row_Some)
    with k(1) have "stands_alone (prev, k, drop (length k) (c # s))"
      by (auto simp: stands_alone_def word_start_def word_end_def wordy_def split: option.splits list.splits)
    with 2 Some show ?thesis by auto
  qed
qed simp

lemma found_keywords_None:
  "[] \<notin> set ks \<Longrightarrow> found_keywords ks s = [] \<longleftrightarrow> (\<forall>k\<in>set ks. \<not> occurs_word k s)"
  using match_stands_alone [of _ ks None s] no_matches [of ks None s]
  by (auto simp: found_keywords_def occurs_word_anywhere filter_empty_conv)

subsection \<open>Calls\<close>

lemma char_classes:
  "dotted c \<Longrightarrow> \<not> space_char c" "space_char c \<Longrightarrow> \<not> dotted c"
  "lower_char c = CHR ''c'' \<Longrightarrow> wordy c" "lower_char c = CHR ''c'' \<Longrightarrow> \<not> space_char c"
  by (auto simp: dotted_def wordy_def alnum_def digit_def alpha_def space_char_def in_range_def lower_char_def code_point_def split: if_splits)

lemma spaced: "list_all space_char a \<Longrightarrow> t = [] \<or> \<not> space_char (hd t) \<Longrightarrow> dropWhile space_char (a @ t) = t"
  by (induction a) (auto simp: dropWhile_eq_self_iff)

lemma named:
  assumes "list_all dotted n" "t = [] \<or> \<not> dotted (hd t)"
  shows "takeWhile dotted (n @ t) = n" "dropWhile dotted (n @ t) = t"
  using assms by (induction n) (auto simp: takeWhile_eq_Nil_iff dropWhile_eq_self_iff)

lemma has_call: "has_word ''CALL'' v \<longleftrightarrow> lower (take 4 v) = ''call''"
proof -
  have l: "length ''CALL'' = 4" by simp
  have k: "lower ''CALL'' = ''call''" by code_simp
  show ?thesis unfolding has_word_def l k ..
qed

lemma letter_wordy: "alpha (lower_char c) \<Longrightarrow> wordy c"
  by (auto simp: wordy_def alnum_def alpha_def in_range_def lower_char_def code_point_def split: if_splits)

lemma call_letters:
  assumes "lower w = ''call''"
  shows "list_all wordy w"
proof -
  have "wordy c" if "c \<in> set w" for c
  proof (rule letter_wordy)
    have "lower_char c \<in> set (lower w)" using that by (simp add: lower_def)
    moreover have "list_all alpha ''call''" by code_simp
    ultimately show "alpha (lower_char c)" unfolding assms by (simp only: list_all_iff)
  qed
  then show ?thesis by (simp add: list_all_iff)
qed

definition call_shape :: "char \<Rightarrow> string \<Rightarrow> string \<Rightarrow> string \<Rightarrow> bool" where
  "call_shape x v n r \<longleftrightarrow> (\<exists>w a b. v = w @ a @ n @ b @ x # r \<and> lower w = ''call'' \<and> a \<noteq> [] \<and> list_all space_char a \<and>
     n \<noteq> [] \<and> list_all dotted n \<and> list_all space_char b)"

lemma call_at_shape:
  assumes "\<not> dotted x" "\<not> space_char x"
  shows "call_at x v = Some (n, r) \<longleftrightarrow> call_shape x v n r"
proof
  assume c: "call_at x v = Some (n, r)"
  let ?a = "drop 4 v" let ?b = "dropWhile space_char ?a" let ?r = "dropWhile space_char (dropWhile dotted ?b)"
  from c have h: "has_word ''CALL'' v" "?a \<noteq> ?b" "n = takeWhile dotted ?b" "n \<noteq> []" "take 1 ?r = [x]" "r = tl ?r"
    by (auto simp: call_at_def Let_def split: if_splits)
  from h(1) have w: "lower (take 4 v) = ''call''" by (simp add: has_call)
  have "?r = x # r" using h(5,6) by (cases ?r) auto
  then have "v = take 4 v @ takeWhile space_char ?a @ n @ takeWhile space_char (dropWhile dotted ?b) @ x # r"
    using h(3) by (metis append_take_drop_id takeWhile_dropWhile_id)
  moreover have "takeWhile space_char ?a \<noteq> []" using h(2) by (metis self_append_conv2 takeWhile_dropWhile_id)
  moreover have "list_all space_char (takeWhile space_char xs)" "list_all dotted (takeWhile dotted xs)" for xs
    by (auto simp: list_all_iff dest: set_takeWhileD)
  ultimately show "call_shape x v n r" unfolding call_shape_def using w h(3,4) by blast
next
  assume "call_shape x v n r"
  then obtain w a b where v: "v = w @ a @ n @ b @ x # r" and w: "lower w = ''call''" and a: "a \<noteq> []" "list_all space_char a"
    and n: "n \<noteq> []" "list_all dotted n" and b: "list_all space_char b" unfolding call_shape_def by blast
  have len: "length w = 4" using w by (auto simp: lower_def dest: arg_cong [where f = length])
  have "\<not> space_char (hd n)" using n char_classes(1) by (cases n) auto
  then have "dropWhile space_char (drop 4 v) = n @ b @ x # r" using spaced [OF a(2), of "n @ b @ x # r"] n(1) by (simp add: v len)
  moreover have "\<not> dotted (hd (b @ x # r))" using b assms(1) char_classes(2) by (cases b) auto
  then have "takeWhile dotted (n @ b @ x # r) = n" "dropWhile dotted (n @ b @ x # r) = b @ x # r"
    using named [OF n(2), of "b @ x # r"] by auto
  moreover have "dropWhile space_char (b @ x # r) = x # r" using spaced [OF b, of "x # r"] assms(2) by simp
  moreover have "drop 4 v \<noteq> n @ b @ x # r" using a by (simp add: v len)
  moreover have "has_word ''CALL'' v" using w len by (simp add: has_call v)
  ultimately show "call_at x v = Some (n, r)" using n(1) by (simp add: call_at_def Let_def)
qed

lemma anywhere_skip:
  "(\<And>u1 u2. u = u1 @ u2 \<Longrightarrow> u2 \<noteq> [] \<Longrightarrow> \<not> P (before prev u1) (u2 @ t)) \<Longrightarrow> anywhere P prev (u @ t) \<longleftrightarrow> anywhere P (before prev u) t"
proof (induction u arbitrary: prev)
  case (Cons c u)
  have "\<not> P prev (c # u @ t)" using Cons.prems [of "[]" "c # u"] by (simp add: before_def)
  moreover have "anywhere P (Some c) (u @ t) \<longleftrightarrow> anywhere P (before (Some c) u) t"
  proof (rule Cons.IH)
    fix u1 u2 assume "u = u1 @ u2" "u2 \<noteq> []"
    with Cons.prems [of "c # u1" u2] show "\<not> P (before (Some c) u1) (u2 @ t)" by (simp add: before_Cons)
  qed
  ultimately show ?case by (simp add: before_Cons)
qed (simp add: before_def)

text \<open>Where a call cannot begin: at a space, inside a word, and inside the name of a call.\<close>

lemma shape_head: "call_shape x v n r \<Longrightarrow> v \<noteq> [] \<and> lower_char (hd v) = CHR ''c''"
  by (auto simp: call_shape_def lower_def Cons_eq_map_conv map_eq_Cons_conv)

lemma shape_not_in_name:
  assumes "\<not> dotted x" "\<not> space_char x" "list_all dotted n2" "list_all space_char b"
  shows "\<not> call_shape x (n2 @ b @ x # r) n' r'"
proof
  assume "call_shape x (n2 @ b @ x # r) n' r'"
  then obtain w a b' where eq: "n2 @ b @ x # r = w @ a @ n' @ b' @ x # r'" and w: "lower w = ''call''" and a: "a \<noteq> []" "list_all space_char a"
    and n: "n' \<noteq> []" "list_all dotted n'" unfolding call_shape_def by blast
  have "list_all dotted w"
    using call_letters [OF w] by (simp add: list_all_iff dotted_def)
  moreover have "\<not> dotted (hd (a @ n' @ b' @ x # r'))" using a char_classes(2) by (cases a) auto
  moreover have "\<not> dotted (hd (b @ x # r))" using assms(1,4) char_classes(2) by (cases b) auto
  ultimately have "b @ x # r = a @ n' @ b' @ x # r'"
    using named(2) [of w "a @ n' @ b' @ x # r'"] named(2) [OF assms(3), of "b @ x # r"] eq a by auto
  moreover have "dropWhile space_char (b @ x # r) = x # r" using spaced [OF assms(4), of "x # r"] assms(2) by simp
  moreover have "dropWhile space_char (a @ n' @ b' @ x # r') = n' @ b' @ x # r'"
    using spaced [OF a(2), of "n' @ b' @ x # r'"] n char_classes(1) by (cases n') auto
  ultimately have "x # r = n' @ b' @ x # r'" by simp
  with n assms(1) show False by (cases n') auto
qed

lemma shape_once:
  assumes "\<not> dotted x" "\<not> space_char x" "call_shape x v n0 r0"
  shows "anywhere (\<lambda>p v. word_start p \<and> (\<exists>r. call_shape x v n r)) prev v \<longleftrightarrow>
    (word_start prev \<and> n = n0) \<or> anywhere (\<lambda>p v. word_start p \<and> (\<exists>r. call_shape x v n r)) (Some x) r0"
proof -
  let ?P = "\<lambda>p v. word_start p \<and> (\<exists>r. call_shape x v n r)"
  from assms(3) obtain w a b where v: "v = w @ a @ n0 @ b @ x # r0" and w: "lower w = ''call''" and a: "a \<noteq> []" "list_all space_char a"
    and n0: "n0 \<noteq> []" "list_all dotted n0" and b: "list_all space_char b" unfolding call_shape_def by blast
  obtain c w' where cw: "w = c # w'" using w by (cases w) (auto simp: lower_def)
  have wordy: "list_all wordy w" by (rule call_letters [OF w])
  have space: "\<not> ?P p (u @ t)" if "list_all space_char u" "u \<noteq> []" for p u t
    using that char_classes(4) by (cases u) (auto dest!: shape_head)
  have head: "?P prev v \<longleftrightarrow> word_start prev \<and> n = n0"
    using assms(3) call_at_shape [OF assms(1,2)] by (metis option.inject prod.inject)
  have "anywhere ?P prev v \<longleftrightarrow> ?P prev v \<or> anywhere ?P (Some c) (w' @ a @ n0 @ b @ x # r0)" by (simp add: v cw)
  also have "anywhere ?P (Some c) (w' @ a @ n0 @ b @ x # r0) \<longleftrightarrow> anywhere ?P (before (Some c) w') (a @ n0 @ b @ x # r0)"
  proof (rule anywhere_skip)
    fix u1 u2 assume "w' = u1 @ u2"
    then have "\<not> word_start (before (Some c) u1)" using wordy by (auto simp: cw before_def word_start_def list_all_iff)
    then show "\<not> ?P (before (Some c) u1) (u2 @ a @ n0 @ b @ x # r0)" by simp
  qed
  also have "\<dots> \<longleftrightarrow> anywhere ?P (before (before (Some c) w') a) (n0 @ b @ x # r0)"
    by (rule anywhere_skip) (use a(2) space in auto)
  also have "\<dots> \<longleftrightarrow> anywhere ?P (before (before (before (Some c) w') a) n0) (b @ x # r0)"
    by (rule anywhere_skip) (use n0(2) b shape_not_in_name [OF assms(1,2)] in auto)
  also have "\<dots> \<longleftrightarrow> anywhere ?P (before (before (before (before (Some c) w') a) n0) b) (x # r0)"
    by (rule anywhere_skip) (use b space in auto)
  also have "\<dots> \<longleftrightarrow> anywhere ?P (Some x) r0"
    using char_classes(3) assms(1) by (auto simp: dotted_def dest!: shape_head)
  finally show ?thesis using head by simp
qed

text \<open>The matches found without overlap are all the calls of the text.\<close>

lemma call_matches_set:
  assumes "\<not> dotted x" "\<not> space_char x"
  shows "n \<in> set (call_matches x prev s) \<longleftrightarrow> anywhere (\<lambda>p v. word_start p \<and> (\<exists>r. call_shape x v n r)) prev s"
  using assms
proof (induction x prev s rule: call_matches.induct)
  case (1 x prev)
  then show ?case by (auto dest!: shape_head)
next
  case (2 x prev c s)
  show ?case
  proof (cases "if word_start prev then call_at x (c # s) else None")
    case None
    then have "\<not> (word_start prev \<and> (\<exists>r. call_shape x (c # s) n r))"
      using call_at_shape [OF 2(3,4)] by (metis option.distinct(1))
    with None 2 show ?thesis by auto
  next
    case (Some m)
    obtain n0 r0 where m: "m = (n0, r0)" by fastforce
    from Some have "word_start prev" "call_shape x (c # s) n0 r0"
      using call_at_shape [OF 2(3,4)] by (auto simp: m split: if_splits)
    with shape_once [OF 2(3,4) this(2), of n prev] 2(2) [OF Some 2(3,4)] Some show ?thesis by (auto simp: m)
  qed
qed

lemma occurs_call_matches:
  assumes "\<not> dotted x" "\<not> space_char x"
  shows "occurs_call x n s \<longleftrightarrow> n \<in> set (call_matches x None s)"
  unfolding call_matches_set [OF assms] anywhere_split occurs_call_def call_shape_def bounded_left_start by blast

subsection \<open>The classification\<close>

lemma call_marks: "\<not> dotted CHR ''=''" "\<not> space_char CHR ''=''" "\<not> dotted CHR ''(''" "\<not> space_char CHR ''(''"
  by code_simp+

lemma call_operations_None:
  "find_call_operations s = [] \<longleftrightarrow>
     (\<forall>n. \<not> occurs_call CHR ''='' n s) \<and> (\<forall>n. occurs_call CHR ''('' n s \<longrightarrow> lower n \<in> set read_only_procedures)"
  unfolding occurs_call_matches [OF call_marks(1,2)] occurs_call_matches [OF call_marks(3,4)]
  by (auto simp: find_call_operations_def filter_empty_conv)

lemma keywords_nonempty: "[] \<notin> set write_keywords" "[] \<notin> set bulk_keywords" "[] \<notin> set admin_keywords"
  by (simp_all add: write_keywords_def bulk_keywords_def admin_keywords_def)

text \<open>A statement whose code, by its words and its calls, only reads.\<close>

definition only_reads :: "string \<Rightarrow> bool" where
  "only_reads code \<longleftrightarrow> (\<forall>k\<in>set write_keywords. \<not> occurs_word k code) \<and> (\<forall>n. \<not> occurs_call CHR ''='' n code) \<and>
     (\<forall>n. occurs_call CHR ''('' n code \<longrightarrow> lower n \<in> set read_only_procedures)"

text \<open>
  C39. The write barrier is exact: a statement is classified as a read if and only if it is not
  empty, passes the checks of its raw text, and its code has no write keyword as a whole
  word at any place, no setting by CALL, and no CALL of a procedure outside the allowlist.
  The order in which the alternatives are tried and the skipping of overlaps lose nothing.
\<close>

theorem read_classification_exact:
  "\<not> is_write_operation q \<longleftrightarrow> q \<noteq> [] \<and> validate_query_security q = None \<and> only_reads (clean_query q)"
proof -
  have "find_write_operations (clean_query q) = [] \<longleftrightarrow> only_reads (clean_query q)"
    by (simp add: find_write_operations_def found_keywords_None [OF keywords_nonempty(1)] call_operations_None only_reads_def)
  then show ?thesis by (auto simp: is_write_operation_def analyze_query_def split: option.splits)
qed

lemma bulk_exact: "is_bulk_operation q \<longleftrightarrow> (\<exists>k\<in>set bulk_keywords. occurs_word k (clean_query q))"
  using found_keywords_None [OF keywords_nonempty(2)] by (auto simp: is_bulk_operation_def)

lemma admin_covers: "occurs_word k (clean_query q) \<Longrightarrow> k \<in> set admin_keywords \<Longrightarrow> is_admin_operation q"
  using found_keywords_None [OF keywords_nonempty(3)] by (auto simp: is_admin_operation_def Let_def)

lemma opaque_exact:
  "has_opaque_statement_call q \<longleftrightarrow> (\<exists>n. occurs_call CHR ''('' n (clean_query q) \<and> (n = ''IDENTIFIER'' \<or> lower n \<in> set opaque_procedures))"
  unfolding occurs_call_matches [OF call_marks(3,4)] has_opaque_statement_call_def by auto

lemma non_read_call_exact: "is_non_read_call q \<longleftrightarrow> find_call_operations (clean_query q) \<noteq> []"
  by (simp add: is_non_read_call_def)

text \<open>An opaque call is a write for every classifier.\<close>

lemma opaque_is_write: "has_opaque_statement_call q \<Longrightarrow> is_write_operation q"
proof -
  assume "has_opaque_statement_call q"
  then obtain n where n: "occurs_call CHR ''('' n (clean_query q)" "n = ''IDENTIFIER'' \<or> lower n \<in> set opaque_procedures"
    unfolding opaque_exact by blast
  have "lower ''IDENTIFIER'' \<notin> set read_only_procedures" "list_all (\<lambda>n. n \<notin> set read_only_procedures) opaque_procedures" by code_simp+
  with n(2) have "lower n \<notin> set read_only_procedures" by (auto simp: list_all_iff)
  with n(1) show "is_write_operation q" using read_classification_exact [of q] by (auto simp: only_reads_def)
qed

text \<open>
  A keyword that a digit touches is no word for the pattern: the grammar of the language ends a
  number at a letter, so the classifier takes this update for a read.
\<close>

lemma small_query_ok:
  assumes "length q \<le> 100000" "count_pair CHR ''/'' CHR ''*'' q = count_pair CHR ''*'' CHR ''/'' q" "CHR '';'' \<notin> set q"
  shows "validate_query_security q = None"
proof -
  have "\<not> anywhere (\<lambda>_. next_statement False ws) prev s" if "CHR '';'' \<notin> set s" for ws prev s
    using that by (induction s arbitrary: prev) (auto simp: next_statement_def)
  with assms show ?thesis by (simp add: validate_query_security_def)
qed

definition glued_update :: string where
  "glued_update = ''MATCH (n:P) WHERE n.x=1SET n.x=2''"

lemma glued_keyword_is_a_read: "\<not> is_write_operation glued_update"
proof -
  have "validate_query_security glued_update = None"
    by (rule small_query_ok) (simp_all add: glued_update_def)
  moreover have "find_write_operations (clean_query glued_update) = []" by code_simp
  ultimately show ?thesis by (simp add: is_write_operation_def analyze_query_def glued_update_def)
qed

lemma scanner_masks_literals_witness:
  "clean_query (statement_text [Code CHR ''a'', Literal CHR 0x27 (''x'' @ [CHR 0x5C, CHR 0x27] @ ''// /*''), Code CHR '' '', Code CHR ''b'']) =
   ''a STRING_LITERAL  b''"
proof -
  have "well_lexed [Code CHR ''a'', Literal CHR 0x27 (''x'' @ [CHR 0x5C, CHR 0x27] @ ''// /*''), Code CHR '' '', Code CHR ''b'']"
    by code_simp
  from scanner_masks_literals [OF this] show ?thesis by (simp add: statement_code_def)
qed

end
