(* ===== verification/StatementGate.thy ===== *)
theory StatementGate
  imports CypherGuard Allocation
begin

text \<open>
  Who may run which statement: the roles on a graph (\<open>models/core/graph/graph_user.py\<close>), the
  authorization kernel of the query endpoints (\<open>middleware/graph/statement_kernel.py\<close>), the
  guards of the query tools (\<open>middleware/mcp/tools\<close>) and the validator of the graph service
  (\<open>graph_api/core/ladybug/service.py\<close>).
\<close>

subsection \<open>Roles\<close>

datatype graph_role = Viewer | GraphMember | GraphAdmin

definition role_rank :: "graph_role \<Rightarrow> nat" where
  "role_rank r = (case r of Viewer \<Rightarrow> 0 | GraphMember \<Rightarrow> 1 | GraphAdmin \<Rightarrow> 2)"

definition at_least :: "graph_role \<Rightarrow> graph_role \<Rightarrow> bool" where
  "at_least r required \<longleftrightarrow> role_rank required \<le> role_rank r"

definition coerce_role :: "string \<Rightarrow> graph_role option" where
  "coerce_role s = (if s = ''viewer'' then Some Viewer else if s = ''member'' then Some GraphMember
     else if s = ''admin'' then Some GraphAdmin else None)"

datatype org_role = OrgOwner | OrgAdmin | OrgMember

record owned_graph =
  og_graph :: string
  og_org :: "string option"
  og_status :: string
  og_deleted :: bool

record access_rows =
  ar_graphs :: "owned_graph list"
  ar_members :: "(string \<times> string \<times> string) list"
  ar_orgs :: "(string \<times> string \<times> org_role) list"

definition parse_graph_id :: "string list \<Rightarrow> string \<Rightarrow> string \<times> string option" where
  "parse_graph_id shared g =
     (if is_subgraph_id shared g then (before_chr CHR ''_'' g, Some (after_chr CHR ''_'' g)) else (g, None))"

definition graph_gone :: "owned_graph \<Rightarrow> bool" where
  "graph_gone r \<longleftrightarrow> og_status r = ''deprovisioned'' \<or> og_deleted r"

text \<open>The role of the membership row, a viewer where the text is none of the three.\<close>

definition explicit_role :: "access_rows \<Rightarrow> string \<Rightarrow> string \<Rightarrow> graph_role option" where
  "explicit_role db user g =
     map_option (\<lambda>m. case coerce_role (snd (snd m)) of None \<Rightarrow> Viewer | Some r \<Rightarrow> r)
       (find_row (\<lambda>m. fst m = user \<and> fst (snd m) = g) (ar_members db))"

definition org_manages :: "access_rows \<Rightarrow> string option \<Rightarrow> string \<Rightarrow> bool" where
  "org_manages db org user \<longleftrightarrow>
     (case org of
        None \<Rightarrow> False
      | Some o' \<Rightarrow> (case find_row (\<lambda>m. fst m = o' \<and> fst (snd m) = user) (ar_orgs db) of
            None \<Rightarrow> False | Some m \<Rightarrow> snd (snd m) = OrgOwner \<or> snd (snd m) = OrgAdmin))"

definition effective_role :: "string list \<Rightarrow> access_rows \<Rightarrow> bool \<Rightarrow> string \<Rightarrow> string \<Rightarrow> graph_role option \<times> bool" where
  "effective_role shared db allow_deprovisioned user g =
     (let parent = fst (parse_graph_id shared g);
          rows = filter (\<lambda>r. og_graph r = parent \<or> og_graph r = g) (ar_graphs db)
      in case find_row (\<lambda>r. og_graph r = parent) rows of
           None \<Rightarrow> (None, False)
         | Some p \<Rightarrow>
             if \<not> allow_deprovisioned \<and> (\<exists>r\<in>set rows. graph_gone r) then (None, False)
             else
               let explicit = explicit_role db user parent in
               if explicit = Some GraphAdmin then (Some GraphAdmin, False)
               else if org_manages db (og_org p) user then (Some GraphAdmin, True)
               else (explicit, False))"

definition has_role :: "string list \<Rightarrow> access_rows \<Rightarrow> graph_role \<Rightarrow> string \<Rightarrow> string \<Rightarrow> bool" where
  "has_role shared db required user g =
     (case fst (effective_role shared db False user g) of None \<Rightarrow> False | Some r \<Rightarrow> at_least r required)"

definition user_has_access :: "string list \<Rightarrow> access_rows \<Rightarrow> bool \<Rightarrow> string \<Rightarrow> string \<Rightarrow> bool" where
  "user_has_access shared db allow user g \<longleftrightarrow> fst (effective_role shared db allow user g) \<noteq> None"

definition user_has_write_access :: "string list \<Rightarrow> access_rows \<Rightarrow> string \<Rightarrow> string \<Rightarrow> bool" where
  "user_has_write_access shared db user g = has_role shared db GraphMember user g"

definition user_has_admin_access :: "string list \<Rightarrow> access_rows \<Rightarrow> bool \<Rightarrow> string \<Rightarrow> string \<Rightarrow> bool" where
  "user_has_admin_access shared db allow user g =
     (case fst (effective_role shared db allow user g) of None \<Rightarrow> False | Some r \<Rightarrow> at_least r GraphAdmin)"

subsection \<open>The kernel\<close>

definition is_shared_or_subgraph :: "string list \<Rightarrow> string \<Rightarrow> bool" where
  "is_shared_or_subgraph shared g \<longleftrightarrow> g \<in> set shared \<or> (CHR ''_'' \<in> set g \<and> before_chr CHR ''_'' g \<in> set shared)"

datatype statement_engine = Cypher | Sql

datatype statement_refusal =
    OpaqueStatement
  | WriteOnMainGraph
  | BulkStatement
  | AdminStatement
  | SchemaStatement
  | WriteOnSharedRepository
  | ReadOnlyRole
  | SqlOnSharedRepository

definition refusal_status :: "statement_refusal \<Rightarrow> nat" where
  "refusal_status r = (if r = BulkStatement then 400 else 403)"

record authorization =
  au_write :: bool
  au_subgraph :: bool

definition access_type :: "authorization \<Rightarrow> string" where
  "access_type a = (if au_write a then ''write'' else ''read'')"

definition authorize_cypher :: "string list \<Rightarrow> access_rows \<Rightarrow> string \<Rightarrow> string \<Rightarrow> string \<Rightarrow> statement_refusal + authorization" where
  "authorize_cypher shared db user g q =
     (let write = is_write_operation q; sub = parse_subgraph_id shared g \<noteq> None in
      if has_opaque_statement_call q then Inl OpaqueStatement
      else if write \<and> \<not> sub then Inl WriteOnMainGraph
      else if is_bulk_operation q then Inl BulkStatement
      else if is_admin_operation q then Inl AdminStatement
      else if is_schema_ddl q then Inl SchemaStatement
      else if write \<and> is_shared_or_subgraph shared (lower g) then Inl WriteOnSharedRepository
      else if write \<and> \<not> user_has_write_access shared db user g then Inl ReadOnlyRole
      else Inr \<lparr>au_write = write, au_subgraph = sub\<rparr>)"

definition authorize_sql :: "string list \<Rightarrow> string \<Rightarrow> statement_refusal + authorization" where
  "authorize_sql shared g =
     (if is_shared_or_subgraph shared (lower g) then Inl SqlOnSharedRepository
      else Inr \<lparr>au_write = False, au_subgraph = parse_subgraph_id shared g \<noteq> None\<rparr>)"

definition authorize :: "statement_engine \<Rightarrow> string list \<Rightarrow> access_rows \<Rightarrow> string \<Rightarrow> string \<Rightarrow> string \<Rightarrow> statement_refusal + authorization" where
  "authorize engine shared db user g q =
     (case engine of Cypher \<Rightarrow> authorize_cypher shared db user g q | Sql \<Rightarrow> authorize_sql shared g)"

subsection \<open>The guards of the tools\<close>

text \<open>The read tool refuses everything but a read.\<close>

definition read_tool_refuses :: "string \<Rightarrow> bool" where
  "read_tool_refuses q \<longleftrightarrow> is_bulk_operation q \<or> is_admin_operation q \<or> is_schema_ddl q \<or> is_write_operation q"

datatype write_tool_error = OpaqueCallBlocked | BlockedOperation | NoWriteOperation

definition validate_write_query :: "string \<Rightarrow> write_tool_error option" where
  "validate_write_query q =
     (if has_opaque_statement_call q then Some OpaqueCallBlocked
      else if is_schema_ddl q \<or> is_bulk_operation q \<or> is_admin_operation q then Some BlockedOperation
      else if \<not> is_write_operation q then Some NoWriteOperation else None)"

datatype context_error = SubgraphRequired | ReadOnlyRepository

definition validate_subgraph_context :: "string list \<Rightarrow> string \<Rightarrow> context_error option" where
  "validate_subgraph_context shared g =
     (if parse_subgraph_id shared g = None then Some SubgraphRequired
      else if is_shared_or_subgraph shared g then Some ReadOnlyRepository else None)"

subsection \<open>The graph service\<close>

definition upper_char :: "char \<Rightarrow> char" where
  "upper_char c = (if in_range CHR ''a'' CHR ''z'' c then char_of (code_point c - 32) else c)"

definition upper :: "string \<Rightarrow> string" where
  "upper s = map upper_char s"

primrec contains :: "string \<Rightarrow> string \<Rightarrow> bool" where
  "contains k [] \<longleftrightarrow> k = []"
| "contains k (c # s) \<longleftrightarrow> take (length k) (c # s) = k \<or> contains k s"

definition forbidden_keywords :: "string list" where
  "forbidden_keywords = [''CREATE DATABASE'', ''DROP DATABASE'', ''CREATE USER'', ''DROP USER'', ''ALTER USER'', ''SET PASSWORD'',
     ''GRANT'', ''REVOKE'', ''CALL DBMS'', ''CALL APOC'', ''LOAD CSV'']"

datatype service_refusal = EmptyStatement | ForbiddenKeyword string | EngineOperation | StatementTooLong

definition validate_cypher_query :: "string \<Rightarrow> service_refusal option" where
  "validate_cypher_query q =
     (if strip q = [] then Some EmptyStatement
      else case find_row (\<lambda>k. contains k (upper q)) forbidden_keywords of
        Some k \<Rightarrow> Some (ForbiddenKeyword k)
      | None \<Rightarrow>
          if is_bulk_operation q \<or> is_admin_operation q \<or> is_schema_ddl q \<or> is_non_read_call q then Some EngineOperation
          else if 10000 < length q then Some StatementTooLong else None)"

end
