(* ===== verification/StatementFacts.thy ===== *)
theory StatementFacts
  imports CypherFacts StatementGate
begin

text \<open>
  What an authorised statement cannot do, and that the surfaces which run statements agree on
  them; where the graph service does not.
\<close>

subsection \<open>The policy\<close>

text \<open>
  The policy on the code of a statement: no administrative and no bulk verb, no procedure that
  runs a text, and a write only on a subgraph of a graph that is not shared, by a member.
\<close>

definition within_policy :: "string list \<Rightarrow> access_rows \<Rightarrow> string \<Rightarrow> string \<Rightarrow> string \<Rightarrow> bool" where
  "within_policy shared db user g code \<longleftrightarrow>
     (\<forall>k\<in>set bulk_keywords \<union> set admin_keywords. \<not> occurs_word k code) \<and>
     (\<forall>n. occurs_call CHR ''('' n code \<longrightarrow> lower n \<noteq> ''gql'' \<and> n \<noteq> ''IDENTIFIER'') \<and>
     (\<not> only_reads code \<longrightarrow> parse_subgraph_id shared g \<noteq> None \<and> \<not> is_shared_or_subgraph shared (lower g) \<and>
        user_has_write_access shared db user g)"

lemma authorized_cypher:
  assumes "authorize_cypher shared db user g q = Inr a"
  shows "au_write a = is_write_operation q" "\<not> has_opaque_statement_call q" "\<not> is_bulk_operation q" "\<not> is_admin_operation q"
    "\<not> is_schema_ddl q"
    "is_write_operation q \<Longrightarrow> parse_subgraph_id shared g \<noteq> None \<and> \<not> is_shared_or_subgraph shared (lower g) \<and>
       user_has_write_access shared db user g"
  using assms by (auto simp: authorize_cypher_def Let_def split: if_splits)

text \<open>
  C38. No statement gets past the kernel against the policy: whatever comments, literals and
  spellings a statement uses, when it is authorised its code has no bulk or administrative
  verb, calls no procedure that runs a text, and if it does more than read it is on a
  subgraph of a graph that is not shared and its user is a member or an administrator there.
\<close>

theorem authorised_statement_within_policy:
  assumes "authorize Cypher shared db user g q = Inr a"
  shows "within_policy shared db user g (clean_query q)"
proof -
  note auth = authorized_cypher [OF assms [unfolded authorize_def statement_engine.case]]
  have "\<forall>k\<in>set bulk_keywords \<union> set admin_keywords. \<not> occurs_word k (clean_query q)"
    using auth(3,4) admin_covers by (auto simp: bulk_exact)
  moreover have "\<forall>n. occurs_call CHR ''('' n (clean_query q) \<longrightarrow> lower n \<noteq> ''gql'' \<and> n \<noteq> ''IDENTIFIER''"
    using auth(2) by (auto simp: opaque_exact opaque_procedures_def)
  moreover have "is_write_operation q" if "\<not> only_reads (clean_query q)"
    using that read_classification_exact by blast
  ultimately show ?thesis unfolding within_policy_def using auth(6) by blast
qed

text \<open>
  The surfaces agree: the read tool takes a statement exactly when the kernel authorises it
  as a read, for any user on any graph, and the kernel authorises a write exactly when the
  write tool takes the statement and the graph and the user may be written to by it.
\<close>

theorem surfaces_agree:
  "((\<exists>a. authorize Cypher shared db user g q = Inr a \<and> \<not> au_write a) \<longleftrightarrow> \<not> read_tool_refuses q) \<and>
   ((\<exists>a. authorize Cypher shared db user g q = Inr a \<and> au_write a) \<longleftrightarrow>
      validate_write_query q = None \<and> parse_subgraph_id shared g \<noteq> None \<and> \<not> is_shared_or_subgraph shared (lower g) \<and>
      user_has_write_access shared db user g)"
  using opaque_is_write [of q]
  by (auto simp: authorize_def authorize_cypher_def read_tool_refuses_def validate_write_query_def Let_def)

subsection \<open>Roles\<close>

text \<open>A subgraph gives the roles of its parent, and a graph that is gone gives none.\<close>

lemma gone_graph_gives_no_role:
  "r \<in> set (ar_graphs db) \<Longrightarrow> og_graph r = g \<Longrightarrow> graph_gone r \<Longrightarrow> fst (effective_role shared db False user g) = None"
  by (auto simp: effective_role_def Let_def split: option.splits)

lemma subgraph_inherits_role:
  assumes "is_subgraph_id shared g" "\<not> is_subgraph_id shared (before_chr CHR ''_'' g)" "g \<notin> og_graph ` set (ar_graphs db)"
  shows "effective_role shared db allow user g = effective_role shared db allow user (before_chr CHR ''_'' g)"
proof -
  have "filter (\<lambda>r. og_graph r = before_chr CHR ''_'' g \<or> og_graph r = g) (ar_graphs db) =
      filter (\<lambda>r. og_graph r = before_chr CHR ''_'' g \<or> og_graph r = before_chr CHR ''_'' g) (ar_graphs db)"
    using assms(3) by (intro filter_cong) auto
  with assms(1,2) show ?thesis unfolding effective_role_def parse_graph_id_def by simp
qed

text \<open>An administrator has every role, a member no more than that of a writer.\<close>

lemma roles_ordered:
  "user_has_admin_access shared db False user g \<Longrightarrow> user_has_write_access shared db user g"
  "user_has_write_access shared db user g \<Longrightarrow> user_has_access shared db False user g"
  by (auto simp: user_has_admin_access_def user_has_write_access_def has_role_def user_has_access_def at_least_def role_rank_def
      split: option.splits graph_role.splits)

subsection \<open>The graph service\<close>

text \<open>
  The service looks for its forbidden words as parts of the raw text: an authorised read that
  names stock option grants in a literal is refused.
\<close>

definition grants_query :: string where
  "grants_query = ''MATCH (e {n: '' @ [CHR 0x22] @ ''OptionGrants'' @ [CHR 0x22] @ ''}) RETURN e''"

lemma service_refuses_authorised_read:
  "authorize Cypher shared db user g grants_query = Inr \<lparr>au_write = False, au_subgraph = parse_subgraph_id shared g \<noteq> None\<rparr> \<and>
   validate_cypher_query grants_query = Some (ForbiddenKeyword ''GRANT'')"
proof
  have "validate_query_security grants_query = None"
    by (rule small_query_ok) (simp_all add: grants_query_def)
  moreover have "find_write_operations (clean_query grants_query) = []" by code_simp
  ultimately have "\<not> is_write_operation grants_query" by (simp add: is_write_operation_def analyze_query_def grants_query_def)
  moreover have "\<not> is_bulk_operation grants_query" "\<not> is_admin_operation grants_query" "\<not> is_schema_ddl grants_query"
    "\<not> has_opaque_statement_call grants_query" by code_simp+
  ultimately show "authorize Cypher shared db user g grants_query = Inr \<lparr>au_write = False, au_subgraph = parse_subgraph_id shared g \<noteq> None\<rparr>"
    by (simp add: authorize_def authorize_cypher_def)
  have "strip grants_query \<noteq> []" "find_row (\<lambda>k. contains k (upper grants_query)) forbidden_keywords = Some ''GRANT''" by code_simp+
  then show "validate_cypher_query grants_query = Some (ForbiddenKeyword ''GRANT'')" by (simp add: validate_cypher_query_def)
qed

subsection \<open>Concrete statements\<close>

definition demo_access :: access_rows where
  "demo_access = \<lparr>ar_graphs = [\<lparr>og_graph = ''kg0123456789abcdef'', og_org = Some ''org'', og_status = ''active'', og_deleted = False\<rparr>],
     ar_members = [(''ann'', ''kg0123456789abcdef'', ''member''), (''vic'', ''kg0123456789abcdef'', ''viewer'')],
     ar_orgs = [(''org'', ''ann'', OrgMember)]\<rparr>"

definition demo_write :: string where
  "demo_write = ''MATCH (n) SET n.x=1''"

lemma demo_write_classified:
  "is_write_operation demo_write" "\<not> is_bulk_operation demo_write" "\<not> is_admin_operation demo_write" "\<not> is_schema_ddl demo_write"
  "\<not> has_opaque_statement_call demo_write"
proof -
  have "find_write_operations (clean_query demo_write) \<noteq> []" by code_simp
  then show "is_write_operation demo_write"
    by (auto simp: is_write_operation_def analyze_query_def split: option.splits)
  show "\<not> is_bulk_operation demo_write" "\<not> is_admin_operation demo_write" "\<not> is_schema_ddl demo_write"
    "\<not> has_opaque_statement_call demo_write" by code_simp+
qed

lemma authorised_statement_within_policy_witness:
  "authorize Cypher [''sec''] demo_access ''ann'' ''kg0123456789abcdef_dev'' demo_write = Inr \<lparr>au_write = True, au_subgraph = True\<rparr> \<and>
   user_has_write_access [''sec''] demo_access ''ann'' ''kg0123456789abcdef_dev'' \<and> \<not> occurs_word ''COPY'' (clean_query demo_write)"
proof -
  have "parse_subgraph_id [''sec''] ''kg0123456789abcdef_dev'' \<noteq> None" "\<not> is_shared_or_subgraph [''sec''] (lower ''kg0123456789abcdef_dev'')"
    by code_simp+
  moreover have w: "user_has_write_access [''sec''] demo_access ''ann'' ''kg0123456789abcdef_dev''" by code_simp
  ultimately have a: "authorize Cypher [''sec''] demo_access ''ann'' ''kg0123456789abcdef_dev'' demo_write = Inr \<lparr>au_write = True, au_subgraph = True\<rparr>"
    using demo_write_classified by (simp add: authorize_def authorize_cypher_def)
  from authorised_statement_within_policy [OF a] have "\<not> occurs_word ''COPY'' (clean_query demo_write)"
    by (simp add: within_policy_def bulk_keywords_def)
  with a w show ?thesis by blast
qed

end
